(* ===== verification/AssetDecimals.thy ===== *)
theory AssetDecimals imports Prelude begin

text \<open>
  \<open>src/lib/assets/assetDecimals.js\<close>: the decimals of an asset, and the conversion
  between display amounts (decimal strings) and minor units (\<open>BigInt\<close>, here \<open>int\<close>).
\<close>

section \<open>Definitions\<close>

datatype asset_error =
    invalid_display_amount
  | invalid_display_amount_format
  | invalid_decimals
  | amount_exceeds_max_i128_boundary
  | negative_minor_units_not_allowed
  | range_error

definition DEFAULT_ASSET_DECIMALS :: "string \<Rightarrow> nat option" where
  "DEFAULT_ASSET_DECIMALS =
     map_of [(''XLM'', 7), (''NATIVE'', 7), (''USDC'', 7), (''EURC'', 7)]"

text \<open>
  \<open>None\<close> for \<open>assetCode\<close> is any value that is not a string; \<open>None\<close> for
  \<open>customDecimals\<close> is \<open>null\<close> or \<open>undefined\<close>.
\<close>

definition getAssetDecimals :: "string option \<Rightarrow> jsnum option \<Rightarrow> rat" where
  "getAssetDecimals assetCode customDecimals =
     (let code = (case assetCode of Some s \<Rightarrow> hd (js_split (CHR '':'') (js_upper s))
                                  | None \<Rightarrow> ''NATIVE'');
          fallback = (case DEFAULT_ASSET_DECIMALS code of Some d \<Rightarrow> of_nat d | None \<Rightarrow> 7)
      in case customDecimals of
           Some (Fin d) \<Rightarrow> if is_integer d \<and> 0 \<le> d \<and> d \<le> 18 then d else fallback
         | _ \<Rightarrow> fallback)"

text \<open>The regular expression \<^verbatim>\<open>/^\d+(\.\d+)?$/\<close>.\<close>

definition matches_amount :: "string \<Rightarrow> bool" where
  "matches_amount s \<longleftrightarrow>
     (let int_part = takeWhile is_digit s; rest = dropWhile is_digit s
      in int_part \<noteq> [] \<and>
         (case rest of [] \<Rightarrow> True
          | c # fr \<Rightarrow> c = CHR ''.'' \<and> fr \<noteq> [] \<and> list_all is_digit fr))"

definition I128_MAX :: int where
  "I128_MAX = 170141183460469231731687303715884105727"

definition pad_end :: "nat \<Rightarrow> string \<Rightarrow> string" where
  "pad_end n s = s @ replicate (n - length s) (CHR ''0'')"

definition pad_start :: "nat \<Rightarrow> string \<Rightarrow> string" where
  "pad_start n s = replicate (n - length s) (CHR ''0'') @ s"

definition toMinorUnits :: "string option \<Rightarrow> jsnum \<Rightarrow> asset_error + int" where
  "toMinorUnits displayAmount decimals =
     (case displayAmount of
        None \<Rightarrow> Inl invalid_display_amount
      | Some d \<Rightarrow>
          if d = [] then Inl invalid_display_amount
          else let str = js_trim d in
          if \<not> matches_amount str then Inl invalid_display_amount_format
          else let parts = js_split (CHR ''.'') str;
                   integerPart = hd parts;
                   fractionalPart = (case tl parts of [] \<Rightarrow> [] | f # _ \<Rightarrow> f)
          in case decimals of
               Fin dec \<Rightarrow>
                 if \<not> is_integer dec \<or> dec < 0 \<or> 18 < dec then Inl invalid_decimals
                 else let n = nat \<lfloor>dec\<rfloor>;
                          paddedFraction = take n (pad_end n fractionalPart);
                          v = int (digits_val (integerPart @ paddedFraction))
                      in if I128_MAX < v then Inl amount_exceeds_max_i128_boundary else Inr v
             | _ \<Rightarrow> Inl invalid_decimals)"

definition strip_zeros :: "string \<Rightarrow> string" where
  "strip_zeros s = rev (dropWhile (\<lambda>c. c = CHR ''0'') (rev s))"

text \<open>
  \<open>BigInt(dec)\<close> raises a \<open>RangeError\<close> for a number that is not an integer, and
  \<open>10n ** BigInt(dec)\<close> one for a negative exponent.
\<close>

definition toDisplayAmount :: "int \<Rightarrow> jsnum \<Rightarrow> asset_error + string" where
  "toDisplayAmount minorUnits decimals =
     (if minorUnits < 0 then Inl negative_minor_units_not_allowed
      else if decimals = Fin 0 then Inr (nat_str (nat minorUnits))
      else case decimals of
             Fin dec \<Rightarrow>
               if \<not> is_integer dec \<or> dec < 0 then Inl range_error
               else let n = nat \<lfloor>dec\<rfloor>;
                        scale = 10 ^ n;
                        integerPart = nat_str (nat minorUnits div scale);
                        remainder = pad_start n (nat_str (nat minorUnits mod scale));
                        cleanRemainder = strip_zeros remainder
                    in Inr (if cleanRemainder \<noteq> [] then integerPart @ CHR ''.'' # cleanRemainder
                            else integerPart)
           | _ \<Rightarrow> Inl range_error)"

definition clamp_bps :: "jsnum \<Rightarrow> rat" where
  "clamp_bps r = (case r of NaN \<Rightarrow> 0 | PInf \<Rightarrow> 10000 | NInf \<Rightarrow> 0 | Fin x \<Rightarrow> min 10000 (max 0 x))"

text \<open>\<open>BigInt\<close> of the clamped ratio raises when the ratio is not an integer.\<close>

definition calculateMaxRefundMinorUnits :: "int \<Rightarrow> jsnum \<Rightarrow> asset_error + int" where
  "calculateMaxRefundMinorUnits original refundRatioBps =
     (if original \<le> 0 then Inr 0
      else let bps = clamp_bps refundRatioBps in
        if \<not> is_integer bps then Inl range_error
        else let refundAmount = (original * \<lfloor>bps\<rfloor>) div 10000
             in Inr (if original < refundAmount then original else refundAmount))"

section \<open>Padding, stripping and the accepted strings\<close>

lemma pad_end_take: "take n (pad_end n f) = take n f @ replicate (n - length f) (CHR ''0'')"
  by (simp add: pad_end_def)

lemma digits_val_pad_end:
  assumes "list_all is_digit f"
  shows "digits_val (a @ take n (pad_end n f)) = digits_val (a @ f) * 10 ^ n div 10 ^ length f"
proof (cases "n \<le> length f")
  case True
  let ?k = "length f - n"
  have f: "f = take n f @ drop n f" by simp
  have "digits_val (a @ f) = digits_val (a @ take n f) * 10 ^ ?k + digits_val (drop n f)"
    using digits_val_append [of "a @ take n f" "drop n f"] by simp
  moreover have "list_all is_digit (drop n f)"
    using assms f by (metis list_all_append)
  then have "digits_val (drop n f) < 10 ^ ?k" using digits_val_bound by fastforce
  ultimately have "digits_val (a @ f) div 10 ^ ?k = digits_val (a @ take n f)" by simp
  moreover have "(10::nat) ^ length f = 10 ^ ?k * 10 ^ n" using True by (simp flip: power_add)
  ultimately show ?thesis using True by (simp add: pad_end_take)
next
  case False
  then have "(10::nat) ^ n = 10 ^ (n - length f) * 10 ^ length f" by (simp flip: power_add)
  with False show ?thesis
    using digits_val_append [of "a @ f" "replicate (n - length f) (CHR ''0'')"]
    by (simp add: pad_end_take)
qed

lemma digits_val_pad_start [simp]: "digits_val (pad_start n s) = digits_val s"
  by (simp add: pad_start_def digits_val_append)

lemma is_digit_zero [simp]: "is_digit (CHR ''0'')"
  by (simp add: is_digit_def)

lemma pad_start_digits: "list_all is_digit s \<Longrightarrow> list_all is_digit (pad_start n s)"
  by (auto simp: pad_start_def list_all_iff)

lemma pad_start_length: "length s \<le> n \<Longrightarrow> length (pad_start n s) = n"
  by (simp add: pad_start_def)

lemma strip_zeros_append: "\<exists>k. s = strip_zeros s @ replicate k (CHR ''0'')"
proof -
  let ?z = "\<lambda>c. c = CHR ''0''"
  have "rev s = takeWhile ?z (rev s) @ dropWhile ?z (rev s)" by simp
  then have "s = strip_zeros s @ rev (takeWhile ?z (rev s))"
    unfolding strip_zeros_def by (metis rev_append rev_rev_ident)
  moreover have "rev (takeWhile ?z (rev s)) = replicate (length (takeWhile ?z (rev s))) (CHR ''0'')"
    by (rule replicate_eqI) (auto dest: set_takeWhileD)
  ultimately show ?thesis by metis
qed

lemma strip_zeros_digits: "list_all is_digit s \<Longrightarrow> list_all is_digit (strip_zeros s)"
  by (metis strip_zeros_append list_all_append)

lemma takeWhile_digits: "list_all is_digit a \<Longrightarrow> takeWhile is_digit a = a \<and> dropWhile is_digit a = []"
  by (auto simp: list_all_iff)

lemma not_digit_dot [simp]: "\<not> is_digit (CHR ''.'')"
  by (simp add: is_digit_def)

lemma takeWhile_digits_dot:
  assumes "list_all is_digit a"
  shows "takeWhile is_digit (a @ CHR ''.'' # f) = a" "dropWhile is_digit (a @ CHR ''.'' # f) = CHR ''.'' # f"
  using assms by (auto simp: list_all_iff)

lemma matches_amount_int: "list_all is_digit a \<Longrightarrow> a \<noteq> [] \<Longrightarrow> matches_amount a"
  unfolding matches_amount_def by (simp add: takeWhile_digits Let_def)

lemma matches_amount_frac:
  "list_all is_digit a \<Longrightarrow> a \<noteq> [] \<Longrightarrow> list_all is_digit f \<Longrightarrow> f \<noteq> [] \<Longrightarrow>
   matches_amount (a @ CHR ''.'' # f)"
  unfolding matches_amount_def by (simp add: takeWhile_digits_dot Let_def)

lemma digits_no_dot: "list_all is_digit a \<Longrightarrow> CHR ''.'' \<notin> set a"
  by (auto simp: list_all_iff)

lemma digits_hd_last:
  "list_all is_digit a \<Longrightarrow> a \<noteq> [] \<Longrightarrow> \<not> is_space (hd a) \<and> \<not> is_space (last a)"
  by (simp add: list_all_iff is_digit_not_space)

lemma js_trim_digits: "list_all is_digit a \<Longrightarrow> a \<noteq> [] \<Longrightarrow> js_trim a = a"
  by (simp add: js_trim_id digits_hd_last)

lemma js_trim_frac:
  "list_all is_digit a \<Longrightarrow> a \<noteq> [] \<Longrightarrow> list_all is_digit f \<Longrightarrow> f \<noteq> [] \<Longrightarrow>
   js_trim (a @ CHR ''.'' # f) = a @ CHR ''.'' # f"
  by (rule js_trim_id) (simp_all add: digits_hd_last)

text \<open>What the parser returns on the two accepted shapes.\<close>

lemma toMinorUnits_frac:
  assumes "list_all is_digit a" "a \<noteq> []" "list_all is_digit f" "f \<noteq> []" "n \<le> 18"
  shows "toMinorUnits (Some (a @ CHR ''.'' # f)) (Fin (of_nat n)) =
    (let v = int (digits_val (a @ f) * 10 ^ n div 10 ^ length f)
     in if I128_MAX < v then Inl amount_exceeds_max_i128_boundary else Inr v)"
proof -
  have "js_split (CHR ''.'') (a @ CHR ''.'' # f) = [a, f]"
    using assms by (simp add: js_split_at js_split_no_sep digits_no_dot)
  then show ?thesis
    unfolding toMinorUnits_def using assms
    by (simp add: js_trim_frac matches_amount_frac digits_val_pad_end Let_def)
qed

lemma toMinorUnits_int:
  assumes "list_all is_digit a" "a \<noteq> []" "n \<le> 18"
  shows "toMinorUnits (Some a) (Fin (of_nat n)) =
    (let v = int (digits_val a * 10 ^ n)
     in if I128_MAX < v then Inl amount_exceeds_max_i128_boundary else Inr v)"
proof -
  have "digits_val (a @ take n (pad_end n [])) = digits_val a * 10 ^ n"
    using digits_val_pad_end [of "[]" a n] by simp
  then show ?thesis
    unfolding toMinorUnits_def using assms
    by (simp add: js_trim_digits matches_amount_int js_split_no_sep digits_no_dot Let_def)
qed

section \<open>Properties\<close>

text \<open>
  An accepted amount with integer part \<open>a\<close> and fraction \<open>f\<close> is converted to its exact
  value in minor units, rounded down; the only other outcome is the i128 overflow error.
\<close>

theorem toMinorUnits_rounds_down:
  assumes "list_all is_digit a" "a \<noteq> []" "list_all is_digit f" "f \<noteq> []" "n \<le> 18"
  shows "toMinorUnits (Some (a @ CHR ''.'' # f)) (Fin (of_nat n)) =
    (let v = \<lfloor>(of_nat (digits_val a) + of_nat (digits_val f) / 10 ^ length f) * (10 ^ n :: rat)\<rfloor>
     in if I128_MAX < v then Inl amount_exceeds_max_i128_boundary else Inr v)"
proof -
  have "(of_nat (digits_val a) + of_nat (digits_val f) / 10 ^ length f) * (10 ^ n :: rat)
      = of_nat (digits_val (a @ f) * 10 ^ n) / of_nat (10 ^ length f)"
    by (simp add: digits_val_append field_simps)
  also have "\<lfloor>\<dots>\<rfloor> = int (digits_val (a @ f) * 10 ^ n div 10 ^ length f)"
    by (metis floor_divide_of_nat_eq)
  finally show ?thesis using toMinorUnits_frac [OF assms] by simp
qed

theorem toMinorUnits_rounds_down_witness:
  "toMinorUnits (Some ''10.57'') (Fin 1) = Inr 105"
proof -
  have "\<lfloor>1057 / 10 :: rat\<rfloor> = 105" by (rule floor_unique) simp_all
  then have "toMinorUnits (Some (''10'' @ CHR ''.'' # ''57'')) (Fin (of_nat 1)) = Inr 105"
    by (subst toMinorUnits_rounds_down)
       (simp_all add: is_digit_def digits_val_def digit_of_def I128_MAX_def)
  then show ?thesis by simp
qed

text \<open>
  C40: Printing a minor-unit amount and parsing it back with the same decimals returns it,
  for every amount of the i128 range and every supported number of decimals.
\<close>

theorem display_roundtrip:
  assumes "0 \<le> m" "m \<le> I128_MAX" "n \<le> 18"
  shows "\<exists>s. toDisplayAmount m (Fin (of_nat n)) = Inr s \<and>
             toMinorUnits (Some s) (Fin (of_nat n)) = Inr m"
proof (cases "n = 0")
  case True
  then show ?thesis
    using assms toMinorUnits_int [of "nat_str (nat m)" 0] nat_str_digits
    by (simp add: toDisplayAmount_def)
next
  case False
  define q where "q = nat_str (nat m div 10 ^ n)"
  define r where "r = pad_start n (nat_str (nat m mod 10 ^ n))"
  define f where "f = strip_zeros r"
  have q: "list_all is_digit q" "q \<noteq> []" "digits_val q = nat m div 10 ^ n"
    by (simp_all add: q_def nat_str_digits)
  have len: "length r = n"
    unfolding r_def using False by (intro pad_start_length nat_str_length) simp_all
  have r: "list_all is_digit r" "digits_val r = nat m mod 10 ^ n"
    by (simp_all add: r_def nat_str_digits pad_start_digits)
  obtain k where k: "r = f @ replicate k (CHR ''0'')" using strip_zeros_append f_def by blast
  have f: "list_all is_digit f" using r(1) f_def strip_zeros_digits by blast
  have n: "n = length f + k" using len k by simp
  have "digits_val r = digits_val f * 10 ^ k" by (simp add: k digits_val_append)
  then have m: "nat m = digits_val q * 10 ^ n + digits_val f * 10 ^ k"
    using q(3) r(2) by (metis div_mult_mod_eq)
  have disp: "toDisplayAmount m (Fin (of_nat n)) = Inr (if f \<noteq> [] then q @ CHR ''.'' # f else q)"
    using assms False by (simp add: toDisplayAmount_def q_def r_def f_def Let_def)
  have ok: "int (nat m) = m" "\<not> I128_MAX < m" using assms by auto
  show ?thesis
  proof (cases "f = []")
    case True
    then show ?thesis
      using disp toMinorUnits_int [OF q(1,2) assms(3)] m ok by (simp add: Let_def)
  next
    case False
    have "digits_val (q @ f) * 10 ^ n = nat m * 10 ^ length f"
      using m n by (simp add: digits_val_append power_add algebra_simps)
    then have "digits_val (q @ f) * 10 ^ n div 10 ^ length f = nat m" by simp
    then show ?thesis
      using disp False toMinorUnits_frac [OF q(1,2) f False assms(3)] ok by (simp add: Let_def)
  qed
qed

theorem display_roundtrip_witness:
  "\<exists>s. toDisplayAmount 105000000 (Fin 7) = Inr s \<and> toMinorUnits (Some s) (Fin 7) = Inr 105000000"
  using display_roundtrip [of 105000000 7] by (simp add: I128_MAX_def)

text \<open>
  The maximal refund of a payment exists for every whole basis-point ratio, is the exact
  share rounded down, and is never negative nor above the payment, whatever the ratio.
\<close>

theorem maxRefund_bounded:
  "(\<forall>r. calculateMaxRefundMinorUnits original ratio = Inr r \<longrightarrow>
        0 \<le> r \<and> r \<le> max 0 original \<and> of_int (10000 * r) \<le> of_int (max 0 original) * clamp_bps ratio) \<and>
   (is_integer (clamp_bps ratio) \<longrightarrow>
     calculateMaxRefundMinorUnits original ratio = Inr (max 0 original * \<lfloor>clamp_bps ratio\<rfloor> div 10000))"
proof (cases "original \<le> 0 \<or> \<not> is_integer (clamp_bps ratio)")
  case True
  have "0 \<le> clamp_bps ratio" by (simp add: clamp_bps_def split: jsnum.splits)
  with True show ?thesis by (auto simp: calculateMaxRefundMinorUnits_def Let_def max_def)
next
  case False
  then obtain b where b: "clamp_bps ratio = of_int b" by (auto simp: is_integer_def)
  have "0 \<le> clamp_bps ratio" "clamp_bps ratio \<le> 10000"
    by (simp_all add: clamp_bps_def split: jsnum.splits)
  then have b0: "0 \<le> b" "b \<le> 10000" using b by simp_all
  let ?r = "original * b div 10000"
  have "original * b \<le> original * 10000" using b0 False by (intro mult_left_mono) auto
  then have le: "?r \<le> original" by simp
  have "0 \<le> original * b" using b0 False by simp
  then have nn: "0 \<le> ?r" by simp
  have ex: "10000 * ?r \<le> original * b" by (metis mult.commute mult_div_mod_eq linorder_not_le add_less_same_cancel1 pos_mod_sign zero_less_numeral)
  have "(of_int (10000 * ?r) :: rat) \<le> of_int (original * b)" using ex by (rule of_int_le_iff [THEN iffD2])
  then show ?thesis
    using False b le nn by (simp add: calculateMaxRefundMinorUnits_def Let_def max_def)
qed

theorem maxRefund_bounded_witness:
  "calculateMaxRefundMinorUnits 1000 (Fin 2550) = Inr 255"
proof -
  have "clamp_bps (Fin 2550) = 2550" by (simp add: clamp_bps_def)
  then show ?thesis using maxRefund_bounded [of 1000 "Fin 2550"] by simp
qed

end
