(* ===== verification/TaxEstimator.thy ===== *)
theory TaxEstimator imports Prelude begin

text \<open>
  \<open>src/lib/checkout/taxEstimator.js\<close>: the tax applied to a checkout. The geolocation service
  is outside the repository: what \<open>fetch\<close> makes of an address is the parameter \<open>fetch\<close> of the
  definitions below, with one constructor per way the code sees the call end.
\<close>

section \<open>Definitions\<close>

definition DEFAULT_TAX_RATES :: "(string \<times> int) list" where
  "DEFAULT_TAX_RATES =
    [(''US'', 800), (''GB'', 2000), (''DE'', 1900), (''FR'', 2000), (''CA'', 500), (''AU'', 1000),
     (''JP'', 1000), (''IN'', 1800), (''BR'', 1700), (''MX'', 1600), (''IT'', 2200), (''ES'', 2100),
     (''NL'', 2100), (''BE'', 2100), (''AT'', 2000), (''CH'', 77), (''SE'', 2500), (''NO'', 2500),
     (''DK'', 2500), (''PL'', 2300), (''CZ'', 2100), (''HU'', 2700), (''RO'', 1900), (''BG'', 2000),
     (''GR'', 2400), (''PT'', 2300), (''FI'', 2400), (''IE'', 2300), (''LU'', 1700), (''SK'', 2000),
     (''SI'', 2200), (''EE'', 2000), (''LV'', 2100), (''LT'', 2100), (''CY'', 1900), (''MT'', 1800),
     (''DEFAULT'', 0)]"

text \<open>The response of the geolocation service; \<open>None\<close> is an absent or empty field.\<close>

datatype geo_response =
    Fetch_throws
  | Not_ok nat
  | Body "string option" "string option" "string option" "string option"

record geo_data =
  countryCode :: string
  countryName :: string
  region :: "string option"
  city :: "string option"

definition unknown_geo :: geo_data where
  "unknown_geo = \<lparr>countryCode = ''DEFAULT'', countryName = ''Unknown'', region = None, city = None\<rparr>"

definition resolveGeolocation :: "(string \<Rightarrow> geo_response) \<Rightarrow> string \<Rightarrow> geo_data" where
  "resolveGeolocation fetch ipAddress =
     (case fetch ipAddress of
        Fetch_throws \<Rightarrow> unknown_geo
      | Not_ok _ \<Rightarrow> unknown_geo
      | Body cc country reg c \<Rightarrow>
          \<lparr>countryCode = or_default cc ''DEFAULT'', countryName = or_default country ''Unknown'',
           region = reg, city = c\<rparr>)"

definition getTaxRateForCountry :: "string option \<Rightarrow> int" where
  "getTaxRateForCountry cc =
     (let upperCode = or_default (map_option js_upper cc) ''DEFAULT'' in
      case map_of DEFAULT_TAX_RATES upperCode of Some r \<Rightarrow> r | None \<Rightarrow> 0)"

definition calculateTaxAmount :: "rat \<Rightarrow> int \<Rightarrow> int" where
  "calculateTaxAmount baseAmount taxRateBps = js_round (baseAmount * of_int taxRateBps / 10000)"

text \<open>\<open>(taxRateBps / 100).toFixed(2)\<close> for a non-negative whole rate.\<close>

definition percent_str :: "int \<Rightarrow> string" where
  "percent_str bps =
     nat_str (nat bps div 100) @ CHR ''.'' #
       [char_of_digit (nat bps div 10 mod 10), char_of_digit (nat bps mod 10)]"

record tax_estimation =
  te_baseAmount :: rat
  te_taxRateBps :: int
  te_taxRatePercent :: string
  te_taxAmount :: int
  te_totalAmount :: rat
  te_geolocation :: geo_data

definition estimateTax ::
  "(string \<Rightarrow> geo_response) \<Rightarrow> string option \<Rightarrow> rat \<Rightarrow> string option \<Rightarrow> tax_estimation" where
  "estimateTax fetch ipAddress baseAmount cc =
     (let geoData =
            (if or_default cc [] \<noteq> []
             then \<lparr>countryCode = or_default cc [], countryName = ''Provided'', region = None, city = None\<rparr>
             else if or_default ipAddress [] \<noteq> [] then resolveGeolocation fetch (or_default ipAddress [])
             else unknown_geo);
          taxRateBps = getTaxRateForCountry (Some (countryCode geoData));
          taxAmount = calculateTaxAmount baseAmount taxRateBps
      in \<lparr>te_baseAmount = baseAmount, te_taxRateBps = taxRateBps,
          te_taxRatePercent = percent_str taxRateBps, te_taxAmount = taxAmount,
          te_totalAmount = baseAmount + of_int taxAmount, te_geolocation = geoData\<rparr>)"

text \<open>
  A checkout intent: \<open>amount\<close> is \<open>None\<close> when it is absent or not a number. The result keeps
  the intent's fields and adds the tax.
\<close>

record checkout_intent =
  amount :: "rat option"
  buyerIp :: "string option"
  buyerCountry :: "string option"

record taxed_checkout = checkout_intent +
  originalAmount :: rat
  taxAmount :: int
  taxRateBps :: int
  totalAmount :: rat
  geolocation :: geo_data

datatype tax_error = Invalid_amount_for_tax_calculation

definition applyTaxToCheckout ::
  "(string \<Rightarrow> geo_response) \<Rightarrow> checkout_intent \<Rightarrow> tax_error + taxed_checkout" where
  "applyTaxToCheckout fetch ci =
     (case amount ci of
        None \<Rightarrow> Inl Invalid_amount_for_tax_calculation
      | Some a \<Rightarrow>
          if a \<le> 0 then Inl Invalid_amount_for_tax_calculation
          else let te = estimateTax fetch (buyerIp ci) a (buyerCountry ci)
               in Inr \<lparr>amount = amount ci, buyerIp = buyerIp ci, buyerCountry = buyerCountry ci,
                       originalAmount = a, taxAmount = te_taxAmount te,
                       taxRateBps = te_taxRateBps te, totalAmount = te_totalAmount te,
                       geolocation = te_geolocation te\<rparr>)"

definition isValidTaxRate :: "int \<Rightarrow> bool" where
  "isValidTaxRate bps \<longleftrightarrow> 0 \<le> bps \<and> bps \<le> 3000"

section \<open>The rate table\<close>

lemma rates_valid: "list_all (\<lambda>(_, r). isValidTaxRate r) DEFAULT_TAX_RATES"
  by (simp add: DEFAULT_TAX_RATES_def isValidTaxRate_def)

lemma rate_valid: "isValidTaxRate (getTaxRateForCountry cc)"
proof -
  have "isValidTaxRate r" if "map_of DEFAULT_TAX_RATES u = Some r" for u r
    using that rates_valid by (auto simp: list_all_iff dest: map_of_SomeD)
  then show ?thesis
    by (auto simp: getTaxRateForCountry_def Let_def isValidTaxRate_def split: option.splits)
qed

lemma rate_range: "0 \<le> getTaxRateForCountry cc" "getTaxRateForCountry cc \<le> 3000"
  using rate_valid [of cc] by (simp_all add: isValidTaxRate_def)

lemma tax_nonneg: "0 \<le> b \<Longrightarrow> 0 \<le> calculateTaxAmount b (getTaxRateForCountry cc)"
  unfolding calculateTaxAmount_def by (intro js_round_nonneg) (simp add: rate_range)

lemma tax_upper:
  assumes "0 \<le> b"
  shows "of_int (calculateTaxAmount b (getTaxRateForCountry cc)) \<le> b * 3 / 10 + 1 / 2"
proof -
  have "b * of_int (getTaxRateForCountry cc) \<le> b * 3000"
    using assms rate_range [of cc] by (intro mult_left_mono) simp_all
  then show ?thesis
    unfolding calculateTaxAmount_def
    using js_round_bounds [of "b * of_int (getTaxRateForCountry cc) / 10000"] by simp
qed

lemma estimateTax_total:
  "te_totalAmount (estimateTax fetch ip b cc) = b + of_int (te_taxAmount (estimateTax fetch ip b cc))"
  by (simp add: estimateTax_def Let_def)

lemma estimateTax_rate:
  "te_taxAmount (estimateTax fetch ip b cc) =
   calculateTaxAmount b (getTaxRateForCountry (Some (countryCode (te_geolocation (estimateTax fetch ip b cc)))))"
  by (simp add: estimateTax_def Let_def)

lemma upper_lower [simp]: "upper_char (lower_char c) = upper_char c"
proof -
  have u: "(of_char (upper_char c) :: nat) =
           (if 97 \<le> (of_char c :: nat) \<and> (of_char c :: nat) \<le> 122 then of_char c - 32 else of_char c)" for c
    by (auto simp: upper_char_def of_char_of take_bit_eq_mod)
  have l: "(of_char (lower_char c) :: nat) =
           (if 65 \<le> (of_char c :: nat) \<and> (of_char c :: nat) \<le> 90 then of_char c + 32 else of_char c)"
    by (auto simp: lower_char_def of_char_of take_bit_eq_mod)
  have "(of_char (upper_char (lower_char c)) :: nat) = of_char (upper_char c)"
    by (simp add: u l)
  then show ?thesis by (simp only: of_char_eq_iff)
qed

lemma js_upper_lower [simp]: "js_upper (js_lower s) = js_upper s"
  by (simp add: js_upper_def js_lower_def)

section \<open>Properties\<close>

text \<open>
  Whatever the country, the rate looked up is a rate \<open>isValidTaxRate\<close> accepts (between 0 and
  30 percent), and the lookup ignores the case of the country code.
\<close>

lemma tax_rate_in_bounds:
  "isValidTaxRate (getTaxRateForCountry cc) \<and>
   getTaxRateForCountry (map_option js_lower cc) = getTaxRateForCountry cc"
proof
  show "isValidTaxRate (getTaxRateForCountry cc)" by (rule rate_valid)
  show "getTaxRateForCountry (map_option js_lower cc) = getTaxRateForCountry cc"
    by (simp add: getTaxRateForCountry_def option.map_comp o_def)
qed

text \<open>
  Tax is refused exactly for an amount that is missing, zero or negative; otherwise the total
  is the original amount plus a non-negative tax of at most 30 percent (and half a unit of
  rounding), whatever the geolocation service answers.
\<close>

theorem applyTax_total:
  "case applyTaxToCheckout fetch ci of
     Inl e \<Rightarrow> amount ci = None \<or> (\<exists>a. amount ci = Some a \<and> a \<le> 0)
   | Inr t \<Rightarrow> amount ci = Some (originalAmount t) \<and> 0 < originalAmount t \<and>
       totalAmount t = originalAmount t + of_int (taxAmount t) \<and> 0 \<le> taxAmount t \<and>
       of_int (taxAmount t) \<le> originalAmount t * 3 / 10 + 1 / 2"
  by (auto simp: applyTaxToCheckout_def Let_def estimateTax_total estimateTax_rate tax_nonneg tax_upper
           split: option.splits)

text \<open>
  A checkout with no country whose geolocation fails (the request throws or is refused)
  is charged no tax.
\<close>

lemma geolocation_failure_no_tax:
  assumes "amount ci = Some a" "0 < a" "or_default (buyerCountry ci) [] = []"
    and "fetch (or_default (buyerIp ci) []) \<in> {Fetch_throws, Not_ok st}"
  shows "\<exists>t. applyTaxToCheckout fetch ci = Inr t \<and> taxAmount t = 0 \<and> totalAmount t = a"
proof -
  let ?te = "estimateTax fetch (buyerIp ci) a (buyerCountry ci)"
  have "te_geolocation ?te = unknown_geo"
    using assms by (auto simp: estimateTax_def Let_def resolveGeolocation_def)
  moreover have "getTaxRateForCountry (Some ''DEFAULT'') = 0"
    by (simp add: getTaxRateForCountry_def or_default_def js_upper_def upper_char_def DEFAULT_TAX_RATES_def)
  ultimately have "te_taxAmount ?te = 0"
    by (simp add: estimateTax_rate unknown_geo_def calculateTaxAmount_def)
  then show ?thesis
    using assms by (simp add: applyTaxToCheckout_def Let_def estimateTax_total)
qed

text \<open>
  The table gives Switzerland 77 basis points, printed as 0.77 percent, while every other
  listed country is charged at least 5 percent: the source's comment on that line says 7.7
  percent, which would be 770 basis points.
\<close>

lemma swiss_rate_is_077_percent:
  "getTaxRateForCountry (Some ''CH'') = 77 \<and> percent_str 77 = ''0.77'' \<and>
   list_all (\<lambda>(c, r). c \<in> {''CH'', ''DEFAULT''} \<or> 500 \<le> r) DEFAULT_TAX_RATES"
proof (intro conjI)
  show "getTaxRateForCountry (Some ''CH'') = 77"
    by (simp add: getTaxRateForCountry_def or_default_def js_upper_def upper_char_def DEFAULT_TAX_RATES_def)
  show "percent_str 77 = ''0.77''"
    by code_simp
  show "list_all (\<lambda>(c, r). c \<in> {''CH'', ''DEFAULT''} \<or> 500 \<le> r) DEFAULT_TAX_RATES"
    by (simp add: DEFAULT_TAX_RATES_def)
qed

end
