(* ===== verification/TransitionTables.thy ===== *)
theory TransitionTables imports Prelude begin

text \<open>
  The interface of a transition table: an object that maps each status to the list of the
  statuses it may move to. Several components keep one (material lifecycle, entitlements);
  the lemmas on runs through a table are proved here once.
\<close>

section \<open>Runs through a table\<close>

type_synonym 's table = "('s \<times> 's list) list"

definition next_of :: "'s table \<Rightarrow> 's \<Rightarrow> 's list" where
  "next_of tab s = (case map_of tab s of Some l \<Rightarrow> l | None \<Rightarrow> [])"

inductive reaches :: "('s \<Rightarrow> 's \<Rightarrow> bool) \<Rightarrow> 's \<Rightarrow> 's \<Rightarrow> bool" for step where
  here: "reaches step s s"
| onward: "reaches step s t \<Longrightarrow> step t u \<Longrightarrow> reaches step s u"

lemma reaches_one: "step s t \<Longrightarrow> reaches step s t"
  by (rule reaches.onward) (rule reaches.here)

lemma reaches_trans: "reaches step t u \<Longrightarrow> reaches step s t \<Longrightarrow> reaches step s u"
  by (induction rule: reaches.induct) (auto intro: reaches.onward)

lemma reaches_invariant:
  "reaches step s t \<Longrightarrow> P s \<Longrightarrow> (\<And>a b. step a b \<Longrightarrow> P a \<Longrightarrow> P b) \<Longrightarrow> P t"
  by (induction rule: reaches.induct) auto

section \<open>The interface\<close>

locale transition_table =
  fixes states :: "'s list"
    and nxt :: "'s \<Rightarrow> 's list"
    and terminal :: "'s \<Rightarrow> bool"
  assumes closed: "t \<in> set (nxt s) \<Longrightarrow> t \<in> set states"
    and known: "nxt s \<noteq> [] \<Longrightarrow> s \<in> set states"
    and terminal_iff: "terminal s \<longleftrightarrow> s \<in> set states \<and> nxt s = []"
begin

lemma terminal_no_exit: "terminal s \<Longrightarrow> t \<notin> set (nxt s)"
  by (simp add: terminal_iff)

lemma known_if_next: "t \<in> set (nxt s) \<Longrightarrow> s \<in> set states"
  using known by (cases "nxt s") auto

text \<open>A step relation that follows the table (or stays) keeps what it reaches in the table.\<close>

lemma reaches_known:
  assumes "reaches step s t" "s \<in> set states"
    and "\<And>a b. step a b \<Longrightarrow> a = b \<or> b \<in> set (nxt a)"
  shows "t \<in> set states"
  using assms(1,2) by (induction rule: reaches.induct) (use assms(3) closed in auto)

lemma terminal_forever:
  assumes "reaches step s t" "terminal s"
    and "\<And>a b. step a b \<Longrightarrow> a = b \<or> b \<in> set (nxt a)"
  shows "t = s"
  using assms(1,2) by (induction rule: reaches.induct) (use assms(3) terminal_no_exit in blast)+

end

text \<open>
  A table given as an association list with distinct keys, whose successors are keys too,
  has the interface; its terminal statuses are the keys with no successor.
\<close>

definition table_wf :: "'s table \<Rightarrow> bool" where
  "table_wf tab \<longleftrightarrow> list_all (\<lambda>(_, l). list_all (\<lambda>t. List.member (keys tab) t) l) tab"

lemma table_transition_table:
  assumes "table_wf tab"
  shows "transition_table (keys tab) (next_of tab) (\<lambda>s. s \<in> set (keys tab) \<and> next_of tab s = [])"
proof
  fix s t assume "t \<in> set (next_of tab s)"
  then obtain l where l: "map_of tab s = Some l" "t \<in> set l"
    by (cases "map_of tab s") (auto simp: next_of_def)
  then have "(s, l) \<in> set tab" by (simp add: map_of_SomeD)
  with assms l(2) show "t \<in> set (keys tab)" by (fastforce simp: table_wf_def list_all_iff)
next
  fix s assume "next_of tab s \<noteq> []"
  then show "s \<in> set (keys tab)"
    by (auto simp: next_of_def dest: map_of_SomeD split: option.splits intro: rev_image_eqI)
qed simp

end
