(* ===== verification/MaterialLifecycle.thy ===== *)
theory MaterialLifecycle imports TransitionTables begin

text \<open>
  \<open>src/lib/db/materialLifecycle.js\<close>: the lifecycle of a material and the compare-and-set
  write that moves it. The MongoDB driver is outside the repository: the two calls the code
  makes are parameters (\<open>findOne\<close>, \<open>updateOne\<close>), with the behaviour the code relies on stated
  by \<open>lawful_store\<close>. Other writers may run between the two calls: the database the write sees
  is an argument of its own.
\<close>

section \<open>The state machine\<close>

definition VALID_TRANSITIONS :: "string table" where
  "VALID_TRANSITIONS =
    [(''draft'', [''active'']),
     (''active'', [''paused'', ''archived'', ''suspended'', ''retired'', ''removed'']),
     (''paused'', [''active'', ''archived'', ''suspended'', ''retired'', ''removed'']),
     (''archived'', [''active'', ''retired'', ''suspended'', ''removed'']),
     (''suspended'', [''active'', ''removed'']),
     (''retired'', [''active'', ''removed'']),
     (''removed'', [])]"

definition TERMINAL_STATES :: "string list" where
  "TERMINAL_STATES = filter (\<lambda>s. next_of VALID_TRANSITIONS s = []) (keys VALID_TRANSITIONS)"

definition isTerminalState :: "string \<Rightarrow> bool" where
  "isTerminalState s \<longleftrightarrow> List.member TERMINAL_STATES s"

definition isValidTransition :: "string option \<Rightarrow> string \<Rightarrow> bool" where
  "isValidTransition currentState nextState \<longleftrightarrow>
     (let f = or_default currentState ''draft'' in
      if \<not> List.member (keys VALID_TRANSITIONS) f \<or> \<not> List.member (keys VALID_TRANSITIONS) nextState
      then False
      else if f = nextState then True
      else List.member (next_of VALID_TRANSITIONS f) nextState)"

section \<open>Documents, filters and patches\<close>

text \<open>
  A material document: the fields the lifecycle writes (\<open>None\<close> is absent or \<open>null\<close>) and the
  other fields as text, which \<open>expectedFields\<close> may constrain.
\<close>

record material =
  lifecycleState :: "string option"
  isDeleted :: "bool option"
  deletedAt :: "int option"
  deletedBy :: "string option"
  deletionReason :: "string option"
  archived :: "bool option"
  moderationStatus :: "string option"
  legalTombstone :: "bool option"
  updatedAt :: "int option"
  otherFields :: "string \<Rightarrow> string option"

datatype assignment =
    Set_lifecycleState string
  | Set_updatedAt int
  | Set_isDeleted bool
  | Set_deletedAt "int option"
  | Set_deletedBy "string option"
  | Set_deletionReason "string option"
  | Set_archived bool
  | Set_moderationStatus string
  | Set_legalTombstone bool

fun apply_assignment :: "assignment \<Rightarrow> material \<Rightarrow> material" where
  "apply_assignment (Set_lifecycleState x) m = m\<lparr>lifecycleState := Some x\<rparr>"
| "apply_assignment (Set_updatedAt x) m = m\<lparr>updatedAt := Some x\<rparr>"
| "apply_assignment (Set_isDeleted x) m = m\<lparr>isDeleted := Some x\<rparr>"
| "apply_assignment (Set_deletedAt x) m = m\<lparr>deletedAt := x\<rparr>"
| "apply_assignment (Set_deletedBy x) m = m\<lparr>deletedBy := x\<rparr>"
| "apply_assignment (Set_deletionReason x) m = m\<lparr>deletionReason := x\<rparr>"
| "apply_assignment (Set_archived x) m = m\<lparr>archived := Some x\<rparr>"
| "apply_assignment (Set_moderationStatus x) m = m\<lparr>moderationStatus := Some x\<rparr>"
| "apply_assignment (Set_legalTombstone x) m = m\<lparr>legalTombstone := Some x\<rparr>"

definition apply_patch :: "assignment list \<Rightarrow> material \<Rightarrow> material" where
  "apply_patch p m = fold apply_assignment p m"

datatype state_guard = Any_state | Draft_or_missing | State_is string

record 'i material_filter =
  f_id :: 'i
  f_state :: state_guard
  f_expected :: "(string \<times> string) list"

fun guard_matches :: "state_guard \<Rightarrow> material \<Rightarrow> bool" where
  "guard_matches Any_state m = True"
| "guard_matches Draft_or_missing m = (lifecycleState m = Some ''draft'' \<or> lifecycleState m = None)"
| "guard_matches (State_is s) m = (lifecycleState m = Some s)"

definition filter_matches :: "'i material_filter \<Rightarrow> material \<Rightarrow> bool" where
  "filter_matches f m \<longleftrightarrow>
     guard_matches (f_state f) m \<and> list_all (\<lambda>(k, v). otherFields m k = Some v) (f_expected f)"

section \<open>The transition\<close>

datatype lifecycle_error = Material_not_found | Invalid_transition string string | Concurrent_modification

definition lifecycle_patch ::
  "string \<Rightarrow> string \<Rightarrow> string option \<Rightarrow> string option \<Rightarrow> int \<Rightarrow> assignment list" where
  "lifecycle_patch currentState nextState actor reason now =
     [Set_lifecycleState nextState, Set_updatedAt now] @
     (if nextState = ''retired'' then
        [Set_isDeleted True, Set_deletedAt (Some now),
         Set_deletedBy (if truthy actor then actor else None),
         Set_deletionReason (if truthy reason then reason else None)]
      else if currentState = ''retired'' \<and> nextState \<noteq> ''retired'' then
        [Set_isDeleted False, Set_deletedAt None, Set_deletedBy None, Set_deletionReason None]
      else []) @
     (if nextState = ''archived'' then [Set_archived True]
      else if currentState = ''archived'' \<and> nextState \<noteq> ''archived'' then [Set_archived False]
      else []) @
     (if nextState = ''suspended'' then [Set_moderationStatus ''suspended'']
      else if currentState = ''suspended'' \<and> nextState \<noteq> ''suspended'' then [Set_moderationStatus ''approved'']
      else []) @
     (if nextState = ''removed'' then [Set_legalTombstone True] else [])"

definition state_guard_of :: "string \<Rightarrow> state_guard" where
  "state_guard_of currentState =
     (if currentState = ''draft'' then Draft_or_missing else State_is currentState)"

text \<open>
  The result of \<open>updateOne\<close> is its \<open>matchedCount\<close>, \<open>None\<close> when the driver returns nothing. The
  last component of the result is the audit log entry \<open>(from, to)\<close>, if one is written.
\<close>

definition transitionMaterialState ::
  "('db \<Rightarrow> 'i material_filter \<Rightarrow> material option) \<Rightarrow>
   ('db \<Rightarrow> 'i material_filter \<Rightarrow> assignment list \<Rightarrow> nat option \<times> 'db) \<Rightarrow>
   'db \<Rightarrow> 'db \<Rightarrow> 'i \<Rightarrow> string \<Rightarrow> string option \<Rightarrow> string option \<Rightarrow> (string \<times> string) list \<Rightarrow> int \<Rightarrow>
   (lifecycle_error + material) \<times> 'db \<times> (string \<times> string) option" where
  "transitionMaterialState findOne updateOne db_read db_write materialId nextState actor reason
     expectedFields now =
     (case findOne db_read \<lparr>f_id = materialId, f_state = Any_state, f_expected = expectedFields\<rparr> of
        None \<Rightarrow> (Inl Material_not_found, db_write, None)
      | Some m \<Rightarrow>
          let currentState = or_default (lifecycleState m) ''draft'' in
          if \<not> isValidTransition (Some currentState) nextState then
            (Inl (Invalid_transition currentState nextState), db_write, None)
          else if currentState = nextState then (Inr m, db_write, None)
          else
            let patch = lifecycle_patch currentState nextState actor reason now;
                (matched, db') = updateOne db_write
                  \<lparr>f_id = materialId, f_state = state_guard_of currentState, f_expected = expectedFields\<rparr> patch
            in if matched = Some 0 then (Inl Concurrent_modification, db', None)
               else (Inr (apply_patch patch m), db', Some (currentState, nextState)))"

text \<open>
  What the code relies on of the driver. \<open>docs db i\<close> is the document the database holds under
  the identifier \<open>i\<close>: \<open>findOne\<close> returns it when it matches the filter, and \<open>updateOne\<close> applies
  \<open>$set\<close> to it, atomically, when it matches the filter at the time of the write.
\<close>

definition lawful_store ::
  "('db \<Rightarrow> 'i \<Rightarrow> material option) \<Rightarrow> ('db \<Rightarrow> 'i material_filter \<Rightarrow> material option) \<Rightarrow>
   ('db \<Rightarrow> 'i material_filter \<Rightarrow> assignment list \<Rightarrow> nat option \<times> 'db) \<Rightarrow> bool" where
  "lawful_store docs findOne updateOne \<longleftrightarrow>
     (\<forall>db f. findOne db f = (case docs db (f_id f) of
                None \<Rightarrow> None | Some m \<Rightarrow> if filter_matches f m then Some m else None)) \<and>
     (\<forall>db f p. case docs db (f_id f) of
         Some m \<Rightarrow>
           if filter_matches f m
           then fst (updateOne db f p) = Some 1 \<and>
                docs (snd (updateOne db f p)) = (docs db)(f_id f \<mapsto> apply_patch p m)
           else fst (updateOne db f p) = Some 0 \<and> docs (snd (updateOne db f p)) = docs db
       | None \<Rightarrow> fst (updateOne db f p) = Some 0 \<and> docs (snd (updateOne db f p)) = docs db)"

section \<open>The table\<close>

interpretation lifecycle: transition_table "keys VALID_TRANSITIONS" "next_of VALID_TRANSITIONS" isTerminalState
proof -
  have "table_wf VALID_TRANSITIONS"
    by (simp add: table_wf_def VALID_TRANSITIONS_def)
  then have "transition_table (keys VALID_TRANSITIONS) (next_of VALID_TRANSITIONS)
     (\<lambda>s. s \<in> set (keys VALID_TRANSITIONS) \<and> next_of VALID_TRANSITIONS s = [])"
    by (rule table_transition_table)
  moreover have "isTerminalState = (\<lambda>s. s \<in> set (keys VALID_TRANSITIONS) \<and> next_of VALID_TRANSITIONS s = [])"
    by (auto simp: isTerminalState_def TERMINAL_STATES_def fun_eq_iff)
  ultimately show "transition_table (keys VALID_TRANSITIONS) (next_of VALID_TRANSITIONS) isTerminalState"
    by simp
qed

lemma terminal_states: "TERMINAL_STATES = [''removed'']"
  by (simp add: TERMINAL_STATES_def next_of_def VALID_TRANSITIONS_def)

abbreviation state_of :: "material \<Rightarrow> string" where
  "state_of m \<equiv> or_default (lifecycleState m) ''draft''"

lemma or_default_or_default [simp]: "or_default (Some (or_default s d)) d = or_default s d"
  by (cases "truthy s") (auto simp: or_default_falsy or_default_def split: option.splits)

lemma valid_transition_default [simp]:
  "isValidTransition (Some (or_default s ''draft'')) n = isValidTransition s n"
  by (simp add: isValidTransition_def)

lemma valid_transition_state:
  "or_default s ''draft'' = or_default s' ''draft'' \<Longrightarrow> isValidTransition s n = isValidTransition s' n"
  by (metis valid_transition_default)

lemma valid_transition_next:
  "isValidTransition s t \<Longrightarrow> or_default s ''draft'' \<noteq> t \<Longrightarrow>
   t \<in> set (next_of VALID_TRANSITIONS (or_default s ''draft''))"
  by (auto simp: isValidTransition_def Let_def split: if_splits)

section \<open>What one call writes\<close>

lemma patch_state [simp]: "lifecycleState (apply_patch (lifecycle_patch c n a r t) m) = Some n"
  by (simp add: apply_patch_def lifecycle_patch_def)

lemma guard_of_matches: "guard_matches (state_guard_of c) m \<Longrightarrow> c = state_of m \<or> c = [] \<and> lifecycleState m = Some []"
  by (auto simp: state_guard_of_def or_default_def split: if_splits option.splits)

lemma lawful_update:
  assumes "lawful_store docs findOne updateOne" "updateOne db f p = (n, db')"
  shows "docs db' = docs db \<and> n = Some 0 \<or>
    (\<exists>m. docs db (f_id f) = Some m \<and> filter_matches f m \<and> n = Some 1 \<and>
         docs db' = (docs db)(f_id f \<mapsto> apply_patch p m))"
proof -
  have "case docs db (f_id f) of
         Some m \<Rightarrow>
           if filter_matches f m
           then fst (updateOne db f p) = Some 1 \<and>
                docs (snd (updateOne db f p)) = (docs db)(f_id f \<mapsto> apply_patch p m)
           else fst (updateOne db f p) = Some 0 \<and> docs (snd (updateOne db f p)) = docs db
       | None \<Rightarrow> fst (updateOne db f p) = Some 0 \<and> docs (snd (updateOne db f p)) = docs db"
    using assms(1) unfolding lawful_store_def by blast
  then show ?thesis using assms(2) by (auto split: option.splits if_splits)
qed

lemma lawful_find:
  "lawful_store docs findOne updateOne \<Longrightarrow>
   findOne db f = (case docs db (f_id f) of None \<Rightarrow> None | Some m \<Rightarrow> if filter_matches f m then Some m else None)"
  unfolding lawful_store_def by blast

text \<open>
  One call either leaves every document as it is, or it moves the addressed one along an edge
  of the table, judged by the state the document has when it is written.
\<close>

lemma transition_effect:
  assumes law: "lawful_store docs findOne updateOne"
    and call: "transitionMaterialState findOne updateOne db_read db_write i n actor reason ef now = (res, db', entry)"
  shows "docs db' = docs db_write \<or>
    (\<exists>m. docs db_write i = Some m \<and> state_of m \<noteq> n \<and> isValidTransition (lifecycleState m) n \<and>
         docs db' = (docs db_write)(i \<mapsto> apply_patch (lifecycle_patch (state_of m) n actor reason now) m))"
proof (cases "findOne db_read \<lparr>f_id = i, f_state = Any_state, f_expected = ef\<rparr>")
  case None
  then show ?thesis using call by (simp add: transitionMaterialState_def)
next
  case (Some mr)
  let ?c = "state_of mr"
  let ?p = "lifecycle_patch ?c n actor reason now"
  let ?f = "\<lparr>f_id = i, f_state = state_guard_of ?c, f_expected = ef\<rparr>"
  show ?thesis
  proof (cases "isValidTransition (Some ?c) n \<and> ?c \<noteq> n")
    case False
    then show ?thesis using call Some by (auto simp: transitionMaterialState_def Let_def split: if_splits)
  next
    case True
    obtain k dbu where u: "updateOne db_write ?f ?p = (k, dbu)" by fastforce
    have "db' = dbu"
      using call Some True u by (auto simp: transitionMaterialState_def Let_def split: if_splits)
    moreover have "?c \<noteq> []" by (simp add: or_default_def split: option.splits)
    ultimately show ?thesis
      using lawful_update [OF law u] True
      by (auto simp: filter_matches_def dest!: guard_of_matches dest: valid_transition_state)
  qed
qed

section \<open>A reference store\<close>

definition mem_findOne :: "('i \<Rightarrow> material option) \<Rightarrow> 'i material_filter \<Rightarrow> material option" where
  "mem_findOne db f = (case db (f_id f) of None \<Rightarrow> None | Some m \<Rightarrow> if filter_matches f m then Some m else None)"

definition mem_updateOne ::
  "('i \<Rightarrow> material option) \<Rightarrow> 'i material_filter \<Rightarrow> assignment list \<Rightarrow> nat option \<times> ('i \<Rightarrow> material option)" where
  "mem_updateOne db f p = (case db (f_id f) of
     Some m \<Rightarrow> if filter_matches f m then (Some 1, db(f_id f \<mapsto> apply_patch p m)) else (Some 0, db)
   | None \<Rightarrow> (Some 0, db))"

lemma mem_lawful: "lawful_store (\<lambda>db. db) mem_findOne mem_updateOne"
  by (auto simp: lawful_store_def mem_findOne_def mem_updateOne_def split: option.splits)

definition sample_material :: "string option \<Rightarrow> material" where
  "sample_material s = \<lparr>lifecycleState = s, isDeleted = None, deletedAt = None, deletedBy = None,
     deletionReason = None, archived = None, moderationStatus = None, legalTombstone = None,
     updatedAt = None, otherFields = (\<lambda>_. None)\<rparr>"

section \<open>Properties\<close>

text \<open>
  C17: every write a transition makes is legal for the state the document has at the moment of
  the write, however stale the document was that the transition was validated against.
\<close>

theorem lifecycle_write_is_legal:
  assumes "lawful_store docs findOne updateOne"
    and "transitionMaterialState findOne updateOne db_read db_write i n actor reason ef now = (res, db', entry)"
    and "docs db_write j = Some m" "docs db' j = Some m'"
  shows "m' = m \<or> j = i \<and> lifecycleState m' = Some n \<and> isValidTransition (lifecycleState m) n"
  using transition_effect [OF assms(1,2)] assms(3,4) by (auto split: if_splits)

theorem lifecycle_write_is_legal_witness:
  "\<exists>m'. snd (snd (transitionMaterialState mem_findOne mem_updateOne
            [7 \<mapsto> sample_material None] [7 \<mapsto> sample_material None] (7::nat) ''active'' None None [] 5))
          = Some (''draft'', ''active'') \<and>
        fst (snd (transitionMaterialState mem_findOne mem_updateOne
            [7 \<mapsto> sample_material None] [7 \<mapsto> sample_material None] (7::nat) ''active'' None None [] 5)) 7
          = Some m' \<and> lifecycleState m' = Some ''active'' \<and> isValidTransition None ''active''"
proof -
  let ?db = "[7 \<mapsto> sample_material None] :: nat \<Rightarrow> material option"
  obtain res db' entry where c: "transitionMaterialState mem_findOne mem_updateOne ?db ?db 7 ''active''
      None None [] 5 = (res, db', entry)" by (metis prod_cases3)
  then have "entry = Some (''draft'', ''active'')" and
    "db' = ?db(7 \<mapsto> apply_patch (lifecycle_patch ''draft'' ''active'' None None 5) (sample_material None))"
    by (auto simp: transitionMaterialState_def mem_findOne_def mem_updateOne_def filter_matches_def
        sample_material_def isValidTransition_def VALID_TRANSITIONS_def next_of_def state_guard_of_def Let_def)
  moreover define m' where "m' = apply_patch (lifecycle_patch ''draft'' ''active'' None None 5) (sample_material None)"
  ultimately have w: "m' = sample_material None \<or> lifecycleState m' = Some ''active'' \<and>
      isValidTransition (lifecycleState (sample_material None)) ''active''"
    and d: "db' 7 = Some m'" and l: "entry = Some (''draft'', ''active'')"
    using lifecycle_write_is_legal [OF mem_lawful c, of 7 "sample_material None" m'] by simp_all
  have "lifecycleState m' = Some ''active''" by (simp add: m'_def)
  with w d l show ?thesis unfolding c by (auto simp: sample_material_def)
qed

definition lifecycle_step ::
  "('db \<Rightarrow> 'i material_filter \<Rightarrow> material option) \<Rightarrow>
   ('db \<Rightarrow> 'i material_filter \<Rightarrow> assignment list \<Rightarrow> nat option \<times> 'db) \<Rightarrow> 'db \<Rightarrow> 'db \<Rightarrow> bool" where
  "lifecycle_step findOne updateOne db db' \<longleftrightarrow>
     (\<exists>db_read i n actor reason ef now res entry.
        transitionMaterialState findOne updateOne db_read db i n actor reason ef now = (res, db', entry))"

text \<open>
  C38: A removed material stays removed, and stays as it is, through any sequence of transition
  calls of any callers, however their reads and writes interleave.
\<close>

theorem removed_is_forever:
  assumes "lawful_store docs findOne updateOne"
    and "reaches (lifecycle_step findOne updateOne) db db'"
    and "docs db i = Some m" "isTerminalState (state_of m)"
  shows "docs db' i = Some m"
  using assms(2,3)
proof (rule reaches_invariant [where P = "\<lambda>d. docs d i = Some m"])
  fix a b
  assume "lifecycle_step findOne updateOne a b" and m: "docs a i = Some m"
  then obtain dr j n ac re ef now res entry where
    c: "transitionMaterialState findOne updateOne dr a j n ac re ef now = (res, b, entry)"
    unfolding lifecycle_step_def by blast
  have "\<not> isValidTransition (lifecycleState m) n" if "state_of m \<noteq> n"
    using assms(4) that lifecycle.terminal_no_exit valid_transition_next by blast
  then show "docs b i = Some m"
    using transition_effect [OF assms(1) c] m by (cases "i = j") auto
qed

theorem removed_is_forever_witness:
  "let db = [7 \<mapsto> sample_material (Some ''removed'')] :: nat \<Rightarrow> material option in
   \<exists>db' res entry. transitionMaterialState mem_findOne mem_updateOne db db 7 ''active'' None None [] 5 = (res, db', entry) \<and>
       db' 7 = Some (sample_material (Some ''removed''))"
proof -
  let ?db = "[7 \<mapsto> sample_material (Some ''removed'')] :: nat \<Rightarrow> material option"
  obtain res db' entry where c: "transitionMaterialState mem_findOne mem_updateOne ?db ?db 7 ''active''
      None None [] 5 = (res, db', entry)" by (metis prod_cases3)
  have one: "lifecycle_step mem_findOne mem_updateOne ?db db'"
    unfolding lifecycle_step_def by (intro exI) (rule c)
  have r: "reaches (lifecycle_step mem_findOne mem_updateOne) ?db db'"
    by (rule reaches_one) (rule one)
  have t: "isTerminalState (state_of (sample_material (Some ''removed'')))"
    by (simp add: isTerminalState_def terminal_states sample_material_def)
  have "db' 7 = Some (sample_material (Some ''removed''))"
    by (rule removed_is_forever [OF mem_lawful r _ t]) simp
  then show ?thesis unfolding Let_def using c by (intro exI conjI)
qed

text \<open>
  With no other writer between the read and the write, a call returns the document the
  store then holds; it fails exactly when the document is missing, does not match the expected
  fields, or is in a state with no edge to the requested one, and then writes nothing.
\<close>

theorem lifecycle_call_result:
  assumes law: "lawful_store docs findOne updateOne"
    and call: "transitionMaterialState findOne updateOne db db i n actor reason ef now = (res, db', entry)"
  shows "case docs db i of
      None \<Rightarrow> res = Inl Material_not_found \<and> docs db' = docs db \<and> entry = None
    | Some m \<Rightarrow>
        if \<not> list_all (\<lambda>(k, v). otherFields m k = Some v) ef
        then res = Inl Material_not_found \<and> docs db' = docs db \<and> entry = None
        else if \<not> isValidTransition (lifecycleState m) n
        then res = Inl (Invalid_transition (state_of m) n) \<and> docs db' = docs db \<and> entry = None
        else if state_of m = n then res = Inr m \<and> docs db' = docs db \<and> entry = None
        else if lifecycleState m = Some []
        then res = Inl Concurrent_modification \<and> docs db' = docs db \<and> entry = None
        else \<exists>m'. res = Inr m' \<and> docs db' i = Some m' \<and> lifecycleState m' = Some n \<and>
                  entry = Some (state_of m, n)"
proof (cases "docs db i")
  case None
  then show ?thesis using call lawful_find [OF law]
    by (simp add: transitionMaterialState_def)
next
  case (Some m)
  let ?p = "lifecycle_patch (state_of m) n actor reason now"
  let ?f = "\<lparr>f_id = i, f_state = state_guard_of (state_of m), f_expected = ef\<rparr>"
  obtain k dbu where u: "updateOne db ?f ?p = (k, dbu)" by fastforce
  have g: "guard_matches (state_guard_of (state_of m)) m \<longleftrightarrow> lifecycleState m \<noteq> Some []"
    by (auto simp: state_guard_of_def or_default_def split: option.splits)
  have upd: "case docs db (f_id ?f) of
         Some m \<Rightarrow>
           if filter_matches ?f m
           then fst (updateOne db ?f ?p) = Some 1 \<and>
                docs (snd (updateOne db ?f ?p)) = (docs db)(f_id ?f \<mapsto> apply_patch ?p m)
           else fst (updateOne db ?f ?p) = Some 0 \<and> docs (snd (updateOne db ?f ?p)) = docs db
       | None \<Rightarrow> fst (updateOne db ?f ?p) = Some 0 \<and> docs (snd (updateOne db ?f ?p)) = docs db"
    using law unfolding lawful_store_def by blast
  show ?thesis
    using call upd u g lawful_find [OF law] Some
    by (auto simp: transitionMaterialState_def Let_def filter_matches_def split: if_splits)
qed

theorem lifecycle_call_result_witness:
  "\<exists>m'. fst (transitionMaterialState mem_findOne mem_updateOne
            [7 \<mapsto> sample_material (Some ''active'')] [7 \<mapsto> sample_material (Some ''active'')]
            (7::nat) ''retired'' (Some ''admin'') None [] 5) = Inr m' \<and> lifecycleState m' = Some ''retired''"
proof -
  let ?db = "[7 \<mapsto> sample_material (Some ''active'')] :: nat \<Rightarrow> material option"
  obtain res db' entry where c: "transitionMaterialState mem_findOne mem_updateOne ?db ?db 7 ''retired''
      (Some ''admin'') None [] 5 = (res, db', entry)" by (metis prod_cases3)
  have v: "isValidTransition (Some ''active'') ''retired''"
    by (simp add: isValidTransition_def VALID_TRANSITIONS_def next_of_def)
  show ?thesis using lifecycle_call_result [OF mem_lawful c] c v by (auto simp: sample_material_def)
qed

definition flags_agree :: "material \<Rightarrow> bool" where
  "flags_agree m \<longleftrightarrow>
     (isDeleted m = Some True \<longleftrightarrow> state_of m = ''retired'') \<and>
     (archived m = Some True \<longleftrightarrow> state_of m = ''archived'') \<and>
     (moderationStatus m = Some ''suspended'' \<longleftrightarrow> state_of m = ''suspended'') \<and>
     (legalTombstone m = Some True \<longleftrightarrow> state_of m = ''removed'')"

text \<open>
  The boolean fields older code reads follow the state: if they agree with the state of a
  document, they agree with the new state after any legal transition.
\<close>

theorem flags_follow_state:
  assumes "flags_agree m" "isValidTransition (lifecycleState m) n" "state_of m \<noteq> n"
  shows "flags_agree (apply_patch (lifecycle_patch (state_of m) n actor reason now) m)"
proof -
  have "state_of m \<noteq> ''removed''"
    using valid_transition_next [OF assms(2,3)] by (auto simp: next_of_def VALID_TRANSITIONS_def)
  moreover have "n \<noteq> []"
    using assms(2) by (auto simp: isValidTransition_def Let_def VALID_TRANSITIONS_def)
  ultimately show ?thesis
    using assms(1,3) unfolding flags_agree_def by (auto simp: apply_patch_def lifecycle_patch_def)
qed

theorem flags_follow_state_witness:
  "flags_agree (apply_patch (lifecycle_patch ''draft'' ''active'' None None 5) (sample_material None))"
  using flags_follow_state [of "sample_material None" "''active''" None None 5]
  by (simp add: flags_agree_def sample_material_def isValidTransition_def VALID_TRANSITIONS_def next_of_def)

text \<open>
  Removing a suspended material for legal reasons writes \<open>moderationStatus\<close> 'approved'
  together with the tombstone, and removing a retired one clears its deletion mark.
\<close>

theorem removal_clears_moderation_marks:
  "isValidTransition (Some ''suspended'') ''removed'' \<and>
   moderationStatus (apply_patch (lifecycle_patch ''suspended'' ''removed'' a r t) m) = Some ''approved'' \<and>
   isValidTransition (Some ''retired'') ''removed'' \<and>
   isDeleted (apply_patch (lifecycle_patch ''retired'' ''removed'' a r t) m) = Some False"
  by (simp add: apply_patch_def lifecycle_patch_def isValidTransition_def VALID_TRANSITIONS_def next_of_def)

end
