(* ===== verification/InvariantChecker.thy ===== *)
theory InvariantChecker imports TransitionTables begin

text \<open>
  \<open>src/lib/transitions/invariantChecker.js\<close>: the checks on balances, settlements, ownership and
  entitlements, and the execution of a change under such a check. A \<open>TransitionInvariantError\<close>
  is modelled by its code; its message and details are not.
\<close>

section \<open>Definitions\<close>

datatype invariant_code =
    BALANCE_INSUFFICIENT | BALANCE_NEGATIVE | BALANCE_CONSERVATION_VIOLATION
  | BALANCE_ARITHMETIC_MISMATCH | BALANCE_CURRENCY_MISMATCH | UNAUTHORIZED_ACTOR
  | OWNERSHIP_SAME_OWNER | OWNERSHIP_INVALID_TARGET | OWNERSHIP_UNAUTHORIZED
  | OWNERSHIP_INVALID_STATE | ENTITLEMENT_INVALID_TRANSITION | ENTITLEMENT_DUPLICATE_ACTIVE
  | ENTITLEMENT_TIME_INVERSION | ENTITLEMENT_MISSING_PROOF

definition VALID_ENTITLEMENT_TRANSITIONS :: "string table" where
  "VALID_ENTITLEMENT_TRANSITIONS =
    [(''NONE'', [''PENDING'', ''ACTIVE'']),
     (''PENDING'', [''ACTIVE'', ''NONE'', ''REVOKED'']),
     (''ACTIVE'', [''REVOKED'', ''REFUNDED'', ''EXPIRED'']),
     (''REVOKED'', [''ACTIVE'']),
     (''REFUNDED'', []),
     (''EXPIRED'', [''ACTIVE''])]"

text \<open>The amounts are the values of \<open>Number(...)\<close> on what the caller passes.\<close>

record balance_params =
  fromBalance :: jsnum
  toBalance :: jsnum
  delta :: jsnum
  currency :: "string option"
  targetCurrency :: "string option"
  b_actor :: "string option"
  authorizedAccount :: "string option"
  allowNegative :: bool

definition currency_of :: "balance_params \<Rightarrow> string" where
  "currency_of p = (case currency p of Some c \<Rightarrow> c | None \<Rightarrow> ''XLM'')"

definition checkBalanceTransition :: "balance_params \<Rightarrow> invariant_code + unit" where
  "checkBalanceTransition p =
     (let f = fromBalance p; t = toBalance p; d = delta p;
          expectedTo = js_add f d in
      if js_is_nan f \<or> js_is_nan t \<or> js_is_nan d then Inl BALANCE_ARITHMETIC_MISMATCH
      else if truthy (targetCurrency p) \<and> Some (currency_of p) \<noteq> targetCurrency p
      then Inl BALANCE_CURRENCY_MISMATCH
      else if js_lt d (Fin 0) \<and> truthy (authorizedAccount p) \<and> truthy (b_actor p) \<and>
              b_actor p \<noteq> authorizedAccount p \<and> b_actor p \<noteq> Some ''system''
      then Inl UNAUTHORIZED_ACTOR
      else if js_lt (Fin (1 / 1000000)) (js_abs (js_sub t expectedTo))
      then Inl BALANCE_ARITHMETIC_MISMATCH
      else if \<not> allowNegative p \<and> js_lt t (Fin 0) then Inl BALANCE_NEGATIVE
      else Inr ())"

definition sum_amounts :: "jsnum list \<Rightarrow> jsnum" where
  "sum_amounts xs = foldl (\<lambda>acc x. js_add acc (js_or_zero x)) (Fin 0) xs"

definition checkSettlementConservation ::
  "jsnum list \<Rightarrow> jsnum list \<Rightarrow> jsnum \<Rightarrow> invariant_code + (jsnum \<times> jsnum \<times> jsnum)" where
  "checkSettlementConservation debits credits platformFee =
     (let totalDebits = sum_amounts debits; totalCredits = sum_amounts credits;
          fee = js_or_zero platformFee in
      if js_lt (Fin (1 / 1000000)) (js_abs (js_sub totalDebits (js_add totalCredits fee)))
      then Inl BALANCE_CONSERVATION_VIOLATION
      else Inr (totalDebits, totalCredits, fee))"

record ownership_params =
  resourceId :: string
  currentOwner :: "string option"
  proposedOwner :: "string option"
  o_actor :: "string option"
  isAdmin :: bool
  resourceStatus :: string

definition checkOwnershipTransition :: "ownership_params \<Rightarrow> invariant_code + unit" where
  "checkOwnershipTransition p =
     (if \<not> truthy (proposedOwner p) \<or> js_trim (the (proposedOwner p)) = [] then Inl OWNERSHIP_INVALID_TARGET
      else if currentOwner p = proposedOwner p then Inl OWNERSHIP_SAME_OWNER
      else if o_actor p \<noteq> currentOwner p \<and> \<not> isAdmin p \<and> o_actor p \<noteq> Some ''system''
      then Inl OWNERSHIP_UNAUTHORIZED
      else if js_lower (resourceStatus p) \<in> {''archived'', ''quarantined'', ''deleted''}
      then Inl OWNERSHIP_INVALID_STATE
      else Inr ())"

text \<open>
  \<open>validFrom\<close> and \<open>validUntil\<close> are the time values of the dates passed, \<open>None\<close> for one that
  is not given; an invalid date is \<open>NaN\<close>.
\<close>

record entitlement_params =
  materialId :: string
  buyerAddress :: string
  fromStatus :: "string option"
  toStatus :: string
  purchaseId :: "string option"
  txHash :: "string option"
  validFrom :: "jsnum option"
  validUntil :: "jsnum option"
  e_reason :: "string option"

definition checkEntitlementTransition :: "entitlement_params \<Rightarrow> invariant_code + (string \<times> string)" where
  "checkEntitlementTransition p =
     (let current = js_upper (or_default (fromStatus p) ''NONE''); nxt = js_upper (toStatus p) in
      if \<not> List.member (next_of VALID_ENTITLEMENT_TRANSITIONS current) nxt
      then Inl ENTITLEMENT_INVALID_TRANSITION
      else if nxt = ''ACTIVE'' \<and> \<not> truthy (purchaseId p) \<and> \<not> truthy (txHash p)
      then Inl ENTITLEMENT_MISSING_PROOF
      else if (case (validFrom p, validUntil p) of (Some f, Some u) \<Rightarrow> js_lt u f | _ \<Rightarrow> False)
      then Inl ENTITLEMENT_TIME_INVERSION
      else if nxt = ''REVOKED'' \<and> \<not> truthy (e_reason p) then Inl UNAUTHORIZED_ACTOR
      else Inr (current, nxt))"

section \<open>Protected execution\<close>

datatype transition =
    Balance balance_params
  | Ownership ownership_params
  | Entitlement entitlement_params
  | Other string

datatype rollback_state =
    Rollback_balance "string option" jsnum "string option"
  | Rollback_owner string "string option"
  | Rollback_status string string "string option"

fun check_transition :: "transition \<Rightarrow> invariant_code + unit" where
  "check_transition (Balance p) = checkBalanceTransition p"
| "check_transition (Ownership p) = checkOwnershipTransition p"
| "check_transition (Entitlement p) = map_sum id (\<lambda>_. ()) (checkEntitlementTransition p)"
| "check_transition (Other _) = Inr ()"

fun rollback_of :: "transition \<Rightarrow> rollback_state option" where
  "rollback_of (Balance p) = Some (Rollback_balance (authorizedAccount p) (fromBalance p) (currency p))"
| "rollback_of (Ownership p) = Some (Rollback_owner (resourceId p) (currentOwner p))"
| "rollback_of (Entitlement p) = Some (Rollback_status (materialId p) (buyerAddress p) (fromStatus p))"
| "rollback_of (Other _) = None"

datatype ('e, 'r) outcome =
    Success 'r rollback_state
  | Rejected invariant_code
  | Unknown_type
  | Failed 'e rollback_state

text \<open>
  \<open>execute\<close> is the caller's callback, which changes the caller's state \<open>'w\<close> and returns or
  throws. \<open>audit\<close> is \<open>None\<close> without a database, and otherwise says whether the insertion of
  the audit record succeeds; the ledger is the list of the records inserted.
\<close>

definition executeWithInvariantProtection ::
  "transition \<Rightarrow> ('w \<Rightarrow> ('e + 'r) \<times> 'w) \<Rightarrow> bool option \<Rightarrow> 'w \<Rightarrow> ('e \<times> rollback_state) list \<Rightarrow>
   ('e, 'r) outcome \<times> 'w \<times> ('e \<times> rollback_state) list" where
  "executeWithInvariantProtection tr execute audit w ledger =
     (case check_transition tr of
        Inl c \<Rightarrow> (Rejected c, w, ledger)
      | Inr _ \<Rightarrow>
          (case rollback_of tr of
             None \<Rightarrow> (Unknown_type, w, ledger)
           | Some rb \<Rightarrow>
               (case execute w of
                  (Inr r, w') \<Rightarrow> (Success r rb, w', ledger)
                | (Inl e, w') \<Rightarrow> (Failed e rb, w', if audit = Some True then ledger @ [(e, rb)] else ledger))))"

section \<open>Sums\<close>

lemma sum_amounts_foldl:
  "list_all (\<lambda>x. \<exists>r. x = Fin r) xs \<Longrightarrow>
   foldl (\<lambda>acc x. js_add acc (js_or_zero x)) (Fin a) xs =
   Fin (a + sum_list (map (\<lambda>x. case x of Fin r \<Rightarrow> r | _ \<Rightarrow> 0) xs))"
  by (induction xs arbitrary: a) auto

lemma sum_amounts_fin: "sum_amounts (map Fin rs) = Fin (sum_list rs)"
  unfolding sum_amounts_def by (subst sum_amounts_foldl) (simp_all add: list_all_iff o_def)

section \<open>The entitlement machine\<close>

interpretation entitlement: transition_table "keys VALID_ENTITLEMENT_TRANSITIONS"
  "next_of VALID_ENTITLEMENT_TRANSITIONS"
  "\<lambda>s. s \<in> set (keys VALID_ENTITLEMENT_TRANSITIONS) \<and> next_of VALID_ENTITLEMENT_TRANSITIONS s = []"
  by (rule table_transition_table) (simp add: table_wf_def VALID_ENTITLEMENT_TRANSITIONS_def)

text \<open>One accepted entitlement change, as a step between statuses.\<close>

definition entitlement_step :: "string \<Rightarrow> string \<Rightarrow> bool" where
  "entitlement_step s t \<longleftrightarrow> (\<exists>p. checkEntitlementTransition p = Inr (s, t))"

lemma accepted_follows_table:
  "checkEntitlementTransition p = Inr (s, t) \<Longrightarrow> t \<in> set (next_of VALID_ENTITLEMENT_TRANSITIONS s)"
  by (auto simp: checkEntitlementTransition_def Let_def split: if_splits)

lemma refunded_terminal: "next_of VALID_ENTITLEMENT_TRANSITIONS ''REFUNDED'' = []"
  by (simp add: next_of_def VALID_ENTITLEMENT_TRANSITIONS_def)

section \<open>Properties\<close>

text \<open>
  For finite amounts, a balance change in a single currency made by an actor allowed to make
  it is accepted exactly when the new balance is within a millionth of the old one plus the
  change, and is not negative unless that is allowed.
\<close>

theorem balance_accepted_iff:
  assumes "fromBalance p = Fin f" "toBalance p = Fin t" "delta p = Fin d"
    and "targetCurrency p = None \<or> targetCurrency p = Some (currency_of p)"
    and "0 \<le> d \<or> b_actor p = authorizedAccount p \<or> b_actor p = Some ''system''"
  shows "checkBalanceTransition p = Inr () \<longleftrightarrow>
    \<bar>t - (f + d)\<bar> \<le> 1 / 1000000 \<and> (allowNegative p \<or> 0 \<le> t)"
  using assms by (auto simp: checkBalanceTransition_def Let_def)

theorem balance_accepted_iff_witness:
  "checkBalanceTransition \<lparr>fromBalance = Fin 10, toBalance = Fin 7, delta = Fin (-3),
     currency = None, targetCurrency = None, b_actor = Some ''GA'', authorizedAccount = Some ''GA'',
     allowNegative = False\<rparr> = Inr ()"
  by (subst balance_accepted_iff [where f = 10 and t = 7 and d = "-3"]) simp_all

text \<open>
  The tolerance lets a balance grow by ten stroops (0.000001) with a change of zero, although
  the comment on the check announces the precision of one stroop (0.0000001).
\<close>

lemma ten_stroops_unaccounted:
  "checkBalanceTransition \<lparr>fromBalance = Fin 0, toBalance = Fin (1 / 1000000), delta = Fin 0,
     currency = None, targetCurrency = None, b_actor = None, authorizedAccount = None,
     allowNegative = False\<rparr> = Inr ()"
  by (simp add: checkBalanceTransition_def Let_def)

text \<open>
  A settlement of finite amounts is accepted exactly when its debits equal its credits plus
  the platform fee up to a millionth, and the totals returned are the exact sums; otherwise the
  conservation violation is reported.
\<close>

theorem settlement_conserves:
  "checkSettlementConservation (map Fin ds) (map Fin cs) (Fin fee) =
     (if \<bar>sum_list ds - (sum_list cs + fee)\<bar> \<le> 1 / 1000000
      then Inr (Fin (sum_list ds), Fin (sum_list cs), Fin fee)
      else Inl BALANCE_CONSERVATION_VIOLATION)"
  by (auto simp: checkSettlementConservation_def Let_def sum_amounts_fin)

text \<open>
  An ownership change is accepted exactly when the proposed owner is a non-blank address
  other than the current one, the actor is the current owner, an administrator or the system,
  and the resource is not archived, quarantined or deleted.
\<close>

lemma ownership_accepted_iff:
  "checkOwnershipTransition p = Inr () \<longleftrightarrow>
     (\<exists>n. proposedOwner p = Some n \<and> js_trim n \<noteq> [] \<and> currentOwner p \<noteq> Some n) \<and>
     (o_actor p = currentOwner p \<or> isAdmin p \<or> o_actor p = Some ''system'') \<and>
     js_lower (resourceStatus p) \<notin> {''archived'', ''quarantined'', ''deleted''}"
proof -
  have "js_trim [] = []" by (simp add: js_trim_def)
  then show ?thesis
    by (cases "proposedOwner p") (auto simp: checkOwnershipTransition_def)
qed

text \<open>
  An entitlement that was refunded never changes again, whatever sequence of changes is
  requested, and every accepted change of an entitlement stays within the six statuses.
\<close>

theorem refunded_is_final:
  "(reaches entitlement_step ''REFUNDED'' t \<longleftrightarrow> t = ''REFUNDED'') \<and>
   (reaches entitlement_step ''NONE'' u \<longrightarrow> u \<in> set (keys VALID_ENTITLEMENT_TRANSITIONS))"
proof (intro conjI iffI impI)
  have follows: "a = b \<or> b \<in> set (next_of VALID_ENTITLEMENT_TRANSITIONS a)" if "entitlement_step a b" for a b
    using that accepted_follows_table by (auto simp: entitlement_step_def)
  show "t = ''REFUNDED''" if "reaches entitlement_step ''REFUNDED'' t"
  proof (rule entitlement.terminal_forever [OF that])
    show "''REFUNDED'' \<in> set (keys VALID_ENTITLEMENT_TRANSITIONS) \<and>
          next_of VALID_ENTITLEMENT_TRANSITIONS ''REFUNDED'' = []"
      by (simp add: refunded_terminal) (simp add: VALID_ENTITLEMENT_TRANSITIONS_def)
  qed (rule follows)
  show "reaches entitlement_step ''REFUNDED'' t" if "t = ''REFUNDED''"
    unfolding that by (rule reaches.here)
  show "u \<in> set (keys VALID_ENTITLEMENT_TRANSITIONS)" if "reaches entitlement_step ''NONE'' u"
  proof (rule entitlement.reaches_known [OF that])
    show "''NONE'' \<in> set (keys VALID_ENTITLEMENT_TRANSITIONS)"
      by (simp add: VALID_ENTITLEMENT_TRANSITIONS_def)
  qed (rule follows)
qed

theorem refunded_is_final_witness:
  "''PENDING'' \<in> set (keys VALID_ENTITLEMENT_TRANSITIONS)"
proof -
  have "checkEntitlementTransition \<lparr>materialId = ''m'', buyerAddress = ''b'', fromStatus = None,
      toStatus = ''pending'', purchaseId = None, txHash = None, validFrom = None, validUntil = None,
      e_reason = None\<rparr> = Inr (''NONE'', ''PENDING'')"
    by (simp add: checkEntitlementTransition_def Let_def str_defs next_of_def
        VALID_ENTITLEMENT_TRANSITIONS_def)
  then have one: "entitlement_step ''NONE'' ''PENDING''"
    unfolding entitlement_step_def by (rule exI [where P = "\<lambda>p. checkEntitlementTransition p = Inr (''NONE'', ''PENDING'')"])
  have "reaches entitlement_step ''NONE'' ''PENDING''" by (rule reaches_one) (rule one)
  then show ?thesis by (rule refunded_is_final [THEN conjunct2, THEN mp])
qed

text \<open>
  Access is only ever granted on proof of payment and only ever revoked with a recorded
  reason: an accepted change to ACTIVE carries a purchase id or a transaction hash, one to
  REVOKED carries a reason, and no accepted change has a validity period that ends before it
  begins.
\<close>

theorem entitlement_change_is_justified:
  assumes "checkEntitlementTransition p = Inr (s, t)"
  shows "(t = ''ACTIVE'' \<longrightarrow> truthy (purchaseId p) \<or> truthy (txHash p)) \<and>
    (t = ''REVOKED'' \<longrightarrow> truthy (e_reason p)) \<and>
    (\<forall>f u. validFrom p = Some (Fin f) \<longrightarrow> validUntil p = Some (Fin u) \<longrightarrow> f \<le> u)"
  using assms by (auto simp: checkEntitlementTransition_def Let_def split: if_splits option.splits)

theorem entitlement_change_is_justified_witness:
  "checkEntitlementTransition \<lparr>materialId = ''m'', buyerAddress = ''b'', fromStatus = Some ''pending'',
      toStatus = ''active'', purchaseId = Some ''p1'', txHash = None, validFrom = Some (Fin 1),
      validUntil = Some (Fin 9), e_reason = None\<rparr> = Inr (''PENDING'', ''ACTIVE'') \<and>
   truthy (Some ''p1'')"
proof -
  have "checkEntitlementTransition \<lparr>materialId = ''m'', buyerAddress = ''b'', fromStatus = Some ''pending'',
      toStatus = ''active'', purchaseId = Some ''p1'', txHash = None, validFrom = Some (Fin 1),
      validUntil = Some (Fin 9), e_reason = None\<rparr> = Inr (''PENDING'', ''ACTIVE'')"
    by (simp add: checkEntitlementTransition_def Let_def str_defs next_of_def
        VALID_ENTITLEMENT_TRANSITIONS_def)
  from this entitlement_change_is_justified [OF this] show ?thesis by simp
qed

text \<open>
  Protected execution runs the callback only for a change that passes its check: a rejected
  or unknown change leaves the caller's state and the audit ledger as they are, and a callback
  that throws is reported with the state from before the change and, with a working database,
  recorded once.
\<close>

lemma protected_execution:
  "executeWithInvariantProtection tr execute audit w ledger = (out, w', ledger') \<longleftrightarrow>
   (case (check_transition tr, rollback_of tr) of
      (Inl c, _) \<Rightarrow> out = Rejected c \<and> w' = w \<and> ledger' = ledger
    | (Inr _, None) \<Rightarrow> out = Unknown_type \<and> w' = w \<and> ledger' = ledger
    | (Inr _, Some rb) \<Rightarrow> w' = snd (execute w) \<and>
        (case fst (execute w) of
           Inr r \<Rightarrow> out = Success r rb \<and> ledger' = ledger
         | Inl e \<Rightarrow> out = Failed e rb \<and>
             ledger' = ledger @ (if audit = Some True then [(e, rb)] else [])))"
  by (auto simp: executeWithInvariantProtection_def split: sum.splits option.splits prod.splits)

end
