(* ===== verification/OpSystems.thy ===== *)
theory OpSystems imports Prelude begin

text \<open>
  The contract of a component driven by a sequence of operations: every operation keeps the
  component's invariant. The lemmas on whole runs are proved here once; the cache, the
  backpressure controller and the operation queue are instances.
\<close>

locale op_system =
  fixes inv :: "'s \<Rightarrow> bool"
    and step :: "'op \<Rightarrow> 's \<Rightarrow> 's"
  assumes step_inv: "inv s \<Longrightarrow> inv (step op s)"
begin

lemma run_inv: "inv s \<Longrightarrow> inv (fold step ops s)"
  by (induction ops arbitrary: s) (auto intro: step_inv)

lemma run_inv_prefix: "inv s \<Longrightarrow> inv (fold step (take n ops) s)"
  by (rule run_inv)

end

text \<open>With a clock (a version, an epoch) that no operation turns back.\<close>

locale clocked_op_system = op_system inv step
  for inv :: "'s \<Rightarrow> bool" and step :: "'op \<Rightarrow> 's \<Rightarrow> 's" +
  fixes clock :: "'s \<Rightarrow> nat"
  assumes step_clock: "clock s \<le> clock (step op s)"
begin

lemma run_clock: "clock s \<le> clock (fold step ops s)"
proof (induction ops arbitrary: s)
  case Nil
  then show ?case by simp
next
  case (Cons op ops)
  have "clock s \<le> clock (step op s)" by (rule step_clock)
  also have "\<dots> \<le> clock (fold step ops (step op s))" by (rule Cons.IH)
  finally show ?case by simp
qed

text \<open>An operation that advances the clock is never undone by the ones around it.\<close>

lemma run_clock_strict:
  assumes "op \<in> set ops" "\<And>s. clock s < clock (step op s)"
  shows "clock s < clock (fold step ops s)"
proof -
  obtain xs ys where ops: "ops = xs @ op # ys" using assms(1) by (meson split_list)
  have "clock s \<le> clock (fold step xs s)" by (rule run_clock)
  also have "\<dots> < clock (step op (fold step xs s))" by (rule assms(2))
  also have "\<dots> \<le> clock (fold step ys (step op (fold step xs s)))" by (rule run_clock)
  finally show ?thesis by (simp add: ops)
qed

end

end
