(* ===== verification/BoundedCache.thy ===== *)
theory BoundedCache imports OpSystems begin

text \<open>
  \<open>src/lib/cache/boundedCache.js\<close>: the process-local cache. The closure variables of
  \<open>createBoundedCache\<close> are the fields of \<open>cache\<close>; each function of the object it returns is a
  definition that takes the cache (and the time \<open>now()\<close> returns) and gives the result and the
  new cache. Values are opaque: \<open>sizeOf v\<close> is \<open>None\<close> where copying or measuring \<open>v\<close> throws. A
  load in \<open>getOrLoad\<close> is asynchronous: it is a \<open>flight\<close> that starts, may retry, and ends, with
  other operations in between.
\<close>

section \<open>State\<close>

record ('v, 'ver) entry =
  e_scope :: string
  e_key :: string
  e_value :: 'v
  e_size :: nat
  e_version :: "'ver option"
  e_tags :: "string list"
  e_storedAt :: rat
  e_expiresAt :: rat

record counters =
  hits :: nat
  misses :: nat
  expired :: nat
  staleVersion :: nat
  staleServed :: nat
  evictions :: nat
  invalidations :: nat
  rejected :: nat
  loadFailures :: nat
  retries :: nat

record config =
  maxEntries :: rat
  maxBytes :: rat
  defaultTtlMs :: rat
  staleGraceMs :: rat

record ('v, 'ver) cache =
  entries :: "(string \<times> ('v, 'ver) entry) list"
  tagIndex :: "(string \<times> string list) list"
  inflight :: "(string \<times> nat) list"
  nextFlight :: nat
  bytes :: int
  epoch :: nat
  counters :: counters

datatype cache_error = Validation_field string

definition SEPARATOR :: char where
  "SEPARATOR = CHR 0x00"

definition compose :: "string \<Rightarrow> string \<Rightarrow> string" where
  "compose scope key = scope @ SEPARATOR # key"

definition valid_name :: "string \<Rightarrow> bool" where
  "valid_name s \<longleftrightarrow> s \<noteq> [] \<and> SEPARATOR \<notin> set s \<and> length s \<le> 512"

definition no_counters :: counters where
  "no_counters = \<lparr>hits = 0, misses = 0, expired = 0, staleVersion = 0, staleServed = 0,
     evictions = 0, invalidations = 0, rejected = 0, loadFailures = 0, retries = 0\<rparr>"

definition empty_cache :: "('v, 'ver) cache" where
  "empty_cache = \<lparr>entries = [], tagIndex = [], inflight = [], nextFlight = 0, bytes = 0,
     epoch = 0, counters = no_counters\<rparr>"

definition positive :: "jsnum \<Rightarrow> bool" where
  "positive x \<longleftrightarrow> (case x of Fin r \<Rightarrow> 0 < r | _ \<Rightarrow> False)"

definition fin_val :: "jsnum \<Rightarrow> rat" where
  "fin_val x = (case x of Fin r \<Rightarrow> r | _ \<Rightarrow> 0)"

definition createBoundedCache ::
  "jsnum \<Rightarrow> jsnum \<Rightarrow> jsnum \<Rightarrow> jsnum \<Rightarrow> cache_error + config \<times> ('v, 'ver) cache" where
  "createBoundedCache me mb ttl grace =
     (if \<not> positive me then Inl (Validation_field ''maxEntries'')
      else if \<not> positive mb then Inl (Validation_field ''maxBytes'')
      else if \<not> positive ttl then Inl (Validation_field ''defaultTtlMs'')
      else if \<not> js_is_finite grace \<or> js_lt grace (Fin 0) then Inl (Validation_field ''staleGraceMs'')
      else Inr (\<lparr>maxEntries = fin_val me, maxBytes = fin_val mb, defaultTtlMs = fin_val ttl,
                 staleGraceMs = fin_val grace\<rparr>, empty_cache))"

section \<open>Internal operations\<close>

definition unindex_tag :: "string \<Rightarrow> string \<Rightarrow> (string \<times> string list) list \<Rightarrow> (string \<times> string list) list" where
  "unindex_tag composite tag idx =
     (case map_of idx tag of
        None \<Rightarrow> idx
      | Some ks \<Rightarrow>
          let ks' = removeAll composite ks
          in if ks' = [] then AList.delete tag idx else AList.update tag ks' idx)"

definition index_tag :: "string \<Rightarrow> string \<Rightarrow> (string \<times> string list) list \<Rightarrow> (string \<times> string list) list" where
  "index_tag composite tag idx =
     (let ks = (case map_of idx tag of None \<Rightarrow> [] | Some ks \<Rightarrow> ks)
      in AList.update tag (if composite \<in> set ks then ks else ks @ [composite]) idx)"

definition remove :: "string \<Rightarrow> ('v, 'ver) cache \<Rightarrow> bool \<times> ('v, 'ver) cache" where
  "remove composite c =
     (case map_of (entries c) composite of
        None \<Rightarrow> (False, c)
      | Some e \<Rightarrow>
          (True, c\<lparr>entries := AList.delete composite (entries c),
                   bytes := bytes c - int (e_size e),
                   tagIndex := fold (unindex_tag composite) (e_tags e) (tagIndex c)\<rparr>))"

text \<open>The new cache, and how many of the keys were there to remove.\<close>

definition discard :: "string \<Rightarrow> ('v, 'ver) cache \<Rightarrow> ('v, 'ver) cache" where
  "discard composite c = snd (remove composite c)"

fun remove_all :: "string list \<Rightarrow> ('v, 'ver) cache \<Rightarrow> nat \<times> ('v, 'ver) cache" where
  "remove_all [] c = (0, c)"
| "remove_all (k # ks) c =
     (let (found, c') = remove k c; (n, c'') = remove_all ks c'
      in (if found then Suc n else n, c''))"

definition bump :: "(counters \<Rightarrow> counters) \<Rightarrow> ('v, 'ver) cache \<Rightarrow> ('v, 'ver) cache" where
  "bump f c = c\<lparr>counters := f (counters c)\<rparr>"

lemma remove_length:
  "entries c \<noteq> [] \<Longrightarrow> length (entries (discard (fst (hd (entries c))) c)) < length (entries c)"
  unfolding discard_def remove_def
  by (cases "entries c") (auto simp: AList.delete_eq intro: le_imp_less_Suc)

function evictToFit :: "config \<Rightarrow> ('v, 'ver) cache \<Rightarrow> ('v, 'ver) cache" where
  "evictToFit cfg c =
     (if maxEntries cfg < of_nat (length (entries c)) \<or> maxBytes cfg < of_int (bytes c)
      then (case entries c of
              [] \<Rightarrow> c
            | (oldest, _) # _ \<Rightarrow>
                evictToFit cfg (bump (\<lambda>k. k\<lparr>evictions := evictions k + 1\<rparr>) (discard oldest c)))
      else c)"
  by pat_completeness auto
termination
proof (relation "measure (\<lambda>(_, c). length (entries c))", simp)
  fix cfg :: config and c :: "('v, 'ver) cache" and p ps k e
  assume "entries c = p # ps" "(k, e) = p"
  then show "((cfg, bump (\<lambda>k. k\<lparr>evictions := evictions k + 1\<rparr>) (discard k c)), cfg, c)
      \<in> measure (\<lambda>(_, c). length (entries c))"
    using remove_length [of c] by (auto simp: bump_def)
qed

declare evictToFit.simps [simp del]

definition dropExpired :: "config \<Rightarrow> rat \<Rightarrow> ('v, 'ver) cache \<Rightarrow> ('v, 'ver) cache" where
  "dropExpired cfg time c =
     fold (\<lambda>(k, e) c'. if e_expiresAt e + staleGraceMs cfg \<le> time then discard k c' else c') (entries c) c"

definition invalidated :: "nat \<Rightarrow> ('v, 'ver) cache \<Rightarrow> nat \<times> ('v, 'ver) cache" where
  "invalidated n c =
     (n, bump (\<lambda>k. k\<lparr>invalidations := invalidations k + n\<rparr>) (c\<lparr>epoch := epoch c + 1, inflight := []\<rparr>))"

section \<open>Storing\<close>

definition dedupe :: "'a list \<Rightarrow> 'a list" where
  "dedupe xs = rev (remdups (rev xs))"

record 'ver set_options =
  so_scope :: string
  so_ttlMs :: "jsnum option"
  so_tags :: "string list"
  so_version :: "'ver option"

definition ttl_of :: "config \<Rightarrow> 'ver set_options \<Rightarrow> jsnum" where
  "ttl_of cfg opts = (case so_ttlMs opts of Some t \<Rightarrow> t | None \<Rightarrow> Fin (defaultTtlMs cfg))"

definition cache_set ::
  "config \<Rightarrow> ('v \<Rightarrow> nat option) \<Rightarrow> rat \<Rightarrow> string \<Rightarrow> 'v \<Rightarrow> 'ver set_options \<Rightarrow> ('v, 'ver) cache \<Rightarrow>
   (cache_error + bool) \<times> ('v, 'ver) cache" where
  "cache_set cfg sizeOf time key v opts c =
     (if \<not> valid_name key then (Inl (Validation_field ''key''), c)
      else if \<not> valid_name (so_scope opts) then (Inl (Validation_field ''scope''), c)
      else let ttl = ttl_of cfg opts in
        if \<not> positive ttl then (Inl (Validation_field ''ttlMs''), c)
        else let composite = compose (so_scope opts) key in
          case sizeOf v of
            None \<Rightarrow> (Inr False, bump (\<lambda>k. k\<lparr>rejected := rejected k + 1\<rparr>) c)
          | Some sz \<Rightarrow>
              if maxBytes cfg < of_nat sz
              then (Inr False, bump (\<lambda>k. k\<lparr>rejected := rejected k + 1\<rparr>) (discard composite c))
              else let c1 = discard composite c in
                if \<not> list_all valid_name (so_tags opts) then (Inl (Validation_field ''tag''), c1)
                else let tagList = dedupe (so_tags opts);
                         e = \<lparr>e_scope = so_scope opts, e_key = key, e_value = v, e_size = sz,
                              e_version = so_version opts, e_tags = tagList, e_storedAt = time,
                              e_expiresAt = time + fin_val ttl\<rparr>;
                         c2 = c1\<lparr>entries := AList.update composite e (entries c1),
                                 bytes := bytes c1 + int sz,
                                 tagIndex := fold (index_tag composite) tagList (tagIndex c1)\<rparr>
                     in (Inr True, evictToFit cfg (dropExpired cfg time c2)))"

section \<open>Reading\<close>

datatype ('v, 'ver) lookup_result =
    Hit 'v rat "'ver option"
  | Miss
  | Expired
  | Stale "'ver option" "'ver option"

text \<open>The caller's version is \<open>None\<close> when it is not given, \<open>Some None\<close> when it is \<open>null\<close>.\<close>

definition lookup ::
  "config \<Rightarrow> rat \<Rightarrow> string \<Rightarrow> string \<Rightarrow> 'ver option option \<Rightarrow> ('v, 'ver) cache \<Rightarrow>
   (cache_error + ('v, 'ver) lookup_result) \<times> ('v, 'ver) cache" where
  "lookup cfg time key scope version c =
     (if \<not> valid_name key then (Inl (Validation_field ''key''), c)
      else if \<not> valid_name scope then (Inl (Validation_field ''scope''), c)
      else let composite = compose scope key in
        case map_of (entries c) composite of
          None \<Rightarrow> (Inr Miss, bump (\<lambda>k. k\<lparr>misses := misses k + 1\<rparr>) c)
        | Some e \<Rightarrow>
            if version \<noteq> None \<and> version \<noteq> Some (e_version e)
            then (Inr (Stale (e_version e) (the version)),
                  bump (\<lambda>k. k\<lparr>staleVersion := staleVersion k + 1\<rparr>) (discard composite c))
            else if e_expiresAt e \<le> time
            then (Inr Expired,
                  let c1 = bump (\<lambda>k. k\<lparr>expired := expired k + 1\<rparr>) c
                  in if e_expiresAt e + staleGraceMs cfg \<le> time then discard composite c1 else c1)
            else (Inr (Hit (e_value e) (time - e_storedAt e) (e_version e)),
                  bump (\<lambda>k. k\<lparr>hits := hits k + 1\<rparr>)
                    (c\<lparr>entries := AList.delete composite (entries c) @ [(composite, e)]\<rparr>)))"

definition cache_get ::
  "config \<Rightarrow> rat \<Rightarrow> string \<Rightarrow> string \<Rightarrow> 'ver option option \<Rightarrow> ('v, 'ver) cache \<Rightarrow>
   (cache_error + 'v option) \<times> ('v, 'ver) cache" where
  "cache_get cfg time key scope version c =
     (case lookup cfg time key scope version c of
        (Inl e, c') \<Rightarrow> (Inl e, c')
      | (Inr r, c') \<Rightarrow> (Inr (case r of Hit v _ _ \<Rightarrow> Some v | _ \<Rightarrow> None), c'))"

definition peekStale ::
  "config \<Rightarrow> rat \<Rightarrow> string \<Rightarrow> string \<Rightarrow> 'ver option option \<Rightarrow> ('v, 'ver) cache \<Rightarrow>
   cache_error + ('v \<times> rat) option" where
  "peekStale cfg time key scope version c =
     (if \<not> valid_name key then Inl (Validation_field ''key'')
      else if \<not> valid_name scope then Inl (Validation_field ''scope'')
      else case map_of (entries c) (compose scope key) of
          None \<Rightarrow> Inr None
        | Some e \<Rightarrow>
            if version \<noteq> None \<and> version \<noteq> Some (e_version e) then Inr None
            else if time < e_expiresAt e \<or> e_expiresAt e + staleGraceMs cfg \<le> time then Inr None
            else Inr (Some (e_value e, time - e_storedAt e)))"

section \<open>Loading\<close>

text \<open>
  \<open>getOrLoad\<close> in its asynchronous parts. \<open>getOrLoad_start\<close> is the code up to the first
  \<open>await\<close>: a hit, the flight already under way for the entry, or a flight of its own.
  \<open>flight_loaded\<close> and \<open>flight_failed\<close> are what a flight does when its loader returns or throws,
  \<open>settle_failed\<close> what a caller does whose flight was rejected.
\<close>

record 'ver flight =
  fl_id :: nat
  fl_key :: string
  fl_opts :: "'ver set_options"
  fl_retries :: nat
  fl_startEpoch :: nat
  fl_attempt :: nat

datatype ('v, 'ver) load_start =
    Cached 'v
  | Joined nat
  | Started "'ver flight"

definition getOrLoad_start ::
  "config \<Rightarrow> rat \<Rightarrow> string \<Rightarrow> string \<Rightarrow> 'ver option option \<Rightarrow> jsnum option \<Rightarrow> string list \<Rightarrow> nat \<Rightarrow>
   ('v, 'ver) cache \<Rightarrow> (cache_error + ('v, 'ver) load_start) \<times> ('v, 'ver) cache" where
  "getOrLoad_start cfg time key scope version ttl tags retr c =
     (case lookup cfg time key scope version c of
        (Inl e, c') \<Rightarrow> (Inl e, c')
      | (Inr (Hit v _ _), c') \<Rightarrow> (Inr (Cached v), c')
      | (Inr _, c') \<Rightarrow>
          (case map_of (inflight c') (compose scope key) of
             Some fid \<Rightarrow> (Inr (Joined fid), c')
           | None \<Rightarrow>
               (Inr (Started \<lparr>fl_id = nextFlight c', fl_key = key,
                   fl_opts = \<lparr>so_scope = scope, so_ttlMs = ttl, so_tags = tags,
                              so_version = (case version of Some x \<Rightarrow> x | None \<Rightarrow> None)\<rparr>,
                   fl_retries = retr, fl_startEpoch = epoch c', fl_attempt = 0\<rparr>),
                c'\<lparr>inflight := AList.update (compose scope key) (nextFlight c') (inflight c'),
                   nextFlight := nextFlight c' + 1\<rparr>)))"

definition fl_composite :: "'ver flight \<Rightarrow> string" where
  "fl_composite fl = compose (so_scope (fl_opts fl)) (fl_key fl)"

definition end_flight :: "'ver flight \<Rightarrow> ('v, 'ver) cache \<Rightarrow> ('v, 'ver) cache" where
  "end_flight fl c =
     (if map_of (inflight c) (fl_composite fl) = Some (fl_id fl)
      then c\<lparr>inflight := AList.delete (fl_composite fl) (inflight c)\<rparr> else c)"

text \<open>
  A \<open>set\<close> that throws is caught like a failing loader; a validation error is not retryable,
  so the flight is rejected.
\<close>

definition flight_loaded ::
  "config \<Rightarrow> ('v \<Rightarrow> nat option) \<Rightarrow> rat \<Rightarrow> 'v \<Rightarrow> 'ver flight \<Rightarrow> ('v, 'ver) cache \<Rightarrow>
   (cache_error + 'v) \<times> ('v, 'ver) cache" where
  "flight_loaded cfg sizeOf time v fl c =
     (if fl_startEpoch fl = epoch c
      then (case cache_set cfg sizeOf time (fl_key fl) v (fl_opts fl) c of
              (Inl e, c') \<Rightarrow> (Inl e, end_flight fl c')
            | (Inr _, c') \<Rightarrow> (Inr v, end_flight fl c'))
      else (Inr v, end_flight fl c))"

text \<open>The flight that tries again, or \<open>None\<close> when it gives up.\<close>

definition flight_failed ::
  "bool \<Rightarrow> 'ver flight \<Rightarrow> ('v, 'ver) cache \<Rightarrow> 'ver flight option \<times> ('v, 'ver) cache" where
  "flight_failed retryable fl c =
     (if fl_retries fl \<le> fl_attempt fl \<or> \<not> retryable then (None, end_flight fl c)
      else (Some (fl\<lparr>fl_attempt := fl_attempt fl + 1\<rparr>), bump (\<lambda>k. k\<lparr>retries := retries k + 1\<rparr>) c))"

definition settle_failed ::
  "config \<Rightarrow> rat \<Rightarrow> string \<Rightarrow> string \<Rightarrow> 'ver option option \<Rightarrow> bool \<Rightarrow> ('v, 'ver) cache \<Rightarrow>
   ('v \<times> rat) option \<times> ('v, 'ver) cache" where
  "settle_failed cfg time key scope version serveStaleOnError c =
     (let c1 = bump (\<lambda>k. k\<lparr>loadFailures := loadFailures k + 1\<rparr>) c;
          fallback = (if serveStaleOnError
                      then (case peekStale cfg time key scope version c of Inr f \<Rightarrow> f | Inl _ \<Rightarrow> None)
                      else None)
      in case fallback of
           Some f \<Rightarrow> (Some f, bump (\<lambda>k. k\<lparr>staleServed := staleServed k + 1\<rparr>) c1)
         | None \<Rightarrow> (None, c1))"

section \<open>Invalidation\<close>

definition invalidate :: "string \<Rightarrow> string \<Rightarrow> ('v, 'ver) cache \<Rightarrow> (cache_error + nat) \<times> ('v, 'ver) cache" where
  "invalidate key scope c =
     (if \<not> valid_name key then (Inl (Validation_field ''key''), c)
      else if \<not> valid_name scope then (Inl (Validation_field ''scope''), c)
      else let (found, c1) = remove (compose scope key) c; (n, c2) = invalidated (if found then 1 else 0) c1
           in (Inr n, c2))"

definition invalidateTag :: "string \<Rightarrow> ('v, 'ver) cache \<Rightarrow> (cache_error + nat) \<times> ('v, 'ver) cache" where
  "invalidateTag tag c =
     (if \<not> valid_name tag then (Inl (Validation_field ''tag''), c)
      else let ks = (case map_of (tagIndex c) tag of None \<Rightarrow> [] | Some ks \<Rightarrow> ks);
               (n, c2) = invalidated (length ks) (snd (remove_all ks c))
           in (Inr n, c2))"

definition matching_keys :: "(('v, 'ver) entry \<Rightarrow> bool) \<Rightarrow> ('v, 'ver) cache \<Rightarrow> string list" where
  "matching_keys P c = map fst (filter (\<lambda>(_, e). P e) (entries c))"

definition invalidateScope :: "string \<Rightarrow> ('v, 'ver) cache \<Rightarrow> (cache_error + nat) \<times> ('v, 'ver) cache" where
  "invalidateScope scope c =
     (if \<not> valid_name scope then (Inl (Validation_field ''scope''), c)
      else let (removed, c1) = remove_all (matching_keys (\<lambda>e. e_scope e = scope) c) c;
               (n, c2) = invalidated removed c1
           in (Inr n, c2))"

definition invalidatePrefix ::
  "string \<Rightarrow> string option \<Rightarrow> ('v, 'ver) cache \<Rightarrow> (cache_error + nat) \<times> ('v, 'ver) cache" where
  "invalidatePrefix prefix scope c =
     (if \<not> valid_name prefix then (Inl (Validation_field ''prefix''), c)
      else let (removed, c1) =
                 remove_all (matching_keys (\<lambda>e. starts_with (e_key e) prefix \<and>
                                                (scope = None \<or> scope = Some (e_scope e))) c) c;
               (n, c2) = invalidated removed c1
           in (Inr n, c2))"

definition cache_clear :: "('v, 'ver) cache \<Rightarrow> nat \<times> ('v, 'ver) cache" where
  "cache_clear c = invalidated (length (entries c)) (c\<lparr>entries := [], tagIndex := [], bytes := 0\<rparr>)"

datatype 'ver finding_reason = Finding_expired rat | Version_behind "'ver option" "'ver option"

definition findStale ::
  "config \<Rightarrow> rat \<Rightarrow> (('v, 'ver) entry \<Rightarrow> 'ver option option) \<Rightarrow> ('v, 'ver) cache \<Rightarrow>
   (string \<times> string \<times> 'ver finding_reason) list" where
  "findStale cfg time versionFor c =
     List.map_filter (\<lambda>(_, e).
       if e_expiresAt e + staleGraceMs cfg \<le> time
       then Some (e_scope e, e_key e, Finding_expired (time - e_storedAt e))
       else case versionFor e of
              Some current \<Rightarrow>
                if current \<noteq> e_version e then Some (e_scope e, e_key e, Version_behind (e_version e) current)
                else None
            | None \<Rightarrow> None) (entries c)"

definition purgeStale ::
  "config \<Rightarrow> rat \<Rightarrow> (('v, 'ver) entry \<Rightarrow> 'ver option option) \<Rightarrow> ('v, 'ver) cache \<Rightarrow> nat \<times> ('v, 'ver) cache" where
  "purgeStale cfg time versionFor c =
     (let (removed, c1) = remove_all (map (\<lambda>(s, k, _). compose s k) (findStale cfg time versionFor c)) c
      in if removed \<noteq> 0 then invalidated removed c1 else (0, c1))"

definition hitRate :: "('v, 'ver) cache \<Rightarrow> rat option" where
  "hitRate c =
     (let k = counters c; lookups = hits k + misses k + expired k + staleVersion k
      in if lookups = 0 then None else Some (of_nat (hits k) / of_nat lookups))"

section \<open>The operations as steps\<close>

datatype ('v, 'ver) cache_op =
    Op_set rat string 'v "'ver set_options"
  | Op_lookup rat string string "'ver option option"
  | Op_start rat string string "'ver option option" "jsnum option" "string list" nat
  | Op_loaded rat 'v "'ver flight"
  | Op_failed bool "'ver flight"
  | Op_settle rat string string "'ver option option" bool
  | Op_invalidate string string
  | Op_invalidateTag string
  | Op_invalidateScope string
  | Op_invalidatePrefix string "string option"
  | Op_clear
  | Op_purge rat "('v, 'ver) entry \<Rightarrow> 'ver option option"

fun cache_step ::
  "config \<Rightarrow> ('v \<Rightarrow> nat option) \<Rightarrow> ('v, 'ver) cache_op \<Rightarrow> ('v, 'ver) cache \<Rightarrow> ('v, 'ver) cache" where
  "cache_step cfg sz (Op_set t k v opts) c = snd (cache_set cfg sz t k v opts c)"
| "cache_step cfg sz (Op_lookup t k s ver) c = snd (lookup cfg t k s ver c)"
| "cache_step cfg sz (Op_start t k s ver ttl tags r) c = snd (getOrLoad_start cfg t k s ver ttl tags r c)"
| "cache_step cfg sz (Op_loaded t v fl) c = snd (flight_loaded cfg sz t v fl c)"
| "cache_step cfg sz (Op_failed r fl) c = snd (flight_failed r fl c)"
| "cache_step cfg sz (Op_settle t k s ver b) c = snd (settle_failed cfg t k s ver b c)"
| "cache_step cfg sz (Op_invalidate k s) c = snd (invalidate k s c)"
| "cache_step cfg sz (Op_invalidateTag t) c = snd (invalidateTag t c)"
| "cache_step cfg sz (Op_invalidateScope s) c = snd (invalidateScope s c)"
| "cache_step cfg sz (Op_invalidatePrefix p s) c = snd (invalidatePrefix p s c)"
| "cache_step cfg sz Op_clear c = snd (cache_clear c)"
| "cache_step cfg sz (Op_purge t vf) c = snd (purgeStale cfg t vf c)"


section \<open>The tag index\<close>

definition tag_keys :: "(string \<times> string list) list \<Rightarrow> string \<Rightarrow> string list" where
  "tag_keys idx t = (case map_of idx t of None \<Rightarrow> [] | Some ks \<Rightarrow> ks)"

definition wf_index :: "(string \<times> string list) list \<Rightarrow> bool" where
  "wf_index idx \<longleftrightarrow> distinct (keys idx) \<and> (\<forall>t. distinct (tag_keys idx t))"

lemma tag_keys_unindex:
  "tag_keys (unindex_tag k t idx) t' = (if t' = t then removeAll k (tag_keys idx t) else tag_keys idx t')"
  by (auto simp: unindex_tag_def tag_keys_def Let_def delete_conv update_conv' split: option.splits)

lemma tag_keys_index:
  "tag_keys (index_tag k t idx) t' =
   (if t' = t \<and> k \<notin> set (tag_keys idx t) then tag_keys idx t @ [k] else tag_keys idx t')"
  by (auto simp: index_tag_def tag_keys_def Let_def update_conv' split: option.splits)

lemma wf_unindex: "wf_index idx \<Longrightarrow> wf_index (unindex_tag k t idx)"
  unfolding wf_index_def
  by (auto simp: tag_keys_unindex distinct_removeAll)
     (auto simp: unindex_tag_def Let_def split: option.splits)

lemma wf_index_tag: "wf_index idx \<Longrightarrow> wf_index (index_tag k t idx)"
  unfolding wf_index_def by (auto simp: tag_keys_index) (auto simp: index_tag_def Let_def)

lemma tag_keys_unindex_all:
  "set (tag_keys (fold (unindex_tag k) ts idx) t) =
   (if t \<in> set ts then set (tag_keys idx t) - {k} else set (tag_keys idx t))"
  by (induction ts arbitrary: idx) (auto simp: tag_keys_unindex)

lemma tag_keys_index_all:
  "set (tag_keys (fold (index_tag k) ts idx) t) =
   (if t \<in> set ts then insert k (set (tag_keys idx t)) else set (tag_keys idx t))"
  by (induction ts arbitrary: idx) (auto simp: tag_keys_index)

lemma wf_unindex_all: "wf_index idx \<Longrightarrow> wf_index (fold (unindex_tag k) ts idx)"
  by (induction ts arbitrary: idx) (auto simp: wf_unindex)

lemma wf_index_all: "wf_index idx \<Longrightarrow> wf_index (fold (index_tag k) ts idx)"
  by (induction ts arbitrary: idx) (auto simp: wf_index_tag)

section \<open>The invariant\<close>

definition total_size :: "(string \<times> ('v, 'ver) entry) list \<Rightarrow> int" where
  "total_size es = sum_list (map (\<lambda>(_, e). int (e_size e)) es)"

definition entry_ok :: "string \<times> ('v, 'ver) entry \<Rightarrow> bool" where
  "entry_ok p \<longleftrightarrow> fst p = compose (e_scope (snd p)) (e_key (snd p)) \<and>
     valid_name (e_scope (snd p)) \<and> valid_name (e_key (snd p))"

definition cache_ok :: "('v, 'ver) cache \<Rightarrow> bool" where
  "cache_ok c \<longleftrightarrow>
     distinct (keys (entries c)) \<and> bytes c = total_size (entries c) \<and>
     (\<forall>p \<in> set (entries c). entry_ok p) \<and> wf_index (tagIndex c) \<and>
     (\<forall>t k. k \<in> set (tag_keys (tagIndex c) t) \<longleftrightarrow> (\<exists>e. map_of (entries c) k = Some e \<and> t \<in> set (e_tags e)))"

definition cache_fits :: "config \<Rightarrow> ('v, 'ver) cache \<Rightarrow> bool" where
  "cache_fits cfg c \<longleftrightarrow> of_nat (length (entries c)) \<le> maxEntries cfg \<and> of_int (bytes c) \<le> maxBytes cfg"

definition config_ok :: "config \<Rightarrow> bool" where
  "config_ok cfg \<longleftrightarrow> 0 < maxEntries cfg \<and> 0 < maxBytes cfg \<and> 0 < defaultTtlMs cfg \<and> 0 \<le> staleGraceMs cfg"

lemma entries_simps [simp]:
  "entries (bump f c) = entries c" "tagIndex (bump f c) = tagIndex c" "bytes (bump f c) = bytes c"
  "epoch (bump f c) = epoch c" "inflight (bump f c) = inflight c"
  by (simp_all add: bump_def)

lemma cache_ok_cong:
  "entries c = entries d \<Longrightarrow> tagIndex c = tagIndex d \<Longrightarrow> bytes c = bytes d \<Longrightarrow> cache_ok c = cache_ok d"
  by (simp add: cache_ok_def)

lemma cache_ok_bump [simp]: "cache_ok (bump f c) = cache_ok c"
  by (rule cache_ok_cong) simp_all

lemma total_size_simps [simp]:
  "total_size [] = 0" "total_size (p # es) = int (e_size (snd p)) + total_size es"
  "total_size (es @ fs) = total_size es + total_size fs"
  by (simp_all add: total_size_def case_prod_beta)

lemma total_size_nonneg: "0 \<le> total_size es"
  by (induction es) auto

lemma total_size_filter: "total_size (filter P es) \<le> total_size es"
  by (induction es) (auto intro: add_increasing)

lemma total_size_delete:
  "distinct (keys es) \<Longrightarrow> map_of es k = Some e \<Longrightarrow> total_size (AList.delete k es) = total_size es - int (e_size e)"
proof (induction es)
  case (Cons p es)
  then show ?case by (cases p) (auto simp: delete_absent)
qed simp

lemma delete_filter: "AList.delete k es = filter (\<lambda>p. fst p \<noteq> k) es"
  by (auto simp: AList.delete_eq intro!: filter_cong)

lemma entries_discard [simp]: "entries (discard k c) = AList.delete k (entries c)"
  by (auto simp: discard_def remove_def delete_absent map_of_eq_None_iff split: option.splits)

lemma epoch_discard [simp]: "epoch (discard k c) = epoch c" "inflight (discard k c) = inflight c"
  by (auto simp: discard_def remove_def split: option.splits)

lemma remove_pair: "remove k c = (map_of (entries c) k \<noteq> None, discard k c)"
  by (auto simp: discard_def remove_def split: option.splits)

lemma tag_keys_discard:
  assumes "cache_ok c"
  shows "set (tag_keys (tagIndex (discard k c)) t) = set (tag_keys (tagIndex c) t) - {k}"
  using assms
  by (auto simp: discard_def remove_def tag_keys_unindex_all cache_ok_def split: option.splits)

lemma cache_ok_discard: "cache_ok c \<Longrightarrow> cache_ok (discard k c)"
proof -
  assume ok: "cache_ok c"
  then have "bytes (discard k c) = total_size (AList.delete k (entries c))"
    by (auto simp: discard_def remove_def cache_ok_def total_size_delete delete_absent map_of_eq_None_iff
        split: option.splits)
  moreover have "wf_index (tagIndex (discard k c))"
    using ok by (auto simp: discard_def remove_def cache_ok_def wf_unindex_all split: option.splits)
  ultimately show ?thesis
    using ok tag_keys_discard [OF ok] unfolding cache_ok_def
    by (auto simp: delete_filter map_of_eq_Some_iff distinct_map_filter)
qed

lemma remove_all_Cons [simp]: "snd (remove_all (k # ks) c) = snd (remove_all ks (discard k c))"
  by (simp add: remove_pair Let_def case_prod_beta)

declare remove_all.simps(2) [simp del]

lemma entries_remove_all: "entries (snd (remove_all ks c)) = filter (\<lambda>p. fst p \<notin> set ks) (entries c)"
  by (induction ks arbitrary: c) (auto simp: delete_filter intro: filter_cong)

lemma cache_ok_remove_all: "cache_ok c \<Longrightarrow> cache_ok (snd (remove_all ks c))"
  by (induction ks arbitrary: c) (auto simp: cache_ok_discard)

lemma epoch_remove_all [simp]: "epoch (snd (remove_all ks c)) = epoch c"
  by (induction ks arbitrary: c) auto

section \<open>Eviction and expiry\<close>

abbreviation overfull :: "config \<Rightarrow> ('v, 'ver) cache \<Rightarrow> bool" where
  "overfull cfg c \<equiv> maxEntries cfg < of_nat (length (entries c)) \<or> maxBytes cfg < of_int (bytes c)"

lemma evict_step:
  "entries c = (k, e) # es \<Longrightarrow> overfull cfg c \<Longrightarrow>
   evictToFit cfg c = evictToFit cfg (bump (\<lambda>x. x\<lparr>evictions := evictions x + 1\<rparr>) (discard k c))"
  by (subst evictToFit.simps) simp

lemma evict_stop: "\<not> overfull cfg c \<or> entries c = [] \<Longrightarrow> evictToFit cfg c = c"
  by (subst evictToFit.simps) auto

lemma delete_head: "distinct (keys ((k, e) # es)) \<Longrightarrow> AList.delete k ((k, e) # es) = es"
  by (simp add: delete_absent)

text \<open>Eviction drops entries from the front, the least recently used ones, and keeps the rest.\<close>

lemma evict_result:
  "cache_ok c \<Longrightarrow>
   (\<exists>n. entries (evictToFit cfg c) = drop n (entries c)) \<and> cache_ok (evictToFit cfg c) \<and>
   epoch (evictToFit cfg c) = epoch c \<and> (config_ok cfg \<longrightarrow> cache_fits cfg (evictToFit cfg c))"
proof (induction "length (entries c)" arbitrary: c)
  case 0
  then have "entries c = []" by simp
  with 0 show ?case by (auto simp: evict_stop cache_fits_def config_ok_def cache_ok_def)
next
  case (Suc m)
  then obtain k e es where es: "entries c = (k, e) # es" by (cases "entries c") auto
  show ?case
  proof (cases "overfull cfg c")
    case False
    then show ?thesis
      using Suc.prems by (auto simp: evict_stop cache_fits_def intro: exI [where x = 0])
  next
    case True
    let ?d = "bump (\<lambda>x. x\<lparr>evictions := evictions x + 1\<rparr>) (discard k c)"
    have "distinct (keys ((k, e) # es))" using Suc.prems es by (simp add: cache_ok_def)
    then have tl: "entries ?d = es" using es by (simp add: delete_absent)
    have IH: "(\<exists>n. entries (evictToFit cfg ?d) = drop n (entries ?d)) \<and> cache_ok (evictToFit cfg ?d) \<and>
      epoch (evictToFit cfg ?d) = epoch ?d \<and> (config_ok cfg \<longrightarrow> cache_fits cfg (evictToFit cfg ?d))"
      using Suc es tl by (intro Suc.hyps(1)) (simp_all add: cache_ok_discard)
    then obtain n where "entries (evictToFit cfg ?d) = drop n es" using tl by auto
    then have "entries (evictToFit cfg c) = drop (Suc n) (entries c)"
      using es by (simp add: evict_step [OF es True])
    then show ?thesis using IH by (auto simp: evict_step [OF es True])
  qed
qed

lemma evict_keeps_last:
  "cache_ok c \<Longrightarrow> 1 \<le> maxEntries cfg \<Longrightarrow> entries c = es @ [p] \<Longrightarrow>
   of_nat (e_size (snd p)) \<le> maxBytes cfg \<Longrightarrow> p \<in> set (entries (evictToFit cfg c))"
proof (induction es arbitrary: c)
  case Nil
  have "bytes c = int (e_size (snd p))" using Nil.prems by (simp add: cache_ok_def)
  then show ?case using Nil.prems by (simp add: evict_stop)
next
  case (Cons q es)
  obtain k e where q: "q = (k, e)" by (cases q)
  show ?case
  proof (cases "overfull cfg c")
    case False
    then show ?thesis using Cons.prems by (simp add: evict_stop)
  next
    case True
    let ?d = "bump (\<lambda>x. x\<lparr>evictions := evictions x + 1\<rparr>) (discard k c)"
    have es: "entries c = (k, e) # (es @ [p])" using Cons.prems q by simp
    moreover have "distinct (keys (entries c))" using Cons.prems by (simp add: cache_ok_def)
    ultimately have "entries ?d = es @ [p]" by (simp add: delete_absent)
    then show ?thesis
      unfolding evict_step [OF es True]
      using Cons.prems by (intro Cons.IH) (simp_all add: cache_ok_discard)
  qed
qed

lemma discard_many:
  fixes P :: "('v, 'ver) entry \<Rightarrow> bool"
  defines "F \<equiv> fold (\<lambda>(k, e) c'. if P e then discard k c' else c')"
  shows "entries (F es c) = filter (\<lambda>p. \<not> (\<exists>q \<in> set es. P (snd q) \<and> fst p = fst q)) (entries c)"
    and "cache_ok c \<Longrightarrow> cache_ok (F es c)" and "epoch (F es c) = epoch c"
  unfolding F_def
  by (induction es arbitrary: c) (auto simp: delete_filter cache_ok_discard)

lemma dropExpired_entries:
  "distinct (keys (entries c)) \<Longrightarrow>
   entries (dropExpired cfg time c) = filter (\<lambda>(_, e). time < e_expiresAt e + staleGraceMs cfg) (entries c)"
  unfolding dropExpired_def discard_many
  by (rule filter_cong) (auto simp: not_le dest: eq_key_imp_eq_value)

lemma dropExpired_ok: "cache_ok c \<Longrightarrow> cache_ok (dropExpired cfg time c)"
  unfolding dropExpired_def by (rule discard_many)

lemma dropExpired_epoch [simp]: "epoch (dropExpired cfg time c) = epoch c"
  unfolding dropExpired_def by (rule discard_many)

section \<open>Every operation keeps the invariant\<close>

definition cache_inv :: "config \<Rightarrow> ('v, 'ver) cache \<Rightarrow> bool" where
  "cache_inv cfg c \<longleftrightarrow> config_ok cfg \<and> cache_ok c \<and> cache_fits cfg c"

lemma fits_shrink:
  "cache_ok c \<Longrightarrow> cache_ok d \<Longrightarrow> entries d = filter P (entries c) \<Longrightarrow> cache_fits cfg c \<Longrightarrow> cache_fits cfg d"
  unfolding cache_fits_def cache_ok_def
  by (metis (no_types, lifting) length_filter_le of_int_le_iff of_nat_le_iff order_trans total_size_filter)

lemma inv_discard: "cache_inv cfg c \<Longrightarrow> cache_inv cfg (discard k c)"
  unfolding cache_inv_def
  by (auto simp: cache_ok_discard delete_filter intro: fits_shrink [of c])

lemma inv_remove_all: "cache_inv cfg c \<Longrightarrow> cache_inv cfg (snd (remove_all ks c))"
  unfolding cache_inv_def
  by (auto simp: cache_ok_remove_all entries_remove_all intro: fits_shrink [of c])

lemma inv_cong:
  "entries c = entries d \<Longrightarrow> tagIndex c = tagIndex d \<Longrightarrow> bytes c = bytes d \<Longrightarrow> cache_inv cfg c = cache_inv cfg d"
  by (simp add: cache_inv_def cache_fits_def cache_ok_def)

lemma inv_simps [simp]:
  "cache_inv cfg (bump f c) = cache_inv cfg c"
  "cache_inv cfg (c\<lparr>inflight := x\<rparr>) = cache_inv cfg c"
  "cache_inv cfg (c\<lparr>inflight := x, nextFlight := n\<rparr>) = cache_inv cfg c"
  "cache_inv cfg (snd (invalidated k c)) = cache_inv cfg c"
  by (rule inv_cong; simp add: invalidated_def)+

lemma fst_invalidated [simp]: "fst (invalidated k c) = k"
  by (simp add: invalidated_def)

lemma invalidated_core [simp]:
  "entries (snd (invalidated k c)) = entries c" "epoch (snd (invalidated k c)) = epoch c + 1"
  by (simp_all add: invalidated_def)

text \<open>Storing a new entry, before expiry and eviction.\<close>

definition stored :: "string \<Rightarrow> ('v, 'ver) entry \<Rightarrow> ('v, 'ver) cache \<Rightarrow> ('v, 'ver) cache" where
  "stored k e c = c\<lparr>entries := AList.update k e (entries c), bytes := bytes c + int (e_size e),
     tagIndex := fold (index_tag k) (e_tags e) (tagIndex c)\<rparr>"

lemma stored_ok:
  assumes "cache_ok c" "k \<notin> set (keys (entries c))" "entry_ok (k, e)"
  shows "cache_ok (stored k e c)"
    and "entries (stored k e c) = entries c @ [(k, e)]"
proof -
  show es: "entries (stored k e c) = entries c @ [(k, e)]"
    using assms(2) by (simp add: stored_def update_absent)
  have nk: "map_of (entries c) k = None" using assms(2) by (simp add: map_of_eq_None_iff)
  have "map_of (entries c @ [(k, e)]) k' = (if k' = k then Some e else map_of (entries c) k')" for k'
    using nk by (auto simp: map_add_def split: option.splits)
  moreover have "t \<in> set ts \<or> \<not> k \<in> set (tag_keys (tagIndex c) t)" for t ts
    using assms(1) nk by (simp add: cache_ok_def)
  ultimately show "cache_ok (stored k e c)"
    using assms nk unfolding cache_ok_def es
    by (auto simp: stored_def wf_index_all tag_keys_index_all)
qed

lemma cache_set_cases:
  "cache_set cfg sz time key v opts c = (res, c') \<Longrightarrow>
   c' = c \<and> (\<exists>e. res = Inl e) \<or>
   c' = bump (\<lambda>k. k\<lparr>rejected := rejected k + 1\<rparr>) c \<and> res = Inr False \<or>
   c' = bump (\<lambda>k. k\<lparr>rejected := rejected k + 1\<rparr>) (discard (compose (so_scope opts) key) c) \<and> res = Inr False \<or>
   c' = discard (compose (so_scope opts) key) c \<and> (\<exists>e. res = Inl e) \<or>
   (\<exists>e s ttl. res = Inr True \<and> ttl = fin_val (ttl_of cfg opts) \<and> valid_name key \<and> valid_name (so_scope opts) \<and> sz v = Some s \<and>
      of_nat s \<le> maxBytes cfg \<and> 0 < ttl \<and>
      e = \<lparr>e_scope = so_scope opts, e_key = key, e_value = v, e_size = s, e_version = so_version opts,
           e_tags = dedupe (so_tags opts), e_storedAt = time, e_expiresAt = time + ttl\<rparr> \<and>
      c' = evictToFit cfg (dropExpired cfg time
             (stored (compose (so_scope opts) key) e (discard (compose (so_scope opts) key) c))))"
  by (auto simp: cache_set_def Let_def stored_def positive_def fin_val_def
      split: if_splits option.splits jsnum.splits)

lemma stored_after_discard:
  assumes "cache_ok c" "valid_name key" "valid_name (e_scope e)" "e_key e = key"
  defines "k \<equiv> compose (e_scope e) key"
  shows "cache_ok (stored k e (discard k c))"
    and "entries (stored k e (discard k c)) = AList.delete k (entries c) @ [(k, e)]"
proof -
  have "k \<notin> set (keys (entries (discard k c)))" by (auto simp: delete_filter)
  moreover have "entry_ok (k, e)" using assms by (simp add: entry_ok_def)
  ultimately show "cache_ok (stored k e (discard k c))"
    and "entries (stored k e (discard k c)) = AList.delete k (entries c) @ [(k, e)]"
    using stored_ok [OF cache_ok_discard [OF assms(1)], of k k e] by simp_all
qed

lemma inv_set: "cache_inv cfg c \<Longrightarrow> cache_inv cfg (snd (cache_set cfg sz time key v opts c))"
proof -
  assume inv: "cache_inv cfg c"
  obtain res c' where r: "cache_set cfg sz time key v opts c = (res, c')" by fastforce
  show ?thesis
    using cache_set_cases [OF r] inv unfolding r
  proof (elim disjE exE conjE)
    fix e s ttl
    assume "valid_name key" "valid_name (so_scope opts)"
      and e: "e = \<lparr>e_scope = so_scope opts, e_key = key, e_value = v, e_size = s, e_version = so_version opts,
           e_tags = dedupe (so_tags opts), e_storedAt = time, e_expiresAt = time + ttl\<rparr>"
      and c': "c' = evictToFit cfg (dropExpired cfg time
             (stored (compose (so_scope opts) key) e (discard (compose (so_scope opts) key) c)))"
    then have "cache_ok (stored (compose (so_scope opts) key) e (discard (compose (so_scope opts) key) c))"
      using stored_after_discard(1) [of c key e] inv by (simp add: cache_inv_def)
    from evict_result [OF dropExpired_ok [OF this], of cfg cfg time]
    show "cache_inv cfg (snd (res, c'))"
      using inv unfolding c' cache_inv_def by simp
  qed (auto simp: inv_discard)
qed

text \<open>A hit only moves the entry to the end.\<close>

lemma cache_ok_move:
  assumes "cache_ok c" "map_of (entries c) k = Some e"
  shows "cache_ok (c\<lparr>entries := AList.delete k (entries c) @ [(k, e)]\<rparr>)"
    and "length (AList.delete k (entries c) @ [(k, e)]) = length (entries c)"
proof -
  have d: "distinct (keys (entries c))" using assms(1) by (simp add: cache_ok_def)
  have "map_of (AList.delete k (entries c) @ [(k, e)]) = map_of (entries c)"
    using assms(2) by (auto simp: fun_eq_iff delete_conv map_add_def split: option.splits)
  moreover have "distinct (keys (AList.delete k (entries c) @ [(k, e)]))"
    using d by (simp add: keys_delete)
  moreover have "total_size (AList.delete k (entries c) @ [(k, e)]) = total_size (entries c)"
    using d assms(2) by (simp add: total_size_delete)
  moreover have "set (AList.delete k (entries c) @ [(k, e)]) \<subseteq> set (entries c)"
    using map_of_SomeD [OF assms(2)] by (auto simp: delete_filter)
  then have "\<forall>p \<in> set (AList.delete k (entries c) @ [(k, e)]). entry_ok p"
    using assms(1) unfolding cache_ok_def by blast
  ultimately show "cache_ok (c\<lparr>entries := AList.delete k (entries c) @ [(k, e)]\<rparr>)"
    using assms(1) unfolding cache_ok_def by simp
  have "length (AList.delete k es) + 1 = length es" if "distinct (keys es)" "map_of es k = Some e" for es
    using that by (induction es) (auto simp: delete_absent split: if_splits)
  from this [OF d assms(2)] show "length (AList.delete k (entries c) @ [(k, e)]) = length (entries c)"
    by simp
qed

lemma inv_lookup: "cache_inv cfg c \<Longrightarrow> cache_inv cfg (snd (lookup cfg time key scope version c))"
proof -
  assume inv: "cache_inv cfg c"
  have "cache_inv cfg (c\<lparr>entries := AList.delete k (entries c) @ [(k, e)]\<rparr>)"
    if "map_of (entries c) k = Some e" for k e
    using inv cache_ok_move [OF _ that] unfolding cache_inv_def cache_fits_def
    by (auto simp del: length_append)
  then show ?thesis
    using inv by (auto simp: lookup_def Let_def inv_discard split: option.splits)
qed


lemma inv_start: "cache_inv cfg c \<Longrightarrow> cache_inv cfg (snd (getOrLoad_start cfg t k s ver ttl tags r c))"
  using inv_lookup [of cfg c t k s ver]
  by (auto simp: getOrLoad_start_def split: prod.splits sum.splits lookup_result.splits option.splits)

lemma inv_end_flight [simp]: "cache_inv cfg (end_flight fl c) = cache_inv cfg c"
  by (simp add: end_flight_def)

lemma inv_loaded: "cache_inv cfg c \<Longrightarrow> cache_inv cfg (snd (flight_loaded cfg sz t v fl c))"
  using inv_set [of cfg c sz t "fl_key fl" v "fl_opts fl"]
  by (auto simp: flight_loaded_def split: prod.splits sum.splits)

lemma cache_step_inv: "cache_inv cfg c \<Longrightarrow> cache_inv cfg (cache_step cfg sz op c)"
proof (cases op)
  case (Op_invalidate k s)
  assume "cache_inv cfg c"
  then show ?thesis using Op_invalidate inv_discard [of cfg c]
    by (simp add: invalidate_def Let_def remove_pair case_prod_beta)
next
  case Op_clear
  assume "cache_inv cfg c"
  then have "cache_inv cfg (c\<lparr>entries := [], tagIndex := [], bytes := 0\<rparr>)"
    by (simp add: cache_inv_def cache_ok_def cache_fits_def config_ok_def wf_index_def tag_keys_def)
  then show ?thesis using Op_clear by (simp add: cache_clear_def)
qed (auto simp: inv_set inv_lookup inv_start inv_loaded flight_failed_def settle_failed_def Let_def
       invalidateTag_def invalidateScope_def invalidatePrefix_def purgeStale_def case_prod_beta
       inv_remove_all split: option.splits)

section \<open>The epoch\<close>

lemma epoch_evict [simp]: "epoch (evictToFit cfg c) = epoch c"
proof (induction cfg c rule: evictToFit.induct)
  case (1 cfg c)
  show ?case
  proof (cases "overfull cfg c \<and> entries c \<noteq> []")
    case True
    then obtain k e es where es: "entries c = (k, e) # es" by (cases "entries c") auto
    with True 1 show ?thesis by (simp add: evict_step)
  qed (auto simp: evict_stop)
qed

lemma epoch_set [simp]: "epoch (snd (cache_set cfg sz t k v opts c)) = epoch c"
  by (simp add: cache_set_def Let_def split: option.split)

lemma epoch_lookup [simp]: "epoch (snd (lookup cfg t k s ver c)) = epoch c"
  by (simp add: lookup_def Let_def split: option.split)

lemma epoch_start [simp]: "epoch (snd (getOrLoad_start cfg t k s ver ttl tags r c)) = epoch c"
  using epoch_lookup [of cfg t k s ver c]
  by (auto simp: getOrLoad_start_def simp del: epoch_lookup
      split: prod.splits sum.splits lookup_result.splits option.splits)

lemma epoch_end_flight [simp]: "epoch (end_flight fl c) = epoch c" "entries (end_flight fl c) = entries c"
  by (simp_all add: end_flight_def)

lemma epoch_loaded [simp]: "epoch (snd (flight_loaded cfg sz t v fl c)) = epoch c"
  using epoch_set [of cfg sz t "fl_key fl" v "fl_opts fl" c]
  by (auto simp: flight_loaded_def simp del: epoch_set split: prod.splits sum.splits)

lemma cache_step_epoch: "epoch c \<le> epoch (cache_step cfg sz op c)"
proof (cases op)
  case (Op_invalidate k s)
  then show ?thesis by (simp add: invalidate_def Let_def remove_pair case_prod_beta)
qed (auto simp: flight_failed_def settle_failed_def Let_def cache_clear_def
       invalidateTag_def invalidateScope_def invalidatePrefix_def purgeStale_def case_prod_beta
       split: option.splits)

text \<open>The operations that announce a change of the source data, with acceptable names.\<close>

fun announces_change :: "('v, 'ver) cache_op \<Rightarrow> bool" where
  "announces_change (Op_invalidate k s) = (valid_name k \<and> valid_name s)"
| "announces_change (Op_invalidateTag t) = valid_name t"
| "announces_change (Op_invalidateScope s) = valid_name s"
| "announces_change (Op_invalidatePrefix p s) = valid_name p"
| "announces_change Op_clear = True"
| "announces_change _ = False"

lemma announced_epoch: "announces_change op \<Longrightarrow> epoch c < epoch (cache_step cfg sz op c)"
  by (cases op) (auto simp: invalidate_def Let_def remove_pair case_prod_beta cache_clear_def
       invalidateTag_def invalidateScope_def invalidatePrefix_def)

interpretation cache_ops: clocked_op_system "cache_inv cfg" "cache_step cfg sz" epoch for cfg sz
  by unfold_locales (simp_all add: cache_step_inv cache_step_epoch)

lemma created_inv:
  assumes "createBoundedCache me mb ttl grace = Inr (cfg, c)"
  shows "cache_inv cfg c"
proof -
  have "config_ok cfg" "c = empty_cache"
    using assms by (auto simp: createBoundedCache_def config_ok_def positive_def fin_val_def
      split: if_splits jsnum.splits)
  then show ?thesis
    by (simp add: cache_inv_def cache_ok_def cache_fits_def config_ok_def empty_cache_def wf_index_def tag_keys_def)
qed

lemma compose_inj:
  assumes "compose s k = compose s' k'" "valid_name s" "valid_name s'"
  shows "s = s' \<and> k = k'"
proof -
  have "takeWhile (\<lambda>x. x \<noteq> SEPARATOR) (compose r j) = r" if "valid_name r" for r j
    using that unfolding compose_def valid_name_def by (subst takeWhile_append2) auto
  then have "s = s'" using assms by metis
  then show ?thesis using assms(1) by (simp add: compose_def)
qed

section \<open>Properties\<close>

text \<open>
  C33: a cache created with an accepted configuration never holds more entries than
  \<open>maxEntries\<close> nor more bytes than \<open>maxBytes\<close>, and its byte counter is the sum of the sizes of
  its entries, after any sequence of operations.
\<close>

theorem cache_stays_bounded:
  assumes "createBoundedCache me mb ttl grace = Inr (cfg, c0)"
  shows "let c = fold (cache_step cfg sz) ops c0 in
    of_nat (length (entries c)) \<le> maxEntries cfg \<and> of_int (bytes c) \<le> maxBytes cfg \<and>
    bytes c = total_size (entries c) \<and> distinct (keys (entries c))"
  using cache_ops.run_inv [OF created_inv [OF assms], of sz ops]
  by (simp add: cache_inv_def cache_fits_def cache_ok_def Let_def)

definition sample_options :: "nat set_options" where
  "sample_options = \<lparr>so_scope = ''public'', so_ttlMs = None, so_tags = [''t''], so_version = None\<rparr>"

theorem cache_stays_bounded_witness:
  "of_nat (length (entries (fold (cache_step \<lparr>maxEntries = 1, maxBytes = 10, defaultTtlMs = 5, staleGraceMs = 0\<rparr>
      (\<lambda>v. Some v)) [Op_set 0 ''a'' 4 sample_options, Op_set 1 ''b'' 5 sample_options] empty_cache))) \<le> (1 :: rat)"
proof -
  have "createBoundedCache (Fin 1) (Fin 10) (Fin 5) (Fin 0) =
    Inr (\<lparr>maxEntries = 1, maxBytes = 10, defaultTtlMs = 5, staleGraceMs = 0\<rparr>, empty_cache)"
    by (simp add: createBoundedCache_def positive_def fin_val_def)
  from cache_stays_bounded [OF this, of "\<lambda>v. Some v"
      "[Op_set 0 ''a'' 4 sample_options, Op_set 1 ''b'' 5 sample_options]"]
  show ?thesis by (simp add: Let_def)
qed

text \<open>
  A lookup only ever answers with a value that was stored under the very scope and key asked
  for, whose version is the one asked for, if any, and that has not expired.
\<close>

theorem lookup_hit_sound:
  assumes "createBoundedCache me mb ttl grace = Inr (cfg, c0)"
    and "fst (lookup cfg time key scope version (fold (cache_step cfg sz) ops c0)) = Inr (Hit v age ver)"
  shows "\<exists>e. (compose scope key, e) \<in> set (entries (fold (cache_step cfg sz) ops c0)) \<and>
    e_scope e = scope \<and> e_key e = key \<and> e_value e = v \<and> time < e_expiresAt e \<and>
    (\<forall>w. version = Some w \<longrightarrow> e_version e = w)"
proof -
  let ?c = "fold (cache_step cfg sz) ops c0"
  have inv: "cache_inv cfg ?c" by (rule cache_ops.run_inv) (rule created_inv [OF assms(1)])
  obtain e where e: "map_of (entries ?c) (compose scope key) = Some e" "valid_name scope"
      "e_value e = v" "\<not> e_expiresAt e \<le> time" "version = None \<or> version = Some (e_version e)"
    using assms(2) by (auto simp: lookup_def Let_def split: if_splits option.splits)
  then have mem: "(compose scope key, e) \<in> set (entries ?c)" by (simp add: map_of_SomeD)
  then have "entry_ok (compose scope key, e)" using inv by (auto simp: cache_inv_def cache_ok_def)
  then have "scope = e_scope e \<and> key = e_key e"
    using e(2) by (intro compose_inj) (simp_all add: entry_ok_def)
  with e mem show ?thesis by auto
qed

theorem lookup_hit_sound_witness:
  "\<exists>e. (compose ''public'' ''a'', e) \<in> set (entries (fold (cache_step
       \<lparr>maxEntries = 2, maxBytes = 10, defaultTtlMs = 5, staleGraceMs = 0\<rparr> (\<lambda>v. Some v))
       [Op_set 0 ''a'' 4 sample_options] empty_cache)) \<and> e_value e = 4 \<and> 1 < e_expiresAt e"
proof -
  let ?cfg = "\<lparr>maxEntries = 2, maxBytes = 10, defaultTtlMs = 5, staleGraceMs = 0\<rparr>"
  have c: "createBoundedCache (Fin 2) (Fin 10) (Fin 5) (Fin 0) = Inr (?cfg, empty_cache)"
    by (simp add: createBoundedCache_def positive_def fin_val_def)
  have "fst (lookup ?cfg 1 ''a'' ''public'' None (fold (cache_step ?cfg (\<lambda>v. Some v))
      [Op_set 0 ''a'' 4 sample_options] empty_cache)) = Inr (Hit 4 1 None)"
    by code_simp
  from lookup_hit_sound [OF c this] show ?thesis by auto
qed

text \<open>
  A value that was just stored is found again under the same scope and key at any time
  before it expires: expiry and eviction never drop the newest entry.
\<close>

theorem set_then_get:
  assumes inv: "cache_inv cfg c" and room: "1 \<le> maxEntries cfg"
    and set: "cache_set cfg sz time key v opts c = (Inr True, c')"
    and fresh: "now < time + fin_val (ttl_of cfg opts)"
  shows "fst (cache_get cfg now key (so_scope opts) None c') = Inr (Some v)"
proof -
  let ?k = "compose (so_scope opts) key"
  obtain e s l where v: "valid_name key" "valid_name (so_scope opts)" "of_nat s \<le> maxBytes cfg" "0 < l"
    and l: "l = fin_val (ttl_of cfg opts)"
    and e: "e = \<lparr>e_scope = so_scope opts, e_key = key, e_value = v, e_size = s, e_version = so_version opts,
           e_tags = dedupe (so_tags opts), e_storedAt = time, e_expiresAt = time + l\<rparr>"
    and c': "c' = evictToFit cfg (dropExpired cfg time (stored ?k e (discard ?k c)))"
    using cache_set_cases [OF set] by blast
  let ?s = "stored ?k e (discard ?k c)"
  have ok: "cache_ok ?s" and es: "entries ?s = AList.delete ?k (entries c) @ [(?k, e)]"
    using stored_after_discard [of c key e] inv v e by (simp_all add: cache_inv_def)
  have g: "0 \<le> staleGraceMs cfg" using inv by (simp add: cache_inv_def config_ok_def)
  have "entries (dropExpired cfg time ?s) =
      filter (\<lambda>(_, e). time < e_expiresAt e + staleGraceMs cfg) (AList.delete ?k (entries c)) @ [(?k, e)]"
    using ok es v g e by (subst dropExpired_entries) (simp_all add: cache_ok_def)
  then have "(?k, e) \<in> set (entries c')"
    unfolding c' using v e room by (intro evict_keeps_last [OF dropExpired_ok [OF ok]]) simp_all
  moreover have "distinct (keys (entries c'))"
    using inv_set [OF inv, of sz time key v opts] set by (simp add: cache_inv_def cache_ok_def)
  ultimately have "map_of (entries c') ?k = Some e" by simp
  then show ?thesis
    using v fresh l e by (simp add: cache_get_def lookup_def Let_def)
qed

theorem set_then_get_witness:
  "fst (cache_get \<lparr>maxEntries = 2, maxBytes = 10, defaultTtlMs = 5, staleGraceMs = 0\<rparr> 4 ''a'' ''public'' None
     (snd (cache_set \<lparr>maxEntries = 2, maxBytes = 10, defaultTtlMs = 5, staleGraceMs = 0\<rparr> (\<lambda>v. Some v) 0 ''a'' 4
        sample_options empty_cache))) = Inr (Some (4 :: nat))"
proof -
  let ?cfg = "\<lparr>maxEntries = 2, maxBytes = 10, defaultTtlMs = 5, staleGraceMs = 0\<rparr>"
  have "cache_inv ?cfg empty_cache"
    by (rule created_inv [of "Fin 2" "Fin 10" "Fin 5" "Fin 0"])
       (simp add: createBoundedCache_def positive_def fin_val_def)
  moreover have "fst (cache_set ?cfg (\<lambda>v. Some v) 0 ''a'' 4 sample_options empty_cache) = Inr True"
    by (simp add: cache_set_def sample_options_def valid_name_def SEPARATOR_def ttl_of_def positive_def Let_def)
  then have "cache_set ?cfg (\<lambda>v. Some v) 0 ''a'' 4 sample_options empty_cache =
      (Inr True, snd (cache_set ?cfg (\<lambda>v. Some v) 0 ''a'' 4 sample_options empty_cache))"
    by (metis prod.collapse)
  ultimately show ?thesis
    using set_then_get [of ?cfg empty_cache "\<lambda>v. Some v" 0 "''a''" 4 sample_options _ 4]
    by (simp add: sample_options_def ttl_of_def fin_val_def)
qed

text \<open>
  C23: a load that raced an invalidation never repopulates the cache: if any operation between the
  start and the end of a load announces a change of the data, the loaded value is handed to the
  caller and the entries stay as they are, whatever else happened in between.
\<close>

theorem raced_load_not_cached:
  assumes "getOrLoad_start cfg t key scope version ttl tags r c = (Inr (Started fl), c1)"
    and "op \<in> set ops" "announces_change op"
    and "c2 = fold (cache_step cfg sz) ops c1"
  shows "fst (flight_loaded cfg sz t' v fl c2) = Inr v \<and>
    entries (snd (flight_loaded cfg sz t' v fl c2)) = entries c2"
proof -
  have "epoch c1 < epoch c2"
    unfolding assms(4) by (rule cache_ops.run_clock_strict [OF assms(2)]) (rule announced_epoch [OF assms(3)])
  moreover have "fl_startEpoch fl = epoch c1"
    using assms(1) by (auto simp: getOrLoad_start_def
      split: prod.splits sum.splits lookup_result.splits option.splits)
  ultimately show ?thesis by (simp add: flight_loaded_def)
qed

theorem raced_load_not_cached_witness:
  "\<exists>fl c1. getOrLoad_start \<lparr>maxEntries = 2, maxBytes = 10, defaultTtlMs = 5, staleGraceMs = 0\<rparr> 0 ''a'' ''public''
       None None [] 0 (empty_cache :: (nat, nat) cache) = (Inr (Started fl), c1) \<and>
     entries (snd (flight_loaded \<lparr>maxEntries = 2, maxBytes = 10, defaultTtlMs = 5, staleGraceMs = 0\<rparr>
        (\<lambda>v. Some v) 3 7 fl (cache_step \<lparr>maxEntries = 2, maxBytes = 10, defaultTtlMs = 5, staleGraceMs = 0\<rparr>
        (\<lambda>v. Some v) Op_clear c1))) = []"
proof -
  let ?cfg = "\<lparr>maxEntries = 2, maxBytes = 10, defaultTtlMs = 5, staleGraceMs = 0\<rparr>"
  obtain fl c1 where s: "getOrLoad_start ?cfg 0 ''a'' ''public'' None None [] 0
      (empty_cache :: (nat, nat) cache) = (Inr (Started fl), c1)"
    by (simp add: getOrLoad_start_def lookup_def valid_name_def SEPARATOR_def empty_cache_def Let_def bump_def)
  have "entries (snd (flight_loaded ?cfg (\<lambda>v. Some v) 3 7 fl (cache_step ?cfg (\<lambda>v. Some v) Op_clear c1))) =
      entries (cache_step ?cfg (\<lambda>v. Some v) Op_clear c1)"
    by (rule raced_load_not_cached [OF s, of Op_clear "[Op_clear]", THEN conjunct2]) simp_all
  also have "\<dots> = []" by (simp add: cache_clear_def)
  finally show ?thesis using s by blast
qed

text \<open>
  Invalidating a tag removes exactly the entries that carry it, in every scope, keeps all the
  others in their order, and reports how many it removed.
\<close>

theorem invalidateTag_exact:
  assumes "cache_inv cfg c" "valid_name tag"
  shows "\<exists>c'. invalidateTag tag c = (Inr (length (filter (\<lambda>(_, e). tag \<in> set (e_tags e)) (entries c))), c') \<and>
    entries c' = filter (\<lambda>(_, e). tag \<notin> set (e_tags e)) (entries c)"
proof -
  let ?ks = "tag_keys (tagIndex c) tag"
  have ok: "distinct (keys (entries c))" "distinct ?ks"
    and mem: "k \<in> set ?ks \<longleftrightarrow> (\<exists>e. map_of (entries c) k = Some e \<and> tag \<in> set (e_tags e))" for k
    using assms(1) by (simp_all add: cache_inv_def cache_ok_def wf_index_def)
  have in_iff: "fst p \<in> set ?ks \<longleftrightarrow> tag \<in> set (e_tags (snd p))" if "p \<in> set (entries c)" for p
  proof -
    have "map_of (entries c) (fst p) = Some (snd p)" using that ok(1) by simp
    then show ?thesis by (simp add: mem)
  qed
  let ?f = "filter (\<lambda>(_, e). tag \<in> set (e_tags e)) (entries c)"
  have "set ?ks = set (map fst ?f)" using ok(1) mem by force
  moreover have "distinct (map fst ?f)" using ok(1) by (rule distinct_map_filter)
  ultimately have "length ?ks = length ?f"
    using ok(2) by (metis distinct_card length_map)
  moreover have "entries (snd (remove_all ?ks c)) = filter (\<lambda>(_, e). tag \<notin> set (e_tags e)) (entries c)"
    unfolding entries_remove_all by (rule filter_cong) (auto simp: in_iff)
  ultimately show ?thesis
    using assms(2) by (simp add: invalidateTag_def Let_def case_prod_beta tag_keys_def)
qed

theorem invalidateTag_exact_witness:
  "\<exists>c'. invalidateTag ''t'' (empty_cache :: (nat, nat) cache) = (Inr 0, c')"
proof -
  have "cache_inv \<lparr>maxEntries = 2, maxBytes = 10, defaultTtlMs = 5, staleGraceMs = 0\<rparr>
      (empty_cache :: (nat, nat) cache)"
    by (rule created_inv [of "Fin 2" "Fin 10" "Fin 5" "Fin 0"])
       (simp add: createBoundedCache_def positive_def fin_val_def)
  from invalidateTag_exact [OF this, of "''t''"]
  show ?thesis by (auto simp: valid_name_def SEPARATOR_def empty_cache_def)
qed

text \<open>
  A value past its expiry is only ever served inside the grace period, and only under the
  version the caller asks for.
\<close>

theorem stale_only_in_grace:
  assumes "peekStale cfg time key scope version c = Inr (Some (v, age))"
  shows "\<exists>e. map_of (entries c) (compose scope key) = Some e \<and> v = e_value e \<and>
    e_expiresAt e \<le> time \<and> time < e_expiresAt e + staleGraceMs cfg \<and>
    (version = None \<or> version = Some (e_version e))"
  using assms by (auto simp: peekStale_def split: if_splits option.splits)

definition old_entry :: "(nat, nat) entry" where
  "old_entry = \<lparr>e_scope = ''public'', e_key = ''a'', e_value = 7, e_size = 1, e_version = None,
     e_tags = [], e_storedAt = 0, e_expiresAt = 5\<rparr>"

theorem stale_only_in_grace_witness:
  "peekStale \<lparr>maxEntries = 2, maxBytes = 10, defaultTtlMs = 5, staleGraceMs = 3\<rparr> 6 ''a'' ''public'' None
     (stored (compose ''public'' ''a'') old_entry empty_cache) = Inr (Some (7, 6)) \<and>
   (\<exists>e :: (nat, nat) entry. 7 = e_value e \<and> e_expiresAt e \<le> 6 \<and> 6 < e_expiresAt e + 3)"
proof -
  have "peekStale \<lparr>maxEntries = 2, maxBytes = 10, defaultTtlMs = 5, staleGraceMs = 3\<rparr> 6 ''a'' ''public'' None
     (stored (compose ''public'' ''a'') old_entry empty_cache) = Inr (Some (7, 6))"
    by (simp add: peekStale_def valid_name_def SEPARATOR_def stored_def empty_cache_def old_entry_def)
  from this stale_only_in_grace [OF this] show ?thesis by auto
qed

end
