(* ===== verification/OperationQueue.thy ===== *)
theory OperationQueue
  imports OpSystems "HOL-Library.Product_Lexorder" "HOL-Library.List_Lexorder" "HOL-Library.Char_ord"
begin

text \<open>
  \<open>src/lib/queue/operationQueue.js\<close>: the offline, multi-tab operation queue. The rows of
  \<open>localStorage\<close> under the queue's prefix are the shared \<open>store\<close>; each tab has its identifier,
  its configuration and the snapshot it last read. JSON values (payloads, results) and versions
  are opaque. Listeners, the broadcast channel and the change fingerprint only notify and are
  not modelled; neither is a queue without storage.
\<close>

section \<open>Operations\<close>

datatype op_status = PENDING | IN_FLIGHT | RETRY_SCHEDULED | CONFLICT | FAILED | DISCARDED | APPLIED

definition TERMINAL_OPERATION_STATUSES :: "op_status list" where
  "TERMINAL_OPERATION_STATUSES = [APPLIED, FAILED, DISCARDED]"

definition OPEN_OPERATION_STATUSES :: "op_status list" where
  "OPEN_OPERATION_STATUSES = [PENDING, IN_FLIGHT, RETRY_SCHEDULED, CONFLICT]"

record queue_config =
  cfg_maxAttempts :: int
  cfg_initialBackoffMs :: rat
  cfg_maxBackoffMs :: rat
  cfg_backoffMultiplier :: rat
  cfg_jitterFraction :: rat
  cfg_leaseTtlMs :: int
  cfg_maxTrackedOperations :: nat
  cfg_retentionTerminalLimit :: nat

definition DEFAULT_QUEUE_CONFIG :: queue_config where
  "DEFAULT_QUEUE_CONFIG = \<lparr>cfg_maxAttempts = 5, cfg_initialBackoffMs = 1000, cfg_maxBackoffMs = 60000,
     cfg_backoffMultiplier = 2, cfg_jitterFraction = 1 / 5, cfg_leaseTtlMs = 30000,
     cfg_maxTrackedOperations = 200, cfg_retentionTerminalLimit = 20\<rparr>"

datatype error_class = Conflict_class | Terminal_class | Retryable_class | Other_class

text \<open>
  A thrown value: its class among the queue's own errors, and the properties that are read
  (\<open>f_text\<close> is what \<open>String(error)\<close> gives). What a conflict carries: the versions, or whatever
  the handler reported.
\<close>

datatype ('j, 'v) conflict_info =
    Stale_state string "'v option" "'v option"
  | Reported_conflict 'j

record ('j, 'v) failure =
  f_class :: error_class
  f_name :: "string option"
  f_message :: "string option"
  f_text :: string
  f_code :: "string option"
  f_retryable :: "bool option"
  f_dependency :: "string option"
  f_conflict :: "('j, 'v) conflict_info option"

record described_error =
  e_name :: string
  e_message :: string
  e_code :: "string option"
  e_retryable :: "bool option"
  e_dependency :: "string option"

definition non_empty :: "string option \<Rightarrow> string option" where
  "non_empty s = (if truthy s then s else None)"

definition describeError :: "('j, 'v) failure option \<Rightarrow> described_error option" where
  "describeError err = map_option (\<lambda>f. \<lparr>e_name = or_default (f_name f) ''Error'',
     e_message = take 500 (or_default (f_message f) (f_text f)), e_code = non_empty (f_code f),
     e_retryable = f_retryable f, e_dependency = non_empty (f_dependency f)\<rparr>) err"

record lease =
  owner :: string
  expiresAt :: int

record ('j, 'v) operation =
  op_id :: string
  op_type :: string
  payload :: 'j
  meta :: "'j option"
  dedupeKey :: "string option"
  status :: op_status
  attempts :: int
  op_maxAttempts :: int
  baseVersion :: "'v option"
  nextAttemptAt :: int
  lease_of :: "lease option"
  lastError :: "described_error option"
  conflict :: "('j, 'v) conflict_info option"
  result :: "'j option"
  enqueuedAt :: int
  updatedAt :: int
  completedAt :: "int option"
  discardedAt :: "int option"
  discardReason :: "string option"

text \<open>A parsed row: \<open>None\<close> is a field that is absent or of another type.\<close>

record ('j, 'v) raw_operation =
  r_id :: "string option"
  r_type :: "string option"
  r_payload :: "'j option"
  r_meta :: "'j option"
  r_dedupeKey :: "string option"
  r_status :: "op_status option"
  r_attempts :: "int option"
  r_maxAttempts :: "int option"
  r_baseVersion :: "'v option"
  r_nextAttemptAt :: "int option"
  r_lease :: "lease option"
  r_lastError :: "described_error option"
  r_conflict :: "('j, 'v) conflict_info option"
  r_result :: "'j option"
  r_enqueuedAt :: "int option"
  r_updatedAt :: "int option"
  r_completedAt :: "int option"
  r_discardedAt :: "int option"
  r_discardReason :: "string option"

datatype ('j, 'v) row = Corrupt | Row "('j, 'v) raw_operation"

type_synonym ('j, 'v) store = "(string \<times> ('j, 'v) row) list"

definition or_int :: "int option \<Rightarrow> int \<Rightarrow> int" where
  "or_int x d = (case x of Some n \<Rightarrow> n | None \<Rightarrow> d)"

text \<open>\<open>obj0\<close> is the empty object \<open>{}\<close>.\<close>

definition normalizeStoredOperation ::
  "'j \<Rightarrow> ('j, 'v) raw_operation \<Rightarrow> ('j, 'v) operation option" where
  "normalizeStoredOperation obj0 raw =
     (case (r_id raw, r_type raw, r_status raw) of
        (Some i, Some ty, Some st) \<Rightarrow>
          if \<not> st \<in> set OPEN_OPERATION_STATUSES \<and> \<not> st \<in> set TERMINAL_OPERATION_STATUSES then None
          else Some \<lparr>op_id = i, op_type = ty,
            payload = (case r_payload raw of Some p \<Rightarrow> p | None \<Rightarrow> obj0),
            meta = r_meta raw, dedupeKey = r_dedupeKey raw, status = st,
            attempts = or_int (r_attempts raw) 0,
            op_maxAttempts = (case r_maxAttempts raw of
               Some n \<Rightarrow> if 0 < n then n else cfg_maxAttempts DEFAULT_QUEUE_CONFIG
             | None \<Rightarrow> cfg_maxAttempts DEFAULT_QUEUE_CONFIG),
            baseVersion = r_baseVersion raw, nextAttemptAt = or_int (r_nextAttemptAt raw) 0,
            lease_of = r_lease raw, lastError = r_lastError raw, conflict = r_conflict raw,
            result = r_result raw, enqueuedAt = or_int (r_enqueuedAt raw) 0,
            updatedAt = or_int (r_updatedAt raw) 0, completedAt = r_completedAt raw,
            discardedAt = r_discardedAt raw, discardReason = r_discardReason raw\<rparr>
      | _ \<Rightarrow> None)"

definition raw_of :: "('j, 'v) operation \<Rightarrow> ('j, 'v) raw_operation" where
  "raw_of p = \<lparr>r_id = Some (op_id p), r_type = Some (op_type p), r_payload = Some (payload p),
     r_meta = meta p, r_dedupeKey = dedupeKey p, r_status = Some (status p),
     r_attempts = Some (attempts p), r_maxAttempts = Some (op_maxAttempts p),
     r_baseVersion = baseVersion p, r_nextAttemptAt = Some (nextAttemptAt p),
     r_lease = lease_of p, r_lastError = lastError p, r_conflict = conflict p,
     r_result = result p, r_enqueuedAt = Some (enqueuedAt p), r_updatedAt = Some (updatedAt p),
     r_completedAt = completedAt p, r_discardedAt = discardedAt p, r_discardReason = discardReason p\<rparr>"

section \<open>Backoff and classification\<close>

definition computeBackoffMs :: "int \<Rightarrow> queue_config \<Rightarrow> rat \<Rightarrow> int" where
  "computeBackoffMs n cfg random =
     (let safeAttempts = max 1 (if n = 0 then 1 else n);
          exponential = cfg_initialBackoffMs cfg * cfg_backoffMultiplier cfg ^ nat (safeAttempts - 1);
          capped = min exponential (cfg_maxBackoffMs cfg);
          jitter = capped * cfg_jitterFraction cfg * random
      in js_round (capped + jitter))"

datatype failure_kind = Kind_conflict | Kind_terminal | Kind_retryable

definition classifyOperationFailure :: "('j, 'v) failure option \<Rightarrow> failure_kind" where
  "classifyOperationFailure err =
     (case err of
        None \<Rightarrow> Kind_retryable
      | Some f \<Rightarrow>
          if f_class f = Conflict_class then Kind_conflict
          else if f_conflict f \<noteq> None then Kind_conflict
          else if f_class f = Terminal_class then Kind_terminal
          else if f_class f = Retryable_class then Kind_retryable
          else if f_retryable f = Some False then Kind_terminal
          else Kind_retryable)"

definition isTerminalStatus :: "op_status \<Rightarrow> bool" where
  "isTerminalStatus s \<longleftrightarrow> s \<in> set TERMINAL_OPERATION_STATUSES"

section \<open>Reading and writing the store\<close>

text \<open>
  What a tab is: \<open>canSet store\<close> says whether \<open>setItem\<close> succeeds on the store (quota, private
  mode), \<open>emptyObj\<close> is \<open>{}\<close>.
\<close>

record ('j, 'v) tab =
  tabId :: string
  cfg :: queue_config
  canSet :: "('j, 'v) store \<Rightarrow> bool"
  emptyObj :: 'j

definition readAllOperations :: "'j \<Rightarrow> ('j, 'v) store \<Rightarrow> ('j, 'v) operation list" where
  "readAllOperations obj0 s =
     sort_key (\<lambda>p. (enqueuedAt p, op_id p))
       (List.map_filter (\<lambda>(_, r). case r of Corrupt \<Rightarrow> None | Row raw \<Rightarrow> normalizeStoredOperation obj0 raw) s)"

datatype queue_error =
    Invalid_operation
  | Queue_capacity_exceeded
  | Queue_storage_unavailable
  | Unknown_conflict_resolution

definition persist :: "('j, 'v) tab \<Rightarrow> ('j, 'v) operation \<Rightarrow> ('j, 'v) store \<Rightarrow> queue_error + ('j, 'v) store" where
  "persist tab p s =
     (if canSet tab s then Inr (AList.update (op_id p) (Row (raw_of p)) s) else Inl Queue_storage_unavailable)"

definition removePersisted :: "string \<Rightarrow> ('j, 'v) store \<Rightarrow> ('j, 'v) store" where
  "removePersisted i s = AList.delete i s"

definition get_op :: "('j, 'v) tab \<Rightarrow> string \<Rightarrow> ('j, 'v) store \<Rightarrow> ('j, 'v) operation option" where
  "get_op tab i s = find (\<lambda>p. op_id p = i) (readAllOperations (emptyObj tab) s)"

definition isLeaseExpired :: "('j, 'v) tab \<Rightarrow> ('j, 'v) operation \<Rightarrow> int \<Rightarrow> bool" where
  "isLeaseExpired tab p now =
     (case lease_of p of
        None \<Rightarrow> True
      | Some l \<Rightarrow> if owner l = tabId tab then True else \<not> now < expiresAt l)"

definition isReady :: "('j, 'v) tab \<Rightarrow> ('j, 'v) operation \<Rightarrow> int \<Rightarrow> bool" where
  "isReady tab p now =
     (if status p = PENDING \<or> status p = RETRY_SCHEDULED
      then nextAttemptAt p \<le> now \<and> isLeaseExpired tab p now
      else if status p = IN_FLIGHT
      then (case lease_of p of None \<Rightarrow> False | Some l \<Rightarrow> owner l \<noteq> tabId tab \<and> \<not> now < expiresAt l)
      else False)"

text \<open>The time that orders terminal work for retention, most recent first.\<close>

definition finished_at :: "('j, 'v) operation \<Rightarrow> int" where
  "finished_at p =
     (case completedAt p of
        Some t \<Rightarrow> if t \<noteq> 0 then t else (case discardedAt p of Some d \<Rightarrow> if d \<noteq> 0 then d else updatedAt p | None \<Rightarrow> updatedAt p)
      | None \<Rightarrow> (case discardedAt p of Some d \<Rightarrow> if d \<noteq> 0 then d else updatedAt p | None \<Rightarrow> updatedAt p))"

definition enforceRetention :: "('j, 'v) tab \<Rightarrow> ('j, 'v) operation list \<Rightarrow> ('j, 'v) store \<Rightarrow> ('j, 'v) store" where
  "enforceRetention tab ops s =
     (let terminal = sort_key (\<lambda>p. - finished_at p) (filter (\<lambda>p. isTerminalStatus (status p)) ops);
          kept = map op_id (take (cfg_retentionTerminalLimit (cfg tab)) terminal)
      in fold (\<lambda>p. if op_id p \<in> set kept then id else removePersisted (op_id p)) terminal s)"

section \<open>The queue's operations\<close>

definition open_ops :: "('j, 'v) operation list \<Rightarrow> string option \<Rightarrow> ('j, 'v) operation list" where
  "open_ops snapshot k =
     filter (\<lambda>p. \<not> isTerminalStatus (status p) \<and> (truthy k \<longrightarrow> dedupeKey p = k)) snapshot"

text \<open>
  \<open>snapshot\<close> is what this tab last read of the store, \<open>newId\<close> the value of the id factory,
  \<open>maxAtt\<close> is \<open>None\<close> for a value that is not a safe integer.
\<close>

definition enqueue ::
  "('j, 'v) tab \<Rightarrow> ('j, 'v) operation list \<Rightarrow> string \<Rightarrow> string \<Rightarrow> 'j \<Rightarrow> 'j option \<Rightarrow> string option \<Rightarrow>
   'v option \<Rightarrow> int option \<Rightarrow> int \<Rightarrow> ('j, 'v) store \<Rightarrow> (queue_error + ('j, 'v) operation) \<times> ('j, 'v) store" where
  "enqueue tab snapshot newId type pl mt dk bv maxAtt now s =
     (if js_trim type = [] then (Inl Invalid_operation, s)
      else if truthy dk \<and> open_ops snapshot dk \<noteq> [] then (Inr (hd (open_ops snapshot dk)), s)
      else let s1 = enforceRetention tab (readAllOperations (emptyObj tab) s) s;
               operations = readAllOperations (emptyObj tab) s1 in
        if cfg_maxTrackedOperations (cfg tab) \<le> length operations then (Inl Queue_capacity_exceeded, s1)
        else let p = \<lparr>op_id = newId, op_type = js_trim type, payload = pl, meta = mt,
               dedupeKey = (if truthy dk then dk else None), status = PENDING, attempts = 0,
               op_maxAttempts = (case maxAtt of
                  Some n \<Rightarrow> if 0 < n then n else cfg_maxAttempts (cfg tab) | None \<Rightarrow> cfg_maxAttempts (cfg tab)),
               baseVersion = bv, nextAttemptAt = now, lease_of = None, lastError = None, conflict = None,
               result = None, enqueuedAt = now, updatedAt = now, completedAt = None, discardedAt = None,
               discardReason = None\<rparr>
             in case persist tab p s1 of Inl e \<Rightarrow> (Inl e, s1) | Inr s2 \<Rightarrow> (Inr p, s2))"

text \<open>Store the changed operation; a failing write leaves the store as it is.\<close>

definition commit ::
  "('j, 'v) tab \<Rightarrow> ('j, 'v) operation \<Rightarrow> ('j, 'v) store \<Rightarrow>
   (queue_error + ('j, 'v) operation option) \<times> ('j, 'v) store" where
  "commit tab p s = (case persist tab p s of Inl e \<Rightarrow> (Inl e, s) | Inr s' \<Rightarrow> (Inr (Some p), s'))"

text \<open>
  A claim reads the store and then writes it, and another tab may write in between: \<open>others\<close> is what
  the other tabs do to the store between the two.
\<close>

definition claim_read :: "('j, 'v) tab \<Rightarrow> string \<Rightarrow> int \<Rightarrow> ('j, 'v) store \<Rightarrow> ('j, 'v) operation option" where
  "claim_read tab i now s =
     (case get_op tab i s of
        None \<Rightarrow> None
      | Some p \<Rightarrow>
          if \<not> isReady tab p now then None
          else Some (p\<lparr>status := IN_FLIGHT,
                 lease_of := Some \<lparr>owner = tabId tab, expiresAt = now + cfg_leaseTtlMs (cfg tab)\<rparr>,
                 updatedAt := now\<rparr>))"

definition claim ::
  "('j, 'v) tab \<Rightarrow> string \<Rightarrow> int \<Rightarrow> (('j, 'v) store \<Rightarrow> ('j, 'v) store) \<Rightarrow> ('j, 'v) store \<Rightarrow>
   (queue_error + ('j, 'v) operation option) \<times> ('j, 'v) store" where
  "claim tab i now others s =
     (case claim_read tab i now s of
        None \<Rightarrow> (Inr None, s)
      | Some claimed \<Rightarrow> commit tab claimed (others s))"

definition markApplied ::
  "('j, 'v) tab \<Rightarrow> string \<Rightarrow> 'j option \<Rightarrow> int \<Rightarrow> ('j, 'v) store \<Rightarrow>
   (queue_error + ('j, 'v) operation option) \<times> ('j, 'v) store" where
  "markApplied tab i r now s =
     (case get_op tab i s of
        None \<Rightarrow> (Inr None, s)
      | Some p \<Rightarrow>
          commit tab (p\<lparr>status := APPLIED, result := r, lease_of := None, lastError := None,
                 updatedAt := now, completedAt := Some now\<rparr>) s)"

definition failed_op ::
  "('j, 'v) tab \<Rightarrow> ('j, 'v) failure option \<Rightarrow> int \<Rightarrow> rat \<Rightarrow> ('j, 'v) operation \<Rightarrow> ('j, 'v) operation" where
  "failed_op tab err now random p =
     (let kind = classifyOperationFailure err;
          n = attempts p + 1;
          base = p\<lparr>lease_of := None, attempts := n, updatedAt := now, lastError := describeError err\<rparr> in
      if kind = Kind_conflict
      then base\<lparr>status := CONFLICT,
             conflict := Some (case err of
                 Some f \<Rightarrow> (case f_conflict f of
                     Some c \<Rightarrow> c
                   | None \<Rightarrow> Stale_state (or_default (f_message f) ''Conflict reported by handler.'') None None)
               | None \<Rightarrow> Stale_state ''Conflict reported by handler.'' None None),
             nextAttemptAt := now\<rparr>
      else if kind = Kind_terminal \<or> op_maxAttempts p \<le> n
      then base\<lparr>status := FAILED, completedAt := Some now, nextAttemptAt := now\<rparr>
      else base\<lparr>status := RETRY_SCHEDULED, nextAttemptAt := now + computeBackoffMs n (cfg tab) random\<rparr>)"

definition markFailed ::
  "('j, 'v) tab \<Rightarrow> string \<Rightarrow> ('j, 'v) failure option \<Rightarrow> int \<Rightarrow> rat \<Rightarrow> ('j, 'v) store \<Rightarrow>
   (queue_error + ('j, 'v) operation option) \<times> ('j, 'v) store" where
  "markFailed tab i err now random s =
     (case get_op tab i s of
        None \<Rightarrow> (Inr None, s)
      | Some p \<Rightarrow> commit tab (failed_op tab err now random p) s)"

datatype 'v resolution = Retry "'v option option" | Discard | Unknown_resolution string

definition resolveConflict ::
  "('j, 'v) tab \<Rightarrow> string \<Rightarrow> 'v resolution \<Rightarrow> int \<Rightarrow> ('j, 'v) store \<Rightarrow>
   (queue_error + ('j, 'v) operation option) \<times> ('j, 'v) store" where
  "resolveConflict tab i res now s =
     (case res of
        Unknown_resolution _ \<Rightarrow> (Inl Unknown_conflict_resolution, s)
      | _ \<Rightarrow>
          (case get_op tab i s of
             None \<Rightarrow> (Inr None, s)
           | Some p \<Rightarrow>
               if status p \<noteq> CONFLICT then (Inr None, s)
               else commit tab (case res of
                      Retry bv \<Rightarrow> p\<lparr>status := PENDING,
                        baseVersion := (case bv of None \<Rightarrow> baseVersion p | Some v \<Rightarrow> v),
                        conflict := None, nextAttemptAt := now, updatedAt := now\<rparr>
                    | _ \<Rightarrow> p\<lparr>status := DISCARDED, lease_of := None,
                        discardReason := Some ''conflict_discarded_by_user'',
                        discardedAt := Some now, updatedAt := now\<rparr>) s))"

definition clearCompleted :: "('j, 'v) operation list \<Rightarrow> ('j, 'v) store \<Rightarrow> nat \<times> ('j, 'v) store" where
  "clearCompleted snapshot s =
     (let ops = filter (\<lambda>p. isTerminalStatus (status p)) snapshot
      in (length ops, fold (\<lambda>p. removePersisted (op_id p)) ops s))"

definition reset :: "('j, 'v) store \<Rightarrow> ('j, 'v) store" where
  "reset s = fold removePersisted (keys s) s"

definition nextReady ::
  "('j, 'v) tab \<Rightarrow> int \<Rightarrow> ('j, 'v) operation list \<Rightarrow> ('j, 'v) operation option" where
  "nextReady tab now snapshot = find (\<lambda>p. isReady tab p now) snapshot"

record counts =
  c_total :: nat
  c_open :: nat
  c_pending :: nat
  c_inFlight :: nat
  c_retryScheduled :: nat
  c_conflicts :: nat
  c_failed :: nat
  c_applied :: nat
  c_discarded :: nat

definition count_status :: "op_status \<Rightarrow> ('j, 'v) operation list \<Rightarrow> nat" where
  "count_status st ops = length (filter (\<lambda>p. status p = st) ops)"

definition counts_of :: "('j, 'v) operation list \<Rightarrow> counts" where
  "counts_of ops = \<lparr>c_total = length ops,
     c_open = length (filter (\<lambda>p. \<not> isTerminalStatus (status p)) ops),
     c_pending = count_status PENDING ops, c_inFlight = count_status IN_FLIGHT ops,
     c_retryScheduled = count_status RETRY_SCHEDULED ops, c_conflicts = count_status CONFLICT ops,
     c_failed = count_status FAILED ops, c_applied = count_status APPLIED ops,
     c_discarded = count_status DISCARDED ops\<rparr>"


section \<open>Draining\<close>

text \<open>
  During an \<open>await\<close> any tab may write the store and time passes, so the handler and the version
  provider are functions of the world (the store and the clock) that return the next one.
  \<open>random()\<close> and \<open>online()\<close> are read off the world as well; \<open>others_of\<close> is what other tabs write
  between the two steps of a claim.
\<close>

type_synonym ('j, 'v) world = "('j, 'v) store \<times> int"

record ('j, 'v) drain_env =
  handler :: "('j, 'v) operation \<Rightarrow> ('j, 'v) world \<Rightarrow> (('j, 'v) failure option + 'j option) \<times> ('j, 'v) world"
  versionProvider :: "(('j, 'v) operation \<Rightarrow> ('j, 'v) world \<Rightarrow> (('j, 'v) failure option + 'v option) \<times> ('j, 'v) world) option"
  online :: "('j, 'v) world \<Rightarrow> bool"
  rand_of :: "('j, 'v) world \<Rightarrow> rat"
  others_of :: "('j, 'v) world \<Rightarrow> ('j, 'v) store \<Rightarrow> ('j, 'v) store"

record summary =
  s_online :: bool
  s_processed :: nat
  s_applied :: nat
  s_retried :: nat
  s_conflicts :: nat
  s_failed :: nat
  s_skipped :: nat

definition retryable_error :: "('j, 'v) failure" where
  "retryable_error = \<lparr>f_class = Retryable_class, f_name = Some ''OperationRetryableError'',
     f_message = Some ''Could not verify state freshness'', f_text = ''Could not verify state freshness'',
     f_code = Some ''version_probe_failed'', f_retryable = Some True, f_dependency = None, f_conflict = None\<rparr>"

definition stale_error :: "'v option \<Rightarrow> 'v option \<Rightarrow> ('j, 'v) failure" where
  "stale_error expected actual =
     (let text = ''This item changed in another tab or session since you queued the change.'' in
      \<lparr>f_class = Conflict_class, f_name = Some ''OperationConflictError'', f_message = Some text, f_text = text,
       f_code = Some ''operation_conflict'', f_retryable = Some False, f_dependency = None,
       f_conflict = Some (Stale_state text expected actual)\<rparr>)"

definition storage_error :: "('j, 'v) failure" where
  "storage_error =
     (let text = ''Operation queue storage is unavailable (quota or private mode).'' in
      \<lparr>f_class = Other_class, f_name = Some ''OperationError'', f_message = Some text, f_text = text,
       f_code = Some ''queue_storage_unavailable'', f_retryable = Some False,
       f_dependency = Some ''local-storage'', f_conflict = None\<rparr>)"

text \<open>\<open>markFailed\<close> as the drain calls it: an error of the store ends the drain.\<close>

definition fail_and ::
  "('j, 'v) tab \<Rightarrow> ('j, 'v) drain_env \<Rightarrow> string \<Rightarrow> ('j, 'v) failure option \<Rightarrow> ('j, 'v) world \<Rightarrow>
   (('j, 'v) operation option \<Rightarrow> summary) \<Rightarrow> (queue_error + summary) \<times> ('j, 'v) world" where
  "fail_and tab env i err w count =
     (case markFailed tab i err (snd w) (rand_of env w) (fst w) of
        (Inl e, s) \<Rightarrow> (Inl e, (s, snd w))
      | (Inr updated, s) \<Rightarrow> (Inr (count updated), (s, snd w)))"

definition count_failure :: "summary \<Rightarrow> ('j, 'v) operation option \<Rightarrow> summary" where
  "count_failure m updated =
     (case map_option status updated of
        Some CONFLICT \<Rightarrow> m\<lparr>s_conflicts := s_conflicts m + 1\<rparr>
      | Some FAILED \<Rightarrow> m\<lparr>s_failed := s_failed m + 1\<rparr>
      | _ \<Rightarrow> m\<lparr>s_retried := s_retried m + 1\<rparr>)"

text \<open>Claim the operation, run the handler, record the outcome.\<close>

definition execute_op ::
  "('j, 'v) tab \<Rightarrow> ('j, 'v) drain_env \<Rightarrow> string \<Rightarrow> summary \<Rightarrow> ('j, 'v) world \<Rightarrow>
   (queue_error + summary) \<times> ('j, 'v) world" where
  "execute_op tab env i m w =
     (case claim tab i (snd w) (others_of env w) (fst w) of
        (Inl e, s) \<Rightarrow> (Inl e, (s, snd w))
      | (Inr None, s) \<Rightarrow> (Inr (m\<lparr>s_skipped := s_skipped m + 1\<rparr>), (s, snd w))
      | (Inr (Some claimed), s) \<Rightarrow>
          let m1 = m\<lparr>s_processed := s_processed m + 1\<rparr> in
          (case handler env claimed (s, snd w) of
             (Inr r, w') \<Rightarrow>
               (case markApplied tab i r (snd w') (fst w') of
                  (Inr _, s') \<Rightarrow> (Inr (m1\<lparr>s_applied := s_applied m1 + 1\<rparr>), (s', snd w'))
                | (Inl _, s') \<Rightarrow> fail_and tab env i (Some storage_error) (s', snd w') (count_failure m1))
           | (Inl err, w') \<Rightarrow> fail_and tab env i err w' (count_failure m1)))"

definition drain_one ::
  "('j, 'v) tab \<Rightarrow> ('j, 'v) drain_env \<Rightarrow> string \<Rightarrow> summary \<Rightarrow> ('j, 'v) world \<Rightarrow>
   (queue_error + summary) \<times> ('j, 'v) world" where
  "drain_one tab env i m w =
     (case get_op tab i (fst w) of
        None \<Rightarrow> (Inr (m\<lparr>s_skipped := s_skipped m + 1\<rparr>), w)
      | Some current \<Rightarrow>
          if \<not> isReady tab current (snd w) then (Inr (m\<lparr>s_skipped := s_skipped m + 1\<rparr>), w)
          else (case (versionProvider env, baseVersion current) of
             (Some provider, Some expected) \<Rightarrow>
               (case provider current w of
                  (Inl _, w') \<Rightarrow> fail_and tab env i (Some retryable_error) w' (\<lambda>_. m\<lparr>s_retried := s_retried m + 1\<rparr>)
                | (Inr observed, w') \<Rightarrow>
                    if observed \<noteq> Some expected
                    then fail_and tab env i (Some (stale_error (Some expected) observed)) w'
                           (\<lambda>_. m\<lparr>s_conflicts := s_conflicts m + 1\<rparr>)
                    else execute_op tab env i m w')
           | _ \<Rightarrow> execute_op tab env i m w))"

fun drain_loop ::
  "('j, 'v) tab \<Rightarrow> ('j, 'v) drain_env \<Rightarrow> string list \<Rightarrow> summary \<Rightarrow> ('j, 'v) world \<Rightarrow>
   (queue_error + summary) \<times> ('j, 'v) world" where
  "drain_loop tab env [] m w = (Inr m, w)"
| "drain_loop tab env (i # ids) m w =
     (if \<not> online env w then (Inr (m\<lparr>s_online := False\<rparr>), w)
      else case drain_one tab env i m w of
             (Inl e, w') \<Rightarrow> (Inl e, w')
           | (Inr m', w') \<Rightarrow> drain_loop tab env ids m' w')"

definition drain ::
  "('j, 'v) tab \<Rightarrow> ('j, 'v) drain_env \<Rightarrow> ('j, 'v) operation list \<Rightarrow> ('j, 'v) world \<Rightarrow>
   (queue_error + summary) \<times> ('j, 'v) world" where
  "drain tab env snapshot w =
     (let m = \<lparr>s_online = True, s_processed = 0, s_applied = 0, s_retried = 0, s_conflicts = 0,
               s_failed = 0, s_skipped = 0\<rparr> in
      if \<not> online env w then (Inr (m\<lparr>s_online := False\<rparr>), w)
      else drain_loop tab env (map op_id (filter (\<lambda>p. isReady tab p (snd w)) snapshot)) m w)"


section \<open>The invariant of the store\<close>

definition op_of :: "'j \<Rightarrow> ('j, 'v) row \<Rightarrow> ('j, 'v) operation option" where
  "op_of e r = (case r of Corrupt \<Rightarrow> None | Row raw \<Rightarrow> normalizeStoredOperation e raw)"

text \<open>
  Work in flight carries a lease, everything else none; a retry is only scheduled while attempts
  are left; terminal work knows when it ended.
\<close>

definition op_ok :: "('j, 'v) operation \<Rightarrow> bool" where
  "op_ok p \<longleftrightarrow> 0 < op_maxAttempts p \<and> 0 \<le> attempts p \<and>
     (lease_of p \<noteq> None \<longleftrightarrow> status p = IN_FLIGHT) \<and>
     (status p = RETRY_SCHEDULED \<longrightarrow> 0 < attempts p \<and> attempts p < op_maxAttempts p) \<and>
     (status p \<in> {APPLIED, FAILED} \<longrightarrow> completedAt p \<noteq> None) \<and>
     (status p = DISCARDED \<longrightarrow> discardedAt p \<noteq> None)"

definition store_ok :: "'j \<Rightarrow> ('j, 'v) store \<Rightarrow> bool" where
  "store_ok e s \<longleftrightarrow> distinct (keys s) \<and>
     (\<forall>k r p. map_of s k = Some r \<longrightarrow> op_of e r = Some p \<longrightarrow> op_id p = k \<and> op_ok p)"

text \<open>What is written is read back.\<close>

lemma normalize_raw_of [simp]:
  "0 < op_maxAttempts p \<Longrightarrow> normalizeStoredOperation e (raw_of p) = Some p"
  by (cases "status p")
     (auto simp: normalizeStoredOperation_def raw_of_def or_int_def
        OPEN_OPERATION_STATUSES_def TERMINAL_OPERATION_STATUSES_def)

lemma op_of_raw [simp]: "0 < op_maxAttempts p \<Longrightarrow> op_of e (Row (raw_of p)) = Some p"
  by (simp add: op_of_def)

lemma readAll_alt:
  "readAllOperations e s = sort_key (\<lambda>p. (enqueuedAt p, op_id p)) (List.map_filter (\<lambda>(k, r). op_of e r) s)"
  by (simp add: readAllOperations_def op_of_def)

lemma set_map_filter_op: "set (List.map_filter f xs) = {y. \<exists>x \<in> set xs. f x = Some y}"
  by (induction xs) (auto simp: List.map_filter_def)

lemma set_readAll: "set (readAllOperations e s) = {p. \<exists>k r. (k, r) \<in> set s \<and> op_of e r = Some p}"
  by (force simp: readAll_alt set_map_filter_op)

lemma find_unique:
  "(\<forall>x \<in> set xs. P x \<longrightarrow> x = y) \<Longrightarrow> y \<in> set xs \<Longrightarrow> P y \<Longrightarrow> find P xs = Some y"
proof (induction xs)
  case Nil
  then show ?case by simp
next
  case (Cons a xs)
  show ?case
  proof (cases "P a")
    case True
    then have "a = y" using Cons.prems(1) by (meson list.set_intros(1))
    with True show ?thesis by simp
  next
    case False
    with Cons show ?thesis by (metis find.simps(2) list.set_intros(2) set_ConsD)
  qed
qed

lemma get_op_store:
  assumes "store_ok (emptyObj tab) s"
  shows "get_op tab i s = Option.bind (map_of s i) (op_of (emptyObj tab))"
proof (cases "Option.bind (map_of s i) (op_of (emptyObj tab))")
  case None
  have "find (\<lambda>p. op_id p = i) (readAllOperations (emptyObj tab) s) = None"
  proof (rule find_None_iff [THEN iffD2], rule notI, elim exE conjE)
    fix q assume "q \<in> set (readAllOperations (emptyObj tab) s)" "op_id q = i"
    then obtain k r where "(k, r) \<in> set s" "op_of (emptyObj tab) r = Some q" by (auto simp: set_readAll)
    with assms \<open>op_id q = i\<close> None show False by (auto simp: store_ok_def)
  qed
  with None show ?thesis by (simp add: get_op_def)
next
  case (Some p)
  then obtain r where r: "map_of s i = Some r" "op_of (emptyObj tab) r = Some p"
    by (auto simp: Option.bind_eq_Some_conv)
  have "find (\<lambda>q. op_id q = i) (readAllOperations (emptyObj tab) s) = Some p"
  proof (rule find_unique, intro ballI impI)
    fix q assume "q \<in> set (readAllOperations (emptyObj tab) s)" "op_id q = i"
    then obtain k r' where "(k, r') \<in> set s" "op_of (emptyObj tab) r' = Some q" by (auto simp: set_readAll)
    then have k: "map_of s k = Some r'" "k = op_id q" using assms by (auto simp: store_ok_def)
    with \<open>op_id q = i\<close> r have "r' = r" by simp
    with \<open>op_of (emptyObj tab) r' = Some q\<close> r show "q = p" by simp
  next
    show "p \<in> set (readAllOperations (emptyObj tab) s)" using r by (auto simp: set_readAll dest: map_of_mem)
    show "op_id p = i" using assms r by (simp add: store_ok_def)
  qed
  with Some show ?thesis by (simp add: get_op_def)
qed

lemma get_op_ok: "store_ok (emptyObj tab) s \<Longrightarrow> get_op tab i s = Some p \<Longrightarrow> op_id p = i \<and> op_ok p"
  by (auto simp: get_op_store store_ok_def Option.bind_eq_Some_conv)

lemma store_ok_update:
  assumes "store_ok e s" "op_ok p"
  shows "store_ok e (AList.update (op_id p) (Row (raw_of p)) s)"
  using assms by (auto simp: store_ok_def update_conv' op_ok_def split: if_splits)

lemma store_ok_delete: "store_ok e s \<Longrightarrow> store_ok e (AList.delete k s)"
  by (auto simp: store_ok_def delete_conv' restrict_map_def split: if_splits)

lemma store_ok_removes: "store_ok e s \<Longrightarrow> store_ok e (fold (\<lambda>p. removePersisted (f p)) ops s)"
  by (induction ops arbitrary: s) (auto simp: removePersisted_def store_ok_delete)

lemma store_ok_retention: "store_ok e s \<Longrightarrow> store_ok e (enforceRetention tab ops s)"
proof -
  have "store_ok e (fold (\<lambda>p. if P p then id else removePersisted (op_id p)) xs s)" if "store_ok e s" for P xs
    using that by (induction xs arbitrary: s) (auto simp: removePersisted_def store_ok_delete)
  then show "store_ok e s \<Longrightarrow> ?thesis" by (simp add: enforceRetention_def Let_def)
qed

lemma get_op_update:
  assumes "store_ok (emptyObj tab) s" "op_ok p"
  shows "get_op tab i (AList.update (op_id p) (Row (raw_of p)) s) = (if i = op_id p then Some p else get_op tab i s)"
  using assms by (simp add: get_op_store store_ok_update update_conv' op_ok_def)

lemma commit_cases:
  "commit tab p s = (if canSet tab s then (Inr (Some p), AList.update (op_id p) (Row (raw_of p)) s)
     else (Inl Queue_storage_unavailable, s))"
  by (simp add: commit_def persist_def)

lemma store_ok_commit: "store_ok e s \<Longrightarrow> op_ok p \<Longrightarrow> store_ok e (snd (commit tab p s))"
  by (simp add: commit_cases store_ok_update)

section \<open>Every operation keeps the invariant\<close>

lemma op_ok_failed: "op_ok p \<Longrightarrow> op_ok (failed_op tab err now random p)"
  by (auto simp: op_ok_def failed_op_def Let_def)

lemma op_id_failed [simp]: "op_id (failed_op tab err now random p) = op_id p"
  by (simp add: failed_op_def Let_def)

text \<open>New work is fine even under a configuration without attempts: the reader repairs the field.\<close>

lemma store_ok_pending:
  assumes "store_ok e s" "status p = PENDING" "lease_of p = None" "attempts p = 0"
  shows "store_ok e (AList.update (op_id p) (Row (raw_of p)) s)"
  using assms
  by (auto simp: store_ok_def update_conv' op_of_def normalizeStoredOperation_def raw_of_def op_ok_def
      or_int_def DEFAULT_QUEUE_CONFIG_def split: if_splits)

lemma persist_pending:
  "persist tab p s = Inr s' \<Longrightarrow> store_ok e s \<Longrightarrow> status p = PENDING \<Longrightarrow> lease_of p = None \<Longrightarrow>
   attempts p = 0 \<Longrightarrow> store_ok e s'"
  using store_ok_pending [of e s p] by (auto simp: persist_def split: if_splits)

lemma enqueue_ok: "store_ok (emptyObj tab) s \<Longrightarrow>
  store_ok (emptyObj tab) (snd (enqueue tab snapshot newId type pl mt dk bv maxAtt now s))"
  by (auto simp: enqueue_def Let_def store_ok_retention split: sum.split elim!: persist_pending)

lemmas claim_whole = claim_def [where others = id] claim_read_def

lemma claim_ok: "store_ok (emptyObj tab) s \<Longrightarrow> store_ok (emptyObj tab) (snd (claim tab i now id s))"
  using get_op_ok [of tab s i]
  by (auto simp: claim_whole op_ok_def isReady_def intro!: store_ok_commit split: option.split if_splits)

lemma markApplied_ok: "store_ok (emptyObj tab) s \<Longrightarrow> store_ok (emptyObj tab) (snd (markApplied tab i r now s))"
  using get_op_ok [of tab s i]
  by (auto simp: markApplied_def op_ok_def intro!: store_ok_commit split: option.split)

lemma markFailed_ok:
  "store_ok (emptyObj tab) s \<Longrightarrow> store_ok (emptyObj tab) (snd (markFailed tab i err now random s))"
  using get_op_ok [of tab s i]
  by (auto simp: markFailed_def intro!: store_ok_commit op_ok_failed split: option.split)

lemma resolveConflict_ok:
  "store_ok (emptyObj tab) s \<Longrightarrow> store_ok (emptyObj tab) (snd (resolveConflict tab i res now s))"
  using get_op_ok [of tab s i]
  by (auto simp: resolveConflict_def op_ok_def intro!: store_ok_commit
      split: option.split resolution.split)

lemma clearCompleted_ok: "store_ok e s \<Longrightarrow> store_ok e (snd (clearCompleted snapshot s))"
  by (simp add: clearCompleted_def Let_def store_ok_removes)

lemma reset_ok: "store_ok e s \<Longrightarrow> store_ok e (reset s)"
proof -
  have "store_ok e s \<Longrightarrow> store_ok e (fold removePersisted ks s)" for ks s
    by (induction ks arbitrary: s) (auto simp: removePersisted_def store_ok_delete)
  then show "store_ok e s \<Longrightarrow> ?thesis" by (simp add: reset_def)
qed

text \<open>The calls any tab can make, as one step function on the store; each is taken as a whole.\<close>

datatype ('j, 'v) queue_call =
    Enqueue "('j, 'v) operation list" string string 'j "'j option" "string option" "'v option" "int option" int
  | Claim string int
  | Mark_applied string "'j option" int
  | Mark_failed string "('j, 'v) failure option" int rat
  | Resolve_conflict string "'v resolution" int
  | Clear_completed "('j, 'v) operation list"
  | Reset_queue

fun queue_step :: "('j, 'v) tab \<times> ('j, 'v) queue_call \<Rightarrow> ('j, 'v) store \<Rightarrow> ('j, 'v) store" where
  "queue_step (tab, Enqueue snapshot newId type pl mt dk bv maxAtt now) s =
     snd (enqueue tab snapshot newId type pl mt dk bv maxAtt now s)"
| "queue_step (tab, Claim i now) s = snd (claim tab i now id s)"
| "queue_step (tab, Mark_applied i r now) s = snd (markApplied tab i r now s)"
| "queue_step (tab, Mark_failed i err now random) s = snd (markFailed tab i err now random s)"
| "queue_step (tab, Resolve_conflict i res now) s = snd (resolveConflict tab i res now s)"
| "queue_step (tab, Clear_completed snapshot) s = snd (clearCompleted snapshot s)"
| "queue_step (tab, Reset_queue) s = reset s"


text \<open>The invariant does not depend on the tab that reads: the empty object is only a payload.\<close>

lemma store_ok_any: "store_ok e s \<longleftrightarrow> store_ok e' s"
proof -
  have imp: "store_ok b s" if "store_ok a s" for a b :: 'a
    unfolding store_ok_def
  proof (intro conjI allI impI)
    show "distinct (keys s)" using that by (simp add: store_ok_def)
  next
    fix k r p assume s: "map_of s k = Some r" and p: "op_of b r = Some p"
    from p obtain raw where raw: "r = Row raw" "normalizeStoredOperation b raw = Some p"
      by (cases r) (auto simp: op_of_def)
    then obtain q where q: "normalizeStoredOperation a raw = Some q"
        "op_id q = op_id p" "op_ok q = op_ok p"
      by (auto simp: normalizeStoredOperation_def op_ok_def split: option.splits if_splits)
    then have "op_of a r = Some q" by (simp add: raw op_of_def)
    with that s have "op_id q = k \<and> op_ok q" unfolding store_ok_def by blast
    then show "op_id p = k" "op_ok p" using q by simp_all
  qed
  show ?thesis using imp by blast
qed

lemma queue_step_ok: "store_ok e s \<Longrightarrow> store_ok e (queue_step call s)"
proof -
  assume "store_ok e s"
  moreover obtain tab c where "call = (tab, c)" by (cases call)
  ultimately have "store_ok (emptyObj tab) s" by (simp add: store_ok_any [of "emptyObj tab" _ e])
  then have "store_ok (emptyObj tab) (queue_step (tab, c) s)"
    by (cases c) (simp_all add: enqueue_ok claim_ok markApplied_ok markFailed_ok resolveConflict_ok
        clearCompleted_ok reset_ok)
  with \<open>call = (tab, c)\<close> show ?thesis by (simp add: store_ok_any [of e _ "emptyObj tab"])
qed

interpretation queue_ops: op_system "store_ok e" queue_step
  by unfold_locales (rule queue_step_ok)


section \<open>How many operations are tracked\<close>

definition tracked :: "'j \<Rightarrow> ('j, 'v) store \<Rightarrow> nat" where
  "tracked e s = length (readAllOperations e s)"

lemma tracked_Nil [simp]: "tracked e [] = 0"
  by (simp add: tracked_def readAll_alt List.map_filter_def)

lemma tracked_Cons: "tracked e ((k, r) # s) = (if op_of e r = None then 0 else 1) + tracked e s"
  by (auto simp: tracked_def readAll_alt List.map_filter_def)

lemma tracked_update: "tracked e (AList.update k r s) \<le> Suc (tracked e s)"
  by (induction s) (auto simp: tracked_Cons)

lemma tracked_update_present:
  "map_of s k = Some r' \<Longrightarrow> op_of e r' \<noteq> None \<Longrightarrow> tracked e (AList.update k r s) \<le> tracked e s"
  by (induction s) (auto simp: tracked_Cons split: if_splits)

lemma tracked_delete: "tracked e (AList.delete k s) \<le> tracked e s"
  by (induction s) (auto simp: tracked_Cons)

lemma tracked_removes: "tracked e (fold (\<lambda>x. if P x then id else removePersisted (f x)) xs s) \<le> tracked e s"
  by (induction xs arbitrary: s) (auto simp: removePersisted_def intro: order_trans [OF _ tracked_delete])

lemma tracked_removes_all:
  "tracked e (fold (\<lambda>x. removePersisted (f x)) xs s) \<le> tracked e s"
  using tracked_removes [of e "\<lambda>_. False" f xs s] by simp

lemma tracked_commit:
  assumes "store_ok (emptyObj tab) s" "get_op tab i s = Some p" "op_id q = op_id p"
  shows "tracked (emptyObj tab) (snd (commit tab q s)) \<le> tracked (emptyObj tab) s"
  using assms get_op_ok [OF assms(1,2)]
  by (auto simp: commit_cases get_op_store Option.bind_eq_Some_conv intro: tracked_update_present)

lemma tracked_any: "tracked e s = tracked e' s"
proof (induction s)
  case (Cons x s)
  have "(op_of e (snd x) = None) = (op_of e' (snd x) = None)"
    by (auto simp: op_of_def normalizeStoredOperation_def split: row.splits option.splits)
  with Cons show ?case by (cases x) (simp add: tracked_Cons)
qed simp

lemma tracked_enqueue:
  "tracked (emptyObj tab) s \<le> cfg_maxTrackedOperations (cfg tab) \<or> True \<Longrightarrow>
   tracked (emptyObj tab) (snd (enqueue tab snapshot newId type pl mt dk bv maxAtt now s))
     \<le> max (tracked (emptyObj tab) s) (cfg_maxTrackedOperations (cfg tab))"
proof -
  let ?s1 = "enforceRetention tab (readAllOperations (emptyObj tab) s) s"
  have le: "tracked (emptyObj tab) ?s1 \<le> tracked (emptyObj tab) s"
    unfolding enforceRetention_def Let_def by (rule tracked_removes)
  have new: "tracked (emptyObj tab) s2 \<le> cfg_maxTrackedOperations (cfg tab)"
    if "persist tab p ?s1 = Inr s2" "\<not> cfg_maxTrackedOperations (cfg tab) \<le> tracked (emptyObj tab) ?s1" for p s2
    using that tracked_update [of "emptyObj tab" "op_id p" "Row (raw_of p)" ?s1]
    by (auto simp: persist_def split: if_splits)
  show ?thesis
    using le new
    by (auto simp: enqueue_def Let_def tracked_def [symmetric] le_max_iff_disj split: sum.split)
qed

lemma tracked_step:
  assumes "store_ok e s"
  shows "tracked e (queue_step (tab, c) s) \<le> max (tracked e s) (cfg_maxTrackedOperations (cfg tab))"
proof -
  have ok: "store_ok (emptyObj tab) s" using assms by (simp add: store_ok_any [of "emptyObj tab" _ e])
  have "tracked (emptyObj tab) (queue_step (tab, c) s)
      \<le> max (tracked (emptyObj tab) s) (cfg_maxTrackedOperations (cfg tab))"
  proof (cases c)
    case (Enqueue a b c d e f g h i)
    then show ?thesis using tracked_enqueue by auto
  next
    case (Claim i now)
    then show ?thesis using tracked_commit [OF ok, of i]
      by (auto simp: claim_whole le_max_iff_disj split: option.split)
  next
    case (Mark_applied i r now)
    then show ?thesis using tracked_commit [OF ok, of i]
      by (auto simp: markApplied_def le_max_iff_disj split: option.split)
  next
    case (Mark_failed i err now random)
    then show ?thesis using tracked_commit [OF ok, of i]
      by (auto simp: markFailed_def le_max_iff_disj split: option.split)
  next
    case (Resolve_conflict i res now)
    then show ?thesis using tracked_commit [OF ok, of i]
      by (auto simp: resolveConflict_def le_max_iff_disj split: option.split resolution.split)
  next
    case (Clear_completed ops)
    then show ?thesis using tracked_removes_all
      by (auto simp: clearCompleted_def Let_def le_max_iff_disj)
  next
    case Reset_queue
    then show ?thesis using tracked_removes_all [of _ id "keys s" s]
      by (auto simp: reset_def le_max_iff_disj)
  qed
  then show ?thesis by (simp add: tracked_any [of e _ "emptyObj tab"])
qed

lemma tracked_run:
  "store_ok e s \<Longrightarrow> \<forall>c \<in> set calls. cfg_maxTrackedOperations (cfg (fst c)) \<le> n \<Longrightarrow> tracked e s \<le> n \<Longrightarrow>
   tracked e (fold queue_step calls s) \<le> n"
proof (induction calls arbitrary: s)
  case (Cons c calls)
  have "tracked e (queue_step c s) \<le> max (tracked e s) (cfg_maxTrackedOperations (cfg (fst c)))"
    using tracked_step [OF Cons.prems(1), of "fst c" "snd c"] by simp
  also have "\<dots> \<le> n" using Cons.prems by simp
  finally show ?case using Cons by (simp add: queue_step_ok)
qed simp

lemma store_ok_Nil [simp]: "store_ok e []"
  by (simp add: store_ok_def)

lemma store_ok_ConsD:
  assumes "store_ok e ((k, r) # s)" shows "store_ok e s"
proof -
  have d: "k \<notin> set (keys s)" "distinct (keys s)" using assms by (simp_all add: store_ok_def)
  have old: "map_of ((k, r) # s) k' = Some r'" if "map_of s k' = Some r'" for k' r'
  proof -
    have "k' \<in> set (keys s)" using map_of_mem [OF that] by force
    with d that show ?thesis by auto
  qed
  have "op_id p = k' \<and> op_ok p" if "map_of s k' = Some r'" "op_of e r' = Some p" for k' r' p
    using assms old [OF that(1)] that(2) by (simp add: store_ok_def)
  with d show ?thesis by (simp add: store_ok_def)
qed

lemma distinct_readAll:
  assumes "store_ok e s" shows "distinct (map op_id (readAllOperations e s))"
proof -
  have "distinct (map op_id (List.map_filter (\<lambda>(k, r). op_of e r) s))"
    using assms
  proof (induction s)
    case (Cons x s)
    obtain k r where x: "x = (k, r)" by (cases x)
    have s: "store_ok e s" using Cons.prems unfolding x by (rule store_ok_ConsD)
    have "op_id p = k" if "op_of e r = Some p" for p using Cons.prems that by (simp add: x store_ok_def)
    moreover have "k \<notin> set (map op_id (List.map_filter (\<lambda>(k, r). op_of e r) s))"
    proof
      assume "k \<in> set (map op_id (List.map_filter (\<lambda>(k, r). op_of e r) s))"
      then obtain k' r' p where "(k', r') \<in> set s" "op_of e r' = Some p" "k = op_id p"
        by (auto simp: set_map_filter_op)
      moreover from this s have "op_id p = k'" by (simp add: store_ok_def)
      ultimately have "k \<in> set (keys s)" by force
      with Cons.prems show False by (simp add: x store_ok_def)
    qed
    ultimately show ?case using Cons.IH [OF s]
      by (cases "op_of e r") (simp_all add: x List.map_filter_def)
  qed simp
  then show ?thesis
    by (simp add: readAll_alt distinct_map inj_on_def)
qed

lemma readAll_ok: "store_ok e s \<Longrightarrow> p \<in> set (readAllOperations e s) \<Longrightarrow> op_ok p"
  by (force simp: set_readAll store_ok_def)

text \<open>
  C18: Whatever calls the tabs make, in any order, each taken as a whole, starting from an empty
  storage: no identifier is
  tracked twice, an operation carries a lease exactly while it is in flight, a retry is scheduled
  only while attempts are left, finished work is dated, and the number of tracked operations
  never exceeds the limit of the configurations in use.
\<close>

theorem queue_stays_consistent:
  assumes "\<forall>c \<in> set calls. cfg_maxTrackedOperations (cfg (fst c)) \<le> n"
  shows "let ops = readAllOperations e (fold queue_step calls []) in
     distinct (map op_id ops) \<and> length ops \<le> n \<and>
     (\<forall>p \<in> set ops. (lease_of p \<noteq> None \<longleftrightarrow> status p = IN_FLIGHT) \<and>
        (status p = RETRY_SCHEDULED \<longrightarrow> attempts p < op_maxAttempts p) \<and>
        (status p \<in> {APPLIED, FAILED} \<longrightarrow> completedAt p \<noteq> None))"
proof -
  have ok: "store_ok e (fold queue_step calls [])" by (rule queue_ops.run_inv) simp
  have "tracked e (fold queue_step calls []) \<le> n" by (rule tracked_run) (use assms in simp_all)
  then have "length (readAllOperations e (fold queue_step calls [])) \<le> n" by (simp add: tracked_def)
  with distinct_readAll [OF ok] readAll_ok [OF ok] show ?thesis
    by (auto simp: Let_def op_ok_def)
qed


theorem queue_stays_consistent_witness:
  "length (readAllOperations (0 :: nat) (fold queue_step
     [(\<lparr>tabId = ''a'', cfg = DEFAULT_QUEUE_CONFIG, canSet = (\<lambda>_. True), emptyObj = 0\<rparr>,
       Enqueue [] ''op1'' ''save'' 7 None None (None :: nat option) None 0)] [])) \<le> 200"
  using queue_stays_consistent [of "[(\<lparr>tabId = ''a'', cfg = DEFAULT_QUEUE_CONFIG, canSet = (\<lambda>_. True), emptyObj = 0\<rparr>,
       Enqueue [] ''op1'' ''save'' (7 :: nat) None None (None :: nat option) None 0)]" 200 0]
  by (simp add: Let_def DEFAULT_QUEUE_CONFIG_def)

section \<open>Leases\<close>

text \<open>The caller got the operation.\<close>

definition granted :: "(queue_error + ('j, 'v) operation option) \<times> ('j, 'v) store \<Rightarrow> bool" where
  "granted r \<longleftrightarrow> (case fst r of Inr (Some _) \<Rightarrow> True | _ \<Rightarrow> False)"

lemma claim_Some:
  assumes "claim tab i now others s = (Inr (Some p), s')" "store_ok (emptyObj tab) s"
  shows "op_id p = i \<and> status p = IN_FLIGHT \<and> op_ok p \<and>
     lease_of p = Some \<lparr>owner = tabId tab, expiresAt = now + cfg_leaseTtlMs (cfg tab)\<rparr> \<and>
     s' = AList.update i (Row (raw_of p)) (others s)"
proof -
  obtain q where q: "get_op tab i s = Some q" "isReady tab q now" "canSet tab (others s)"
    using assms(1) by (auto simp: claim_def claim_read_def commit_cases split: option.splits if_splits)
  have "op_id q = i" "op_ok q" using get_op_ok [OF assms(2) q(1)] by simp_all
  let ?p = "q\<lparr>status := IN_FLIGHT,
    lease_of := Some \<lparr>owner = tabId tab, expiresAt = now + cfg_leaseTtlMs (cfg tab)\<rparr>, updatedAt := now\<rparr>"
  have "?p = p" and s': "AList.update (op_id q) (Row (raw_of ?p)) (others s) = s'"
    using assms(1) q by (auto simp: claim_def claim_read_def commit_cases)
  moreover have "op_ok ?p" using \<open>op_ok q\<close> by (simp add: op_ok_def)
  moreover have "op_id ?p = i" "status ?p = IN_FLIGHT"
    "lease_of ?p = Some \<lparr>owner = tabId tab, expiresAt = now + cfg_leaseTtlMs (cfg tab)\<rparr>"
    using \<open>op_id q = i\<close> by simp_all
  ultimately show ?thesis using \<open>op_id q = i\<close> by metis
qed

text \<open>
  The calls that leave a claimed operation alone until a time: no report on it, no reset, no new
  operation under its identifier, no clearing by a tab that saw it finished, and no claim of it by
  another tab from that time on.
\<close>

fun leaves_alone :: "string \<Rightarrow> string \<Rightarrow> int \<Rightarrow> ('j, 'v) tab \<times> ('j, 'v) queue_call \<Rightarrow> bool" where
  "leaves_alone who i until (tab, Enqueue snapshot newId type pl mt dk bv maxAtt now) = (newId \<noteq> i)"
| "leaves_alone who i until (tab, Claim j now) = (j = i \<and> tabId tab \<noteq> who \<longrightarrow> now < until)"
| "leaves_alone who i until (tab, Mark_applied j r now) = (j \<noteq> i)"
| "leaves_alone who i until (tab, Mark_failed j err now random) = (j \<noteq> i)"
| "leaves_alone who i until (tab, Resolve_conflict j res now) = True"
| "leaves_alone who i until (tab, Clear_completed snapshot) = (\<forall>p \<in> set snapshot. op_id p = i \<longrightarrow> \<not> isTerminalStatus (status p))"
| "leaves_alone who i until (tab, Reset_queue) = False"

definition holds :: "('j, 'v) operation \<Rightarrow> ('j, 'v) store \<Rightarrow> bool" where
  "holds p s \<longleftrightarrow> map_of s (op_id p) = Some (Row (raw_of p))"

lemma holds_get:
  assumes "store_ok (emptyObj tab) s" "holds p s" "op_ok p"
  shows "get_op tab (op_id p) s = Some p"
  using assms by (simp add: get_op_store holds_def op_ok_def)

lemma holds_update: "holds p s \<Longrightarrow> k \<noteq> op_id p \<Longrightarrow> holds p (AList.update k r s)"
  by (simp add: holds_def update_conv')

lemma holds_removes: "holds p s \<Longrightarrow> \<forall>q \<in> set xs. P q \<or> f q \<noteq> op_id p \<Longrightarrow> holds p (fold (\<lambda>q. if P q then id else removePersisted (f q)) xs s)"
  by (induction xs arbitrary: s) (auto simp: removePersisted_def holds_def delete_conv')

lemma holds_commit: "holds p s \<Longrightarrow> op_id q \<noteq> op_id p \<Longrightarrow> holds p (snd (commit tab q s))"
  by (simp add: commit_cases holds_update)

lemma holds_retention:
  assumes "store_ok (emptyObj tab) s" "holds p s" "op_ok p" "\<not> isTerminalStatus (status p)"
  shows "holds p (enforceRetention tab (readAllOperations (emptyObj tab) s) s)"
proof -
  have "q = p" if q: "q \<in> set (readAllOperations (emptyObj tab) s)" "op_id q = op_id p" for q
  proof -
    obtain k r where "(k, r) \<in> set s" "op_of (emptyObj tab) r = Some q" using q(1) by (auto simp: set_readAll)
    then have "map_of s k = Some r" "op_id q = k" using assms(1) by (auto simp: store_ok_def)
    then show ?thesis using \<open>op_of (emptyObj tab) r = Some q\<close> assms(2,3) q(2) by (simp add: holds_def op_ok_def)
  qed
  then have away: "\<forall>q \<in> set (readAllOperations (emptyObj tab) s). isTerminalStatus (status q) \<longrightarrow> op_id q \<noteq> op_id p"
    using assms(4) by auto
  show ?thesis unfolding enforceRetention_def Let_def
    by (rule holds_removes [OF assms(2)]) (use away in auto)
qed

lemma holds_step:
  assumes "store_ok e s" "holds p s" "op_ok p" "lease_of p = Some \<lparr>owner = who, expiresAt = until\<rparr>" "leaves_alone who (op_id p) until c"
  shows "holds p (queue_step c s)"
proof -
  obtain tab q where c: "c = (tab, q)" by (cases c)
  have ok: "store_ok (emptyObj tab) s" using assms(1) by (simp add: store_ok_any [of "emptyObj tab" _ e])
  have flying: "status p = IN_FLIGHT" "\<not> isTerminalStatus (status p)"
    using assms(3,4) by (auto simp: op_ok_def isTerminalStatus_def TERMINAL_OPERATION_STATUSES_def)
  have own: "op_id x = i" if "get_op tab i s = Some x" for i x using get_op_ok [OF ok that] by simp
  show ?thesis
  proof (cases q)
    case (Enqueue snapshot newId type pl mt dk bv maxAtt now)
    have kept: "holds p (enforceRetention tab (readAllOperations (emptyObj tab) s) s)"
      by (rule holds_retention [OF ok assms(2,3) flying(2)])
    show ?thesis using assms(2,5) kept
      by (auto simp: c Enqueue enqueue_def Let_def persist_def intro!: holds_update split: sum.splits if_splits)
  next
    case (Claim i now)
    show ?thesis
    proof (cases "i = op_id p")
      case True
      have "\<not> isReady tab p now" using assms(4,5) flying(1) by (auto simp: c Claim True isReady_def)
      then show ?thesis using assms(2) holds_get [OF ok assms(2,3)] by (simp add: c Claim True claim_whole)
    next
      case False
      then show ?thesis using assms(2) own by (auto simp: c Claim claim_whole intro!: holds_commit split: option.split)
    qed
  next
    case (Mark_applied i r now)
    then show ?thesis using assms(2,5) own by (auto simp: c markApplied_def intro!: holds_commit split: option.split)
  next
    case (Mark_failed i err now random)
    then show ?thesis using assms(2,5) own by (auto simp: c markFailed_def intro!: holds_commit split: option.split)
  next
    case (Resolve_conflict i res now)
    show ?thesis
    proof (cases "i = op_id p")
      case True
      then show ?thesis using assms(2) holds_get [OF ok assms(2,3)] flying(1)
        by (auto simp: c Resolve_conflict resolveConflict_def split: resolution.split)
    next
      case False
      then show ?thesis using assms(2) own
        by (auto simp: c Resolve_conflict resolveConflict_def intro!: holds_commit split: option.split resolution.split)
    qed
  next
    case (Clear_completed snapshot)
    have "holds p (fold (\<lambda>q. if False then id else removePersisted (op_id q)) (filter (\<lambda>q. isTerminalStatus (status q)) snapshot) s)"
      by (rule holds_removes [OF assms(2)]) (use assms(5) in \<open>auto simp: c Clear_completed\<close>)
    then show ?thesis by (simp add: c Clear_completed clearCompleted_def Let_def)
  qed (use assms(5) in \<open>simp add: c\<close>)
qed

lemma holds_run:
  "store_ok e s \<Longrightarrow> holds p s \<Longrightarrow> op_ok p \<Longrightarrow> lease_of p = Some \<lparr>owner = who, expiresAt = until\<rparr> \<Longrightarrow>
   \<forall>c \<in> set calls. leaves_alone who (op_id p) until c \<Longrightarrow> holds p (fold queue_step calls s)"
proof (induction calls arbitrary: s)
  case (Cons c calls)
  have "holds p (queue_step c s)"
    by (rule holds_step [OF Cons.prems(1-4)]) (use Cons.prems(5) in simp)
  then show ?case using Cons queue_step_ok [OF Cons.prems(1)] by simp
qed simp

text \<open>
  C19: A granted claim excludes the claims after it until its lease runs out. Take a tab whose claim of
  an operation was granted, whatever the other tabs wrote between its read and its write, and any calls
  of any tabs after it, each taken as a whole, that do not report on the operation, reset the queue,
  reuse its identifier or clear it from a snapshot in which it was finished, and of which those by other
  tabs that claim it come before the end of the lease. Then a claim of it by another tab, taken as a
  whole, is granted exactly from the end of the lease on, and the tab itself is not granted it again.
  Nothing is said of claims that were granted before, see \<open>interleaved_claims_both_granted\<close>.
\<close>

theorem claim_is_exclusive:
  assumes "store_ok (emptyObj a) s" "store_ok (emptyObj a) (others s)" "claim a i now others s = (Inr (Some p), s')"
    and "\<forall>c \<in> set calls. leaves_alone (tabId a) i (now + cfg_leaseTtlMs (cfg a)) c"
    and "t = fold queue_step calls s'" "tabId b \<noteq> tabId a" "canSet b t"
  shows "(granted (claim b i later id t) \<longleftrightarrow> now + cfg_leaseTtlMs (cfg a) \<le> later) \<and> claim a i later id t = (Inr None, t)"
proof -
  note p = claim_Some [OF assms(3,1)]
  have ok: "store_ok (emptyObj a) s'" using p store_ok_update [OF assms(2), of p] by simp
  have h: "holds p s'" using p by (simp add: holds_def update_conv')
  have t: "store_ok e t" for e
    using queue_ops.run_inv [OF ok] unfolding assms(5) by (simp add: store_ok_any [of e _ "emptyObj a"])
  have "holds p t" unfolding assms(5)
    by (rule holds_run [OF ok h, of "tabId a" "now + cfg_leaseTtlMs (cfg a)"]) (use p assms(4) in auto)
  then have get: "get_op x i t = Some p" for x :: "('a, 'b) tab" using holds_get [OF t] p by auto
  show ?thesis using p assms(6,7) get by (auto simp: claim_whole isReady_def commit_cases granted_def)
qed

text \<open>A tab with the default configuration and a storage that never fails.\<close>

definition plain_tab :: "string \<Rightarrow> (nat, nat) tab" where
  "plain_tab name = \<lparr>tabId = name, cfg = DEFAULT_QUEUE_CONFIG, canSet = (\<lambda>_. True), emptyObj = 0\<rparr>"

definition sample_op :: "(nat, nat) operation" where
  "sample_op = \<lparr>op_id = ''op1'', op_type = ''save'', payload = 7, meta = None, dedupeKey = None,
     status = PENDING, attempts = 0, op_maxAttempts = 5, baseVersion = Some 3, nextAttemptAt = 0,
     lease_of = None, lastError = None, conflict = None, result = None, enqueuedAt = 0, updatedAt = 0,
     completedAt = None, discardedAt = None, discardReason = None\<rparr>"

definition sample_store :: "(nat, nat) store" where
  "sample_store = [(''op1'', Row (raw_of sample_op))]"

lemma sample_store_ok: "store_ok e sample_store"
  using store_ok_update [of e "[]" sample_op] by (simp add: sample_store_def sample_op_def op_ok_def)

lemma sample_get: "get_op (plain_tab a) ''op1'' sample_store = Some sample_op"
  using get_op_store [OF sample_store_ok, of "plain_tab a" "''op1''"]
  by (simp add: sample_store_def sample_op_def)

theorem claim_is_exclusive_witness:
  "granted (claim (plain_tab ''b'') ''op1'' 30005 id (queue_step (plain_tab ''c'', Claim ''op1'' 20)
     (snd (claim (plain_tab ''a'') ''op1'' 5 id sample_store)))) \<and>
   \<not> granted (claim (plain_tab ''b'') ''op1'' 30004 id (queue_step (plain_tab ''c'', Claim ''op1'' 20)
     (snd (claim (plain_tab ''a'') ''op1'' 5 id sample_store))))"
proof -
  obtain p s' where c: "claim (plain_tab ''a'') ''op1'' 5 id sample_store = (Inr (Some p), s')"
    by (simp add: claim_whole sample_get isReady_def isLeaseExpired_def commit_cases sample_op_def plain_tab_def
        sample_get [unfolded sample_op_def plain_tab_def])
  show ?thesis
    using claim_is_exclusive [OF sample_store_ok _ c, of "[(plain_tab ''c'', Claim ''op1'' 20)]" _ "plain_tab ''b''"] c
    by (simp add: sample_store_ok plain_tab_def DEFAULT_QUEUE_CONFIG_def del: queue_step.simps)
qed

text \<open>
  Two tabs whose claims interleave are both granted the operation: tab \<open>b\<close> claims it between the read
  and the write of tab \<open>a\<close>, whose write then replaces the lease.
\<close>

lemma interleaved_claims_both_granted:
  "granted (claim (plain_tab ''b'') ''op1'' 5 id sample_store) \<and>
   granted (claim (plain_tab ''a'') ''op1'' 5 (\<lambda>s. snd (claim (plain_tab ''b'') ''op1'' 5 id s)) sample_store)"
  by code_simp

section \<open>Failures and retries\<close>

lemma computeBackoffMs_bounds:
  assumes "0 \<le> r" "r \<le> 1" "0 \<le> cfg_initialBackoffMs c" "1 \<le> cfg_backoffMultiplier c"
    "0 \<le> cfg_maxBackoffMs c" "0 \<le> cfg_jitterFraction c" "1 \<le> n"
  shows "js_round (min (cfg_initialBackoffMs c) (cfg_maxBackoffMs c)) \<le> computeBackoffMs n c r \<and>
    computeBackoffMs n c r \<le> js_round (cfg_maxBackoffMs c * (1 + cfg_jitterFraction c))"
proof -
  define capped where "capped = min (cfg_initialBackoffMs c * cfg_backoffMultiplier c ^ nat (n - 1)) (cfg_maxBackoffMs c)"
  have pow: "1 \<le> cfg_backoffMultiplier c ^ nat (n - 1)" using assms(4) by (rule one_le_power)
  have "cfg_initialBackoffMs c * 1 \<le> cfg_initialBackoffMs c * cfg_backoffMultiplier c ^ nat (n - 1)"
    using pow assms(3) by (rule mult_left_mono)
  then have lo: "min (cfg_initialBackoffMs c) (cfg_maxBackoffMs c) \<le> capped" by (auto simp: capped_def)
  have nn: "0 \<le> capped" using lo assms(3,5) by linarith
  have hi: "capped \<le> cfg_maxBackoffMs c" by (simp add: capped_def)
  have "0 \<le> capped * cfg_jitterFraction c * r" using nn assms by simp
  moreover have "capped * cfg_jitterFraction c * r \<le> cfg_maxBackoffMs c * cfg_jitterFraction c"
  proof -
    have "capped * cfg_jitterFraction c * r \<le> capped * cfg_jitterFraction c * 1"
      using assms nn by (intro mult_left_mono) auto
    also have "\<dots> \<le> cfg_maxBackoffMs c * cfg_jitterFraction c"
      using hi assms(6) by (simp add: mult_right_mono)
    finally show ?thesis .
  qed
  moreover have "computeBackoffMs n c r = js_round (capped + capped * cfg_jitterFraction c * r)"
    using assms(7) by (simp add: computeBackoffMs_def capped_def Let_def max_def)
  ultimately show ?thesis using lo hi by (auto intro!: js_round_mono simp: algebra_simps)
qed

text \<open>
  A reported failure has exactly one of three outcomes: a conflict is never retried; a
  terminal failure or the last allowed attempt ends the operation; any other failure schedules a
  retry, no earlier than the smaller of the initial and the maximal backoff and no later than
  the maximal backoff with its full jitter. The lease is released in every case.
\<close>

theorem failure_outcome:
  assumes "0 \<le> r" "r \<le> 1" "0 \<le> cfg_initialBackoffMs (cfg tab)" "1 \<le> cfg_backoffMultiplier (cfg tab)"
    "0 \<le> cfg_maxBackoffMs (cfg tab)" "0 \<le> cfg_jitterFraction (cfg tab)" "0 \<le> attempts p"
  shows "let q = failed_op tab err now r p; kind = classifyOperationFailure err in
     lease_of q = None \<and> attempts q = attempts p + 1 \<and>
     (status q = CONFLICT \<longleftrightarrow> kind = Kind_conflict) \<and>
     (status q = FAILED \<longleftrightarrow> kind = Kind_terminal \<or> kind = Kind_retryable \<and> op_maxAttempts p \<le> attempts p + 1) \<and>
     (status q \<notin> {CONFLICT, FAILED} \<longrightarrow> status q = RETRY_SCHEDULED \<and>
        nextAttemptAt q \<in> {now + js_round (min (cfg_initialBackoffMs (cfg tab)) (cfg_maxBackoffMs (cfg tab))) ..
           now + js_round (cfg_maxBackoffMs (cfg tab) * (1 + cfg_jitterFraction (cfg tab)))})"
proof -
  have b: "1 \<le> attempts p + 1" using assms(7) by simp
  show ?thesis
    using computeBackoffMs_bounds [OF assms(1-6) b]
    by (cases "classifyOperationFailure err") (auto simp: failed_op_def Let_def)
qed

theorem failure_outcome_witness:
  "status (failed_op (plain_tab ''a'') (None :: (nat, nat) failure option) 100 (1 / 2) sample_op) \<notin> {CONFLICT, FAILED} \<and>
   nextAttemptAt (failed_op (plain_tab ''a'') (None :: (nat, nat) failure option) 100 (1 / 2) sample_op)
     \<in> {100 + js_round 1000 .. 100 + js_round 72000}"
  using failure_outcome [of "1 / 2" "plain_tab ''a''" sample_op None 100]
  by (simp add: plain_tab_def DEFAULT_QUEUE_CONFIG_def sample_op_def classifyOperationFailure_def Let_def)

section \<open>Draining\<close>

lemma drain_one_stale:
  assumes "get_op tab i (fst w) = Some p" "isReady tab p (snd w)"
    "versionProvider env = Some provider" "baseVersion p = Some expected"
    "provider p w = (Inr observed, w')" "observed \<noteq> Some expected"
    "store_ok (emptyObj tab) (fst w')" "get_op tab i (fst w') = Some p" "canSet tab (fst w')"
  shows "drain_one tab (env\<lparr>handler := h\<rparr>) i m w = drain_one tab env i m w"
    and "case drain_one tab env i m w of (r, w'') \<Rightarrow>
      r = Inr (m\<lparr>s_conflicts := s_conflicts m + 1\<rparr>) \<and>
      (\<exists>q. get_op tab i (fst w'') = Some q \<and> status q = CONFLICT \<and> payload q = payload p)"
proof -
  show "drain_one tab (env\<lparr>handler := h\<rparr>) i m w = drain_one tab env i m w"
    using assms by (simp add: drain_one_def fail_and_def)
  let ?err = "Some (stale_error (Some expected) observed)"
  let ?q = "failed_op tab ?err (snd w') (rand_of env w') p"
  have id: "op_id p = i" "op_ok p" using get_op_ok [OF assms(7,8)] by simp_all
  have "get_op tab i (AList.update (op_id ?q) (Row (raw_of ?q)) (fst w')) = Some ?q"
    using get_op_update [OF assms(7) op_ok_failed [OF id(2)], of i] id(1) by simp
  moreover have "status ?q = CONFLICT" "payload ?q = payload p"
    by (simp_all add: failed_op_def Let_def classifyOperationFailure_def stale_error_def)
  ultimately show "case drain_one tab env i m w of (r, w'') \<Rightarrow>
      r = Inr (m\<lparr>s_conflicts := s_conflicts m + 1\<rparr>) \<and>
      (\<exists>q. get_op tab i (fst w'') = Some q \<and> status q = CONFLICT \<and> payload q = payload p)"
    using assms by (simp add: drain_one_def fail_and_def markFailed_def commit_cases)
qed

text \<open>
  Stale work is never replayed: when the version provider observes another version than the
  one the operation was queued against, the drain does not run the handler (the outcome is the
  same for every handler), the operation is in conflict afterwards, and its payload is untouched.
\<close>

theorem stale_work_not_replayed:
  assumes "get_op tab i (fst w) = Some p" "isReady tab p (snd w)"
    "versionProvider env = Some provider" "baseVersion p = Some expected"
    "provider p w = (Inr observed, w')" "observed \<noteq> Some expected"
    "store_ok (emptyObj tab) (fst w')" "get_op tab i (fst w') = Some p" "canSet tab (fst w')"
  shows "drain_one tab (env\<lparr>handler := h\<rparr>) i m w = drain_one tab env i m w \<and>
    (case drain_one tab env i m w of (r, w'') \<Rightarrow>
      r = Inr (m\<lparr>s_conflicts := s_conflicts m + 1\<rparr>) \<and>
      (\<exists>q. get_op tab i (fst w'') = Some q \<and> status q = CONFLICT \<and> payload q = payload p))"
  by (intro conjI drain_one_stale [OF assms])

definition sample_env :: "(nat, nat) drain_env" where
  "sample_env = \<lparr>handler = (\<lambda>p w. (Inr None, w)), versionProvider = Some (\<lambda>p w. (Inr (Some 4), w)),
     online = (\<lambda>_. True), rand_of = (\<lambda>_. 0), others_of = (\<lambda>_. id)\<rparr>"

theorem stale_work_not_replayed_witness:
  "case drain_one (plain_tab ''a'') sample_env ''op1''
       \<lparr>s_online = True, s_processed = 0, s_applied = 0, s_retried = 0, s_conflicts = 0, s_failed = 0, s_skipped = 0\<rparr>
       (sample_store, 10) of (r, w'') \<Rightarrow>
     \<exists>q. get_op (plain_tab ''a'') ''op1'' (fst w'') = Some q \<and> status q = CONFLICT \<and> payload q = payload sample_op"
proof -
  have *: "get_op (plain_tab ''a'') ''op1'' (fst (sample_store, 10 :: int)) = Some sample_op"
    "isReady (plain_tab ''a'') sample_op (snd (sample_store, 10))"
    "versionProvider sample_env = Some (\<lambda>p w. (Inr (Some 4), w))" "baseVersion sample_op = Some 3"
    "(\<lambda>p w. (Inr (Some 4), w)) sample_op (sample_store, 10 :: int) = (Inr (Some (4::nat)), (sample_store, 10))"
    "Some (4 :: nat) \<noteq> Some 3"
    "store_ok (emptyObj (plain_tab ''a'')) (fst (sample_store, 10 :: int))"
    "canSet (plain_tab ''a'') (fst (sample_store, 10 :: int))"
    by (simp_all add: sample_get sample_store_ok sample_env_def)
       (simp_all add: sample_op_def isReady_def isLeaseExpired_def plain_tab_def)
  show ?thesis using stale_work_not_replayed [OF *(1-7) *(1) *(8)] by (simp add: case_prod_beta)
qed

text \<open>
  Nothing ties a report to the lease it was made under. Tab \<open>a\<close> claims an operation and
  takes longer than its lease; tab \<open>b\<close> reclaims it and applies it; when \<open>a\<close> then reports a
  retryable failure, the applied operation is scheduled again and \<open>b\<close> can execute it a second
  time.
\<close>

theorem late_failure_reopens_applied_work:
  "let s1 = snd (claim (plain_tab ''a'') ''op1'' 0 id sample_store);
       s2 = snd (claim (plain_tab ''b'') ''op1'' 30000 id s1);
       s3 = snd (markApplied (plain_tab ''b'') ''op1'' None 30100 s2);
       s4 = snd (markFailed (plain_tab ''a'') ''op1'' None 30200 0 s3)
   in map_option status (get_op (plain_tab ''b'') ''op1'' s3) = Some APPLIED \<and>
      map_option status (get_op (plain_tab ''b'') ''op1'' s4) = Some RETRY_SCHEDULED \<and>
      granted (claim (plain_tab ''b'') ''op1'' 31200 id s4)"
  by code_simp

end
