(* ===== verification/Backpressure.thy ===== *)
theory Backpressure imports OpSystems begin

text \<open>
  \<open>src/lib/queue/boundedBackpressure.js\<close>: admission control of the background queue. The class
  \<open>BoundedQueueBackpressure\<close> is the record \<open>backpressure\<close>; the job store and its count are
  parameters (\<open>enqueueJob\<close>, \<open>countDocuments\<close>). Timestamps of the telemetry and the texts of the
  errors are not modelled.
\<close>

section \<open>State\<close>

datatype priority = HIGH | NORMAL | LOW

datatype bp_state = Bp_normal | Shedding_low_priority | Saturated

datatype bp_event =
    Job_type_rejected string nat int
  | Saturated_rejected string priority int
  | Low_priority_shed string priority int

record backpressure =
  maxCapacity :: int
  highWaterMark :: int
  lowWaterMark :: int
  perJobTypeLimits :: "(string \<times> int) list"
  defaultRetryAfterSeconds :: int
  activeJobCounts :: "(string \<times> nat) list"
  totalActiveDepth :: int
  totalAdmitted :: nat
  totalRejected :: nat
  bp_mode :: bp_state
  telemetryEvents :: "bp_event list"

definition new_backpressure :: "int \<Rightarrow> rat \<Rightarrow> rat \<Rightarrow> (string \<times> int) list \<Rightarrow> int \<Rightarrow> backpressure" where
  "new_backpressure cap highWaterRatio lowWaterRatio limits retryAfter =
     \<lparr>maxCapacity = cap, highWaterMark = \<lfloor>of_int cap * highWaterRatio\<rfloor>,
      lowWaterMark = \<lfloor>of_int cap * lowWaterRatio\<rfloor>, perJobTypeLimits = limits,
      defaultRetryAfterSeconds = retryAfter, activeJobCounts = [], totalActiveDepth = 0,
      totalAdmitted = 0, totalRejected = 0, bp_mode = Bp_normal, telemetryEvents = []\<rparr>"

definition globalQueueBackpressure :: backpressure where
  "globalQueueBackpressure = new_backpressure 200 (4 / 5) (1 / 2)
     [(''storage:garbage-collection'', 20), (''storage:pin-verification'', 50), (''integrity:verification'', 30)] 30"

record auth_context =
  isAuthenticated :: bool
  permissions :: "string list"

text \<open>What a rejected caller sees; \<open>Queue_backpressure\<close> is \<open>QueueBackpressureError\<close>.\<close>

datatype bp_error =
    Unauthenticated
  | Forbidden
  | Queue_backpressure (currentDepth: int) (bpMaxCapacity: int) (bpPriority: priority) (retryAfterSeconds: int) (jobType: string)
  | Job_store_failed

record admission =
  adm_state :: bp_state
  adm_depth :: int

section \<open>Operations\<close>

definition next_mode :: "backpressure \<Rightarrow> int \<Rightarrow> bp_state" where
  "next_mode bp depth =
     (if maxCapacity bp \<le> depth then Saturated
      else if highWaterMark bp \<le> depth then Shedding_low_priority
      else if depth \<le> lowWaterMark bp then Bp_normal
      else bp_mode bp)"

definition evaluateState :: "int option \<Rightarrow> backpressure \<Rightarrow> backpressure" where
  "evaluateState overrideDepth bp =
     bp\<lparr>bp_mode := next_mode bp (case overrideDepth of Some d \<Rightarrow> d | None \<Rightarrow> totalActiveDepth bp)\<rparr>"

definition recordTelemetry :: "bp_event \<Rightarrow> backpressure \<Rightarrow> backpressure" where
  "recordTelemetry ev bp =
     (let evs = telemetryEvents bp @ [ev]
      in bp\<lparr>telemetryEvents := (if 200 < length evs then tl evs else evs)\<rparr>)"

definition reject :: "bp_event \<Rightarrow> backpressure \<Rightarrow> backpressure" where
  "reject ev bp = recordTelemetry ev (bp\<lparr>totalRejected := totalRejected bp + 1\<rparr>)"

definition job_count :: "string \<Rightarrow> backpressure \<Rightarrow> nat" where
  "job_count name bp = (case map_of (activeJobCounts bp) name of Some n \<Rightarrow> n | None \<Rightarrow> 0)"

text \<open>\<open>None\<close> as required permissions: none required (a falsy value).\<close>

definition authorize :: "auth_context option \<Rightarrow> string list option \<Rightarrow> bp_error option" where
  "authorize authContext requiredPermissions =
     (case authContext of
        None \<Rightarrow> None
      | Some ctx \<Rightarrow>
          if \<not> isAuthenticated ctx then Some Unauthenticated
          else case requiredPermissions of
                 None \<Rightarrow> None
               | Some perms \<Rightarrow>
                   if list_all (\<lambda>p. p \<in> set (permissions ctx) \<or> ''*'' \<in> set (permissions ctx)) perms
                   then None else Some Forbidden)"

definition absolute_buffer :: "backpressure \<Rightarrow> int" where
  "absolute_buffer bp = \<lfloor>of_int (maxCapacity bp) * (105 / 100 :: rat)\<rfloor>"

definition checkAdmission ::
  "string \<Rightarrow> priority \<Rightarrow> int option \<Rightarrow> auth_context option \<Rightarrow> string list option \<Rightarrow> backpressure \<Rightarrow>
   (bp_error + admission) \<times> backpressure" where
  "checkAdmission name prio currentQueueDepth authContext requiredPermissions bp =
     (case authorize authContext requiredPermissions of
        Some e \<Rightarrow> (Inl e, bp)
      | None \<Rightarrow>
          let depth = (case currentQueueDepth of Some d \<Rightarrow> d | None \<Rightarrow> totalActiveDepth bp);
              bp1 = evaluateState (Some depth) bp;
              currentState = bp_mode bp1;
              jobLimit = map_of (perJobTypeLimits bp) name;
              currentJobCount = job_count name bp in
          if (case jobLimit of Some l \<Rightarrow> l \<noteq> 0 \<and> l \<le> int currentJobCount | None \<Rightarrow> False)
          then (Inl (Queue_backpressure (int currentJobCount) (the jobLimit) prio (defaultRetryAfterSeconds bp) name),
                reject (Job_type_rejected name currentJobCount (the jobLimit)) bp1)
          else if currentState = Saturated \<and> (prio \<noteq> HIGH \<or> absolute_buffer bp \<le> depth)
          then (Inl (Queue_backpressure depth (maxCapacity bp) prio (defaultRetryAfterSeconds bp * 2) name),
                reject (Saturated_rejected name prio depth) bp1)
          else if currentState = Shedding_low_priority \<and> prio = LOW
          then (Inl (Queue_backpressure depth (maxCapacity bp) prio (defaultRetryAfterSeconds bp) name),
                reject (Low_priority_shed name prio depth) bp1)
          else (Inr \<lparr>adm_state = currentState, adm_depth = depth\<rparr>,
                bp1\<lparr>totalAdmitted := totalAdmitted bp1 + 1\<rparr>))"

definition trackAdmission :: "string \<Rightarrow> backpressure \<Rightarrow> backpressure" where
  "trackAdmission name bp =
     evaluateState None (bp\<lparr>totalActiveDepth := totalActiveDepth bp + 1,
       activeJobCounts := AList.update name (job_count name bp + 1) (activeJobCounts bp)\<rparr>)"

definition trackCompletion :: "string \<Rightarrow> backpressure \<Rightarrow> backpressure" where
  "trackCompletion name bp =
     (let bp1 = (if 0 < totalActiveDepth bp then bp\<lparr>totalActiveDepth := totalActiveDepth bp - 1\<rparr> else bp);
          current = job_count name bp1;
          bp2 = (if 0 < current
                 then bp1\<lparr>activeJobCounts := AList.update name (current - 1) (activeJobCounts bp1)\<rparr> else bp1)
      in evaluateState None bp2)"

definition bp_reset :: "backpressure \<Rightarrow> backpressure" where
  "bp_reset bp = bp\<lparr>activeJobCounts := [], totalActiveDepth := 0, totalAdmitted := 0, totalRejected := 0,
     bp_mode := Bp_normal, telemetryEvents := []\<rparr>"

record bp_metrics =
  m_totalActiveDepth :: int
  m_maxCapacity :: int
  m_highWaterMark :: int
  m_lowWaterMark :: int
  m_state :: bp_state
  m_totalAdmitted :: nat
  m_totalRejected :: nat
  m_jobTypeBreakdown :: "(string \<times> nat) list"

definition getMetrics :: "backpressure \<Rightarrow> bp_metrics" where
  "getMetrics bp = \<lparr>m_totalActiveDepth = totalActiveDepth bp, m_maxCapacity = maxCapacity bp,
     m_highWaterMark = highWaterMark bp, m_lowWaterMark = lowWaterMark bp, m_state = bp_mode bp,
     m_totalAdmitted = totalAdmitted bp, m_totalRejected = totalRejected bp,
     m_jobTypeBreakdown = activeJobCounts bp\<rparr>"

text \<open>
  \<open>countDocuments\<close> is \<open>None\<close> without a database, \<open>Some None\<close> when the count fails. \<open>enqueueJob\<close>
  takes the controller at the start of the \<open>await\<close> and gives its state at the end, which other
  callers may have changed, with the job or a failure.
\<close>

definition enqueueWithBackpressure ::
  "string \<Rightarrow> priority \<Rightarrow> auth_context option \<Rightarrow> string list option \<Rightarrow> int option option \<Rightarrow>
   (backpressure \<Rightarrow> 'doc option \<times> backpressure) \<Rightarrow> backpressure \<Rightarrow> (bp_error + 'doc) \<times> backpressure" where
  "enqueueWithBackpressure name prio authContext requiredPermissions countDocuments enqueueJob bp =
     (case checkAdmission name prio (case countDocuments of Some n \<Rightarrow> n | None \<Rightarrow> None)
             authContext requiredPermissions bp of
        (Inl e, bp1) \<Rightarrow> (Inl e, bp1)
      | (Inr _, bp1) \<Rightarrow>
          (case enqueueJob (trackAdmission name bp1) of
             (Some doc, bp2) \<Rightarrow> (Inr doc, bp2)
           | (None, bp2) \<Rightarrow> (Inl Job_store_failed, trackCompletion name bp2)))"

section \<open>Elementary facts\<close>

lemma reject_simps [simp]:
  "maxCapacity (reject ev bp) = maxCapacity bp" "highWaterMark (reject ev bp) = highWaterMark bp"
  "lowWaterMark (reject ev bp) = lowWaterMark bp" "perJobTypeLimits (reject ev bp) = perJobTypeLimits bp"
  "totalActiveDepth (reject ev bp) = totalActiveDepth bp" "activeJobCounts (reject ev bp) = activeJobCounts bp"
  "bp_mode (reject ev bp) = bp_mode bp"
  by (simp_all add: reject_def recordTelemetry_def Let_def)

lemma evaluate_simps [simp]:
  "maxCapacity (evaluateState d bp) = maxCapacity bp" "highWaterMark (evaluateState d bp) = highWaterMark bp"
  "lowWaterMark (evaluateState d bp) = lowWaterMark bp" "perJobTypeLimits (evaluateState d bp) = perJobTypeLimits bp"
  "totalActiveDepth (evaluateState d bp) = totalActiveDepth bp"
  "activeJobCounts (evaluateState d bp) = activeJobCounts bp"
  "telemetryEvents (evaluateState d bp) = telemetryEvents bp"
  "bp_mode (evaluateState (Some x) bp) = next_mode bp x"
  by (simp_all add: evaluateState_def)

text \<open>An admission check touches neither the depth nor the counts.\<close>

lemma check_frame:
  assumes "checkAdmission name prio d auth perms bp = (r, bp')"
  shows "maxCapacity bp' = maxCapacity bp" "highWaterMark bp' = highWaterMark bp"
    "lowWaterMark bp' = lowWaterMark bp" "perJobTypeLimits bp' = perJobTypeLimits bp"
    "totalActiveDepth bp' = totalActiveDepth bp" "activeJobCounts bp' = activeJobCounts bp"
  using assms by (auto simp: checkAdmission_def Let_def split: option.splits if_splits)

lemma reject_telemetry: "length (telemetryEvents bp) \<le> 200 \<Longrightarrow> length (telemetryEvents (reject ev bp)) \<le> 200"
  by (auto simp: reject_def recordTelemetry_def Let_def)

lemma check_telemetry:
  "checkAdmission name prio d auth perms bp = (r, bp') \<Longrightarrow> length (telemetryEvents bp) \<le> 200 \<Longrightarrow>
   length (telemetryEvents bp') \<le> 200"
  by (auto simp: checkAdmission_def Let_def reject_telemetry split: option.splits if_splits)

lemma track_simps [simp]:
  "maxCapacity (trackAdmission name bp) = maxCapacity bp" "maxCapacity (trackCompletion name bp) = maxCapacity bp"
  "perJobTypeLimits (trackAdmission name bp) = perJobTypeLimits bp"
  "perJobTypeLimits (trackCompletion name bp) = perJobTypeLimits bp"
  "totalActiveDepth (trackAdmission name bp) = totalActiveDepth bp + 1"
  "totalActiveDepth (trackCompletion name bp) = (if 0 < totalActiveDepth bp then totalActiveDepth bp - 1 else totalActiveDepth bp)"
  "telemetryEvents (trackAdmission name bp) = telemetryEvents bp"
  "telemetryEvents (trackCompletion name bp) = telemetryEvents bp"
  by (simp_all add: trackAdmission_def trackCompletion_def Let_def)

lemma job_count_trackAdmission:
  "job_count n (trackAdmission name bp) = job_count n bp + (if n = name then 1 else 0)"
  by (auto simp: job_count_def trackAdmission_def update_conv' split: option.split)

lemma job_count_trackCompletion:
  "job_count n (trackCompletion name bp) = job_count n bp - (if n = name then 1 else 0)"
  by (auto simp: job_count_def trackCompletion_def Let_def update_conv' split: option.split)

lemma check_admitted_depth:
  assumes "checkAdmission name prio None auth perms bp = (Inr a, bp')"
  shows "totalActiveDepth bp < max (maxCapacity bp) (absolute_buffer bp)"
  using assms
  by (auto simp: checkAdmission_def Let_def next_mode_def split: option.splits if_splits)

section \<open>The depth is bounded\<close>

text \<open>
  What happens to a controller that tracks its own depth: submissions (accepted by the job store
  or not) and completions, in any order.
\<close>

datatype bp_op =
    Submit string priority "auth_context option" "string list option" bool
  | Complete string
  | Reset_metrics

fun bp_step :: "bp_op \<Rightarrow> backpressure \<Rightarrow> backpressure" where
  "bp_step (Submit name prio auth perms stored) bp =
     snd (enqueueWithBackpressure name prio auth perms None (\<lambda>b. (if stored then Some () else None, b)) bp)"
| "bp_step (Complete name) bp = trackCompletion name bp"
| "bp_step Reset_metrics bp = bp_reset bp"

definition bp_ok :: "int \<Rightarrow> backpressure \<Rightarrow> bool" where
  "bp_ok cap bp \<longleftrightarrow> maxCapacity bp = cap \<and> 0 \<le> cap \<and> 0 \<le> totalActiveDepth bp \<and>
     totalActiveDepth bp \<le> max cap (absolute_buffer bp) \<and> length (telemetryEvents bp) \<le> 200"

lemma absolute_buffer_cong: "maxCapacity a = maxCapacity b \<Longrightarrow> absolute_buffer a = absolute_buffer b"
  by (simp add: absolute_buffer_def)

lemma bp_ok_step: "bp_ok cap bp \<Longrightarrow> bp_ok cap (bp_step op bp)"
proof (cases op)
  case (Submit name prio auth perms stored)
  assume ok: "bp_ok cap bp"
  obtain r bp1 where c: "checkAdmission name prio None auth perms bp = (r, bp1)"
    by (cases "checkAdmission name prio None auth perms bp")
  note frame = check_frame [OF c] check_telemetry [OF c]
  have buf: "absolute_buffer bp1 = absolute_buffer bp"
    "absolute_buffer (trackAdmission name bp1) = absolute_buffer bp"
    "absolute_buffer (trackCompletion name (trackAdmission name bp1)) = absolute_buffer bp"
    using frame by (simp_all add: absolute_buffer_def)
  show ?thesis
  proof (cases r)
    case (Inl e)
    then show ?thesis using ok frame buf
      by (simp add: Submit enqueueWithBackpressure_def c bp_ok_def)
  next
    case (Inr a)
    have lt: "totalActiveDepth bp < max (maxCapacity bp) (absolute_buffer bp)"
      using c Inr by (simp add: check_admitted_depth)
    have adm: "bp_ok cap (trackAdmission name bp1)"
      using ok frame lt buf by (simp add: bp_ok_def)
    have "bp_ok cap (trackCompletion name (trackAdmission name bp1))"
      using ok frame buf by (simp add: bp_ok_def)
    with adm show ?thesis by (simp add: Submit enqueueWithBackpressure_def c Inr)
  qed
next
  case (Complete name)
  assume "bp_ok cap bp"
  then show ?thesis
    using absolute_buffer_cong [of "trackCompletion name bp" bp] by (auto simp: Complete bp_ok_def)
next
  case Reset_metrics
  assume "bp_ok cap bp"
  then show ?thesis
    using absolute_buffer_cong [of "bp_reset bp" bp] by (auto simp: Reset_metrics bp_ok_def bp_reset_def)
qed

interpretation controller: op_system "bp_ok cap" bp_step
  by unfold_locales (rule bp_ok_step)

section \<open>Properties\<close>

text \<open>
  A controller that counts its own jobs never holds more of them than its capacity plus the
  five per cent kept for high-priority work, whatever is submitted and completed in whatever
  order, and keeps at most 200 telemetry events.
\<close>

theorem depth_is_bounded:
  assumes "0 \<le> cap"
  shows "let bp = fold bp_step ops (new_backpressure cap hi lo limits retry) in
     0 \<le> totalActiveDepth bp \<and> totalActiveDepth bp \<le> max cap \<lfloor>of_int cap * (105 / 100 :: rat)\<rfloor> \<and>
     length (telemetryEvents bp) \<le> 200"
proof -
  have "bp_ok cap (new_backpressure cap hi lo limits retry)"
    using assms by (simp add: bp_ok_def new_backpressure_def)
  from controller.run_inv [OF this, of ops] show ?thesis
    by (auto simp: Let_def bp_ok_def absolute_buffer_def)
qed

theorem depth_is_bounded_witness:
  "totalActiveDepth (fold bp_step (replicate 5 (Submit ''j'' HIGH None None True))
     (new_backpressure 3 (4 / 5) (1 / 2) [] 30)) \<le> 3"
proof -
  have "\<lfloor>of_int 3 * (105 / 100 :: rat)\<rfloor> = 3" by (rule floor_unique) simp_all
  with depth_is_bounded [of 3 "replicate 5 (Submit ''j'' HIGH None None True)" "4 / 5" "1 / 2" "[]" 30]
  show ?thesis by (simp add: Let_def)
qed

text \<open>
  Exactly when a job is admitted: the caller is authorised, its type is below its own limit,
  and the state after looking at the depth lets its priority through. A rejection for load always
  carries a positive delay and is counted; a rejection of the caller leaves the controller as it is.
\<close>

lemma admission_decided:
  "(\<exists>a. fst (checkAdmission name prio d auth perms bp) = Inr a) \<longleftrightarrow>
     authorize auth perms = None \<and>
     \<not> (\<exists>l. map_of (perJobTypeLimits bp) name = Some l \<and> l \<noteq> 0 \<and> l \<le> int (job_count name bp)) \<and>
     (case next_mode bp (case d of Some n \<Rightarrow> n | None \<Rightarrow> totalActiveDepth bp) of
        Saturated \<Rightarrow> prio = HIGH \<and> (case d of Some n \<Rightarrow> n | None \<Rightarrow> totalActiveDepth bp) < absolute_buffer bp
      | Shedding_low_priority \<Rightarrow> prio \<noteq> LOW
      | Bp_normal \<Rightarrow> True)"
  by (cases "next_mode bp (case d of Some n \<Rightarrow> n | None \<Rightarrow> totalActiveDepth bp)")
     (auto simp: checkAdmission_def Let_def not_le split: option.split)

section \<open>Shedding and recovery\<close>

text \<open>A series of admission checks against externally counted depths.\<close>

definition observe :: "int \<Rightarrow> backpressure \<Rightarrow> backpressure" where
  "observe depth bp = evaluateState (Some depth) bp"

lemma shedding_persists:
  "bp_mode bp \<noteq> Bp_normal \<Longrightarrow> \<forall>d \<in> set ds. lowWaterMark bp < d \<Longrightarrow>
   bp_mode (fold observe ds bp) \<noteq> Bp_normal"
proof (induction ds arbitrary: bp)
  case (Cons d ds)
  have "bp_mode (observe d bp) \<noteq> Bp_normal" using Cons.prems by (auto simp: observe_def next_mode_def)
  moreover have "\<forall>d' \<in> set ds. lowWaterMark (observe d bp) < d'" using Cons.prems by (simp add: observe_def)
  ultimately show ?case using Cons.IH by simp
qed simp

lemma fold_observe_frame:
  "maxCapacity (fold observe ds bp) = maxCapacity bp" "highWaterMark (fold observe ds bp) = highWaterMark bp"
  "lowWaterMark (fold observe ds bp) = lowWaterMark bp"
  by (induction ds arbitrary: bp) (simp_all add: observe_def)

text \<open>
  Recovery has hysteresis: once a depth at or above the high mark was seen, low-priority work
  is rejected for as long as every depth seen stays above the low mark, and the first depth at or
  below it lets all priorities in again.
\<close>

theorem recovery_at_low_mark_only:
  assumes "highWaterMark bp \<le> d0" "lowWaterMark bp < d0" "\<forall>d' \<in> set ds. lowWaterMark bp < d'"
    "lowWaterMark bp < d" "low \<le> lowWaterMark bp" "low < highWaterMark bp" "low < maxCapacity bp"
  shows "next_mode (fold observe (d0 # ds) bp) d \<noteq> Bp_normal \<and>
    (\<nexists>a. fst (checkAdmission name LOW (Some d) auth perms (fold observe (d0 # ds) bp)) = Inr a) \<and>
    next_mode (fold observe (d0 # ds) bp) low = Bp_normal"
proof -
  let ?bp = "fold observe (d0 # ds) bp"
  have "bp_mode (observe d0 bp) \<noteq> Bp_normal" using assms by (auto simp: observe_def next_mode_def)
  then have "bp_mode (fold observe ds (observe d0 bp)) \<noteq> Bp_normal"
    by (rule shedding_persists) (use assms in \<open>simp add: observe_def\<close>)
  then have mode: "next_mode ?bp d \<noteq> Bp_normal"
    using assms fold_observe_frame [of "d0 # ds" bp] by (auto simp: next_mode_def)
  then have "\<nexists>a. fst (checkAdmission name LOW (Some d) auth perms ?bp) = Inr a"
    by (cases "next_mode ?bp d") (auto simp: checkAdmission_def Let_def split: option.split)
  moreover have "next_mode ?bp low = Bp_normal"
    using assms fold_observe_frame [of "d0 # ds" bp] by (auto simp: next_mode_def)
  ultimately show ?thesis using mode by blast
qed

theorem recovery_at_low_mark_only_witness:
  "next_mode (fold observe [165, 150, 120] globalQueueBackpressure) 101 \<noteq> Bp_normal \<and>
   next_mode (fold observe [165, 150, 120] globalQueueBackpressure) 100 = Bp_normal"
proof -
  have "\<lfloor>of_int 200 * (4 / 5 :: rat)\<rfloor> = 160" "\<lfloor>of_int 200 * (1 / 2 :: rat)\<rfloor> = 100" by simp_all
  then have "highWaterMark globalQueueBackpressure = 160" "lowWaterMark globalQueueBackpressure = 100"
    "maxCapacity globalQueueBackpressure = 200"
    by (simp_all add: globalQueueBackpressure_def new_backpressure_def)
  then show ?thesis
    using recovery_at_low_mark_only [of globalQueueBackpressure 165 "[150, 120]" 101 100 "''j''" None None]
    by simp
qed

section \<open>Completions are not reported\<close>

text \<open>
  \<open>trackCompletion\<close> is called where storing a job fails and nowhere else in the repository: the
  workers that finish jobs do not report to the controller. So a process only performs
  submissions, against the number of jobs in the database.
\<close>

definition submit_db :: "string \<Rightarrow> priority \<times> int \<Rightarrow> backpressure \<Rightarrow> backpressure" where
  "submit_db name r bp = snd (enqueueWithBackpressure name (fst r) None None (Some (Some (snd r)))
     (\<lambda>b. (Some (), b)) bp)"

definition accepted :: "string \<Rightarrow> priority \<times> int \<Rightarrow> backpressure \<Rightarrow> bool" where
  "accepted name r bp \<longleftrightarrow> (case fst (enqueueWithBackpressure name (fst r) None None (Some (Some (snd r)))
     (\<lambda>b. (Some (), b)) bp) of Inr _ \<Rightarrow> True | Inl _ \<Rightarrow> False)"

lemma submit_db_frame:
  "perJobTypeLimits (submit_db name r bp) = perJobTypeLimits bp \<and>
   job_count name (submit_db name r bp) = job_count name bp + (if accepted name r bp then 1 else 0)"
proof -
  obtain x bp1 where c: "checkAdmission name (fst r) (Some (snd r)) None None bp = (x, bp1)"
    by (cases "checkAdmission name (fst r) (Some (snd r)) None None bp")
  have "job_count name bp1 = job_count name bp" by (simp add: job_count_def check_frame [OF c])
  then show ?thesis using check_frame [OF c]
    by (cases x) (simp_all add: submit_db_def accepted_def enqueueWithBackpressure_def c job_count_trackAdmission)
qed

lemma submits_never_release:
  "perJobTypeLimits (fold (submit_db name) rs bp) = perJobTypeLimits bp \<and>
   job_count name bp \<le> job_count name (fold (submit_db name) rs bp)"
proof (induction rs arbitrary: bp)
  case (Cons r rs)
  show ?case using Cons.IH [of "submit_db name r bp"] submit_db_frame [of name r bp] by auto
qed simp

text \<open>
  Once a job type has reached its limit, every later submission of that type is rejected,
  however empty the database queue is by then: the limit meant for concurrent jobs counts all jobs
  of the process's life.
\<close>

theorem job_type_limit_never_released:
  assumes "map_of (perJobTypeLimits bp) name = Some l" "0 < l" "l \<le> int (job_count name bp)"
  shows "\<not> accepted name r (fold (submit_db name) rs bp)"
proof -
  let ?bp = "fold (submit_db name) rs bp"
  have "map_of (perJobTypeLimits ?bp) name = Some l" "l \<le> int (job_count name ?bp)"
    using assms submits_never_release [where name = name and rs = rs and bp = bp] by auto
  then show ?thesis using assms(2)
    by (simp add: accepted_def enqueueWithBackpressure_def checkAdmission_def authorize_def Let_def)
qed

theorem job_type_limit_never_released_witness:
  "\<not> accepted ''gc'' (HIGH, 0) (fold (submit_db ''gc'') [(NORMAL, 0), (NORMAL, 0)]
     (trackAdmission ''gc'' (new_backpressure 200 (4 / 5) (1 / 2) [(''gc'', 1)] 30)))"
  by (rule job_type_limit_never_released [where l = 1])
     (simp_all add: new_backpressure_def job_count_trackAdmission)

end
