(* ===== verification/BalanceReconciler.thy ===== *)
theory BalanceReconciler
  imports Prelude "HOL-Library.Multiset" "HOL-Library.Product_Lexorder" "HOL-Library.List_Lexorder" "HOL-Library.Char_ord"
begin

text \<open>
  \<open>src/lib/reconciliation/balanceReconciler.js\<close>: the read-only comparison of the ledger, the
  database projections and the user-facing balances. A raw entry gives, for every property that
  is read, the list of the values of its alternative names in the order the code tries them
  (\<open>None\<close> for undefined or null); amounts are what \<open>Number(...)\<close> makes of them, times are parsed.
  The texts of the repair hints and the rendering of the report are not modelled.
\<close>

section \<open>Inputs\<close>

datatype category = Missing | Duplicate | Stale | Inconsistent

definition DRIFT_CATEGORIES :: "category list" where
  "DRIFT_CATEGORIES = [Missing, Duplicate, Stale, Inconsistent]"

definition PENDING_DB_STATUSES :: "string list" where
  "PENDING_DB_STATUSES = [''pending'', ''processing'', ''indexing'', ''requires_payment'', ''awaiting_confirmation'']"

record thresholds =
  stalePendingMs :: rat
  staleSnapshotMs :: rat

definition MS_PER_HOUR :: rat where "MS_PER_HOUR = 60 * 60 * 1000"

definition DEFAULT_THRESHOLDS :: thresholds where
  "DEFAULT_THRESHOLDS = \<lparr>stalePendingMs = 24 * 60 * 60 * 1000, staleSnapshotMs = 60 * 60 * 1000\<rparr>"

definition AMOUNT_PRECISION :: rat where "AMOUNT_PRECISION = 10 ^ 7"

definition roundAmount :: "jsnum option \<Rightarrow> rat" where
  "roundAmount v = (case v of Some (Fin n) \<Rightarrow> of_int (js_round (n * AMOUNT_PRECISION)) / AMOUNT_PRECISION | _ \<Rightarrow> 0)"

text \<open>The first value that is there and not the empty string.\<close>

fun firstDefined :: "string option list \<Rightarrow> string option" where
  "firstDefined [] = None"
| "firstDefined (v # vs) = (if truthy v then v else firstDefined vs)"

text \<open>A chain of \<open>??\<close>.\<close>

fun coalesce :: "'a option list \<Rightarrow> 'a option" where
  "coalesce [] = None"
| "coalesce (Some x # vs) = Some x"
| "coalesce (None # vs) = coalesce vs"

record raw_ledger =
  rl_ids :: "string option list"
  rl_accounts :: "string option list"
  rl_assets :: "string option list"
  rl_amount :: "jsnum option"
  rl_credit :: "jsnum option"
  rl_debit :: "jsnum option"
  rl_times :: "int option list"

record raw_record =
  rr_ids :: "string option list"
  rr_ledgerIds :: "string option list"
  rr_accounts :: "string option list"
  rr_assets :: "string option list"
  rr_amounts :: "jsnum option list"
  rr_status :: "string option"
  rr_times :: "int option list"

record raw_balance =
  rb_ids :: "string option list"
  rb_accounts :: "string option list"
  rb_assets :: "string option list"
  rb_balances :: "jsnum option list"
  rb_times :: "int option list"

record ledger_entry =
  le_id :: string
  le_account :: string
  le_asset :: string
  le_amount :: rat
  le_timestamp :: "int option"

record db_record =
  db_id :: string
  db_ledgerId :: "string option"
  db_account :: string
  db_asset :: string
  db_amount :: rat
  db_status :: "string option"
  db_updatedAt :: "int option"

record user_balance =
  ub_id :: string
  ub_account :: string
  ub_asset :: string
  ub_balance :: rat
  ub_updatedAt :: "int option"

definition ledgerNetAmount :: "raw_ledger \<Rightarrow> rat" where
  "ledgerNetAmount e =
     (if rl_amount e \<noteq> None then roundAmount (rl_amount e)
      else roundAmount (Some (Fin (roundAmount (rl_credit e) - roundAmount (rl_debit e)))))"

definition first_or :: "string option list \<Rightarrow> string \<Rightarrow> string" where
  "first_or vs d = (case firstDefined vs of Some v \<Rightarrow> v | None \<Rightarrow> d)"

definition normalizeLedger :: "nat \<Rightarrow> raw_ledger \<Rightarrow> ledger_entry" where
  "normalizeLedger index e =
     \<lparr>le_id = first_or (rl_ids e) (''ledger-'' @ nat_str index), le_account = first_or (rl_accounts e) ''unknown'',
      le_asset = first_or (rl_assets e) ''native'', le_amount = ledgerNetAmount e,
      le_timestamp = coalesce (rl_times e)\<rparr>"

definition normalizeDbRecord :: "nat \<Rightarrow> raw_record \<Rightarrow> db_record" where
  "normalizeDbRecord index r =
     \<lparr>db_id = first_or (rr_ids r) (''db-'' @ nat_str index), db_ledgerId = firstDefined (rr_ledgerIds r),
      db_account = first_or (rr_accounts r) ''unknown'', db_asset = first_or (rr_assets r) ''native'',
      db_amount = roundAmount (coalesce (rr_amounts r)),
      db_status = (if truthy (rr_status r) then rr_status r else None),
      db_updatedAt = coalesce (rr_times r)\<rparr>"

definition normalizeUserBalance :: "nat \<Rightarrow> raw_balance \<Rightarrow> user_balance" where
  "normalizeUserBalance index b =
     \<lparr>ub_id = first_or (rb_ids b) (''balance-'' @ nat_str index), ub_account = first_or (rb_accounts b) ''unknown'',
      ub_asset = first_or (rb_assets b) ''native'', ub_balance = roundAmount (coalesce (rb_balances b)),
      ub_updatedAt = coalesce (rb_times b)\<rparr>"

definition map_index :: "(nat \<Rightarrow> 'a \<Rightarrow> 'b) \<Rightarrow> 'a list \<Rightarrow> 'b list" where
  "map_index f xs = map (\<lambda>(i, x). f i x) (zip [0..<length xs] xs)"

definition keyOf :: "string \<Rightarrow> string \<Rightarrow> string" where
  "keyOf acct asset = acct @ ''::'' @ asset"

text \<open>\<open>key.split('::')\<close>: the piece before the first separator, and what follows it.\<close>

fun piece :: "string \<Rightarrow> string" where
  "piece [] = []"
| "piece (c # s) = (if starts_with (c # s) ''::'' then [] else c # piece s)"

definition rest_of :: "string \<Rightarrow> string" where
  "rest_of s = drop (length (piece s) + 2) s"

record threshold_input =
  ti_stalePendingMs :: "jsnum option"
  ti_stalePendingHours :: "jsnum option"
  ti_staleSnapshotMs :: "jsnum option"
  ti_staleSnapshotHours :: "jsnum option"

definition valid_threshold :: "jsnum option \<Rightarrow> rat option" where
  "valid_threshold v = (case v of Some (Fin x) \<Rightarrow> if 0 \<le> x then Some x else None | _ \<Rightarrow> None)"

definition resolveThresholds :: "threshold_input \<Rightarrow> thresholds" where
  "resolveThresholds t =
     (let a = (case valid_threshold (ti_stalePendingMs t) of Some x \<Rightarrow> x | None \<Rightarrow> stalePendingMs DEFAULT_THRESHOLDS);
          a' = (case valid_threshold (ti_stalePendingHours t) of Some x \<Rightarrow> x * MS_PER_HOUR | None \<Rightarrow> a);
          b = (case valid_threshold (ti_staleSnapshotMs t) of Some x \<Rightarrow> x | None \<Rightarrow> staleSnapshotMs DEFAULT_THRESHOLDS);
          b' = (case valid_threshold (ti_staleSnapshotHours t) of Some x \<Rightarrow> x * MS_PER_HOUR | None \<Rightarrow> b)
      in \<lparr>stalePendingMs = a', staleSnapshotMs = b'\<rparr>)"

definition push :: "'k \<Rightarrow> 'a \<Rightarrow> ('k \<times> 'a list) list \<Rightarrow> ('k \<times> 'a list) list" where
  "push k x m = AList.update k ((case map_of m k of Some xs \<Rightarrow> xs | None \<Rightarrow> []) @ [x]) m"

definition groupBy :: "('a \<Rightarrow> 'k option) \<Rightarrow> 'a list \<Rightarrow> ('k \<times> 'a list) list" where
  "groupBy f xs = fold (\<lambda>x m. case f x of None \<Rightarrow> m | Some k \<Rightarrow> push k x m) xs []"

section \<open>Findings\<close>

record drift_finding =
  fd_category :: category
  fd_kind :: string
  fd_id :: "string option"
  fd_ledgerId :: "string option"
  fd_account :: "string option"
  fd_asset :: "string option"
  fd_ledgerAmount :: "rat option"
  fd_dbAmount :: "rat option"
  fd_balanceAmount :: "rat option"

definition finding_of ::
  "category \<Rightarrow> string \<Rightarrow> string option \<Rightarrow> string option \<Rightarrow> string \<Rightarrow> string \<Rightarrow>
   rat option \<Rightarrow> rat option \<Rightarrow> rat option \<Rightarrow> drift_finding" where
  "finding_of c k i l acct asset la da ba = \<lparr>fd_category = c, fd_kind = k, fd_id = i, fd_ledgerId = l,
     fd_account = Some acct, fd_asset = Some asset, fd_ledgerAmount = la, fd_dbAmount = da, fd_balanceAmount = ba\<rparr>"

definition duplicate_findings :: "ledger_entry list \<Rightarrow> db_record list \<Rightarrow> drift_finding list" where
  "duplicate_findings ledger db =
     List.map_filter (\<lambda>(i, es). if 1 < length es
        then Some (finding_of Duplicate ''ledger_entry'' (Some i) None (le_account (hd es)) (le_asset (hd es))
               (Some (sum_list (map le_amount es))) None None) else None) (groupBy (\<lambda>e. Some (le_id e)) ledger) @
     List.map_filter (\<lambda>(i, rs). if 1 < length rs
        then Some (finding_of Duplicate ''db_record'' (Some i) None (db_account (hd rs)) (db_asset (hd rs))
               None (Some (sum_list (map db_amount rs))) None) else None) (groupBy (\<lambda>r. Some (db_id r)) db) @
     List.map_filter (\<lambda>(l, rs). if l \<noteq> [] \<and> 1 < length rs
        then Some (finding_of Duplicate ''db_ledger_ref'' None (Some l) (db_account (hd rs)) (db_asset (hd rs))
               None (Some (sum_list (map db_amount rs))) None) else None) (groupBy db_ledgerId db)"

definition missing_findings :: "ledger_entry list \<Rightarrow> db_record list \<Rightarrow> drift_finding list" where
  "missing_findings ledger db =
     (let ledgerById = groupBy (\<lambda>e. Some (le_id e)) ledger; dbByLedgerId = groupBy db_ledgerId db in
      List.map_filter (\<lambda>e.
        if (case map_of ledgerById (le_id e) of Some es \<Rightarrow> 1 < length es | None \<Rightarrow> False) then None
        else if map_of dbByLedgerId (le_id e) = None
        then Some (finding_of Missing ''db_record'' (Some (le_id e)) (Some (le_id e)) (le_account e) (le_asset e)
               (Some (le_amount e)) None None) else None) ledger @
      List.map_filter (\<lambda>r. case db_ledgerId r of
          None \<Rightarrow> Some (finding_of Missing ''ledger_entry'' (Some (db_id r)) None (db_account r) (db_asset r)
                    None (Some (db_amount r)) None)
        | Some l \<Rightarrow> if map_of ledgerById l = None
            then Some (finding_of Missing ''ledger_entry'' (Some (db_id r)) (Some l) (db_account r) (db_asset r)
                    None (Some (db_amount r)) None) else None) db)"

definition latest_time :: "ledger_entry list \<Rightarrow> int option" where
  "latest_time ledger = foldl (\<lambda>m e. case le_timestamp e of
       None \<Rightarrow> m
     | Some t \<Rightarrow> (case m of None \<Rightarrow> Some t | Some u \<Rightarrow> if u < t then Some t else Some u)) None ledger"

definition stale_findings ::
  "thresholds \<Rightarrow> int \<Rightarrow> ledger_entry list \<Rightarrow> db_record list \<Rightarrow> user_balance list \<Rightarrow> drift_finding list" where
  "stale_findings th now ledger db balances =
     List.map_filter (\<lambda>r. case (db_status r, db_updatedAt r) of
         (Some st, Some u) \<Rightarrow>
           if st \<in> set PENDING_DB_STATUSES \<and> \<not> of_int (now - u) \<le> stalePendingMs th
           then Some (finding_of Stale ''pending_db_record'' (Some (db_id r)) (db_ledgerId r) (db_account r)
                  (db_asset r) None (Some (db_amount r)) None) else None
       | _ \<Rightarrow> None) db @
     (case latest_time ledger of
        None \<Rightarrow> []
      | Some latest \<Rightarrow>
          List.map_filter (\<lambda>b. case ub_updatedAt b of
              None \<Rightarrow> None
            | Some u \<Rightarrow> if of_int (latest - u) \<le> staleSnapshotMs th then None
                else Some (finding_of Stale ''balance_snapshot'' (Some (ub_id b)) None (ub_account b) (ub_asset b)
                       None None (Some (ub_balance b)))) balances)"

definition mismatch_findings :: "ledger_entry list \<Rightarrow> db_record list \<Rightarrow> drift_finding list" where
  "mismatch_findings ledger db =
     (let ledgerById = groupBy (\<lambda>e. Some (le_id e)) ledger in
      List.map_filter (\<lambda>(l, rs). case (map_of ledgerById l, rs) of
          (Some [e], [r]) \<Rightarrow>
            if db_amount r \<noteq> le_amount e \<or> db_account r \<noteq> le_account e \<or> db_asset r \<noteq> le_asset e
            then Some (finding_of Inconsistent ''matched_record'' (Some (db_id r)) (Some l) (le_account e) (le_asset e)
                   (Some (le_amount e)) (Some (db_amount r)) None) else None
        | _ \<Rightarrow> None) (groupBy db_ledgerId db))"

text \<open>The rollup: the net per account and asset.\<close>

definition add_net :: "string \<Rightarrow> rat \<Rightarrow> (string \<times> rat) list \<Rightarrow> (string \<times> rat) list" where
  "add_net k a m = AList.update k (roundAmount (Some (Fin ((case map_of m k of Some x \<Rightarrow> x | None \<Rightarrow> 0) + a)))) m"

definition net_by :: "('a \<Rightarrow> string) \<Rightarrow> ('a \<Rightarrow> rat) \<Rightarrow> 'a list \<Rightarrow> (string \<times> rat) list" where
  "net_by key amount xs = fold (\<lambda>x. add_net (key x) (amount x)) xs []"

definition rollup_findings :: "ledger_entry list \<Rightarrow> db_record list \<Rightarrow> user_balance list \<Rightarrow> drift_finding list" where
  "rollup_findings ledger db balances =
     (let ledgerNet = net_by (\<lambda>e. keyOf (le_account e) (le_asset e)) le_amount ledger;
          dbNet = net_by (\<lambda>r. keyOf (db_account r) (db_asset r)) db_amount db;
          userNet = net_by (\<lambda>b. keyOf (ub_account b) (ub_asset b)) ub_balance balances in
      concat (map (\<lambda>(key, total).
        (case map_of dbNet key of
           Some n \<Rightarrow> if n \<noteq> total then [finding_of Inconsistent ''db_balance'' None None (piece key)
                      (piece (rest_of key)) (Some total) (Some n) None] else []
         | None \<Rightarrow> []) @
        (case map_of userNet key of
           Some n \<Rightarrow> if n \<noteq> total then [finding_of Inconsistent ''user_balance'' None None (piece key)
                      (piece (rest_of key)) (Some total) None (Some n)] else []
         | None \<Rightarrow> [])) ledgerNet))"

section \<open>The report\<close>

fun category_index :: "category \<Rightarrow> nat" where
  "category_index Missing = 0"
| "category_index Duplicate = 1"
| "category_index Stale = 2"
| "category_index Inconsistent = 3"

definition label_of :: "drift_finding \<Rightarrow> string" where
  "label_of f = (case fd_id f of
       Some i \<Rightarrow> i
     | None \<Rightarrow> (case fd_ledgerId f of
           Some l \<Rightarrow> l
         | None \<Rightarrow> (case fd_account f of Some a \<Rightarrow> a | None \<Rightarrow> ''null'') @ ''/'' @
                   (case fd_asset f of Some a \<Rightarrow> a | None \<Rightarrow> ''null'')))"

record drift_report =
  rp_clean :: bool
  rp_ledgerEntries :: nat
  rp_dbRecords :: nat
  rp_userBalances :: nat
  rp_total :: nat
  rp_categories :: "(category \<times> drift_finding list) list"
  rp_stalePendingHours :: rat
  rp_staleSnapshotHours :: rat
  rp_findings :: "drift_finding list"

text \<open>
  \<open>collate\<close> is the sort key of \<open>localeCompare\<close>. The three inputs are the arrays after \<open>asArray\<close>.
\<close>

definition all_findings ::
  "thresholds \<Rightarrow> int \<Rightarrow> ledger_entry list \<Rightarrow> db_record list \<Rightarrow> user_balance list \<Rightarrow> drift_finding list" where
  "all_findings th now ledger db balances =
     duplicate_findings ledger db @ missing_findings ledger db @ stale_findings th now ledger db balances @
     mismatch_findings ledger db @ rollup_findings ledger db balances"

definition reconcileBalances ::
  "(string \<Rightarrow> string) \<Rightarrow> raw_ledger list \<Rightarrow> raw_record list \<Rightarrow> raw_balance list \<Rightarrow> int \<Rightarrow> threshold_input \<Rightarrow> drift_report" where
  "reconcileBalances collate ledgerEntries dbRecords userBalances now ti =
     (let th = resolveThresholds ti;
          ledger = map_index normalizeLedger ledgerEntries;
          db = map_index normalizeDbRecord dbRecords;
          balances = map_index normalizeUserBalance userBalances;
          findings = sort_key (\<lambda>f. (category_index (fd_category f), fd_kind f, collate (label_of f)))
            (all_findings th now ledger db balances)
      in \<lparr>rp_clean = (length findings = 0), rp_ledgerEntries = length ledger, rp_dbRecords = length db,
          rp_userBalances = length balances, rp_total = length findings,
          rp_categories = map (\<lambda>c. (c, filter (\<lambda>f. fd_category f = c) findings)) DRIFT_CATEGORIES,
          rp_stalePendingHours = stalePendingMs th / MS_PER_HOUR,
          rp_staleSnapshotHours = staleSnapshotMs th / MS_PER_HOUR, rp_findings = findings\<rparr>)"


section \<open>Grouping and netting\<close>

lemma map_filter_Nil_iff: "List.map_filter f xs = [] \<longleftrightarrow> (\<forall>x \<in> set xs. f x = None)"
  by (induction xs) (auto simp: List.map_filter_def)

lemma groupBy_snoc: "groupBy f (xs @ [x]) = (case f x of None \<Rightarrow> groupBy f xs | Some k \<Rightarrow> push k x (groupBy f xs))"
  by (simp add: groupBy_def split: option.split)

lemma groupBy_lookup:
  "map_of (groupBy f xs) k =
     (if \<exists>x \<in> set xs. f x = Some k then Some (filter (\<lambda>x. f x = Some k) xs) else None)"
proof (induction xs rule: rev_induct)
  case Nil
  then show ?case by (simp add: groupBy_def)
next
  case (snoc x xs)
  have none: "filter (\<lambda>x. f x = Some k) xs = []" if "\<not> (\<exists>x \<in> set xs. f x = Some k)"
    using that by (auto simp: filter_empty_conv)
  show ?case
  proof (cases "f x = Some k")
    case True
    then show ?thesis
      by (cases "\<exists>x \<in> set xs. f x = Some k") (simp_all add: groupBy_snoc push_def update_conv' snoc.IH none)
  next
    case False
    then show ?thesis
      by (cases "f x") (simp_all add: groupBy_snoc push_def update_conv' snoc.IH)
  qed
qed

lemma groupBy_distinct: "distinct (keys (groupBy f xs))"
  by (induction xs rule: rev_induct) (simp add: groupBy_def, simp add: groupBy_snoc push_def split: option.split)

lemma groupBy_mem: "(k, ys) \<in> set (groupBy f xs) \<longleftrightarrow> ys = filter (\<lambda>x. f x = Some k) xs \<and> (\<exists>x \<in> set xs. f x = Some k)"
  unfolding map_of_eq_Some_iff [OF groupBy_distinct, symmetric] groupBy_lookup by auto

lemma short_groups_distinct:
  "(\<forall>k. length (filter (\<lambda>x. f x = k) xs) \<le> 1) \<longleftrightarrow> distinct (map f xs)"
proof (induction xs)
  case (Cons x xs)
  show ?case
  proof
    assume a: "\<forall>k. length (filter (\<lambda>y. f y = k) (x # xs)) \<le> 1"
    then have "length (filter (\<lambda>y. f y = k) xs) \<le> 1" for k by (metis filter.simps(2) le_trans length_Cons lessI less_imp_le_nat)
    moreover have "filter (\<lambda>y. f y = f x) xs = []" using a [rule_format, of "f x"] by simp
    ultimately show "distinct (map f (x # xs))" using Cons.IH by (auto simp: filter_empty_conv)
  next
    assume a: "distinct (map f (x # xs))"
    have "filter (\<lambda>y. f y = f x) xs = []" using a by (auto simp: filter_empty_conv image_iff)
    with a Cons.IH show "\<forall>k. length (filter (\<lambda>y. f y = k) (x # xs)) \<le> 1" by simp
  qed
qed simp

definition on_grid :: "rat \<Rightarrow> bool" where
  "on_grid x \<longleftrightarrow> (\<exists>m. x = of_int m / AMOUNT_PRECISION)"

lemma prec_pos [simp]: "AMOUNT_PRECISION \<noteq> 0" "0 < AMOUNT_PRECISION"
  by (simp_all add: AMOUNT_PRECISION_def)

lemma on_grid_round: "on_grid x \<Longrightarrow> roundAmount (Some (Fin x)) = x"
  by (auto simp: on_grid_def roundAmount_def)

lemma on_grid_0 [simp]: "on_grid 0"
  unfolding on_grid_def by (intro exI [where x = 0]) simp

lemma on_grid_add: "on_grid x \<Longrightarrow> on_grid y \<Longrightarrow> on_grid (x + y)"
  unfolding on_grid_def by (metis add_divide_distrib of_int_add)

lemma on_grid_roundAmount [simp]: "on_grid (roundAmount v)"
  by (auto simp: roundAmount_def on_grid_def split: option.split jsnum.split intro: exI [where x = 0])

lemma on_grid_sum: "\<forall>x \<in> set xs. on_grid (f x) \<Longrightarrow> on_grid (sum_list (map f xs))"
  by (induction xs) (auto intro: on_grid_add)

lemma net_by_lookup:
  "\<forall>x \<in> set xs. on_grid (amount x) \<Longrightarrow>
   map_of (net_by key amount xs) k =
     (if \<exists>x \<in> set xs. key x = k then Some (sum_list (map amount (filter (\<lambda>x. key x = k) xs))) else None)"
proof (induction xs rule: rev_induct)
  case Nil
  then show ?case by (simp add: net_by_def)
next
  case (snoc x xs)
  have step: "net_by key amount (xs @ [x]) = add_net (key x) (amount x) (net_by key amount xs)"
    by (simp add: net_by_def)
  have none: "filter (\<lambda>x. key x = k) xs = []" if "\<not> (\<exists>x \<in> set xs. key x = k)"
    using that by (auto simp: filter_empty_conv)
  have grid: "on_grid (sum_list (map amount (filter (\<lambda>x. key x = k) xs)) + amount x)"
    using snoc.prems by (intro on_grid_add on_grid_sum) auto
  have grid': "on_grid (amount x)" using snoc.prems by simp
  from snoc show ?case
    using on_grid_round [OF grid] on_grid_round [OF grid']
    by (auto simp: step add_net_def update_conv' none)
qed

lemma net_by_distinct: "distinct (keys (net_by key amount xs))"
  by (induction xs rule: rev_induct) (simp_all add: net_by_def add_net_def)


section \<open>When each group of findings is empty\<close>

definition entry_view :: "ledger_entry \<Rightarrow> string option \<times> string \<times> string \<times> rat" where
  "entry_view e = (Some (le_id e), le_account e, le_asset e, le_amount e)"

definition record_view :: "db_record \<Rightarrow> string option \<times> string \<times> string \<times> rat" where
  "record_view r = (db_ledgerId r, db_account r, db_asset r, db_amount r)"

lemma duplicate_Nil_iff:
  assumes "\<forall>r \<in> set db. db_ledgerId r \<noteq> Some []"
  shows "duplicate_findings ledger db = [] \<longleftrightarrow> distinct (map le_id ledger) \<and> distinct (map db_id db) \<and>
     (\<forall>l. length (filter (\<lambda>r. db_ledgerId r = Some l) db) \<le> 1)"
proof -
  have group: "(\<forall>g \<in> set (groupBy f xs). \<not> 1 < length (snd g)) \<longleftrightarrow>
      (\<forall>k. length (filter (\<lambda>x. f x = Some k) xs) \<le> 1)" for f :: "'a \<Rightarrow> 'b option" and xs
  proof
    assume a: "\<forall>g \<in> set (groupBy f xs). \<not> 1 < length (snd g)"
    show "\<forall>k. length (filter (\<lambda>x. f x = Some k) xs) \<le> 1"
    proof
      fix k show "length (filter (\<lambda>x. f x = Some k) xs) \<le> 1"
      proof (cases "\<exists>x \<in> set xs. f x = Some k")
        case True
        then have "(k, filter (\<lambda>x. f x = Some k) xs) \<in> set (groupBy f xs)" by (simp add: groupBy_mem)
        with a show ?thesis by force
      next
        case False
        then show ?thesis by (auto simp: filter_empty_conv [symmetric])
      qed
    qed
  next
    assume "\<forall>k. length (filter (\<lambda>x. f x = Some k) xs) \<le> 1"
    then show "\<forall>g \<in> set (groupBy f xs). \<not> 1 < length (snd g)" by (auto simp: groupBy_mem not_less)
  qed
  have ne: "l \<noteq> []" if "(l, rs) \<in> set (groupBy db_ledgerId db)" for l rs
    using that assms by (auto simp: groupBy_mem)
  have all: "duplicate_findings ledger db = [] \<longleftrightarrow>
      (\<forall>g \<in> set (groupBy (\<lambda>e. Some (le_id e)) ledger). \<not> 1 < length (snd g)) \<and>
      (\<forall>g \<in> set (groupBy (\<lambda>r. Some (db_id r)) db). \<not> 1 < length (snd g)) \<and>
      (\<forall>g \<in> set (groupBy db_ledgerId db). \<not> 1 < length (snd g))"
    using ne by (fastforce simp: duplicate_findings_def map_filter_Nil_iff split: if_splits)
  show ?thesis
    unfolding all group option.inject short_groups_distinct ..
qed

lemma missing_Nil_iff:
  assumes "distinct (map le_id ledger)"
  shows "missing_findings ledger db = [] \<longleftrightarrow>
     (\<forall>e \<in> set ledger. \<exists>r \<in> set db. db_ledgerId r = Some (le_id e)) \<and>
     (\<forall>r \<in> set db. \<exists>e \<in> set ledger. db_ledgerId r = Some (le_id e))"
proof -
  have "length (filter (\<lambda>e. le_id e = i) ledger) \<le> 1" for i
    using assms short_groups_distinct [of le_id ledger] by simp
  then have single: "\<not> Suc 0 < length (filter (\<lambda>e. le_id e = i) ledger)" for i by (simp add: not_less)
  show ?thesis
    by (auto simp: missing_findings_def Let_def map_filter_Nil_iff groupBy_lookup single
        split: option.split if_splits) (metis option.exhaust)
qed

lemma mismatch_Nil_iff:
  assumes "distinct (map le_id ledger)" "\<forall>l. length (filter (\<lambda>r. db_ledgerId r = Some l) db) \<le> 1"
    "\<forall>r \<in> set db. \<exists>e \<in> set ledger. db_ledgerId r = Some (le_id e)"
  shows "mismatch_findings ledger db = [] \<longleftrightarrow>
     (\<forall>r \<in> set db. \<forall>e \<in> set ledger. db_ledgerId r = Some (le_id e) \<longrightarrow> record_view r = entry_view e)"
proof -
  have entry: "filter (\<lambda>x. le_id x = le_id e) ledger = [e]" if "e \<in> set ledger" for e
  proof -
    have "length (filter (\<lambda>x. le_id x = le_id e) ledger) \<le> 1"
      using assms(1) short_groups_distinct [of le_id ledger] by simp
    moreover have "e \<in> set (filter (\<lambda>x. le_id x = le_id e) ledger)" using that by simp
    ultimately show ?thesis by (cases "filter (\<lambda>x. le_id x = le_id e) ledger") auto
  qed
  have rec: "filter (\<lambda>x. db_ledgerId x = Some l) db = [r]" if "r \<in> set db" "db_ledgerId r = Some l" for r l
  proof -
    have "length (filter (\<lambda>x. db_ledgerId x = Some l) db) \<le> 1" using assms(2) by blast
    moreover have "r \<in> set (filter (\<lambda>x. db_ledgerId x = Some l) db)" using that by simp
    ultimately show ?thesis by (cases "filter (\<lambda>x. db_ledgerId x = Some l) db") auto
  qed
  let ?report = "\<lambda>(l, rs). case (map_of (groupBy (\<lambda>e. Some (le_id e)) ledger) l, rs) of
          (Some [e], [r]) \<Rightarrow>
            if db_amount r \<noteq> le_amount e \<or> db_account r \<noteq> le_account e \<or> db_asset r \<noteq> le_asset e
            then Some (finding_of Inconsistent ''matched_record'' (Some (db_id r)) (Some l) (le_account e) (le_asset e)
                   (Some (le_amount e)) (Some (db_amount r)) None) else None
        | _ \<Rightarrow> None"
  have one: "?report (l, filter (\<lambda>x. db_ledgerId x = Some l) db) = None \<longleftrightarrow> record_view r = entry_view e"
    if "r \<in> set db" "e \<in> set ledger" "db_ledgerId r = Some l" "l = le_id e" for r e l
  proof -
    have "map_of (groupBy (\<lambda>e. Some (le_id e)) ledger) l = Some [e]"
      using that entry [of e] by (auto simp: groupBy_lookup)
    with that rec [of r l] show ?thesis by (auto simp: record_view_def entry_view_def)
  qed
  show ?thesis
  proof
    assume nil: "mismatch_findings ledger db = []"
    show "\<forall>r \<in> set db. \<forall>e \<in> set ledger. db_ledgerId r = Some (le_id e) \<longrightarrow> record_view r = entry_view e"
    proof (intro ballI impI)
      fix r e assume r: "r \<in> set db" "e \<in> set ledger" "db_ledgerId r = Some (le_id e)"
      then have "(le_id e, filter (\<lambda>x. db_ledgerId x = Some (le_id e)) db) \<in> set (groupBy db_ledgerId db)"
        by (auto simp: groupBy_mem)
      then have "?report (le_id e, filter (\<lambda>x. db_ledgerId x = Some (le_id e)) db) = None"
        using nil unfolding mismatch_findings_def Let_def map_filter_Nil_iff by blast
      with one [OF r refl] show "record_view r = entry_view e" by blast
    qed
  next
    assume all: "\<forall>r \<in> set db. \<forall>e \<in> set ledger. db_ledgerId r = Some (le_id e) \<longrightarrow> record_view r = entry_view e"
    have "?report g = None" if mem: "g \<in> set (groupBy db_ledgerId db)" for g
    proof -
      obtain l where g: "g = (l, filter (\<lambda>x. db_ledgerId x = Some l) db)" "\<exists>r \<in> set db. db_ledgerId r = Some l"
        using mem groupBy_mem [of "fst g" "snd g" db_ledgerId db] by (metis prod.collapse)
      then obtain r e where re: "r \<in> set db" "db_ledgerId r = Some l" "e \<in> set ledger" "l = le_id e"
        using assms(3) by fastforce
      with all have "record_view r = entry_view e" by auto
      with one [OF re(1,3,2,4)] g show ?thesis by blast
    qed
    then show "mismatch_findings ledger db = []"
      unfolding mismatch_findings_def Let_def map_filter_Nil_iff by blast
  qed
qed


lemma distinct_view_eq:
  assumes "distinct (map fst vs)" "x \<in> set vs" "y \<in> set vs" "fst x = fst y"
  shows "x = y"
  using assms by (metis (no_types, lifting) distinct_map inj_onD)

text \<open>
  Projections exactly mirror the ledger: the same identifiers with the same account, asset and
  amount, each once.
\<close>

lemma mirror_iff:
  assumes "\<forall>r \<in> set db. db_ledgerId r \<noteq> Some []"
  shows "duplicate_findings ledger db = [] \<and> missing_findings ledger db = [] \<and> mismatch_findings ledger db = []
    \<longleftrightarrow> distinct (map le_id ledger) \<and> distinct (map db_id db) \<and>
        mset (map entry_view ledger) = mset (map record_view db)"
  (is "?findings \<longleftrightarrow> ?dl \<and> ?dd \<and> ?eq")
proof
  assume ?findings
  then have dl: ?dl and dd: ?dd and ref: "\<forall>l. length (filter (\<lambda>r. db_ledgerId r = Some l) db) \<le> 1"
    by (simp_all add: duplicate_Nil_iff [OF assms])
  from \<open>?findings\<close> have proj: "\<forall>e \<in> set ledger. \<exists>r \<in> set db. db_ledgerId r = Some (le_id e)"
      "\<forall>r \<in> set db. \<exists>e \<in> set ledger. db_ledgerId r = Some (le_id e)"
    by (simp_all add: missing_Nil_iff [OF dl])
  have same: "\<forall>r \<in> set db. \<forall>e \<in> set ledger. db_ledgerId r = Some (le_id e) \<longrightarrow> record_view r = entry_view e"
    using \<open>?findings\<close> mismatch_Nil_iff [OF dl ref proj(2)] by blast
  have "length (filter (\<lambda>r. db_ledgerId r = k) db) \<le> 1" for k
  proof (cases k)
    case None
    have "filter (\<lambda>r. db_ledgerId r = None) db = []" using proj(2) by (fastforce simp: filter_empty_conv)
    with None show ?thesis by simp
  qed (use ref in simp)
  then have "distinct (map db_ledgerId db)" by (simp add: short_groups_distinct [symmetric])
  moreover have "map db_ledgerId db = map fst (map record_view db)" by (simp add: record_view_def)
  ultimately have d1: "distinct (map record_view db)" by (metis distinct_map)
  have "map (\<lambda>e. Some (le_id e)) ledger = map fst (map entry_view ledger)" by (simp add: entry_view_def)
  moreover have "distinct (map (\<lambda>e. Some (le_id e)) ledger)" using dl by (simp add: distinct_map inj_on_def)
  ultimately have d2: "distinct (map entry_view ledger)" by (metis distinct_map)
  have "entry_view ` set ledger = record_view ` set db"
    using proj same by (smt (verit, best) equalityI image_eqI image_subset_iff subsetI)
  then have "set (map entry_view ledger) = set (map record_view db)" by simp
  with d1 d2 have ?eq by (simp only: set_eq_iff_mset_eq_distinct)
  with dl dd show "?dl \<and> ?dd \<and> ?eq" by blast
next
  assume a: "?dl \<and> ?dd \<and> ?eq"
  have "mset (map fst (map entry_view ledger)) = mset (map fst (map record_view db))"
    using a by (metis mset_map)
  then have ids: "mset (map (\<lambda>e. Some (le_id e)) ledger) = mset (map db_ledgerId db)"
    by (simp add: entry_view_def record_view_def comp_def)
  have "distinct (map (\<lambda>e. Some (le_id e)) ledger)" using a by (simp add: distinct_map inj_on_def)
  then have dr: "distinct (map db_ledgerId db)" using ids by (metis mset_eq_imp_distinct_iff)
  then have ref: "\<forall>l. length (filter (\<lambda>r. db_ledgerId r = Some l) db) \<le> 1"
    by (simp add: short_groups_distinct [symmetric])
  have "set (map (\<lambda>e. Some (le_id e)) ledger) = set (map db_ledgerId db)" using ids by (rule mset_eq_setD)
  then have sets: "(\<lambda>e. Some (le_id e)) ` set ledger = db_ledgerId ` set db" by simp
  have proj: "\<forall>e \<in> set ledger. \<exists>r \<in> set db. db_ledgerId r = Some (le_id e)"
    "\<forall>r \<in> set db. \<exists>e \<in> set ledger. db_ledgerId r = Some (le_id e)"
    using sets by (metis (no_types, lifting) imageE image_eqI)+
  have "record_view r = entry_view e"
    if "r \<in> set db" "e \<in> set ledger" "db_ledgerId r = Some (le_id e)" for r e
  proof (rule distinct_view_eq)
    show "distinct (map fst (map record_view db))" using dr by (simp add: record_view_def comp_def)
    show "record_view r \<in> set (map record_view db)" using that by simp
    have "set (map entry_view ledger) = set (map record_view db)" using a by (metis mset_eq_setD)
    then show "entry_view e \<in> set (map record_view db)" using that by auto
    show "fst (record_view r) = fst (entry_view e)" using that by (simp add: record_view_def entry_view_def)
  qed
  then have "mismatch_findings ledger db = []"
    using a mismatch_Nil_iff [OF _ ref proj(2)] by blast
  then show ?findings
    using a ref proj by (simp add: duplicate_Nil_iff [OF assms] missing_Nil_iff)
qed


definition net_of :: "('a \<Rightarrow> string) \<Rightarrow> ('a \<Rightarrow> rat) \<Rightarrow> 'a list \<Rightarrow> string \<Rightarrow> rat" where
  "net_of key amount xs k = sum_list (map amount (filter (\<lambda>x. key x = k) xs))"

definition ledger_key :: "ledger_entry \<Rightarrow> string" where "ledger_key e = keyOf (le_account e) (le_asset e)"
definition record_key :: "db_record \<Rightarrow> string" where "record_key r = keyOf (db_account r) (db_asset r)"
definition balance_key :: "user_balance \<Rightarrow> string" where "balance_key b = keyOf (ub_account b) (ub_asset b)"

lemma net_of_view:
  assumes "mset (map entry_view ledger) = mset (map record_view db)"
  shows "net_of ledger_key le_amount ledger k = net_of record_key db_amount db k"
proof -
  let ?key = "\<lambda>(i :: string option, a, s, x :: rat). keyOf a s" and ?amt = "\<lambda>(i :: string option, a :: string, s :: string, x :: rat). x"
  have view: "sum_list (map (?amt \<circ> v) (filter (\<lambda>x. (?key \<circ> v) x = k) xs)) =
      sum_mset (image_mset ?amt (filter_mset (\<lambda>x. ?key x = k) (mset (map v xs))))" for v :: "'c \<Rightarrow> _" and xs
    by (simp add: sum_mset_sum_list [symmetric] mset_filter [symmetric] filter_map comp_def
        del: mset_map flip: mset_map)
  have "ledger_key = ?key \<circ> entry_view" "le_amount = ?amt \<circ> entry_view"
    "record_key = ?key \<circ> record_view" "db_amount = ?amt \<circ> record_view"
    by (auto simp: ledger_key_def record_key_def entry_view_def record_view_def)
  then show ?thesis unfolding net_of_def using view assms by metis
qed

lemma rollup_Nil_iff:
  assumes "mset (map entry_view ledger) = mset (map record_view db)"
    "\<forall>e \<in> set ledger. on_grid (le_amount e)" "\<forall>r \<in> set db. on_grid (db_amount r)"
    "\<forall>b \<in> set balances. on_grid (ub_balance b)"
  shows "rollup_findings ledger db balances = [] \<longleftrightarrow>
    (\<forall>e \<in> set ledger. \<forall>b \<in> set balances. balance_key b = ledger_key e \<longrightarrow>
       net_of balance_key ub_balance balances (ledger_key e) = net_of ledger_key le_amount ledger (ledger_key e))"
proof -
  note nets = net_by_lookup [OF assms(2), where key = ledger_key, folded net_of_def]
    net_by_lookup [OF assms(3), where key = record_key, folded net_of_def]
    net_by_lookup [OF assms(4), where key = balance_key, folded net_of_def]
  have mem: "(k, total) \<in> set (net_by ledger_key le_amount ledger) \<longleftrightarrow>
      (\<exists>e \<in> set ledger. ledger_key e = k) \<and> total = net_of ledger_key le_amount ledger k" for k total
    unfolding map_of_eq_Some_iff [OF net_by_distinct, symmetric] nets by auto
  have keys: "(\<lambda>e. keyOf (le_account e) (le_asset e)) = ledger_key"
    "(\<lambda>r. keyOf (db_account r) (db_asset r)) = record_key" "(\<lambda>b. keyOf (ub_account b) (ub_asset b)) = balance_key"
    by (simp_all add: fun_eq_iff ledger_key_def record_key_def balance_key_def)
  have ball: "(\<forall>g \<in> set (net_by ledger_key le_amount ledger). F g = []) \<longleftrightarrow>
      (\<forall>e \<in> set ledger. F (ledger_key e, net_of ledger_key le_amount ledger (ledger_key e)) = [])"
    for F :: "string \<times> rat \<Rightarrow> drift_finding list"
  proof
    assume "\<forall>g \<in> set (net_by ledger_key le_amount ledger). F g = []"
    then show "\<forall>e \<in> set ledger. F (ledger_key e, net_of ledger_key le_amount ledger (ledger_key e)) = []"
      using mem by blast
  next
    assume a: "\<forall>e \<in> set ledger. F (ledger_key e, net_of ledger_key le_amount ledger (ledger_key e)) = []"
    show "\<forall>g \<in> set (net_by ledger_key le_amount ledger). F g = []"
    proof
      fix g assume "g \<in> set (net_by ledger_key le_amount ledger)"
      then obtain e where "e \<in> set ledger" "g = (ledger_key e, net_of ledger_key le_amount ledger (ledger_key e))"
        using mem [of "fst g" "snd g"] by (metis prod.collapse)
      with a show "F g = []" by simp
    qed
  qed
  have split: "(\<exists>x \<in> set balances. balance_key x = k) \<longleftrightarrow> \<not> (\<forall>x \<in> set balances. balance_key x \<noteq> k)" for k by blast
  show ?thesis
    unfolding rollup_findings_def Let_def keys nets concat_eq_Nil_conv set_map ball_simps ball
    by (simp add: net_of_view [OF assms(1)] cong: if_cong) blast
qed

lemma stale_Nil_iff:
  "stale_findings th now ledger db balances = [] \<longleftrightarrow>
     (\<forall>r \<in> set db. \<forall>st u. db_status r = Some st \<longrightarrow> db_updatedAt r = Some u \<longrightarrow> st \<in> set PENDING_DB_STATUSES \<longrightarrow>
        of_int (now - u) \<le> stalePendingMs th) \<and>
     (\<forall>b \<in> set balances. \<forall>u latest. ub_updatedAt b = Some u \<longrightarrow> latest_time ledger = Some latest \<longrightarrow>
        of_int (latest - u) \<le> staleSnapshotMs th)"
  by (auto simp: stale_findings_def map_filter_Nil_iff split: option.splits if_splits)

lemma sort_key_Nil_iff: "sort_key f xs = [] \<longleftrightarrow> xs = []"
  by (metis length_0_conv length_sort)

lemma firstDefined_nonempty: "firstDefined vs \<noteq> Some []"
  by (induction vs) auto

lemma clean_conditions:
  "rp_clean (reconcileBalances collate L D B now ti) \<longleftrightarrow>
     (let th = resolveThresholds ti; ledger = map_index normalizeLedger L;
          db = map_index normalizeDbRecord D; balances = map_index normalizeUserBalance B in
      distinct (map le_id ledger) \<and> distinct (map db_id db) \<and>
      mset (map entry_view ledger) = mset (map record_view db) \<and>
      (\<forall>r \<in> set db. \<forall>st u. db_status r = Some st \<longrightarrow> db_updatedAt r = Some u \<longrightarrow> st \<in> set PENDING_DB_STATUSES \<longrightarrow>
         of_int (now - u) \<le> stalePendingMs th) \<and>
      (\<forall>b \<in> set balances. \<forall>u latest. ub_updatedAt b = Some u \<longrightarrow> latest_time ledger = Some latest \<longrightarrow>
         of_int (latest - u) \<le> staleSnapshotMs th) \<and>
      (\<forall>e \<in> set ledger. \<forall>b \<in> set balances. balance_key b = ledger_key e \<longrightarrow>
         net_of balance_key ub_balance balances (ledger_key e) = net_of ledger_key le_amount ledger (ledger_key e)))"
proof -
  let ?ledger = "map_index normalizeLedger L" and ?db = "map_index normalizeDbRecord D"
    and ?balances = "map_index normalizeUserBalance B"
  have refs: "\<forall>r \<in> set ?db. db_ledgerId r \<noteq> Some []"
    by (auto simp: map_index_def normalizeDbRecord_def firstDefined_nonempty)
  have grids: "\<forall>e \<in> set ?ledger. on_grid (le_amount e)" "\<forall>r \<in> set ?db. on_grid (db_amount r)"
    "\<forall>b \<in> set ?balances. on_grid (ub_balance b)"
    by (auto simp: map_index_def normalizeLedger_def normalizeDbRecord_def normalizeUserBalance_def ledgerNetAmount_def)
  have "rp_clean (reconcileBalances collate L D B now ti) \<longleftrightarrow>
      (duplicate_findings ?ledger ?db = [] \<and> missing_findings ?ledger ?db = [] \<and> mismatch_findings ?ledger ?db = []) \<and>
      stale_findings (resolveThresholds ti) now ?ledger ?db ?balances = [] \<and> rollup_findings ?ledger ?db ?balances = []"
    unfolding reconcileBalances_def Let_def all_findings_def drift_report.simps length_0_conv sort_key_Nil_iff
    by auto
  then show ?thesis
    unfolding mirror_iff [OF refs] stale_Nil_iff Let_def using rollup_Nil_iff [OF _ grids] by blast
qed

text \<open>
  C24: For cached balances of accounts and assets that the ledger knows, a report is clean exactly
  when the projections mirror the ledger: no identifier occurs twice; the database records are the
  ledger entries, each referenced once, with the same account, asset and amount; no pending record is
  older, and no dated balance further behind the newest entry, than its threshold; and for each
  account and asset with a cached balance, the cached balances sum up to exactly its ledger entries.
  An account without a cached balance is not checked; for one the ledger does not know, see
  \<open>phantom_balance_is_clean\<close>.
\<close>

theorem clean_report_iff:
  assumes "ledger = map_index normalizeLedger L" "db = map_index normalizeDbRecord D" "balances = map_index normalizeUserBalance B"
    and "\<forall>b \<in> set balances. \<exists>e \<in> set ledger. ledger_key e = balance_key b"
  shows "rp_clean (reconcileBalances collate L D B now ti) \<longleftrightarrow>
      distinct (map le_id ledger) \<and> distinct (map db_id db) \<and>
      mset (map entry_view ledger) = mset (map record_view db) \<and>
      (\<forall>r \<in> set db. \<forall>st u. db_status r = Some st \<longrightarrow> db_updatedAt r = Some u \<longrightarrow> st \<in> set PENDING_DB_STATUSES \<longrightarrow>
         of_int (now - u) \<le> stalePendingMs (resolveThresholds ti)) \<and>
      (\<forall>b \<in> set balances. \<forall>u latest. ub_updatedAt b = Some u \<longrightarrow> latest_time ledger = Some latest \<longrightarrow>
         of_int (latest - u) \<le> staleSnapshotMs (resolveThresholds ti)) \<and>
      (\<forall>b \<in> set balances. net_of balance_key ub_balance balances (balance_key b) = net_of ledger_key le_amount ledger (balance_key b))"
proof -
  have "(\<forall>e \<in> set ledger. \<forall>b \<in> set balances. balance_key b = ledger_key e \<longrightarrow>
        net_of balance_key ub_balance balances (ledger_key e) = net_of ledger_key le_amount ledger (ledger_key e)) \<longleftrightarrow>
      (\<forall>b \<in> set balances. net_of balance_key ub_balance balances (balance_key b) = net_of ledger_key le_amount ledger (balance_key b))"
    using assms(4) by metis
  then show ?thesis unfolding clean_conditions Let_def assms(1-3) [symmetric] by simp
qed

definition sample_entry :: raw_ledger where
  "sample_entry = \<lparr>rl_ids = [Some ''op1''], rl_accounts = [Some ''alice''], rl_assets = [], rl_amount = Some (Fin 5), rl_credit = None,
     rl_debit = None, rl_times = [Some 7]\<rparr>"

definition sample_record :: raw_record where
  "sample_record = \<lparr>rr_ids = [Some ''d1''], rr_ledgerIds = [Some ''op1''], rr_accounts = [Some ''alice''], rr_assets = [],
     rr_amounts = [Some (Fin 5)], rr_status = None, rr_times = []\<rparr>"

definition sample_balance :: "rat \<Rightarrow> raw_balance" where
  "sample_balance x = \<lparr>rb_ids = [], rb_accounts = [Some ''alice''], rb_assets = [], rb_balances = [Some (Fin x)], rb_times = [Some 7]\<rparr>"

definition default_input :: threshold_input where
  "default_input = \<lparr>ti_stalePendingMs = None, ti_stalePendingHours = None, ti_staleSnapshotMs = None, ti_staleSnapshotHours = None\<rparr>"

lemma sample_views:
  "map_index normalizeLedger [sample_entry] = [\<lparr>le_id = ''op1'', le_account = ''alice'', le_asset = ''native'', le_amount = 5, le_timestamp = Some 7\<rparr>]"
  "map_index normalizeDbRecord [sample_record] =
     [\<lparr>db_id = ''d1'', db_ledgerId = Some ''op1'', db_account = ''alice'', db_asset = ''native'', db_amount = 5, db_status = None, db_updatedAt = None\<rparr>]"
  "map_index normalizeUserBalance [sample_balance 5] =
     [\<lparr>ub_id = ''balance-0'', ub_account = ''alice'', ub_asset = ''native'', ub_balance = 5, ub_updatedAt = Some 7\<rparr>]"
  "map_index normalizeUserBalance [sample_balance 6] =
     [\<lparr>ub_id = ''balance-0'', ub_account = ''alice'', ub_asset = ''native'', ub_balance = 6, ub_updatedAt = Some 7\<rparr>]"
  by code_simp+

theorem clean_report_iff_witness:
  "rp_clean (reconcileBalances (\<lambda>s. s) [sample_entry] [sample_record] [sample_balance 5] 9 default_input) \<and>
   \<not> rp_clean (reconcileBalances (\<lambda>s. s) [sample_entry] [sample_record] [sample_balance 6] 9 default_input)"
proof -
  have th: "0 \<le> staleSnapshotMs (resolveThresholds default_input)" by code_simp
  show ?thesis
    using th clean_report_iff [OF refl refl refl, of "[sample_balance 5]" "[sample_entry]"]
      clean_report_iff [OF refl refl refl, of "[sample_balance 6]" "[sample_entry]"]
    unfolding sample_views
    by (simp add: sample_views ledger_key_def balance_key_def net_of_def entry_view_def record_view_def latest_time_def)
qed

text \<open>
  The rollup only visits accounts of the ledger: a cached balance for an account the ledger
  has never heard of is reported as clean, although the views disagree on its net amount.
\<close>

theorem phantom_balance_is_clean:
  "rp_clean (reconcileBalances collate [] []
     [\<lparr>rb_ids = [], rb_accounts = [Some ''mallory''], rb_assets = [], rb_balances = [Some (Fin amount)],
       rb_times = []\<rparr>] now ti)"
  unfolding clean_conditions Let_def
  by (simp add: map_index_def normalizeUserBalance_def latest_time_def)

end
