(* ===== verification/PermissionDiff.thy ===== *)
theory PermissionDiff
  imports Prelude "HOL-Library.List_Lexorder" "HOL-Library.Char_ord"
begin

text \<open>
  \<open>src/lib/auth/permissionDiff.js\<close>: the role table, the effective permissions of a user, the diff
  report of a role change and the guard that decides whether an administrator may make it. The
  texts of warnings, errors and summaries are not modelled (a warning is a constructor), nor is the
  timestamp of the report. \<open>None\<close> as the result of a lookup is the \<open>TypeError\<close> the code runs into
  for the two role names that every JavaScript object inherits.
\<close>

section \<open>The role table\<close>

definition ROLE_PERMISSIONS :: "(string \<times> string list) list" where
  "ROLE_PERMISSIONS =
    [(''admin'', [''audit:read'', ''export:full'', ''export:pii'', ''materials:delete'', ''materials:moderate'',
       ''materials:publish'', ''materials:read'', ''materials:write'', ''policies:read'', ''policies:write'',
       ''purchases:read'', ''refunds:process'', ''refunds:read'', ''system:configure'', ''system:migrate'',
       ''users:manage_roles'', ''users:read'', ''users:suspend'', ''users:write'']),
     (''creator'', [''analytics:read_own'', ''export:own'', ''materials:create'', ''materials:delete_own'',
       ''materials:publish_own'', ''materials:read'', ''materials:write_own'', ''payouts:request'', ''sales:read_own'']),
     (''learner'', [''export:own_library'', ''materials:download_purchased'', ''materials:purchase'',
       ''materials:read_public'', ''progress:write_own'', ''refunds:request_own'']),
     (''user'', [''materials:read_public'', ''profile:read_own'', ''profile:write_own''])]"

definition VALID_ROLES :: "string list" where
  "VALID_ROLES = keys ROLE_PERMISSIONS"

datatype risk_level = Risk_low | Risk_medium | Risk_high | Risk_critical

definition CRITICAL_PERMISSIONS :: "string list" where
  "CRITICAL_PERMISSIONS = [''users:manage_roles'', ''system:configure'', ''system:migrate'', ''users:suspend'', ''policies:write'']"

definition HIGH_RISK_PERMISSIONS :: "string list" where
  "HIGH_RISK_PERMISSIONS = [''materials:moderate'', ''refunds:process'', ''materials:delete'', ''export:pii'', ''export:full'']"

definition MEDIUM_RISK_PERMISSIONS :: "string list" where
  "MEDIUM_RISK_PERMISSIONS = [''materials:publish'', ''materials:create'', ''materials:publish_own'', ''payouts:request'', ''users:write'']"

definition normalize_role :: "string \<Rightarrow> string" where
  "normalize_role r = js_trim (js_lower r)"

definition getPermissionsForRole :: "string option \<Rightarrow> string list option" where
  "getPermissionsForRole role =
     (if \<not> truthy role then Some []
      else let normalized = normalize_role (the role) in
        case map_of ROLE_PERMISSIONS normalized of
          Some perms \<Rightarrow> Some perms
        | None \<Rightarrow> if normalized \<in> {''constructor'', ''__proto__''} then None else Some [])"

text \<open>\<open>None\<close> in the lists of a user is an element that is not a string.\<close>

record user =
  u_id :: "string option"
  u_role :: "string option"
  customPermissions :: "string option list"
  revokedPermissions :: "string option list"

definition getEffectivePermissions :: "user \<Rightarrow> string list option" where
  "getEffectivePermissions u =
     (case getPermissionsForRole (u_role u) of
        None \<Rightarrow> None
      | Some base \<Rightarrow>
          if None \<in> set (revokedPermissions u) then None
          else let granted = js_set (base @ List.map_filter (\<lambda>p. case p of
                     Some s \<Rightarrow> if js_trim s \<noteq> [] then Some (js_trim s) else None
                   | None \<Rightarrow> None) (customPermissions u));
                   revoked = map (\<lambda>p. js_trim (the p)) (revokedPermissions u)
               in Some (sort (filter (\<lambda>p. p \<notin> set revoked) granted)))"

definition evaluateRiskLevel :: "string list \<Rightarrow> string \<Rightarrow> risk_level" where
  "evaluateRiskLevel addedPermissions targetRole =
     (if targetRole = ''admin'' then Risk_critical
      else if list_ex (\<lambda>p. p \<in> set addedPermissions) CRITICAL_PERMISSIONS then Risk_critical
      else if list_ex (\<lambda>p. p \<in> set addedPermissions) HIGH_RISK_PERMISSIONS then Risk_high
      else if list_ex (\<lambda>p. p \<in> set addedPermissions) MEDIUM_RISK_PERMISSIONS then Risk_medium
      else Risk_low)"

datatype breaking_change = Losing_edit_permissions | Losing_payout_requests | Demoted_from_admin

definition detectBreakingChanges :: "string \<Rightarrow> string \<Rightarrow> string list \<Rightarrow> breaking_change list" where
  "detectBreakingChanges currentRole targetRole removed =
     (if currentRole = ''creator'' \<and> targetRole \<noteq> ''creator''
      then (if ''materials:write_own'' \<in> set removed then [Losing_edit_permissions] else []) @
           (if ''payouts:request'' \<in> set removed then [Losing_payout_requests] else [])
      else []) @
     (if currentRole = ''admin'' \<and> targetRole \<noteq> ''admin'' then [Demoted_from_admin] else [])"

record diff_report =
  d_currentRole :: string
  d_targetRole :: string
  addedPermissions :: "string list"
  removedPermissions :: "string list"
  retainedPermissions :: "string list"
  isElevation :: bool
  isDemotion :: bool
  riskLevel :: risk_level
  criticalPermissionsAdded :: "string list"
  requiresElevationConfirmation :: bool
  breakingChanges :: "breaking_change list"

datatype diff_error = Target_role_required | Target_role_invalid | Type_error

text \<open>The permissions of a side: the ones given, or those of its role.\<close>

definition side_permissions :: "string list option \<Rightarrow> string \<Rightarrow> string list option" where
  "side_permissions given role =
     (case given of Some ps \<Rightarrow> Some (js_set ps) | None \<Rightarrow> map_option js_set (getPermissionsForRole (Some role)))"

definition computePermissionDiff ::
  "string option \<Rightarrow> string option \<Rightarrow> string list option \<Rightarrow> string list option \<Rightarrow> diff_error + diff_report" where
  "computePermissionDiff currentRole targetRole currentPermissions targetPermissions =
     (if \<not> truthy targetRole then Inl Target_role_required
      else let normalizedCurrent = normalize_role (or_default currentRole ''user'');
               normalizedTarget = normalize_role (the targetRole) in
        if normalizedTarget \<notin> set VALID_ROLES then Inl Target_role_invalid
        else case (side_permissions currentPermissions normalizedCurrent, side_permissions targetPermissions normalizedTarget) of
          (Some currentSet, Some targetSet) \<Rightarrow>
            let added = sort (filter (\<lambda>p. p \<notin> set currentSet) targetSet);
                removed = sort (filter (\<lambda>p. p \<notin> set targetSet) currentSet);
                retained = sort (filter (\<lambda>p. p \<in> set currentSet) targetSet);
                elevation = (normalizedTarget = ''admin'' \<or>
                   normalizedCurrent \<noteq> ''admin'' \<and> 0 < length added \<and> length removed = 0);
                risk = evaluateRiskLevel added normalizedTarget
            in Inr \<lparr>d_currentRole = normalizedCurrent, d_targetRole = normalizedTarget, addedPermissions = added,
                 removedPermissions = removed, retainedPermissions = retained, isElevation = elevation,
                 isDemotion = (normalizedCurrent = ''admin'' \<and> normalizedTarget \<noteq> ''admin''), riskLevel = risk,
                 criticalPermissionsAdded = filter (\<lambda>p. p \<in> set CRITICAL_PERMISSIONS) added,
                 requiresElevationConfirmation = (risk = Risk_critical \<or> elevation),
                 breakingChanges = detectBreakingChanges normalizedCurrent normalizedTarget removed\<rparr>
        | _ \<Rightarrow> Inl Type_error)"

record actor =
  a_role :: "string option"
  a_sub :: "string option"
  a_id :: "string option"

text \<open>A refusal has its HTTP status and, for a missing confirmation, the report.\<close>

datatype decision = Refused nat "diff_report option" | Allowed diff_report | Throws diff_error

definition validateRoleTransition :: "actor option \<Rightarrow> user option \<Rightarrow> string option \<Rightarrow> bool \<Rightarrow> decision" where
  "validateRoleTransition adminActor targetUser newRole confirmElevatedRisk =
     (if (case adminActor of None \<Rightarrow> True | Some a \<Rightarrow> a_role a \<noteq> Some ''admin'') then Refused 403 None
      else if (case targetUser of None \<Rightarrow> True | Some u \<Rightarrow> \<not> truthy (u_id u)) then Refused 404 None
      else if \<not> truthy newRole \<or> normalize_role (the newRole) \<notin> set VALID_ROLES then Refused 400 None
      else let a = the adminActor; u = the targetUser; role = the newRole;
               currentRole = or_default (u_role u) ''user'';
               actorId = or_default (a_sub a) (or_default (a_id a) []);
               targetId = the (u_id u) in
        if currentRole = role then Refused 409 None
        else if actorId \<noteq> [] \<and> actorId = targetId \<and> currentRole = ''admin'' \<and> role \<noteq> ''admin'' then Refused 422 None
        else case computePermissionDiff (Some currentRole) (Some role) None None of
               Inl e \<Rightarrow> Throws e
             | Inr report \<Rightarrow>
                 if riskLevel report = Risk_critical \<and> \<not> confirmElevatedRisk then Refused 428 (Some report)
                 else Allowed report)"

section \<open>Lemmas\<close>

lemma risk_critical_iff:
  "evaluateRiskLevel added target = Risk_critical \<longleftrightarrow>
     target = ''admin'' \<or> (\<exists>p \<in> set CRITICAL_PERMISSIONS. p \<in> set added)"
  by (auto simp: evaluateRiskLevel_def list_ex_iff)

lemma diff_reports:
  assumes "computePermissionDiff cr tr cp tp = Inr d"
  obtains cs ts where
    "side_permissions cp (normalize_role (or_default cr ''user'')) = Some cs"
    "side_permissions tp (normalize_role (the tr)) = Some ts"
    "d_targetRole d = normalize_role (the tr)" "d_targetRole d \<in> set VALID_ROLES"
    "d_currentRole d = normalize_role (or_default cr ''user'')"
    "addedPermissions d = sort (filter (\<lambda>p. p \<notin> set cs) ts)"
    "removedPermissions d = sort (filter (\<lambda>p. p \<notin> set ts) cs)"
    "retainedPermissions d = sort (filter (\<lambda>p. p \<in> set cs) ts)"
    "riskLevel d = evaluateRiskLevel (addedPermissions d) (d_targetRole d)"
    "criticalPermissionsAdded d = filter (\<lambda>p. p \<in> set CRITICAL_PERMISSIONS) (addedPermissions d)"
    "distinct cs" "distinct ts"
proof -
  obtain cs ts where s: "side_permissions cp (normalize_role (or_default cr ''user'')) = Some cs"
      "side_permissions tp (normalize_role (the tr)) = Some ts"
    using assms by (auto simp: computePermissionDiff_def Let_def split: if_splits option.splits)
  moreover have "distinct cs" "distinct ts" using s by (auto simp: side_permissions_def split: option.splits)
  ultimately show ?thesis using assms
    by (intro that [of cs ts]) (auto simp: computePermissionDiff_def Let_def split: if_splits)
qed

section \<open>Properties\<close>

text \<open>
  The effective permissions of a user are those of the role and the custom grants, less the
  explicit revocations (a revocation always wins), each once, in order.
\<close>

lemma effective_permissions:
  assumes "getEffectivePermissions u = Some ps" "getPermissionsForRole (u_role u) = Some base"
  shows "(p \<in> set ps \<longleftrightarrow> (p \<in> set base \<or> p \<noteq> [] \<and> (\<exists>s. Some s \<in> set (customPermissions u) \<and> js_trim s = p)) \<and>
       \<not> (\<exists>s. Some s \<in> set (revokedPermissions u) \<and> js_trim s = p)) \<and> sorted ps \<and> distinct ps"
proof -
  have revoked: "x \<in> (\<lambda>p. js_trim (the p)) ` set (revokedPermissions u) \<longleftrightarrow>
      (\<exists>s. Some s \<in> set (revokedPermissions u) \<and> js_trim s = x)" for x
  proof -
    have "None \<notin> set (revokedPermissions u)"
      using assms by (auto simp: getEffectivePermissions_def split: if_splits)
    then show ?thesis by (auto simp: image_iff) (metis option.sel option.exhaust)+
  qed
  have custom: "set (List.map_filter (\<lambda>p. case p of Some s \<Rightarrow> if js_trim s \<noteq> [] then Some (js_trim s) else None
      | None \<Rightarrow> None) xs) = {p. p \<noteq> [] \<and> (\<exists>s. Some s \<in> set xs \<and> js_trim s = p)}" for xs
    by (induction xs) (auto simp: List.map_filter_def split: option.splits)
  have ps: "ps = sort (filter (\<lambda>p. p \<notin> (\<lambda>p. js_trim (the p)) ` set (revokedPermissions u))
      (js_set (base @ List.map_filter (\<lambda>p. case p of Some s \<Rightarrow> if js_trim s \<noteq> [] then Some (js_trim s) else None
        | None \<Rightarrow> None) (customPermissions u))))"
    using assms by (simp add: getEffectivePermissions_def Let_def split: if_splits)
  show ?thesis unfolding ps using revoked [of p] by (auto simp: custom)
qed

text \<open>
  The diff report partitions the permissions: what is added, removed and retained is
  disjoint, sorted and without repetition, and applying it to the current permissions gives exactly
  the target ones. The change is of critical risk exactly when it makes an administrator or adds a
  critical permission.
\<close>

theorem diff_is_exact:
  assumes "computePermissionDiff cr tr (Some cs) (Some ts) = Inr d"
  shows "(set cs - set (removedPermissions d)) \<union> set (addedPermissions d) = set ts \<and>
    set (retainedPermissions d) = set cs \<inter> set ts \<and> set (removedPermissions d) \<subseteq> set cs \<and>
    set (addedPermissions d) \<inter> set cs = {} \<and>
    (\<forall>ps \<in> {addedPermissions d, removedPermissions d, retainedPermissions d}. sorted ps \<and> distinct ps) \<and>
    (riskLevel d = Risk_critical \<longleftrightarrow> d_targetRole d = ''admin'' \<or> criticalPermissionsAdded d \<noteq> [])"
proof -
  from assms obtain cs' ts' where d: "Some (js_set cs) = Some cs'" "Some (js_set ts) = Some ts'"
    "addedPermissions d = sort (filter (\<lambda>p. p \<notin> set cs') ts')"
    "removedPermissions d = sort (filter (\<lambda>p. p \<notin> set ts') cs')"
    "retainedPermissions d = sort (filter (\<lambda>p. p \<in> set cs') ts')"
    "riskLevel d = evaluateRiskLevel (addedPermissions d) (d_targetRole d)"
    "criticalPermissionsAdded d = filter (\<lambda>p. p \<in> set CRITICAL_PERMISSIONS) (addedPermissions d)"
    by (rule diff_reports) (simp add: side_permissions_def)
  have sets: "set cs' = set cs" "set ts' = set ts" "distinct cs'" "distinct ts'" using d(1,2) by auto
  have "riskLevel d = Risk_critical \<longleftrightarrow> d_targetRole d = ''admin'' \<or> criticalPermissionsAdded d \<noteq> []"
    by (auto simp: d(6,7) risk_critical_iff filter_empty_conv)
  then show ?thesis using sets by (auto simp: d(3-5))
qed

theorem diff_is_exact_witness:
  "\<exists>d. computePermissionDiff (Some ''user'') (Some ''learner'') (Some [''a'', ''b'']) (Some [''b'', ''c'']) = Inr d \<and>
     ({''a'', ''b''} - set (removedPermissions d)) \<union> set (addedPermissions d) = {''b'', ''c''}"
proof -
  obtain d where d: "computePermissionDiff (Some ''user'') (Some ''learner'') (Some [''a'', ''b'']) (Some [''b'', ''c'']) = Inr d"
  proof -
    have "normalize_role ''learner'' \<in> set VALID_ROLES" by code_simp
    then show ?thesis by (simp add: computePermissionDiff_def side_permissions_def Let_def that)
  qed
  with diff_is_exact [OF d] show ?thesis by auto
qed

text \<open>
  A role change goes through only for an administrator and an existing user; only with an
  explicit confirmation if it gives a critical permission the current role lacks or makes the user
  an administrator; and never for an administrator who would lose the own role.
\<close>

theorem allowed_role_change_is_safe:
  assumes "validateRoleTransition adminActor targetUser newRole confirm = Allowed d"
    "targetUser = Some u" "adminActor = Some a" "newRole = Some role"
  shows "a_role a = Some ''admin'' \<and> truthy (u_id u) \<and> normalize_role role \<in> set VALID_ROLES \<and>
    (normalize_role role = ''admin'' \<or> (\<exists>p \<in> set CRITICAL_PERMISSIONS. p \<in> set (addedPermissions d)) \<longrightarrow> confirm) \<and>
    \<not> (u_id u = a_sub a \<and> u_role u = Some ''admin'' \<and> role \<noteq> ''admin'')"
proof -
  have diff: "computePermissionDiff (Some (or_default (u_role u) ''user'')) (Some role) None None = Inr d"
    and conf: "riskLevel d = Risk_critical \<longrightarrow> confirm"
    and guard: "a_role a = Some ''admin''" "truthy (u_id u)" "normalize_role role \<in> set VALID_ROLES"
      "\<not> (or_default (a_sub a) (or_default (a_id a) []) \<noteq> [] \<and>
          or_default (a_sub a) (or_default (a_id a) []) = the (u_id u) \<and>
          or_default (u_role u) ''user'' = ''admin'' \<and> role \<noteq> ''admin'')"
    using assms by (auto simp: validateRoleTransition_def Let_def split: if_splits sum.splits option.splits)
  have "riskLevel d = evaluateRiskLevel (addedPermissions d) (normalize_role role)"
    using diff by (rule diff_reports) simp
  with conf guard show ?thesis by (cases "u_id u"; cases "a_sub a") (auto simp: risk_critical_iff)
qed

theorem allowed_role_change_is_safe_witness:
  "\<not> (\<exists>d. validateRoleTransition (Some \<lparr>a_role = Some ''admin'', a_sub = Some ''1'', a_id = None\<rparr>)
     (Some \<lparr>u_id = Some ''2'', u_role = Some ''user'', customPermissions = [], revokedPermissions = []\<rparr>)
     (Some ''admin'') False = Allowed d)"
proof -
  have "normalize_role ''admin'' = ''admin''" by code_simp
  then show ?thesis using allowed_role_change_is_safe [where confirm = False and role = "''admin''"] by fastforce
qed

end
