(* ===== verification/PolicySimulator.thy ===== *)
theory PolicySimulator imports Prelude begin

text \<open>
  \<open>src/lib/policies/policySimulator.js\<close>: the previews of high-impact policy changes and the
  gatekeeper of their commit. Numbers are finite (they come from JSON); texts (descriptions, hints,
  playbooks) are not modelled, a side effect is its category, severity and count. \<open>canonicalHash\<close>
  (SHA-256 of the canonical JSON) and the generated identifier are parameters.
\<close>

section \<open>Data\<close>

datatype policy_type =
    Marketplace_fee | Entitlement_revocation | Creator_payout_cap | Content_quarantine | Archive_retention

datatype severity = Sev_low | Sev_medium | Sev_high | Sev_critical

definition SIMULATION_TTL_MS :: int where
  "SIMULATION_TTL_MS = 15 * 60 * 1000"

datatype sim_error =
    Invalid_policy_type | Invalid_proposed_policy | Simulation_error
  | Missing_simulation | Simulation_expired | Fingerprint_mismatch
  | Confirmation_required string | Dual_approval_required | Self_approval_forbidden

record purchase =
  p_id :: "string option"
  p_amount :: "rat option"
  p_creator :: "string option"
  p_materialId :: "string option"
  p_learnerId :: "string option"
  p_userId :: "string option"
  p_buyer :: "string option"

record payout =
  po_id :: "string option"
  po_amount :: "rat option"
  po_creator :: "string option"

record catalog_item =
  ci_materialId :: "string option"
  ci_subject :: "string option"
  ci_userAddress :: "string option"
  ci_title :: "string option"

record export_record =
  ex_id :: "string option"
  ex_createdAtMs :: "int option"
  ex_sizeBytes :: "rat option"
  ex_userId :: "string option"

text \<open>\<open>p_id\<close>, \<open>po_id\<close>, \<open>ci_materialId\<close> and \<open>ex_id\<close> are the domain identifier or else \<open>_id\<close>.\<close>

record data_source =
  ds_materials :: "catalog_item list"
  ds_purchases :: "purchase list"
  ds_payouts :: "payout list"
  ds_entitlementCache :: nat
  ds_exportRecords :: "export_record list"

record quarantine_criteria =
  cr_subject :: "string option"
  cr_creatorAddress :: "string option"
  cr_flaggedKeyword :: "string option"

text \<open>A policy object; \<open>None\<close> is a property that is absent or of another type.\<close>

record policy =
  platformFeeBps :: "rat option"
  materialIds :: "string list option"
  maxPayoutPerTx :: "rat option"
  criteria :: quarantine_criteria
  retainExportsDays :: "rat option"

datatype delta =
    Fee_delta rat
  | Revocation_delta "string list"
  | Cap_delta rat rat rat
  | Quarantine_delta quarantine_criteria nat
  | Retention_delta rat nat rat

record financial_impact =
  volumeAffected :: rat
  creatorNetDelta :: rat
  platformFeeDelta :: rat

record impact =
  imp_severity :: severity
  affectedRecordsCount :: nat
  affectedUsersCount :: nat
  affectedUsersSample :: "string list"
  affectedRecordsSample :: "string option list"
  financialImpact :: "financial_impact option"

text \<open>The flags a commit must bring; a flag that is not set is \<open>False\<close>.\<close>

record preconditions =
  pre_confirmFinancialImpact :: bool
  pre_confirmIrreversibleRevocation :: bool
  pre_confirmPendingPayoutDelay :: bool
  pre_confirmContentTakedown :: bool
  pre_confirmIrreversibleDataLoss :: bool
  pre_twoPersonApprovalRequired :: bool

definition no_preconditions :: preconditions where
  "no_preconditions = \<lparr>pre_confirmFinancialImpact = False, pre_confirmIrreversibleRevocation = False,
     pre_confirmPendingPayoutDelay = False, pre_confirmContentTakedown = False,
     pre_confirmIrreversibleDataLoss = False, pre_twoPersonApprovalRequired = False\<rparr>"

datatype effect_category = Financial | Access | User_experience | Search | Storage
datatype effect_level = Info | Warning | Critical_effect

record rollback =
  isFullyReversible :: bool
  hasIrreversibleOperations :: bool
  estimatedRollbackTimeMinutes :: nat
  preconditionsRequired :: preconditions

record sim_result =
  sr_delta :: delta
  sr_impact :: impact
  sr_sideEffects :: "(effect_category \<times> effect_level \<times> nat) list"
  sr_rollback :: rollback

definition num_or_zero :: "rat option \<Rightarrow> rat" where
  "num_or_zero x = (case x of Some n \<Rightarrow> n | None \<Rightarrow> 0)"

text \<open>\<open>a || b\<close> on optional strings.\<close>

definition or_else :: "string option \<Rightarrow> string option \<Rightarrow> string option" where
  "or_else a b = (if truthy a then a else b)"

definition truthy_values :: "string option list \<Rightarrow> string list" where
  "truthy_values vs = js_set (map the (filter truthy vs))"

section \<open>The simulations\<close>

definition simulateMarketplaceFee :: "policy \<Rightarrow> policy \<Rightarrow> data_source \<Rightarrow> sim_error + sim_result" where
  "simulateMarketplaceFee current proposed data =
     (case platformFeeBps proposed of
        None \<Rightarrow> Inl Simulation_error
      | Some proposedFeeBps \<Rightarrow>
          if proposedFeeBps < 0 \<or> 5000 < proposedFeeBps then Inl Simulation_error
          else let currentFeeBps = (case platformFeeBps current of Some b \<Rightarrow> b | None \<Rightarrow> 500);
              purchases = ds_purchases data;
              feeDeltaBps = proposedFeeBps - currentFeeBps;
              totalVolume = sum_list (map (\<lambda>p. num_or_zero (p_amount p)) purchases);
              oldFeeRevenue = sum_list (map (\<lambda>p. num_or_zero (p_amount p) * currentFeeBps / 10000) purchases);
              newFeeRevenue = sum_list (map (\<lambda>p. num_or_zero (p_amount p) * proposedFeeBps / 10000) purchases);
              creators = truthy_values (map p_creator purchases);
              feeRevenueDelta = newFeeRevenue - oldFeeRevenue;
              sev = (if 1000 < \<bar>feeDeltaBps\<bar> \<or> 50000 < totalVolume then Sev_critical
                     else if 200 < \<bar>feeDeltaBps\<bar> \<or> 5000 < totalVolume then Sev_high else Sev_medium)
            in Inr \<lparr>sr_delta = Fee_delta feeDeltaBps,
                 sr_impact = \<lparr>imp_severity = sev, affectedRecordsCount = length (ds_materials data) + length purchases,
                   affectedUsersCount = length creators, affectedUsersSample = take 5 creators,
                   affectedRecordsSample = map p_id (take 5 purchases),
                   financialImpact = Some \<lparr>volumeAffected = totalVolume, creatorNetDelta = - feeRevenueDelta,
                     platformFeeDelta = feeRevenueDelta\<rparr>\<rparr>,
                 sr_sideEffects = (if 0 < feeDeltaBps then [(Financial, Warning, length creators)]
                   else if feeDeltaBps < 0 then [(Financial, Info, length creators)] else []),
                 sr_rollback = \<lparr>isFullyReversible = True, hasIrreversibleOperations = False,
                   estimatedRollbackTimeMinutes = 5,
                   preconditionsRequired = no_preconditions\<lparr>
                     pre_confirmFinancialImpact := (sev = Sev_critical \<or> sev = Sev_high),
                     pre_twoPersonApprovalRequired := (sev = Sev_critical)\<rparr>\<rparr>\<rparr>)"

definition simulateEntitlementRevocation :: "policy \<Rightarrow> data_source \<Rightarrow> sim_error + sim_result" where
  "simulateEntitlementRevocation proposed data =
     (case materialIds proposed of
        None \<Rightarrow> Inl Simulation_error
      | Some targets \<Rightarrow>
          if targets = [] then Inl Simulation_error
          else let hit = filter (\<lambda>p. case p_materialId p of Some i \<Rightarrow> i \<in> set targets | None \<Rightarrow> False) (ds_purchases data);
              learners = truthy_values (map (\<lambda>p. or_else (p_learnerId p) (or_else (p_userId p) (p_buyer p))) hit);
              n = length learners;
              sev = (if 100 < n then Sev_critical else if 10 < n then Sev_high else if 0 < n then Sev_medium else Sev_low)
            in Inr \<lparr>sr_delta = Revocation_delta targets,
                 sr_impact = \<lparr>imp_severity = sev,
                   affectedRecordsCount = length (ds_purchases data) + ds_entitlementCache data,
                   affectedUsersCount = n, affectedUsersSample = take 5 learners,
                   affectedRecordsSample = map p_id (take 5 hit), financialImpact = None\<rparr>,
                 sr_sideEffects = [(Access, Critical_effect, n), (User_experience, Warning, n)],
                 sr_rollback = \<lparr>isFullyReversible = False, hasIrreversibleOperations = True,
                   estimatedRollbackTimeMinutes = 45,
                   preconditionsRequired = no_preconditions\<lparr>pre_confirmIrreversibleRevocation := True,
                     pre_twoPersonApprovalRequired := (sev = Sev_critical)\<rparr>\<rparr>\<rparr>)"

definition simulateCreatorPayoutCap :: "policy \<Rightarrow> policy \<Rightarrow> data_source \<Rightarrow> sim_error + sim_result" where
  "simulateCreatorPayoutCap current proposed data =
     (case maxPayoutPerTx proposed of
        None \<Rightarrow> Inl Simulation_error
      | Some cap \<Rightarrow>
          if cap \<le> 0 then Inl Simulation_error
          else let currentMaxCap = (case maxPayoutPerTx current of Some c \<Rightarrow> c | None \<Rightarrow> 5000);
              held = filter (\<lambda>p. cap < num_or_zero (po_amount p)) (ds_payouts data);
              n = length held;
              volume = sum_list (map (\<lambda>p. num_or_zero (po_amount p)) held);
              creators = truthy_values (map po_creator held);
              sev = (if 10 < n \<or> 10000 < volume then Sev_high else if 0 < n then Sev_medium else Sev_low)
            in Inr \<lparr>sr_delta = Cap_delta currentMaxCap cap (cap - currentMaxCap),
                 sr_impact = \<lparr>imp_severity = sev, affectedRecordsCount = n, affectedUsersCount = length creators,
                   affectedUsersSample = take 5 creators, affectedRecordsSample = map po_id (take 5 held),
                   financialImpact = Some \<lparr>volumeAffected = volume, creatorNetDelta = 0, platformFeeDelta = 0\<rparr>\<rparr>,
                 sr_sideEffects = (if 0 < n then [(Financial, Warning, length creators)] else []),
                 sr_rollback = \<lparr>isFullyReversible = True, hasIrreversibleOperations = False,
                   estimatedRollbackTimeMinutes = 10,
                   preconditionsRequired = no_preconditions\<lparr>pre_confirmPendingPayoutDelay := (0 < n),
                     pre_twoPersonApprovalRequired := (sev = Sev_high \<or> sev = Sev_critical)\<rparr>\<rparr>\<rparr>)"

definition matches_criteria :: "quarantine_criteria \<Rightarrow> catalog_item \<Rightarrow> bool" where
  "matches_criteria c m \<longleftrightarrow>
     (truthy (cr_subject c) \<longrightarrow> ci_subject m = cr_subject c) \<and>
     (truthy (cr_creatorAddress c) \<longrightarrow> ci_userAddress m = cr_creatorAddress c) \<and>
     (truthy (cr_flaggedKeyword c) \<longrightarrow>
        (case ci_title m of Some t \<Rightarrow> js_includes (js_lower t) (js_lower (the (cr_flaggedKeyword c))) | None \<Rightarrow> False))"

text \<open>\<open>String(x)\<close> of an optional string.\<close>

definition string_of :: "string option \<Rightarrow> string" where
  "string_of x = (case x of Some s \<Rightarrow> s | None \<Rightarrow> ''undefined'')"

definition simulateContentQuarantine :: "policy \<Rightarrow> data_source \<Rightarrow> sim_error + sim_result" where
  "simulateContentQuarantine proposed data =
     (let matched = filter (matches_criteria (criteria proposed)) (ds_materials data);
          matchedIds = map (\<lambda>m. string_of (ci_materialId m)) matched;
          hit = filter (\<lambda>p. string_of (p_materialId p) \<in> set matchedIds) (ds_purchases data);
          learners = truthy_values (map (\<lambda>p. or_else (p_learnerId p) (p_userId p)) hit);
          n = length matched;
          sev = (if 20 < n \<or> 50 < length learners then Sev_high else if 0 < n then Sev_medium else Sev_low)
      in Inr \<lparr>sr_delta = Quarantine_delta (criteria proposed) n,
           sr_impact = \<lparr>imp_severity = sev, affectedRecordsCount = n, affectedUsersCount = length learners,
             affectedUsersSample = take 5 learners, affectedRecordsSample = map ci_materialId (take 5 matched),
             financialImpact = None\<rparr>,
           sr_sideEffects = [(Search, Info, n), (Access, Warning, length learners)],
           sr_rollback = \<lparr>isFullyReversible = True, hasIrreversibleOperations = False,
             estimatedRollbackTimeMinutes = 15,
             preconditionsRequired = no_preconditions\<lparr>pre_confirmContentTakedown := True,
               pre_twoPersonApprovalRequired := (sev = Sev_high)\<rparr>\<rparr>\<rparr>)"

definition export_size :: "export_record \<Rightarrow> rat" where
  "export_size e = (case ex_sizeBytes e of Some b \<Rightarrow> if b \<noteq> 0 then b else 1024 * 1024 | None \<Rightarrow> 1024 * 1024)"

definition simulateArchiveRetention :: "policy \<Rightarrow> data_source \<Rightarrow> int \<Rightarrow> sim_error + sim_result" where
  "simulateArchiveRetention proposed data nowMs =
     (case retainExportsDays proposed of
        None \<Rightarrow> Inl Simulation_error
      | Some days \<Rightarrow>
          if days < 1 then Inl Simulation_error
          else let thresholdMs = of_int nowMs - days * 24 * 60 * 60 * 1000;
              purge = filter (\<lambda>e. case ex_createdAtMs e of Some t \<Rightarrow> of_int t < thresholdMs | None \<Rightarrow> False) (ds_exportRecords data);
              bytes = sum_list (map export_size purge);
              users = truthy_values (map ex_userId purge);
              n = length purge;
              sev = (if 500 < n \<or> 10 * 1024 * 1024 * 1024 < bytes then Sev_critical
                     else if 50 < n then Sev_high else if 0 < n then Sev_medium else Sev_low)
            in Inr \<lparr>sr_delta = Retention_delta days n bytes,
                 sr_impact = \<lparr>imp_severity = sev, affectedRecordsCount = n, affectedUsersCount = length users,
                   affectedUsersSample = take 5 users, affectedRecordsSample = map ex_id (take 5 purge),
                   financialImpact = None\<rparr>,
                 sr_sideEffects = [(Storage, Critical_effect, n), (User_experience, Warning, length users)],
                 sr_rollback = \<lparr>isFullyReversible = False, hasIrreversibleOperations = True,
                   estimatedRollbackTimeMinutes = 120,
                   preconditionsRequired = no_preconditions\<lparr>pre_confirmIrreversibleDataLoss := True,
                     pre_twoPersonApprovalRequired := True\<rparr>\<rparr>\<rparr>)"

section \<open>The preview and its commit\<close>

record preview =
  simulationId :: string
  pv_policyType :: policy_type
  pv_expiresAt :: int
  pv_actor :: string
  pv_result :: sim_result
  simulationFingerprint :: string

definition simulate ::
  "policy_type \<Rightarrow> policy \<Rightarrow> policy \<Rightarrow> data_source \<Rightarrow> int \<Rightarrow> sim_error + sim_result" where
  "simulate pt current proposed data now =
     (case pt of
        Marketplace_fee \<Rightarrow> simulateMarketplaceFee current proposed data
      | Entitlement_revocation \<Rightarrow> simulateEntitlementRevocation proposed data
      | Creator_payout_cap \<Rightarrow> simulateCreatorPayoutCap current proposed data
      | Content_quarantine \<Rightarrow> simulateContentQuarantine proposed data
      | Archive_retention \<Rightarrow> simulateArchiveRetention proposed data now)"

text \<open>
  \<open>None\<close> as policy type is one that is not supported, as proposal one that is not an object.
  \<open>actorName\<close> is the first truthy of the wallet, mail and subject of the actor, if any.
\<close>

definition simulatePolicyChange ::
  "(string \<times> policy_type \<times> policy \<times> policy \<times> delta \<times> severity \<times> nat \<times> nat \<times> bool \<Rightarrow> string) \<Rightarrow> string \<Rightarrow>
   policy_type option \<Rightarrow> policy option \<Rightarrow> policy \<Rightarrow> data_source \<Rightarrow> string option \<Rightarrow> int \<Rightarrow> sim_error + preview" where
  "simulatePolicyChange canonicalHash newId policyType proposedPolicy currentPolicy data actorName now =
     (case policyType of
        None \<Rightarrow> Inl Invalid_policy_type
      | Some pt \<Rightarrow>
          (case proposedPolicy of
             None \<Rightarrow> Inl Invalid_proposed_policy
           | Some proposed \<Rightarrow>
               (case simulate pt currentPolicy proposed data now of
                  Inl e \<Rightarrow> Inl e
                | Inr r \<Rightarrow> Inr \<lparr>simulationId = newId, pv_policyType = pt, pv_expiresAt = now + SIMULATION_TTL_MS,
                    pv_actor = or_default actorName ''maintainer'', pv_result = r,
                    simulationFingerprint = canonicalHash (newId, pt, currentPolicy, proposed, sr_delta r,
                      imp_severity (sr_impact r), affectedRecordsCount (sr_impact r), affectedUsersCount (sr_impact r),
                      hasIrreversibleOperations (sr_rollback r))\<rparr>)))"

record commit_request =
  cq_fingerprint :: "string option"
  cq_confirmIrreversibleDataLoss :: bool
  cq_confirmFinancialImpact :: bool
  cq_confirmIrreversibleRevocation :: bool
  cq_secondaryApprover :: "string option"

definition same_maintainer :: "string \<Rightarrow> string \<Rightarrow> bool" where
  "same_maintainer a b \<longleftrightarrow> js_trim (js_lower a) = js_trim (js_lower b)"

definition assertPolicyCommitAllowed :: "preview option \<Rightarrow> commit_request \<Rightarrow> int \<Rightarrow> sim_error + unit" where
  "assertPolicyCommitAllowed simulation req now =
     (case simulation of
        None \<Rightarrow> Inl Missing_simulation
      | Some s \<Rightarrow>
          if simulationId s = [] then Inl Missing_simulation
          else if pv_expiresAt s < now then Inl Simulation_expired
          else if \<not> truthy (cq_fingerprint req) \<or> cq_fingerprint req \<noteq> Some (simulationFingerprint s)
          then Inl Fingerprint_mismatch
          else let pre = preconditionsRequired (sr_rollback (pv_result s)) in
            if pre_confirmIrreversibleDataLoss pre \<and> \<not> cq_confirmIrreversibleDataLoss req
            then Inl (Confirmation_required ''confirmIrreversibleDataLoss'')
            else if pre_confirmFinancialImpact pre \<and> \<not> cq_confirmFinancialImpact req
            then Inl (Confirmation_required ''confirmFinancialImpact'')
            else if pre_confirmIrreversibleRevocation pre \<and> \<not> cq_confirmIrreversibleRevocation req
            then Inl (Confirmation_required ''confirmIrreversibleRevocation'')
            else if pre_twoPersonApprovalRequired pre
            then (if \<not> truthy (cq_secondaryApprover req) then Inl Dual_approval_required
                  else if same_maintainer (the (cq_secondaryApprover req)) (pv_actor s)
                  then Inl Self_approval_forbidden else Inr ())
            else Inr ())"

section \<open>Properties\<close>

lemma sum_list_scaled: "sum_list (map (\<lambda>p. f p * (c :: rat) / d) xs) = sum_list (map f xs) * c / d"
  by (induction xs) (simp_all add: algebra_simps add_divide_distrib)

text \<open>
  The projection of a fee change is exact: what the platform gains is what the creators lose,
  namely the volume of the sample times the difference of the rates; and the change counts as
  critical whenever it moves the fee by more than ten points or touches a volume above 50000.
\<close>

theorem fee_projection_exact:
  assumes "simulateMarketplaceFee current proposed data = Inr r" "platformFeeBps proposed = Some bps"
  shows "\<exists>fi. financialImpact (sr_impact r) = Some fi \<and> 0 \<le> bps \<and> bps \<le> 5000 \<and>
    platformFeeDelta fi = volumeAffected fi * (bps - (case platformFeeBps current of Some b \<Rightarrow> b | None \<Rightarrow> 500)) / 10000 \<and>
    creatorNetDelta fi + platformFeeDelta fi = 0 \<and>
    (imp_severity (sr_impact r) = Sev_critical \<longleftrightarrow>
       1000 < \<bar>bps - (case platformFeeBps current of Some b \<Rightarrow> b | None \<Rightarrow> 500)\<bar> \<or> 50000 < volumeAffected fi)"
  using assms
  by (auto simp: simulateMarketplaceFee_def Let_def sum_list_scaled right_diff_distrib diff_divide_distrib split: if_splits)

definition empty_policy :: policy where
  "empty_policy = \<lparr>platformFeeBps = None, materialIds = None, maxPayoutPerTx = None,
     criteria = \<lparr>cr_subject = None, cr_creatorAddress = None, cr_flaggedKeyword = None\<rparr>, retainExportsDays = None\<rparr>"

definition sample_data :: data_source where
  "sample_data = \<lparr>ds_materials = [\<lparr>ci_materialId = Some ''m1'', ci_subject = Some ''math'', ci_userAddress = None, ci_title = None\<rparr>],
     ds_purchases = [\<lparr>p_id = Some ''p1'', p_amount = Some 100, p_creator = Some ''c'', p_materialId = Some ''m1'',
       p_learnerId = Some ''l'', p_userId = None, p_buyer = None\<rparr>], ds_payouts = [], ds_entitlementCache = 0,
     ds_exportRecords = []\<rparr>"

theorem fee_projection_exact_witness:
  "\<exists>r fi. simulateMarketplaceFee empty_policy (empty_policy\<lparr>platformFeeBps := Some 700\<rparr>) sample_data = Inr r \<and>
     financialImpact (sr_impact r) = Some fi \<and> platformFeeDelta fi = volumeAffected fi * 200 / 10000"
proof -
  obtain r where r: "simulateMarketplaceFee empty_policy (empty_policy\<lparr>platformFeeBps := Some 700\<rparr>) sample_data = Inr r"
    by (simp add: simulateMarketplaceFee_def Let_def)
  from fee_projection_exact [OF r, of 700] r show ?thesis by (auto simp: empty_policy_def)
qed

text \<open>
  Exactly when a commit is let through: there is a preview, it has not expired, the request
  carries its fingerprint and every confirmation the gatekeeper asks for, and where two people
  are required the second one is named and is not the author of the preview.
\<close>

lemma commit_allowed_iff:
  "assertPolicyCommitAllowed simulation req now = Inr () \<longleftrightarrow>
     (\<exists>s. simulation = Some s \<and> simulationId s \<noteq> [] \<and> now \<le> pv_expiresAt s \<and>
        simulationFingerprint s \<noteq> [] \<and> cq_fingerprint req = Some (simulationFingerprint s) \<and>
        (let pre = preconditionsRequired (sr_rollback (pv_result s)) in
          (pre_confirmIrreversibleDataLoss pre \<longrightarrow> cq_confirmIrreversibleDataLoss req) \<and>
          (pre_confirmFinancialImpact pre \<longrightarrow> cq_confirmFinancialImpact req) \<and>
          (pre_confirmIrreversibleRevocation pre \<longrightarrow> cq_confirmIrreversibleRevocation req) \<and>
          (pre_twoPersonApprovalRequired pre \<longrightarrow> (\<exists>b. cq_secondaryApprover req = Some b \<and> b \<noteq> [] \<and>
             \<not> same_maintainer b (pv_actor s)))))"
proof (cases simulation)
  case None
  then show ?thesis by (simp add: assertPolicyCommitAllowed_def)
next
  case (Some s)
  have two: "(if \<not> truthy a then Inl Dual_approval_required
      else if same_maintainer (the a) c then Inl Self_approval_forbidden else Inr ()) = Inr () \<longleftrightarrow>
    (\<exists>b. a = Some b \<and> b \<noteq> [] \<and> \<not> same_maintainer b c)" for a :: "string option" and c
    by (cases a) auto
  have if_two: "(if p then r else Inr ()) = Inr () \<longleftrightarrow> (p \<longrightarrow> r = Inr ())" for p and r :: "sim_error + unit" by simp
  have fp: "\<not> (\<not> truthy f \<or> f \<noteq> Some h) \<longleftrightarrow> h \<noteq> [] \<and> f = Some h" for f :: "string option" and h
    by (cases f) auto
  show ?thesis
    unfolding assertPolicyCommitAllowed_def Some option.case Let_def guard_Inr if_two two fp not_less
    by (cases "cq_secondaryApprover req") (simp_all add: conj_assoc)
qed


text \<open>What each simulation demands depends only on the severity it found.\<close>

lemma fee_pre: "simulateMarketplaceFee current proposed data = Inr r \<Longrightarrow>
  preconditionsRequired (sr_rollback r) = no_preconditions\<lparr>
    pre_confirmFinancialImpact := (imp_severity (sr_impact r) = Sev_critical \<or> imp_severity (sr_impact r) = Sev_high),
    pre_twoPersonApprovalRequired := (imp_severity (sr_impact r) = Sev_critical)\<rparr>"
  unfolding simulateMarketplaceFee_def Let_def by (clarsimp split: option.split_asm if_split_asm)

lemma revocation_pre: "simulateEntitlementRevocation proposed data = Inr r \<Longrightarrow>
  preconditionsRequired (sr_rollback r) = no_preconditions\<lparr>pre_confirmIrreversibleRevocation := True,
    pre_twoPersonApprovalRequired := (imp_severity (sr_impact r) = Sev_critical)\<rparr>"
  unfolding simulateEntitlementRevocation_def Let_def by (clarsimp split: option.split_asm if_split_asm)

lemma cap_pre: "simulateCreatorPayoutCap current proposed data = Inr r \<Longrightarrow>
  pre_twoPersonApprovalRequired (preconditionsRequired (sr_rollback r)) =
    (imp_severity (sr_impact r) = Sev_high \<or> imp_severity (sr_impact r) = Sev_critical)"
  unfolding simulateCreatorPayoutCap_def Let_def by (clarsimp split: option.split_asm if_split_asm)

lemma quarantine_pre: "simulateContentQuarantine proposed data = Inr r \<Longrightarrow>
  preconditionsRequired (sr_rollback r) = no_preconditions\<lparr>pre_confirmContentTakedown := True,
    pre_twoPersonApprovalRequired := (imp_severity (sr_impact r) = Sev_high)\<rparr> \<and>
  imp_severity (sr_impact r) \<noteq> Sev_critical"
  unfolding simulateContentQuarantine_def Let_def by clarsimp

lemma retention_pre: "simulateArchiveRetention proposed data now = Inr r \<Longrightarrow>
  preconditionsRequired (sr_rollback r) = no_preconditions\<lparr>pre_confirmIrreversibleDataLoss := True,
    pre_twoPersonApprovalRequired := True\<rparr>"
  unfolding simulateArchiveRetention_def Let_def by (clarsimp split: option.split_asm if_split_asm)

lemma critical_needs_two:
  "simulate pt current proposed data now = Inr r \<Longrightarrow> imp_severity (sr_impact r) = Sev_critical \<or> pt = Archive_retention \<Longrightarrow>
   pre_twoPersonApprovalRequired (preconditionsRequired (sr_rollback r))"
  by (cases pt) (auto simp: simulate_def fee_pre revocation_pre cap_pre quarantine_pre retention_pre)

text \<open>
  No change of critical severity and no purge is committed by one person: a commit of such a
  preview goes through only within fifteen minutes of the simulation and only with a second
  maintainer other than its author.
\<close>

theorem critical_change_needs_two_people:
  assumes "simulatePolicyChange canonicalHash newId (Some pt) (Some proposed) current data actorName created = Inr pv"
    "imp_severity (sr_impact (pv_result pv)) = Sev_critical \<or> pt = Archive_retention"
    "assertPolicyCommitAllowed (Some pv) req now = Inr ()"
  shows "now \<le> created + 15 * 60 * 1000 \<and>
    (\<exists>b. cq_secondaryApprover req = Some b \<and> \<not> same_maintainer b (or_default actorName ''maintainer''))"
proof -
  obtain r where r: "simulate pt current proposed data created = Inr r" and
    pv: "pv_result pv = r" "pv_expiresAt pv = created + SIMULATION_TTL_MS" "pv_actor pv = or_default actorName ''maintainer''"
    using assms(1) by (auto simp: simulatePolicyChange_def split: sum.splits)
  have "pre_twoPersonApprovalRequired (preconditionsRequired (sr_rollback r))"
    using critical_needs_two [OF r] assms(2) pv by simp
  with assms(3) pv show ?thesis by (auto simp: commit_allowed_iff Let_def SIMULATION_TTL_MS_def)
qed


definition purge_policy :: policy where
  "purge_policy = empty_policy\<lparr>retainExportsDays := Some 30\<rparr>"

definition full_request :: "string option \<Rightarrow> commit_request" where
  "full_request second = \<lparr>cq_fingerprint = Some ''h'', cq_confirmIrreversibleDataLoss = True,
     cq_confirmFinancialImpact = True, cq_confirmIrreversibleRevocation = True, cq_secondaryApprover = second\<rparr>"

theorem critical_change_needs_two_people_witness:
  "\<exists>pv. simulatePolicyChange (\<lambda>_. ''h'') ''sim_1'' (Some Archive_retention) (Some purge_policy) empty_policy
       sample_data (Some ''alice'') 0 = Inr pv \<and>
     assertPolicyCommitAllowed (Some pv) (full_request (Some ''bob'')) 900000 = Inr () \<and>
     \<not> same_maintainer ''bob'' ''alice''"
proof -
  obtain pv where pv: "simulatePolicyChange (\<lambda>_. ''h'') ''sim_1'' (Some Archive_retention) (Some purge_policy)
      empty_policy sample_data (Some ''alice'') 0 = Inr pv"
    "simulationId pv = ''sim_1''" "pv_expiresAt pv = 900000" "simulationFingerprint pv = ''h''" "pv_actor pv = ''alice''"
    by (simp add: simulatePolicyChange_def simulate_def simulateArchiveRetention_def purge_policy_def Let_def
        SIMULATION_TTL_MS_def)
  have "\<not> same_maintainer ''bob'' ''alice''" by code_simp
  then have ok: "assertPolicyCommitAllowed (Some pv) (full_request (Some ''bob'')) 900000 = Inr ()"
    using pv(2-5) by (simp add: commit_allowed_iff full_request_def)
  have "\<exists>b. cq_secondaryApprover (full_request (Some ''bob'')) = Some b \<and>
      \<not> same_maintainer b (or_default (Some ''alice'') ''maintainer'')"
    using critical_change_needs_two_people [OF pv(1) _ ok] by simp
  then show ?thesis using pv(1) ok by (auto simp: full_request_def)
qed

text \<open>
  The simulation of a quarantine always demands the flag \<open>confirmContentTakedown\<close>, but the
  gatekeeper never asks for it: unless the impact is high, the request that brings nothing but
  the fingerprint is let through.
\<close>

theorem takedown_confirmation_not_enforced:
  assumes "simulatePolicyChange canonicalHash newId (Some Content_quarantine) (Some proposed) current data actorName now = Inr pv"
    "imp_severity (sr_impact (pv_result pv)) \<noteq> Sev_high" "newId \<noteq> []" "simulationFingerprint pv \<noteq> []"
  shows "pre_confirmContentTakedown (preconditionsRequired (sr_rollback (pv_result pv))) \<and>
    assertPolicyCommitAllowed (Some pv) \<lparr>cq_fingerprint = Some (simulationFingerprint pv),
      cq_confirmIrreversibleDataLoss = False, cq_confirmFinancialImpact = False,
      cq_confirmIrreversibleRevocation = False, cq_secondaryApprover = None\<rparr> now = Inr ()"
proof -
  obtain r where r: "simulateContentQuarantine proposed data = Inr r" and
    pv: "pv_result pv = r" "pv_expiresAt pv = now + SIMULATION_TTL_MS" "simulationId pv = newId"
    using assms(1) by (auto simp: simulatePolicyChange_def simulate_def split: sum.splits)
  show ?thesis using quarantine_pre [OF r] pv assms(2-4)
    by (simp add: commit_allowed_iff no_preconditions_def SIMULATION_TTL_MS_def)
qed

theorem takedown_confirmation_not_enforced_witness:
  "\<exists>pv. simulatePolicyChange (\<lambda>_. ''h'') ''sim_1'' (Some Content_quarantine) (Some empty_policy) empty_policy
       sample_data None 0 = Inr pv \<and>
     pre_confirmContentTakedown (preconditionsRequired (sr_rollback (pv_result pv))) \<and>
     assertPolicyCommitAllowed (Some pv) \<lparr>cq_fingerprint = Some ''h'',
      cq_confirmIrreversibleDataLoss = False, cq_confirmFinancialImpact = False,
      cq_confirmIrreversibleRevocation = False, cq_secondaryApprover = None\<rparr> 0 = Inr ()"
proof -
  obtain pv where pv: "simulatePolicyChange (\<lambda>_. ''h'') ''sim_1'' (Some Content_quarantine) (Some empty_policy)
      empty_policy sample_data None 0 = Inr pv" "simulationFingerprint pv = ''h''"
    "imp_severity (sr_impact (pv_result pv)) \<noteq> Sev_high"
  proof -
    have "case simulateContentQuarantine empty_policy sample_data of
        Inr r \<Rightarrow> imp_severity (sr_impact r) = Sev_medium | Inl _ \<Rightarrow> False" by code_simp
    then obtain r where "simulateContentQuarantine empty_policy sample_data = Inr r" "imp_severity (sr_impact r) = Sev_medium"
      by (auto split: sum.splits)
    then show ?thesis by (intro that, simp add: simulatePolicyChange_def simulate_def, simp_all)
  qed
  from takedown_confirmation_not_enforced [OF pv(1,3)] pv show ?thesis by auto
qed

end
