(* ===== verification/Json.thy ===== *)
theory Json imports Prelude begin

text \<open>
  Dynamic values, the documents MongoDB stores and the plain objects the services pass around: a
  document is the association list of its own properties. A value that may be undefined is an
  option. With the truthiness and the defaults of JavaScript, and \<open>$set\<close>.
\<close>

section \<open>Values and documents\<close>

datatype json =
    JNull
  | JBool bool
  | JNum rat
  | JStr string
  | JDate int
  | JArr "json list"
  | JObj "(string \<times> json) list"

type_synonym document = "(string \<times> json) list"

section \<open>Truthiness and defaults\<close>

fun js_true :: "json option \<Rightarrow> bool" where
  "js_true None = False"
| "js_true (Some JNull) = False"
| "js_true (Some (JBool b)) = b"
| "js_true (Some (JNum r)) = (r \<noteq> 0)"
| "js_true (Some (JStr s)) = (s \<noteq> [])"
| "js_true (Some _) = True"

text \<open>\<open>v == null\<close>: undefined or null.\<close>

definition nullish :: "json option \<Rightarrow> bool" where
  "nullish v \<longleftrightarrow> v = None \<or> v = Some JNull"

text \<open>\<open>v || null\<close> and \<open>v ?? null\<close>.\<close>

definition or_null :: "json option \<Rightarrow> json" where
  "or_null v = (case v of Some x \<Rightarrow> if js_true v then x else JNull | None \<Rightarrow> JNull)"

definition nullish_null :: "json option \<Rightarrow> json" where
  "nullish_null v = (case v of Some x \<Rightarrow> x | None \<Rightarrow> JNull)"

text \<open>An optional string or number as a value; null is stored when it is missing.\<close>

definition jstr :: "string option \<Rightarrow> json" where
  "jstr s = (case s of Some x \<Rightarrow> JStr x | None \<Rightarrow> JNull)"

definition jint :: "int option \<Rightarrow> json" where
  "jint n = (case n of Some x \<Rightarrow> JNum (of_int x) | None \<Rightarrow> JNull)"

lemma jstr_simps [simp]: "jstr None = JNull" "jstr (Some s) = JStr s"
  by (simp_all add: jstr_def)

lemma jint_simps [simp]: "jint None = JNull" "jint (Some n) = JNum (of_int n)"
  by (simp_all add: jint_def)

text \<open>A value read as a string or a number; other values are not one.\<close>

fun as_str :: "json option \<Rightarrow> string option" where
  "as_str (Some (JStr s)) = Some s"
| "as_str _ = None"

fun as_num :: "json option \<Rightarrow> rat option" where
  "as_num (Some (JNum r)) = Some r"
| "as_num _ = None"

section \<open>Writing fields\<close>

definition set_fields :: "document \<Rightarrow> document \<Rightarrow> document" where
  "set_fields fields d = fold (\<lambda>(k, v). AList.update k v) fields d"

text \<open>\<open>{ ...d, k: v }\<close>: later properties replace earlier ones.\<close>

definition with_field :: "string \<Rightarrow> json \<Rightarrow> document \<Rightarrow> document" where
  "with_field k v d = AList.update k v d"

text \<open>What a field is after the write.\<close>

lemma map_of_set_fields: "map_of (set_fields flds d) k =
   (case map_of (rev flds) k of Some v \<Rightarrow> Some v | None \<Rightarrow> map_of d k)"
proof (induction flds arbitrary: d)
  case (Cons x flds)
  obtain a b where x: "x = (a, b)" by (cases x)
  show ?case
    using Cons.IH [of "AList.update a b d"]
    by (simp add: x set_fields_def update_conv' map_add_def split: option.split)
qed (simp add: set_fields_def)

lemma map_of_set_fields_distinct: "distinct (keys flds) \<Longrightarrow> map_of (set_fields flds d) k =
   (case map_of flds k of Some v \<Rightarrow> Some v | None \<Rightarrow> map_of d k)"
proof -
  assume "distinct (keys flds)"
  then have "map_of (rev flds) = map_of flds"
    by (intro map_of_inject_set [THEN iffD2]) (simp_all add: rev_map [symmetric])
  then show ?thesis by (simp add: map_of_set_fields)
qed

lemma set_fields_distinct: "distinct (keys d) \<Longrightarrow> distinct (keys (set_fields flds d))"
  by (induction flds arbitrary: d) (auto simp: set_fields_def)

end
