(* ===== verification/ConflictResolver.thy ===== *)
theory ConflictResolver
  imports Json "HOL-Library.List_Lexorder" "HOL-Library.Char_ord"
begin

text \<open>
  \<open>src/lib/backend/versionedWrite.js\<close> (compare-and-set on a version) and
  \<open>src/lib/backend/conflictResolver.js\<close> (three-way merge of concurrent edits, and the update loop
  that uses both). A document is the association list of its own properties, a collection maps
  identifiers to documents; \<open>findOne\<close> and \<open>findOneAndUpdate\<close> with \<open>$set\<close> are modelled on it, and
  other writers may change the collection before every access of the loop. Versions are numbers;
  error texts are not modelled.
\<close>

section \<open>Equality of values\<close>

text \<open>
  \<open>valuesAreEqual\<close>: an array and an object (or a date and an object without properties) are
  compared by their keys, as the code does.
\<close>

fun values_eq :: "json \<Rightarrow> json \<Rightarrow> bool"
  and values_eq_list :: "json list \<Rightarrow> json list \<Rightarrow> bool"
  and values_eq_index :: "nat \<Rightarrow> json list \<Rightarrow> document \<Rightarrow> bool"
  and values_eq_fields :: "document \<Rightarrow> (string \<Rightarrow> json option) \<Rightarrow> bool" where
  "values_eq (JArr xs) (JArr ys) = (length xs = length ys \<and> values_eq_list xs ys)"
| "values_eq (JArr xs) (JObj m) = (length xs = length m \<and> values_eq_index 0 xs m)"
| "values_eq (JArr xs) (JDate t) = (xs = [])"
| "values_eq (JObj a) (JObj b) = (length a = length b \<and> values_eq_fields a (map_of b))"
| "values_eq (JObj a) (JArr ys) = (length a = length ys \<and>
     values_eq_fields a (map_of (zip (map nat_str [0..<length ys]) ys)))"
| "values_eq (JObj a) (JDate t) = (a = [])"
| "values_eq (JDate s) (JDate t) = (s = t)"
| "values_eq (JDate s) (JArr ys) = (ys = [])"
| "values_eq (JDate s) (JObj b) = (b = [])"
| "values_eq (JBool a) (JBool b) = (a = b)"
| "values_eq (JNum a) (JNum b) = (a = b)"
| "values_eq (JStr a) (JStr b) = (a = b)"
| "values_eq JNull JNull = True"
| "values_eq _ _ = False"
| "values_eq_list (x # xs) (y # ys) = (values_eq x y \<and> values_eq_list xs ys)"
| "values_eq_list _ _ = True"
| "values_eq_index i [] m = True"
| "values_eq_index i (x # xs) m =
     ((case map_of m (nat_str i) of Some y \<Rightarrow> values_eq x y | None \<Rightarrow> False) \<and> values_eq_index (Suc i) xs m)"
| "values_eq_fields [] look = True"
| "values_eq_fields ((k, x) # a) look =
     ((case look k of Some y \<Rightarrow> values_eq x y | None \<Rightarrow> False) \<and> values_eq_fields a look)"

text \<open>On values that may be undefined.\<close>

definition valuesAreEqual :: "json option \<Rightarrow> json option \<Rightarrow> bool" where
  "valuesAreEqual a b =
     (case (a, b) of (None, None) \<Rightarrow> True | (Some x, Some y) \<Rightarrow> values_eq x y | _ \<Rightarrow> False)"

section \<open>Compare and set on the version\<close>

type_synonym collection = "string \<Rightarrow> document option"

definition effectiveVersion :: "document option \<Rightarrow> rat" where
  "effectiveVersion doc =
     (case doc of None \<Rightarrow> 1
      | Some d \<Rightarrow> (case map_of d ''version'' of Some (JNum v) \<Rightarrow> if v = 0 then 1 else v | _ \<Rightarrow> 1))"

text \<open>Whether a document passes \<open>buildVersionFilter\<close>.\<close>

definition at_version :: "rat \<Rightarrow> document \<Rightarrow> bool" where
  "at_version v d =
     (if v = 1 then map_of d ''version'' \<in> {Some (JNum 1), None, Some JNull}
      else map_of d ''version'' = Some (JNum v))"

text \<open>\<open>findOneAndUpdate(buildVersionFilter(id, v), { $set: fields })\<close>.\<close>

definition find_and_set :: "collection \<Rightarrow> string \<Rightarrow> rat \<Rightarrow> document \<Rightarrow> document option \<times> collection" where
  "find_and_set c i v fields =
     (case c i of
        Some d \<Rightarrow> if at_version v d then (Some (set_fields fields d), c(i \<mapsto> set_fields fields d)) else (None, c)
      | None \<Rightarrow> (None, c))"

datatype versioned_write =
    Updated document rat
  | Vw_conflict rat rat
  | Vw_not_found

text \<open>
  \<open>race\<close> is what other writers do
  between the two accesses.
\<close>

definition updateWithExpectedVersion ::
  "(collection \<Rightarrow> collection) \<Rightarrow> collection \<Rightarrow> string \<Rightarrow> rat \<Rightarrow> document \<Rightarrow> (rat \<Rightarrow> document) \<Rightarrow>
   versioned_write \<times> collection" where
  "updateWithExpectedVersion race c i baseVersion fields extraSet =
     (let nextVersion = baseVersion + 1 in
      case find_and_set c i baseVersion
             (set_fields (extraSet nextVersion) (with_field ''version'' (JNum nextVersion) fields)) of
        (Some doc, c1) \<Rightarrow> (Updated doc nextVersion, c1)
      | (None, c1) \<Rightarrow>
          let c2 = race c1 in
          (case c2 i of
             None \<Rightarrow> (Vw_not_found, c2)
           | Some fresh \<Rightarrow> (Vw_conflict (effectiveVersion (Some fresh)) baseVersion, c2)))"

section \<open>Differences\<close>

definition CRITICAL_CONFLICT_FIELDS :: "string list" where
  "CRITICAL_CONFLICT_FIELDS = [''license'', ''userAddress'', ''ownerAddress'', ''visibility'', ''storageKey'',
     ''fileUrl'', ''legalTombstone'']"

definition IMMUTABLE_SYSTEM_FIELDS :: "string list" where
  "IMMUTABLE_SYSTEM_FIELDS = [''_id'', ''createdAt'', ''chainContractId'', ''chainLedger'', ''chainTxHash'']"

definition PRIVILEGED_FIELDS :: "string list" where
  "PRIVILEGED_FIELDS = [''moderationStatus'', ''quarantineStatus'', ''creatorSuspended'', ''legalTombstone'',
     ''legalRemovedAt'', ''internalReviewFlags'']"

record doc_diff =
  added :: document
  modified :: "(string \<times> json \<times> json) list"
  deleted :: "string list"

definition skipped_field :: "string \<Rightarrow> bool" where
  "skipped_field k \<longleftrightarrow> k \<in> set IMMUTABLE_SYSTEM_FIELDS \<or> k = ''version''"

definition diffDocuments :: "document \<Rightarrow> document \<Rightarrow> doc_diff" where
  "diffDocuments base target =
     \<lparr>added = filter (\<lambda>(k, v). \<not> skipped_field k \<and> map_of base k = None) target,
      modified = List.map_filter (\<lambda>(k, v). if skipped_field k then None
        else (case map_of base k of None \<Rightarrow> None
              | Some w \<Rightarrow> if values_eq w v then None else Some (k, w, v))) target,
      deleted = filter (\<lambda>k. \<not> skipped_field k \<and> map_of target k = None) (keys base)\<rparr>"

definition diff_fields :: "doc_diff \<Rightarrow> string list" where
  "diff_fields d = keys (added d) @ map fst (modified d) @ deleted d"

section \<open>Authorization\<close>

record actor =
  ac_role :: "string option"
  ac_id :: "string option"
  ac_sub :: "string option"

datatype auth_result = Authorized | Unauthorized "string list"

text \<open>\<open>ac_id\<close> is \<open>actor.id || actor.userAddress\<close>.\<close>

definition validateFieldAuthorization :: "actor \<Rightarrow> string option \<Rightarrow> string list \<Rightarrow> auth_result" where
  "validateFieldAuthorization actor resourceOwnerId fieldsToUpdate =
     (let role = or_default (ac_role actor) ''learner'';
          actorId = (if truthy (ac_id actor) then ac_id actor else ac_sub actor) in
      if role = ''learner'' then Unauthorized fieldsToUpdate
      else if role = ''creator'' then
        (if truthy resourceOwnerId \<and> resourceOwnerId \<noteq> actorId then Unauthorized fieldsToUpdate
         else let violations = filter (\<lambda>f. f \<in> set PRIVILEGED_FIELDS) fieldsToUpdate in
              if 0 < length violations then Unauthorized violations else Authorized)
      else Authorized)"

section \<open>Merging\<close>

definition mergeArrayUnion :: "json list \<Rightarrow> json list \<Rightarrow> json list" where
  "mergeArrayUnion serverArr clientArr =
     foldl (\<lambda>r x. if x \<in> set r then r else r @ [x]) serverArr clientArr"

text \<open>\<open>Number(x) || 0\<close>; numeric strings are not modelled.\<close>

definition to_number :: "json option \<Rightarrow> rat" where
  "to_number x = (case x of Some (JNum r) \<Rightarrow> r | Some (JBool True) \<Rightarrow> 1 | Some (JDate t) \<Rightarrow> of_int t | _ \<Rightarrow> 0)"

definition mergeNumericDelta :: "json option \<Rightarrow> json option \<Rightarrow> json option \<Rightarrow> rat" where
  "mergeNumericDelta baseVal serverVal clientVal =
     to_number serverVal + (to_number clientVal - to_number baseVal)"

record writer_meta =
  wm_actor :: "string option"
  wm_timestamp :: int

datatype winner = Identical | Nobody | Union | Delta | Client | Server

datatype strategy = Idempotent_identical | Manual_required | Array_set_union | Numeric_relative_delta
  | Lww_timestamp | Lww_actor_tiebreak

record field_resolution =
  resolved :: bool
  fr_winner :: winner
  fr_value :: "json option"
  fr_strategy :: strategy

definition resolveFieldConflict ::
  "string \<Rightarrow> json option \<Rightarrow> json option \<Rightarrow> json option \<Rightarrow> writer_meta \<Rightarrow> writer_meta \<Rightarrow> bool \<Rightarrow> field_resolution" where
  "resolveFieldConflict field baseVal serverVal clientVal clientMeta serverMeta strict =
     (if valuesAreEqual serverVal clientVal
      then \<lparr>resolved = True, fr_winner = Identical, fr_value = clientVal, fr_strategy = Idempotent_identical\<rparr>
      else if strict \<and> field \<in> set CRITICAL_CONFLICT_FIELDS
      then \<lparr>resolved = False, fr_winner = Nobody, fr_value = serverVal, fr_strategy = Manual_required\<rparr>
      else case (serverVal, clientVal) of
        (Some (JArr s), Some (JArr c)) \<Rightarrow>
          \<lparr>resolved = True, fr_winner = Union, fr_value = Some (JArr (mergeArrayUnion s c)), fr_strategy = Array_set_union\<rparr>
      | _ \<Rightarrow>
        if (case (serverVal, clientVal) of (Some (JNum _), Some (JNum _)) \<Rightarrow> True | _ \<Rightarrow> False) \<and>
           field \<in> {''likes'', ''viewsCount'', ''feedbackCount''}
        then \<lparr>resolved = True, fr_winner = Delta, fr_value = Some (JNum (mergeNumericDelta baseVal serverVal clientVal)),
              fr_strategy = Numeric_relative_delta\<rparr>
        else if wm_timestamp serverMeta < wm_timestamp clientMeta
        then \<lparr>resolved = True, fr_winner = Client, fr_value = clientVal, fr_strategy = Lww_timestamp\<rparr>
        else if wm_timestamp clientMeta < wm_timestamp serverMeta
        then \<lparr>resolved = True, fr_winner = Server, fr_value = serverVal, fr_strategy = Lww_timestamp\<rparr>
        else if or_default (wm_actor serverMeta) [] \<le> or_default (wm_actor clientMeta) []
        then \<lparr>resolved = True, fr_winner = Client, fr_value = clientVal, fr_strategy = Lww_actor_tiebreak\<rparr>
        else \<lparr>resolved = True, fr_winner = Server, fr_value = serverVal, fr_strategy = Lww_actor_tiebreak\<rparr>)"

record merge_state =
  merged :: document
  cleanFields :: "string list"
  resolvedFields :: "(string \<times> field_resolution) list"
  unresolvedConflicts :: "string list"

text \<open>
  Assigning an undefined value leaves the property in place with the value undefined; the document
  stored from it does not have the property, so it is the same as deleting it.
\<close>

definition put_field :: "string \<Rightarrow> json option \<Rightarrow> document \<Rightarrow> document" where
  "put_field k v d = (case v of Some x \<Rightarrow> AList.update k x d | None \<Rightarrow> AList.delete k d)"

definition merge_field ::
  "document \<Rightarrow> document \<Rightarrow> document \<Rightarrow> doc_diff \<Rightarrow> doc_diff \<Rightarrow> writer_meta \<Rightarrow> writer_meta \<Rightarrow> bool \<Rightarrow> string \<Rightarrow>
   merge_state \<Rightarrow> merge_state" where
  "merge_field base server client clientDiff serverDiff clientMeta serverMeta strict field st =
     (let clientChanged = field \<in> set (diff_fields clientDiff);
          serverChanged = field \<in> set (diff_fields serverDiff) in
      if clientChanged \<and> \<not> serverChanged
      then st\<lparr>merged := (if field \<in> set (deleted clientDiff) then AList.delete field (merged st)
                         else put_field field (map_of client field) (merged st)),
              cleanFields := cleanFields st @ [field]\<rparr>
      else if serverChanged \<and> \<not> clientChanged
      then st\<lparr>cleanFields := cleanFields st @ [field]\<rparr>
      else let r = resolveFieldConflict field (map_of base field) (map_of server field) (map_of client field)
                     clientMeta serverMeta strict in
        if resolved r
        then st\<lparr>merged := put_field field (fr_value r) (merged st),
                resolvedFields := resolvedFields st @ [(field, r)]\<rparr>
        else st\<lparr>unresolvedConflicts := unresolvedConflicts st @ [field]\<rparr>)"

datatype conflict_status =
    Clean_write | Auto_merged | Conflict_requires_action | Status_unauthorized | Not_found | Invalid_transition

record resolution =
  rs_status :: conflict_status
  canAutoMerge :: bool
  mergedDocument :: document
  rs_cleanFields :: "string list"
  rs_resolvedFields :: "(string \<times> field_resolution) list"
  rs_unresolved :: "string list"
  rs_baseVersion :: rat
  rs_serverVersion :: rat
  rs_newVersion :: rat

definition resolveConflictThreeWay ::
  "document \<Rightarrow> document \<Rightarrow> document \<Rightarrow> writer_meta \<Rightarrow> writer_meta \<Rightarrow> bool \<Rightarrow> int \<Rightarrow> resolution" where
  "resolveConflictThreeWay base server client clientMeta serverMeta strict now =
     (if map_of server ''isDeleted'' = Some (JBool True) \<and> map_of client ''isDeleted'' \<noteq> Some (JBool True)
      then \<lparr>rs_status = Invalid_transition, canAutoMerge = False, mergedDocument = [], rs_cleanFields = [],
            rs_resolvedFields = [], rs_unresolved = [''isDeleted''], rs_baseVersion = 0, rs_serverVersion = 0,
            rs_newVersion = 0\<rparr>
      else let clientDiff = diffDocuments base client;
               serverDiff = diffDocuments base server;
               touched = js_set (diff_fields clientDiff @ diff_fields serverDiff);
               st = fold (merge_field base server client clientDiff serverDiff clientMeta serverMeta strict) touched
                      \<lparr>merged = server, cleanFields = [], resolvedFields = [], unresolvedConflicts = []\<rparr>;
               isMerged = ((diff_fields clientDiff \<noteq> [] \<and> diff_fields serverDiff \<noteq> []) \<or> resolvedFields st \<noteq> []);
               auto = (unresolvedConflicts st = []);
               currentVersion = effectiveVersion (Some server)
           in \<lparr>rs_status = (if auto then (if isMerged then Auto_merged else Clean_write) else Conflict_requires_action),
               canAutoMerge = auto,
               mergedDocument = with_field ''updatedAt'' (JDate now) (with_field ''version'' (JNum (currentVersion + 1)) (merged st)),
               rs_cleanFields = cleanFields st, rs_resolvedFields = resolvedFields st,
               rs_unresolved = unresolvedConflicts st, rs_baseVersion = effectiveVersion (Some base),
               rs_serverVersion = currentVersion, rs_newVersion = currentVersion + 1\<rparr>)"

section \<open>The audit record\<close>

record conflict_audit =
  au_materialId :: string
  au_actor :: string
  au_versions :: "rat \<times> rat \<times> rat"
  au_status :: conflict_status
  au_resolved :: "(string \<times> strategy \<times> winner) list"
  au_unresolvedCount :: nat

definition buildConflictAuditRecord :: "string \<Rightarrow> string option \<Rightarrow> resolution \<Rightarrow> conflict_audit" where
  "buildConflictAuditRecord materialId actor r =
     \<lparr>au_materialId = materialId, au_actor = or_default actor ''system'',
      au_versions = (rs_baseVersion r, rs_serverVersion r, rs_newVersion r), au_status = rs_status r,
      au_resolved = map (\<lambda>(f, x). (f, fr_strategy x, fr_winner x)) (rs_resolvedFields r),
      au_unresolvedCount = length (rs_unresolved r)\<rparr>"

section \<open>The update loop\<close>

datatype update_outcome =
    Done conflict_status document rat nat
  | Missing_document
  | Denied "string list"
  | Needs_action conflict_status "string list"
  | Retries_exhausted rat

definition server_meta :: "document \<Rightarrow> writer_meta" where
  "server_meta d = \<lparr>wm_actor = (case map_of d ''lastModifiedBy'' of Some (JStr a) \<Rightarrow> Some (or_default (Some a) ''server'')
       | _ \<Rightarrow> Some ''server''),
     wm_timestamp = (case map_of d ''updatedAt'' of Some (JDate t) \<Rightarrow> t | Some (JNum t) \<Rightarrow> \<lfloor>t\<rfloor> | _ \<Rightarrow> 0)\<rparr>"

text \<open>\<open>left\<close> counts the attempts that remain, \<open>attempt\<close> those made; \<open>race n\<close> is what others write before access \<open>n\<close>.\<close>

fun update_loop ::
  "(nat \<Rightarrow> collection \<Rightarrow> collection) \<Rightarrow> string \<Rightarrow> actor \<Rightarrow> bool \<Rightarrow> int \<Rightarrow> nat \<Rightarrow> nat \<Rightarrow> rat \<Rightarrow> document \<Rightarrow> document \<Rightarrow>
   collection \<Rightarrow> update_outcome \<times> collection" where
  "update_loop race i actor strict now 0 attempt expected base client c = (Retries_exhausted expected, c)"
| "update_loop race i actor strict now (Suc left) attempt expected base client c =
     (case find_and_set (race (2 * attempt) c) i expected
             (with_field ''updatedAt'' (JDate now) (with_field ''version'' (JNum (expected + 1)) client)) of
        (Some doc, c1) \<Rightarrow> (Done (if attempt = 0 then Clean_write else Auto_merged) doc (expected + 1) (attempt + 1), c1)
      | (None, c1) \<Rightarrow>
          let c2 = race (2 * attempt + 1) c1 in
          (case c2 i of
             None \<Rightarrow> (Missing_document, c2)
           | Some fresh \<Rightarrow>
               let r = resolveConflictThreeWay base fresh client \<lparr>wm_actor = ac_id actor, wm_timestamp = now\<rparr>
                         (server_meta fresh) strict now in
               if \<not> canAutoMerge r then (Needs_action (rs_status r) (rs_unresolved r), c2)
               else update_loop race i actor strict now left (attempt + 1) (rs_serverVersion r) fresh (mergedDocument r) c2))"

definition owner_of :: "document \<Rightarrow> string option" where
  "owner_of d = (case map_of d ''userAddress'' of
       Some (JStr a) \<Rightarrow> if a \<noteq> [] then Some a else (case map_of d ''author'' of Some (JStr b) \<Rightarrow> Some b | _ \<Rightarrow> None)
     | _ \<Rightarrow> (case map_of d ''author'' of Some (JStr b) \<Rightarrow> Some b | _ \<Rightarrow> None))"

definition updateWithConflictResolution ::
  "(nat \<Rightarrow> collection \<Rightarrow> collection) \<Rightarrow> collection \<Rightarrow> string \<Rightarrow> rat \<Rightarrow> document \<Rightarrow> actor \<Rightarrow> document option \<Rightarrow> bool \<Rightarrow> nat \<Rightarrow>
   int \<Rightarrow> update_outcome \<times> collection" where
  "updateWithConflictResolution race c i baseVersion clientDoc actor baseDoc strict maxRetries now =
     (case (case baseDoc of Some b \<Rightarrow> Some b | None \<Rightarrow> c i) of
        None \<Rightarrow> (Missing_document, c)
      | Some base \<Rightarrow>
          let d = diffDocuments base clientDoc;
              fieldsToChange = keys (added d) @ map fst (modified d) in
          (case validateFieldAuthorization actor (owner_of base) fieldsToChange of
             Unauthorized fs \<Rightarrow> (Denied fs, c)
           | Authorized \<Rightarrow> update_loop race i actor strict now maxRetries 0 baseVersion base clientDoc c))"


section \<open>Lemmas on differences and merging\<close>

lemma map_of_filter_key: "distinct (keys m) \<Longrightarrow> k \<in> set (keys (filter (\<lambda>(k, v). P k v) m)) \<longleftrightarrow>
   (\<exists>v. map_of m k = Some v \<and> P k v)"
  by (force simp: map_of_eq_Some_iff)

text \<open>A field is in the difference exactly when its values differ.\<close>

definition changed :: "document \<Rightarrow> document \<Rightarrow> string \<Rightarrow> bool" where
  "changed base target f \<longleftrightarrow> \<not> skipped_field f \<and> \<not> valuesAreEqual (map_of base f) (map_of target f)"

lemma diff_fields_iff:
  assumes "distinct (keys base)" "distinct (keys target)"
  shows "f \<in> set (diff_fields (diffDocuments base target)) \<longleftrightarrow> changed base target f"
proof -
  have a: "f \<in> set (keys (added (diffDocuments base target))) \<longleftrightarrow>
      \<not> skipped_field f \<and> map_of base f = None \<and> map_of target f \<noteq> None"
    unfolding diffDocuments_def doc_diff.simps using map_of_filter_key [OF assms(2), of f] by auto
  have m: "f \<in> set (map fst (modified (diffDocuments base target))) \<longleftrightarrow>
      \<not> skipped_field f \<and> (\<exists>x y. map_of base f = Some x \<and> map_of target f = Some y \<and> \<not> values_eq x y)"
  proof -
    have "(f, z) \<in> set (modified (diffDocuments base target)) \<longleftrightarrow> \<not> skipped_field f \<and>
        (\<exists>x y. map_of base f = Some x \<and> map_of target f = Some y \<and> \<not> values_eq x y \<and> z = (x, y))" for z
      by (auto simp: diffDocuments_def List.map_filter_def map_of_eq_Some_iff [OF assms(2)] image_iff
          split: option.splits if_splits) force+
    then show ?thesis by (force simp: image_iff)
  qed
  have d: "f \<in> set (deleted (diffDocuments base target)) \<longleftrightarrow>
      \<not> skipped_field f \<and> map_of base f \<noteq> None \<and> map_of target f = None"
    by (auto simp: diffDocuments_def map_of_eq_None_iff)
  show ?thesis
    unfolding diff_fields_def set_append Un_iff a m d changed_def valuesAreEqual_def
    by (cases "map_of base f"; cases "map_of target f") auto
qed

lemma deleted_absent: "f \<in> set (deleted (diffDocuments base target)) \<Longrightarrow> map_of target f = None"
  by (simp add: diffDocuments_def)

lemma map_of_put_field: "map_of (put_field k v d) = (map_of d)(k := v)"
  by (cases v) (simp_all add: put_field_def update_conv' delete_conv' fun_eq_iff restrict_map_def)

text \<open>What the merge makes of one field.\<close>

definition merged_value ::
  "document \<Rightarrow> document \<Rightarrow> document \<Rightarrow> writer_meta \<Rightarrow> writer_meta \<Rightarrow> bool \<Rightarrow> string \<Rightarrow> json option \<Rightarrow> json option" where
  "merged_value base server client cm sm strict f old =
     (if changed base client f \<and> \<not> changed base server f then map_of client f
      else if changed base server f \<and> \<not> changed base client f then old
      else let r = resolveFieldConflict f (map_of base f) (map_of server f) (map_of client f) cm sm strict
           in if resolved r then fr_value r else old)"

lemma merge_field_merged:
  assumes "distinct (keys base)" "distinct (keys server)" "distinct (keys client)"
  shows "map_of (merged (merge_field base server client (diffDocuments base client) (diffDocuments base server)
       cm sm strict g st)) f =
     (if f = g then merged_value base server client cm sm strict f (map_of (merged st) f) else map_of (merged st) f)"
  by (simp add: merge_field_def merged_value_def Let_def diff_fields_iff assms map_of_put_field delete_conv'
      restrict_map_def deleted_absent)

lemma merge_fold_merged:
  assumes "distinct (keys base)" "distinct (keys server)" "distinct (keys client)"
  shows "distinct fs \<Longrightarrow> map_of (merged (fold (merge_field base server client (diffDocuments base client)
       (diffDocuments base server) cm sm strict) fs st)) f =
     (if f \<in> set fs then merged_value base server client cm sm strict f (map_of (merged st) f) else map_of (merged st) f)"
  by (induction fs arbitrary: st) (auto simp: merge_field_merged [OF assms])

lemma merge_field_unresolved:
  assumes "distinct (keys base)" "distinct (keys server)" "distinct (keys client)"
  shows "unresolvedConflicts (merge_field base server client (diffDocuments base client) (diffDocuments base server)
       cm sm strict g st) = unresolvedConflicts st @
     (if changed base client g = changed base server g \<and>
        \<not> resolved (resolveFieldConflict g (map_of base g) (map_of server g) (map_of client g) cm sm strict) then [g] else [])"
  by (auto simp: merge_field_def Let_def diff_fields_iff assms)

lemma merge_fold_unresolved:
  assumes "distinct (keys base)" "distinct (keys server)" "distinct (keys client)"
  shows "unresolvedConflicts (fold (merge_field base server client (diffDocuments base client) (diffDocuments base server)
       cm sm strict) fs st) = [] \<longleftrightarrow> unresolvedConflicts st = [] \<and>
     (\<forall>g \<in> set fs. changed base client g = changed base server g \<longrightarrow>
        resolved (resolveFieldConflict g (map_of base g) (map_of server g) (map_of client g) cm sm strict))"
  by (induction fs arbitrary: st) (auto simp: merge_field_unresolved [OF assms])

lemma resolved_iff:
  "resolved (resolveFieldConflict f b s c cm sm strict) \<longleftrightarrow>
     valuesAreEqual s c \<or> \<not> (strict \<and> f \<in> set CRITICAL_CONFLICT_FIELDS)"
  by (auto simp: resolveFieldConflict_def split: option.split json.split)

lemma touched_iff:
  assumes "distinct (keys base)" "distinct (keys server)" "distinct (keys client)"
  shows "f \<in> set (js_set (diff_fields (diffDocuments base client) @ diff_fields (diffDocuments base server))) \<longleftrightarrow>
    changed base client f \<or> changed base server f"
  using assms by (simp add: diff_fields_iff)

definition deletion_undone :: "document \<Rightarrow> document \<Rightarrow> bool" where
  "deletion_undone server client \<longleftrightarrow>
     map_of server ''isDeleted'' = Some (JBool True) \<and> map_of client ''isDeleted'' \<noteq> Some (JBool True)"

section \<open>Properties of the merge\<close>

text \<open>
  C16: A merge loses no edit that only one side made: a field only the client changed has the client's
  value, a field the client did not change has the server's, a field both changed to the same
  value has it, and the system-managed fields are the server's. The version moves on by one.
\<close>

theorem merge_keeps_one_sided_edits:
  assumes "distinct (keys base)" "distinct (keys server)" "distinct (keys client)"
    "\<not> deletion_undone server client" "f \<noteq> ''version''" "f \<noteq> ''updatedAt''"
  shows "let m = mergedDocument (resolveConflictThreeWay base server client cm sm strict now) in
    (changed base client f \<and> \<not> changed base server f \<longrightarrow> map_of m f = map_of client f) \<and>
    (\<not> changed base client f \<longrightarrow> map_of m f = map_of server f) \<and>
    (changed base client f \<and> changed base server f \<and> valuesAreEqual (map_of server f) (map_of client f) \<longrightarrow>
       map_of m f = map_of client f) \<and>
    (f \<in> set IMMUTABLE_SYSTEM_FIELDS \<longrightarrow> map_of m f = map_of server f) \<and>
    map_of m ''version'' = Some (JNum (effectiveVersion (Some server) + 1))"
proof -
  let ?fs = "js_set (diff_fields (diffDocuments base client) @ diff_fields (diffDocuments base server))"
  let ?m = "mergedDocument (resolveConflictThreeWay base server client cm sm strict now)"
  have m: "map_of ?m f = (if f \<in> set ?fs then merged_value base server client cm sm strict f (map_of server f)
      else map_of server f)"
    using assms(4-6) merge_fold_merged [OF assms(1-3), of ?fs cm sm strict _ f]
    by (simp add: resolveConflictThreeWay_def deletion_undone_def [symmetric] Let_def with_field_def update_conv')
  have v: "map_of ?m ''version'' = Some (JNum (effectiveVersion (Some server) + 1))"
    using assms(4) by (simp add: resolveConflictThreeWay_def deletion_undone_def [symmetric] Let_def with_field_def update_conv')
  have same: "resolveFieldConflict f b s c cm sm strict = \<lparr>resolved = True, fr_winner = Identical, fr_value = c,
      fr_strategy = Idempotent_identical\<rparr>" if "valuesAreEqual s c" for b s c
    using that by (simp add: resolveFieldConflict_def)
  have imm: "f \<in> set IMMUTABLE_SYSTEM_FIELDS \<Longrightarrow> \<not> changed base client f \<and> \<not> changed base server f"
    by (simp add: changed_def skipped_field_def)
  show ?thesis
    unfolding Let_def m touched_iff [OF assms(1-3)] using v imm
    by (auto simp: merged_value_def same)
qed

text \<open>
  A merge needs a decision of the user exactly when it would revive a deleted document or, in
  strict mode, when both sides gave a critical field different values.
\<close>

theorem auto_merge_iff:
  assumes "distinct (keys base)" "distinct (keys server)" "distinct (keys client)"
  shows "canAutoMerge (resolveConflictThreeWay base server client cm sm strict now) \<longleftrightarrow>
    \<not> deletion_undone server client \<and>
    \<not> (strict \<and> (\<exists>f \<in> set CRITICAL_CONFLICT_FIELDS. changed base client f \<and> changed base server f \<and>
         \<not> valuesAreEqual (map_of server f) (map_of client f)))"
proof (cases "deletion_undone server client")
  case True
  then show ?thesis by (simp add: resolveConflictThreeWay_def deletion_undone_def)
next
  case False
  then have "canAutoMerge (resolveConflictThreeWay base server client cm sm strict now) \<longleftrightarrow>
      (\<forall>g. changed base client g \<or> changed base server g \<longrightarrow> changed base client g = changed base server g \<longrightarrow>
        resolved (resolveFieldConflict g (map_of base g) (map_of server g) (map_of client g) cm sm strict))"
    by (simp add: resolveConflictThreeWay_def deletion_undone_def [symmetric] Let_def merge_fold_unresolved [OF assms]
        diff_fields_iff assms Ball_def del: map_of_eq_Some_iff)
  with False show ?thesis by (auto simp: resolved_iff)
qed

section \<open>Properties of the update\<close>

text \<open>
  No lost update: once a write based on a version has been applied, a second write based on
  the same version is refused, leaves the collection as it is, and reports the version it met.
\<close>

theorem second_writer_conflicts:
  assumes "updateWithExpectedVersion race c i v flds extra = (Updated d n, c1)" "1 \<le> v"
    "''version'' \<notin> set (keys (extra (v + 1)))" "distinct (keys flds)"
  shows "n = v + 1 \<and> updateWithExpectedVersion (\<lambda>x. x) c1 i v flds' extra' = (Vw_conflict (v + 1) v, c1)"
proof -
  let ?set = "set_fields (extra (v + 1)) (with_field ''version'' (JNum (v + 1)) flds)"
  obtain d0 where d0: "c i = Some d0" "at_version v d0" "n = v + 1"
      "c1 = c(i \<mapsto> set_fields ?set d0)"
    using assms(1)
    by (auto simp: updateWithExpectedVersion_def find_and_set_def Let_def split: option.splits if_splits)
  have "map_of (rev (extra (v + 1))) ''version'' = None" using assms(3) by (simp add: map_of_eq_None_iff)
  then have set: "map_of ?set ''version'' = Some (JNum (v + 1))"
    by (simp add: map_of_set_fields with_field_def update_conv')
  have ver: "map_of (set_fields ?set d0) ''version'' = Some (JNum (v + 1))"
    using set assms(4) by (simp add: map_of_set_fields_distinct set_fields_distinct with_field_def)
  then have "\<not> at_version v (set_fields ?set d0)" "effectiveVersion (Some (set_fields ?set d0)) = v + 1"
    using assms(2) by (auto simp: at_version_def effectiveVersion_def)
  with d0 show ?thesis
    by (simp add: updateWithExpectedVersion_def find_and_set_def Let_def)
qed


text \<open>
  Without other writers an update that can be merged goes through on its second attempt: the
  client's base is stale, the merge is computed against the stored document and lands on it,
  one version further.
\<close>

theorem stale_update_merges:
  assumes "c i = Some server" "map_of server ''version'' = Some (JNum v)" "v \<noteq> 0" "\<not> at_version baseVersion server"
    "validateFieldAuthorization actor (owner_of base)
       (keys (added (diffDocuments base client)) @ map fst (modified (diffDocuments base client))) = Authorized"
    "r = resolveConflictThreeWay base server client \<lparr>wm_actor = ac_id actor, wm_timestamp = now\<rparr> (server_meta server) strict now"
    "canAutoMerge r" "2 \<le> maxRetries"
  shows "\<exists>d. updateWithConflictResolution (\<lambda>_ x. x) c i baseVersion client actor (Some base) strict maxRetries now =
    (Done Auto_merged d (v + 1) 2, c(i \<mapsto> d))"
proof -
  obtain k where "maxRetries = 2 + k" using le_Suc_ex [OF assms(8)] by blast
  then have k: "maxRetries = Suc (Suc k)" by simp
  have v: "at_version v server" "effectiveVersion (Some server) = v"
    using assms(2,3) by (auto simp: at_version_def effectiveVersion_def)
  have sv: "rs_serverVersion r = v" using assms(6,7) v
    by (auto simp: resolveConflictThreeWay_def Let_def split: if_splits)
  have miss: "find_and_set c i baseVersion flds = (None, c)" for flds
    using assms(1,4) by (simp add: find_and_set_def)
  have hit: "find_and_set c i v flds = (Some (set_fields flds server), c(i \<mapsto> set_fields flds server))" for flds
    using assms(1) v by (simp add: find_and_set_def)
  let ?loop = "update_loop (\<lambda>_ x. x) i actor strict now"
  have "?loop (Suc (Suc k)) 0 baseVersion base client c = ?loop (Suc k) 1 v server (mergedDocument r) c"
    by (subst update_loop.simps) (simp only: miss prod.case option.case Let_def assms(1) assms(6) [symmetric] assms(7) sv
        not_True_eq_False if_False add_0)
  moreover obtain d where "?loop (Suc k) 1 v server (mergedDocument r) c = (Done Auto_merged d (v + 1) 2, c(i \<mapsto> d))"
    by (subst (asm) update_loop.simps) (simp only: hit prod.case option.case, simp)
  ultimately show ?thesis
    by (simp only: updateWithConflictResolution_def k option.case Let_def assms(5) auth_result.case) blast
qed

text \<open>
  Only the roles learner and creator are restricted: any other role, the plain \<open>user\<close> included,
  may change every field of every document, privileged ones too.
\<close>

theorem other_roles_unrestricted:
  "validateFieldAuthorization \<lparr>ac_role = Some role, ac_id = who, ac_sub = sub\<rparr> owner flds = Authorized
   \<longleftrightarrow> role \<notin> {[], ''learner'', ''creator''} \<or>
       role = ''creator'' \<and> (\<forall>o'. owner = Some o' \<and> o' \<noteq> [] \<longrightarrow> (if truthy who then who else sub) = Some o') \<and>
       set flds \<inter> set PRIVILEGED_FIELDS = {}"
  by (cases "role = []"; cases owner)
     (auto simp: validateFieldAuthorization_def Let_def filter_empty_conv disjoint_iff)

theorem other_roles_unrestricted_witness:
  "validateFieldAuthorization \<lparr>ac_role = Some ''user'', ac_id = Some ''GB'', ac_sub = None\<rparr> (Some ''GA'')
     [''moderationStatus''] = Authorized"
  unfolding other_roles_unrestricted by simp

text \<open>
  The system-managed fields are skipped by the difference the authorization looks at, but the
  write of the first attempt sets the whole client document: a creator can overwrite the chain
  transaction of an own material.
\<close>

theorem system_fields_overwritten:
  "let server = [(''userAddress'', JStr ''GA''), (''chainTxHash'', JStr ''real''), (''version'', JNum 1)];
       client = [(''userAddress'', JStr ''GA''), (''chainTxHash'', JStr ''forged'')];
       (r, c) = updateWithConflictResolution (\<lambda>_ x. x) ((\<lambda>_. None)(''m'' \<mapsto> server)) ''m'' 1 client
         \<lparr>ac_role = Some ''creator'', ac_id = Some ''GA'', ac_sub = None\<rparr> None False 3 0
   in ''chainTxHash'' \<in> set IMMUTABLE_SYSTEM_FIELDS \<and>
      Option.bind (c ''m'') (\<lambda>d. map_of d ''chainTxHash'') = Some (JStr ''forged'')"
  by (simp add: updateWithConflictResolution_def find_and_set_def at_version_def set_fields_def with_field_def
      diffDocuments_def skipped_field_def IMMUTABLE_SYSTEM_FIELDS_def validateFieldAuthorization_def owner_of_def
      List.map_filter_def Let_def eval_nat_numeral)

section \<open>Witnesses\<close>

theorem merge_keeps_one_sided_edits_witness:
  "map_of (mergedDocument (resolveConflictThreeWay [(''a'', JNum 1), (''b'', JNum 1)] [(''a'', JNum 1), (''b'', JNum 2)]
     [(''a'', JNum 3), (''b'', JNum 1)]
     \<lparr>wm_actor = None, wm_timestamp = 0\<rparr> \<lparr>wm_actor = None, wm_timestamp = 0\<rparr> True 0)) ''a'' = Some (JNum 3)"
  using merge_keeps_one_sided_edits [of "[(''a'', JNum 1), (''b'', JNum 1)]" "[(''a'', JNum 1), (''b'', JNum 2)]"
     "[(''a'', JNum 3), (''b'', JNum 1)]" "''a''"
     "\<lparr>wm_actor = None, wm_timestamp = 0\<rparr>" "\<lparr>wm_actor = None, wm_timestamp = 0\<rparr>" True 0]
  by (simp add: Let_def deletion_undone_def changed_def skipped_field_def IMMUTABLE_SYSTEM_FIELDS_def valuesAreEqual_def)

theorem auto_merge_iff_witness:
  "\<not> canAutoMerge (resolveConflictThreeWay [(''license'', JNum 1)] [(''license'', JNum 2)] [(''license'', JNum 3)]
     \<lparr>wm_actor = None, wm_timestamp = 0\<rparr> \<lparr>wm_actor = None, wm_timestamp = 0\<rparr> True 0)"
proof -
  have "''license'' \<in> set CRITICAL_CONFLICT_FIELDS" by (simp add: CRITICAL_CONFLICT_FIELDS_def)
  moreover have "changed [(''license'', JNum 1)] [(''license'', JNum 3)] ''license''"
    "changed [(''license'', JNum 1)] [(''license'', JNum 2)] ''license''"
    "\<not> valuesAreEqual (map_of [(''license'', JNum 2)] ''license'') (map_of [(''license'', JNum 3)] ''license'')"
    by (simp_all add: changed_def skipped_field_def IMMUTABLE_SYSTEM_FIELDS_def valuesAreEqual_def)
  ultimately show ?thesis
    using auto_merge_iff [of "[(''license'', JNum 1)]" "[(''license'', JNum 2)]" "[(''license'', JNum 3)]"
      "\<lparr>wm_actor = None, wm_timestamp = 0\<rparr>" "\<lparr>wm_actor = None, wm_timestamp = 0\<rparr>" True 0] by auto
qed

theorem second_writer_conflicts_witness:
  "updateWithExpectedVersion (\<lambda>x. x) (snd (updateWithExpectedVersion (\<lambda>x. x) [''m'' \<mapsto> []] ''m'' 1 [] (\<lambda>_. [])))
     ''m'' 1 [(''title'', JNull)] (\<lambda>_. []) =
   (Vw_conflict 2 1, snd (updateWithExpectedVersion (\<lambda>x. x) [''m'' \<mapsto> []] ''m'' 1 [] (\<lambda>_. [])))"
proof -
  obtain d n c1 where u: "updateWithExpectedVersion (\<lambda>x. x) [''m'' \<mapsto> []] ''m'' 1 [] (\<lambda>_. []) = (Updated d n, c1)"
    by (simp add: updateWithExpectedVersion_def find_and_set_def at_version_def Let_def)
  show ?thesis using second_writer_conflicts [OF u, of "[(''title'', JNull)]" "\<lambda>_. []"] by (simp add: u)
qed

theorem stale_update_merges_witness:
  "\<exists>d. updateWithConflictResolution (\<lambda>_ x. x) [''m'' \<mapsto> [(''version'', JNum 3)]] ''m'' 1 []
     \<lparr>ac_role = Some ''admin'', ac_id = None, ac_sub = None\<rparr> (Some []) False 3 0 = (Done Auto_merged d 4 2, [''m'' \<mapsto> d])"
proof -
  have a: "canAutoMerge (resolveConflictThreeWay [] [(''version'', JNum 3)] [] \<lparr>wm_actor = None, wm_timestamp = 0\<rparr>
      (server_meta [(''version'', JNum 3)]) False 0)"
    by (simp add: auto_merge_iff deletion_undone_def)
  have "\<exists>d. updateWithConflictResolution (\<lambda>_ x. x) [''m'' \<mapsto> [(''version'', JNum 3)]] ''m'' 1 []
     \<lparr>ac_role = Some ''admin'', ac_id = None, ac_sub = None\<rparr> (Some []) False 3 0 =
     (Done Auto_merged d (3 + 1) 2, [''m'' \<mapsto> [(''version'', JNum 3)], ''m'' \<mapsto> d])"
    by (rule stale_update_merges [OF _ _ _ _ _ refl])
       (use a in \<open>simp_all add: at_version_def validateFieldAuthorization_def\<close>)
  then show ?thesis by simp
qed

end
