(* ===== verification/RefundEffects.thy ===== *)
theory RefundEffects imports Prelude begin

text \<open>
  The documents and the effects of the refund code (\<open>src/lib/refunds\<close>).

  A handler is a tree of the calls it awaits: every constructor of \<open>prog\<close> is one awaited call
  (a MongoDB operation on one document, a Stellar call, an audit record) with the code that
  runs on its result. Handlers that run at the same time interleave between these calls and
  only there. The collections are outside the repository: the operations the code uses are
  the functions of a \<open>store\<close>, and \<open>lawful_store\<close> states what MongoDB documents of them, the
  atomicity of an operation on one document first of all.
\<close>

section \<open>Documents\<close>

datatype refund_status = REQUESTED | APPROVED | SUBMITTING | PENDING | SETTLED | FAILED | REJECTED

text \<open>
  A purchase: the fields the refund code reads. \<open>p_amount\<close> is \<open>parseFloat(purchase.amount)\<close>;
  times are milliseconds; absent or \<open>null\<close> is \<open>None\<close>.
\<close>

record purchase =
  p_id :: string
  p_materialId :: string
  p_buyerAddress :: "string option"
  p_status :: "string option"
  p_settlementState :: "string option"
  p_asset :: "string option"
  p_confirmedAt :: "int option"
  p_purchasedAt :: "int option"
  p_createdAt :: "int option"
  p_amount :: jsnum
  p_refundedAmount :: "rat option"
  p_transactionHash :: "string option"
  p_appliedRefundIds :: "string list"
  p_refundedAt :: "int option"
  p_refundTransactionHash :: "string option"
  p_updatedAt :: "int option"

record refund =
  refund_id :: string
  purchaseId :: string
  materialId :: string
  buyerAddress :: string
  destination :: string
  assetCode :: string
  network :: string
  amount :: rat
  status :: refund_status
  requestedBy :: string
  requestReason :: "string option"
  retryCount :: nat
  txHash :: "string option"
  sequence :: "string option"
  ledger :: "int option"
  operationIndex :: "nat option"
  failureReason :: "string option"
  lastError :: "string option"
  entitlementRevoked :: bool
  createdAt :: int
  updatedAt :: int
  approvedBy :: "string option"
  approvedAt :: "int option"
  rejectedBy :: "string option"
  rejectedAt :: "int option"
  retryRequestedBy :: "string option"
  submissionAttemptedAt :: "int option"
  pendingSince :: "int option"
  settledAt :: "int option"
  convergedAt :: "int option"

text \<open>What a claim freezes: whose purchase, whose access, and what is paid to whom.\<close>

type_synonym terms = "string \<times> string \<times> string \<times> string \<times> string \<times> rat"

definition terms :: "refund \<Rightarrow> terms" where
  "terms r = (purchaseId r, materialId r, buyerAddress r, destination r, assetCode r, amount r)"

section \<open>Calls and their results\<close>

record transaction =
  tx_hash :: string
  tx_sequence :: string
  tx_destination :: string
  tx_amount :: rat
  tx_asset :: string

datatype submission =
    Confirmed string int
  | Ambiguous string
  | Not_paid string   \<comment> \<open>\<open>rejected\<close> or \<open>blocked\<close>, which the workflow treats alike\<close>

datatype insert_result = Inserted string | Duplicate_key | Insert_failed

record audit_event =
  a_refundId :: string
  a_purchaseId :: string
  a_actor :: string
  a_action :: string
  a_previousStatus :: "refund_status option"
  a_newStatus :: refund_status
  a_reason :: "string option"

datatype result =
    Outcome string "refund option"
  | Success refund bool
  | Failure string "refund option"
  | Thrown string

datatype prog =
    Done result
  | Now "int \<Rightarrow> prog"
  | Find_refund string "refund option \<Rightarrow> prog"
  | Cas string "refund_status list" "refund \<Rightarrow> refund" "refund option \<Rightarrow> prog"
  | Set_refund string "refund \<Rightarrow> refund" prog
  | Insert_refund refund "insert_result \<Rightarrow> prog"
  | Find_live string "refund option \<Rightarrow> prog"
  | Find_purchase string "purchase option \<Rightarrow> prog" prog
  | Find_purchase_by_tx string "purchase option \<Rightarrow> prog"
  | Mirror_purchase string string rat "string option" int prog
  | Revoke string string prog
  | Audit audit_event prog
  | Notify string string prog
  | Treasury string "string + jsnum \<Rightarrow> prog"
  | Build string rat string "string + transaction \<Rightarrow> prog"
  | Submit transaction rat "submission \<Rightarrow> prog"
  | Tx_status string "string \<Rightarrow> prog"

text \<open>
  \<open>$set\<close>, \<open>$inc\<close> and \<open>$push\<close> of the purchase update, which applies to the purchase that does not
  list the refund yet.
\<close>

definition mirror :: "string \<Rightarrow> rat \<Rightarrow> string option \<Rightarrow> int \<Rightarrow> purchase \<Rightarrow> purchase" where
  "mirror rid a tx now p =
     p\<lparr>p_settlementState := Some ''Refunded'', p_refundedAt := Some now, p_refundTransactionHash := tx,
       p_updatedAt := Some now,
       p_refundedAmount := Some ((case p_refundedAmount p of Some x \<Rightarrow> x | None \<Rightarrow> 0) + a),
       p_appliedRefundIds := p_appliedRefundIds p @ [rid]\<rparr>"

section \<open>The collections\<close>

record 'db store =
  find_refund :: "'db \<Rightarrow> string \<Rightarrow> refund option"
  cas_refund :: "'db \<Rightarrow> string \<Rightarrow> refund_status list \<Rightarrow> (refund \<Rightarrow> refund) \<Rightarrow> refund option \<times> 'db"
  set_refund :: "'db \<Rightarrow> string \<Rightarrow> (refund \<Rightarrow> refund) \<Rightarrow> 'db"
  insert_refund :: "'db \<Rightarrow> refund \<Rightarrow> insert_result \<times> 'db"
  find_live :: "'db \<Rightarrow> string \<Rightarrow> refund option"
  find_purchase :: "'db \<Rightarrow> string \<Rightarrow> purchase option"
  find_purchase_by_tx :: "'db \<Rightarrow> string \<Rightarrow> purchase option"
  update_purchase :: "'db \<Rightarrow> string \<Rightarrow> string \<Rightarrow> (purchase \<Rightarrow> purchase) \<Rightarrow> 'db"

text \<open>
  The laws: a read returns the document with that identifier; \<open>findOneAndUpdate\<close> with a status
  filter tests and writes one document at once and returns it after the update; \<open>updateOne\<close>
  writes the document if the filter matches; \<open>insertOne\<close> adds a document under a fresh
  identifier or changes nothing. No operation touches another document.
\<close>

definition cas_matches :: "refund option \<Rightarrow> refund_status list \<Rightarrow> bool" where
  "cas_matches r from \<longleftrightarrow> (case r of Some x \<Rightarrow> status x \<in> set from | None \<Rightarrow> False)"

definition lawful_cas :: "'db store \<Rightarrow> bool" where
  "lawful_cas d \<longleftrightarrow> (\<forall>db i from f.
     (let (r, db') = cas_refund d db i from f in
        r = (if cas_matches (find_refund d db i) from then map_option f (find_refund d db i) else None) \<and>
        (\<forall>j. find_refund d db' j =
           (if j = i \<and> cas_matches (find_refund d db i) from then map_option f (find_refund d db i)
            else find_refund d db j)) \<and>
        (\<forall>p. find_purchase d db' p = find_purchase d db p)))"

definition lawful_set :: "'db store \<Rightarrow> bool" where
  "lawful_set d \<longleftrightarrow> (\<forall>db i f.
     (\<forall>j. find_refund d (set_refund d db i f) j =
        (if j = i then map_option f (find_refund d db i) else find_refund d db j)) \<and>
     (\<forall>p. find_purchase d (set_refund d db i f) p = find_purchase d db p))"

definition lawful_insert :: "'db store \<Rightarrow> bool" where
  "lawful_insert d \<longleftrightarrow> (\<forall>db r.
     (let (x, db') = insert_refund d db r in
        (\<forall>p. find_purchase d db' p = find_purchase d db p) \<and>
        (case x of
           Inserted i \<Rightarrow> find_refund d db i = None \<and>
             (\<forall>j. find_refund d db' j = (if j = i then Some (r\<lparr>refund_id := i\<rparr>) else find_refund d db j))
         | _ \<Rightarrow> (\<forall>j. find_refund d db' j = find_refund d db j))))"

definition lawful_purchases :: "'db store \<Rightarrow> bool" where
  "lawful_purchases d \<longleftrightarrow> (\<forall>db pid rid f.
     (\<forall>i. find_refund d (update_purchase d db pid rid f) i = find_refund d db i) \<and>
     ((\<forall>p. p_id (f p) = p_id p) \<longrightarrow>
      (\<forall>q. find_purchase d (update_purchase d db pid rid f) q =
        (case find_purchase d db q of
           None \<Rightarrow> None
         | Some p \<Rightarrow> Some (if q = pid \<and> rid \<notin> set (p_appliedRefundIds p) then f p else p)))) \<and>
     (\<forall>q p. find_purchase d db q = Some p \<longrightarrow> p_id p = q))"

definition lawful_store :: "'db store \<Rightarrow> bool" where
  "lawful_store d \<longleftrightarrow> lawful_cas d \<and> lawful_set d \<and> lawful_insert d \<and> lawful_purchases d"

text \<open>
  The unique index \<open>refunds_one_live_claim_per_purchase_idx\<close> of \<open>schemaContracts.js\<close>: no second
  claim that is not rejected is inserted for a purchase.
\<close>

definition live_claim_index :: "'db store \<Rightarrow> bool" where
  "live_claim_index d \<longleftrightarrow> (\<forall>db r i db'.
     insert_refund d db r = (Inserted i, db') \<longrightarrow>
     (\<forall>j x. find_refund d db j = Some x \<longrightarrow> purchaseId x = purchaseId r \<longrightarrow> status x = REJECTED))"

lemma cas_law:
  assumes "lawful_store d" "cas_refund d db i from f = (r, db')"
  shows "r = (if cas_matches (find_refund d db i) from then map_option f (find_refund d db i) else None)"
    and "find_refund d db' j =
           (if j = i \<and> cas_matches (find_refund d db i) from then map_option f (find_refund d db i)
            else find_refund d db j)"
    and "find_purchase d db' p = find_purchase d db p"
  using assms unfolding lawful_store_def lawful_cas_def by (simp_all add: Let_def split_beta) (metis fst_conv snd_conv)+

lemma set_law:
  assumes "lawful_store d"
  shows "find_refund d (set_refund d db i f) j =
           (if j = i then map_option f (find_refund d db i) else find_refund d db j)"
    and "find_purchase d (set_refund d db i f) p = find_purchase d db p"
  using assms unfolding lawful_store_def lawful_set_def by blast+

lemma insert_law:
  assumes "lawful_store d" "insert_refund d db r = (x, db')"
  shows "find_purchase d db' p = find_purchase d db p"
    and "x = Inserted i \<Longrightarrow> find_refund d db i = None \<and>
           find_refund d db' j = (if j = i then Some (r\<lparr>refund_id := i\<rparr>) else find_refund d db j)"
    and "x = Duplicate_key \<or> x = Insert_failed \<Longrightarrow> find_refund d db' j = find_refund d db j"
proof -
  have L: "lawful_insert d" using assms(1) by (simp add: lawful_store_def)
  have l: "case insert_refund d db r of (x, db') \<Rightarrow>
      (\<forall>p. find_purchase d db' p = find_purchase d db p) \<and>
      (case x of
         Inserted i \<Rightarrow> find_refund d db i = None \<and>
           (\<forall>j. find_refund d db' j = (if j = i then Some (r\<lparr>refund_id := i\<rparr>) else find_refund d db j))
       | _ \<Rightarrow> (\<forall>j. find_refund d db' j = find_refund d db j))"
    using L unfolding lawful_insert_def Let_def by (drule_tac x = db in spec, drule_tac x = r in spec) assumption
  show "find_purchase d db' p = find_purchase d db p" using l by (simp add: assms(2))
  show "x = Inserted i \<Longrightarrow> find_refund d db i = None \<and>
      find_refund d db' j = (if j = i then Some (r\<lparr>refund_id := i\<rparr>) else find_refund d db j)"
    using l by (simp add: assms(2))
  show "x = Duplicate_key \<or> x = Insert_failed \<Longrightarrow> find_refund d db' j = find_refund d db j"
    using l by (auto simp: assms(2))
qed

lemma purchase_law:
  assumes "lawful_store d"
  shows "find_refund d (update_purchase d db pid rid f) i = find_refund d db i"
    and "(\<And>p. p_id (f p) = p_id p) \<Longrightarrow> find_purchase d (update_purchase d db pid rid f) q =
        (case find_purchase d db q of
           None \<Rightarrow> None
         | Some p \<Rightarrow> Some (if q = pid \<and> rid \<notin> set (p_appliedRefundIds p) then f p else p))"
    and "find_purchase d db q = Some p \<Longrightarrow> p_id p = q"
  using assms unfolding lawful_store_def lawful_purchases_def by blast+

section \<open>One awaited call\<close>

text \<open>
  What the outside answers: the clock, the treasury, the transaction builder, the network. A
  call whose promise is rejected outside a \<open>try\<close> block ends the handler (a crash).
\<close>

datatype response =
    R_done | R_throw
  | R_time int
  | R_treasury "string + jsnum"
  | R_built "string + string \<times> string"
  | R_submission submission
  | R_status string

datatype event =
    Moved string refund_status refund_status
  | Filed string
  | Access_revoked string string
  | Audited audit_event
  | Notified string string
  | Submitted transaction submission

definition moved :: "string \<Rightarrow> refund option \<Rightarrow> refund option \<Rightarrow> event list" where
  "moved i old new = (case new of
     None \<Rightarrow> []
   | Some y \<Rightarrow> (case old of None \<Rightarrow> [] | Some x \<Rightarrow> [Moved i (status x) (status y)]))"

definition perform :: "'db store \<Rightarrow> response \<Rightarrow> prog \<Rightarrow> 'db \<Rightarrow> (prog \<times> 'db \<times> event list) option" where
  "perform d a p db =
     (case p of
        Done _ \<Rightarrow> None
      | Now k \<Rightarrow> (case a of R_time t \<Rightarrow> Some (k t, db, []) | _ \<Rightarrow> None)
      | Find_refund i k \<Rightarrow> (case a of R_done \<Rightarrow> Some (k (find_refund d db i), db, []) | _ \<Rightarrow> None)
      | Cas i from f k \<Rightarrow>
          (case a of
             R_done \<Rightarrow> (case cas_refund d db i from f of
               (r, db') \<Rightarrow> Some (k r, db', moved i (find_refund d db i) r))
           | _ \<Rightarrow> None)
      | Set_refund i f k \<Rightarrow> (case a of R_done \<Rightarrow> Some (k, set_refund d db i f, []) | _ \<Rightarrow> None)
      | Insert_refund r k \<Rightarrow>
          (case a of
             R_done \<Rightarrow> (case insert_refund d db r of
               (x, db') \<Rightarrow> Some (k x, db', case x of Inserted i \<Rightarrow> [Filed i] | _ \<Rightarrow> []))
           | _ \<Rightarrow> None)
      | Find_live pid k \<Rightarrow> (case a of R_done \<Rightarrow> Some (k (find_live d db pid), db, []) | _ \<Rightarrow> None)
      | Find_purchase pid k c \<Rightarrow>
          (case a of R_done \<Rightarrow> Some (k (find_purchase d db pid), db, []) | R_throw \<Rightarrow> Some (c, db, []) | _ \<Rightarrow> None)
      | Find_purchase_by_tx h k \<Rightarrow>
          (case a of R_done \<Rightarrow> Some (k (find_purchase_by_tx d db h), db, []) | _ \<Rightarrow> None)
      | Mirror_purchase pid rid x tx now k \<Rightarrow>
          (case a of R_done \<Rightarrow> Some (k, update_purchase d db pid rid (mirror rid x tx now), []) | _ \<Rightarrow> None)
      | Revoke m b k \<Rightarrow> (case a of R_done \<Rightarrow> Some (k, db, [Access_revoked m b]) | _ \<Rightarrow> None)
      | Audit e k \<Rightarrow> (case a of R_done \<Rightarrow> Some (k, db, [Audited e]) | _ \<Rightarrow> None)
      | Notify t key k \<Rightarrow> (case a of R_done \<Rightarrow> Some (k, db, [Notified t key]) | _ \<Rightarrow> None)
      | Treasury c k \<Rightarrow> (case a of R_treasury x \<Rightarrow> Some (k x, db, []) | _ \<Rightarrow> None)
      | Build dst x c k \<Rightarrow>
          (case a of
             R_built (Inl e) \<Rightarrow> Some (k (Inl e), db, [])
           | R_built (Inr (h, s)) \<Rightarrow>
               Some (k (Inr \<lparr>tx_hash = h, tx_sequence = s, tx_destination = dst, tx_amount = x,
                             tx_asset = c\<rparr>), db, [])
           | _ \<Rightarrow> None)
      | Submit tx x k \<Rightarrow> (case a of R_submission s \<Rightarrow> Some (k s, db, [Submitted tx s]) | _ \<Rightarrow> None)
      | Tx_status h k \<Rightarrow> (case a of R_status s \<Rightarrow> Some (k s, db, []) | _ \<Rightarrow> None))"

section \<open>Collections in memory\<close>

text \<open>
  The collections kept in two maps satisfy the laws; the index is a flag. Identifiers are
  numbered in the order of insertion.
\<close>

record mem_db =
  m_refunds :: "(string \<times> refund) list"
  m_purchases :: "(string \<times> purchase) list"

definition mem_update :: "string \<Rightarrow> ('a \<Rightarrow> 'a) \<Rightarrow> (string \<times> 'a) list \<Rightarrow> (string \<times> 'a) list" where
  "mem_update i f xs = map (\<lambda>(j, x). (j, if j = i then f x else x)) xs"

definition fresh_id :: "mem_db \<Rightarrow> string" where
  "fresh_id db = replicate (Suc (foldr (\<lambda>(i, _) n. max (length i) n) (m_refunds db) 0)) (CHR ''r'')"

definition mem_insert :: "bool \<Rightarrow> mem_db \<Rightarrow> refund \<Rightarrow> insert_result \<times> mem_db" where
  "mem_insert indexed db r =
     (if indexed \<and> list_ex (\<lambda>(i, x). purchaseId x = purchaseId r \<and> status x \<noteq> REJECTED) (m_refunds db)
      then (Duplicate_key, db)
      else (Inserted (fresh_id db),
            db\<lparr>m_refunds := (fresh_id db, r\<lparr>refund_id := fresh_id db\<rparr>) # m_refunds db\<rparr>))"

definition mem_store :: "bool \<Rightarrow> mem_db store" where
  "mem_store indexed =
     \<lparr>find_refund = \<lambda>db i. map_of (m_refunds db) i,
      cas_refund = \<lambda>db i from f.
        (if cas_matches (map_of (m_refunds db) i) from
         then (map_option f (map_of (m_refunds db) i), db\<lparr>m_refunds := mem_update i f (m_refunds db)\<rparr>)
         else (None, db)),
      set_refund = \<lambda>db i f. db\<lparr>m_refunds := mem_update i f (m_refunds db)\<rparr>,
      insert_refund = mem_insert indexed,
      find_live = \<lambda>db pid. map_option snd
        (find (\<lambda>(i, x). purchaseId x = pid \<and> status x \<noteq> REJECTED) (m_refunds db)),
      find_purchase = \<lambda>db pid. map_option (\<lambda>p. p\<lparr>p_id := pid\<rparr>) (map_of (m_purchases db) pid),
      find_purchase_by_tx = \<lambda>db h. map_option (\<lambda>(i, p). p\<lparr>p_id := i\<rparr>)
        (find (\<lambda>(i, p). p_transactionHash p = Some h) (m_purchases db)),
      update_purchase = \<lambda>db pid rid f. db\<lparr>m_purchases := mem_update pid
        (\<lambda>p. if rid \<in> set (p_appliedRefundIds p) then p else f (p\<lparr>p_id := pid\<rparr>)) (m_purchases db)\<rparr>\<rparr>"

lemma map_of_mem_update: "map_of (mem_update i f xs) j = (if j = i then map_option f (map_of xs i) else map_of xs j)"
  by (induction xs) (auto simp: mem_update_def)

lemma fresh_id_absent: "map_of (m_refunds db) (fresh_id db) = None"
proof -
  have *: "length i \<le> foldr (\<lambda>(i, _) n. max (length i) n) xs 0" if "(i, x) \<in> set xs"
    for i and xs :: "(string \<times> refund) list" and x
    using that by (induction xs) auto
  have "length i < length (fresh_id db)" if "(i, x) \<in> set (m_refunds db)" for i x
    using * [OF that] unfolding fresh_id_def length_replicate less_Suc_eq_le .
  then show ?thesis by (metis less_irrefl map_of_SomeD not_None_eq)
qed

lemma mem_lawful_cas: "lawful_cas (mem_store x)"
  by (auto simp: lawful_cas_def mem_store_def Let_def map_of_mem_update)

lemma mem_lawful_set: "lawful_set (mem_store x)"
  by (auto simp: lawful_set_def mem_store_def map_of_mem_update)

lemma mem_lawful_insert: "lawful_insert (mem_store x)"
  by (auto simp: lawful_insert_def mem_store_def Let_def mem_insert_def fresh_id_absent)

lemma mem_lawful_purchases: "lawful_purchases (mem_store x)"
  unfolding lawful_purchases_def
proof (intro allI conjI impI)
  fix db pid rid q and f :: "purchase \<Rightarrow> purchase"
  assume f: "\<forall>p. p_id (f p) = p_id p"
  have [simp]: "f (p\<lparr>p_id := i\<rparr>)\<lparr>p_id := i\<rparr> = f (p\<lparr>p_id := i\<rparr>)" for p i
  proof -
    have "p_id (f (p\<lparr>p_id := i\<rparr>)) = i" using f by simp
    then show ?thesis by (cases "f (p\<lparr>p_id := i\<rparr>)") simp
  qed
  show "find_purchase (mem_store x) (update_purchase (mem_store x) db pid rid f) q =
        (case find_purchase (mem_store x) db q of
           None \<Rightarrow> None
         | Some p \<Rightarrow> Some (if q = pid \<and> rid \<notin> set (p_appliedRefundIds p) then f p else p))"
    by (auto simp: mem_store_def map_of_mem_update split: option.splits)
qed (auto simp: mem_store_def)

lemma mem_store_lawful: "lawful_store (mem_store x)"
  by (simp add: lawful_store_def mem_lawful_cas mem_lawful_set mem_lawful_insert mem_lawful_purchases)

lemma mem_index: "live_claim_index (mem_store True)"
  unfolding live_claim_index_def
proof (intro allI impI)
  fix db r i db' j x
  assume i: "insert_refund (mem_store True) db r = (Inserted i, db')"
    and j: "find_refund (mem_store True) db j = Some x" and p: "purchaseId x = purchaseId r"
  have "(j, x) \<in> set (m_refunds db)" using j by (simp add: mem_store_def map_of_SomeD)
  moreover have "\<not> list_ex (\<lambda>(i, x). purchaseId x = purchaseId r \<and> status x \<noteq> REJECTED) (m_refunds db)"
    using i by (auto simp: mem_store_def mem_insert_def split: if_splits)
  ultimately show "status x = REJECTED" using p by (fastforce simp: list_ex_iff)
qed

end
