(* ===== verification/PurchaseStatus.thy ===== *)
theory PurchaseStatus imports Prelude begin

text \<open>
  The statuses of a purchase and the form of a buyer address (\<open>src/lib/purchases/access.js\<close>), which
  entitlements, refunds and the indexer share.
\<close>

definition COMPLETED_PURCHASE_STATUSES :: "string list" where
  "COMPLETED_PURCHASE_STATUSES = [''confirmed'', ''settled'', ''completed'']"

definition INCOMPLETE_PURCHASE_STATUSES :: "string list" where
  "INCOMPLETE_PURCHASE_STATUSES = [''pending'', ''indexing'', ''processing'', ''requires_payment'']"

definition FAILED_PURCHASE_STATUSES :: "string list" where
  "FAILED_PURCHASE_STATUSES = [''failed'', ''cancelled'', ''canceled'', ''expired'']"

definition isCompletedPurchaseStatus :: "string option \<Rightarrow> bool" where
  "isCompletedPurchaseStatus s \<longleftrightarrow> List.member COMPLETED_PURCHASE_STATUSES (js_lower (or_default s []))"

definition isIncompletePurchaseStatus :: "string option \<Rightarrow> bool" where
  "isIncompletePurchaseStatus s \<longleftrightarrow> List.member INCOMPLETE_PURCHASE_STATUSES (js_lower (or_default s []))"

definition isFailedPurchaseStatus :: "string option \<Rightarrow> bool" where
  "isFailedPurchaseStatus s \<longleftrightarrow> List.member FAILED_PURCHASE_STATUSES (js_lower (or_default s []))"

definition normalizeBuyerAddress :: "string option \<Rightarrow> string" where
  "normalizeBuyerAddress a = js_lower (js_trim (or_default a []))"

end
