(* ===== verification/RefundPolicy.thy ===== *)
theory RefundPolicy imports RefundEffects PurchaseStatus begin

text \<open>
  \<open>src/lib/refunds/refundPolicy.js\<close> and \<open>src/lib/checkout/refundVerifier.js\<close>: the terms of a
  refund, derived from the purchase record. The derivation reads the clock and looks up the
  paid transaction, so it is a \<open>prog\<close> that continues with the terms.
\<close>

section \<open>The tables\<close>

definition SETTLED_SETTLEMENT_STATES :: "string list" where
  "SETTLED_SETTLEMENT_STATES = [''Refunded'', ''Disputed'', ''Expired'']"

definition REFUND_WINDOW_MS :: int where
  "REFUND_WINDOW_MS = 30 * 24 * 60 * 60 * 1000"

section \<open>The limit check\<close>

definition verifyRefundLimit :: "string \<Rightarrow> jsnum \<Rightarrow> (string option \<Rightarrow> prog) \<Rightarrow> prog" where
  "verifyRefundLimit transactionId refundAmount k =
     Find_purchase_by_tx transactionId (\<lambda>purchase.
       case purchase of
         None \<Rightarrow> k (Some ''Transaction not found'')
       | Some p \<Rightarrow>
           if js_is_nan (p_amount p) \<or> js_is_nan refundAmount then k (Some ''Invalid amount formats'')
           else if js_lt (p_amount p) refundAmount
           then k (Some ''Refund amount exceeds original purchase value'')
           else k None)"

section \<open>The terms\<close>

record refund_terms =
  t_destination :: string
  t_assetCode :: string
  t_network :: string
  t_amount :: rat
  t_remainingBefore :: rat

definition already_refunded :: "purchase \<Rightarrow> rat" where
  "already_refunded p = (case p_refundedAmount p of Some x \<Rightarrow> x | None \<Rightarrow> 0)"

definition referenceDate :: "purchase \<Rightarrow> int option" where
  "referenceDate p =
     (case p_confirmedAt p of Some t \<Rightarrow> Some t
      | None \<Rightarrow> (case p_purchasedAt p of Some t \<Rightarrow> Some t | None \<Rightarrow> p_createdAt p))"

definition offer :: "string \<Rightarrow> purchase \<Rightarrow> rat \<Rightarrow> rat \<Rightarrow> refund_terms" where
  "offer net p x remaining =
     \<lparr>t_destination = or_default (p_buyerAddress p) [], t_assetCode = or_default (p_asset p) [],
      t_network = net, t_amount = x, t_remainingBefore = remaining\<rparr>"

text \<open>From the paid amount on: what is left, and what is asked for.\<close>

definition derive_amount ::
  "string \<Rightarrow> purchase \<Rightarrow> jsnum option \<Rightarrow> (string + refund_terms \<Rightarrow> prog) \<Rightarrow> prog" where
  "derive_amount net p requestedAmount k =
     (case p_amount p of
        Fin paidAmount \<Rightarrow>
          if paidAmount \<le> 0 then k (Inl ''invalid_purchase_amount'')
          else let remaining = paidAmount - already_refunded p in
            if remaining \<le> 0 then k (Inl ''already_fully_refunded'')
            else (case (case requestedAmount of Some x \<Rightarrow> x | None \<Rightarrow> Fin remaining) of
                Fin requested \<Rightarrow>
                  if requested \<le> 0 then k (Inl ''invalid_requested_amount'')
                  else if requested > remaining
                  then k (Inl ''requested_amount_exceeds_refundable_balance'')
                  else if truthy (p_transactionHash p)
                  then verifyRefundLimit (or_default (p_transactionHash p) []) (Fin requested) (\<lambda>v.
                    case v of Some reason \<Rightarrow> k (Inl reason)
                            | None \<Rightarrow> k (Inr (offer net p requested remaining)))
                  else k (Inr (offer net p requested remaining))
              | _ \<Rightarrow> k (Inl ''invalid_requested_amount''))
      | _ \<Rightarrow> k (Inl ''invalid_purchase_amount''))"

definition deriveRefundTerms ::
  "string \<Rightarrow> purchase option \<Rightarrow> jsnum option \<Rightarrow> (string + refund_terms \<Rightarrow> prog) \<Rightarrow> prog" where
  "deriveRefundTerms net purchase requestedAmount k =
     (case purchase of
        None \<Rightarrow> k (Inl ''purchase_not_found'')
      | Some p \<Rightarrow>
          if \<not> isCompletedPurchaseStatus (p_status p) then k (Inl ''purchase_not_finalized'')
          else if truthy (p_settlementState p) \<and>
            List.member SETTLED_SETTLEMENT_STATES (or_default (p_settlementState p) [])
          then k (Inl (''purchase_settlement_'' @ js_lower (or_default (p_settlementState p) [])))
          else if \<not> truthy (p_buyerAddress p) \<or> \<not> truthy (p_asset p)
          then k (Inl ''purchase_missing_settlement_fields'')
          else (case referenceDate p of
              None \<Rightarrow> derive_amount net p requestedAmount k
            | Some t \<Rightarrow> Now (\<lambda>now.
                if now - t > REFUND_WINDOW_MS then k (Inl ''refund_window_expired'')
                else derive_amount net p requestedAmount k)))"

end
