(* ===== verification/RefundWorkflow.thy ===== *)
theory RefundWorkflow imports RefundPolicy TransitionTables begin

text \<open>
  \<open>src/lib/refunds/refundWorkflow.js\<close>: the refund state machine. Every exported operation is a
  \<open>prog\<close>, written as the code is: \<open>transition\<close> is the compare-and-set every status change goes
  through, \<open>processApprovedRefund\<close> and \<open>reconcileRefund\<close> are the worker's two steps,
  \<open>finalizeSettlement\<close> is where access is revoked and the purchase updated. Theory
  \<open>RefundSystem\<close> runs any number of them side by side.
\<close>

section \<open>The state machine\<close>

definition REFUND_TRANSITIONS :: "refund_status table" where
  "REFUND_TRANSITIONS =
    [(REQUESTED, [APPROVED, REJECTED]),
     (APPROVED, [SUBMITTING]),
     (SUBMITTING, [PENDING, SETTLED, FAILED, APPROVED]),
     (PENDING, [PENDING, SETTLED, FAILED, APPROVED]),
     (FAILED, [APPROVED, REJECTED]),
     (SETTLED, []),
     (REJECTED, [])]"

definition REFUND_TERMINAL_STATUSES :: "refund_status list" where
  "REFUND_TERMINAL_STATUSES = filter (\<lambda>s. next_of REFUND_TRANSITIONS s = []) (keys REFUND_TRANSITIONS)"

definition isValidRefundTransition :: "refund_status \<Rightarrow> refund_status \<Rightarrow> bool" where
  "isValidRefundTransition fromStatus toStatus \<longleftrightarrow>
     List.member (keys REFUND_TRANSITIONS) fromStatus \<and>
     List.member (next_of REFUND_TRANSITIONS fromStatus) toStatus"

definition MAX_SUBMIT_RETRIES :: nat where "MAX_SUBMIT_RETRIES = 5"
definition STUCK_SUBMITTING_MS :: int where "STUCK_SUBMITTING_MS = 5 * 60 * 1000"
definition PENDING_TIMEOUT_MS :: int where "PENDING_TIMEOUT_MS = 10 * 60 * 1000"

interpretation refund_table: transition_table "keys REFUND_TRANSITIONS" "next_of REFUND_TRANSITIONS"
  "\<lambda>s. s \<in> set (keys REFUND_TRANSITIONS) \<and> next_of REFUND_TRANSITIONS s = []"
  by (rule table_transition_table) code_simp

definition transition ::
  "string \<Rightarrow> refund_status list \<Rightarrow> refund_status \<Rightarrow> (refund \<Rightarrow> refund) \<Rightarrow> (refund option \<Rightarrow> prog) \<Rightarrow> prog" where
  "transition refundId from toStatus extraSet k =
     (if list_ex (\<lambda>s. \<not> isValidRefundTransition s toStatus) from
      then Done (Thrown ''INVALID_REFUND_TRANSITION'')
      else Now (\<lambda>now. Cas refundId from (\<lambda>r. extraSet (r\<lparr>status := toStatus, updatedAt := now\<rparr>)) k))"

section \<open>Filing, approving, rejecting\<close>

definition audited ::
  "string \<Rightarrow> string \<Rightarrow> string \<Rightarrow> string \<Rightarrow> refund_status option \<Rightarrow> refund_status \<Rightarrow> string option \<Rightarrow> audit_event" where
  "audited rid pid actor action prev new reason =
     \<lparr>a_refundId = rid, a_purchaseId = pid, a_actor = actor, a_action = action,
      a_previousStatus = prev, a_newStatus = new, a_reason = reason\<rparr>"

definition new_claim :: "purchase \<Rightarrow> refund_terms \<Rightarrow> string \<Rightarrow> string option \<Rightarrow> int \<Rightarrow> refund" where
  "new_claim p t who reason now =
     \<lparr>refund_id = [], purchaseId = p_id p, materialId = p_materialId p,
      buyerAddress = or_default (p_buyerAddress p) [], destination = t_destination t,
      assetCode = t_assetCode t, network = t_network t, amount = t_amount t, status = REQUESTED,
      requestedBy = who, requestReason = reason, retryCount = 0, txHash = None,
      sequence = None, ledger = None, operationIndex = None, failureReason = None,
      lastError = None, entitlementRevoked = False, createdAt = now, updatedAt = now,
      approvedBy = None, approvedAt = None, rejectedBy = None, rejectedAt = None,
      retryRequestedBy = None, submissionAttemptedAt = None, pendingSince = None,
      settledAt = None, convergedAt = None\<rparr>"

text \<open>From the eligible terms on: the claim is inserted, or the live one is returned.\<close>

definition file_claim :: "purchase \<Rightarrow> refund_terms \<Rightarrow> string option \<Rightarrow> string option \<Rightarrow> prog" where
  "file_claim p t actor reason =
     Now (\<lambda>now.
       let who = or_default actor (or_default (p_buyerAddress p) []);
           doc = new_claim p t who reason now in
       Insert_refund doc (\<lambda>x. case x of
           Inserted rid \<Rightarrow>
             Audit (audited rid (p_id p) who ''requested'' None REQUESTED reason)
               (Notify ''refund_requested'' (''refund:requested:'' @ rid)
                 (Done (Success (doc\<lparr>refund_id := rid\<rparr>) False)))
         | Duplicate_key \<Rightarrow>
             Find_live (p_id p) (\<lambda>existing. case existing of
                 Some r \<Rightarrow> Done (Success r True)
               | None \<Rightarrow> Done (Thrown ''duplicate_key''))
         | Insert_failed \<Rightarrow> Done (Thrown ''insert_failed'')))"

definition requestRefund ::
  "string \<Rightarrow> string \<Rightarrow> string option \<Rightarrow> string option \<Rightarrow> string option \<Rightarrow> jsnum option \<Rightarrow> prog" where
  "requestRefund net pid buyer actor reason requestedAmount =
     Find_purchase pid
       (\<lambda>purchase. case purchase of
          None \<Rightarrow> Done (Failure ''purchase_not_found'' None)
        | Some p \<Rightarrow>
            if truthy buyer \<and> normalizeBuyerAddress (p_buyerAddress p) \<noteq> normalizeBuyerAddress buyer
            then Done (Failure ''not_purchase_owner'' None)
            else deriveRefundTerms net (Some p) requestedAmount (\<lambda>t. case t of
                Inl why \<Rightarrow> Done (Failure why None)
              | Inr t \<Rightarrow> file_claim p t actor reason))
       (Done (Failure ''invalid_purchase_id'' None))"

text \<open>What an admin operation answers when the compare-and-set found nothing to move.\<close>

definition not_moved :: "string \<Rightarrow> prog" where
  "not_moved refundId =
     Find_refund refundId (\<lambda>current. case current of
         None \<Rightarrow> Done (Failure ''refund_not_found'' None)
       | Some r \<Rightarrow> Done (Failure ''already_transitioned'' (Some r)))"

definition approveRefund :: "string \<Rightarrow> string \<Rightarrow> string option \<Rightarrow> prog" where
  "approveRefund refundId actor reason =
     Now (\<lambda>t. transition refundId [REQUESTED] APPROVED
       (\<lambda>r. r\<lparr>approvedBy := Some actor, approvedAt := Some t\<rparr>)
       (\<lambda>updated. case updated of
          None \<Rightarrow> not_moved refundId
        | Some r \<Rightarrow>
            Audit (audited (refund_id r) (purchaseId r) actor ''approved'' (Some REQUESTED) APPROVED reason)
              (Done (Success r False))))"

definition rejectRefund :: "string \<Rightarrow> string \<Rightarrow> string option \<Rightarrow> prog" where
  "rejectRefund refundId actor reason =
     Now (\<lambda>t. transition refundId [REQUESTED, FAILED] REJECTED
       (\<lambda>r. r\<lparr>rejectedBy := Some actor, rejectedAt := Some t\<rparr>)
       (\<lambda>updated. case updated of
          None \<Rightarrow> not_moved refundId
        | Some r \<Rightarrow>
            Audit (audited (refund_id r) (purchaseId r) actor ''rejected'' (Some REQUESTED) REJECTED reason)
              (Done (Success r False))))"

definition retryFailedRefund :: "string \<Rightarrow> string \<Rightarrow> string option \<Rightarrow> prog" where
  "retryFailedRefund refundId actor reason =
     transition refundId [FAILED] APPROVED
       (\<lambda>r. r\<lparr>retryCount := 0, retryRequestedBy := Some actor\<rparr>)
       (\<lambda>updated. case updated of
          None \<Rightarrow> Done (Failure ''not_in_failed_state'' None)
        | Some r \<Rightarrow>
            Audit (audited (refund_id r) (purchaseId r) actor ''retry_requested'' (Some FAILED) APPROVED reason)
              (Done (Success r False)))"

section \<open>Retries\<close>

definition retryOrFail ::
  "refund \<Rightarrow> string \<Rightarrow> string \<Rightarrow> string \<Rightarrow> refund_status list \<Rightarrow> prog" where
  "retryOrFail refund why detail actor fromStatuses =
     (let nextRetryCount = retryCount refund + 1 in
      if nextRetryCount > MAX_SUBMIT_RETRIES then
        transition (refund_id refund) fromStatuses FAILED
          (\<lambda>r. r\<lparr>failureReason := Some why, lastError := Some detail, retryCount := nextRetryCount\<rparr>)
          (\<lambda>failed.
             Audit (audited (refund_id refund) (purchaseId refund) actor ''failed''
                      (Some (status refund)) FAILED (Some why))
               (Notify ''refund_failed'' (''refund:failed:'' @ refund_id refund)
                 (Done (Outcome ''failed'' failed))))
      else
        transition (refund_id refund) fromStatuses APPROVED
          (\<lambda>r. r\<lparr>txHash := None, sequence := None, lastError := Some detail, retryCount := nextRetryCount\<rparr>)
          (\<lambda>approved.
             Audit (audited (refund_id refund) (purchaseId refund) actor ''retry_scheduled''
                      (Some (status refund)) APPROVED (Some why))
               (Done (Outcome ''retry_scheduled'' approved))))"

section \<open>Settlement\<close>

text \<open>From the point where \<open>current\<close> is known to be settled.\<close>

definition converge :: "string \<Rightarrow> string \<Rightarrow> refund \<Rightarrow> prog" where
  "converge refundId actor current =
     (let finish = (\<lambda>c. Notify ''refund_settled'' (''refund:settled:'' @ refundId)
                          (Done (Outcome ''settled'' (Some c)))) in
      if \<not> entitlementRevoked current then
        Revoke (materialId current) (buyerAddress current)
          (Now (\<lambda>now.
            Mirror_purchase (purchaseId current) refundId (amount current) (txHash current) now
              (Now (\<lambda>t. Set_refund refundId (\<lambda>r. r\<lparr>entitlementRevoked := True, convergedAt := Some t\<rparr>)
                (Audit (audited refundId (purchaseId current) actor ''entitlement_revoked''
                          (Some SETTLED) SETTLED None)
                  (finish (current\<lparr>entitlementRevoked := True\<rparr>)))))))
      else finish current)"

definition finalizeSettlement ::
  "string \<Rightarrow> string option \<Rightarrow> int option \<Rightarrow> nat \<Rightarrow> string \<Rightarrow> prog" where
  "finalizeSettlement refundId hash ledg opIndex actor =
     Find_refund refundId (\<lambda>found. case found of
         None \<Rightarrow> Done (Outcome ''not_found'' None)
       | Some current \<Rightarrow>
           if status current \<noteq> SETTLED then
             Now (\<lambda>t. transition refundId [SUBMITTING, PENDING] SETTLED
               (\<lambda>r. r\<lparr>txHash := hash, ledger := ledg, operationIndex := Some opIndex, settledAt := Some t\<rparr>)
               (\<lambda>settled. case settled of
                  Some s \<Rightarrow>
                    Audit (audited refundId (purchaseId s) actor ''settled'' (Some SUBMITTING) SETTLED None)
                      (converge refundId actor s)
                | None \<Rightarrow>
                    Find_refund refundId (\<lambda>again. case again of
                        None \<Rightarrow> Done (Outcome ''not_settled'' None)
                      | Some c \<Rightarrow>
                          if status c \<noteq> SETTLED then Done (Outcome ''not_settled'' (Some c))
                          else converge refundId actor c)))
           else converge refundId actor current)"

section \<open>The worker\<close>

text \<open>From the submission's answer on.\<close>

definition after_submission :: "refund \<Rightarrow> string \<Rightarrow> submission \<Rightarrow> prog" where
  "after_submission claimed actor submission =
     (case submission of
        Confirmed hash ledg \<Rightarrow> finalizeSettlement (refund_id claimed) (Some hash) (Some ledg) 0 actor
      | Ambiguous reason \<Rightarrow>
          Now (\<lambda>t. transition (refund_id claimed) [SUBMITTING] PENDING
            (\<lambda>r. r\<lparr>lastError := Some reason, pendingSince := Some t\<rparr>)
            (\<lambda>pending.
               Audit (audited (refund_id claimed) (purchaseId claimed) actor ''submission_ambiguous''
                        (Some SUBMITTING) PENDING (Some reason))
                 (Done (Outcome ''pending'' pending))))
      | Not_paid reason \<Rightarrow> retryOrFail claimed reason reason actor [SUBMITTING])"

text \<open>From the claim on: treasury check, build, checkpoint, submission.\<close>

definition submit_claimed :: "refund \<Rightarrow> string \<Rightarrow> prog" where
  "submit_claimed claimed actor =
     Treasury (assetCode claimed) (\<lambda>b. case b of
         Inl err \<Rightarrow> retryOrFail claimed ''treasury_check_failed'' err actor [SUBMITTING]
       | Inr balance \<Rightarrow>
           if js_lt balance (Fin (amount claimed))
           then retryOrFail claimed ''treasury_shortage'' ''signer balance below required'' actor [SUBMITTING]
           else Build (destination claimed) (amount claimed) (assetCode claimed) (\<lambda>built. case built of
               Inl err \<Rightarrow> retryOrFail claimed ''build_failed'' err actor [SUBMITTING]
             | Inr tx \<Rightarrow> Now (\<lambda>t.
                 Set_refund (refund_id claimed)
                   (\<lambda>r. r\<lparr>txHash := Some (tx_hash tx), sequence := Some (tx_sequence tx), updatedAt := t\<rparr>)
                   (Submit tx (amount claimed) (after_submission claimed actor)))))"

definition processApprovedRefund :: "refund \<Rightarrow> string \<Rightarrow> prog" where
  "processApprovedRefund refund actor =
     Now (\<lambda>t. transition (refund_id refund) [APPROVED] SUBMITTING
       (\<lambda>r. r\<lparr>submissionAttemptedAt := Some t\<rparr>)
       (\<lambda>claimed. case claimed of
          None \<Rightarrow> Done (Outcome ''already_claimed'' None)
        | Some c \<Rightarrow>
            Audit (audited (refund_id c) (purchaseId c) actor ''submitting'' (Some APPROVED) SUBMITTING None)
              (submit_claimed c actor)))"

definition still_pending :: "refund \<Rightarrow> prog" where
  "still_pending refund =
     (let move = (\<lambda>since. transition (refund_id refund) [SUBMITTING, PENDING] PENDING
                    (\<lambda>r. r\<lparr>pendingSince := Some since\<rparr>)
                    (\<lambda>updated. Done (Outcome ''still_pending''
                       (case updated of Some u \<Rightarrow> Some u | None \<Rightarrow> Some refund)))) in
      case pendingSince refund of Some since \<Rightarrow> move since | None \<Rightarrow> Now move)"

definition reconcileRefund :: "refund \<Rightarrow> string \<Rightarrow> prog" where
  "reconcileRefund refund actor =
     (if status refund = SETTLED
      then finalizeSettlement (refund_id refund) (txHash refund) (ledger refund) 0 actor
      else if \<not> truthy (txHash refund)
      then retryOrFail refund ''no_txhash_recorded'' ''no submission checkpoint found'' actor [SUBMITTING, PENDING]
      else Tx_status (or_default (txHash refund) []) (\<lambda>st.
        if st = ''confirmed'' then finalizeSettlement (refund_id refund) (txHash refund) None 0 actor
        else if st = ''failed''
        then retryOrFail refund ''ledger_rejected'' ''transaction present but unsuccessful on ledger'' actor
               [SUBMITTING, PENDING]
        else (case pendingSince refund of
            None \<Rightarrow> still_pending refund
          | Some since \<Rightarrow> Now (\<lambda>now.
              if now - since > PENDING_TIMEOUT_MS
              then retryOrFail refund ''pending_timeout_exceeded'' ''transaction never resolved on the ledger''
                     actor [SUBMITTING, PENDING]
              else still_pending refund))))"

text \<open>The two queues the worker polls, on the documents of the collection.\<close>

definition awaits_submission :: "refund \<Rightarrow> bool" where
  "awaits_submission r \<longleftrightarrow> status r = APPROVED"

definition awaits_reconciliation :: "int \<Rightarrow> refund \<Rightarrow> bool" where
  "awaits_reconciliation now r \<longleftrightarrow>
     status r = PENDING \<or>
     (status r = SUBMITTING \<and> updatedAt r < now - STUCK_SUBMITTING_MS) \<or>
     (status r = SETTLED \<and> \<not> entitlementRevoked r)"

definition getRefundsAwaitingSubmission :: "nat \<Rightarrow> refund list \<Rightarrow> refund list" where
  "getRefundsAwaitingSubmission limit docs = take limit (sort_key updatedAt (filter awaits_submission docs))"

definition getRefundsAwaitingReconciliation :: "int \<Rightarrow> nat \<Rightarrow> refund list \<Rightarrow> refund list" where
  "getRefundsAwaitingReconciliation now limit docs =
     take limit (sort_key updatedAt (filter (awaits_reconciliation now) docs))"

end
