(* ===== verification/RefundSystem.thy ===== *)
theory RefundSystem imports RefundWorkflow OpSystems begin

text \<open>
  Any number of refund handlers side by side: a move starts a handler, lets one handler perform
  its next awaited call, or crashes one. What holds after every list of moves holds under every
  interleaving of requests, workers, reconcilers and crashes.
\<close>

section \<open>The system\<close>

datatype call =
    Request string string "string option" "string option" "string option" "jsnum option"
  | Approve string string "string option"
  | Reject string string "string option"
  | Retry string string "string option"
  | Process refund string
  | Reconcile refund string
  | Finalize string "string option" "int option" nat string

fun handler :: "call \<Rightarrow> prog" where
  "handler (Request net pid buyer actor reason x) = requestRefund net pid buyer actor reason x"
| "handler (Approve i actor reason) = approveRefund i actor reason"
| "handler (Reject i actor reason) = rejectRefund i actor reason"
| "handler (Retry i actor reason) = retryFailedRefund i actor reason"
| "handler (Process r actor) = processApprovedRefund r actor"
| "handler (Reconcile r actor) = reconcileRefund r actor"
| "handler (Finalize i h l n actor) = finalizeSettlement i h l n actor"

record 'db world =
  db :: 'db
  procs :: "prog list"
  trail :: "event list"

datatype move = Start call | Turn nat response | Crash nat

definition turn :: "'db store \<Rightarrow> nat \<Rightarrow> response \<Rightarrow> 'db world \<Rightarrow> 'db world" where
  "turn d n a w =
     (if n < length (procs w) then
        (case perform d a (procs w ! n) (db w) of
           None \<Rightarrow> w
         | Some (p, db', es) \<Rightarrow> \<lparr>db = db', procs = (procs w)[n := p], trail = trail w @ es\<rparr>)
      else w)"

fun step :: "'db store \<Rightarrow> move \<Rightarrow> 'db world \<Rightarrow> 'db world" where
  "step d (Start c) w = w\<lparr>procs := procs w @ [handler c]\<rparr>"
| "step d (Turn n a) w = turn d n a w"
| "step d (Crash n) w = w\<lparr>procs := (procs w)[n := Done (Thrown ''crash'')]\<rparr>"

definition run :: "'db store \<Rightarrow> move list \<Rightarrow> 'db world \<Rightarrow> 'db world" where
  "run d moves w = fold (step d) moves w"

definition started :: "'db \<Rightarrow> 'db world" where
  "started s = \<lparr>db = s, procs = [], trail = []\<rparr>"

section \<open>What a handler knows\<close>

text \<open>
  Facts about the documents that no operation makes false again: the frozen terms of a claim,
  that it is settled, that its access was revoked, that its purchase lists it, what a purchase
  was paid and had refunded when it was read.
\<close>

datatype fact =
    Terms string terms
  | Settled string
  | Revoked string string
  | Mirrored string string
  | Seen string jsnum rat

definition learn :: "string \<Rightarrow> refund option \<Rightarrow> fact set \<Rightarrow> fact set" where
  "learn i r S = (case r of
     None \<Rightarrow> S
   | Some x \<Rightarrow> (if status x = SETTLED then {Settled i} else {}) \<union> insert (Terms i (terms x)) S)"

definition is_read :: "string \<Rightarrow> refund option \<Rightarrow> bool" where
  "is_read i r \<longleftrightarrow> (case r of None \<Rightarrow> True | Some x \<Rightarrow> refund_id x = i)"

definition keeps_terms :: "(refund \<Rightarrow> refund) \<Rightarrow> bool" where
  "keeps_terms f \<longleftrightarrow> (\<forall>r. terms (f r) = terms r \<and> refund_id (f r) = refund_id r)"

definition cas_ok :: "refund_status list \<Rightarrow> (refund \<Rightarrow> refund) \<Rightarrow> bool" where
  "cas_ok from f \<longleftrightarrow> keeps_terms f \<and> (\<forall>r. entitlementRevoked (f r) = entitlementRevoked r) \<and>
     (\<forall>r. status r \<in> set from \<longrightarrow> isValidRefundTransition (status r) (status (f r)))"

definition set_ok :: "string \<Rightarrow> (refund \<Rightarrow> refund) \<Rightarrow> fact set \<Rightarrow> bool" where
  "set_ok i f S \<longleftrightarrow> keeps_terms f \<and> (\<forall>r. status (f r) = status r) \<and>
     ((\<forall>r. entitlementRevoked (f r) = entitlementRevoked r) \<or>
      (\<exists>pid m b dst c x. {Terms i (pid, m, b, dst, c, x), Settled i, Revoked m b, Mirrored pid i} \<subseteq> S))"

definition claim_ok :: "refund \<Rightarrow> fact set \<Rightarrow> bool" where
  "claim_ok r S \<longleftrightarrow> status r = REQUESTED \<and> \<not> entitlementRevoked r \<and>
     (\<exists>paid before. Seen (purchaseId r) (Fin paid) before \<in> S \<and> 0 < amount r \<and> amount r \<le> paid - before)"

text \<open>
  \<open>ok p S n\<close>: a handler at \<open>p\<close>, knowing \<open>S\<close>, only writes what it knows to be justified, and
  submits at most \<open>n\<close> payments more than it claims refunds.
\<close>

primrec ok :: "prog \<Rightarrow> fact set \<Rightarrow> nat \<Rightarrow> bool" where
  "ok (Done x) = (\<lambda>S n. True)"
| "ok (Now k) = (\<lambda>S n. \<forall>t. ok (k t) S n)"
| "ok (Find_refund i k) = (\<lambda>S n. \<forall>r. is_read i r \<longrightarrow> ok (k r) (learn i r S) n)"
| "ok (Cas i from f k) = (\<lambda>S n. cas_ok from f \<and>
     (\<forall>r. is_read i r \<longrightarrow> (\<forall>x. r = Some x \<longrightarrow> (\<exists>y. x = f y)) \<longrightarrow>
        ok (k r) (learn i r S)
          (case r of Some x \<Rightarrow> if status x = SUBMITTING then Suc n else n | None \<Rightarrow> n)))"
| "ok (Set_refund i f k) = (\<lambda>S n. set_ok i f S \<and> ok k S n)"
| "ok (Insert_refund r k) = (\<lambda>S n. claim_ok r S \<and> (\<forall>x. ok (k x) S n))"
| "ok (Find_live pid k) = (\<lambda>S n. \<forall>r. ok (k r) S n)"
| "ok (Find_purchase pid k c) = (\<lambda>S n. ok c S n \<and> (\<forall>p. (\<forall>x. p = Some x \<longrightarrow> p_id x = pid) \<longrightarrow>
     ok (k p) (case p of None \<Rightarrow> S | Some x \<Rightarrow> insert (Seen pid (p_amount x) (already_refunded x)) S) n))"
| "ok (Find_purchase_by_tx h k) = (\<lambda>S n. \<forall>p. ok (k p) S n)"
| "ok (Mirror_purchase pid rid x tx now k) = (\<lambda>S n.
     Settled rid \<in> S \<and> (\<exists>m b dst c. Terms rid (pid, m, b, dst, c, x) \<in> S \<and> Revoked m b \<in> S) \<and>
     ok k (insert (Mirrored pid rid) S) n)"
| "ok (Revoke m b k) = (\<lambda>S n.
     (\<exists>i pid dst c x. Settled i \<in> S \<and> Terms i (pid, m, b, dst, c, x) \<in> S) \<and> ok k (insert (Revoked m b) S) n)"
| "ok (Audit e k) = (\<lambda>S n. ok k S n)"
| "ok (Notify t key k) = (\<lambda>S n. ok k S n)"
| "ok (Treasury c k) = (\<lambda>S n. \<forall>x. ok (k x) S n)"
| "ok (Build dst x c k) = (\<lambda>S n. \<forall>y. (\<forall>tx. y = Inr tx \<longrightarrow>
     tx_destination tx = dst \<and> tx_amount tx = x \<and> tx_asset tx = c) \<longrightarrow> ok (k y) S n)"
| "ok (Submit tx x k) = (\<lambda>S n. 0 < n \<and>
     (\<exists>i pid m b. Terms i (pid, m, b, tx_destination tx, tx_asset tx, tx_amount tx) \<in> S) \<and>
     (\<forall>s. ok (k s) S (n - 1)))"
| "ok (Tx_status h k) = (\<lambda>S n. \<forall>s. ok (k s) S n)"

section \<open>Every handler is justified\<close>

lemma terms_update [simp]:
  "terms (r\<lparr>status := s\<rparr>) = terms r" "terms (r\<lparr>updatedAt := t\<rparr>) = terms r"
  "terms (r\<lparr>approvedBy := a\<rparr>) = terms r" "terms (r\<lparr>approvedAt := o1\<rparr>) = terms r"
  "terms (r\<lparr>rejectedBy := a\<rparr>) = terms r" "terms (r\<lparr>rejectedAt := o1\<rparr>) = terms r"
  "terms (r\<lparr>retryCount := n\<rparr>) = terms r" "terms (r\<lparr>retryRequestedBy := a\<rparr>) = terms r"
  "terms (r\<lparr>failureReason := a\<rparr>) = terms r" "terms (r\<lparr>lastError := a\<rparr>) = terms r"
  "terms (r\<lparr>txHash := a\<rparr>) = terms r" "terms (r\<lparr>sequence := a\<rparr>) = terms r"
  "terms (r\<lparr>ledger := o1\<rparr>) = terms r" "terms (r\<lparr>operationIndex := o2\<rparr>) = terms r"
  "terms (r\<lparr>settledAt := o1\<rparr>) = terms r" "terms (r\<lparr>pendingSince := o1\<rparr>) = terms r"
  "terms (r\<lparr>submissionAttemptedAt := o1\<rparr>) = terms r" "terms (r\<lparr>convergedAt := o1\<rparr>) = terms r"
  "terms (r\<lparr>entitlementRevoked := b\<rparr>) = terms r" "terms (r\<lparr>refund_id := a1\<rparr>) = terms r"
  by (simp_all add: terms_def)

lemma valid_iff:
  "isValidRefundTransition s t \<longleftrightarrow>
     (s = REQUESTED \<and> t \<in> {APPROVED, REJECTED}) \<or> (s = APPROVED \<and> t = SUBMITTING) \<or>
     (s \<in> {SUBMITTING, PENDING} \<and> t \<in> {PENDING, SETTLED, FAILED, APPROVED}) \<or>
     (s = FAILED \<and> t \<in> {APPROVED, REJECTED})"
  by (cases s) (auto simp: isValidRefundTransition_def REFUND_TRANSITIONS_def next_of_def)

lemma is_read_simps [simp]: "is_read i None" "is_read i (Some x) \<longleftrightarrow> refund_id x = i"
  by (simp_all add: is_read_def)

lemma learn_simps [simp]: "learn i None S = S"
  by (simp add: learn_def)

lemma learn_Some: "Terms i (terms x) \<in> learn i (Some x) S" "status x = SETTLED \<Longrightarrow> Settled i \<in> learn i (Some x) S"
  "S \<subseteq> learn i r S"
  by (auto simp: learn_def split: option.splits)

lemma ok_transition:
  assumes "list_all (\<lambda>s. isValidRefundTransition s to) from"
    and "\<And>r. status (f r) = status r" "\<And>r. terms (f r) = terms r" "\<And>r. refund_id (f r) = refund_id r"
    and "\<And>r. entitlementRevoked (f r) = entitlementRevoked r"
    and "ok (k None) S n"
    and "\<And>x. refund_id x = i \<Longrightarrow> status x = to \<Longrightarrow>
           ok (k (Some x)) (learn i (Some x) S) (if to = SUBMITTING then Suc n else n)"
  shows "ok (transition i from to f k) S n"
proof -
  have v: "\<not> list_ex (\<lambda>s. \<not> isValidRefundTransition s to) from"
    using assms(1) by (auto simp: list_ex_iff list_all_iff)
  have c: "cas_ok from (\<lambda>r. f (r\<lparr>status := to, updatedAt := now\<rparr>))" for now
    using assms(1-5) by (auto simp: cas_ok_def keeps_terms_def list_all_iff)
  have "ok (k r) (learn i r S) (case r of Some x \<Rightarrow> if status x = SUBMITTING then Suc n else n | None \<Rightarrow> n)"
    if "is_read i r" "\<And>x. r = Some x \<Longrightarrow> \<exists>y. x = f (y\<lparr>status := to, updatedAt := now\<rparr>)" for r now
  proof (cases r)
    case None
    then show ?thesis using assms(6) by simp
  next
    case (Some x)
    then have "status x = to" using that(2) [of x] assms(2) by auto
    then show ?thesis using assms(7) [of x] that(1) Some by simp
  qed
  then show ?thesis
    unfolding transition_def if_not_P [OF v] ok.simps using c by blast
qed

lemma ok_not_moved: "ok (not_moved i) S n"
  by (auto simp: not_moved_def split: option.splits)

lemma ok_retryOrFail:
  assumes "list_all (\<lambda>s. s \<in> {SUBMITTING, PENDING}) from"
  shows "ok (retryOrFail r why detail actor from) S n"
  unfolding retryOrFail_def Let_def
  using assms by (auto intro!: ok_transition simp: valid_iff list_all_iff)

lemma set_ok_converged:
  assumes "keeps_terms f" "\<And>r. status (f r) = status r"
    and "Terms i (pid, m, b, dst, c, x) \<in> S" "Settled i \<in> S" "Revoked m b \<in> S" "Mirrored pid i \<in> S"
  shows "set_ok i f S"
  unfolding set_ok_def using assms by blast

lemma ok_converge:
  assumes "Settled i \<in> S" "Terms i (terms c) \<in> S"
  shows "ok (converge i actor c) S n"
proof -
  have t: "Terms i (purchaseId c, materialId c, buyerAddress c, destination c, assetCode c, amount c) \<in> S"
    using assms(2) by (simp add: terms_def)
  let ?S = "insert (Mirrored (purchaseId c) i) (insert (Revoked (materialId c) (buyerAddress c)) S)"
  have "set_ok i (\<lambda>r. r\<lparr>entitlementRevoked := True, convergedAt := now\<rparr>) ?S" for now
  using t assms(1) by (intro set_ok_converged) (auto simp: keeps_terms_def)
  moreover have "\<exists>i pid dst cc x. Settled i \<in> S \<and> Terms i (pid, materialId c, buyerAddress c, dst, cc, x) \<in> S"
    using t assms(1) by blast
  ultimately show ?thesis unfolding converge_def Let_def using t assms(1) by auto
qed

lemma ok_finalizeSettlement: "ok (finalizeSettlement i h l m actor) S n"
proof -
  have conv: "ok (converge i actor c) (learn i (Some c) T) n" if "status c = SETTLED" for i c T
    by (rule ok_converge) (use that learn_Some in auto)
  have again: "ok (case r of None \<Rightarrow> Done (Outcome ''not_settled'' None)
      | Some c \<Rightarrow> if status c \<noteq> SETTLED then Done (Outcome ''not_settled'' (Some c)) else converge i actor c)
      (learn i r T) n" for r T
    by (cases r) (simp_all add: conv)
  show ?thesis
    unfolding finalizeSettlement_def
    by (auto simp: again conv valid_iff split: option.split intro!: ok_transition)
qed

lemma ok_after_submission: "ok (after_submission c actor s) S n"
  unfolding after_submission_def
  by (cases s) (auto simp: ok_finalizeSettlement valid_iff intro!: ok_retryOrFail ok_transition)

lemma ok_submit_claimed:
  assumes "Terms (refund_id c) (terms c) \<in> S" "0 < n"
  shows "ok (submit_claimed c actor) S n"
proof -
  have "set_ok i (\<lambda>r. r\<lparr>txHash := h, sequence := s, updatedAt := t\<rparr>) S" for i h s t
    by (simp add: set_ok_def keeps_terms_def)
  moreover have "\<exists>i pid m b. Terms i (pid, m, b, destination c, assetCode c, amount c) \<in> S"
    using assms(1) unfolding terms_def by blast
  ultimately show ?thesis
    unfolding submit_claimed_def using assms(2)
    by (auto simp: ok_after_submission split: sum.split intro!: ok_retryOrFail)
qed

lemma ok_processApprovedRefund: "ok (processApprovedRefund r actor) S n"
  unfolding processApprovedRefund_def
  by (auto simp: valid_iff learn_Some intro!: ok_transition ok_submit_claimed)

lemma ok_still_pending: "ok (still_pending r) S n"
  unfolding still_pending_def Let_def
  by (auto simp: valid_iff split: option.split intro!: ok_transition)

lemma ok_reconcileRefund: "ok (reconcileRefund r actor) S n"
  unfolding reconcileRefund_def
  by (auto simp: ok_finalizeSettlement ok_still_pending split: option.split intro!: ok_retryOrFail)

lemma ok_verifyRefundLimit: "(\<And>v. ok (k v) S n) \<Longrightarrow> ok (verifyRefundLimit h x k) S n"
  by (auto simp: verifyRefundLimit_def split: option.split)

text \<open>The terms a purchase is offered never exceed what was left of it when it was read.\<close>

lemma ok_derive_amount:
  assumes "\<And>why. ok (k (Inl why)) S n"
    and "\<And>paid x. p_amount p = Fin paid \<Longrightarrow> 0 < x \<Longrightarrow> x \<le> paid - already_refunded p \<Longrightarrow>
           ok (k (Inr (offer net p x (paid - already_refunded p)))) S n"
  shows "ok (derive_amount net p req k) S n"
  unfolding derive_amount_def Let_def
  by (auto simp: assms split: jsnum.split option.split intro!: ok_verifyRefundLimit)

lemma ok_deriveRefundTerms:
  assumes "\<And>why. ok (k (Inl why)) S n"
    and "\<And>paid x. p_amount p = Fin paid \<Longrightarrow> 0 < x \<Longrightarrow> x \<le> paid - already_refunded p \<Longrightarrow>
           ok (k (Inr (offer net p x (paid - already_refunded p)))) S n"
  shows "ok (deriveRefundTerms net (Some p) req k) S n"
proof -
  have "ok (derive_amount net p req k) S n" using assms by (rule ok_derive_amount)
  then show ?thesis unfolding deriveRefundTerms_def by (auto simp: assms(1) split: option.split)
qed

lemma ok_file_claim:
  assumes "p_amount p = Fin paid" "0 < x" "x \<le> paid - already_refunded p"
  shows "ok (file_claim p (offer net p x r) actor reason)
           (insert (Seen (p_id p) (Fin paid) (already_refunded p)) S) n"
proof -
  have "claim_ok (new_claim p (offer net p x r) who reason now)
      (insert (Seen (p_id p) (Fin paid) (already_refunded p)) S)" for who now
    using assms by (auto simp: claim_ok_def new_claim_def offer_def)
  then show ?thesis
    unfolding file_claim_def Let_def by (auto split: insert_result.split option.split)
qed

lemma ok_requestRefund: "ok (requestRefund net pid buyer actor reason req) S n"
proof -
  have "ok (deriveRefundTerms net (Some p) req (\<lambda>t. case t of
        Inl why \<Rightarrow> Done (Failure why None) | Inr t \<Rightarrow> file_claim p t actor reason))
      (insert (Seen (p_id p) (p_amount p) (already_refunded p)) S) n" for p
    by (rule ok_deriveRefundTerms) (simp_all add: ok_file_claim)
  then show ?thesis
    unfolding requestRefund_def by (auto split: option.split)
qed

lemma ok_handler: "ok (handler c) {} 0"
  by (cases c)
    (auto simp: ok_requestRefund ok_processApprovedRefund ok_reconcileRefund ok_finalizeSettlement
      approveRefund_def rejectRefund_def retryFailedRefund_def valid_iff
      intro!: ok_transition ok_not_moved)

section \<open>The invariant\<close>

text \<open>
  \<open>base\<close> gives what each purchase had been refunded before the first move (by an older path).
\<close>

definition fact_holds :: "'db store \<Rightarrow> (string \<Rightarrow> rat) \<Rightarrow> 'db \<Rightarrow> event list \<Rightarrow> fact \<Rightarrow> bool" where
  "fact_holds d base s es f =
     (case f of
        Terms i t \<Rightarrow> (\<exists>r. find_refund d s i = Some r \<and> terms r = t)
      | Settled i \<Rightarrow> (\<exists>r. find_refund d s i = Some r \<and> status r = SETTLED)
      | Revoked m b \<Rightarrow> Access_revoked m b \<in> set es
      | Mirrored pid i \<Rightarrow> (\<forall>q. find_purchase d s pid = Some q \<longrightarrow> i \<in> set (p_appliedRefundIds q))
      | Seen pid paid before \<Rightarrow>
          (\<exists>q. find_purchase d s pid = Some q \<and> p_amount q = paid \<and> base pid \<le> before))"

definition refunds_ok :: "'db store \<Rightarrow> (string \<Rightarrow> rat) \<Rightarrow> 'db \<Rightarrow> bool" where
  "refunds_ok d base s \<longleftrightarrow> (\<forall>i r. find_refund d s i = Some r \<longrightarrow>
     refund_id r = i \<and> 0 < amount r \<and>
     (\<exists>q paid. find_purchase d s (purchaseId r) = Some q \<and> p_amount q = Fin paid \<and>
        amount r \<le> paid - base (purchaseId r)))"

definition converged_ok :: "'db store \<Rightarrow> 'db \<Rightarrow> event list \<Rightarrow> bool" where
  "converged_ok d s es \<longleftrightarrow> (\<forall>i r. find_refund d s i = Some r \<longrightarrow> entitlementRevoked r \<longrightarrow>
     status r = SETTLED \<and> Access_revoked (materialId r) (buyerAddress r) \<in> set es \<and>
     (\<forall>q. find_purchase d s (purchaseId r) = Some q \<longrightarrow> i \<in> set (p_appliedRefundIds q)))"

definition claim_amount :: "'db store \<Rightarrow> 'db \<Rightarrow> string \<Rightarrow> rat" where
  "claim_amount d s i = (case find_refund d s i of Some r \<Rightarrow> amount r | None \<Rightarrow> 0)"

definition purchases_ok :: "'db store \<Rightarrow> (string \<Rightarrow> rat) \<Rightarrow> 'db \<Rightarrow> bool" where
  "purchases_ok d base s \<longleftrightarrow> (\<forall>pid q. find_purchase d s pid = Some q \<longrightarrow>
     distinct (p_appliedRefundIds q) \<and>
     already_refunded q = base pid + sum_list (map (claim_amount d s) (p_appliedRefundIds q)) \<and>
     (\<forall>i \<in> set (p_appliedRefundIds q). \<exists>r. find_refund d s i = Some r \<and> status r = SETTLED \<and>
        purchaseId r = pid))"

definition trail_ok :: "'db store \<Rightarrow> 'db \<Rightarrow> event list \<Rightarrow> bool" where
  "trail_ok d s es \<longleftrightarrow>
     (\<forall>m b. Access_revoked m b \<in> set es \<longrightarrow>
        (\<exists>i r. find_refund d s i = Some r \<and> status r = SETTLED \<and> materialId r = m \<and> buyerAddress r = b)) \<and>
     (\<forall>tx x. Submitted tx x \<in> set es \<longrightarrow>
        (\<exists>i r. find_refund d s i = Some r \<and> destination r = tx_destination tx \<and>
           amount r = tx_amount tx \<and> assetCode r = tx_asset tx))"

definition submissions :: "event list \<Rightarrow> nat" where
  "submissions es = length (filter (\<lambda>e. case e of Submitted _ _ \<Rightarrow> True | _ \<Rightarrow> False) es)"

definition claims :: "event list \<Rightarrow> nat" where
  "claims es = length (filter (\<lambda>e. case e of Moved _ s t \<Rightarrow> s = APPROVED \<and> t = SUBMITTING | _ \<Rightarrow> False) es)"

definition procs_ok :: "'db store \<Rightarrow> (string \<Rightarrow> rat) \<Rightarrow> 'db world \<Rightarrow> (fact set \<times> nat) list \<Rightarrow> bool" where
  "procs_ok d base w ks \<longleftrightarrow>
     list_all2 (\<lambda>p (S, n). ok p S n \<and> (\<forall>f \<in> S. fact_holds d base (db w) (trail w) f)) (procs w) ks \<and>
     submissions (trail w) + sum_list (map snd ks) \<le> claims (trail w)"

definition inv :: "'db store \<Rightarrow> (string \<Rightarrow> rat) \<Rightarrow> 'db world \<Rightarrow> bool" where
  "inv d base w \<longleftrightarrow> refunds_ok d base (db w) \<and> converged_ok d (db w) (trail w) \<and>
     purchases_ok d base (db w) \<and> trail_ok d (db w) (trail w) \<and> (\<exists>ks. procs_ok d base w ks)"

section \<open>Growth of the documents\<close>

text \<open>
  What every operation of a handler does to the collections: claims are added, keep their
  terms and leave a terminal status never; purchases keep what was paid and gain refunds.
\<close>

definition grows :: "'db store \<Rightarrow> 'db \<Rightarrow> 'db \<Rightarrow> bool" where
  "grows d s s' \<longleftrightarrow>
     (\<forall>i r. find_refund d s i = Some r \<longrightarrow> (\<exists>r'. find_refund d s' i = Some r' \<and>
        terms r' = terms r \<and> refund_id r' = refund_id r \<and>
        (status r \<in> set REFUND_TERMINAL_STATUSES \<longrightarrow> status r' = status r))) \<and>
     (\<forall>pid q. find_purchase d s pid = Some q \<longrightarrow> (\<exists>q'. find_purchase d s' pid = Some q' \<and>
        p_amount q' = p_amount q \<and> set (p_appliedRefundIds q) \<subseteq> set (p_appliedRefundIds q'))) \<and>
     (\<forall>pid. find_purchase d s pid = None \<longrightarrow> find_purchase d s' pid = None)"

lemma terminal_statuses [simp]: "set REFUND_TERMINAL_STATUSES = {SETTLED, REJECTED}"
  by code_simp

lemma grows_refl: "grows d s s"
  by (auto simp: grows_def)

lemma growsD_refund:
  "grows d s s' \<Longrightarrow> find_refund d s i = Some r \<Longrightarrow>
     \<exists>r'. find_refund d s' i = Some r' \<and> terms r' = terms r \<and> refund_id r' = refund_id r \<and>
       (status r \<in> {SETTLED, REJECTED} \<longrightarrow> status r' = status r)"
  unfolding grows_def by (simp only: terminal_statuses)

lemma growsD_purchase:
  "grows d s s' \<Longrightarrow> find_purchase d s pid = Some q \<Longrightarrow>
     \<exists>q'. find_purchase d s' pid = Some q' \<and> p_amount q' = p_amount q \<and>
       set (p_appliedRefundIds q) \<subseteq> set (p_appliedRefundIds q')"
  unfolding grows_def by blast

lemma growsD_none: "grows d s s' \<Longrightarrow> find_purchase d s pid = None \<Longrightarrow> find_purchase d s' pid = None"
  by (simp add: grows_def)

lemma grows_trans:
  assumes "grows d s t" "grows d t u"
  shows "grows d s u"
  unfolding grows_def terminal_statuses
proof (intro conjI allI impI)
  fix i r assume "find_refund d s i = Some r"
  then obtain r1 where r1: "find_refund d t i = Some r1" "terms r1 = terms r" "refund_id r1 = refund_id r"
    "status r \<in> {SETTLED, REJECTED} \<longrightarrow> status r1 = status r"
    using growsD_refund [OF assms(1)] by blast
  obtain r2 where "find_refund d u i = Some r2" "terms r2 = terms r1" "refund_id r2 = refund_id r1"
    "status r1 \<in> {SETTLED, REJECTED} \<longrightarrow> status r2 = status r1"
    using growsD_refund [OF assms(2) r1(1)] by blast
  with r1 show "\<exists>r'. find_refund d u i = Some r' \<and> terms r' = terms r \<and> refund_id r' = refund_id r \<and>
      (status r \<in> {SETTLED, REJECTED} \<longrightarrow> status r' = status r)"
    by auto
next
  fix pid q assume "find_purchase d s pid = Some q"
  then obtain q1 where q1: "find_purchase d t pid = Some q1" "p_amount q1 = p_amount q"
    "set (p_appliedRefundIds q) \<subseteq> set (p_appliedRefundIds q1)"
    using growsD_purchase [OF assms(1)] by blast
  with growsD_purchase [OF assms(2) q1(1)]
  show "\<exists>q'. find_purchase d u pid = Some q' \<and> p_amount q' = p_amount q \<and>
      set (p_appliedRefundIds q) \<subseteq> set (p_appliedRefundIds q')"
    by fastforce
next
  fix pid assume "find_purchase d s pid = None"
  with assms show "find_purchase d u pid = None" by (auto dest: growsD_none)
qed

lemma terms_eq_iff:
  "terms r = terms r' \<longleftrightarrow> purchaseId r = purchaseId r' \<and> materialId r = materialId r' \<and>
     buyerAddress r = buyerAddress r' \<and> destination r = destination r' \<and> assetCode r = assetCode r' \<and>
     amount r = amount r'"
  by (auto simp: terms_def)

lemma fact_grows:
  assumes "grows d s s'" "fact_holds d base s es f"
  shows "fact_holds d base s' (es @ es') f"
proof (cases f)
  case (Terms i t)
  then show ?thesis using assms growsD_refund [OF assms(1)] by (fastforce simp: fact_holds_def)
next
  case (Settled i)
  then show ?thesis using assms growsD_refund [OF assms(1)] by (fastforce simp: fact_holds_def)
next
  case (Mirrored pid i)
  have "i \<in> set (p_appliedRefundIds q')" if q': "find_purchase d s' pid = Some q'" for q'
  proof -
    obtain q where q: "find_purchase d s pid = Some q"
      using growsD_none [OF assms(1)] q' by (cases "find_purchase d s pid") auto
    moreover have "i \<in> set (p_appliedRefundIds q)" using assms(2) q Mirrored by (simp add: fact_holds_def)
    ultimately show ?thesis using growsD_purchase [OF assms(1) q] q' by auto
  qed
  then show ?thesis by (simp add: fact_holds_def Mirrored)
next
  case (Seen pid paid before)
  then show ?thesis using assms growsD_purchase [OF assms(1)] by (fastforce simp: fact_holds_def)
qed (use assms in \<open>auto simp: fact_holds_def\<close>)

section \<open>One document changes\<close>

definition docs_ok :: "'db store \<Rightarrow> (string \<Rightarrow> rat) \<Rightarrow> 'db \<Rightarrow> event list \<Rightarrow> bool" where
  "docs_ok d base s es \<longleftrightarrow>
     refunds_ok d base s \<and> converged_ok d s es \<and> purchases_ok d base s \<and> trail_ok d s es"

lemma trail_grows:
  assumes "grows d s s'" "trail_ok d s es"
  shows "trail_ok d s' es"
  unfolding trail_ok_def
proof (intro conjI allI impI)
  fix m b assume "Access_revoked m b \<in> set es"
  then obtain i r where r: "find_refund d s i = Some r" "status r = SETTLED" "materialId r = m" "buyerAddress r = b"
    using assms(2) unfolding trail_ok_def by blast
  with growsD_refund [OF assms(1) r(1)]
  show "\<exists>i r. find_refund d s' i = Some r \<and> status r = SETTLED \<and> materialId r = m \<and> buyerAddress r = b"
    by (auto simp: terms_eq_iff)
next
  fix tx x assume "Submitted tx x \<in> set es"
  then obtain i r where r: "find_refund d s i = Some r" "destination r = tx_destination tx"
      "amount r = tx_amount tx" "assetCode r = tx_asset tx"
    using assms(2) unfolding trail_ok_def by blast
  with growsD_refund [OF assms(1) r(1)]
  show "\<exists>i r. find_refund d s' i = Some r \<and> destination r = tx_destination tx \<and>
      amount r = tx_amount tx \<and> assetCode r = tx_asset tx"
    by (fastforce simp: terms_eq_iff)
qed

lemma trail_append:
  "trail_ok d s es \<Longrightarrow> (\<And>e. e \<in> set es' \<Longrightarrow> case e of Access_revoked _ _ \<Rightarrow> False | Submitted _ _ \<Rightarrow> False | _ \<Rightarrow> True) \<Longrightarrow>
     trail_ok d s (es @ es')"
  unfolding trail_ok_def by fastforce

lemma converged_append: "converged_ok d s es \<Longrightarrow> converged_ok d s (es @ es')"
  by (fastforce simp: converged_ok_def)

lemma docs_quiet:
  assumes "docs_ok d base s es"
    and "\<And>e. e \<in> set es' \<Longrightarrow> case e of Access_revoked _ _ \<Rightarrow> False | Submitted _ _ \<Rightarrow> False | _ \<Rightarrow> True"
  shows "docs_ok d base s (es @ es')"
  using assms by (simp add: docs_ok_def converged_append trail_append)

lemma docs_same:
  assumes "docs_ok d base s es" "\<And>i. find_refund d s' i = find_refund d s i"
    "\<And>p. find_purchase d s' p = find_purchase d s p"
  shows "docs_ok d base s' es"
proof -
  have "claim_amount d s' = claim_amount d s" by (rule ext) (simp add: claim_amount_def assms(2))
  then show ?thesis
    using assms(1)
    by (simp add: docs_ok_def refunds_ok_def converged_ok_def purchases_ok_def trail_ok_def assms(2,3))
qed

lemma grows_same:
  "(\<And>i. find_refund d s' i = find_refund d s i) \<Longrightarrow> (\<And>p. find_purchase d s' p = find_purchase d s p) \<Longrightarrow>
     grows d s s'"
  by (auto simp: grows_def)

text \<open>A refund is updated.\<close>

lemma grows_update:
  assumes "find_refund d s i = Some r" "terms r' = terms r" "refund_id r' = refund_id r"
    and "status r \<in> {SETTLED, REJECTED} \<Longrightarrow> status r' = status r"
    and "\<And>j. find_refund d s' j = (if j = i then Some r' else find_refund d s j)"
    and "\<And>p. find_purchase d s' p = find_purchase d s p"
  shows "grows d s s'"
  using assms by (auto simp: grows_def)

lemma docs_update:
  assumes ok: "docs_ok d base s es"
    and r: "find_refund d s i = Some r" "terms r' = terms r" "refund_id r' = refund_id r"
    and st: "status r \<in> {SETTLED, REJECTED} \<Longrightarrow> status r' = status r"
    and rev: "entitlementRevoked r' \<Longrightarrow> entitlementRevoked r \<or>
      status r = SETTLED \<and> Access_revoked (materialId r) (buyerAddress r) \<in> set es \<and>
      (\<forall>q. find_purchase d s (purchaseId r) = Some q \<longrightarrow> i \<in> set (p_appliedRefundIds q))"
    and s': "\<And>j. find_refund d s' j = (if j = i then Some r' else find_refund d s j)"
      "\<And>p. find_purchase d s' p = find_purchase d s p"
  shows "docs_ok d base s' es"
proof -
  have t: "purchaseId r' = purchaseId r" "amount r' = amount r" "materialId r' = materialId r"
    "buyerAddress r' = buyerAddress r"
    using r(2) by (simp_all add: terms_eq_iff)
  have "refunds_ok d base s'" using ok r t unfolding docs_ok_def refunds_ok_def by (simp add: s')
  moreover have "converged_ok d s' es"
    unfolding converged_ok_def
  proof (intro allI impI)
    fix j x assume x: "find_refund d s' j = Some x" "entitlementRevoked x"
    let ?g = "\<lambda>y. status y = SETTLED \<and> Access_revoked (materialId y) (buyerAddress y) \<in> set es \<and>
        (\<forall>q. find_purchase d s (purchaseId y) = Some q \<longrightarrow> j \<in> set (p_appliedRefundIds q))"
    have old: "?g y" if "find_refund d s j = Some y" "entitlementRevoked y" for y
      using ok that unfolding docs_ok_def converged_ok_def by blast
    have "?g x"
    proof (cases "j = i")
      case True
      then have xr: "x = r'" using x(1) s'(1) by simp
      have "?g r" using rev old r(1) x(2) xr True by blast
      then show ?thesis using st t xr by simp
    next
      case False
      then show ?thesis using old x s'(1) by simp
    qed
    then show "status x = SETTLED \<and> Access_revoked (materialId x) (buyerAddress x) \<in> set es \<and>
        (\<forall>q. find_purchase d s' (purchaseId x) = Some q \<longrightarrow> j \<in> set (p_appliedRefundIds q))"
      by (simp add: s'(2))
  qed
  moreover have "claim_amount d s' = claim_amount d s"
    by (rule ext) (simp add: claim_amount_def s'(1) r(1) t)
  then have "purchases_ok d base s'"
    using ok st r t unfolding docs_ok_def purchases_ok_def by (fastforce simp: s')
  moreover have "trail_ok d s' es"
    using ok trail_grows [OF grows_update [OF r st s']] by (simp add: docs_ok_def)
  ultimately show ?thesis by (simp add: docs_ok_def)
qed

text \<open>A refund is inserted.\<close>

lemma grows_insert:
  assumes "find_refund d s i = None" "\<And>j. find_refund d s' j = (if j = i then Some r else find_refund d s j)"
    and "\<And>p. find_purchase d s' p = find_purchase d s p"
  shows "grows d s s'"
  using assms by (auto simp: grows_def)

lemma docs_insert:
  assumes ok: "docs_ok d base s es" and i: "find_refund d s i = None"
    and r: "refund_id r = i" "0 < amount r" "\<not> entitlementRevoked r"
      "find_purchase d s (purchaseId r) = Some q" "p_amount q = Fin paid" "amount r \<le> paid - base (purchaseId r)"
    and s': "\<And>j. find_refund d s' j = (if j = i then Some r else find_refund d s j)"
      "\<And>p. find_purchase d s' p = find_purchase d s p"
  shows "docs_ok d base s' es"
proof -
  have "refunds_ok d base s'" using ok r unfolding docs_ok_def refunds_ok_def by (simp add: s')
  moreover have "converged_ok d s' es" using ok r unfolding docs_ok_def converged_ok_def by (simp add: s')
  moreover have "purchases_ok d base s'"
    unfolding purchases_ok_def
  proof (intro allI impI)
    fix pid p assume "find_purchase d s' pid = Some p"
    then have p: "distinct (p_appliedRefundIds p)"
      "already_refunded p = base pid + sum_list (map (claim_amount d s) (p_appliedRefundIds p))"
      "\<forall>i \<in> set (p_appliedRefundIds p). \<exists>r. find_refund d s i = Some r \<and> status r = SETTLED \<and> purchaseId r = pid"
      using ok unfolding docs_ok_def purchases_ok_def by (auto simp: s'(2))
    have "i \<notin> set (p_appliedRefundIds p)" using p(3) i by fastforce
    then have "map (claim_amount d s') (p_appliedRefundIds p) = map (claim_amount d s) (p_appliedRefundIds p)"
      by (auto simp: claim_amount_def s'(1))
    then have "sum_list (map (claim_amount d s') (p_appliedRefundIds p)) =
        sum_list (map (claim_amount d s) (p_appliedRefundIds p))"
      by (rule arg_cong)
    moreover have "\<exists>r. find_refund d s' k = Some r \<and> status r = SETTLED \<and> purchaseId r = pid"
      if "k \<in> set (p_appliedRefundIds p)" for k
      using p(3) that i by (metis s'(1) option.distinct(1))
    ultimately show "distinct (p_appliedRefundIds p) \<and>
      already_refunded p = base pid + sum_list (map (claim_amount d s') (p_appliedRefundIds p)) \<and>
      (\<forall>i \<in> set (p_appliedRefundIds p). \<exists>r. find_refund d s' i = Some r \<and> status r = SETTLED \<and> purchaseId r = pid)"
      using p(1,2) by simp
  qed
  moreover have "trail_ok d s' es"
    using ok trail_grows [OF grows_insert [OF i s']] by (simp add: docs_ok_def)
  ultimately show ?thesis by (simp add: docs_ok_def)
qed

text \<open>A settled refund is mirrored onto its purchase.\<close>

lemma mirror_simps [simp]:
  "p_id (mirror rid a tx now p) = p_id p" "p_amount (mirror rid a tx now p) = p_amount p"
  "p_appliedRefundIds (mirror rid a tx now p) = p_appliedRefundIds p @ [rid]"
  "already_refunded (mirror rid a tx now p) = already_refunded p + a"
  by (simp_all add: mirror_def already_refunded_def split: option.split)

lemma mirror_law:
  assumes "lawful_store d"
  shows "find_refund d (update_purchase d s pid rid (mirror rid a tx now)) i = find_refund d s i"
    and "find_purchase d (update_purchase d s pid rid (mirror rid a tx now)) q =
      (case find_purchase d s q of None \<Rightarrow> None
       | Some p \<Rightarrow> Some (if q = pid \<and> rid \<notin> set (p_appliedRefundIds p) then mirror rid a tx now p else p))"
  using purchase_law(1) [OF assms] purchase_law(2) [OF assms, where f = "mirror rid a tx now"] by simp_all

lemma grows_mirror:
  assumes "lawful_store d"
  shows "grows d s (update_purchase d s pid rid (mirror rid a tx now))"
  unfolding grows_def mirror_law [OF assms] by (auto split: option.split)

lemma docs_mirror:
  assumes law: "lawful_store d" and ok: "docs_ok d base s es"
    and r: "find_refund d s rid = Some r" "status r = SETTLED" "purchaseId r = pid" "amount r = a"
  shows "docs_ok d base (update_purchase d s pid rid (mirror rid a tx now)) es"
proof -
  let ?s = "update_purchase d s pid rid (mirror rid a tx now)"
  have amt: "claim_amount d ?s = claim_amount d s"
    by (rule ext) (simp add: claim_amount_def mirror_law [OF law])
  have "refunds_ok d base ?s"
    using ok unfolding docs_ok_def refunds_ok_def mirror_law [OF law] by (fastforce split: option.split)
  moreover have "converged_ok d ?s es"
    using ok unfolding docs_ok_def converged_ok_def mirror_law [OF law] by (fastforce split: option.splits if_splits)
  moreover have "purchases_ok d base ?s"
    unfolding purchases_ok_def amt
  proof (intro allI impI)
    fix q p' assume "find_purchase d ?s q = Some p'"
    then obtain p where p: "find_purchase d s q = Some p"
      "p' = (if q = pid \<and> rid \<notin> set (p_appliedRefundIds p) then mirror rid a tx now p else p)"
      by (auto simp: mirror_law [OF law] split: option.splits)
    have old: "distinct (p_appliedRefundIds p)"
      "already_refunded p = base q + sum_list (map (claim_amount d s) (p_appliedRefundIds p))"
      "\<forall>i \<in> set (p_appliedRefundIds p). \<exists>r. find_refund d s i = Some r \<and> status r = SETTLED \<and> purchaseId r = q"
      using ok p(1) unfolding docs_ok_def purchases_ok_def by blast+
    have "claim_amount d s rid = a" using r by (simp add: claim_amount_def)
    then show "distinct (p_appliedRefundIds p') \<and>
      already_refunded p' = base q + sum_list (map (claim_amount d s) (p_appliedRefundIds p')) \<and>
      (\<forall>i \<in> set (p_appliedRefundIds p'). \<exists>r. find_refund d ?s i = Some r \<and> status r = SETTLED \<and> purchaseId r = q)"
      using old r p(2) by (auto simp: mirror_law [OF law])
  qed
  moreover have "trail_ok d ?s es"
    using ok trail_grows [OF grows_mirror [OF law]] by (simp add: docs_ok_def)
  ultimately show ?thesis by (simp add: docs_ok_def)
qed

section \<open>One awaited call keeps the invariant\<close>

definition knows :: "'db store \<Rightarrow> (string \<Rightarrow> rat) \<Rightarrow> 'db \<Rightarrow> event list \<Rightarrow> fact set \<Rightarrow> bool" where
  "knows d base s es S \<longleftrightarrow> (\<forall>f \<in> S. fact_holds d base s es f)"

lemma knows_grows: "grows d s s' \<Longrightarrow> knows d base s es S \<Longrightarrow> knows d base s' (es @ es') S"
  by (auto simp: knows_def fact_grows)

lemma knows_insert [simp]: "knows d base s es (insert f S) \<longleftrightarrow> fact_holds d base s es f \<and> knows d base s es S"
  by (auto simp: knows_def)

lemma knows_learn:
  assumes "knows d base s es S" "find_refund d s i = r"
  shows "knows d base s es (learn i r S)"
  using assms by (auto simp: learn_def knows_def fact_holds_def split: option.split)

lemma known_terms: "knows d base s es S \<Longrightarrow> Terms i t \<in> S \<Longrightarrow> \<exists>r. find_refund d s i = Some r \<and> terms r = t"
  unfolding knows_def fact_holds_def by force

lemma known_settled: "knows d base s es S \<Longrightarrow> Settled i \<in> S \<Longrightarrow> \<exists>r. find_refund d s i = Some r \<and> status r = SETTLED"
  unfolding knows_def fact_holds_def by force

lemma known_revoked: "knows d base s es S \<Longrightarrow> Revoked m b \<in> S \<Longrightarrow> Access_revoked m b \<in> set es"
  unfolding knows_def fact_holds_def by force

lemma known_mirrored:
  "knows d base s es S \<Longrightarrow> Mirrored pid i \<in> S \<Longrightarrow> find_purchase d s pid = Some q \<Longrightarrow>
     i \<in> set (p_appliedRefundIds q)"
  unfolding knows_def fact_holds_def by force

lemma known_seen:
  "knows d base s es S \<Longrightarrow> Seen pid paid before \<in> S \<Longrightarrow>
     \<exists>q. find_purchase d s pid = Some q \<and> p_amount q = paid \<and> base pid \<le> before"
  unfolding knows_def fact_holds_def by force

text \<open>What a step must establish.\<close>

definition justified ::
  "'db store \<Rightarrow> (string \<Rightarrow> rat) \<Rightarrow> 'db \<Rightarrow> event list \<Rightarrow> nat \<Rightarrow> prog \<Rightarrow> 'db \<Rightarrow> event list \<Rightarrow> bool" where
  "justified d base s es n p' s' es' \<longleftrightarrow>
     grows d s s' \<and> docs_ok d base s' (es @ es') \<and>
     (\<exists>S' n'. ok p' S' n' \<and> knows d base s' (es @ es') S' \<and> submissions es' + n' \<le> claims es' + n)"

lemma justified_read:
  assumes "docs_ok d base s es" "ok p' S' n" "knows d base s es S'"
  shows "justified d base s es n p' s []"
  using assms unfolding justified_def by (auto simp: grows_refl submissions_def claims_def)

lemma justified_event:
  assumes "docs_ok d base s es" "ok p' S n" "knows d base s es S"
    and "case e of Audited _ \<Rightarrow> True | Notified _ _ \<Rightarrow> True | _ \<Rightarrow> False"
  shows "justified d base s es n p' s [e]"
  using assms docs_quiet [OF assms(1), of "[e]"] knows_grows [OF grows_refl assms(3), of "[e]"]
  unfolding justified_def
  by (intro conjI exI [of _ S] exI [of _ n]) (auto simp: grows_refl submissions_def claims_def split: event.splits)

lemma cas_keeps:
  assumes "cas_ok from f"
  shows "terms (f r) = terms r" "refund_id (f r) = refund_id r"
    "entitlementRevoked (f r) = entitlementRevoked r"
    "status r \<in> set from \<Longrightarrow> isValidRefundTransition (status r) (status (f r))"
  using assms by (auto simp: cas_ok_def keeps_terms_def)

lemma ok_CasD:
  assumes "ok (Cas i from f k) S n"
  shows "ok (k None) S n"
    and "refund_id (f x) = i \<Longrightarrow>
      ok (k (Some (f x))) (learn i (Some (f x)) S) (if status (f x) = SUBMITTING then Suc n else n)"
proof -
  have a: "is_read i r \<longrightarrow> (\<forall>x. r = Some x \<longrightarrow> (\<exists>y. x = f y)) \<longrightarrow>
      ok (k r) (learn i r S) (case r of Some x \<Rightarrow> if status x = SUBMITTING then Suc n else n | None \<Rightarrow> n)" for r
    using assms by simp
  show "ok (k None) S n" using a [of None] by simp
  show "refund_id (f x) = i \<Longrightarrow>
      ok (k (Some (f x))) (learn i (Some (f x)) S) (if status (f x) = SUBMITTING then Suc n else n)"
    using a [of "Some (f x)"] by auto
qed

lemma justified_cas:
  assumes law: "lawful_store d" and docs: "docs_ok d base s es"
    and ok: "ok (Cas i from f k) S n" and S: "knows d base s es S"
    and c: "cas_refund d s i from f = (r, s')"
  shows "justified d base s es n (k r) s' (moved i (find_refund d s i) r)"
proof (cases "cas_matches (find_refund d s i) from")
  case False
  have r: "r = None" using cas_law(1) [OF law c] False by simp
  have same: "find_refund d s' j = find_refund d s j" "find_purchase d s' p = find_purchase d s p" for j p
    using cas_law(2,3) [OF law c] False by simp_all
  have "ok (k None) S n" by (rule ok_CasD(1) [OF ok])
  moreover have "knows d base s' (es @ []) S" using knows_grows [OF grows_same [OF same] S] .
  ultimately show ?thesis
    using docs_same [OF docs same] grows_same [OF same] unfolding justified_def r
    by (auto simp: moved_def submissions_def claims_def)
next
  case True
  then obtain x where x: "find_refund d s i = Some x" "status x \<in> set from"
    by (auto simp: cas_matches_def split: option.splits)
  have co: "cas_ok from f" using ok by simp
  have r: "r = Some (f x)" using cas_law(1) [OF law c] True x by simp
  have s': "find_refund d s' j = (if j = i then Some (f x) else find_refund d s j)"
    "find_purchase d s' p = find_purchase d s p" for j p
    using cas_law(2,3) [OF law c] True x by simp_all
  have valid: "isValidRefundTransition (status x) (status (f x))" using cas_keeps(4) [OF co x(2)] .
  have st: "status x \<in> {SETTLED, REJECTED} \<Longrightarrow> status (f x) = status x" using valid by (auto simp: valid_iff)
  have g: "grows d s s'" by (rule grows_update [OF x(1) cas_keeps(1,2) [OF co] st s'])
  have dk: "docs_ok d base s' es"
    by (rule docs_update [OF docs x(1) cas_keeps(1,2) [OF co] st _ s']) (use cas_keeps(3) [OF co] in simp_all)
  let ?e = "Moved i (status x) (status (f x))"
  let ?n = "if status (f x) = SUBMITTING then Suc n else n"
  have id: "refund_id (f x) = i"
    using docs x(1) cas_keeps(2) [OF co] by (simp add: docs_ok_def refunds_ok_def)
  have "ok (k (Some (f x))) (learn i (Some (f x)) S) ?n" by (rule ok_CasD(2) [OF ok id])
  moreover have "knows d base s' (es @ [?e]) (learn i (Some (f x)) S)"
    using knows_learn [OF knows_grows [OF g S], of i] s'(1) [of i] by simp
  moreover have "submissions [?e] + ?n \<le> claims [?e] + n"
    using valid by (auto simp: submissions_def claims_def valid_iff)
  ultimately show ?thesis
    using g docs_quiet [OF dk, of "[?e]"] unfolding justified_def r x(1) moved_def by auto
qed

lemma justified_set:
  assumes law: "lawful_store d" and docs: "docs_ok d base s es"
    and ok: "ok (Set_refund i f k) S n" and S: "knows d base s es S"
  shows "justified d base s es n k (set_refund d s i f) []"
proof -
  let ?s = "set_refund d s i f"
  have so: "set_ok i f S" and k: "ok k S n" using ok by simp_all
  have keep: "terms (f r) = terms r" "refund_id (f r) = refund_id r" "status (f r) = status r" for r
    using so by (auto simp: set_ok_def keeps_terms_def)
  have "grows d s ?s \<and> docs_ok d base ?s es"
  proof (cases "find_refund d s i")
    case None
    then have same: "find_refund d ?s j = find_refund d s j" "find_purchase d ?s p = find_purchase d s p" for j p
      by (simp_all add: set_law [OF law])
    show ?thesis using docs_same [OF docs same] grows_same [OF same] by simp
  next
    case (Some r)
    have s': "find_refund d ?s j = (if j = i then Some (f r) else find_refund d s j)"
      "find_purchase d ?s p = find_purchase d s p" for j p
      by (simp_all add: set_law [OF law] Some)
    have rev: "entitlementRevoked r \<or> status r = SETTLED \<and>
        Access_revoked (materialId r) (buyerAddress r) \<in> set es \<and>
        (\<forall>q. find_purchase d s (purchaseId r) = Some q \<longrightarrow> i \<in> set (p_appliedRefundIds q))"
      if "entitlementRevoked (f r)"
    proof (cases "entitlementRevoked (f r) = entitlementRevoked r")
      case True
      then show ?thesis using that by simp
    next
      case False
      then obtain pid m b dst c x where S':
        "Terms i (pid, m, b, dst, c, x) \<in> S" "Settled i \<in> S" "Revoked m b \<in> S" "Mirrored pid i \<in> S"
        using so unfolding set_ok_def insert_subset by (elim conjE disjE exE) (simp, rule that, assumption+)
      have "terms r = (pid, m, b, dst, c, x)" using known_terms [OF S S'(1)] Some by simp
      then have t: "purchaseId r = pid" "materialId r = m" "buyerAddress r = b" by (simp_all add: terms_def)
      show ?thesis
        using known_settled [OF S S'(2)] known_revoked [OF S S'(3)] known_mirrored [OF S S'(4)] Some
        by (simp add: t)
    qed
    show ?thesis
      using grows_update [OF Some keep(1,2) keep(3) s'] docs_update [OF docs Some keep(1,2) keep(3) rev s'] by simp
  qed
  then show ?thesis
    using k knows_grows [of d s ?s base es S "[]"] S unfolding justified_def
    by (auto simp: submissions_def claims_def)
qed

lemma seen_base:
  assumes "docs_ok d base s es" "find_purchase d s pid = Some q"
  shows "base pid \<le> already_refunded q"
proof -
  have q: "already_refunded q = base pid + sum_list (map (claim_amount d s) (p_appliedRefundIds q))"
    using assms unfolding docs_ok_def purchases_ok_def by blast
  have "0 \<le> claim_amount d s i" for i
    using assms(1) unfolding docs_ok_def refunds_ok_def claim_amount_def
    by (auto split: option.split) (meson less_imp_le)
  then have "0 \<le> sum_list (map (claim_amount d s) (p_appliedRefundIds q))"
    by (intro sum_list_nonneg) auto
  with q show ?thesis by simp
qed

lemma justified_insert:
  assumes law: "lawful_store d" and docs: "docs_ok d base s es"
    and ok: "ok (Insert_refund r k) S n" and S: "knows d base s es S"
    and i: "insert_refund d s r = (x, s')"
  shows "justified d base s es n (k x) s' (case x of Inserted i \<Rightarrow> [Filed i] | _ \<Rightarrow> [])"
proof -
  have k: "ok (k x) S n" using ok by simp
  have key: "grows d s s' \<and> docs_ok d base s' es"
  proof (cases "\<exists>j. x = Inserted j")
    case False
    then have "x = Duplicate_key \<or> x = Insert_failed" by (cases x) auto
    then have same: "find_refund d s' j = find_refund d s j" "find_purchase d s' p = find_purchase d s p" for j p
      using insert_law(1,3) [OF law i] by blast+
    show ?thesis using docs_same [OF docs same] grows_same [OF same] by simp
  next
    case True
    then obtain j where j: "x = Inserted j" by blast
    have none: "find_refund d s j = None" using insert_law(2) [OF law i j] by blast
    have s': "find_refund d s' m = (if m = j then Some (r\<lparr>refund_id := j\<rparr>) else find_refund d s m)"
      "find_purchase d s' p = find_purchase d s p" for m p
      using insert_law(1,2) [OF law i] j by blast+
    have co: "claim_ok r S" using ok by simp
    then obtain paid before where c: "Seen (purchaseId r) (Fin paid) before \<in> S" "0 < amount r"
      "amount r \<le> paid - before"
      unfolding claim_ok_def by blast
    obtain q where q: "find_purchase d s (purchaseId r) = Some q" "p_amount q = Fin paid"
      "base (purchaseId r) \<le> before"
      using known_seen [OF S c(1)] by blast
    have le: "amount r \<le> paid - base (purchaseId r)" using c(3) q(3) by linarith
    have nr: "\<not> entitlementRevoked r" using co by (simp add: claim_ok_def)
    have "docs_ok d base s' es"
      by (rule docs_insert [OF docs none _ _ _ _ _ _ s']) (use c(2) q(1,2) nr le in simp_all)
    then show ?thesis using grows_insert [OF none s'] by blast
  qed
  let ?es = "case x of Inserted i \<Rightarrow> [Filed i] | _ \<Rightarrow> []"
  have "docs_ok d base s' (es @ ?es)" by (rule docs_quiet) (use key in \<open>auto split: insert_result.splits\<close>)
  moreover have "knows d base s' (es @ ?es) S" using key by (intro knows_grows [OF _ S]) simp
  moreover have "submissions ?es + n \<le> claims ?es + n"
    by (simp add: submissions_def claims_def split: insert_result.split)
  ultimately show ?thesis using k key unfolding justified_def by blast
qed

lemma justified_mirror:
  assumes law: "lawful_store d" and docs: "docs_ok d base s es"
    and ok: "ok (Mirror_purchase pid rid x tx now k) S n" and S: "knows d base s es S"
  shows "justified d base s es n k (update_purchase d s pid rid (mirror rid x tx now)) []"
proof -
  let ?s = "update_purchase d s pid rid (mirror rid x tx now)"
  obtain m b dst c where o: "Settled rid \<in> S" "Terms rid (pid, m, b, dst, c, x) \<in> S"
    and k: "ok k (insert (Mirrored pid rid) S) n"
    using ok by auto
  obtain r where r: "find_refund d s rid = Some r" "status r = SETTLED" "terms r = (pid, m, b, dst, c, x)"
    using known_settled [OF S o(1)] known_terms [OF S o(2)] by auto
  have "docs_ok d base ?s es"
    by (rule docs_mirror [OF law docs r(1,2)]) (use r(3) in \<open>simp_all add: terms_def\<close>)
  moreover have "fact_holds d base ?s (es @ []) (Mirrored pid rid)"
    by (auto simp: fact_holds_def mirror_law [OF law] split: option.splits if_splits)
  moreover have "knows d base ?s (es @ []) S" by (rule knows_grows [OF grows_mirror [OF law] S])
  ultimately show ?thesis
    using k grows_mirror [OF law, of s] unfolding justified_def
    by (intro conjI exI [of _ "insert (Mirrored pid rid) S"] exI [of _ n]) (auto simp: submissions_def claims_def)
qed

lemma justified_revoke:
  assumes docs: "docs_ok d base s es"
    and ok: "ok (Revoke m b k) S n" and S: "knows d base s es S"
  shows "justified d base s es n k s [Access_revoked m b]"
proof -
  obtain i pid dst c x where o: "Settled i \<in> S" "Terms i (pid, m, b, dst, c, x) \<in> S"
    and k: "ok k (insert (Revoked m b) S) n"
    using ok by auto
  obtain r where r: "find_refund d s i = Some r" "status r = SETTLED" "materialId r = m" "buyerAddress r = b"
    using known_settled [OF S o(1)] known_terms [OF S o(2)] by (auto simp: terms_def)
  have "trail_ok d s (es @ [Access_revoked m b])"
    using docs r unfolding docs_ok_def trail_ok_def by auto
  then have "docs_ok d base s (es @ [Access_revoked m b])"
    using docs by (simp add: docs_ok_def converged_append)
  then show ?thesis
    using k knows_grows [OF grows_refl S] unfolding justified_def
    by (intro conjI exI [of _ "insert (Revoked m b) S"] exI [of _ n])
      (auto simp: grows_refl submissions_def claims_def fact_holds_def)
qed

lemma justified_submit:
  assumes docs: "docs_ok d base s es"
    and ok: "ok (Submit tx x k) S n" and S: "knows d base s es S"
  shows "justified d base s es n (k y) s [Submitted tx y]"
proof -
  obtain i pid m b where o: "Terms i (pid, m, b, tx_destination tx, tx_asset tx, tx_amount tx) \<in> S"
    and n: "0 < n" and k: "ok (k y) S (n - 1)"
    using ok by auto
  obtain r where r: "find_refund d s i = Some r" "destination r = tx_destination tx"
      "assetCode r = tx_asset tx" "amount r = tx_amount tx"
    using known_terms [OF S o] by (auto simp: terms_def)
  have "trail_ok d s (es @ [Submitted tx y])"
    using docs r unfolding docs_ok_def trail_ok_def by auto
  then have "docs_ok d base s (es @ [Submitted tx y])"
    using docs by (simp add: docs_ok_def converged_append)
  then show ?thesis
    using k n knows_grows [OF grows_refl S] unfolding justified_def
    by (intro conjI exI [of _ S] exI [of _ "n - 1"]) (auto simp: grows_refl submissions_def claims_def)
qed

text \<open>Whatever a justified handler awaits, and whatever it is answered, the invariant stays.\<close>

lemma perform_justified:
  assumes law: "lawful_store d" and docs: "docs_ok d base s es"
    and ok: "ok p S n" and S: "knows d base s es S"
    and p: "perform d a p s = Some (p', s', es')"
  shows "justified d base s es n p' s' es'"
proof (cases p)
  case (Done x)
  with p show ?thesis by (simp add: perform_def)
next
  case (Now k)
  with p ok docs S show ?thesis by (auto simp: perform_def split: response.splits intro: justified_read)
next
  case (Find_refund i k)
  have "is_read i (find_refund d s i)"
    using docs by (simp add: is_read_def docs_ok_def refunds_ok_def split: option.split)
  then have "ok (k (find_refund d s i)) (learn i (find_refund d s i) S) n"
    using ok Find_refund by simp
  then show ?thesis
    using p Find_refund justified_read [OF docs _ knows_learn [OF S refl]]
    by (auto simp: perform_def split: response.splits)
next
  case (Cas i fr f k)
  then show ?thesis
    using p ok justified_cas [OF law docs _ S]
    by (auto simp: perform_def simp del: ok.simps split: response.splits prod.splits)
next
  case (Set_refund i f k)
  then show ?thesis
    using p ok justified_set [OF law docs _ S]
    by (auto simp: perform_def simp del: ok.simps split: response.splits)
next
  case (Insert_refund r k)
  then show ?thesis
    using p ok justified_insert [OF law docs _ S]
    by (auto simp: perform_def simp del: ok.simps split: response.splits prod.splits)
next
  case (Find_live pid k)
  with p ok docs S show ?thesis by (auto simp: perform_def split: response.splits intro: justified_read)
next
  case (Find_purchase pid k c)
  let ?r = "find_purchase d s pid"
  let ?S = "case ?r of None \<Rightarrow> S | Some x \<Rightarrow> insert (Seen pid (p_amount x) (already_refunded x)) S"
  have "ok (k ?r) ?S n" using ok Find_purchase purchase_law(3) [OF law] by auto
  moreover have "knows d base s es ?S"
    using S seen_base [OF docs] by (auto simp: fact_holds_def split: option.split)
  ultimately have "justified d base s es n (k ?r) s []" by (rule justified_read [OF docs])
  moreover have "justified d base s es n c s []" using ok Find_purchase justified_read [OF docs _ S] by simp
  ultimately show ?thesis using p Find_purchase by (auto simp: perform_def split: response.splits)
next
  case (Find_purchase_by_tx h k)
  with p ok docs S show ?thesis by (auto simp: perform_def split: response.splits intro: justified_read)
next
  case (Mirror_purchase pid rid x tx now k)
  then show ?thesis
    using p ok justified_mirror [OF law docs _ S]
    by (auto simp: perform_def simp del: ok.simps split: response.splits)
next
  case (Revoke m b k)
  then show ?thesis
    using p ok justified_revoke [OF docs _ S]
    by (auto simp: perform_def simp del: ok.simps split: response.splits)
next
  case (Audit e k)
  with p ok docs S show ?thesis by (auto simp: perform_def split: response.splits intro: justified_event)
next
  case (Notify t key k)
  with p ok docs S show ?thesis by (auto simp: perform_def split: response.splits intro: justified_event)
next
  case (Treasury c k)
  with p ok docs S show ?thesis by (auto simp: perform_def split: response.splits intro: justified_read)
next
  case (Build dst x c k)
  have "ok (k (Inl e)) S n" for e using ok Build by simp
  moreover have "ok (k (Inr \<lparr>tx_hash = h, tx_sequence = q, tx_destination = dst, tx_amount = x, tx_asset = c\<rparr>)) S n"
    for h q
    using ok Build by simp
  ultimately show ?thesis
    using p Build docs S by (auto simp: perform_def split: response.splits sum.splits intro: justified_read)
next
  case (Submit tx x k)
  then show ?thesis
    using p ok justified_submit [OF docs _ S]
    by (auto simp: perform_def simp del: ok.simps split: response.splits)
next
  case (Tx_status h k)
  with p ok docs S show ?thesis by (auto simp: perform_def split: response.splits intro: justified_read)
qed

section \<open>Runs\<close>

lemma counts_append [simp]:
  "submissions (es @ es') = submissions es + submissions es'" "claims (es @ es') = claims es + claims es'"
  by (simp_all add: submissions_def claims_def)

lemma procs_ok_alt:
  "procs_ok d base w ks \<longleftrightarrow>
     list_all2 (\<lambda>p (S, n). ok p S n \<and> knows d base (db w) (trail w) S) (procs w) ks \<and>
     submissions (trail w) + sum_list (map snd ks) \<le> claims (trail w)"
  by (simp add: procs_ok_def knows_def)

lemma inv_alt:
  "inv d base w \<longleftrightarrow> docs_ok d base (db w) (trail w) \<and> (\<exists>ks. procs_ok d base w ks)"
  by (auto simp: inv_def docs_ok_def)

lemma sum_snd_update:
  "k < length ks \<Longrightarrow> sum_list (map snd (ks[k := (S, n)])) + snd (ks ! k) = sum_list (map snd ks) + n"
  for n :: nat
proof (induction ks arbitrary: k)
  case (Cons a ks)
  then show ?case by (cases k) auto
qed simp

lemma turn_inv:
  assumes law: "lawful_store d" and w: "inv d base w"
  shows "inv d base (turn d k a w)"
proof (cases "k < length (procs w)")
  case False
  with w show ?thesis by (simp add: turn_def)
next
  case k: True
  show ?thesis
  proof (cases "perform d a (procs w ! k) (db w)")
    case None
    with w k show ?thesis by (simp add: turn_def)
  next
    case (Some x)
    obtain p' s' es' where x: "x = (p', s', es')" by (cases x)
    have t: "turn d k a w = \<lparr>db = s', procs = (procs w)[k := p'], trail = trail w @ es'\<rparr>"
      using k Some by (simp add: turn_def x)
    obtain ks where docs: "docs_ok d base (db w) (trail w)"
      and all: "list_all2 (\<lambda>p (S, n). ok p S n \<and> knows d base (db w) (trail w) S) (procs w) ks"
      and cnt: "submissions (trail w) + sum_list (map snd ks) \<le> claims (trail w)"
      using w unfolding inv_alt procs_ok_alt by blast
    have len: "k < length ks" using all k by (simp add: list_all2_lengthD [symmetric])
    obtain S n where ks: "ks ! k = (S, n)" by (cases "ks ! k")
    have "ok (procs w ! k) S n" "knows d base (db w) (trail w) S"
      using list_all2_nthD [OF all k] ks by simp_all
    then have "justified d base (db w) (trail w) n p' s' es'"
      using perform_justified [OF law docs] Some x by blast
    then obtain S' n' where j: "grows d (db w) s'" "docs_ok d base s' (trail w @ es')" "ok p' S' n'"
      "knows d base s' (trail w @ es') S'" "submissions es' + n' \<le> claims es' + n"
      unfolding justified_def by blast
    let ?ks = "ks[k := (S', n')]"
    have "list_all2 (\<lambda>p (S, n). ok p S n \<and> knows d base s' (trail w @ es') S) (procs w) ks"
      using all by (rule list_all2_mono) (auto intro: knows_grows [OF j(1)])
    then have "list_all2 (\<lambda>p (S, n). ok p S n \<and> knows d base s' (trail w @ es') S) ((procs w)[k := p']) ?ks"
      by (rule list_all2_update_cong) (use j(3,4) in simp)
    moreover have "submissions (trail w @ es') + sum_list (map snd ?ks) \<le> claims (trail w @ es')"
      using sum_snd_update [OF len, of S' n'] ks cnt j(5) by simp
    ultimately show ?thesis using j(2) unfolding inv_alt procs_ok_alt t by auto
  qed
qed

lemma step_inv:
  assumes "lawful_store d" "inv d base w"
  shows "inv d base (step d m w)"
proof (cases m)
  case (Start c)
  obtain ks where "docs_ok d base (db w) (trail w)" "procs_ok d base w ks" using assms(2) inv_alt by blast
  then have "procs_ok d base (step d m w) (ks @ [({}, 0)])" "docs_ok d base (db w) (trail w)"
    unfolding procs_ok_alt using ok_handler Start by (auto simp: knows_def intro!: list_all2_appendI)
  then show ?thesis unfolding inv_alt using Start by auto
next
  case (Turn k a)
  then show ?thesis using turn_inv [OF assms] by simp
next
  case (Crash k)
  obtain ks where ks: "docs_ok d base (db w) (trail w)"
      "list_all2 (\<lambda>p (S, n). ok p S n \<and> knows d base (db w) (trail w) S) (procs w) ks"
      "submissions (trail w) + sum_list (map snd ks) \<le> claims (trail w)"
    using assms(2) unfolding inv_alt procs_ok_alt by blast
  show ?thesis
  proof (cases "k < length ks")
    case False
    then have "(procs w)[k := Done (Thrown ''crash'')] = procs w"
      using list_all2_lengthD [OF ks(2)] by (intro list_update_beyond) simp
    then show ?thesis using assms(2) Crash by simp
  next
    case True
    have "list_all2 (\<lambda>p (S, n). ok p S n \<and> knows d base (db w) (trail w) S)
        ((procs w)[k := Done (Thrown ''crash'')]) (ks[k := ({}, 0)])"
      using ks(2) by (rule list_all2_update_cong) (simp add: knows_def)
    moreover have "sum_list (map snd (ks[k := ({}, 0)])) \<le> sum_list (map snd ks)"
      using sum_snd_update [OF True, of "{}" 0] by simp
    ultimately have "procs_ok d base (step d m w) (ks[k := ({}, 0)])"
      using ks(3) Crash by (auto simp: procs_ok_alt)
    then show ?thesis using ks(1) Crash unfolding inv_alt by auto
  qed
qed

text \<open>
  A system starts with no claim on record, with purchases that list no refund.
\<close>

definition fresh_store :: "'db store \<Rightarrow> 'db \<Rightarrow> bool" where
  "fresh_store d s \<longleftrightarrow> (\<forall>i. find_refund d s i = None) \<and>
     (\<forall>pid q. find_purchase d s pid = Some q \<longrightarrow> p_appliedRefundIds q = [])"

definition initially_refunded :: "'db store \<Rightarrow> 'db \<Rightarrow> string \<Rightarrow> rat" where
  "initially_refunded d s pid =
     (case find_purchase d s pid of Some q \<Rightarrow> already_refunded q | None \<Rightarrow> 0)"

lemma started_inv:
  assumes "fresh_store d s"
  shows "inv d (initially_refunded d s) (started s)"
  using assms
  by (auto simp: inv_def started_def fresh_store_def refunds_ok_def converged_ok_def purchases_ok_def
    trail_ok_def procs_ok_def submissions_def claims_def initially_refunded_def)

definition lawful_inv :: "'db store \<Rightarrow> (string \<Rightarrow> rat) \<Rightarrow> 'db world \<Rightarrow> bool" where
  "lawful_inv d base w \<longleftrightarrow> lawful_store d \<and> inv d base w"

interpretation refund_run: op_system "lawful_inv d base" "step d" for d base
  by unfold_locales (simp add: lawful_inv_def step_inv)

lemma refund_run_inv:
  assumes "lawful_store d" "fresh_store d s"
  shows "inv d (initially_refunded d s) (run d moves (started s))"
  using refund_run.run_inv [of d "initially_refunded d s" "started s" moves] assms(1)
    started_inv [OF assms(2)]
  unfolding run_def lawful_inv_def by simp

lemma run_append: "run d (ms @ ms') w = run d ms' (run d ms w)"
  by (simp add: run_def)

text \<open>From any state of a run, every further move only grows the documents.\<close>

lemma step_grows:
  assumes "lawful_store d" "inv d base w"
  shows "grows d (db w) (db (step d m w))"
proof (cases m)
  case (Turn k a)
  show ?thesis
  proof (cases "k < length (procs w) \<and> perform d a (procs w ! k) (db w) \<noteq> None")
    case True
    then obtain p' s' es' where p: "perform d a (procs w ! k) (db w) = Some (p', s', es')" by auto
    obtain ks where docs: "docs_ok d base (db w) (trail w)"
      and all: "list_all2 (\<lambda>p (S, n). ok p S n \<and> knows d base (db w) (trail w) S) (procs w) ks"
      using assms(2) unfolding inv_alt procs_ok_alt by blast
    obtain S n where "ks ! k = (S, n)" by (cases "ks ! k")
    then have "ok (procs w ! k) S n" "knows d base (db w) (trail w) S"
      using list_all2_nthD [OF all, of k] True by simp_all
    then have "grows d (db w) s'"
      using perform_justified [OF assms(1) docs _ _ p] unfolding justified_def by blast
    then show ?thesis using True p Turn by (simp add: turn_def)
  next
    case False
    then have "step d m w = w" using Turn by (auto simp: turn_def split: option.split)
    then show ?thesis by (simp add: grows_refl)
  qed
qed (simp_all add: grows_refl)

definition grown_from :: "'db store \<Rightarrow> (string \<Rightarrow> rat) \<Rightarrow> 'db \<Rightarrow> 'db world \<Rightarrow> bool" where
  "grown_from d base s w \<longleftrightarrow> lawful_inv d base w \<and> grows d s (db w)"

interpretation refund_growth: op_system "grown_from d base s" "step d" for d base s
  by unfold_locales (auto simp: grown_from_def refund_run.step_inv lawful_inv_def intro: step_inv grows_trans step_grows)

lemma run_grows:
  assumes "lawful_store d" "fresh_store d s"
  shows "grows d (db (run d ms (started s))) (db (run d (ms @ ms') (started s)))"
proof -
  let ?b = "initially_refunded d s" and ?w = "run d ms (started s)"
  have "grown_from d ?b (db ?w) ?w"
    using refund_run_inv [OF assms] assms(1) by (simp add: grown_from_def lawful_inv_def grows_refl)
  then have "grown_from d ?b (db ?w) (fold (step d) ms' ?w)" by (rule refund_growth.run_inv)
  then show ?thesis by (simp add: grown_from_def run_append run_def)
qed

section \<open>One live claim per purchase\<close>

definition one_live :: "'db store \<Rightarrow> 'db \<Rightarrow> bool" where
  "one_live d s \<longleftrightarrow> (\<forall>i j r x. find_refund d s i = Some r \<longrightarrow> find_refund d s j = Some x \<longrightarrow>
     purchaseId r = purchaseId x \<longrightarrow> status r \<noteq> REJECTED \<longrightarrow> status x \<noteq> REJECTED \<longrightarrow> i = j)"

lemma one_liveD:
  "one_live d s \<Longrightarrow> find_refund d s i = Some r \<Longrightarrow> find_refund d s j = Some x \<Longrightarrow>
     purchaseId r = purchaseId x \<Longrightarrow> status r \<noteq> REJECTED \<Longrightarrow> status x \<noteq> REJECTED \<Longrightarrow> i = j"
  by (simp add: one_live_def)

lemma one_live_grows:
  assumes "one_live d s" "grows d s s'" "\<And>i. find_refund d s i = None \<Longrightarrow> find_refund d s' i = None"
  shows "one_live d s'"
  unfolding one_live_def
proof (intro allI impI)
  fix i j r x
  assume a: "find_refund d s' i = Some r" "find_refund d s' j = Some x" "purchaseId r = purchaseId x"
    "status r \<noteq> REJECTED" "status x \<noteq> REJECTED"
  have old: "\<exists>r0. find_refund d s m = Some r0 \<and> purchaseId r0 = purchaseId y \<and> status r0 \<noteq> REJECTED"
    if y: "find_refund d s' m = Some y" "status y \<noteq> REJECTED" for m y
  proof -
    obtain r0 where r0: "find_refund d s m = Some r0" using assms(3) [of m] y(1) by (cases "find_refund d s m") auto
    then show ?thesis using growsD_refund [OF assms(2) r0] y by (auto simp: terms_eq_iff)
  qed
  obtain r0 x0 where "find_refund d s i = Some r0" "purchaseId r0 = purchaseId r" "status r0 \<noteq> REJECTED"
      "find_refund d s j = Some x0" "purchaseId x0 = purchaseId x" "status x0 \<noteq> REJECTED"
    using old [OF a(1,4)] old [OF a(2,5)] by blast
  then show "i = j" using one_liveD [OF assms(1), of i r0 j x0] a(3) by simp
qed

lemma perform_none:
  assumes "lawful_store d" "perform d a p s = Some (p', s', es')" "\<And>r k. p \<noteq> Insert_refund r k"
    and "find_refund d s i = None"
  shows "find_refund d s' i = None"
  using assms
  by (cases p)
    (auto simp: perform_def set_law mirror_law cas_law(2) split: response.splits prod.splits sum.splits)

lemma perform_live:
  assumes law: "lawful_store d" "live_claim_index d" and live: "one_live d s"
    and p: "perform d a p s = Some (p', s', es')" and g: "grows d s s'"
  shows "one_live d s'"
proof (cases "\<exists>r k. p = Insert_refund r k")
  case False
  then show ?thesis using one_live_grows [OF live g] perform_none [OF law(1) p] by blast
next
  case True
  then obtain r k where pk: "p = Insert_refund r k" by blast
  obtain x s1 where i: "insert_refund d s r = (x, s1)" by (cases "insert_refund d s r")
  have s1: "s1 = s'" using p pk i by (auto simp: perform_def split: response.splits)
  show ?thesis
  proof (cases x)
    case (Inserted j)
    have old: "status y = REJECTED" if "find_refund d s m = Some y" "purchaseId y = purchaseId r" for m y
      using law(2) i that unfolding live_claim_index_def Inserted by blast
    have new: "find_refund d s' m = (if m = j then Some (r\<lparr>refund_id := j\<rparr>) else find_refund d s m)" for m
      using insert_law(2) [OF law(1) i Inserted] s1 by blast
    show ?thesis
      unfolding one_live_def
    proof (intro allI impI)
      fix i1 i2 r1 r2
      assume a: "find_refund d s' i1 = Some r1" "find_refund d s' i2 = Some r2" "purchaseId r1 = purchaseId r2"
        "status r1 \<noteq> REJECTED" "status r2 \<noteq> REJECTED"
      show "i1 = i2"
        using a old one_liveD [OF live, of i1 r1 i2 r2] by (auto simp: new split: if_splits)
    qed
  next
    case Duplicate_key
    then show ?thesis
      using one_live_grows [OF live g] insert_law(3) [OF law(1) i] s1 by simp
  next
    case Insert_failed
    then show ?thesis
      using one_live_grows [OF live g] insert_law(3) [OF law(1) i] s1 by simp
  qed
qed

definition indexed_inv :: "'db store \<Rightarrow> (string \<Rightarrow> rat) \<Rightarrow> 'db world \<Rightarrow> bool" where
  "indexed_inv d base w \<longleftrightarrow> lawful_inv d base w \<and> live_claim_index d \<and> one_live d (db w)"

lemma indexed_step:
  assumes "indexed_inv d base w"
  shows "indexed_inv d base (step d m w)"
proof -
  have law: "lawful_store d" "live_claim_index d" "one_live d (db w)" "inv d base w"
    using assms by (simp_all add: indexed_inv_def lawful_inv_def)
  have g: "grows d (db w) (db (step d m w))" by (rule step_grows [OF law(1,4)])
  have "one_live d (db (step d m w))"
  proof (cases m)
    case (Turn k a)
    then show ?thesis
      using perform_live [OF law(1-3), of a "procs w ! k"] g law(3)
      by (auto simp: turn_def split: option.splits if_splits)
  qed (use law in simp_all)
  then show ?thesis using assms refund_run.step_inv [of d base w m] by (simp add: indexed_inv_def)
qed

interpretation indexed_run: op_system "indexed_inv d base" "step d" for d base
  by unfold_locales (rule indexed_step)

lemma run_one_live:
  assumes "lawful_store d" "live_claim_index d" "fresh_store d s"
  shows "one_live d (db (run d ms (started s)))"
proof -
  have "indexed_inv d (initially_refunded d s) (started s)"
    using started_inv [OF assms(3)] assms
    by (auto simp: indexed_inv_def lawful_inv_def one_live_def fresh_store_def started_def)
  then have "indexed_inv d (initially_refunded d s) (fold (step d) ms (started s))" by (rule indexed_run.run_inv)
  then show ?thesis by (simp add: indexed_inv_def run_def)
qed

end
