(* ===== verification/RefundSafety.thy ===== *)
theory RefundSafety imports RefundSystem begin

text \<open>
  The properties of the refund system: what holds in every interleaving of requests, admin
  decisions, workers, reconcilers and crashes (\<open>run\<close>), that every handler returns, what one
  undisturbed worker achieves, and the interleaving in which a slow worker pays twice.
\<close>

section \<open>Concrete runs\<close>

definition sample_purchase :: purchase where
  "sample_purchase =
     \<lparr>p_id = ''p'', p_materialId = ''m'', p_buyerAddress = Some ''B'', p_status = Some ''Confirmed'',
      p_settlementState = None, p_asset = Some ''XLM'', p_confirmedAt = None, p_purchasedAt = None,
      p_createdAt = None, p_amount = Fin 10, p_refundedAmount = None, p_transactionHash = None,
      p_appliedRefundIds = [], p_refundedAt = None, p_refundTransactionHash = None, p_updatedAt = None\<rparr>"

definition sample_db :: mem_db where
  "sample_db = \<lparr>m_refunds = [], m_purchases = [(''p'', sample_purchase)]\<rparr>"

definition sample_refund :: refund where
  "sample_refund =
     (new_claim sample_purchase (offer ''net'' sample_purchase 10 10) ''B'' None 1)\<lparr>refund_id := ''r''\<rparr>"

definition file_moves :: "move list" where
  "file_moves = Start (Request ''net'' ''p'' None None None None) #
     map (Turn 0) [R_done, R_time 1, R_done, R_done, R_done]"

definition approve_moves :: "move list" where
  "approve_moves = Start (Approve ''r'' ''admin'' None) # map (Turn 1) [R_time 2, R_time 2, R_done, R_done]"

definition claim_answers :: "int \<Rightarrow> response list" where
  "claim_answers t = [R_time t, R_time t, R_done, R_done, R_treasury (Inr (Fin 100))]"

definition pay_answers :: "string \<Rightarrow> response list" where
  "pay_answers h = [R_built (Inr (h, ''1'')), R_time 5, R_done, R_submission (Confirmed h 7)]"

definition settle_answers :: "response list" where
  "settle_answers = [R_done, R_time 6, R_time 6, R_done, R_done, R_done, R_time 7, R_done, R_time 8, R_done,
     R_done, R_done]"

definition happy_moves :: "move list" where
  "happy_moves = file_moves @ approve_moves @ Start (Process sample_refund ''worker'') #
     map (Turn 2) (claim_answers 3 @ pay_answers ''h'' @ settle_answers)"

lemma sample_fresh: "fresh_store (mem_store x) sample_db"
  by (auto simp: fresh_store_def mem_store_def sample_db_def sample_purchase_def split: if_splits)

definition refund_in :: "mem_db \<Rightarrow> refund option" where
  "refund_in s = map_of (m_refunds s) ''r''"

lemma happy_result:
  "case refund_in (db (run (mem_store True) happy_moves (started sample_db))) of
     Some r \<Rightarrow> status r = SETTLED \<and> entitlementRevoked r | None \<Rightarrow> False"
  by code_simp

section \<open>Money\<close>

lemma run_docs:
  assumes "lawful_store d" "fresh_store d s"
  shows "docs_ok d (initially_refunded d s) (db (run d ms (started s))) (trail (run d ms (started s)))"
  using refund_run_inv [OF assms] by (simp add: inv_def docs_ok_def)

lemma run_purchase:
  assumes "lawful_store d" "fresh_store d s" "find_purchase d (db (run d ms (started s))) pid = Some q"
  shows "distinct (p_appliedRefundIds q)"
    and "already_refunded q = initially_refunded d s pid +
      sum_list (map (claim_amount d (db (run d ms (started s)))) (p_appliedRefundIds q))"
    and "i \<in> set (p_appliedRefundIds q) \<Longrightarrow> \<exists>r. find_refund d (db (run d ms (started s))) i = Some r \<and>
      status r = SETTLED \<and> purchaseId r = pid"
  using run_docs [OF assms(1,2), of ms] assms(3) unfolding docs_ok_def purchases_ok_def by blast+

lemma run_refund:
  assumes "lawful_store d" "fresh_store d s" "find_refund d (db (run d ms (started s))) i = Some r"
  shows "\<exists>q paid. find_purchase d (db (run d ms (started s))) (purchaseId r) = Some q \<and>
    p_amount q = Fin paid \<and> amount r \<le> paid - initially_refunded d s (purchaseId r)"
  using run_docs [OF assms(1,2), of ms] assms(3) unfolding docs_ok_def refunds_ok_def by blast

lemma distinct_at_most_one:
  assumes "distinct xs" "\<And>x y. x \<in> set xs \<Longrightarrow> y \<in> set xs \<Longrightarrow> x = y"
  shows "xs = [] \<or> (\<exists>x. xs = [x])"
proof (cases xs)
  case (Cons x ys)
  have "ys = []"
  proof (cases ys)
    case c: (Cons y zs)
    have "x = y" by (rule assms(2)) (simp_all add: Cons c)
    with assms(1) show ?thesis by (simp add: Cons c)
  qed
  with Cons show ?thesis by simp
qed simp

text \<open>
  C1: however requests, admin decisions, workers, reconcilers and crashes interleave, the refunded
  amount that a purchase records never exceeds what was paid for it, as long as the one-live-claim
  index is in force and no more was recorded at the start. This is the record; the payments that left
  are another matter (\<open>slow_worker_pays_twice\<close>).
\<close>

theorem recorded_refund_within_payment:
  assumes "lawful_store d" "live_claim_index d" "fresh_store d s"
    and "find_purchase d (db (run d ms (started s))) pid = Some q" "p_amount q = Fin paid"
    and "initially_refunded d s pid \<le> paid"
  shows "already_refunded q \<le> paid"
proof -
  let ?s = "db (run d ms (started s))"
  note q = run_purchase [OF assms(1,3,4)]
  have one: "i = j" if ij: "i \<in> set (p_appliedRefundIds q)" "j \<in> set (p_appliedRefundIds q)" for i j
  proof -
    obtain r x where "find_refund d ?s i = Some r" "status r = SETTLED" "purchaseId r = pid"
      "find_refund d ?s j = Some x" "status x = SETTLED" "purchaseId x = pid"
      using q(3) [OF ij(1)] q(3) [OF ij(2)] by blast
    then show ?thesis using one_liveD [OF run_one_live [OF assms(1-3)], of ms i r j x] by simp
  qed
  consider "p_appliedRefundIds q = []" | i where "p_appliedRefundIds q = [i]"
    using distinct_at_most_one [OF q(1) one] by blast
  then show ?thesis
  proof cases
    case 1
    then show ?thesis using q(2) assms(6) by simp
  next
    case (2 i)
    obtain r where r: "find_refund d ?s i = Some r" "purchaseId r = pid" using q(3) [of i] 2 by auto
    have "amount r \<le> paid - initially_refunded d s pid"
      using run_refund [OF assms(1,3) r(1)] assms(4,5) r(2) by auto
    moreover have "already_refunded q = initially_refunded d s pid + amount r"
      using q(2) 2 r(1) by (simp add: claim_amount_def)
    ultimately show ?thesis by simp
  qed
qed

text \<open>What the witnesses read off the final collections of a concrete run.\<close>

definition final_purchase :: "mem_db store \<Rightarrow> move list \<Rightarrow> purchase option" where
  "final_purchase d ms = find_purchase d (db (run d ms (started sample_db))) ''p''"

lemma happy_purchase:
  "case final_purchase (mem_store True) happy_moves of
     Some q \<Rightarrow> already_refunded q = 10 \<and> p_amount q = Fin 10 \<and> p_appliedRefundIds q = [''r''] | None \<Rightarrow> False"
  by code_simp

lemma sample_initial: "initially_refunded (mem_store x) sample_db ''p'' = 0"
  by (cases x) (simp_all add: initially_refunded_def mem_store_def sample_db_def sample_purchase_def already_refunded_def)

theorem recorded_refund_within_payment_witness:
  "\<exists>q. final_purchase (mem_store True) happy_moves = Some q \<and> already_refunded q \<le> 10 \<and>
       p_appliedRefundIds q = [''r'']"
proof -
  obtain q where q: "final_purchase (mem_store True) happy_moves = Some q" "p_amount q = Fin 10"
    "p_appliedRefundIds q = [''r'']"
    using happy_purchase by (auto split: option.splits)
  have "already_refunded q \<le> 10"
    by (rule recorded_refund_within_payment [OF mem_store_lawful mem_index sample_fresh,
          where pid = "''p''" and paid = 10 and ms = happy_moves])
      (use q in \<open>simp_all add: final_purchase_def sample_initial\<close>)
  with q show ?thesis by blast
qed

text \<open>
  C2: in every interleaving the refunded amount of a purchase is what it was at the start plus
  the amounts of the settled claims it lists, each of them listed once.
\<close>
theorem refunded_exactly_once:
  assumes "lawful_store d" "fresh_store d s"
    and "find_purchase d (db (run d ms (started s))) pid = Some q"
  shows "distinct (p_appliedRefundIds q) \<and>
    already_refunded q = initially_refunded d s pid +
      sum_list (map (claim_amount d (db (run d ms (started s)))) (p_appliedRefundIds q)) \<and>
    (\<forall>i \<in> set (p_appliedRefundIds q). \<exists>r. find_refund d (db (run d ms (started s))) i = Some r \<and>
       status r = SETTLED \<and> purchaseId r = pid)"
  using run_purchase [OF assms] by blast

theorem refunded_exactly_once_witness:
  "\<exists>q. final_purchase (mem_store False) happy_moves = Some q \<and> p_appliedRefundIds q = [''r''] \<and>
     already_refunded q =
       sum_list (map (claim_amount (mem_store False) (db (run (mem_store False) happy_moves (started sample_db))))
         (p_appliedRefundIds q))"
proof -
  have "case final_purchase (mem_store False) happy_moves of
     Some q \<Rightarrow> p_appliedRefundIds q = [''r''] | None \<Rightarrow> False"
    by code_simp
  then obtain q where q: "final_purchase (mem_store False) happy_moves = Some q" "p_appliedRefundIds q = [''r'']"
    by (auto split: option.splits)
  then have f: "find_purchase (mem_store False) (db (run (mem_store False) happy_moves (started sample_db))) ''p'' = Some q"
    by (simp add: final_purchase_def)
  show ?thesis
    using q refunded_exactly_once [OF mem_store_lawful sample_fresh f] by (simp add: sample_initial)
qed

section \<open>Access\<close>

text \<open>
  C3: access to a material is revoked for a buyer only when a refund claim of that buyer for
  that material is settled.
\<close>
theorem access_revoked_only_after_settlement:
  assumes "lawful_store d" "fresh_store d s"
    and "Access_revoked m b \<in> set (trail (run d ms (started s)))"
  shows "\<exists>i r. find_refund d (db (run d ms (started s))) i = Some r \<and> status r = SETTLED \<and>
    materialId r = m \<and> buyerAddress r = b"
  using run_docs [OF assms(1,2), of ms] assms(3) unfolding docs_ok_def trail_ok_def by blast

definition is_revocation :: "event \<Rightarrow> bool" where
  "is_revocation e = (case e of Access_revoked m b \<Rightarrow> m = ''m'' \<and> b = ''B'' | _ \<Rightarrow> False)"

lemma is_revocation_iff: "is_revocation e \<longleftrightarrow> e = Access_revoked ''m'' ''B''"
  by (cases e) (simp_all add: is_revocation_def)

theorem access_revoked_only_after_settlement_witness:
  "\<exists>i r. find_refund (mem_store True) (db (run (mem_store True) happy_moves (started sample_db))) i = Some r \<and>
     status r = SETTLED \<and> materialId r = ''m'' \<and> buyerAddress r = ''B''"
proof -
  have "list_ex is_revocation (trail (run (mem_store True) happy_moves (started sample_db)))"
    by code_simp
  then have "Access_revoked ''m'' ''B'' \<in> set (trail (run (mem_store True) happy_moves (started sample_db)))"
    by (simp add: list_ex_iff is_revocation_iff)
  then show ?thesis by (rule access_revoked_only_after_settlement [OF mem_store_lawful sample_fresh])
qed

text \<open>
  C27: a claim is flagged as converged only after it settled, access was revoked and the purchase
  lists it; the flag is never set early, whatever crashes.
\<close>
theorem converged_means_done:
  assumes "lawful_store d" "fresh_store d s"
    and "find_refund d (db (run d ms (started s))) i = Some r" "entitlementRevoked r"
  shows "status r = SETTLED \<and>
    Access_revoked (materialId r) (buyerAddress r) \<in> set (trail (run d ms (started s))) \<and>
    (\<exists>q. find_purchase d (db (run d ms (started s))) (purchaseId r) = Some q \<and>
         i \<in> set (p_appliedRefundIds q))"
proof -
  obtain q where q: "find_purchase d (db (run d ms (started s))) (purchaseId r) = Some q"
    using run_refund [OF assms(1-3)] by blast
  show ?thesis
    using run_docs [OF assms(1,2), of ms] assms(3,4) q unfolding docs_ok_def converged_ok_def by blast
qed

theorem converged_means_done_witness:
  "\<exists>r. find_refund (mem_store True) (db (run (mem_store True) happy_moves (started sample_db))) ''r'' = Some r \<and>
     status r = SETTLED"
proof -
  obtain r where r: "find_refund (mem_store True) (db (run (mem_store True) happy_moves (started sample_db))) ''r'' = Some r"
    "entitlementRevoked r"
    using happy_result by (auto simp: refund_in_def mem_store_def split: option.splits)
  show ?thesis using r converged_means_done [OF mem_store_lawful sample_fresh r] by blast
qed

section \<open>The state machine\<close>

text \<open>
  C25: a claim that settled or was rejected never changes its status again, and no claim ever
  changes its purchase, buyer, destination, asset or amount.
\<close>
theorem settled_and_rejected_are_final:
  assumes "lawful_store d" "fresh_store d s"
    and "find_refund d (db (run d ms (started s))) i = Some r"
  shows "\<exists>r'. find_refund d (db (run d (ms @ ms') (started s))) i = Some r' \<and> terms r' = terms r \<and>
    (status r \<in> set REFUND_TERMINAL_STATUSES \<longrightarrow> status r' = status r)"
  using growsD_refund [OF run_grows [OF assms(1,2)] assms(3), of ms'] by auto

theorem settled_and_rejected_are_final_witness:
  "\<exists>r. find_refund (mem_store True)
     (db (run (mem_store True) (happy_moves @ [Start (Retry ''r'' ''admin'' None), Turn 3 (R_time 9)])
       (started sample_db))) ''r'' = Some r \<and> status r = SETTLED"
proof -
  obtain r where r: "find_refund (mem_store True) (db (run (mem_store True) happy_moves (started sample_db))) ''r'' = Some r"
    "status r = SETTLED"
    using happy_result by (auto simp: refund_in_def mem_store_def split: option.splits)
  show ?thesis
    using settled_and_rejected_are_final [OF mem_store_lawful sample_fresh r(1), of "[Start (Retry ''r'' ''admin'' None), Turn 3 (R_time 9)]"] r(2)
    by auto
qed

text \<open>
  C26: a payment is submitted only by a worker that claimed an approved refund: there are never
  more submissions than claims, and each pays the frozen amount and asset of a claim on record to
  its destination.
\<close>
theorem payments_follow_claims:
  assumes "lawful_store d" "fresh_store d s"
  shows "submissions (trail (run d ms (started s))) \<le> claims (trail (run d ms (started s))) \<and>
    (\<forall>tx x. Submitted tx x \<in> set (trail (run d ms (started s))) \<longrightarrow>
      (\<exists>i r. find_refund d (db (run d ms (started s))) i = Some r \<and>
        destination r = tx_destination tx \<and> amount r = tx_amount tx \<and> assetCode r = tx_asset tx))"
proof -
  have "submissions (trail (run d ms (started s))) \<le> claims (trail (run d ms (started s)))"
    using refund_run_inv [OF assms, of ms] unfolding inv_def procs_ok_def by auto
  moreover have "trail_ok d (db (run d ms (started s))) (trail (run d ms (started s)))"
    using run_docs [OF assms, of ms] by (simp add: docs_ok_def)
  ultimately show ?thesis unfolding trail_ok_def by blast
qed

theorem payments_follow_claims_witness:
  "submissions (trail (run (mem_store True) happy_moves (started sample_db))) = 1 \<and>
   submissions (trail (run (mem_store True) happy_moves (started sample_db)))
     \<le> claims (trail (run (mem_store True) happy_moves (started sample_db)))"
proof -
  have "submissions (trail (run (mem_store True) happy_moves (started sample_db))) = 1" by code_simp
  then show ?thesis using payments_follow_claims [OF mem_store_lawful sample_fresh, of True happy_moves] by blast
qed

section \<open>A slow worker pays twice\<close>

text \<open>
  The stuck threshold takes a claim from a worker that is slow, not dead. Nothing fences the first
  worker: it builds and submits its own payment after the second one settled, and its checkpoint
  overwrites the hash of the settled payment.
\<close>

definition until_treasury :: "move list" where
  "until_treasury = file_moves @ approve_moves @ Start (Process sample_refund ''worker 1'') #
     map (Turn 2) (claim_answers 3)"

definition stale_claim :: "refund option" where
  "stale_claim = refund_in (db (run (mem_store True) until_treasury (started sample_db)))"

definition double_moves :: "move list" where
  "double_moves = until_treasury @
     Start (Reconcile (case stale_claim of Some r \<Rightarrow> r | None \<Rightarrow> sample_refund) ''reconciler'') #
     map (Turn 3) [R_time 400000, R_done, R_done] @
     Start (Process sample_refund ''worker 2'') #
     map (Turn 4) (claim_answers 400001 @ pay_answers ''second'' @ settle_answers) @
     map (Turn 2) (pay_answers ''first'')"

definition confirmed_payments :: "event list \<Rightarrow> (string \<times> string \<times> rat) list" where
  "confirmed_payments es = concat (map (\<lambda>e. case e of
     Submitted tx (Confirmed h l) \<Rightarrow> [(tx_hash tx, tx_destination tx, tx_amount tx)] | _ \<Rightarrow> []) es)"

definition double_end :: "mem_db world" where
  "double_end = run (mem_store True) double_moves (started sample_db)"

text \<open>
  A worker that stalls for more than five minutes after its claim pays a refund a second
  time: two confirmed payments of 10 leave for a purchase of 10, while the records show one refund
  of 10, and the settled claim carries the hash of the second payment.
\<close>
theorem slow_worker_pays_twice:
  "confirmed_payments (trail double_end) = [(''second'', ''B'', 10), (''first'', ''B'', 10)] \<and>
   (case stale_claim of Some r \<Rightarrow> awaits_reconciliation 400000 r | None \<Rightarrow> False) \<and>
   map_option (\<lambda>r. (status r, txHash r)) (refund_in (db double_end)) = Some (SETTLED, Some ''first'') \<and>
   map_option already_refunded (final_purchase (mem_store True) double_moves) = Some 10"
proof (intro conjI)
  show "confirmed_payments (trail double_end) = [(''second'', ''B'', 10), (''first'', ''B'', 10)]" by code_simp
  show "case stale_claim of Some r \<Rightarrow> awaits_reconciliation 400000 r | None \<Rightarrow> False" by code_simp
  show "map_option (\<lambda>r. (status r, txHash r)) (refund_in (db double_end)) = Some (SETTLED, Some ''first'')"
    by code_simp
  show "map_option already_refunded (final_purchase (mem_store True) double_moves) = Some 10" by code_simp
qed

section \<open>Without the index\<close>

definition claim_and_settle :: "nat \<Rightarrow> string \<Rightarrow> string \<Rightarrow> move list" where
  "claim_and_settle n i h =
     Start (Approve i ''admin'' None) # map (Turn n) [R_time 2, R_time 2, R_done, R_done] @
     Start (Process (sample_refund\<lparr>refund_id := i\<rparr>) ''worker'') #
     map (Turn (Suc n)) (claim_answers 3 @ pay_answers h @ settle_answers)"

definition two_claims_moves :: "move list" where
  "two_claims_moves =
     file_moves @
     Start (Request ''net'' ''p'' None None None None) # map (Turn 1) [R_done, R_time 1, R_done, R_done, R_done] @
     claim_and_settle 2 ''r'' ''h1'' @ claim_and_settle 4 ''rr'' ''h2''"

text \<open>
  The workflow itself does not stop a second claim of a purchase: without the unique index
  two full claims are filed, approved and paid, and the purchase of 10 is refunded 20.
\<close>
theorem over_refund_without_index:
  "map_option already_refunded (final_purchase (mem_store False) two_claims_moves) = Some 20 \<and>
   map_option p_amount (final_purchase (mem_store False) two_claims_moves) = Some (Fin 10) \<and>
   map_option already_refunded (final_purchase (mem_store True) two_claims_moves) = Some 10"
proof (intro conjI)
  show "map_option already_refunded (final_purchase (mem_store False) two_claims_moves) = Some 20" by code_simp
  show "map_option p_amount (final_purchase (mem_store False) two_claims_moves) = Some (Fin 10)" by code_simp
  show "map_option already_refunded (final_purchase (mem_store True) two_claims_moves) = Some 10" by code_simp
qed

section \<open>Every handler returns\<close>

text \<open>\<open>ends_in p n\<close>: at most \<open>n\<close> awaited calls are left on any path of \<open>p\<close>.\<close>

primrec ends_in :: "prog \<Rightarrow> nat \<Rightarrow> bool" where
  "ends_in (Done x) = (\<lambda>n. True)"
| "ends_in (Now k) = (\<lambda>n. 0 < n \<and> (\<forall>t. ends_in (k t) (n - 1)))"
| "ends_in (Find_refund i k) = (\<lambda>n. 0 < n \<and> (\<forall>r. ends_in (k r) (n - 1)))"
| "ends_in (Cas i from f k) = (\<lambda>n. 0 < n \<and> (\<forall>r. ends_in (k r) (n - 1)))"
| "ends_in (Set_refund i f k) = (\<lambda>n. 0 < n \<and> ends_in k (n - 1))"
| "ends_in (Insert_refund r k) = (\<lambda>n. 0 < n \<and> (\<forall>x. ends_in (k x) (n - 1)))"
| "ends_in (Find_live pid k) = (\<lambda>n. 0 < n \<and> (\<forall>r. ends_in (k r) (n - 1)))"
| "ends_in (Find_purchase pid k c) = (\<lambda>n. 0 < n \<and> ends_in c (n - 1) \<and> (\<forall>p. ends_in (k p) (n - 1)))"
| "ends_in (Find_purchase_by_tx h k) = (\<lambda>n. 0 < n \<and> (\<forall>p. ends_in (k p) (n - 1)))"
| "ends_in (Mirror_purchase pid rid x tx now k) = (\<lambda>n. 0 < n \<and> ends_in k (n - 1))"
| "ends_in (Revoke m b k) = (\<lambda>n. 0 < n \<and> ends_in k (n - 1))"
| "ends_in (Audit e k) = (\<lambda>n. 0 < n \<and> ends_in k (n - 1))"
| "ends_in (Notify t key k) = (\<lambda>n. 0 < n \<and> ends_in k (n - 1))"
| "ends_in (Treasury c k) = (\<lambda>n. 0 < n \<and> (\<forall>x. ends_in (k x) (n - 1)))"
| "ends_in (Build dst x c k) = (\<lambda>n. 0 < n \<and> (\<forall>y. ends_in (k y) (n - 1)))"
| "ends_in (Submit tx x k) = (\<lambda>n. 0 < n \<and> (\<forall>s. ends_in (k s) (n - 1)))"
| "ends_in (Tx_status h k) = (\<lambda>n. 0 < n \<and> (\<forall>s. ends_in (k s) (n - 1)))"

lemma perform_within:
  assumes "perform d a p s = Some (p', s', es)" "ends_in p n"
  shows "0 < n \<and> ends_in p' (n - 1)"
  using assms
  by (cases p) (auto simp: perform_def split: response.splits prod.splits sum.splits)

text \<open>Answering a handler call after call.\<close>

fun follow :: "'db store \<Rightarrow> response list \<Rightarrow> prog \<Rightarrow> 'db \<Rightarrow> (prog \<times> 'db) option" where
  "follow d [] p s = Some (p, s)"
| "follow d (a # as) p s =
     (case perform d a p s of None \<Rightarrow> None | Some (p', s', _) \<Rightarrow> follow d as p' s')"

lemma follow_within: "follow d as p s = Some (p', s') \<Longrightarrow> ends_in p n \<Longrightarrow> length as \<le> n"
proof (induction as arbitrary: p s n)
  case (Cons a as)
  obtain q t es where q: "perform d a p s = Some (q, t, es)" "follow d as q t = Some (p', s')"
    using Cons.prems(1) by (auto split: option.splits)
  have "0 < n" "ends_in q (n - 1)" using perform_within [OF q(1) Cons.prems(2)] by simp_all
  then show ?case using Cons.IH [OF q(2), of "n - 1"] by simp
qed simp

lemma perform_progress: "(\<exists>x. p = Done x) \<or> (\<exists>a. perform d a p s \<noteq> None)"
proof (cases p)
  case (Treasury c k)
  then have "perform d (R_treasury (Inl [])) p s \<noteq> None" by (simp add: perform_def)
  then show ?thesis by blast
next
  case (Build dst x c k)
  then have "perform d (R_built (Inl [])) p s \<noteq> None" by (simp add: perform_def)
  then show ?thesis by blast
next
  case (Now k)
  then have "perform d (R_time 0) p s \<noteq> None" by (simp add: perform_def)
  then show ?thesis by blast
next
  case (Submit tx x k)
  then have "perform d (R_submission (Ambiguous [])) p s \<noteq> None" by (simp add: perform_def)
  then show ?thesis by blast
next
  case (Tx_status h k)
  then have "perform d (R_status []) p s \<noteq> None" by (simp add: perform_def)
  then show ?thesis by blast
next
  case (Cas i fr f k)
  then have "perform d R_done p s \<noteq> None" by (simp add: perform_def split: prod.split)
  then show ?thesis by blast
next
  case (Insert_refund r k)
  then have "perform d R_done p s \<noteq> None" by (simp add: perform_def split: prod.split)
  then show ?thesis by blast
qed (auto simp: perform_def intro: exI [of _ R_done])

lemma within_transition:
  "Suc (Suc m) = n \<Longrightarrow> (\<And>r. ends_in (k r) m) \<Longrightarrow> ends_in (transition i from to f k) n"
  by (auto simp: transition_def)

lemma ends_in_Suc: "ends_in p n \<Longrightarrow> ends_in p (Suc n)"
proof (induction p arbitrary: n)
  case (Find_purchase pid k c)
  then obtain m where m: "n = Suc m" "ends_in c m" "\<And>p. ends_in (k p) m" by (cases n) auto
  then show ?case using Find_purchase.IH by auto
qed (auto simp: gr0_conv_Suc)

lemma ends_in_mono:
  assumes "ends_in p m" "m \<le> n"
  shows "ends_in p n"
  using assms(2,1) by (induction rule: dec_induct) (auto intro: ends_in_Suc)

lemma ends_converge: "ends_in (converge i actor c) 7"
  by (simp add: converge_def Let_def)

lemma ends_retryOrFail: "ends_in (retryOrFail r why detail actor from) 4"
  unfolding retryOrFail_def Let_def by (auto intro!: within_transition)

lemma ends_finalizeSettlement: "ends_in (finalizeSettlement i h l m actor) 12"
proof -
  show ?thesis
    unfolding finalizeSettlement_def
    by (auto simp: ends_converge split: option.split intro!: within_transition ends_in_mono [OF ends_converge])
qed

lemma ends_after_submission: "ends_in (after_submission c actor s) 12"
  unfolding after_submission_def
  by (cases s) (auto simp: ends_finalizeSettlement intro!: within_transition ends_in_mono [OF ends_retryOrFail]
    split: option.split)

lemma ends_submit_claimed: "ends_in (submit_claimed c actor) 17"
  unfolding submit_claimed_def
  by (auto simp: ends_after_submission split: sum.split intro!: ends_in_mono [OF ends_retryOrFail])

lemma ends_processApprovedRefund: "ends_in (processApprovedRefund r actor) 21"
  unfolding processApprovedRefund_def
  by (auto simp: ends_submit_claimed split: option.split intro!: within_transition)

lemma ends_still_pending: "ends_in (still_pending r) 3"
  unfolding still_pending_def Let_def
  by (auto split: option.split intro!: within_transition)

lemma ends_reconcileRefund: "ends_in (reconcileRefund r actor) 13"
  unfolding reconcileRefund_def
  by (auto simp: ends_finalizeSettlement split: option.split
    intro!: ends_in_mono [OF ends_retryOrFail] ends_in_mono [OF ends_finalizeSettlement]
      ends_in_mono [OF ends_still_pending])

lemma ends_deriveRefundTerms:
  assumes "\<And>t. ends_in (k t) m"
  shows "ends_in (deriveRefundTerms net p req k) (m + 2)"
proof -
  have k: "ends_in (k t) n" if "m \<le> n" for t n using assms that by (rule ends_in_mono)
  show ?thesis
    unfolding deriveRefundTerms_def derive_amount_def verifyRefundLimit_def Let_def
    by (auto simp: k split: option.split jsnum.split)
qed

lemma ends_file_claim: "ends_in (file_claim p t actor reason) 4"
  by (simp add: file_claim_def Let_def split: insert_result.split option.split)

lemma ends_requestRefund: "ends_in (requestRefund net pid buyer actor reason req) 7"
proof -
  have "ends_in (deriveRefundTerms net (Some p) req (\<lambda>t. case t of
        Inl why \<Rightarrow> Done (Failure why None) | Inr t \<Rightarrow> file_claim p t actor reason)) (4 + 2)" for p
    by (rule ends_deriveRefundTerms) (simp add: ends_file_claim split: sum.split)
  then show ?thesis unfolding requestRefund_def by (simp split: option.split)
qed

lemma ends_handler: "ends_in (handler c) 21"
proof (cases c)
  case (Request net pid buyer actor reason x)
  then show ?thesis using ends_in_mono [OF ends_requestRefund] by simp
next
  case (Process r actor)
  then show ?thesis using ends_processApprovedRefund by simp
next
  case (Reconcile r actor)
  then show ?thesis using ends_in_mono [OF ends_reconcileRefund] by simp
next
  case (Finalize i h l n actor)
  then show ?thesis using ends_in_mono [OF ends_finalizeSettlement] by simp
qed (auto simp: approveRefund_def rejectRefund_def retryFailedRefund_def not_moved_def split: option.split
  intro!: within_transition)

text \<open>
  Every handler returns: whatever it is answered it makes at most 21 awaited calls, and as
  long as it has not returned there is a call whose answer takes it on.
\<close>
theorem handlers_return:
  assumes "follow d as (handler c) s = Some (p', s')"
  shows "length as \<le> 21 \<and> ((\<exists>x. p' = Done x) \<or> (\<exists>a. perform d a p' s' \<noteq> None))"
  using follow_within [OF assms ends_handler] perform_progress [of p' d s'] by simp

theorem handlers_return_witness:
  "length (claim_answers 3 @ pay_answers ''h'' @ settle_answers) \<le> 21"
proof -
  let ?s = "db (run (mem_store True) (file_moves @ approve_moves) (started sample_db))"
  let ?as = "claim_answers 3 @ pay_answers ''h'' @ settle_answers"
  have "follow (mem_store True) ?as (handler (Process sample_refund ''worker'')) ?s \<noteq> None" by code_simp
  then show ?thesis using handlers_return by fastforce
qed

section \<open>One worker, undisturbed\<close>

definition after_cas :: "'db store \<Rightarrow> 'db \<Rightarrow> string \<Rightarrow> refund_status list \<Rightarrow> (refund \<Rightarrow> refund) \<Rightarrow> 'db" where
  "after_cas d s i from f = snd (cas_refund d s i from f)"

lemma after_cas_law:
  assumes "lawful_store d"
  shows "find_refund d (after_cas d s i from f) j =
      (if j = i \<and> cas_matches (find_refund d s i) from then map_option f (find_refund d s i)
       else find_refund d s j)"
    and "find_purchase d (after_cas d s i from f) p = find_purchase d s p"
proof -
  obtain r s' where c: "cas_refund d s i from f = (r, s')" by (cases "cas_refund d s i from f")
  show "find_refund d (after_cas d s i from f) j =
      (if j = i \<and> cas_matches (find_refund d s i) from then map_option f (find_refund d s i)
       else find_refund d s j)"
    using cas_law(2) [OF assms c] by (simp add: after_cas_def c)
  show "find_purchase d (after_cas d s i from f) p = find_purchase d s p"
    using cas_law(3) [OF assms c] by (simp add: after_cas_def c)
qed

lemma follow_cas:
  assumes "lawful_store d"
  shows "follow d (R_done # as) (Cas i from f k) s =
    follow d as (k (if cas_matches (find_refund d s i) from then map_option f (find_refund d s i) else None))
      (after_cas d s i from f)"
proof -
  obtain r s' where c: "cas_refund d s i from f = (r, s')" by (cases "cas_refund d s i from f")
  then show ?thesis using cas_law(1) [OF assms c] by (simp add: perform_def after_cas_def)
qed

lemma follow_simps:
  "follow d (R_time t # as) (Now k) s = follow d as (k t) s"
  "follow d (R_done # as) (Find_refund i k0) s = follow d as (k0 (find_refund d s i)) s"
  "follow d (R_done # as) (Set_refund i f p) s = follow d as p (set_refund d s i f)"
  "follow d (R_done # as) (Mirror_purchase pid rid x tx now p) s =
     follow d as p (update_purchase d s pid rid (mirror rid x tx now))"
  "follow d (R_done # as) (Revoke m b p) s = follow d as p s"
  "follow d (R_done # as) (Audit e p) s = follow d as p s"
  "follow d (R_done # as) (Notify ty key p) s = follow d as p s"
  "follow d (R_treasury bl # as) (Treasury c k1) s = follow d as (k1 bl) s"
  "follow d (R_built (Inr (h, sq)) # as) (Build dst x c k2) s =
     follow d as (k2 (Inr \<lparr>tx_hash = h, tx_sequence = sq, tx_destination = dst, tx_amount = x, tx_asset = c\<rparr>)) s"
  "follow d (R_submission y # as) (Submit trx x k3) s = follow d as (k3 y) s"
  by (simp_all add: perform_def)

lemma follow_transition:
  assumes "lawful_store d" "list_all (\<lambda>s. isValidRefundTransition s to) from"
  shows "follow d (R_time t # R_done # as) (transition i from to f k) s =
    follow d as (k (if cas_matches (find_refund d s i) from
                    then map_option (\<lambda>r. f (r\<lparr>status := to, updatedAt := t\<rparr>)) (find_refund d s i) else None))
      (after_cas d s i from (\<lambda>r. f (r\<lparr>status := to, updatedAt := t\<rparr>)))"
proof -
  have "\<not> list_ex (\<lambda>s. \<not> isValidRefundTransition s to) from"
    using assms(2) by (auto simp: list_ex_iff list_all_iff)
  then show ?thesis unfolding transition_def if_not_P [OF \<open>\<not> _\<close>]
    by (simp only: follow_simps(1) follow_cas [OF assms(1)])
qed

lemma cas_matches_simps [simp]:
  "cas_matches (Some r) from \<longleftrightarrow> status r \<in> set from" "\<not> cas_matches None from"
  by (simp_all add: cas_matches_def)

lemmas sequential = follow_simps follow_transition after_cas_law set_law mirror_law valid_iff





text \<open>
  A failed attempt on the document as it stands costs one retry: up to five attempts send the
  claim back to \<open>approved\<close> without its transaction hash, the sixth makes it \<open>failed\<close>.
\<close>
theorem retry_budget:
  assumes "lawful_store d" "find_refund d s i = Some r" "refund_id r = i" "status r \<in> {SUBMITTING, PENDING}"
  shows "map_option (\<lambda>(p, s'). map_option (\<lambda>r'. (status r', retryCount r', txHash r')) (find_refund d s' i))
      (follow d [R_time t, R_done] (retryOrFail r why detail actor [SUBMITTING, PENDING]) s) =
    Some (Some (if retryCount r < 5 then (APPROVED, retryCount r + 1, None)
                else (FAILED, retryCount r + 1, txHash r)))"
proof (cases "retryCount r < 5")
  case True
  then show ?thesis
    using assms by (simp add: retryOrFail_def MAX_SUBMIT_RETRIES_def sequential del: follow.simps(2))
next
  case False
  then show ?thesis
    using assms by (simp add: retryOrFail_def MAX_SUBMIT_RETRIES_def sequential del: follow.simps(2))
qed

definition failing_db :: mem_db where
  "failing_db = \<lparr>m_refunds = [(''r'', sample_refund\<lparr>status := SUBMITTING, retryCount := 5\<rparr>)], m_purchases = []\<rparr>"

theorem retry_budget_witness:
  "map_option (\<lambda>(p, s'). map_option status (find_refund (mem_store True) s' ''r''))
     (follow (mem_store True) [R_time 9, R_done]
       (retryOrFail (sample_refund\<lparr>status := SUBMITTING, retryCount := 5\<rparr>) ''w'' ''d'' ''a'' [SUBMITTING, PENDING])
       failing_db) = Some (Some FAILED)"
proof -
  let ?r = "sample_refund\<lparr>status := SUBMITTING, retryCount := 5\<rparr>"
  have f: "find_refund (mem_store True) failing_db ''r'' = Some ?r"
    by (simp add: failing_db_def mem_store_def)
  have i: "refund_id ?r = ''r''" "status ?r \<in> {SUBMITTING, PENDING}" by (simp_all add: sample_refund_def)
  show ?thesis
    using retry_budget [OF mem_store_lawful f i, of 9 "''w''" "''d''" "''a''"] by (auto simp: option.map_comp comp_def split_beta)
qed

section \<open>The terms\<close>

definition asked_amount :: "jsnum option \<Rightarrow> rat \<Rightarrow> jsnum" where
  "asked_amount req remaining = (case req of Some x \<Rightarrow> x | None \<Rightarrow> Fin remaining)"

text \<open>The terms alone: the derivation ends in the claim they would file, or in the reason.\<close>

definition terms_only :: "string \<Rightarrow> purchase \<Rightarrow> jsnum option \<Rightarrow> prog" where
  "terms_only net p req = deriveRefundTerms net (Some p) req (\<lambda>t. case t of
     Inl why \<Rightarrow> Done (Failure why None) | Inr t \<Rightarrow> Done (Success (new_claim p t [] None 0) False))"

lemma follow_done_iff [simp]:
  "follow d as (Done x) s = Some (Done y, s') \<longleftrightarrow> as = [] \<and> x = y \<and> s = s'"
  by (cases as) (auto simp: perform_def)

lemma follow_now_iff:
  "follow d as (Now k) s = Some (Done y, s') \<longleftrightarrow>
     (\<exists>t bs. as = R_time t # bs \<and> follow d bs (k t) s = Some (Done y, s'))"
proof (cases as)
  case (Cons a bs)
  then show ?thesis by (cases a) (simp_all add: perform_def)
qed simp

lemma follow_by_tx_iff:
  "follow d as (Find_purchase_by_tx h k) s = Some (Done y, s') \<longleftrightarrow>
     (\<exists>bs. as = R_done # bs \<and> follow d bs (k (find_purchase_by_tx d s h)) s = Some (Done y, s'))"
proof (cases as)
  case (Cons a bs)
  then show ?thesis by (cases a) (simp_all add: perform_def)
qed simp

text \<open>
  An eligible claim is for a completed purchase that is not yet refunded, disputed or
  expired; its amount is the one asked for (all that is left by default), positive and at most what
  is left of the payment, and the money goes to the purchase's buyer in the purchase's asset.
\<close>
theorem eligible_terms:
  assumes "follow d as (terms_only net p req) s = Some (Done (Success r False), s')"
  shows "isCompletedPurchaseStatus (p_status p) \<and>
    \<not> (truthy (p_settlementState p) \<and>
       List.member SETTLED_SETTLEMENT_STATES (or_default (p_settlementState p) [])) \<and>
    (\<exists>paid. p_amount p = Fin paid \<and> 0 < paid \<and> 0 < amount r \<and> amount r \<le> paid - already_refunded p \<and>
       asked_amount req (paid - already_refunded p) = Fin (amount r)) \<and>
    purchaseId r = p_id p \<and> destination r = or_default (p_buyerAddress p) [] \<and>
    assetCode r = or_default (p_asset p) []"
proof -
  have d: "follow d bs (derive_amount net p req (\<lambda>t. case t of
       Inl why \<Rightarrow> Done (Failure why None) | Inr t \<Rightarrow> Done (Success (new_claim p t [] None 0) False))) s =
      Some (Done (Success r False), s') \<Longrightarrow>
    (\<exists>paid. p_amount p = Fin paid \<and> 0 < paid \<and> 0 < amount r \<and> amount r \<le> paid - already_refunded p \<and>
       asked_amount req (paid - already_refunded p) = Fin (amount r)) \<and>
    purchaseId r = p_id p \<and> destination r = or_default (p_buyerAddress p) [] \<and>
    assetCode r = or_default (p_asset p) []" for bs
    unfolding derive_amount_def verifyRefundLimit_def Let_def
    by (auto simp: follow_by_tx_iff new_claim_def offer_def asked_amount_def
      split: jsnum.splits if_splits option.splits)
  show ?thesis
    using assms d unfolding terms_only_def deriveRefundTerms_def
    by (auto simp: follow_now_iff split: if_splits option.splits)
qed

theorem eligible_terms_witness:
  "\<exists>r :: refund. amount r = 4 \<and> amount r \<le> 10 \<and> destination r = ''B''"
proof -
  let ?r = "new_claim sample_purchase (offer ''net'' sample_purchase 4 10) [] None 0"
  have "isCompletedPurchaseStatus (p_status sample_purchase)" by code_simp
  then have f: "follow (mem_store True) [] (terms_only ''net'' sample_purchase (Some (Fin 4))) sample_db =
      Some (Done (Success ?r False), sample_db)"
    by (simp add: terms_only_def deriveRefundTerms_def derive_amount_def sample_purchase_def Let_def
      already_refunded_def referenceDate_def)
  have "amount ?r = 4" "destination ?r = ''B''" by (simp_all add: new_claim_def offer_def sample_purchase_def)
  then show ?thesis
    using eligible_terms [OF f] by (intro exI [of _ ?r]) (auto simp: sample_purchase_def already_refunded_def)
qed

end
