(* ===== verification/JsNumbers.thy ===== *)
theory JsNumbers imports Prelude begin

text \<open>
  JavaScript's \<open>Number\<close> applied to a string: white space trimmed, the empty string is zero,
  hexadecimal, octal and binary literals, and decimal literals with sign, fraction and exponent.
\<close>

section \<open>JavaScript's \<open>Number\<close> of a string\<close>

definition is_sign :: "char \<Rightarrow> bool" where
  "is_sign c \<longleftrightarrow> c = CHR ''+'' \<or> c = CHR ''-''"

fun hex_digit :: "char \<Rightarrow> nat option" where
  "hex_digit c =
     (let n = of_char c in
      if 48 \<le> n \<and> n \<le> 57 then Some (n - 48)
      else if 97 \<le> n \<and> n \<le> 102 then Some (n - 87)
      else if 65 \<le> n \<and> n \<le> 70 then Some (n - 55) else None)"

fun radix_val :: "nat \<Rightarrow> nat \<Rightarrow> string \<Rightarrow> nat option" where
  "radix_val r acc [] = Some acc"
| "radix_val r acc (c # s) =
     (case hex_digit c of Some d \<Rightarrow> if d < r then radix_val r (r * acc + d) s else None | None \<Rightarrow> None)"

definition radix_number :: "nat \<Rightarrow> string \<Rightarrow> jsnum" where
  "radix_number r s =
     (if s = [] then NaN else case radix_val r 0 s of Some n \<Rightarrow> Fin (of_nat n) | None \<Rightarrow> NaN)"

text \<open>A decimal literal without sign: digits, at most one dot, an exponent.\<close>

definition mantissa_number :: "string \<Rightarrow> rat option" where
  "mantissa_number s =
     (case js_split (CHR ''.'') s of
        [a] \<Rightarrow> if a \<noteq> [] \<and> list_all is_digit a then Some (of_nat (digits_val a)) else None
      | [a, b] \<Rightarrow>
          if a @ b \<noteq> [] \<and> list_all is_digit (a @ b)
          then Some (of_nat (digits_val (a @ b)) / 10 ^ length b) else None
      | _ \<Rightarrow> None)"

definition exponent_number :: "string \<Rightarrow> int option" where
  "exponent_number s =
     (let neg = (s \<noteq> [] \<and> hd s = CHR ''-''); t = (if s \<noteq> [] \<and> is_sign (hd s) then tl s else s) in
      if t \<noteq> [] \<and> list_all is_digit t then Some ((if neg then - 1 else 1) * int (digits_val t)) else None)"

definition is_e :: "char \<Rightarrow> bool" where
  "is_e c \<longleftrightarrow> c = CHR ''e'' \<or> c = CHR ''E''"

definition decimal_number :: "string \<Rightarrow> jsnum" where
  "decimal_number s =
     (if s = ''Infinity'' then PInf
      else (case (mantissa_number (takeWhile (\<lambda>c. \<not> is_e c) s), dropWhile (\<lambda>c. \<not> is_e c) s) of
        (Some m, []) \<Rightarrow> Fin m
      | (Some m, _ # e) \<Rightarrow>
          (case exponent_number e of
             Some k \<Rightarrow> Fin (if 0 \<le> k then m * 10 ^ nat k else m / 10 ^ nat (- k))
           | None \<Rightarrow> NaN)
      | (None, _) \<Rightarrow> NaN))"

definition js_number :: "string \<Rightarrow> jsnum" where
  "js_number str =
     (let s = js_trim str in
      if s = [] then Fin 0
      else if starts_with s ''0x'' \<or> starts_with s ''0X'' then radix_number 16 (drop 2 s)
      else if starts_with s ''0o'' \<or> starts_with s ''0O'' then radix_number 8 (drop 2 s)
      else if starts_with s ''0b'' \<or> starts_with s ''0B'' then radix_number 2 (drop 2 s)
      else if is_sign (hd s)
      then (if hd s = CHR ''-'' then js_neg (decimal_number (tl s)) else decimal_number (tl s))
      else decimal_number s)"

lemma digits_decimal_number:
  assumes "s \<noteq> []" "list_all is_digit s"
  shows "decimal_number s = Fin (of_nat (digits_val s))"
proof -
  have e: "\<not> is_e c" if "is_digit c" for c using that by (auto simp: is_digit_def is_e_def)
  have t: "takeWhile (\<lambda>c. \<not> is_e c) s = s" "dropWhile (\<lambda>c. \<not> is_e c) s = []"
    using assms(2) e by (auto simp: list_all_iff)
  have "CHR ''.'' \<notin> set s" using assms(2) is_digit_not_dot by (auto simp: list_all_iff)
  then have "mantissa_number s = Some (of_nat (digits_val s))"
    using assms by (simp add: mantissa_number_def js_split_no_sep)
  moreover have "s \<noteq> ''Infinity''" using assms(2) by (auto simp: is_digit_def)
  ultimately show ?thesis by (simp add: decimal_number_def t)
qed

lemma digits_js_number:
  assumes "s \<noteq> []" "list_all is_digit s"
  shows "js_number s = Fin (of_nat (digits_val s))"
proof -
  have d: "is_digit (hd s)" "is_digit (last s)" using assms by (auto simp: list_all_iff)
  have trim: "js_trim s = s" using assms(1) d by (intro js_trim_id) (auto dest: is_digit_not_space)
  have "\<not> starts_with s [CHR ''0'', c]" if "\<not> is_digit c" for c
    using assms(2) that by (cases s; cases "tl s") (auto simp: starts_with_def)
  then have p: "\<not> starts_with s ''0x''" "\<not> starts_with s ''0X''" "\<not> starts_with s ''0o''"
    "\<not> starts_with s ''0O''" "\<not> starts_with s ''0b''" "\<not> starts_with s ''0B''"
    by (simp_all add: is_digit_def)
  have "\<not> is_sign (hd s)" using d(1) by (auto simp: is_digit_def is_sign_def)
  then show ?thesis
    using assms p by (simp add: js_number_def trim digits_decimal_number)
qed

end
