(* ===== verification/SsrfGuard.thy ===== *)
theory SsrfGuard imports JsNumbers "HOL-Library.Word" begin

text \<open>
  \<open>src/lib/webhooks/ssrfGuard.js\<close>: the guard of outgoing webhook requests. Addresses are
  compared as 32-bit words with JavaScript's shifts (the count is taken modulo 32). The URL
  parser, the resolver and the network are parameters: \<open>parse\<close> is \<open>new URL\<close>, \<open>lookup\<close> is
  \<open>dns.lookup\<close>, and a request of \<open>safeFetch\<close> gets its answers from \<open>fetch\<close>.
\<close>

unbundle bit_operations_syntax

section \<open>Address ranges\<close>

definition octet :: "jsnum \<Rightarrow> nat option" where
  "octet x = (case x of
     Fin r \<Rightarrow> if is_integer r \<and> 0 \<le> r \<and> r \<le> 255 then Some (nat \<lfloor>r\<rfloor>) else None
   | _ \<Rightarrow> None)"

definition parseIPv4 :: "string \<Rightarrow> nat list option" where
  "parseIPv4 ip =
     (let nums = map (\<lambda>p. octet (js_number p)) (js_split (CHR ''.'') ip) in
      if length nums \<noteq> 4 \<or> list_ex (\<lambda>n. n = None) nums then None else Some (map the nums))"

fun ipv4ToInt :: "nat list \<Rightarrow> 32 word" where
  "ipv4ToInt (a # b # c # d # _) =
     push_bit 24 (of_nat a) OR push_bit 16 (of_nat b) OR push_bit 8 (of_nat c) OR of_nat d"
| "ipv4ToInt _ = 0"

definition js_shl :: "32 word \<Rightarrow> int \<Rightarrow> 32 word" where
  "js_shl x k = push_bit (nat (k mod 32)) x"

definition range_mask :: "int \<Rightarrow> 32 word" where
  "range_mask prefix = (if prefix = 32 then - 1 else NOT (js_shl 1 (32 - prefix) - 1))"

definition inRange :: "32 word \<Rightarrow> 32 word \<Rightarrow> int \<Rightarrow> bool" where
  "inRange ip base prefix \<longleftrightarrow> ip AND range_mask prefix = base AND range_mask prefix"

definition blocked_ranges :: "(nat \<times> int) list" where
  "blocked_ranges =
     [(0, 8), (10, 8), (100, 10), (127, 8), (169, 16), (172, 12), (192, 24), (192, 29), (192, 168),
      (198, 15), (224, 4), (240, 4)]"

definition metadata_addresses :: "string list" where
  "metadata_addresses =
     [''169.254.169.254'', ''169.254.169.253'', ''169.254.170.2'', ''100.100.100.200'', ''192.0.0.192'']"

definition isBlockedIPv4 :: "string \<Rightarrow> bool" where
  "isBlockedIPv4 ip =
     (case parseIPv4 ip of
        None \<Rightarrow> True
      | Some nums \<Rightarrow>
          let n = ipv4ToInt nums in
          if list_ex (\<lambda>(base, prefix). inRange n (ipv4ToInt [base, 0, 0, 0]) prefix) blocked_ranges
          then True
          else List.member metadata_addresses ip)"

definition dotted_digits :: "string \<Rightarrow> bool" where
  "dotted_digits s \<longleftrightarrow>
     (let ps = js_split (CHR ''.'') s in
      length ps = 4 \<and> list_all (\<lambda>p. p \<noteq> [] \<and> list_all is_digit p) ps)"

definition stripIpv4Mapped :: "string \<Rightarrow> string option" where
  "stripIpv4Mapped ip =
     (if starts_with ip ''::'' then
        let s = drop 2 ip; t = (if starts_with s ''ffff:'' then drop 5 s else s) in
        if dotted_digits t then Some t else None
      else None)"

definition isBlockedAddress :: "string \<Rightarrow> bool" where
  "isBlockedAddress address =
     (if address = [] then True
      else let ip = js_lower address in
        case stripIpv4Mapped ip of
          Some mapped \<Rightarrow> isBlockedIPv4 mapped
        | None \<Rightarrow>
            if List.member ip (CHR '':'') \<and>
               (ip = ''::1'' \<or> ip = ''::'' \<or> ip = ''::ffff'' \<or>
                starts_with ip ''fc'' \<or> starts_with ip ''fd'' \<or>
                starts_with ip ''fe8'' \<or> starts_with ip ''fe9'' \<or> starts_with ip ''fea'' \<or> starts_with ip ''feb'' \<or>
                starts_with ip ''ff'')
            then True
            else if List.member ip (CHR ''.'') then isBlockedIPv4 ip
            else False)"

section \<open>URLs and hosts\<close>

datatype ssrf_code =
    Invalid_url | Scheme_not_allowed | Credentials_present | Port_not_allowed | Blocked_address | Dns_failure
  | Timeout | Request_failed | Too_many_redirects | Bad_redirect | Response_too_large | Duplicate_url

text \<open>The parts of a parsed URL the guard reads; an empty port is the default of the scheme.\<close>

record url =
  u_protocol :: string
  u_username :: string
  u_password :: string
  u_port :: string
  u_hostname :: string
  u_href :: string

definition ALLOWED_SCHEMES :: "string list" where
  "ALLOWED_SCHEMES = [''http:'', ''https:'']"

definition ALLOWED_PORTS :: "nat list" where
  "ALLOWED_PORTS = [80, 443, 8080, 8443]"

definition MAX_RESPONSE_BYTES :: nat where "MAX_RESPONSE_BYTES = 1 * 1024 * 1024"
definition MAX_REDIRECTS :: nat where "MAX_REDIRECTS = 5"

definition url_port :: "url \<Rightarrow> nat" where
  "url_port u = (if u_port u \<noteq> [] then digits_val (u_port u) else if u_protocol u = ''https:'' then 443 else 80)"

definition canonicalizeWebhookUrl :: "(string \<Rightarrow> url option) \<Rightarrow> string \<Rightarrow> ssrf_code + url" where
  "canonicalizeWebhookUrl parse rawUrl =
     (if js_trim rawUrl = [] then Inl Invalid_url
      else case parse rawUrl of
        None \<Rightarrow> Inl Invalid_url
      | Some u \<Rightarrow>
          if \<not> List.member ALLOWED_SCHEMES (u_protocol u) then Inl Scheme_not_allowed
          else if u_username u \<noteq> [] \<or> u_password u \<noteq> [] then Inl Credentials_present
          else if \<not> List.member ALLOWED_PORTS (url_port u) then Inl Port_not_allowed
          else Inr u)"

definition resolveAndValidateHost :: "(string \<Rightarrow> string list option) \<Rightarrow> string \<Rightarrow> ssrf_code + string list" where
  "resolveAndValidateHost lookup hostname =
     (if List.member hostname (CHR '':'') \<or>
         (hostname \<noteq> [] \<and> list_all (\<lambda>c. is_digit c \<or> c = CHR ''.'') hostname)
      then (if isBlockedAddress hostname then Inl Blocked_address else Inr [hostname])
      else case lookup hostname of
        None \<Rightarrow> Inl Dns_failure
      | Some addresses \<Rightarrow>
          if addresses = [] then Inl Dns_failure
          else if list_ex isBlockedAddress addresses then Inl Blocked_address
          else Inr addresses)"

definition validateWebhookDestination ::
  "(string \<Rightarrow> url option) \<Rightarrow> (string \<Rightarrow> string list option) \<Rightarrow> bool \<Rightarrow> string \<Rightarrow> ssrf_code + url" where
  "validateWebhookDestination parse lookup requireHttps rawUrl =
     (case canonicalizeWebhookUrl parse rawUrl of
        Inl e \<Rightarrow> Inl e
      | Inr u \<Rightarrow>
          if requireHttps \<and> u_protocol u \<noteq> ''https:'' then Inl Scheme_not_allowed
          else case resolveAndValidateHost lookup (u_hostname u) of Inl e \<Rightarrow> Inl e | Inr _ \<Rightarrow> Inr u)"

fun validateWebhookUrls ::
  "(string \<Rightarrow> url option) \<Rightarrow> (string \<Rightarrow> string list option) \<Rightarrow> string list \<Rightarrow> string list \<Rightarrow> ssrf_code + unit" where
  "validateWebhookUrls parse lookup seen [] = Inr ()"
| "validateWebhookUrls parse lookup seen (u # us) =
     (case validateWebhookDestination parse lookup False u of
        Inl e \<Rightarrow> Inl e
      | Inr v \<Rightarrow>
          if List.member seen (u_href v) then Inl Duplicate_url
          else validateWebhookUrls parse lookup (seen @ [u_href v]) us)"

section \<open>The request\<close>

text \<open>
  The network's answer to one request: the redirect location, and the lengths of the chunks of the
  body if it is read as a stream.
\<close>

datatype answer = Timed_out | Fetch_error | Answer nat "string option" "nat list option"

text \<open>The resolver and the network may answer differently at every hop.\<close>

record network =
  n_lookup :: "nat \<Rightarrow> string \<Rightarrow> string list option"
  n_fetch :: "nat \<Rightarrow> string \<Rightarrow> string \<Rightarrow> answer"

fun read_body :: "nat \<Rightarrow> nat list \<Rightarrow> ssrf_code + nat" where
  "read_body received [] = Inr received"
| "read_body received (n # chunks) =
     (if received + n > MAX_RESPONSE_BYTES then Inl Response_too_large else read_body (received + n) chunks)"

text \<open>
  The result is the status and the bytes read (none if the body is not a stream); the list holds
  the requests that left, with their hop.
\<close>

function safeFetch ::
  "(string \<Rightarrow> url option) \<Rightarrow> network \<Rightarrow> nat \<Rightarrow> string \<Rightarrow> string \<Rightarrow>
   (ssrf_code + nat \<times> nat option) \<times> (nat \<times> url) list" where
  "safeFetch parse net hops meth rawUrl =
     (case validateWebhookDestination parse (n_lookup net hops) False rawUrl of
        Inl e \<Rightarrow> (Inl e, [])
      | Inr u \<Rightarrow>
          (case n_fetch net hops (u_href u) meth of
             Timed_out \<Rightarrow> (Inl Timeout, [(hops, u)])
           | Fetch_error \<Rightarrow> (Inl Request_failed, [(hops, u)])
           | Answer st location body \<Rightarrow>
               if List.member [301, 302, 303, 307, 308] st then
                 if hops \<ge> MAX_REDIRECTS then (Inl Too_many_redirects, [(hops, u)])
                 else if \<not> truthy location then (Inl Bad_redirect, [(hops, u)])
                 else (case safeFetch parse net (hops + 1) (if st = 303 then ''GET'' else meth)
                              (or_default location []) of
                         (r, reqs) \<Rightarrow> (r, (hops, u) # reqs))
               else (case body of
                 None \<Rightarrow> (Inr (st, None), [(hops, u)])
               | Some chunks \<Rightarrow>
                   (case read_body 0 chunks of
                      Inl e \<Rightarrow> (Inl e, [(hops, u)])
                    | Inr n \<Rightarrow> (Inr (st, Some n), [(hops, u)])))))"
  by pat_completeness auto
termination
  by (relation "measure (\<lambda>(_, _, hops, _, _). MAX_REDIRECTS - hops)") auto

declare safeFetch.simps [simp del]

section \<open>Dotted addresses\<close>

lemma nat_str_not_spec:
  "c \<in> set (nat_str n) \<Longrightarrow> is_digit c"
  using nat_str_digits by (auto simp: list_all_iff)

text \<open>An address in dotted decimal notation.\<close>

definition dotted :: "nat \<Rightarrow> nat \<Rightarrow> nat \<Rightarrow> nat \<Rightarrow> string" where
  "dotted a b c d = nat_str a @ ''.'' @ nat_str b @ ''.'' @ nat_str c @ ''.'' @ nat_str d"

lemma no_dot_nat_str: "CHR ''.'' \<notin> set (nat_str n)"
  using nat_str_not_spec is_digit_not_dot by blast

lemma split_dotted: "js_split (CHR ''.'') (dotted a b c d) = [nat_str a, nat_str b, nat_str c, nat_str d]"
  by (simp add: dotted_def js_split_at js_split_no_sep no_dot_nat_str)

lemma octet_nat_str: "n < 256 \<Longrightarrow> octet (js_number (nat_str n)) = Some n"
  by (simp add: digits_js_number nat_str_digits octet_def)

lemma parse_dotted:
  assumes "a < 256" "b < 256" "c < 256" "d < 256"
  shows "parseIPv4 (dotted a b c d) = Some [a, b, c, d]"
  using assms by (simp add: parseIPv4_def split_dotted octet_nat_str)

lemma bit_octet:
  assumes "b < 256" "bit (of_nat b :: 32 word) n"
  shows "n < 8"
proof (rule ccontr)
  assume "\<not> n < 8"
  then have "(256 :: nat) dvd 2 ^ n" using le_imp_power_dvd [of 8 n "2 :: nat"] by simp
  then have "256 \<le> (2 :: nat) ^ n" by (rule dvd_imp_le) simp
  then have "b div 2 ^ n = 0" using assms(1) by simp
  then have "\<not> bit b n" by (simp add: bit_iff_odd)
  then show False using assms(2) by (simp add: bit_of_nat_iff)
qed

lemma ipv4_value:
  assumes "a < 256" "b < 256" "c < 256" "d < 256"
  shows "ipv4ToInt [a, b, c, d] = of_nat (a * 2 ^ 24 + b * 2 ^ 16 + c * 2 ^ 8 + d)"
proof -
  let ?w = "\<lambda>n k. push_bit k (of_nat n) :: 32 word"
  have dis: "bit (?w n k) m \<Longrightarrow> n < 256 \<Longrightarrow> k \<le> m \<and> m < k + 8" for n k m
    using bit_octet [of n "m - k"] by (auto simp: bit_push_bit_iff)
  have d1: "\<not> bit (?w a 24) m" if "m < 24" for m using dis [of 24 a m] that assms by auto
  have d2: "\<not> bit (?w b 16) m" if "m < 16 \<or> 24 \<le> m" for m using dis [of 16 b m] that assms by auto
  have d3: "\<not> bit (?w c 8) m" if "m < 8 \<or> 16 \<le> m" for m using dis [of 8 c m] that assms by auto
  have d4: "\<not> bit (?w d 0) m" if "8 \<le> m" for m using dis [of 0 d m] that assms by auto
  have "ipv4ToInt [a, b, c, d] = ((?w a 24 OR ?w b 16) OR ?w c 8) OR of_nat d"
    by (simp add: ac_simps)
  also have "of_nat d = ?w d 0" by simp
  also have "((?w a 24 OR ?w b 16) OR ?w c 8) OR ?w d 0 = ((?w a 24 + ?w b 16) + ?w c 8) + ?w d 0"
  proof -
    have 1: "?w a 24 + ?w b 16 = ?w a 24 OR ?w b 16"
    proof (rule disjunctive_add)
      show "\<not> bit (?w a 24) n \<or> \<not> bit (?w b 16) n" for n by (cases "n < 24") (simp_all add: d1 d2)
    qed
    have 2: "(?w a 24 OR ?w b 16) + ?w c 8 = (?w a 24 OR ?w b 16) OR ?w c 8"
    proof (rule disjunctive_add)
      show "\<not> bit (?w a 24 OR ?w b 16) n \<or> \<not> bit (?w c 8) n" for n
        by (cases "n < 16") (simp_all add: bit_or_iff d1 d2 d3)
    qed
    have 3: "((?w a 24 OR ?w b 16) OR ?w c 8) + ?w d 0 = ((?w a 24 OR ?w b 16) OR ?w c 8) OR ?w d 0"
    proof (rule disjunctive_add)
      show "\<not> bit ((?w a 24 OR ?w b 16) OR ?w c 8) n \<or> \<not> bit (?w d 0) n" for n
        by (cases "n < 8") (simp_all add: bit_or_iff d1 d2 d3 d4 [simplified])
    qed
    show ?thesis by (simp only: 1 2 3)
  qed
  also have "\<dots> = of_nat (a * 2 ^ 24 + b * 2 ^ 16 + c * 2 ^ 8 + d)"
    by (simp add: push_bit_eq_mult)
  finally show ?thesis .
qed

lemma and_not_mask_eq:
  "x AND NOT (mask k) = y AND NOT (mask k) \<longleftrightarrow> drop_bit k x = drop_bit k y" for x y :: "32 word"
proof
  assume e: "x AND NOT (mask k) = y AND NOT (mask k)"
  show "drop_bit k x = drop_bit k y"
  proof (rule bit_eqI)
    fix n assume "possible_bit TYPE(32 word) n"
    have "bit (x AND NOT (mask k)) (k + n) = bit (y AND NOT (mask k)) (k + n)" using e by simp
    then show "bit (drop_bit k x) n = bit (drop_bit k y) n"
      by (auto simp: bit_drop_bit_eq bit_and_iff bit_not_iff bit_mask_iff dest: bit_imp_le_length)
  qed
next
  assume e: "drop_bit k x = drop_bit k y"
  show "x AND NOT (mask k) = y AND NOT (mask k)"
  proof (rule bit_eqI)
    fix n assume "possible_bit TYPE(32 word) n"
    have "bit x n = bit y n" if "k \<le> n"
    proof -
      have "bit (drop_bit k x) (n - k) = bit (drop_bit k y) (n - k)" using e by simp
      then show ?thesis using that by (simp add: bit_drop_bit_eq)
    qed
    then show "bit (x AND NOT (mask k)) n = bit (y AND NOT (mask k)) n"
      using \<open>possible_bit TYPE(32 word) n\<close> by (auto simp: bit_and_iff bit_not_iff bit_mask_iff)
  qed
qed

lemma range_mask_mask: "p \<noteq> 32 \<Longrightarrow> range_mask p = NOT (mask (nat ((32 - p) mod 32)))"
  by (simp add: range_mask_def js_shl_def mask_eq_exp_minus_1 push_bit_eq_mult)

lemma inRange_iff:
  assumes "m < 2 ^ 32" "m' < 2 ^ 32" "p \<noteq> 32"
  shows "inRange (of_nat m) (of_nat m') p \<longleftrightarrow>
    m div 2 ^ nat ((32 - p) mod 32) = m' div 2 ^ nat ((32 - p) mod 32)"
proof -
  let ?k = "nat ((32 - p) mod 32)"
  have u: "unat (drop_bit k (of_nat x :: 32 word)) = x div 2 ^ k" if "x < 2 ^ 32" for x k
    unfolding unat_drop_bit_eq by (subst of_nat_inverse) (use that in \<open>simp_all add: drop_bit_eq_div\<close>)
  have "drop_bit ?k (of_nat m :: 32 word) = drop_bit ?k (of_nat m') \<longleftrightarrow>
      unat (drop_bit ?k (of_nat m :: 32 word)) = unat (drop_bit ?k (of_nat m' :: 32 word))"
    by (simp add: word_unat_eq_iff)
  then show ?thesis
    unfolding inRange_def range_mask_mask [OF assms(3)] and_not_mask_eq
    by (simp only: u [OF assms(1)] u [OF assms(2)])
qed


text \<open>The ranges, as conditions on the octets.\<close>

lemma div_octets:
  fixes a b c d k :: nat
  assumes "b < 256" "c < 256" "d < 256"
  shows "(a * 2 ^ 24 + b * 2 ^ 16 + c * 2 ^ 8 + d) div 2 ^ (24 + k) = a div 2 ^ k"
    and "(a * 2 ^ 24 + b * 2 ^ 16 + c * 2 ^ 8 + d) div 2 ^ (16 + k) = (a * 256 + b) div 2 ^ k"
    and "(a * 2 ^ 24 + b * 2 ^ 16 + c * 2 ^ 8 + d) div 2 ^ (8 + k) = ((a * 256 + b) * 256 + c) div 2 ^ k"
    and "(a * 2 ^ 24 + b * 2 ^ 16 + c * 2 ^ 8 + d) div 2 ^ k = (((a * 256 + b) * 256 + c) * 256 + d) div 2 ^ k"
proof -
  let ?n = "a * 2 ^ 24 + b * 2 ^ 16 + c * 2 ^ 8 + d"
  have 1: "?n div 2 ^ 24 = a" using assms by simp
  have 2: "?n div 2 ^ 16 = a * 256 + b" using assms by simp
  have 3: "?n div 2 ^ 8 = (a * 256 + b) * 256 + c" using assms by simp
  show "?n div 2 ^ (24 + k) = a div 2 ^ k" unfolding power_add div_mult2_eq 1 ..
  show "?n div 2 ^ (16 + k) = (a * 256 + b) div 2 ^ k" unfolding power_add div_mult2_eq 2 ..
  show "?n div 2 ^ (8 + k) = ((a * 256 + b) * 256 + c) div 2 ^ k" unfolding power_add div_mult2_eq 3 ..
  have 4: "?n = ((a * 256 + b) * 256 + c) * 256 + d" by simp
  show "?n div 2 ^ k = (((a * 256 + b) * 256 + c) * 256 + d) div 2 ^ k" unfolding 4 ..
qed

declare ipv4ToInt.simps(1) [simp del]

lemma div_eq_bounds: "0 < k \<Longrightarrow> x div k = q \<longleftrightarrow> q * k \<le> x \<and> x < q * k + k" for x k q :: nat
proof
  assume "0 < k" "x div k = q"
  moreover have "x = x div k * k + x mod k" by simp
  ultimately show "q * k \<le> x \<and> x < q * k + k" using mod_less_divisor [of k x] by (metis le_add1 nat_add_left_cancel_less)
next
  assume "0 < k" "q * k \<le> x \<and> x < q * k + k"
  then show "x div k = q" by (intro div_nat_eqI) (simp_all add: mult.commute)
qed

lemma octet_interval:
  assumes "b < 256" "m \<le> (256 :: nat)"
  shows "base * 256 \<le> a * 256 + b \<and> a * 256 + b < base * 256 + m \<longleftrightarrow> a = base \<and> b < m"
proof (cases a base rule: linorder_cases)
  case less
  then have "Suc a * 256 \<le> base * 256" by (intro mult_le_mono1) simp
  with assms less show ?thesis by simp
next
  case greater
  then have "Suc base * 256 \<le> a * 256" by (intro mult_le_mono1) simp
  with assms greater show ?thesis by simp
qed (use assms in auto)

lemma in_base_range:
  assumes "a < 256" "b < 256" "c < 256" "d < 256" "base < 256" "p \<noteq> 32"
  shows "inRange (ipv4ToInt [a, b, c, d]) (ipv4ToInt [base, 0, 0, 0]) p \<longleftrightarrow>
    (a * 2 ^ 24 + b * 2 ^ 16 + c * 2 ^ 8 + d) div 2 ^ nat ((32 - p) mod 32) =
    (base * 2 ^ 24) div 2 ^ nat ((32 - p) mod 32)"
proof -
  have "ipv4ToInt [base, 0, 0, 0] = of_nat (base * 2 ^ 24)" using ipv4_value [OF assms(5), of 0 0 0] by simp
  moreover have "a * 2 ^ 24 + b * 2 ^ 16 + c * 2 ^ 8 + d < 2 ^ 32" "base * 2 ^ 24 < 2 ^ 32" using assms by simp_all
  ultimately show ?thesis using inRange_iff assms(6) by (simp only: ipv4_value [OF assms(1-4)])
qed

lemma list_ex_code: "list_ex P (x # xs) \<longleftrightarrow> P x \<or> list_ex P xs" "list_ex P [] \<longleftrightarrow> False"
  by simp_all

lemma blocked_octets:
  assumes "a < 256" "b < 256" "c < 256" "d < 256"
  shows "list_ex (\<lambda>(base, prefix). inRange (ipv4ToInt [a, b, c, d]) (ipv4ToInt [base, 0, 0, 0]) prefix) blocked_ranges
    \<longleftrightarrow> a \<in> {0, 10, 127, 192} \<or> 224 \<le> a \<or> a = 100 \<and> b < 64 \<or> a = 169 \<and> b = 0 \<or> a = 172 \<and> b < 16 \<or> a = 198 \<and> b < 2"
proof -
  let ?in = "\<lambda>base p. inRange (ipv4ToInt [a, b, c, d]) (ipv4ToInt [base, 0, 0, 0]) p"
  note r = in_base_range [OF assms]
  have b8: "?in base 8 \<longleftrightarrow> a = base" if "base < 256" for base
    using r [OF that, of 8] div_octets(1) [OF assms(2-4), of a 0] by simp
  have "?in 192 168 \<longleftrightarrow> a = 192"
    using r [of 192 168] div_octets(1) [OF assms(2-4), of a 0] by simp
  moreover have "?in 224 4 \<longleftrightarrow> 224 \<le> a \<and> a < 240"
  proof -
    have "?in 224 4 \<longleftrightarrow> a div 16 = 14"
      using r [of 224 4] div_octets(1) [OF assms(2-4), of a 4] by simp
    also have "\<dots> \<longleftrightarrow> 224 \<le> a \<and> a < 240" by (simp add: div_eq_bounds; presburger)
    finally show ?thesis .
  qed
  moreover have "?in 240 4 \<longleftrightarrow> 240 \<le> a"
  proof -
    have "?in 240 4 \<longleftrightarrow> a div 16 = 15"
      using r [of 240 4] div_octets(1) [OF assms(2-4), of a 4] by simp
    also have "\<dots> \<longleftrightarrow> 240 \<le> a" using assms(1) by (simp add: div_eq_bounds; presburger)
    finally show ?thesis .
  qed
  moreover have "?in 100 10 \<longleftrightarrow> a = 100 \<and> b < 64"
  proof -
    have "?in 100 10 \<longleftrightarrow> (a * 256 + b) div 64 = 400"
      using r [of 100 10] div_octets(2) [OF assms(2-4), of a 6] by simp
    also have "\<dots> \<longleftrightarrow> a = 100 \<and> b < 64"
      using octet_interval [OF assms(2), of 64 100 a] div_eq_bounds [of 64 "a * 256 + b" 400] by simp
    finally show ?thesis .
  qed
  moreover have "?in 169 16 \<longleftrightarrow> a = 169 \<and> b = 0"
  proof -
    have "?in 169 16 \<longleftrightarrow> a * 256 + b = 43264"
      using r [of 169 16] div_octets(2) [OF assms(2-4), of a 0] by simp
    also have "\<dots> \<longleftrightarrow> a = 169 \<and> b = 0"
      using octet_interval [OF assms(2), of 1 169 a] by auto
    finally show ?thesis .
  qed
  moreover have "?in 172 12 \<longleftrightarrow> a = 172 \<and> b < 16"
  proof -
    have "?in 172 12 \<longleftrightarrow> (a * 256 + b) div 16 = 2752"
      using r [of 172 12] div_octets(2) [OF assms(2-4), of a 4] by simp
    also have "\<dots> \<longleftrightarrow> a = 172 \<and> b < 16"
      using octet_interval [OF assms(2), of 16 172 a] div_eq_bounds [of 16 "a * 256 + b" 2752] by simp
    finally show ?thesis .
  qed
  moreover have "?in 198 15 \<longleftrightarrow> a = 198 \<and> b < 2"
  proof -
    have "?in 198 15 \<longleftrightarrow> (a * 256 + b) div 2 = 25344"
      using r [of 198 15] div_octets(2) [OF assms(2-4), of a 1] by simp
    also have "\<dots> \<longleftrightarrow> a = 198 \<and> b < 2"
      using octet_interval [OF assms(2), of 2 198 a] div_eq_bounds [of 2 "a * 256 + b" 25344] by simp
    finally show ?thesis .
  qed
  moreover have "?in 192 24 \<Longrightarrow> a = 192"
  proof -
    assume "?in 192 24"
    then have "(a * 256 + b) * 256 + c = 12582912"
      using r [of 192 24] div_octets(3) [OF assms(2-4), of a 0] by simp
    then have "a * 65536 + b * 256 + c = 12582912" by simp
    then have "a < 193" "191 < a" using assms(2,3) by linarith+
    then show "a = 192" by simp
  qed
  moreover have "?in 192 29 \<Longrightarrow> a = 192"
  proof -
    assume "?in 192 29"
    then have "(((a * 256 + b) * 256 + c) * 256 + d) div 8 = 402653184"
      using r [of 192 29] div_octets(4) [OF assms(2-4), of a 3] by simp
    then have "3221225472 \<le> ((a * 256 + b) * 256 + c) * 256 + d" "((a * 256 + b) * 256 + c) * 256 + d < 3221225480"
      by (simp_all add: div_eq_bounds)
    then have "3221225472 \<le> a * 16777216 + b * 65536 + c * 256 + d" "a * 16777216 + b * 65536 + c * 256 + d < 3221225480"
      by simp_all
    then have "a < 193" "191 < a" using assms(2,3,4) by linarith+
    then show "a = 192" by simp
  qed
  moreover have "224 \<le> a \<longleftrightarrow> (224 \<le> a \<and> a < 240) \<or> 240 \<le> a" by linarith
  moreover have "?in 0 8 \<longleftrightarrow> a = 0" "?in 10 8 \<longleftrightarrow> a = 10" "?in 127 8 \<longleftrightarrow> a = 127" by (simp_all add: b8)
  ultimately show ?thesis
    unfolding blocked_ranges_def list_ex_code prod.case insert_iff empty_iff by argo
qed


definition range_blocked :: "nat \<Rightarrow> nat \<Rightarrow> bool" where
  "range_blocked a b \<longleftrightarrow> a \<in> {0, 10, 127, 192} \<or> 224 \<le> a \<or> a = 100 \<and> b < 64 \<or> a = 169 \<and> b = 0 \<or>
     a = 172 \<and> b < 16 \<or> a = 198 \<and> b < 2"

lemma isBlockedIPv4_dotted:
  assumes "a < 256" "b < 256" "c < 256" "d < 256"
  shows "isBlockedIPv4 (dotted a b c d) \<longleftrightarrow>
    range_blocked a b \<or> dotted a b c d \<in> set metadata_addresses"
proof -
  have "list_ex (\<lambda>(base, prefix). inRange (ipv4ToInt [a, b, c, d]) (ipv4ToInt [base, 0, 0, 0]) prefix) blocked_ranges
      \<longleftrightarrow> range_blocked a b"
    unfolding range_blocked_def by (rule blocked_octets [OF assms])
  then show ?thesis by (simp add: isBlockedIPv4_def parse_dotted [OF assms] Let_def)
qed

lemma lower_dotted: "js_lower (dotted a b c d) = dotted a b c d"
proof -
  have "lower_char x = x" if "is_digit x \<or> x = CHR ''.''" for x
    using that by (auto simp: lower_char_def is_digit_def)
  moreover have "is_digit x \<or> x = CHR ''.''" if "x \<in> set (dotted a b c d)" for x
    using that nat_str_not_spec by (auto simp: dotted_def)
  ultimately show ?thesis unfolding js_lower_def by (intro map_idI) blast
qed

lemma dotted_chars: "x \<in> set (dotted a b c d) \<Longrightarrow> is_digit x \<or> x = CHR ''.''"
  using nat_str_not_spec by (auto simp: dotted_def)

lemma isBlockedAddress_dotted:
  "isBlockedAddress (dotted a b c d) = isBlockedIPv4 (dotted a b c d)"
proof -
  have ne: "dotted a b c d \<noteq> []" by (simp add: dotted_def)
  have colon: "CHR '':'' \<notin> set (dotted a b c d)"
    using dotted_chars by (force simp: is_digit_def)
  have dot: "CHR ''.'' \<in> set (dotted a b c d)" by (simp add: dotted_def)
  have "\<not> starts_with (dotted a b c d) ''::''"
    using colon by (cases "dotted a b c d") (auto simp: starts_with_def)
  then show ?thesis
    using ne colon dot by (simp add: isBlockedAddress_def lower_dotted stripIpv4Mapped_def Let_def)
qed

section \<open>Which addresses are blocked\<close>

text \<open>
  The guard as written blocks exactly these IPv4 addresses: the networks 0, 10, 127, 192 and everything from
  224 on, and of 100, 169, 172 and 198 only the lowest part (100.0/10, 169.0/16, 172.0/12,
  198.0/15), besides five listed metadata addresses.
\<close>
theorem blocked_exactly:
  assumes "a < 256" "b < 256" "c < 256" "d < 256"
  shows "isBlockedAddress (dotted a b c d) \<longleftrightarrow>
    a \<in> {0, 10, 127, 192} \<or> 224 \<le> a \<or> a = 100 \<and> b < 64 \<or> a = 169 \<and> b = 0 \<or> a = 172 \<and> b < 16 \<or>
    a = 198 \<and> b < 2 \<or> dotted a b c d \<in> set metadata_addresses"
proof -
  have "isBlockedAddress (dotted a b c d) \<longleftrightarrow> range_blocked a b \<or> dotted a b c d \<in> set metadata_addresses"
    using isBlockedIPv4_dotted [OF assms] isBlockedAddress_dotted by simp
  then show ?thesis unfolding range_blocked_def by blast
qed

theorem blocked_exactly_witness:
  "isBlockedAddress (dotted 127 0 0 1) \<and> isBlockedAddress (dotted 10 1 2 3) \<and> isBlockedAddress (dotted 192 168 1 1)"
  using blocked_exactly [of 127 0 0 1] blocked_exactly [of 10 1 2 3] blocked_exactly [of 192 168 1 1] by simp

text \<open>
  Hosts of private and link-local networks pass the guard: the private range 172.16/12, the
  carrier range 100.64/10, link-local addresses, and every IPv6 literal, which a parsed URL holds
  in brackets, the loopback address included.
\<close>
theorem private_hosts_pass:
  "resolveAndValidateHost lookup ''172.16.5.5'' = Inr [''172.16.5.5''] \<and>
   resolveAndValidateHost lookup ''100.64.0.1'' = Inr [''100.64.0.1''] \<and>
   resolveAndValidateHost lookup ''169.254.0.5'' = Inr [''169.254.0.5''] \<and>
   resolveAndValidateHost lookup ''[::1]'' = Inr [''[::1]''] \<and>
   resolveAndValidateHost lookup ''[fd00::1]'' = Inr [''[fd00::1]''] \<and> isBlockedAddress ''::1''"
proof -
  have "\<not> isBlockedAddress ''172.16.5.5''" "\<not> isBlockedAddress ''100.64.0.1''" "\<not> isBlockedAddress ''169.254.0.5''"
    "\<not> isBlockedAddress ''[::1]''" "\<not> isBlockedAddress ''[fd00::1]''" "isBlockedAddress ''::1''"
    by code_simp+
  moreover have "list_all (\<lambda>c. is_digit c \<or> c = CHR ''.'') ''172.16.5.5''"
    "list_all (\<lambda>c. is_digit c \<or> c = CHR ''.'') ''100.64.0.1''"
    "list_all (\<lambda>c. is_digit c \<or> c = CHR ''.'') ''169.254.0.5''"
    by code_simp+
  ultimately show ?thesis by (simp add: resolveAndValidateHost_def)
qed

section \<open>What the request may do\<close>

lemma read_body_bound: "read_body received chunks = Inr n \<Longrightarrow> received \<le> MAX_RESPONSE_BYTES \<Longrightarrow> n \<le> MAX_RESPONSE_BYTES"
  by (induction received chunks rule: read_body.induct) (auto split: if_splits)

lemma validated:
  "validateWebhookDestination parse lookup https link = Inr u \<Longrightarrow>
     u_protocol u \<in> set ALLOWED_SCHEMES \<and> u_username u = [] \<and> u_password u = [] \<and>
     url_port u \<in> set ALLOWED_PORTS \<and> (\<exists>as. resolveAndValidateHost lookup (u_hostname u) = Inr as)"
  unfolding validateWebhookDestination_def canonicalizeWebhookUrl_def
  by (auto split: sum.splits if_splits option.splits)

definition request_ok :: "network \<Rightarrow> nat \<times> url \<Rightarrow> bool" where
  "request_ok net r \<longleftrightarrow> (case r of (hop, u) \<Rightarrow>
     hop \<le> MAX_REDIRECTS \<and> u_protocol u \<in> set ALLOWED_SCHEMES \<and> u_username u = [] \<and> u_password u = [] \<and>
     url_port u \<in> set ALLOWED_PORTS \<and>
     (\<exists>as. resolveAndValidateHost (n_lookup net hop) (u_hostname u) = Inr as))"

lemma safeFetch_requests:
  "safeFetch parse net hops meth link = (r, reqs) \<Longrightarrow> hops \<le> MAX_REDIRECTS \<Longrightarrow>
     list_all (request_ok net) reqs \<and> length reqs + hops \<le> MAX_REDIRECTS + 1 \<and>
     (\<forall>st n. r = Inr (st, Some n) \<longrightarrow> n \<le> MAX_RESPONSE_BYTES)"
proof (induction parse net hops meth link arbitrary: r reqs rule: safeFetch.induct)
  case (1 parse net hops meth link)
  show ?case
  proof (cases "validateWebhookDestination parse (n_lookup net hops) False link")
    case (Inl e)
    then show ?thesis using "1.prems" by (auto simp: safeFetch.simps [of parse net hops])
  next
    case (Inr u)
    have ok: "request_ok net (hops, u)" using validated [OF Inr] "1.prems"(2) by (simp add: request_ok_def)
    show ?thesis
    proof (cases "n_fetch net hops (u_href u) meth")
      case (Answer st location body)
      show ?thesis
      proof (cases "st \<in> {301, 302, 303, 307, 308} \<and> hops < MAX_REDIRECTS \<and> truthy location")
        case True
        let ?m = "if st = 303 then ''GET'' else meth"
        obtain r' reqs' where rec: "safeFetch parse net (hops + 1) ?m (or_default location []) = (r', reqs')"
          by (cases "safeFetch parse net (hops + 1) ?m (or_default location [])")
        have "r = r' \<and> reqs = (hops, u) # reqs'"
          using "1.prems"(1) True Inr Answer rec by (simp add: safeFetch.simps [of parse net hops] split: if_splits)
        moreover have "list_all (request_ok net) reqs' \<and> length reqs' + (hops + 1) \<le> MAX_REDIRECTS + 1 \<and>
            (\<forall>st n. r' = Inr (st, Some n) \<longrightarrow> n \<le> MAX_RESPONSE_BYTES)"
          using "1.IH" [OF Inr Answer _ _ _ rec] True by auto
        ultimately show ?thesis using ok by simp
      next
        case False
        then have "reqs = [(hops, u)] \<and> (\<forall>st n. r = Inr (st, Some n) \<longrightarrow> n \<le> MAX_RESPONSE_BYTES)"
          using "1.prems"(1) Inr Answer read_body_bound [of 0]
          by (auto simp: safeFetch.simps [of parse net hops] split: if_splits option.splits sum.splits)
        then show ?thesis using ok "1.prems"(2) by simp
      qed
    qed (use "1.prems" Inr ok in \<open>auto simp: safeFetch.simps [of parse net hops]\<close>)
  qed
qed

text \<open>
  C34: whatever the resolver and the network answer, a delivery sends at most six requests, each
  to a URL of an allowed scheme and port, without credentials, whose host passed the address check
  at that hop, and it reads at most one MiB.
\<close>
theorem every_hop_is_checked:
  assumes "safeFetch parse net 0 meth link = (r, reqs)"
  shows "length reqs \<le> 6 \<and> (\<forall>(hop, u) \<in> set reqs.
      u_protocol u \<in> {''http:'', ''https:''} \<and> u_username u = [] \<and> u_password u = [] \<and>
      url_port u \<in> {80, 443, 8080, 8443} \<and>
      (\<exists>as. resolveAndValidateHost (n_lookup net hop) (u_hostname u) = Inr as)) \<and>
    (\<forall>st n. r = Inr (st, Some n) \<longrightarrow> n \<le> 1048576)"
  using safeFetch_requests [OF assms]
  by (auto simp: list_all_iff request_ok_def MAX_REDIRECTS_def MAX_RESPONSE_BYTES_def ALLOWED_SCHEMES_def
    ALLOWED_PORTS_def)

definition sample_url :: url where
  "sample_url = \<lparr>u_protocol = ''https:'', u_username = [], u_password = [], u_port = [], u_hostname = ''8.8.8.8'',
     u_href = ''https://8.8.8.8/''\<rparr>"

definition looping_net :: network where
  "looping_net = \<lparr>n_lookup = \<lambda>_ _. None, n_fetch = \<lambda>_ _ _. Answer 302 (Some ''x'') None\<rparr>"

lemma sample_url_valid: "validateWebhookDestination (\<lambda>_. Some sample_url) lookup False ''x'' = Inr sample_url"
proof -
  have "\<not> isBlockedAddress ''8.8.8.8''" "js_trim ''x'' \<noteq> []"
    "list_all (\<lambda>c. is_digit c \<or> c = CHR ''.'') ''8.8.8.8''"
    by code_simp+
  then show ?thesis
    by (simp add: validateWebhookDestination_def canonicalizeWebhookUrl_def resolveAndValidateHost_def
      sample_url_def ALLOWED_SCHEMES_def ALLOWED_PORTS_def url_port_def)
qed

theorem every_hop_is_checked_witness:
  "length (snd (safeFetch (\<lambda>_. Some sample_url) looping_net 0 ''POST'' ''x'')) = 6 \<and>
   length (snd (safeFetch (\<lambda>_. Some sample_url) looping_net 0 ''POST'' ''x'')) \<le> 6"
proof -
  have "length (snd (safeFetch (\<lambda>_. Some sample_url) looping_net 0 ''POST'' ''x'')) = 6"
    by (simp add: safeFetch.simps sample_url_valid looping_net_def MAX_REDIRECTS_def)
  moreover have "length (snd (safeFetch (\<lambda>_. Some sample_url) looping_net 0 ''POST'' ''x'')) \<le> 6"
    using every_hop_is_checked [of "\<lambda>_. Some sample_url" looping_net "''POST''" "''x''",
      OF prod.collapse [symmetric]] by blast
  ultimately show ?thesis by blast
qed

end
