(* ===== verification/SortContract.thy ===== *)
theory SortContract
  imports JsNumbers "HOL-Library.List_Lexorder" "HOL-Library.Char_ord" "HOL-Library.Product_Lexorder"
    "HOL-Library.Multiset"
begin

text \<open>
  \<open>src/lib/backend/sortContract.js\<close>: the deterministic order of records and events, pages, keyset
  pages and the executable check of an order. Comparators return integers as in the code;
  \<open>Array.prototype.sort\<close> is a stable sort by the comparator. A comparator compares keys
  (precedence, time, sequence, rank, identifier), so the facts of the library's \<open>sort_key\<close> apply.
\<close>

section \<open>Items\<close>

text \<open>
  A timestamp field holds a \<open>Date\<close> or a number (its value), a string, or something else, and so
  does a sequence number; the time of a string (\<open>new Date(s).getTime()\<close>) is the parameter
  \<open>date_of\<close>. Items are objects, identifiers and statuses are strings.
\<close>

datatype time_value = Time jsnum | Text string | No_time

record item =
  i_ids :: "string option list"   \<comment> \<open>\<open>_id\<close>, \<open>id\<close>, \<open>eventId\<close>, \<open>failureId\<close>\<close>
  i_isDeleted :: bool
  i_status :: "string option"
  i_moderationStatus :: "string option"
  i_visibility :: "string option"
  i_state :: "string option"
  i_outcome :: "string option"
  i_times :: "(string \<times> time_value) list"
  i_sequence :: time_value

definition STATUS_PRECEDENCE :: "(string \<times> int) list" where
  "STATUS_PRECEDENCE =
    [(''published'', 0), (''active'', 0), (''settled'', 0), (''completed'', 0),
     (''pending'', 1), (''draft'', 1), (''requested'', 1), (''approved'', 1), (''submitting'', 1),
     (''investigating'', 1), (''pending_approval'', 1),
     (''suspended'', 2), (''quarantined'', 2), (''appealed'', 2),
     (''archived'', 3), (''rejected'', 3), (''failed'', 3), (''denied'', 3), (''closed'', 3),
     (''deleted'', 4)]"

definition DEFAULT_PRECEDENCE :: int where "DEFAULT_PRECEDENCE = 5"

definition EVENT_STATUS_RANK :: "(string \<times> int) list" where
  "EVENT_STATUS_RANK =
    [(''requested'', 0), (''created'', 0), (''queued'', 0), (''pending'', 0), (''initiated'', 0),
     (''processing'', 1), (''in_progress'', 1), (''submitting'', 1), (''retrying'', 1), (''accepting'', 1),
     (''succeeded'', 2), (''completed'', 2), (''settled'', 2), (''applied'', 2), (''published'', 2),
     (''accepted'', 2), (''failed'', 2), (''rejected'', 2), (''denied'', 2), (''declined'', 2),
     (''cancelled'', 2), (''expired'', 2),
     (''rolled_back'', 3), (''reverted'', 3), (''refunded'', 3), (''compensated'', 3)]"

definition DEFAULT_EVENT_RANK :: int where "DEFAULT_EVENT_RANK = 4"

definition EVENT_TIMESTAMP_FIELDS :: "string list" where
  "EVENT_TIMESTAMP_FIELDS = [''occurredAt'', ''timestamp'', ''createdAt'', ''at'']"

definition lookupRank :: "(string \<times> int) list \<Rightarrow> string option \<Rightarrow> int \<Rightarrow> int" where
  "lookupRank tab rawStatus fallback =
     (if \<not> truthy rawStatus then fallback
      else let raw = or_default rawStatus [] in
        case map_of tab raw of Some n \<Rightarrow> n
        | None \<Rightarrow> (case map_of tab (js_lower (js_trim raw)) of Some n \<Rightarrow> n | None \<Rightarrow> fallback))"

fun finite_value :: "jsnum \<Rightarrow> rat option" where
  "finite_value (Fin r) = Some r"
| "finite_value _ = None"

fun parseTime :: "(string \<Rightarrow> jsnum) \<Rightarrow> time_value \<Rightarrow> rat option" where
  "parseTime date_of (Time x) = finite_value x"
| "parseTime date_of (Text s) = (if js_trim s \<noteq> [] then finite_value (date_of s) else None)"
| "parseTime date_of No_time = None"

definition time_field :: "(string \<Rightarrow> jsnum) \<Rightarrow> item \<Rightarrow> string \<Rightarrow> rat option" where
  "time_field date_of x f = (case map_of (i_times x) f of Some v \<Rightarrow> parseTime date_of v | None \<Rightarrow> None)"

text \<open>\<open>a ?? b\<close>: the first identifier that is present.\<close>

definition idOf :: "item \<Rightarrow> string" where
  "idOf x = (case find (\<lambda>i. i \<noteq> None) (i_ids x) of Some (Some s) \<Rightarrow> s | _ \<Rightarrow> [])"

section \<open>Comparators\<close>

definition compareIds :: "item \<Rightarrow> item \<Rightarrow> int" where
  "compareIds a b = (if idOf a < idOf b then - 1 else if idOf b < idOf a then 1 else 0)"

definition compareNullable :: "rat option \<Rightarrow> rat option \<Rightarrow> int \<Rightarrow> int" where
  "compareNullable a b direction =
     (case (a, b) of
        (None, None) \<Rightarrow> 0
      | (None, Some _) \<Rightarrow> 1
      | (Some _, None) \<Rightarrow> - 1
      | (Some x, Some y) \<Rightarrow> if x = y then 0 else (if x < y then - 1 else 1) * direction)"

text \<open>\<open>x || y\<close> on numbers: the first that is not zero.\<close>

definition or_cmp :: "int \<Rightarrow> int \<Rightarrow> int" where
  "or_cmp x y = (if x \<noteq> 0 then x else y)"

definition truthy_first :: "string option list \<Rightarrow> string option" where
  "truthy_first xs = (case find truthy xs of Some s \<Rightarrow> s | None \<Rightarrow> None)"

definition nullish_first :: "string option list \<Rightarrow> string option" where
  "nullish_first xs = (case find (\<lambda>s. s \<noteq> None) xs of Some s \<Rightarrow> s | None \<Rightarrow> None)"

definition recordPrecedence :: "(string \<times> int) list \<Rightarrow> item \<Rightarrow> int" where
  "recordPrecedence tab r =
     (if i_isDeleted r then 4
      else lookupRank tab (truthy_first [i_status r, i_moderationStatus r, i_visibility r]) DEFAULT_PRECEDENCE)"

record sort_options =
  timestampField :: "string option"
  descending :: bool
  rank_table :: "(string \<times> int) list"
  date_of :: "string \<Rightarrow> jsnum"

definition direction :: "sort_options \<Rightarrow> int" where
  "direction opt = (if descending opt then - 1 else 1)"

definition createRecordComparator :: "sort_options \<Rightarrow> item \<Rightarrow> item \<Rightarrow> int" where
  "createRecordComparator opt a b =
     (let f = or_default (timestampField opt) ''createdAt'' in
      or_cmp (recordPrecedence (rank_table opt) a - recordPrecedence (rank_table opt) b)
        (or_cmp (compareNullable (time_field (date_of opt) a f) (time_field (date_of opt) b f) (direction opt))
          (compareIds a b)))"

fun first_time :: "(string \<Rightarrow> jsnum) \<Rightarrow> item \<Rightarrow> string list \<Rightarrow> rat option" where
  "first_time d x [] = None"
| "first_time d x (f # fs) = (case time_field d x f of Some t \<Rightarrow> Some t | None \<Rightarrow> first_time d x fs)"

definition eventTime :: "sort_options \<Rightarrow> item \<Rightarrow> rat option" where
  "eventTime opt x =
     (if truthy (timestampField opt) then time_field (date_of opt) x (or_default (timestampField opt) [])
      else first_time (date_of opt) x EVENT_TIMESTAMP_FIELDS)"

definition eventSequence :: "item \<Rightarrow> rat option" where
  "eventSequence x =
     (case i_sequence x of Time v \<Rightarrow> finite_value v
      | Text s \<Rightarrow> if js_trim s \<noteq> [] then finite_value (js_number s) else None
      | No_time \<Rightarrow> None)"

definition event_rank :: "sort_options \<Rightarrow> item \<Rightarrow> int" where
  "event_rank opt x = lookupRank (rank_table opt) (nullish_first [i_status x, i_state x, i_outcome x]) DEFAULT_EVENT_RANK"

definition createEventComparator :: "sort_options \<Rightarrow> item \<Rightarrow> item \<Rightarrow> int" where
  "createEventComparator opt a b =
     or_cmp (compareNullable (eventTime opt a) (eventTime opt b) (direction opt))
       (or_cmp (compareNullable (eventSequence a) (eventSequence b) (direction opt))
         (or_cmp ((event_rank opt a - event_rank opt b) * direction opt) (compareIds a b)))"

datatype kind = Records | Events

fun comparatorFor :: "kind \<Rightarrow> sort_options \<Rightarrow> item \<Rightarrow> item \<Rightarrow> int" where
  "comparatorFor Records opt = createRecordComparator opt"
| "comparatorFor Events opt = createEventComparator opt"

section \<open>Sorting\<close>

fun insert_by :: "('a \<Rightarrow> 'a \<Rightarrow> int) \<Rightarrow> 'a \<Rightarrow> 'a list \<Rightarrow> 'a list" where
  "insert_by cmp x [] = [x]"
| "insert_by cmp x (y # ys) = (if cmp x y \<le> 0 then x # y # ys else y # insert_by cmp x ys)"

definition sortWith :: "('a \<Rightarrow> 'a \<Rightarrow> int) \<Rightarrow> 'a list \<Rightarrow> 'a list" where
  "sortWith cmp xs = foldr (insert_by cmp) xs []"

definition sortRecords :: "sort_options \<Rightarrow> item list \<Rightarrow> item list" where
  "sortRecords opt xs = sortWith (createRecordComparator opt) xs"

definition sortEvents :: "sort_options \<Rightarrow> item list \<Rightarrow> item list" where
  "sortEvents opt xs = sortWith (createEventComparator opt) xs"

section \<open>Pages\<close>

record page =
  items :: "item list"
  page_number :: int
  total :: nat
  totalPages :: int

definition paginateRecords :: "sort_options \<Rightarrow> (item \<Rightarrow> bool) \<Rightarrow> int \<Rightarrow> nat \<Rightarrow> item list \<Rightarrow> page" where
  "paginateRecords opt isVisible n pageSize xs =
     (let sorted = sortRecords opt (filter isVisible xs);
          pages = max 1 (int ((length sorted + pageSize - 1) div pageSize));
          current = max 1 (min n pages);
          start = nat (current - 1) * pageSize in
      \<lparr>items = take pageSize (drop start sorted), page_number = current, total = length sorted,
       totalPages = pages\<rparr>)"

record keyset_page =
  k_items :: "item list"
  nextAfter :: "item option"
  hasMore :: bool

definition page_by :: "(item \<Rightarrow> item \<Rightarrow> int) \<Rightarrow> (item \<Rightarrow> bool) \<Rightarrow> item option \<Rightarrow> nat \<Rightarrow> item list \<Rightarrow> keyset_page" where
  "page_by cmp isVisible after limit xs =
     (let sorted = sortWith cmp (filter isVisible xs);
          remaining = (case after of None \<Rightarrow> sorted | Some a \<Rightarrow> dropWhile (\<lambda>x. \<not> cmp x a > 0) sorted);
          its = take (max 1 limit) remaining in
      \<lparr>k_items = its, nextAfter = (if its = [] then None else Some (last its)),
       hasMore = length remaining > length its\<rparr>)"

definition pageAfter :: "kind \<Rightarrow> sort_options \<Rightarrow> (item \<Rightarrow> bool) \<Rightarrow> item option \<Rightarrow> nat \<Rightarrow> item list \<Rightarrow> keyset_page" where
  "pageAfter knd opt = page_by (comparatorFor knd opt)"

text \<open>A client that follows \<open>nextAfter\<close> while \<open>hasMore\<close>, for at most \<open>n\<close> pages.\<close>

fun walk :: "(item option \<Rightarrow> keyset_page) \<Rightarrow> nat \<Rightarrow> item option \<Rightarrow> item list" where
  "walk get 0 after = []"
| "walk get (Suc n) after =
     (let p = get after in k_items p @ (if hasMore p then walk get n (nextAfter p) else []))"

section \<open>The check of an order\<close>

record ordering_report =
  ok :: bool
  outOfOrder :: "nat list"
  duplicateIds :: "string list"

fun out_of_order :: "('a \<Rightarrow> 'a \<Rightarrow> int) \<Rightarrow> nat \<Rightarrow> 'a list \<Rightarrow> nat list" where
  "out_of_order cmp n (x # y # xs) =
     (if cmp x y > 0 then [Suc n] else []) @ out_of_order cmp (Suc n) (y # xs)"
| "out_of_order cmp n _ = []"

fun duplicate_ids :: "string list \<Rightarrow> string list \<Rightarrow> item list \<Rightarrow> string list" where
  "duplicate_ids seen dups [] = dups"
| "duplicate_ids seen dups (x # xs) =
     (let i = idOf x in
      duplicate_ids (seen @ [i]) (if i \<in> set seen \<and> i \<notin> set dups then dups @ [i] else dups) xs)"

definition verifyOrdering :: "kind \<Rightarrow> sort_options \<Rightarrow> item list \<Rightarrow> ordering_report" where
  "verifyOrdering knd opt xs =
     (let o1 = out_of_order (comparatorFor knd opt) 0 xs; d = duplicate_ids [] [] xs in
      \<lparr>ok = (o1 = [] \<and> d = []), outOfOrder = o1, duplicateIds = d\<rparr>)"

section \<open>Comparators compare keys\<close>

text \<open>The interface the sorting relies on: a comparator that orders by a key.\<close>

locale key_comparator =
  fixes cmp :: "'a \<Rightarrow> 'a \<Rightarrow> int" and key :: "'a \<Rightarrow> 'k :: linorder"
  assumes le_iff: "cmp x y \<le> 0 \<longleftrightarrow> key x \<le> key y"
begin

lemma gt_iff: "0 < cmp x y \<longleftrightarrow> key y < key x"
  using le_iff [of x y] by (simp add: not_le [symmetric])

lemma insert_by_insort: "insert_by cmp x xs = insort_key key x xs"
  by (induction xs) (simp_all add: le_iff)

lemma sortWith_sort_key: "sortWith cmp xs = sort_key key xs"
  unfolding sortWith_def sort_key_def by (induction xs) (simp_all add: insert_by_insort)

lemma sortWith_perm: "mset (sortWith cmp xs) = mset xs"
  by (simp add: sortWith_sort_key)

lemma sortWith_length [simp]: "length (sortWith cmp xs) = length xs"
  by (simp add: sortWith_sort_key)

text \<open>The order does not depend on the order of the input, when keys are distinct.\<close>

lemma sortWith_deterministic:
  assumes "mset xs = mset ys" "inj_on key (set xs)"
  shows "sortWith cmp xs = sortWith cmp ys"
  using assms by (simp add: sortWith_sort_key sort_key_inj_key_eq)

lemma sortWith_filter: "sortWith cmp (filter P xs) = filter P (sortWith cmp xs)"
  by (simp add: sortWith_sort_key filter_sort)

text \<open>What follows an item in key order is a tail of the sorted list.\<close>

lemma dropWhile_sorted:
  "dropWhile (\<lambda>x. \<not> cmp x a > 0) (sortWith cmp xs) = filter (\<lambda>x. key a < key x) (sortWith cmp xs)"
proof -
  have "sorted (map key ys) \<Longrightarrow> dropWhile (\<lambda>x. \<not> key a < key x) ys = filter (\<lambda>x. key a < key x) ys" for ys
  proof (induction ys)
    case (Cons y ys)
    show ?case
    proof (cases "key a < key y")
      case True
      with Cons.prems have "\<forall>x \<in> set ys. key a < key x" by auto
      with True show ?thesis by (simp add: filter_id_conv [THEN iffD2])
    next
      case False
      with Cons show ?thesis by simp
    qed
  qed simp
  then show ?thesis by (simp add: gt_iff sortWith_sort_key)
qed

lemma out_of_order_iff: "out_of_order cmp n xs = [] \<longleftrightarrow> sorted (map key xs)"
proof (induction xs arbitrary: n rule: induct_list012)
  case (3 x y zs)
  then show ?case by (auto simp: gt_iff not_less)
qed simp_all

lemma sortWith_idem: "sortWith cmp (sortWith cmp xs) = sortWith cmp xs"
  by (simp add: sortWith_sort_key sort_key_id_if_sorted)

lemma fixed_iff: "out_of_order cmp n xs = [] \<longleftrightarrow> sortWith cmp xs = xs"
proof
  assume "sortWith cmp xs = xs"
  then have "sort_key key xs = xs" by (simp only: sortWith_sort_key)
  then show "out_of_order cmp n xs = []" unfolding out_of_order_iff by (metis sorted_sort_key)
qed (simp add: out_of_order_iff sortWith_sort_key sort_key_id_if_sorted)

lemma distinct_map_sortWith: "distinct (map f (sortWith cmp xs)) \<longleftrightarrow> distinct (map f xs)"
  by (rule mset_eq_imp_distinct_iff) (simp add: sortWith_perm)

end

text \<open>Keyset pages of items, in a locale of its own as pages hold items.\<close>

locale item_comparator = key_comparator cmp key
  for cmp :: "item \<Rightarrow> item \<Rightarrow> int" and key :: "item \<Rightarrow> 'k :: linorder" +
  assumes key_inj: "inj_on idOf S \<Longrightarrow> inj_on key S"
begin

lemma items_after:
  "k_items (page_by cmp vis (Some a) limit xs) =
     take (max 1 limit) (sortWith cmp (filter (\<lambda>x. vis x \<and> 0 < cmp x a) xs))"
proof -
  have "filter (\<lambda>x. key a < key x) (sortWith cmp (filter vis xs)) =
      sortWith cmp (filter (\<lambda>x. vis x \<and> 0 < cmp x a) xs)"
    unfolding sortWith_filter [symmetric] by (simp add: gt_iff conj_commute)
  then show ?thesis by (simp add: page_by_def dropWhile_sorted Let_def)
qed

text \<open>A page after \<open>a\<close> depends only on the visible items that follow \<open>a\<close>.\<close>

lemma page_depends_on_rest:
  assumes "filter_mset (\<lambda>x. vis x \<and> 0 < cmp x a) (mset xs) = filter_mset (\<lambda>x. vis x \<and> 0 < cmp x a) (mset ys)"
    and "inj_on idOf {x \<in> set xs. vis x}"
  shows "page_by cmp vis (Some a) limit xs = page_by cmp vis (Some a) limit ys"
proof -
  let ?P = "\<lambda>x. vis x \<and> 0 < cmp x a"
  have m: "mset (filter ?P xs) = mset (filter ?P ys)" using assms(1) by simp
  have "inj_on idOf (set (filter ?P xs))" by (rule inj_on_subset [OF assms(2)]) auto
  then have s: "sortWith cmp (filter ?P xs) = sortWith cmp (filter ?P ys)"
    by (intro sortWith_deterministic m key_inj)
  have rest: "dropWhile (\<lambda>x. \<not> 0 < cmp x a) (sortWith cmp (filter vis zs)) = sortWith cmp (filter ?P zs)" for zs
    unfolding dropWhile_sorted sortWith_filter [symmetric] by (simp add: gt_iff conj_commute)
  show ?thesis unfolding page_by_def Let_def option.case rest s ..
qed

text \<open>From an item of a strictly ordered list, what follows it is the rest of the list.\<close>

lemma rest_after:
  assumes "sortWith cmp zs = us @ a # vs" "distinct (map idOf zs)"
  shows "dropWhile (\<lambda>x. \<not> 0 < cmp x a) (sortWith cmp zs) = vs"
proof -
  have d: "distinct (map key (us @ a # vs))"
  proof -
    have "distinct (map idOf (us @ a # vs))"
      using assms distinct_map_sortWith [of idOf zs] by simp
    then have "distinct (us @ a # vs)" "inj_on idOf (set (us @ a # vs))" by (simp_all only: distinct_map)
    then show ?thesis using key_inj by (simp only: distinct_map)
  qed
  moreover have "sorted (map key (us @ a # vs))" using assms(1) sortWith_sort_key [of zs] by (metis sorted_sort_key)
  ultimately have "\<forall>u \<in> set us. key u \<le> key a" "\<forall>v \<in> set vs. key a < key v"
    by (auto simp: sorted_append order_le_less)
  then have "filter (\<lambda>x. key a < key x) (us @ a # vs) = vs" by (auto simp: filter_empty_conv not_less filter_id_conv)
  moreover note dropWhile_sorted [of a zs]
  ultimately show ?thesis by (simp only: assms(1))
qed

lemma walk_rest:
  assumes "distinct (map idOf (filter vis xs))"
    and "sortWith cmp (filter vis xs) = us @ vs"
    and "after = (if us = [] then None else Some (last us))"
    and "length vs \<le> n"
  shows "walk (\<lambda>a. page_by cmp vis a limit xs) n after = vs"
  using assms(2-4)
proof (induction n arbitrary: us vs after)
  case (Suc n)
  let ?s = "sortWith cmp (filter vis xs)"
  have rem: "(case after of None \<Rightarrow> ?s | Some a \<Rightarrow> dropWhile (\<lambda>x. \<not> 0 < cmp x a) ?s) = vs"
  proof (cases "us = []")
    case False
    then have "?s = butlast us @ last us # vs" using Suc.prems(1) by simp
    from rest_after [OF this assms(1)] show ?thesis using False Suc.prems(2) by simp
  qed (use Suc.prems in simp)
  let ?its = "take (max 1 limit) vs"
  have page: "page_by cmp vis after limit xs =
      \<lparr>k_items = ?its, nextAfter = (if ?its = [] then None else Some (last ?its)), hasMore = length vs > length ?its\<rparr>"
    unfolding page_by_def Let_def rem ..
  show ?case
  proof (cases "length vs > max 1 limit")
    case True
    then have ne: "vs \<noteq> []" "?its \<noteq> []" by auto
    have "walk (\<lambda>a. page_by cmp vis a limit xs) n (Some (last ?its)) = drop (max 1 limit) vs"
      using Suc.prems ne True by (intro Suc.IH [of "us @ ?its"]) (auto simp: last_append)
    then show ?thesis using True ne by (simp add: page min_def)
  next
    case False
    then have "length vs \<le> max 1 limit" by linarith
    then have "?its = vs" by simp
    then show ?thesis by (simp add: page)
  qed
qed simp

lemma walk_all:
  "distinct (map idOf (filter vis xs)) \<Longrightarrow> length (filter vis xs) \<le> n \<Longrightarrow>
    walk (\<lambda>a. page_by cmp vis a limit xs) n None = sortWith cmp (filter vis xs)"
  by (rule walk_rest [of _ _ "[]"]) simp_all

end

definition time_key :: "int \<Rightarrow> rat option \<Rightarrow> int \<times> rat" where
  "time_key dir t = (case t of None \<Rightarrow> (1, 0) | Some x \<Rightarrow> (0, of_int dir * x))"

definition record_key :: "sort_options \<Rightarrow> item \<Rightarrow> int \<times> (int \<times> rat) \<times> string" where
  "record_key opt x =
     (recordPrecedence (rank_table opt) x,
      time_key (direction opt) (time_field (date_of opt) x (or_default (timestampField opt) ''createdAt'')),
      idOf x)"

definition event_key :: "sort_options \<Rightarrow> item \<Rightarrow> (int \<times> rat) \<times> (int \<times> rat) \<times> int \<times> string" where
  "event_key opt x =
     (time_key (direction opt) (eventTime opt x), time_key (direction opt) (eventSequence x),
      event_rank opt x * direction opt, idOf x)"

lemma direction_cases: "direction opt = 1 \<or> direction opt = - 1"
  by (simp add: direction_def)

text \<open>Sign of a comparison of keys, composed lexicographically.\<close>

definition agrees :: "int \<Rightarrow> 'k :: linorder \<Rightarrow> 'k \<Rightarrow> bool" where
  "agrees c x y \<longleftrightarrow> (c < 0 \<longleftrightarrow> x < y) \<and> (c = 0 \<longleftrightarrow> x = y)"

lemma agrees_le: "agrees c x y \<Longrightarrow> c \<le> 0 \<longleftrightarrow> x \<le> y"
  by (auto simp: agrees_def order_le_less)

lemma agrees_or: "agrees c x y \<Longrightarrow> agrees c' x' y' \<Longrightarrow> agrees (or_cmp c c') (x, x') (y, y')"
  by (auto simp: agrees_def or_cmp_def)

lemma agrees_diff: "agrees (a - b) a b" for a b :: int
  by (auto simp: agrees_def)

lemma agrees_ids: "agrees (compareIds a b) (idOf a) (idOf b)"
proof (cases rule: linorder_cases [of "idOf a" "idOf b"])
  case greater
  then show ?thesis by (simp add: agrees_def compareIds_def less_imp_not_less less_imp_neq [THEN not_sym])
qed (simp_all add: agrees_def compareIds_def)

lemma agrees_nullable:
  assumes "dir = 1 \<or> dir = - 1"
  shows "agrees (compareNullable a b dir) (time_key dir a) (time_key dir b)"
proof (cases a)
  case None
  then show ?thesis by (cases b) (simp_all add: agrees_def compareNullable_def time_key_def)
next
  case a: (Some x)
  show ?thesis
  proof (cases b)
    case None
    with a show ?thesis by (simp add: agrees_def compareNullable_def time_key_def)
  next
    case b: (Some y)
    from assms show ?thesis
    proof
      assume "dir = 1"
      with a b show ?thesis by (simp add: agrees_def compareNullable_def time_key_def)
    next
      assume "dir = - 1"
      moreover have "x < y \<or> x = y \<or> y < x" by (rule less_linear)
      ultimately show ?thesis
        using a b by (elim disjE) (simp_all add: agrees_def compareNullable_def time_key_def)
    qed
  qed
qed

lemma agrees_scaled:
  assumes "dir = 1 \<or> dir = - 1"
  shows "agrees ((a - b) * dir) (a * dir) (b * dir)"
  using assms by (auto simp: agrees_def)

lemma record_agrees: "agrees (createRecordComparator opt a b) (record_key opt a) (record_key opt b)"
  unfolding createRecordComparator_def record_key_def Let_def
  by (intro agrees_or agrees_diff agrees_nullable agrees_ids direction_cases)

lemma event_agrees: "agrees (createEventComparator opt a b) (event_key opt a) (event_key opt b)"
  unfolding createEventComparator_def event_key_def
  by (intro agrees_or agrees_scaled agrees_nullable agrees_ids direction_cases)

lemma record_key_inj: "inj_on idOf S \<Longrightarrow> inj_on (record_key opt) S"
  by (auto simp: inj_on_def record_key_def)

lemma event_key_inj: "inj_on idOf S \<Longrightarrow> inj_on (event_key opt) S"
  by (auto simp: inj_on_def event_key_def)

interpretation records: item_comparator "createRecordComparator opt" "record_key opt" for opt
  by unfold_locales (auto intro: record_key_inj simp: agrees_le [OF record_agrees])

interpretation events: item_comparator "createEventComparator opt" "event_key opt" for opt
  by unfold_locales (auto intro: event_key_inj simp: agrees_le [OF event_agrees])

section \<open>Properties\<close>

text \<open>
  C35: Whatever order the database or a retry returned the items in, the sorted list is the same
  list, provided identifiers are distinct, and a viewer's filter never changes the relative order
  of the items that are left: filtering before sorting and after it agree.
\<close>

theorem order_is_canonical:
  assumes "mset xs = mset ys" "inj_on idOf (set xs)"
  shows "sortRecords opt xs = sortRecords opt ys \<and> sortEvents opt xs = sortEvents opt ys
    \<and> sortRecords opt (filter vis xs) = filter vis (sortRecords opt ys)
    \<and> sortEvents opt (filter vis xs) = filter vis (sortEvents opt ys)"
  unfolding sortRecords_def sortEvents_def records.sortWith_filter events.sortWith_filter
  using records.sortWith_deterministic [OF assms(1) record_key_inj [OF assms(2)]]
    events.sortWith_deterministic [OF assms(1) event_key_inj [OF assms(2)]] by simp

definition sample :: "string \<Rightarrow> string \<Rightarrow> rat \<Rightarrow> item" where
  "sample i st t =
     \<lparr>i_ids = [Some i], i_isDeleted = False, i_status = Some st, i_moderationStatus = None, i_visibility = None,
      i_state = None, i_outcome = None, i_times = [(''createdAt'', Time (Fin t))], i_sequence = No_time\<rparr>"

definition sample_options :: sort_options where
  "sample_options = \<lparr>timestampField = None, descending = True, rank_table = STATUS_PRECEDENCE, date_of = (\<lambda>_. NaN)\<rparr>"

theorem order_is_canonical_witness:
  "sortRecords sample_options [sample ''b'' ''draft'' 5, sample ''a'' ''active'' 7] =
     sortRecords sample_options [sample ''a'' ''active'' 7, sample ''b'' ''draft'' 5]
   \<and> sortRecords sample_options [sample ''b'' ''draft'' 5, sample ''a'' ''active'' 7] \<noteq>
     [sample ''b'' ''draft'' 5, sample ''a'' ''active'' 7]"
proof
  show "sortRecords sample_options [sample ''b'' ''draft'' 5, sample ''a'' ''active'' 7] =
     sortRecords sample_options [sample ''a'' ''active'' 7, sample ''b'' ''draft'' 5]"
    using order_is_canonical [of "[sample ''b'' ''draft'' 5, sample ''a'' ''active'' 7]"
        "[sample ''a'' ''active'' 7, sample ''b'' ''draft'' 5]" sample_options "\<lambda>_. True"]
    by (simp add: sample_def idOf_def)
qed code_simp

text \<open>
  C36: Keyset paging neither skips nor repeats: a client that follows \<open>nextAfter\<close> while
  \<open>hasMore\<close> gets exactly the visible items, once each and in contract order, within as many
  pages as there are visible items; and a page after an item depends only on the visible items
  that follow it, so items inserted or removed earlier (that item included) change nothing.
\<close>

theorem keyset_paging_is_complete:
  assumes "distinct (map idOf (filter vis xs))"
  shows "(length (filter vis xs) \<le> n \<longrightarrow>
      walk (\<lambda>a. pageAfter knd opt vis a limit xs) n None = sortWith (comparatorFor knd opt) (filter vis xs))
    \<and> (filter_mset (\<lambda>x. vis x \<and> 0 < comparatorFor knd opt x a) (mset xs) =
        filter_mset (\<lambda>x. vis x \<and> 0 < comparatorFor knd opt x a) (mset ys) \<longrightarrow>
       pageAfter knd opt vis (Some a) limit xs = pageAfter knd opt vis (Some a) limit ys)"
proof -
  have "inj_on idOf {x \<in> set xs. vis x}" using assms by (simp add: distinct_map)
  then show ?thesis
    unfolding pageAfter_def
    by (cases knd) (auto intro: records.walk_all events.walk_all records.page_depends_on_rest
        events.page_depends_on_rest assms)
qed

theorem keyset_paging_is_complete_witness:
  "walk (\<lambda>a. pageAfter Records sample_options (\<lambda>_. True) a 1
      [sample ''b'' ''draft'' 5, sample ''a'' ''active'' 7, sample ''c'' ''draft'' 9]) 3 None
   = [sample ''a'' ''active'' 7, sample ''c'' ''draft'' 9, sample ''b'' ''draft'' 5]"
proof -
  let ?xs = "[sample ''b'' ''draft'' 5, sample ''a'' ''active'' 7, sample ''c'' ''draft'' 9]"
  have "distinct (map idOf (filter (\<lambda>_. True) ?xs))" by (simp add: sample_def idOf_def)
  then have "walk (\<lambda>a. pageAfter Records sample_options (\<lambda>_. True) a 1 ?xs) 3 None =
      sortWith (comparatorFor Records sample_options) ?xs"
    using keyset_paging_is_complete [of "\<lambda>_. True" ?xs 3 Records sample_options 1] by simp
  also have "\<dots> = [sample ''a'' ''active'' 7, sample ''c'' ''draft'' 9, sample ''b'' ''draft'' 5]" by code_simp
  finally show ?thesis .
qed

lemma concat_chunks:
  assumes "0 < k"
  shows "concat (map (\<lambda>i. take k (drop (i * k) xs)) [0..<n]) = take (n * k) xs"
proof (induction n)
  case (Suc n)
  then show ?case by (simp add: take_add [symmetric] add.commute)
qed simp

lemma upto_from_one: "[1..int n] = map (\<lambda>i. 1 + int i) [0..<n]"
  by (rule nth_equalityI) simp_all

text \<open>
  The numbered pages, from the first to \<open>totalPages\<close>, put together are the sorted visible
  records; no page is longer than \<open>pageSize\<close>, counts tell nothing of hidden records, and a page
  number out of range is the nearest page.
\<close>

theorem pages_partition_the_order:
  fixes pageSize :: nat
  assumes "0 < pageSize"
  shows "(let page = \<lambda>n. paginateRecords opt vis n pageSize xs; last_page = totalPages (page 1) in
      1 \<le> last_page
      \<and> concat (map (\<lambda>n. items (page n)) [1..last_page]) = sortRecords opt (filter vis xs)
      \<and> (\<forall>n. length (items (page n)) \<le> pageSize \<and> totalPages (page n) = last_page
            \<and> total (page n) = length (filter vis xs)
            \<and> page n = page (max 1 (min n last_page))))"
proof -
  let ?s = "sortRecords opt (filter vis xs)"
  let ?k = "(length ?s + pageSize - 1) div pageSize"
  let ?page = "\<lambda>n. paginateRecords opt vis n pageSize xs"
  define l where "l = max 1 ?k"
  have l: "max 1 (int ?k) = int l" by (simp add: l_def of_nat_max)
  have page_n: "?page n =
      (let c = max 1 (min n (int l)) in
       \<lparr>items = take pageSize (drop (nat (c - 1) * pageSize) ?s), page_number = c, total = length ?s,
        totalPages = int l\<rparr>)" for n
    unfolding paginateRecords_def Let_def l ..
  have last: "totalPages (?page n) = int l" for n by (simp add: page_n Let_def)
  have page: "items (?page (1 + int i)) = take pageSize (drop (i * pageSize) ?s)" if "i < l" for i
  proof -
    have "max 1 (min (1 + int i) (int l)) = 1 + int i" using that by linarith
    then show ?thesis by (simp add: page_n Let_def)
  qed
  have "length ?s \<le> l * pageSize"
  proof -
    have "length ?s \<le> ?k * pageSize"
      using assms div_mult_mod_eq [of "length ?s + pageSize - 1" pageSize]
        mod_less_divisor [OF assms, of "length ?s + pageSize - 1"] by linarith
    also have "\<dots> \<le> l * pageSize" unfolding l_def by (rule mult_le_mono1) simp
    finally show ?thesis .
  qed
  moreover have "map (\<lambda>n. items (?page n)) [1..int l] = map (\<lambda>i. take pageSize (drop (i * pageSize) ?s)) [0..<l]"
    unfolding upto_from_one by (simp add: page)
  ultimately have "concat (map (\<lambda>n. items (?page n)) [1..int l]) = ?s"
    using concat_chunks [OF assms, of ?s l] by simp
  moreover have "?page n = ?page (max 1 (min n (int l)))" for n
  proof -
    have "max 1 (min (max 1 (min n (int l))) (int l)) = max 1 (min n (int l))" by linarith
    then show ?thesis by (simp only: page_n)
  qed
  moreover have "length (items (?page n)) \<le> pageSize" "total (?page n) = length (filter vis xs)" for n
    by (simp_all add: page_n Let_def sortRecords_def)
  moreover have "1 \<le> int l" by (simp add: l_def)
  ultimately show ?thesis unfolding Let_def last by blast
qed

theorem pages_partition_the_order_witness:
  "concat (map (\<lambda>n. items (paginateRecords sample_options (\<lambda>_. True) n 2
      [sample ''b'' ''draft'' 5, sample ''a'' ''active'' 7, sample ''c'' ''draft'' 9])) [1..2])
   = [sample ''a'' ''active'' 7, sample ''c'' ''draft'' 9, sample ''b'' ''draft'' 5]"
proof -
  let ?xs = "[sample ''b'' ''draft'' 5, sample ''a'' ''active'' 7, sample ''c'' ''draft'' 9]"
  have n: "totalPages (paginateRecords sample_options (\<lambda>_. True) 1 2 ?xs) = 2"
    by (simp add: paginateRecords_def sortRecords_def)
  have "concat (map (\<lambda>n. items (paginateRecords sample_options (\<lambda>_. True) n 2 ?xs)) [1..2]) =
      sortRecords sample_options ?xs"
    using pages_partition_the_order [of 2 sample_options "\<lambda>_. True" ?xs] unfolding Let_def n by simp
  also have "\<dots> = [sample ''a'' ''active'' 7, sample ''c'' ''draft'' 9, sample ''b'' ''draft'' 5]" by code_simp
  finally show ?thesis .
qed

lemma duplicate_ids_none:
  "duplicate_ids seen [] xs = [] \<longleftrightarrow> distinct (map idOf xs) \<and> set (map idOf xs) \<inter> set seen = {}"
proof (induction xs arbitrary: seen)
  case (Cons x xs)
  have grows: "duplicate_ids s d ys \<noteq> []" if "d \<noteq> []" for s d ys
    using that by (induction ys arbitrary: s d) (simp_all add: Let_def)
  show ?case using Cons by (auto simp: Let_def grows)
qed simp

text \<open>
  The check accepts exactly the lists that are in contract order and whose identifiers are
  distinct; what the sorting returns for items with distinct identifiers always passes it.
\<close>

theorem check_accepts_the_order:
  "(ok (verifyOrdering knd opt xs) \<longleftrightarrow> sortWith (comparatorFor knd opt) xs = xs \<and> distinct (map idOf xs))
   \<and> (distinct (map idOf xs) \<longrightarrow> ok (verifyOrdering knd opt (sortWith (comparatorFor knd opt) xs)))"
proof -
  have order: "out_of_order (comparatorFor knd opt) 0 ys = [] \<longleftrightarrow> sortWith (comparatorFor knd opt) ys = ys" for ys
    by (cases knd) (simp_all add: records.fixed_iff events.fixed_iff)
  have ids: "distinct (map idOf (sortWith (comparatorFor knd opt) ys)) \<longleftrightarrow> distinct (map idOf ys)" for ys
    by (cases knd) (simp_all add: records.distinct_map_sortWith events.distinct_map_sortWith)
  have idem: "sortWith (comparatorFor knd opt) (sortWith (comparatorFor knd opt) ys) = sortWith (comparatorFor knd opt) ys" for ys
    by (cases knd) (simp_all add: records.sortWith_idem events.sortWith_idem)
  show ?thesis
    by (simp add: verifyOrdering_def Let_def order duplicate_ids_none ids idem)
qed

theorem check_accepts_the_order_witness:
  "ok (verifyOrdering Records sample_options (sortRecords sample_options [sample ''b'' ''draft'' 5, sample ''a'' ''active'' 7]))
   \<and> \<not> ok (verifyOrdering Records sample_options [sample ''b'' ''draft'' 5, sample ''a'' ''active'' 7])"
proof
  show "ok (verifyOrdering Records sample_options
      (sortRecords sample_options [sample ''b'' ''draft'' 5, sample ''a'' ''active'' 7]))"
    using check_accepts_the_order [of Records sample_options "[sample ''b'' ''draft'' 5, sample ''a'' ''active'' 7]"]
    by (simp add: sortRecords_def sample_def idOf_def)
qed code_simp

text \<open>
  A soft-deleted record does not always sort last: it comes before every record whose status
  is not in the table, although the contract says that it ranks last regardless of status.
\<close>

theorem deleted_not_last:
  assumes "i_isDeleted d" "\<not> i_isDeleted r" "rank_table opt = STATUS_PRECEDENCE"
    and "lookupRank STATUS_PRECEDENCE (truthy_first [i_status r, i_moderationStatus r, i_visibility r])
      DEFAULT_PRECEDENCE = DEFAULT_PRECEDENCE"
  shows "createRecordComparator opt d r < 0 \<and> createRecordComparator opt r d > 0 \<and> sortRecords opt [r, d] = [d, r]"
proof -
  have "recordPrecedence (rank_table opt) d = 4" "recordPrecedence (rank_table opt) r = 5"
    using assms by (simp_all add: recordPrecedence_def DEFAULT_PRECEDENCE_def)
  then show ?thesis
    by (simp add: createRecordComparator_def Let_def or_cmp_def sortRecords_def sortWith_def)
qed

theorem deleted_not_last_witness:
  "sortRecords sample_options [sample ''r'' ''mystery'' 9, (sample ''d'' ''active'' 5)\<lparr>i_isDeleted := True\<rparr>]
   = [(sample ''d'' ''active'' 5)\<lparr>i_isDeleted := True\<rparr>, sample ''r'' ''mystery'' 9]"
proof -
  have "lookupRank STATUS_PRECEDENCE (Some ''mystery'') DEFAULT_PRECEDENCE = DEFAULT_PRECEDENCE" by code_simp
  then show ?thesis
    using deleted_not_last [of "(sample ''d'' ''active'' 5)\<lparr>i_isDeleted := True\<rparr>" "sample ''r'' ''mystery'' 9" sample_options]
    by (simp add: sample_def sample_options_def truthy_first_def)
qed

end
