(* ===== verification/AsyncStore.thy ===== *)
theory AsyncStore imports Prelude "HOL-Library.Multiset" begin

text \<open>
  Asynchronous handlers over a document database. A handler is the tree of its awaited calls
  (\<open>async\<close>): the request it waits for and what it does with each reply. The database is a
  parameter that behaves as the driver documents (\<open>documented_db\<close>): one document is read or
  written at once, which one of several matching documents is chosen is open, a unique index
  refuses a second document, and any call may fail, before or after it took effect. A system
  interleaves any number of handlers call by call; a handler that is never scheduled again has
  crashed. The locale \<open>rely_guarantee\<close> holds the contract of a component's handlers.
\<close>

section \<open>Requests and replies\<close>

text \<open>
  The documents of all collections form one list; a filter selects the collection too.
  \<open>Update_one\<close> has the document that is inserted when nothing matches (\<open>upsert\<close>), and answers
  with the document after the update; only a unique index keeps two concurrent upserts from
  inserting twice. \<open>Ask\<close> is a call to the outside: the clock, the network.
\<close>

datatype ('row, 'e) request =
    Find_one "'row \<Rightarrow> bool"
  | Find_all "'row \<Rightarrow> bool"
  | Update_one "'row \<Rightarrow> bool" "'row \<Rightarrow> 'row" "'row option"
  | Update_all "'row \<Rightarrow> bool" "'row \<Rightarrow> 'row"
  | Insert_one 'row
  | Delete_one "'row \<Rightarrow> bool"
  | Ask 'e

datatype ('row, 'v) reply =
    Row "'row option"
  | Rows "'row list"
  | Updated "'row option"
  | Upserted 'row
  | Count nat
  | Inserted 'row
  | Duplicate
  | Said 'v
  | Failed

datatype ('row, 'e, 'v, 'r) async =
    Return 'r
  | Await "('row, 'e) request" "('row, 'v) reply \<Rightarrow> ('row, 'e, 'v, 'r) async"

section \<open>What the database does\<close>

definition clashes :: "('row \<Rightarrow> 'row \<Rightarrow> bool) \<Rightarrow> 'row list \<Rightarrow> 'row \<Rightarrow> bool" where
  "clashes U s r \<longleftrightarrow> (\<exists>x \<in> set s. U x r)"

definition update_at :: "('row \<Rightarrow> 'row \<Rightarrow> bool) \<Rightarrow> ('row \<Rightarrow> bool) \<Rightarrow> ('row \<Rightarrow> 'row) \<Rightarrow> nat \<Rightarrow> 'row list \<Rightarrow> 'row list \<Rightarrow> bool" where
  "update_at U P f i s s' \<longleftrightarrow>
     i < length s \<and> P (s ! i) \<and> s' = s[i := f (s ! i)] \<and> (\<forall>j < length s. j \<noteq> i \<longrightarrow> \<not> U (s ! j) (f (s ! i)))"

definition effect :: "('row \<Rightarrow> 'row \<Rightarrow> bool) \<Rightarrow> ('row, 'e) request \<Rightarrow> 'row list \<Rightarrow> ('row, 'v) reply \<Rightarrow> 'row list \<Rightarrow> bool" where
  "effect U q s a s' =
     (case q of
        Find_one P \<Rightarrow> s' = s \<and>
          (case a of Row None \<Rightarrow> \<forall>r \<in> set s. \<not> P r | Row (Some r) \<Rightarrow> r \<in> set s \<and> P r | _ \<Rightarrow> False)
      | Find_all P \<Rightarrow> s' = s \<and> (case a of Rows rs \<Rightarrow> mset rs = mset (filter P s) | _ \<Rightarrow> False)
      | Update_one P f ups \<Rightarrow>
          (case a of
             Updated (Some r) \<Rightarrow> \<exists>i. update_at U P f i s s' \<and> r = f (s ! i)
           | Updated None \<Rightarrow> ups = None \<and> (\<forall>r \<in> set s. \<not> P r) \<and> s' = s
           | Upserted r \<Rightarrow> ups = Some r \<and> \<not> clashes U s r \<and> s' = s @ [r]
           | Duplicate \<Rightarrow> s' = s
           | _ \<Rightarrow> False)
      | Update_all P f \<Rightarrow>
          (case a of Count n \<Rightarrow> s' = map (\<lambda>r. if P r then f r else r) s \<and> n = length (filter P s) | _ \<Rightarrow> False)
      | Insert_one r \<Rightarrow>
          (case a of
             Inserted x \<Rightarrow> x = r \<and> \<not> clashes U s r \<and> s' = s @ [r]
           | Duplicate \<Rightarrow> clashes U s r \<and> s' = s
           | _ \<Rightarrow> False)
      | Delete_one P \<Rightarrow>
          (case a of
             Count n \<Rightarrow> (n = 0 \<and> s' = s \<and> (\<forall>r \<in> set s. \<not> P r)) \<or>
               (n = 1 \<and> (\<exists>i < length s. P (s ! i) \<and> s' = take i s @ drop (Suc i) s))
           | _ \<Rightarrow> False)
      | Ask e \<Rightarrow> s' = s \<and> (case a of Said v \<Rightarrow> True | _ \<Rightarrow> False))"

definition documented :: "('row \<Rightarrow> 'row \<Rightarrow> bool) \<Rightarrow> ('row, 'e) request \<Rightarrow> 'row list \<Rightarrow> ('row, 'v) reply \<Rightarrow> 'row list \<Rightarrow> bool" where
  "documented U q s a s' \<longleftrightarrow> effect U q s a s' \<or> (a = Failed \<and> (s' = s \<or> (\<exists>b :: ('row, 'v) reply. effect U q s b s')))"

text \<open>
  The database and the outside resolve what is open: which document, whether the call fails, what
  the outside answers.
\<close>

datatype 'v choice = Works nat | Says 'v | Fails | Fails_after nat

type_synonym ('row, 'e, 'v) database = "'v choice \<Rightarrow> ('row, 'e) request \<Rightarrow> 'row list \<Rightarrow> ('row, 'v) reply \<times> 'row list"

definition documented_db :: "('row \<Rightarrow> 'row \<Rightarrow> bool) \<Rightarrow> ('row, 'e, 'v) database \<Rightarrow> bool" where
  "documented_db U D \<longleftrightarrow> (\<forall>c q s. documented U q s (fst (D c q s)) (snd (D c q s)))"

lemma documented_dbD: "documented_db U D \<Longrightarrow> D c q s = (a, s') \<Longrightarrow> documented U q s a s'"
  unfolding documented_db_def by (metis fst_conv snd_conv)

section \<open>A database in memory\<close>

text \<open>It picks the document by its position among the matching ones (the last if there are fewer).\<close>

definition matching :: "('row \<Rightarrow> bool) \<Rightarrow> 'row list \<Rightarrow> nat list" where
  "matching P s = filter (\<lambda>i. P (s ! i)) [0..<length s]"

definition pick :: "nat \<Rightarrow> nat list \<Rightarrow> nat" where
  "pick n is = is ! (min n (length is - 1))"

definition clashes_but :: "('row \<Rightarrow> 'row \<Rightarrow> bool) \<Rightarrow> 'row list \<Rightarrow> nat \<Rightarrow> 'row \<Rightarrow> bool" where
  "clashes_but U s i r \<longleftrightarrow> list_ex (\<lambda>j. j \<noteq> i \<and> U (s ! j) r) [0..<length s]"

definition mem_works :: "('row \<Rightarrow> 'row \<Rightarrow> bool) \<Rightarrow> nat \<Rightarrow> ('row, 'e) request \<Rightarrow> 'row list \<Rightarrow> ('row, 'v) reply \<times> 'row list" where
  "mem_works U n q s =
     (case q of
        Find_one P \<Rightarrow> (Row (if matching P s = [] then None else Some (s ! pick n (matching P s))), s)
      | Find_all P \<Rightarrow> (Rows (filter P s), s)
      | Update_one P f ups \<Rightarrow>
          (if matching P s = []
           then (case ups of None \<Rightarrow> (Updated None, s)
                 | Some r \<Rightarrow> if list_ex (\<lambda>x. U x r) s then (Duplicate, s) else (Upserted r, s @ [r]))
           else let i = pick n (matching P s); r = f (s ! i) in
             if clashes_but U s i r then (Duplicate, s) else (Updated (Some r), s[i := r]))
      | Update_all P f \<Rightarrow> (Count (length (filter P s)), map (\<lambda>r. if P r then f r else r) s)
      | Insert_one r \<Rightarrow> if list_ex (\<lambda>x. U x r) s then (Duplicate, s) else (Inserted r, s @ [r])
      | Delete_one P \<Rightarrow>
          (if matching P s = [] then (Count 0, s)
           else let i = pick n (matching P s) in (Count 1, take i s @ drop (Suc i) s))
      | Ask e \<Rightarrow> (Failed, s))"

definition mem_db :: "('row \<Rightarrow> 'row \<Rightarrow> bool) \<Rightarrow> ('row, 'e, 'v) database" where
  "mem_db U c q s =
     (case c of
        Works n \<Rightarrow> mem_works U n q s
      | Says v \<Rightarrow> (case q of Ask e \<Rightarrow> (Said v, s) | _ \<Rightarrow> (Failed, s))
      | Fails \<Rightarrow> (Failed, s)
      | Fails_after n \<Rightarrow> (Failed, snd (mem_works U n q s :: ('row, 'v) reply \<times> 'row list)))"

lemma pick_matching: "matching P s \<noteq> [] \<Longrightarrow> pick n (matching P s) < length s \<and> P (s ! pick n (matching P s))"
proof -
  assume "matching P s \<noteq> []"
  then have "pick n (matching P s) \<in> set (matching P s)" unfolding pick_def by (intro nth_mem) (cases "matching P s", auto)
  then show ?thesis by (simp add: matching_def)
qed

lemma matching_Nil: "matching P s = [] \<longleftrightarrow> (\<forall>r \<in> set s. \<not> P r)"
  by (auto simp: matching_def filter_empty_conv all_set_conv_all_nth)

lemma matching_simps: "matching p [] = []" "matching p (x # s) = (if p x then [0] else []) @ map Suc (matching p s)"
proof -
  have "[0..<length (x # s)] = 0 # map Suc [0..<length s]" by (simp add: upt_conv_Cons map_Suc_upt del: upt_Suc)
  then show "matching p (x # s) = (if p x then [0] else []) @ map Suc (matching p s)"
    by (simp add: matching_def filter_map comp_def del: upt_Suc)
qed (simp add: matching_def)

lemma mem_works_effect:
  assumes "\<And>e. q \<noteq> Ask e"
  shows "effect U q s (fst (mem_works U n q s)) (snd (mem_works U n q s))"
proof (cases q)
  case (Find_one P)
  then show ?thesis using pick_matching [of P s n] matching_Nil [of P s] by (auto simp: mem_works_def effect_def)
next
  case (Update_one P f ups)
  show ?thesis
  proof (cases "matching P s = []")
    case True
    then show ?thesis using Update_one matching_Nil [of P s]
      by (auto simp: mem_works_def effect_def clashes_def list_ex_iff split: option.splits)
  next
    case False
    let ?i = "pick n (matching P s)"
    have "update_at U P f ?i s (s[?i := f (s ! ?i)])" if "\<not> clashes_but U s ?i (f (s ! ?i))"
      using that pick_matching [OF False, of n] by (auto simp: update_at_def clashes_but_def list_ex_iff)
    then show ?thesis using Update_one False by (auto simp: mem_works_def effect_def Let_def)
  qed
next
  case (Delete_one P)
  then show ?thesis using pick_matching [of P s n] matching_Nil [of P s]
    by (auto simp: mem_works_def effect_def Let_def)
qed (use assms in \<open>auto simp: mem_works_def effect_def clashes_def list_ex_iff\<close>)

lemma mem_ask: "documented U (Ask e) s (fst (mem_db U c (Ask e) s)) (snd (mem_db U c (Ask e) s))"
  by (cases c) (auto simp: mem_db_def mem_works_def documented_def effect_def)

lemma mem_other:
  assumes "\<And>e. q \<noteq> Ask e"
  shows "documented U q s (fst (mem_db U c q s)) (snd (mem_db U c q s))"
proof (cases c)
  case (Works n)
  then show ?thesis by (simp add: mem_db_def documented_def mem_works_effect [OF assms])
next
  case (Fails_after n)
  then show ?thesis using mem_works_effect [OF assms, of U s n] by (auto simp: mem_db_def documented_def)
qed (use assms in \<open>auto simp: mem_db_def documented_def split: request.splits\<close>)

lemma mem_any: "documented U q s (fst (mem_db U c q s)) (snd (mem_db U c q s))"
  by (cases q) (simp_all add: mem_ask mem_other)

lemma mem_documented: "documented_db U (mem_db U)"
  by (simp add: documented_db_def mem_any)

section \<open>Handlers side by side\<close>

record ('row, 'e, 'v, 'r) world =
  rows :: "'row list"
  tasks :: "('row, 'e, 'v, 'r) async list"

datatype ('call, 'v) move = Begin 'call | Turn nat "'v choice"

definition turn :: "('row, 'e, 'v) database \<Rightarrow> nat \<Rightarrow> 'v choice \<Rightarrow> ('row, 'e, 'v, 'r) world \<Rightarrow> ('row, 'e, 'v, 'r) world" where
  "turn D n c w =
     (if n < length (tasks w) then
        (case tasks w ! n of
           Return r \<Rightarrow> w
         | Await q k \<Rightarrow> (case D c q (rows w) of (a, s') \<Rightarrow> \<lparr>rows = s', tasks = (tasks w)[n := k a]\<rparr>))
      else w)"

fun step :: "('row, 'e, 'v) database \<Rightarrow> ('call \<Rightarrow> ('row, 'e, 'v, 'r) async) \<Rightarrow> ('call, 'v) move \<Rightarrow>
    ('row, 'e, 'v, 'r) world \<Rightarrow> ('row, 'e, 'v, 'r) world" where
  "step D handler (Begin c) w = w\<lparr>tasks := tasks w @ [handler c]\<rparr>"
| "step D handler (Turn n c) w = turn D n c w"

definition run :: "('row, 'e, 'v) database \<Rightarrow> ('call \<Rightarrow> ('row, 'e, 'v, 'r) async) \<Rightarrow> ('call, 'v) move list \<Rightarrow>
    ('row, 'e, 'v, 'r) world \<Rightarrow> ('row, 'e, 'v, 'r) world" where
  "run D handler moves w = fold (step D handler) moves w"

definition world_of :: "'row list \<Rightarrow> ('row, 'e, 'v, 'r) world" where
  "world_of s = \<lparr>rows = s, tasks = []\<rparr>"

text \<open>The results of the handlers that have returned.\<close>

definition result_of :: "('row, 'e, 'v, 'r) async \<Rightarrow> 'r option" where
  "result_of p = (case p of Return r \<Rightarrow> Some r | Await _ _ \<Rightarrow> None)"

definition results :: "('row, 'e, 'v, 'r) world \<Rightarrow> 'r list" where
  "results w = List.map_filter result_of (tasks w)"

lemma result_of_iff: "result_of p = Some r \<longleftrightarrow> p = Return r"
  by (cases p) (simp_all add: result_of_def)

lemma result_of_simps [simp]: "result_of (Return r) = Some r" "result_of (Await q k) = None"
  by (simp_all add: result_of_def)

lemma map_filter_result: "r \<in> set (List.map_filter result_of ps) \<longleftrightarrow> Return r \<in> set ps"
  by (induction ps) (auto simp: map_filter_simps result_of_iff split: option.splits)

lemma results_iff: "r \<in> set (results w) \<longleftrightarrow> Return r \<in> set (tasks w)"
  by (simp add: results_def map_filter_result)

text \<open>The calls a list of moves begins.\<close>

definition begun :: "('call, 'v) move list \<Rightarrow> 'call set" where
  "begun moves = {c. Begin c \<in> set moves}"

text \<open>One handler alone, with a list of choices.\<close>

fun solo :: "('row, 'e, 'v) database \<Rightarrow> 'v choice list \<Rightarrow> ('row, 'e, 'v, 'r) async \<Rightarrow> 'row list \<Rightarrow>
    ('row, 'e, 'v, 'r) async \<times> 'row list" where
  "solo D (c # cs) (Await q k) s = (case D c q s of (a, s') \<Rightarrow> solo D cs (k a) s')"
| "solo D _ p s = (p, s)"

text \<open>The replies a handler gets, in order.\<close>

fun told :: "('row, 'v) reply list \<Rightarrow> ('row, 'e, 'v, 'r) async \<Rightarrow> ('row, 'e, 'v, 'r) async" where
  "told (a # as) (Await q k) = told as (k a)"
| "told _ p = p"

text \<open>A handler ends after at most \<open>n\<close> calls, whatever the replies.\<close>

fun ends :: "nat \<Rightarrow> ('row, 'e, 'v, 'r) async \<Rightarrow> bool" where
  "ends n (Return r) = True"
| "ends 0 (Await q k) = False"
| "ends (Suc n) (Await q k) = (\<forall>a. ends n (k a))"

lemma ends_mono: "ends n p \<Longrightarrow> n \<le> m \<Longrightarrow> ends m p"
proof (induction n p arbitrary: m rule: ends.induct)
  case (3 n q k)
  then show ?case by (cases m) auto
qed simp_all

lemma ends_told: "ends n p \<Longrightarrow> length as = n \<Longrightarrow> \<exists>r. told as p = Return r"
proof (induction n p arbitrary: as rule: ends.induct)
  case (1 n r)
  then show ?case by (cases as) auto
next
  case (3 n q k)
  then show ?case by (cases as) auto
qed simp

section \<open>Answers with their calls, and one handler among others\<close>

primrec labelled :: "'c \<Rightarrow> ('row, 'e, 'v, 'r) async \<Rightarrow> ('row, 'e, 'v, 'c \<times> 'r) async" where
  "labelled c (Return r) = Return (c, r)"
| "labelled c (Await q k) = Await q (\<lambda>a. labelled c (k a))"

lemma solo_labelled: "solo D cs (labelled c p) s = (case solo D cs p s of (p', s') \<Rightarrow> (labelled c p', s'))"
  by (induction D cs p s rule: solo.induct) (auto split: prod.splits)

lemma solo_append: "solo D (cs @ ds) p s = (case solo D cs p s of (p', s') \<Rightarrow> solo D ds p' s')"
  by (induction D cs p s rule: solo.induct) (auto split: prod.splits)

lemma run_turns:
  "i < length ts \<Longrightarrow> run D h (map (Turn i) cs) \<lparr>rows = s, tasks = ts\<rparr> =
     (case solo D cs (ts ! i) s of (p, s') \<Rightarrow> \<lparr>rows = s', tasks = ts[i := p]\<rparr>)"
proof (induction cs arbitrary: s ts)
  case (Cons c cs)
  show ?case
  proof (cases "ts ! i")
    case (Return r)
    then have "run D h (map (Turn i) (c # cs)) \<lparr>rows = s, tasks = ts\<rparr> = run D h (map (Turn i) cs) \<lparr>rows = s, tasks = ts\<rparr>"
      using Cons.prems by (simp add: run_def turn_def)
    then show ?thesis using Cons.IH [OF Cons.prems, of s] Return by (cases cs) simp_all
  next
    case (Await q k)
    obtain a s' where D: "D c q s = (a, s')" by (cases "D c q s")
    have "run D h (map (Turn i) (c # cs)) \<lparr>rows = s, tasks = ts\<rparr> = run D h (map (Turn i) cs) \<lparr>rows = s', tasks = ts[i := k a]\<rparr>"
      using Cons.prems Await D by (simp add: run_def turn_def)
    then show ?thesis using Cons.IH [of "ts[i := k a]" s'] Cons.prems Await D by (simp split: prod.splits)
  qed
qed (simp add: run_def)

lemma run_begin: "run D h (Begin c # moves) \<lparr>rows = s, tasks = ts\<rparr> = run D h moves \<lparr>rows = s, tasks = ts @ [h c]\<rparr>"
  by (simp add: run_def)

lemma run_moves_append: "run D h (ms @ ms') w = run D h ms' (run D h ms w)"
  by (simp add: run_def)

section \<open>What a handler was told\<close>

text \<open>The calls a handler made, each with its reply.\<close>

fun dialogue :: "('row, 'v) reply list \<Rightarrow> ('row, 'e, 'v, 'r) async \<Rightarrow> (('row, 'e) request \<times> ('row, 'v) reply) list" where
  "dialogue (a # as) (Await q k) = (q, a) # dialogue as (k a)"
| "dialogue _ p = []"

lemma told_snoc:
  "told as p = Await q k \<Longrightarrow> told (as @ [a]) p = k a \<and> dialogue (as @ [a]) p = dialogue as p @ [(q, a)]"
  by (induction as p rule: told.induct) auto

text \<open>
  \<open>earns Q p L\<close>: whatever the replies, what \<open>p\<close> returns satisfies \<open>Q\<close> together with the calls made
  until then, of which \<open>L\<close> are those before \<open>p\<close>.
\<close>

primrec earns :: "('r \<Rightarrow> (('row, 'e) request \<times> ('row, 'v) reply) set \<Rightarrow> bool) \<Rightarrow> ('row, 'e, 'v, 'r) async \<Rightarrow>
    (('row, 'e) request \<times> ('row, 'v) reply) set \<Rightarrow> bool" where
  "earns Q (Return r) = (\<lambda>L. Q r L)"
| "earns Q (Await q k) = (\<lambda>L. \<forall>a. earns Q (k a) (insert (q, a) L))"

lemma earns_told: "earns Q p L \<Longrightarrow> told as p = Return r \<Longrightarrow> Q r (set (dialogue as p) \<union> L)"
proof (induction as p arbitrary: L rule: told.induct)
  case (1 a as q k)
  then have "earns Q (k a) (insert (q, a) L)" "told as (k a) = Return r" by simp_all
  then have "Q r (set (dialogue as (k a)) \<union> insert (q, a) L)" by (rule "1.IH")
  then show ?case by (simp only: dialogue.simps list.simps Un_insert_left Un_insert_right)
qed auto

lemma earns_weaken:
  assumes "\<And>r L L'. Q r L \<Longrightarrow> L \<subseteq> L' \<Longrightarrow> Q r L'"
  shows "earns Q p L \<Longrightarrow> L \<subseteq> L' \<Longrightarrow> earns Q p L'"
proof (induction p arbitrary: L L')
  case (Await q k)
  have "earns Q (k a) (insert (q, a) L')" for a
    by (rule Await.IH [of _ "insert (q, a) L"]) (use Await.prems in auto)
  then show ?case by simp
qed (use assms in auto)

text \<open>
  What the handler at position \<open>n\<close> was told in a run: the calls it made, each with the reply that the
  database gave when its turn came.
\<close>

fun heard :: "('row, 'e, 'v) database \<Rightarrow> ('call, 'v) move \<Rightarrow> ('row, 'e, 'v, 'r) world \<Rightarrow> nat \<Rightarrow>
    (('row, 'e) request \<times> ('row, 'v) reply) list" where
  "heard D (Begin c) w n = []"
| "heard D (Turn i ch) w n =
     (if i = n \<and> n < length (tasks w) then (case tasks w ! n of Await q k \<Rightarrow> [(q, fst (D ch q (rows w)))] | Return r \<Rightarrow> []) else [])"

fun conversation :: "('row, 'e, 'v) database \<Rightarrow> ('call \<Rightarrow> ('row, 'e, 'v, 'r) async) \<Rightarrow> ('call, 'v) move list \<Rightarrow>
    ('row, 'e, 'v, 'r) world \<Rightarrow> nat \<Rightarrow> (('row, 'e) request \<times> ('row, 'v) reply) list" where
  "conversation D handler [] w n = []"
| "conversation D handler (m # moves) w n = heard D m w n @ conversation D handler moves (step D handler m w) n"

lemma conversation_snoc:
  "conversation D handler (moves @ [m]) w n = conversation D handler moves w n @ heard D m (run D handler moves w) n"
  by (induction moves arbitrary: w) (simp_all add: run_def)

lemma run_snoc: "run D handler (moves @ [m]) w = step D handler m (run D handler moves w)"
  by (simp add: run_def)

text \<open>The calls in the order they begin: the task of each has its position.\<close>

definition calls :: "('call, 'v) move list \<Rightarrow> 'call list" where
  "calls moves = List.map_filter (\<lambda>m. case m of Begin c \<Rightarrow> Some c | Turn _ _ \<Rightarrow> None) moves"

lemma calls_snoc: "calls (moves @ [m]) = calls moves @ (case m of Begin c \<Rightarrow> [c] | Turn _ _ \<Rightarrow> [])"
  by (cases m) (simp_all add: calls_def List.map_filter_def)

lemma calls_append: "calls (xs @ ys) = calls xs @ calls ys"
  by (induction ys arbitrary: xs rule: rev_induct) (simp_all add: calls_snoc append_assoc [symmetric] del: append_assoc, simp add: calls_def List.map_filter_def)

lemma calls_take: "n < length (calls (take j moves)) \<Longrightarrow> calls (take j moves) ! n = calls moves ! n"
  using calls_append [of "take j moves" "drop j moves"] by (simp add: nth_append)

lemma conversation_take: "set (conversation D handler (take j moves) w n) \<subseteq> set (conversation D handler moves w n)"
proof (induction moves rule: rev_induct)
  case (snoc m moves)
  then show ?case by (cases "j \<le> length moves") (auto simp: conversation_snoc)
qed simp

lemma run_tasks: "length (tasks (run D handler moves (world_of s))) = length (calls moves)"
proof (induction moves rule: rev_induct)
  case (snoc m moves)
  then show ?case by (cases m) (auto simp: run_snoc calls_snoc turn_def split: async.split prod.split)
qed (simp add: run_def world_of_def calls_def List.map_filter_def)

lemma run_told:
  assumes "n < length (calls moves)"
  shows "tasks (run D handler moves (world_of s)) ! n =
      told (map snd (conversation D handler moves (world_of s) n)) (handler (calls moves ! n)) \<and>
    dialogue (map snd (conversation D handler moves (world_of s) n)) (handler (calls moves ! n)) =
      conversation D handler moves (world_of s) n"
  using assms
proof (induction moves rule: rev_induct)
  case (snoc m moves)
  let ?w = "run D handler moves (world_of s)"
  have len: "length (tasks ?w) = length (calls moves)" by (rule run_tasks)
  show ?case
  proof (cases "n < length (calls moves)")
    case False
    then obtain c where "m = Begin c" "n = length (calls moves)" using snoc.prems by (cases m) (auto simp: calls_snoc)
    moreover have "conversation D handler moves (world_of s) n = []" if "length (calls moves) \<le> n"
      using that
    proof (induction moves rule: rev_induct)
      case (snoc m' ms)
      then show ?case using run_tasks [of D handler ms s]
        by (cases m') (auto simp: conversation_snoc calls_snoc)
    qed simp
    ultimately show ?thesis using len by (simp add: conversation_snoc run_snoc calls_snoc nth_append)
  next
    case True
    note old = snoc.IH [OF True]
    have c: "calls (moves @ [m]) ! n = calls moves ! n" using True by (simp add: calls_snoc nth_append)
    show ?thesis
    proof (cases "\<exists>ch q k. m = Turn n ch \<and> tasks ?w ! n = Await q k")
      case True
      then obtain ch q k where t: "m = Turn n ch" "tasks ?w ! n = Await q k" by blast
      obtain a s' where D: "D ch q (rows ?w) = (a, s')" by (cases "D ch q (rows ?w)")
      have n: "n < length (tasks ?w)" using \<open>n < length (calls moves)\<close> len by simp
      have "conversation D handler (moves @ [m]) (world_of s) n = conversation D handler moves (world_of s) n @ [(q, a)]"
        using t n D by (simp add: conversation_snoc)
      moreover have "tasks (run D handler (moves @ [m]) (world_of s)) ! n = k a"
        using t n D by (simp add: run_snoc turn_def)
      moreover have "told (map snd (conversation D handler moves (world_of s) n)) (handler (calls moves ! n)) = Await q k"
        using old t(2) by simp
      note told_snoc [OF this, of a]
      ultimately show ?thesis using old c by simp
    next
      case False
      have "tasks (run D handler (moves @ [m]) (world_of s)) ! n = tasks ?w ! n"
        using False len \<open>n < length (calls moves)\<close>
        by (cases m) (auto simp: run_snoc turn_def nth_append nth_list_update split: async.split prod.split)
      moreover have "heard D m ?w n = []" using False by (cases m) (auto split: async.split)
      ultimately show ?thesis using old c by (simp add: conversation_snoc)
    qed
  qed
qed (simp add: calls_def List.map_filter_def)

text \<open>What a handler earns, its answer in a run has.\<close>

lemma run_earns:
  assumes "n < length (calls moves)" "tasks (run D handler moves (world_of s)) ! n = Return r"
    and "earns Q (handler (calls moves ! n)) {}"
  shows "Q r (set (conversation D handler moves (world_of s) n))"
  using earns_told [OF assms(3), of "map snd (conversation D handler moves (world_of s) n)" r]
    run_told [OF assms(1), of D handler s] assms(2) by simp

text \<open>Each part of a conversation was had at a turn of the handler.\<close>

lemma conversation_turn:
  assumes "(q, a) \<in> set (conversation D handler moves w n)"
  shows "\<exists>j ch k. j < length moves \<and> moves ! j = Turn n ch \<and> n < length (tasks (run D handler (take j moves) w)) \<and>
    tasks (run D handler (take j moves) w) ! n = Await q k \<and>
    D ch q (rows (run D handler (take j moves) w)) = (a, rows (run D handler (take (Suc j) moves) w))"
  using assms
proof (induction moves rule: rev_induct)
  case (snoc m moves)
  show ?case
  proof (cases "(q, a) \<in> set (conversation D handler moves w n)")
    case True
    then obtain j ch k where j: "j < length moves" "moves ! j = Turn n ch" "n < length (tasks (run D handler (take j moves) w))"
      "tasks (run D handler (take j moves) w) ! n = Await q k"
      "D ch q (rows (run D handler (take j moves) w)) = (a, rows (run D handler (take (Suc j) moves) w))"
      using snoc.IH by blast
    then have "take j (moves @ [m]) = take j moves" "take (Suc j) (moves @ [m]) = take (Suc j) moves" by simp_all
    then show ?thesis using j by (intro exI [of _ j] exI [of _ ch] exI [of _ k]) (simp add: nth_append)
  next
    case False
    let ?w = "run D handler moves w"
    have new: "(q, a) \<in> set (heard D m ?w n)" using snoc.prems False by (simp add: conversation_snoc)
    have "\<exists>i ch. m = Turn i ch"
    proof (cases m)
      case (Begin c)
      then show ?thesis using new by simp
    qed blast
    then obtain i ch where m: "m = Turn i ch" by blast
    have i: "i = n \<and> n < length (tasks ?w)"
    proof (rule ccontr)
      assume "\<not> ?thesis"
      then have "heard D m ?w n = []" unfolding m heard.simps by (rule if_not_P)
      then show False using new by simp
    qed
    have "\<exists>k. tasks ?w ! n = Await q k \<and> a = fst (D ch q (rows ?w))"
    proof (cases "tasks ?w ! n")
      case (Return r)
      then show ?thesis using new m i by simp
    next
      case (Await q' k')
      then have "heard D m ?w n = [(q', fst (D ch q' (rows ?w)))]" using m i by simp
      then show ?thesis using new Await by simp
    qed
    then obtain k where "tasks ?w ! n = Await q k" "a = fst (D ch q (rows ?w))" by blast
    then have t: "m = Turn n ch" "n < length (tasks ?w)" "tasks ?w ! n = Await q k" "a = fst (D ch q (rows ?w))"
      using m i by simp_all
    have "rows (run D handler (moves @ [m]) w) = snd (D ch q (rows ?w))"
      using t by (simp add: run_snoc turn_def split_beta)
    then show ?thesis using t
      by (intro exI [of _ "length moves"] exI [of _ ch] exI [of _ k]) simp
  qed
qed simp

lemma mem_said:
  assumes "(Ask e, Said v) \<in> set (conversation (mem_db U) handler moves w n)"
  shows "Turn n (Says v) \<in> set moves"
proof -
  from conversation_turn [OF assms] obtain j ch s s' where
    j: "j < length moves" "moves ! j = Turn n ch" "mem_db U ch (Ask e) s = (Said v, s')" by blast
  have "ch = Says v" using j(3) by (cases ch) (auto simp: mem_db_def mem_works_def)
  then show ?thesis using j(1,2) nth_mem by metis
qed

text \<open>
  \<open>guarded G p L\<close>: each call \<open>p\<close> makes satisfies \<open>G\<close> together with the calls made before it, of which
  \<open>L\<close> are those before \<open>p\<close>.
\<close>

primrec guarded :: "(('row, 'e) request \<Rightarrow> (('row, 'e) request \<times> ('row, 'v) reply) set \<Rightarrow> bool) \<Rightarrow> ('row, 'e, 'v, 'r) async \<Rightarrow>
    (('row, 'e) request \<times> ('row, 'v) reply) set \<Rightarrow> bool" where
  "guarded G (Return r) = (\<lambda>L. True)"
| "guarded G (Await q k) = (\<lambda>L. G q L \<and> (\<forall>a. guarded G (k a) (insert (q, a) L)))"

lemma guarded_told: "guarded G p L \<Longrightarrow> told as p = Await q k \<Longrightarrow> G q (set (dialogue as p) \<union> L)"
proof (induction as p arbitrary: L rule: told.induct)
  case (1 a as q' k')
  then have "guarded G (k' a) (insert (q', a) L)" "told as (k' a) = Await q k" by simp_all
  then have "G q (set (dialogue as (k' a)) \<union> insert (q', a) L)" by (rule "1.IH")
  then show ?case by (simp only: dialogue.simps list.simps Un_insert_left Un_insert_right)
qed auto

lemma guarded_labelled [simp]: "guarded G (labelled c p) L = guarded G p L"
  by (induction p arbitrary: L) simp_all

lemma earns_labelled [simp]: "earns Q (labelled c p) L = earns (\<lambda>r. Q (c, r)) p L"
  by (induction p arbitrary: L) simp_all

text \<open>What guards a handler's calls, guards each call it waits for in a run.\<close>

lemma run_guarded:
  assumes "n < length (calls moves)" "tasks (run D handler moves (world_of s)) ! n = Await q k"
    and "guarded G (handler (calls moves ! n)) {}"
  shows "G q (set (conversation D handler moves (world_of s) n))"
  using guarded_told [OF assms(3), of "map snd (conversation D handler moves (world_of s) n)" q k]
    run_told [OF assms(1), of D handler s] assms(2) by simp

text \<open>
  \<open>cut_off ok z p\<close> gives up with \<open>z\<close> at the first reply that is not \<open>ok\<close>; where all replies are, the
  handlers cut off run as the handlers themselves.
\<close>

primrec cut_off :: "(('row, 'e) request \<Rightarrow> ('row, 'v) reply \<Rightarrow> bool) \<Rightarrow> 'r \<Rightarrow> ('row, 'e, 'v, 'r) async \<Rightarrow> ('row, 'e, 'v, 'r) async" where
  "cut_off ok z (Return r) = Return r"
| "cut_off ok z (Await q k) = Await q (\<lambda>a. if ok q a then cut_off ok z (k a) else Return z)"

definition cut_world :: "(('row, 'e) request \<Rightarrow> ('row, 'v) reply \<Rightarrow> bool) \<Rightarrow> 'r \<Rightarrow> ('row, 'e, 'v, 'r) world \<Rightarrow> ('row, 'e, 'v, 'r) world" where
  "cut_world ok z w = w\<lparr>tasks := map (cut_off ok z) (tasks w)\<rparr>"

lemma cut_step:
  assumes "\<And>n q a. (q, a) \<in> set (heard D m w n) \<Longrightarrow> ok q a"
  shows "step D (\<lambda>c. cut_off ok z (handler c)) m (cut_world ok z w) = cut_world ok z (step D handler m w)"
proof (cases m)
  case (Turn n ch)
  show ?thesis
  proof (cases "n < length (tasks w)")
    case True
    show ?thesis
    proof (cases "tasks w ! n")
      case (Await q k)
      obtain a s' where D: "D ch q (rows w) = (a, s')" by (cases "D ch q (rows w)")
      then have "ok q a" using assms [of q a n] Turn True Await by simp
      then show ?thesis using Turn True Await D by (simp add: cut_world_def turn_def map_update)
    qed (simp add: Turn True cut_world_def turn_def)
  qed (simp add: Turn cut_world_def turn_def)
qed (simp add: cut_world_def)

lemma run_cut_off:
  assumes "\<And>n q a. (q, a) \<in> set (conversation D handler moves w n) \<Longrightarrow> ok q a"
  shows "run D (\<lambda>c. cut_off ok z (handler c)) moves (cut_world ok z w) = cut_world ok z (run D handler moves w)"
  using assms
proof (induction moves arbitrary: w)
  case (Cons m moves)
  have "step D (\<lambda>c. cut_off ok z (handler c)) m (cut_world ok z w) = cut_world ok z (step D handler m w)"
    by (rule cut_step) (use Cons.prems in fastforce)
  moreover have "run D (\<lambda>c. cut_off ok z (handler c)) moves (cut_world ok z (step D handler m w))
      = cut_world ok z (run D handler moves (step D handler m w))"
    by (rule Cons.IH) (use Cons.prems in fastforce)
  ultimately show ?case by (simp add: run_def)
qed (simp add: run_def)

lemma cut_world_simps [simp]: "rows (cut_world ok z w) = rows w" "cut_world ok z (world_of s) = world_of s"
  by (simp_all add: cut_world_def world_of_def)

section \<open>Rely and guarantee\<close>

text \<open>
  A handler is good, for an invariant \<open>I\<close> and a relation \<open>G\<close> that every change keeps, when from
  what it knows (\<open>K\<close>, which no change by others falsifies) each of its calls keeps both, and its
  result satisfies \<open>Q\<close> of the documents from then on. \<open>K0\<close> is what every handler may rely on when
  it begins.
\<close>

definition knows_after :: "('row \<Rightarrow> 'row \<Rightarrow> bool) \<Rightarrow> ('row list \<Rightarrow> bool) \<Rightarrow> ('row list \<Rightarrow> 'row list \<Rightarrow> bool) \<Rightarrow>
    ('row list \<Rightarrow> bool) \<Rightarrow> ('row, 'e) request \<Rightarrow> ('row, 'v) reply \<Rightarrow> 'row list \<Rightarrow> bool" where
  "knows_after U I G K q a t \<longleftrightarrow> (\<exists>s s'. I s \<and> K s \<and> documented U q s a s' \<and> I s' \<and> G s' t)"

primrec good :: "('row \<Rightarrow> 'row \<Rightarrow> bool) \<Rightarrow> ('row list \<Rightarrow> bool) \<Rightarrow> ('row list \<Rightarrow> 'row list \<Rightarrow> bool) \<Rightarrow>
    ('r \<Rightarrow> 'row list \<Rightarrow> bool) \<Rightarrow> ('row, 'e, 'v, 'r) async \<Rightarrow> ('row list \<Rightarrow> bool) \<Rightarrow> bool" where
  "good U I G Q (Return r) = (\<lambda>K. \<forall>s. I s \<longrightarrow> K s \<longrightarrow> Q r s)"
| "good U I G Q (Await q k) = (\<lambda>K.
     (\<forall>s (a :: ('row, 'v) reply) s'. I s \<longrightarrow> K s \<longrightarrow> documented U q s a s' \<longrightarrow> I s' \<and> G s s') \<and>
     (\<forall>a. good U I G Q (k a) (knows_after U I G K q a)))"

lemma good_mono: "good U I G Q p K \<Longrightarrow> (\<And>s. I s \<Longrightarrow> K' s \<Longrightarrow> K s) \<Longrightarrow> good U I G Q p K'"
proof (induction p arbitrary: K K')
  case (Await q k)
  have "good U I G Q (k a) (knows_after U I G K' q a)" for a
  proof (rule Await.IH)
    show "good U I G Q (k a) (knows_after U I G K q a)" using Await.prems(1) by (simp add: good.simps(2))
    show "knows_after U I G K q a s" if "knows_after U I G K' q a s" for s
      using that Await.prems(2) unfolding knows_after_def by blast
  qed simp
  then show ?case using Await.prems by (simp add: good.simps(2))
qed simp

lemma good_absurd: "(\<And>s. \<not> K s) \<Longrightarrow> good U I G Q p K"
proof (induction p arbitrary: K)
  case (Await q k)
  have "good U I G Q (k a) (knows_after U I G K q a)" for a
    by (rule Await.IH) (simp_all add: knows_after_def Await.prems)
  then have "\<forall>a. good U I G Q (k a) (knows_after U I G K q a)" ..
  then show ?case using Await.prems unfolding good.simps(2) by blast
qed simp

text \<open>The rule for one call: what it keeps, and what is known after each reply.\<close>

lemma good_call:
  assumes "\<And>s a s'. I s \<Longrightarrow> K s \<Longrightarrow> documented U q s a s' \<Longrightarrow> I s' \<and> G s s' \<and> K' a s'"
    and "\<And>a s t. K' a s \<Longrightarrow> I s \<Longrightarrow> I t \<Longrightarrow> G s t \<Longrightarrow> K' a t"
    and "\<And>a. good U I G Q (k a) (K' a)"
  shows "good U I G Q (Await q k) K"
proof -
  have "good U I G Q (k a) (knows_after U I G K q a)" for a
    by (rule good_mono [OF assms(3)]) (use assms(1,2) in \<open>unfold knows_after_def, blast\<close>)
  then show ?thesis using assms(1) by (simp add: good.simps(2))
qed

lemma good_labelled: "good U I G (\<lambda>r. Q (c, r)) p K \<Longrightarrow> good U I G Q (labelled c p) K"
  by (induction p arbitrary: K) (simp_all add: good.simps(2))

declare good.simps(2) [simp del]

locale rely_guarantee =
  fixes U :: "'row \<Rightarrow> 'row \<Rightarrow> bool"
    and I :: "'row list \<Rightarrow> bool"
    and G :: "'row list \<Rightarrow> 'row list \<Rightarrow> bool"
    and Q :: "'r \<Rightarrow> 'row list \<Rightarrow> bool"
    and K0 :: "'row list \<Rightarrow> bool"
    and handler :: "'call \<Rightarrow> ('row, 'e, 'v, 'r) async"
    and allowed :: "'call \<Rightarrow> bool"
  assumes keep_refl: "G s s"
    and keep_trans: "G s t \<Longrightarrow> G t u \<Longrightarrow> G s u"
    and base_stays: "K0 s \<Longrightarrow> I s \<Longrightarrow> I t \<Longrightarrow> G s t \<Longrightarrow> K0 t"
    and handler_good: "allowed c \<Longrightarrow> good U I G Q (handler c) K0"
begin

definition task_ok :: "'row list \<Rightarrow> ('row, 'e, 'v, 'r) async \<Rightarrow> bool" where
  "task_ok s p \<longleftrightarrow> (\<exists>K. K s \<and> (\<forall>s t. K s \<longrightarrow> I s \<longrightarrow> I t \<longrightarrow> G s t \<longrightarrow> K t) \<and> good U I G Q p K)"

definition system_ok :: "('row, 'e, 'v, 'r) world \<Rightarrow> bool" where
  "system_ok w \<longleftrightarrow> I (rows w) \<and> K0 (rows w) \<and> (\<forall>p \<in> set (tasks w). task_ok (rows w) p)"

lemma task_ok_keep: "task_ok s p \<Longrightarrow> I s \<Longrightarrow> I t \<Longrightarrow> G s t \<Longrightarrow> task_ok t p"
  unfolding task_ok_def by blast

lemma task_ok_call:
  assumes "task_ok s (Await q k)" "I s" "documented U q s a s'"
  shows "I s' \<and> G s s' \<and> task_ok s' (k a)"
proof -
  obtain K where K: "K s" "good U I G Q (Await q k) K" using assms(1) unfolding task_ok_def by blast
  then have s': "I s'" "G s s'" using assms by (auto simp: good.simps(2))
  have "knows_after U I G K q a s'" unfolding knows_after_def using K(1) assms s' keep_refl by blast
  moreover have "knows_after U I G K q a t" if "knows_after U I G K q a s" "I s" "I t" "G s t" for s t
    using that keep_trans unfolding knows_after_def by blast
  moreover have "good U I G Q (k a) (knows_after U I G K q a)" using K(2) by (simp add: good.simps(2))
  ultimately have "task_ok s' (k a)" unfolding task_ok_def by blast
  with s' show ?thesis by blast
qed

lemma turn_ok:
  assumes "documented_db U D" "system_ok w"
  shows "system_ok (turn D n c w) \<and> G (rows w) (rows (turn D n c w))"
proof (cases "n < length (tasks w)")
  case True
  show ?thesis
  proof (cases "tasks w ! n")
    case (Return r)
    then show ?thesis using assms True keep_refl by (simp add: turn_def)
  next
    case (Await q k)
    obtain a s' where D: "D c q (rows w) = (a, s')" by (cases "D c q (rows w)")
    have ok: "I (rows w)" "K0 (rows w)" "\<And>p. p \<in> set (tasks w) \<Longrightarrow> task_ok (rows w) p"
      using assms(2) by (auto simp: system_ok_def)
    have "Await q k \<in> set (tasks w)" using nth_mem [OF True] Await by simp
    then have "task_ok (rows w) (Await q k)" by (rule ok(3))
    from task_ok_call [OF this ok(1) documented_dbD [OF assms(1) D]]
    have s': "I s'" "G (rows w) s'" "task_ok s' (k a)" by blast+
    have "task_ok s' p" if "p \<in> set ((tasks w)[n := k a])" for p
      using that set_update_subset_insert [of "tasks w" n "k a"] s' ok task_ok_keep [OF ok(3) ok(1) s'(1,2)] by auto
    moreover have "K0 s'" by (rule base_stays [OF ok(2,1) s'(1,2)])
    ultimately show ?thesis using True Await D s' by (simp add: turn_def system_ok_def)
  qed
qed (use assms keep_refl in \<open>simp add: turn_def\<close>)

lemma step_ok:
  assumes "documented_db U D" "system_ok w" "\<And>c. m = Begin c \<Longrightarrow> allowed c"
  shows "system_ok (step D handler m w) \<and> G (rows w) (rows (step D handler m w))"
proof (cases m)
  case (Begin c)
  have "good U I G Q (handler c) K0" by (rule handler_good [OF assms(3) [OF Begin]])
  then have "task_ok (rows w) (handler c)" unfolding task_ok_def
    using assms(2) base_stays by (intro exI [of _ K0]) (auto simp: system_ok_def)
  then show ?thesis using assms(2) Begin by (simp add: system_ok_def keep_refl)
next
  case (Turn n c)
  then show ?thesis using turn_ok [OF assms(1,2)] by simp
qed

lemma run_ok:
  assumes "documented_db U D" "system_ok w" "\<And>c. c \<in> begun moves \<Longrightarrow> allowed c"
  shows "system_ok (run D handler moves w) \<and> G (rows w) (rows (run D handler moves w))"
  using assms(2,3)
proof (induction moves arbitrary: w)
  case Nil
  then show ?case by (simp add: run_def keep_refl)
next
  case (Cons m moves)
  have "system_ok (step D handler m w) \<and> G (rows w) (rows (step D handler m w))"
    using Cons.prems by (intro step_ok assms(1)) (auto simp: begun_def)
  moreover from this have "system_ok (run D handler moves (step D handler m w)) \<and>
      G (rows (step D handler m w)) (rows (run D handler moves (step D handler m w)))"
    using Cons.prems by (intro Cons.IH) (auto simp: begun_def)
  ultimately show ?case using keep_trans by (auto simp: run_def)
qed

text \<open>Between any two moments of a run only allowed changes are made.\<close>

lemma run_guarantees:
  assumes "documented_db U D" "I s" "K0 s" "\<And>c. c \<in> begun moves \<Longrightarrow> allowed c" "j \<le> i"
  shows "G (rows (run D handler (take j moves) (world_of s))) (rows (run D handler (take i moves) (world_of s)))"
proof -
  have "take i moves = take j moves @ take (i - j) (drop j moves)"
    using take_add [of j "i - j" moves] assms(5) by simp
  then have i: "run D handler (take i moves) (world_of s) =
      run D handler (take (i - j) (drop j moves)) (run D handler (take j moves) (world_of s))"
    by (simp only: run_moves_append)
  have "system_ok (world_of s)" using assms(2,3) by (simp add: system_ok_def world_of_def)
  moreover have "allowed c" if "c \<in> begun (take j moves)" for c
    using assms(4) that by (auto simp: begun_def dest: in_set_takeD)
  ultimately have "system_ok (run D handler (take j moves) (world_of s))" using run_ok [OF assms(1)] by blast
  moreover have "allowed c" if "c \<in> begun (take (i - j) (drop j moves))" for c
    using assms(4) that by (auto simp: begun_def dest: in_set_takeD in_set_dropD)
  ultimately show ?thesis using run_ok [OF assms(1)] unfolding i by blast
qed

text \<open>What every run keeps, and what every result promises.\<close>

lemma run_keeps:
  assumes "documented_db U D" "I s" "K0 s" "\<And>c. c \<in> begun moves \<Longrightarrow> allowed c"
  shows "I (rows (run D handler moves (world_of s)))" "G s (rows (run D handler moves (world_of s)))"
    and "r \<in> set (results (run D handler moves (world_of s))) \<Longrightarrow> Q r (rows (run D handler moves (world_of s)))"
proof -
  have "system_ok (world_of s)" using assms(2,3) by (simp add: system_ok_def world_of_def)
  from run_ok [OF assms(1) this assms(4)]
  have ok: "system_ok (run D handler moves (world_of s))" "G s (rows (run D handler moves (world_of s)))"
    by (simp_all add: world_of_def)
  then show "I (rows (run D handler moves (world_of s)))" "G s (rows (run D handler moves (world_of s)))"
    by (simp_all add: system_ok_def)
  show "Q r (rows (run D handler moves (world_of s)))" if "r \<in> set (results (run D handler moves (world_of s)))"
    using ok(1) that [unfolded results_iff] unfolding system_ok_def task_ok_def by fastforce
qed

end

section \<open>Invariants of the documents\<close>

text \<open>Documents are never removed, and each changes only as \<open>R\<close> allows.\<close>

definition evolves :: "('row \<Rightarrow> 'row \<Rightarrow> bool) \<Rightarrow> 'row list \<Rightarrow> 'row list \<Rightarrow> bool" where
  "evolves R s t \<longleftrightarrow> length s \<le> length t \<and> (\<forall>i < length s. R (s ! i) (t ! i))"

definition all_rows :: "('row list \<Rightarrow> 'row \<Rightarrow> bool) \<Rightarrow> 'row list \<Rightarrow> bool" where
  "all_rows \<phi> s \<longleftrightarrow> (\<forall>r \<in> set s. \<phi> s r)"

definition stays :: "('row list \<Rightarrow> bool) \<Rightarrow> ('row list \<Rightarrow> 'row list \<Rightarrow> bool) \<Rightarrow> ('row list \<Rightarrow> bool) \<Rightarrow> bool" where
  "stays I G K \<longleftrightarrow> (\<forall>s t. K s \<longrightarrow> I s \<longrightarrow> I t \<longrightarrow> G s t \<longrightarrow> K t)"

fun reads :: "('row, 'e) request \<Rightarrow> bool" where
  "reads (Find_one P) = True"
| "reads (Find_all P) = True"
| "reads (Ask e) = True"
| "reads _ = False"

lemma documented_reads: "reads q \<Longrightarrow> documented U q s a s' \<Longrightarrow> s' = s"
  by (cases q) (auto simp: documented_def effect_def)

lemma documented_found: "documented U (Find_one P) s (Row (Some r)) s' \<Longrightarrow> r \<in> set s \<and> P r"
  by (auto simp: documented_def effect_def)

lemma documented_none: "documented U (Find_one P) s (Row None) s' \<Longrightarrow> \<forall>r \<in> set s. \<not> P r"
  by (auto simp: documented_def effect_def)

lemma documented_rows: "documented U (Find_all P) s (Rows rs) s' \<Longrightarrow> set rs = {r \<in> set s. P r}"
proof -
  assume "documented U (Find_all P) s (Rows rs) s'"
  then have "mset rs = mset (filter P s)" by (simp add: documented_def effect_def)
  then have "set rs = set (filter P s)" by (rule mset_eq_setD)
  then show ?thesis by auto
qed

lemma documented_update:
  assumes "documented U (Update_one P f ups) s a s'"
  shows "s' = s \<and> (\<forall>r. a \<noteq> Updated (Some r)) \<or>
    (\<exists>i. update_at U P f i s s' \<and> (a = Updated (Some (f (s ! i))) \<or> a = Failed)) \<or>
    (\<exists>r. ups = Some r \<and> \<not> clashes U s r \<and> s' = s @ [r] \<and> (a = Upserted r \<or> a = Failed))"
  using assms by (auto simp: documented_def effect_def split: reply.splits option.splits)

lemma documented_update_rows:
  assumes "documented U (Update_one P f ups) s a s'"
  shows "s' = s \<or> (\<exists>i. update_at U P f i s s') \<or> (\<exists>r. ups = Some r \<and> \<not> clashes U s r \<and> s' = s @ [r])"
  using documented_update [OF assms] by blast

lemma documented_updated:
  assumes "documented U (Update_one P f ups) s (Updated (Some r)) s'"
  shows "\<exists>i. update_at U P f i s s' \<and> r = f (s ! i)"
  using documented_update [OF assms] by auto

lemma documented_unmatched:
  assumes "documented U (Update_one P f ups) s (Updated None) s'"
  shows "s' = s \<and> (\<forall>r \<in> set s. \<not> P r)"
  using assms by (auto simp: documented_def effect_def)

lemma documented_update_all:
  "documented U (Update_all P f) s a s' \<Longrightarrow> s' = s \<or> s' = map (\<lambda>r. if P r then f r else r) s"
  by (auto simp: documented_def effect_def split: reply.splits)

lemma documented_insert:
  "documented U (Insert_one r) s a s' \<Longrightarrow> s' = s \<or> (\<not> clashes U s r \<and> s' = s @ [r])"
  by (auto simp: documented_def effect_def split: reply.splits)

lemma evolvesD: "evolves R s t \<Longrightarrow> r \<in> set s \<Longrightarrow> \<exists>r' \<in> set t. R r r'"
  unfolding evolves_def by (metis in_set_conv_nth nth_mem order_less_le_trans)

lemma set_list_update_memI: "i < length s \<Longrightarrow> x \<in> set (s[i := y]) \<Longrightarrow> x = y \<or> x \<in> set s"
  using set_update_subset_insert by fastforce

text \<open>
  The contract: what each document satisfies (\<open>\<phi>\<close>, which may refer to the other documents) is not
  falsified by changes of other documents, and the allowed changes compose.
\<close>

locale row_contract =
  fixes U :: "'row \<Rightarrow> 'row \<Rightarrow> bool"
    and \<phi> :: "'row list \<Rightarrow> 'row \<Rightarrow> bool"
    and R :: "'row \<Rightarrow> 'row \<Rightarrow> bool"
  assumes R_refl: "R r r"
    and R_trans: "R r x \<Longrightarrow> R x y \<Longrightarrow> R r y"
    and keep_mono: "evolves R s t \<Longrightarrow> \<phi> s r \<Longrightarrow> \<phi> t r"
begin

lemma evolves_refl: "evolves R s s"
  by (simp add: evolves_def R_refl)

lemma evolves_trans: "evolves R s t \<Longrightarrow> evolves R t u \<Longrightarrow> evolves R s u"
  unfolding evolves_def using R_trans by (metis order_less_le_trans order_trans)

lemma evolves_append: "evolves R s (s @ [r])"
  by (simp add: evolves_def nth_append R_refl)

lemma evolves_map: "(\<And>r. r \<in> set s \<Longrightarrow> P r \<Longrightarrow> R r (f r)) \<Longrightarrow> evolves R s (map (\<lambda>r. if P r then f r else r) s)"
  by (simp add: evolves_def R_refl)

lemma evolves_update: "R (s ! i) r \<Longrightarrow> evolves R s (s[i := r])"
proof -
  assume r: "R (s ! i) r"
  have "R (s ! j) (s[i := r] ! j)" if "j < length s" for j
    using r that by (cases "i = j") (simp_all add: R_refl)
  then show ?thesis by (simp add: evolves_def)
qed

lemma keep_changed:
  assumes "all_rows \<phi> s" "evolves R s t" "\<And>r. r \<in> set t \<Longrightarrow> r \<in> set s \<or> \<phi> s r"
  shows "all_rows \<phi> t"
  unfolding all_rows_def
proof
  fix r
  assume "r \<in> set t"
  then have "\<phi> s r" using assms(1,3) unfolding all_rows_def by blast
  then show "\<phi> t r" using assms(2) keep_mono by blast
qed

lemma update_keeps:
  assumes "documented U (Update_one P f ups) s a s'" "all_rows \<phi> s"
    and "\<And>r. r \<in> set s \<Longrightarrow> P r \<Longrightarrow> R r (f r) \<and> \<phi> s (f r)"
    and "\<And>r. ups = Some r \<Longrightarrow> \<phi> s r"
  shows "all_rows \<phi> s' \<and> evolves R s s'"
  using documented_update_rows [OF assms(1)]
proof (elim disjE exE conjE)
  fix i
  assume u: "update_at U P f i s s'"
  then have i: "i < length s" "P (s ! i)" "s' = s[i := f (s ! i)]" by (simp_all add: update_at_def)
  then have e: "evolves R s s'" using assms(3) [of "s ! i"] by (simp add: evolves_update)
  have "all_rows \<phi> s'"
    by (rule keep_changed [OF assms(2) e])
      (use i assms(3) [of "s ! i"] set_list_update_memI [OF i(1)] in \<open>auto\<close>)
  with e show ?thesis by simp
next
  fix r
  assume "ups = Some r" "s' = s @ [r]"
  then show ?thesis using keep_changed [OF assms(2) evolves_append] assms(4) by (auto simp: evolves_append)
qed (use assms(2) evolves_refl in auto)

lemma update_all_keeps:
  assumes "documented U (Update_all P f) s a s'" "all_rows \<phi> s"
    and "\<And>r. r \<in> set s \<Longrightarrow> P r \<Longrightarrow> R r (f r) \<and> \<phi> s (f r)"
  shows "all_rows \<phi> s' \<and> evolves R s s'"
  using documented_update_all [OF assms(1)]
proof
  assume s': "s' = map (\<lambda>r. if P r then f r else r) s"
  have e: "evolves R s s'" unfolding s' using assms(3) by (intro evolves_map) blast
  have "all_rows \<phi> s'" by (rule keep_changed [OF assms(2) e]) (use assms(3) in \<open>auto simp: s' split: if_splits\<close>)
  with e show ?thesis by simp
qed (use assms(2) evolves_refl in auto)

lemma insert_keeps:
  assumes "documented U (Insert_one r) s a s'" "all_rows \<phi> s" "\<phi> s r"
  shows "all_rows \<phi> s' \<and> evolves R s s'"
  using documented_insert [OF assms(1)] keep_changed [OF assms(2) evolves_append] assms(2,3)
  by (auto simp: evolves_append evolves_refl)

text \<open>The rules for the calls of a handler, with what it knows.\<close>

lemma good_read:
  fixes k :: "('row, 'v) reply \<Rightarrow> ('row, 'e, 'v, 'r) async"
  assumes "reads q" "stays (all_rows \<phi>) (evolves R) K" "\<And>a. good U (all_rows \<phi>) (evolves R) Q (k a) K"
  shows "good U (all_rows \<phi>) (evolves R) Q (Await q k) K"
  by (rule good_call [where K' = "\<lambda>_. K"])
    (use assms documented_reads [OF assms(1)] evolves_refl in \<open>unfold stays_def, blast+\<close>)

lemma good_find_one:
  fixes k :: "('row, 'v) reply \<Rightarrow> ('row, 'e, 'v, 'r) async"
  assumes "\<And>r. stays (all_rows \<phi>) (evolves R) (K' r)"
    and "\<And>s r. all_rows \<phi> s \<Longrightarrow> K s \<Longrightarrow> r \<in> set s \<Longrightarrow> P r \<Longrightarrow> K' r s"
    and "\<And>r. good U (all_rows \<phi>) (evolves R) Q (k (Row (Some r))) (K' r)"
    and "\<And>a. (\<forall>r. a \<noteq> Row (Some r)) \<Longrightarrow> good U (all_rows \<phi>) (evolves R) Q (k a) K''"
    and "stays (all_rows \<phi>) (evolves R) K''" "\<And>s. all_rows \<phi> s \<Longrightarrow> K s \<Longrightarrow> K'' s"
  shows "good U (all_rows \<phi>) (evolves R) Q (Await (Find_one P) k) K"
proof (rule good_call [where K' = "\<lambda>a. case a of Row (Some r) \<Rightarrow> K' r | _ \<Rightarrow> K''"])
  fix s s' and a :: "('row, 'v) reply"
  assume a: "all_rows \<phi> s" "K s" "documented U (Find_one P) s a s'"
  have s': "s' = s" using documented_reads [OF _ a(3)] by simp
  show "all_rows \<phi> s' \<and> evolves R s s' \<and> (case a of Row (Some r) \<Rightarrow> K' r | _ \<Rightarrow> K'') s'"
    unfolding s' using a assms(2) [OF a(1,2)] assms(6) [OF a(1,2)] documented_found [of U P s _ s']
    by (auto simp: evolves_refl split: reply.splits option.splits)
next
  fix a :: "('row, 'v) reply" and s t
  assume "(case a of Row (Some r) \<Rightarrow> K' r | _ \<Rightarrow> K'') s" "all_rows \<phi> s" "all_rows \<phi> t" "evolves R s t"
  then show "(case a of Row (Some r) \<Rightarrow> K' r | _ \<Rightarrow> K'') t"
    using assms(1,5) unfolding stays_def by (auto split: reply.splits option.splits)
next
  fix a :: "('row, 'v) reply"
  show "good U (all_rows \<phi>) (evolves R) Q (k a) (case a of Row (Some r) \<Rightarrow> K' r | _ \<Rightarrow> K'')"
    using assms(3,4) by (auto split: reply.splits option.splits)
qed

lemma good_write:
  assumes "\<And>s a s'. all_rows \<phi> s \<Longrightarrow> K s \<Longrightarrow> documented U q s a s' \<Longrightarrow>
      (all_rows \<phi> s' \<and> evolves R s s') \<and> K' a s'"
    and "\<And>a. stays (all_rows \<phi>) (evolves R) (K' a)"
    and "\<And>a. good U (all_rows \<phi>) (evolves R) Q (k a) (K' a)"
  shows "good U (all_rows \<phi>) (evolves R) Q (Await q k) K"
  by (rule good_call [where K' = K']) (use assms in \<open>unfold stays_def, blast+\<close>)

lemma good_update:
  fixes k :: "('row, 'v) reply \<Rightarrow> ('row, 'e, 'v, 'r) async"
  assumes "\<And>s r. all_rows \<phi> s \<Longrightarrow> K s \<Longrightarrow> r \<in> set s \<Longrightarrow> P r \<Longrightarrow> R r (f r) \<and> \<phi> s (f r)"
    and "\<And>s r. all_rows \<phi> s \<Longrightarrow> K s \<Longrightarrow> ups = Some r \<Longrightarrow> \<phi> s r"
    and "stays (all_rows \<phi>) (evolves R) K"
    and "\<And>a. good U (all_rows \<phi>) (evolves R) Q (k a) K"
  shows "good U (all_rows \<phi>) (evolves R) Q (Await (Update_one P f ups) k) K"
proof (rule good_write [where K' = "\<lambda>_. K"])
  fix s s' and a :: "('row, 'v) reply"
  assume s: "all_rows \<phi> s" "K s" "documented U (Update_one P f ups) s a s'"
  have "all_rows \<phi> s' \<and> evolves R s s'" using update_keeps [OF s(3,1)] assms(1,2) s(1,2) by blast
  then show "(all_rows \<phi> s' \<and> evolves R s s') \<and> K s'" using assms(3) s(1,2) unfolding stays_def by blast
qed (use assms in auto)

lemma good_updated:
  fixes k :: "('row, 'v) reply \<Rightarrow> ('row, 'e, 'v, 'r) async"
  assumes "\<And>s r. all_rows \<phi> s \<Longrightarrow> K s \<Longrightarrow> r \<in> set s \<Longrightarrow> P r \<Longrightarrow> R r (f r) \<and> \<phi> s (f r)"
    and "stays (all_rows \<phi>) (evolves R) K"
    and "\<And>s t r. all_rows \<phi> t \<Longrightarrow> evolves R s t \<Longrightarrow> all_rows \<phi> s \<Longrightarrow> K s \<Longrightarrow> r \<in> set s \<Longrightarrow> P r \<Longrightarrow> f r \<in> set t \<Longrightarrow>
      K' (f r) t"
    and "\<And>r. stays (all_rows \<phi>) (evolves R) (K' r)"
    and "\<And>r. good U (all_rows \<phi>) (evolves R) Q (k (Updated (Some r))) (K' r)"
    and "\<And>a. (\<forall>r. a \<noteq> Updated (Some r)) \<Longrightarrow> good U (all_rows \<phi>) (evolves R) Q (k a) K"
  shows "good U (all_rows \<phi>) (evolves R) Q (Await (Update_one P f None) k) K"
proof (rule good_write [where K' = "\<lambda>a. case a of Updated (Some r) \<Rightarrow> K' r | _ \<Rightarrow> K"])
  fix s s' and a :: "('row, 'v) reply"
  assume s: "all_rows \<phi> s" "K s" "documented U (Update_one P f None) s a s'"
  have keep: "all_rows \<phi> s' \<and> evolves R s s'" using update_keeps [OF s(3,1)] assms(1) s(1,2) by blast
  then have "K s'" using assms(2) s(1,2) unfolding stays_def by blast
  moreover have "K' r s'" if "a = Updated (Some r)" for r
  proof -
    from documented_updated [OF s(3) [unfolded that]] obtain i where i: "update_at U P f i s s'" "r = f (s ! i)" by blast
    then have "s ! i \<in> set s" "P (s ! i)" "f (s ! i) \<in> set s'"
      by (auto simp: update_at_def set_update_memI)
    then show ?thesis using assms(3) keep s(1,2) i(2) by blast
  qed
  ultimately show "(all_rows \<phi> s' \<and> evolves R s s') \<and> (case a of Updated (Some r) \<Rightarrow> K' r | _ \<Rightarrow> K) s'"
    using keep by (auto split: reply.splits option.splits)
qed (use assms(2,4,5,6) in \<open>auto split: reply.splits option.splits\<close>)

lemma good_update_many:
  fixes k :: "('row, 'v) reply \<Rightarrow> ('row, 'e, 'v, 'r) async"
  assumes "\<And>s r. all_rows \<phi> s \<Longrightarrow> K s \<Longrightarrow> r \<in> set s \<Longrightarrow> P r \<Longrightarrow> R r (f r) \<and> \<phi> s (f r)"
    and "stays (all_rows \<phi>) (evolves R) K"
    and "\<And>a. good U (all_rows \<phi>) (evolves R) Q (k a) K"
  shows "good U (all_rows \<phi>) (evolves R) Q (Await (Update_all P f) k) K"
proof (rule good_write [where K' = "\<lambda>_. K"])
  fix s s' and a :: "('row, 'v) reply"
  assume s: "all_rows \<phi> s" "K s" "documented U (Update_all P f) s a s'"
  have "all_rows \<phi> s' \<and> evolves R s s'" using update_all_keeps [OF s(3,1)] assms(1) s(1,2) by blast
  then show "(all_rows \<phi> s' \<and> evolves R s s') \<and> K s'" using assms(2) s(1,2) unfolding stays_def by blast
qed (use assms in auto)

lemma good_insert:
  fixes k :: "('row, 'v) reply \<Rightarrow> ('row, 'e, 'v, 'r) async"
  assumes "\<And>s. all_rows \<phi> s \<Longrightarrow> K s \<Longrightarrow> \<phi> s r"
    and "stays (all_rows \<phi>) (evolves R) K"
    and "\<And>a. good U (all_rows \<phi>) (evolves R) Q (k a) K"
  shows "good U (all_rows \<phi>) (evolves R) Q (Await (Insert_one r) k) K"
proof (rule good_write [where K' = "\<lambda>_. K"])
  fix s s' and a :: "('row, 'v) reply"
  assume s: "all_rows \<phi> s" "K s" "documented U (Insert_one r) s a s'"
  have "all_rows \<phi> s' \<and> evolves R s s'" using insert_keeps [OF s(3,1)] assms(1) s(1,2) by blast
  then show "(all_rows \<phi> s' \<and> evolves R s s') \<and> K s'" using assms(2) s(1,2) unfolding stays_def by blast
qed (use assms in auto)

lemma stays_True [simp]: "stays (all_rows \<phi>) (evolves R) (\<lambda>_. True)"
  by (simp add: stays_def)

end

end
