(* ===== verification/Outbox.thy ===== *)
theory Outbox
  imports AsyncStore "HOL-Library.Option_ord" "HOL-Library.Product_Lexorder"
begin

text \<open>
  \<open>src/lib/backend/outbox.js\<close>: the outbox of side effects (webhooks, mails), which workers lease,
  deliver and acknowledge. Every exported function is the tree of its awaited calls; the clock,
  random numbers, fresh identifiers and the rate limiter are asked from outside. Timestamps are
  milliseconds. \<open>updatedAt\<close>, projections and the audit log are not modelled.
\<close>

section \<open>Documents\<close>

datatype outbox_status = Pending | Leased | Delivered | Dead_letter

record intent =
  intent_id :: string
  sourceAggregate :: string
  sourceId :: string
  payload :: string
  sourceVersion :: "int option"
  previousDeliveryId :: "string option"
  predecessorDelivered :: bool
  idempotencyKey :: string
  status :: outbox_status
  leasedBy :: "string option"
  leaseExpiresAt :: "int option"
  deliveryId :: string
  attemptCount :: nat
  nextAttemptAt :: int
  lastError :: "string option"
  deliveredAt :: "int option"
  createdAt :: int

record outbox_config =
  leaseTtlMs :: int
  maxAttempts :: nat
  initialBackoffMs :: rat
  maxBackoffMs :: rat
  backoffMultiplier :: rat
  jitterFraction :: rat

definition DEFAULT_CONFIG :: outbox_config where
  "DEFAULT_CONFIG =
     \<lparr>leaseTtlMs = 5 * 60 * 1000, maxAttempts = 5, initialBackoffMs = 1000, maxBackoffMs = 60 * 1000,
      backoffMultiplier = 2, jitterFraction = 2 / 10\<rparr>"

datatype outside = Clock | Fresh_id | Random | Replay_allowed string
datatype told = Time int | Id string | Fraction rat | Allowed bool

record gap_report =
  highestContiguousVersion :: "int option"
  gapAt :: "int option"
  deliveredCount :: nat

record health =
  h_pending :: nat
  h_leased :: nat
  h_failed :: nat
  h_delivered :: nat
  oldestUnresolvedAgeMs :: int

datatype outbox_result =
    Thrown
  | Entry "intent option"
  | No_intent
  | Got intent
  | Acked string bool
  | Effects "intent list"
  | Link int "string option"
  | Gap gap_report
  | Replayed nat
  | Rescheduled intent int
  | Released
  | Retried string "intent option"
  | Health health

type_synonym script = "(intent, outside, told, outbox_result) async"

section \<open>Awaiting\<close>

text \<open>A call that fails is a rejected promise: the function throws.\<close>

definition find_one :: "(intent \<Rightarrow> bool) \<Rightarrow> (intent option \<Rightarrow> script) \<Rightarrow> script" where
  "find_one P k = Await (Find_one P) (\<lambda>a. case a of Row r \<Rightarrow> k r | _ \<Rightarrow> Return Thrown)"

definition find_all :: "(intent \<Rightarrow> bool) \<Rightarrow> (intent list \<Rightarrow> script) \<Rightarrow> script" where
  "find_all P k = Await (Find_all P) (\<lambda>a. case a of Rows rs \<Rightarrow> k rs | _ \<Rightarrow> Return Thrown)"

definition update_one :: "(intent \<Rightarrow> bool) \<Rightarrow> (intent \<Rightarrow> intent) \<Rightarrow> (intent option \<Rightarrow> script) \<Rightarrow> script" where
  "update_one P f k = Await (Update_one P f None) (\<lambda>a. case a of Updated r \<Rightarrow> k r | _ \<Rightarrow> Return Thrown)"

definition update_many :: "(intent \<Rightarrow> bool) \<Rightarrow> (intent \<Rightarrow> intent) \<Rightarrow> (nat \<Rightarrow> script) \<Rightarrow> script" where
  "update_many P f k = Await (Update_all P f) (\<lambda>a. case a of Count n \<Rightarrow> k n | _ \<Rightarrow> Return Thrown)"

definition clock :: "(int \<Rightarrow> script) \<Rightarrow> script" where
  "clock k = Await (Ask Clock) (\<lambda>a. case a of Said (Time t) \<Rightarrow> k t | _ \<Rightarrow> Return Thrown)"

definition fresh_id :: "(string \<Rightarrow> script) \<Rightarrow> script" where
  "fresh_id k = Await (Ask Fresh_id) (\<lambda>a. case a of Said (Id i) \<Rightarrow> k i | _ \<Rightarrow> Return Thrown)"

definition random :: "(rat \<Rightarrow> script) \<Rightarrow> script" where
  "random k = Await (Ask Random) (\<lambda>a. case a of Said (Fraction x) \<Rightarrow> k x | _ \<Rightarrow> Return Thrown)"

lemmas awaits_def = find_one_def find_all_def update_one_def update_many_def clock_def fresh_id_def random_def

section \<open>Operations\<close>

definition computeNextAttempt :: "outbox_config \<Rightarrow> nat \<Rightarrow> int \<Rightarrow> rat \<Rightarrow> int" where
  "computeNextAttempt cfg n now rnd =
     (let exponential = initialBackoffMs cfg * backoffMultiplier cfg ^ n;
          capped = min exponential (maxBackoffMs cfg);
          jitter = capped * jitterFraction cfg * rnd in
      \<lfloor>of_int now + capped + jitter\<rfloor>)"

definition outbox_entry :: "string \<Rightarrow> string \<Rightarrow> string \<Rightarrow> string \<Rightarrow> int option \<Rightarrow> string option \<Rightarrow> bool \<Rightarrow> string option \<Rightarrow>
    string \<Rightarrow> int \<Rightarrow> intent" where
  "outbox_entry i agg sid pay ver prev predDelivered key dlv now =
     \<lparr>intent_id = i, sourceAggregate = agg, sourceId = sid, payload = pay, sourceVersion = ver,
      previousDeliveryId = (if truthy prev then prev else None), predecessorDelivered = predDelivered,
      idempotencyKey = or_default key dlv, status = Pending, leasedBy = None, leaseExpiresAt = None,
      deliveryId = dlv, attemptCount = 0, nextAttemptAt = now, lastError = None, deliveredAt = None,
      createdAt = now\<rparr>"

text \<open>The write of an entry: an upsert when the caller names the delivery, an insert otherwise.\<close>

definition store_entry :: "string option \<Rightarrow> intent \<Rightarrow> script" where
  "store_entry given e =
     (if truthy given then
        Await (Update_one (\<lambda>r. deliveryId r = or_default given []) (\<lambda>r. r) (Some e))
          (\<lambda>a. case a of
             Updated _ \<Rightarrow> find_one (\<lambda>r. deliveryId r = or_default given []) (\<lambda>x. Return (Entry x))
           | Upserted _ \<Rightarrow> find_one (\<lambda>r. deliveryId r = or_default given []) (\<lambda>x. Return (Entry x))
           | _ \<Rightarrow> Return Thrown)
      else Await (Insert_one e) (\<lambda>a. case a of Inserted x \<Rightarrow> Return (Entry (Some x)) | _ \<Rightarrow> Return Thrown))"

definition enqueueSideEffect :: "string \<Rightarrow> string \<Rightarrow> string \<Rightarrow> string option \<Rightarrow> int option \<Rightarrow> string option \<Rightarrow> string option \<Rightarrow> script" where
  "enqueueSideEffect agg sid pay given ver prev key =
     clock (\<lambda>now. fresh_id (\<lambda>i. fresh_id (\<lambda>uuid.
       let dlv = or_default given uuid in
       if \<not> truthy prev then store_entry given (outbox_entry i agg sid pay ver prev True key dlv now)
       else find_one (\<lambda>r. deliveryId r = or_default prev []) (\<lambda>p.
         store_entry given (outbox_entry i agg sid pay ver prev
           (case p of Some x \<Rightarrow> status x = Delivered | None \<Rightarrow> False) key dlv now)))))"

definition claimable :: "int \<Rightarrow> intent \<Rightarrow> bool" where
  "claimable now r \<longleftrightarrow>
     nextAttemptAt r \<le> now \<and>
     (status r = Pending \<or>
      status r = Leased \<and> (case leaseExpiresAt r of Some t \<Rightarrow> t \<le> now | None \<Rightarrow> False)) \<and>
     (previousDeliveryId r = None \<or> predecessorDelivered r)"

definition leased :: "outbox_config \<Rightarrow> string \<Rightarrow> int \<Rightarrow> intent \<Rightarrow> intent" where
  "leased cfg worker now r =
     r\<lparr>status := Leased, leasedBy := Some worker, leaseExpiresAt := Some (now + leaseTtlMs cfg),
       attemptCount := attemptCount r + 1\<rparr>"

definition leaseNextIntent :: "outbox_config \<Rightarrow> string \<Rightarrow> script" where
  "leaseNextIntent cfg worker =
     clock (\<lambda>now. update_one (claimable now) (leased cfg worker now) (\<lambda>claimed.
       case claimed of
         None \<Rightarrow> Return No_intent
       | Some x \<Rightarrow>
           if attemptCount x \<ge> maxAttempts cfg
           then update_one (\<lambda>r. intent_id r = intent_id x)
                  (\<lambda>r. r\<lparr>status := Dead_letter, lastError := Some ''Max attempts exceeded''\<rparr>)
                  (\<lambda>_. Return No_intent)
           else Return (Got x)))"

definition markDelivered :: "string \<Rightarrow> string \<Rightarrow> script" where
  "markDelivered delivery i =
     clock (\<lambda>now. update_one (\<lambda>r. intent_id r = i \<and> deliveryId r = delivery \<and> status r \<noteq> Delivered)
         (\<lambda>r. r\<lparr>status := Delivered, deliveredAt := Some now\<rparr>) (\<lambda>res.
       case res of
         None \<Rightarrow> Return (Acked i False)
       | Some _ \<Rightarrow>
           update_many (\<lambda>r. previousDeliveryId r = Some delivery) (\<lambda>r. r\<lparr>predecessorDelivered := True\<rparr>)
             (\<lambda>_. Return (Acked i True))))"

definition getOutboxTrace :: "string \<Rightarrow> script" where
  "getOutboxTrace delivery = find_one (\<lambda>r. deliveryId r = delivery) (\<lambda>x. Return (Entry x))"

definition version_order :: "intent \<Rightarrow> int option \<times> int" where
  "version_order r = (sourceVersion r, createdAt r)"

definition source_effects :: "string \<Rightarrow> string \<Rightarrow> (intent list \<Rightarrow> script) \<Rightarrow> script" where
  "source_effects agg sid k =
     find_all (\<lambda>r. sourceAggregate r = agg \<and> sourceId r = sid) (\<lambda>rs. k (sort_key version_order rs))"

definition traceSourceEffects :: "string \<Rightarrow> string \<Rightarrow> script" where
  "traceSourceEffects agg sid = source_effects agg sid (\<lambda>rs. Return (Effects rs))"

definition getNextCausalLink :: "string \<Rightarrow> string \<Rightarrow> script" where
  "getNextCausalLink agg sid = source_effects agg sid (\<lambda>rs.
     case rev rs of
       [] \<Rightarrow> Return (Link (0 + 1) None)
     | previous # _ \<Rightarrow>
         Return (Link ((case sourceVersion previous of Some v \<Rightarrow> v | None \<Rightarrow> 0) + 1) (Some (deliveryId previous))))"

fun gap_loop :: "intent list \<Rightarrow> int \<Rightarrow> int option \<Rightarrow> nat \<Rightarrow> gap_report" where
  "gap_loop [] expected highest n = \<lparr>highestContiguousVersion = highest, gapAt = None, deliveredCount = n\<rparr>"
| "gap_loop (e # es) expected highest n =
     (if sourceVersion e \<noteq> Some expected
      then \<lparr>highestContiguousVersion = highest, gapAt = Some expected, deliveredCount = n\<rparr>
      else if status e = Delivered then gap_loop es (expected + 1) (sourceVersion e) (n + 1)
      else \<lparr>highestContiguousVersion = highest, gapAt = None, deliveredCount = n\<rparr>)"

definition sequence_gap :: "intent list \<Rightarrow> gap_report" where
  "sequence_gap effects =
     (case filter (\<lambda>e. sourceVersion e \<noteq> None) effects of
        [] \<Rightarrow> \<lparr>highestContiguousVersion = None, gapAt = None, deliveredCount = 0\<rparr>
      | e # es \<Rightarrow> gap_loop (e # es) (case sourceVersion e of Some v \<Rightarrow> v | None \<Rightarrow> 0) None 0)"

definition findSequenceGap :: "string \<Rightarrow> string \<Rightarrow> script" where
  "findSequenceGap agg sid = source_effects agg sid (\<lambda>rs. Return (Gap (sequence_gap rs)))"

definition assertReplayAuthorized :: "string option \<Rightarrow> script \<Rightarrow> script" where
  "assertReplayAuthorized who k =
     (if \<not> truthy who then Return Thrown
      else Await (Ask (Replay_allowed (or_default who [])))
        (\<lambda>a. case a of Said (Allowed True) \<Rightarrow> k | _ \<Rightarrow> Return Thrown))"

definition replayed :: "int \<Rightarrow> intent \<Rightarrow> intent" where
  "replayed now r = r\<lparr>status := Pending, nextAttemptAt := now, attemptCount := 0, lastError := None\<rparr>"

definition replayDeadLetters :: "nat \<Rightarrow> string option \<Rightarrow> script" where
  "replayDeadLetters limit who = assertReplayAuthorized who (clock (\<lambda>now.
     find_all (\<lambda>r. status r = Dead_letter \<and> deliveredAt r = None) (\<lambda>rs.
       let candidates = take limit rs in
       if candidates = [] then Return (Replayed 0)
       else update_many (\<lambda>r. intent_id r \<in> set (map intent_id candidates)) (replayed now)
         (\<lambda>n. Return (Replayed n)))))"

fun replay_all :: "int \<Rightarrow> intent list \<Rightarrow> script \<Rightarrow> script" where
  "replay_all now [] k = k"
| "replay_all now (e # es) k =
     update_one (\<lambda>r. intent_id r = intent_id e)
       (\<lambda>r. r\<lparr>status := Pending, nextAttemptAt := now, attemptCount := 0,
            lastError := Some ''Replayed by operator'', deliveredAt := None\<rparr>)
       (\<lambda>_. replay_all now es k)"

definition replaySource :: "string \<Rightarrow> string \<Rightarrow> string option \<Rightarrow> script" where
  "replaySource agg sid who = assertReplayAuthorized who (source_effects agg sid (\<lambda>es.
     clock (\<lambda>now. replay_all now es (Return (Replayed (length es))))))"

definition rescheduleIntent :: "outbox_config \<Rightarrow> string \<Rightarrow> string \<Rightarrow> script" where
  "rescheduleIntent cfg i err =
     find_one (\<lambda>r. intent_id r = i) (\<lambda>x. case x of
       None \<Rightarrow> Return No_intent
     | Some r \<Rightarrow> clock (\<lambda>now. random (\<lambda>rnd.
         let next = computeNextAttempt cfg (attemptCount r) now rnd in
         update_one (\<lambda>r. intent_id r = i) (\<lambda>r. r\<lparr>status := Pending, nextAttemptAt := next, lastError := Some err\<rparr>)
           (\<lambda>_. Return (Rescheduled r next)))))"

definition releaseLease :: "string \<Rightarrow> string \<Rightarrow> script" where
  "releaseLease i worker =
     update_one (\<lambda>r. intent_id r = i \<and> leasedBy r = Some worker)
       (\<lambda>r. r\<lparr>status := Pending, leasedBy := None, leaseExpiresAt := None\<rparr>) (\<lambda>_. Return Released)"

definition count_status :: "outbox_status \<Rightarrow> intent list \<Rightarrow> nat" where
  "count_status st rs = length (filter (\<lambda>r. status r = st) rs)"

definition getOutboxHealth :: script where
  "getOutboxHealth = clock (\<lambda>now. find_all (\<lambda>_. True) (\<lambda>rs. find_all (\<lambda>r. status r \<noteq> Delivered) (\<lambda>us.
     Return (Health
       \<lparr>h_pending = count_status Pending rs, h_leased = count_status Leased rs,
        h_failed = count_status Dead_letter rs, h_delivered = count_status Delivered rs,
        oldestUnresolvedAgeMs = (case sort_key createdAt us of [] \<Rightarrow> 0 | u # _ \<Rightarrow> now - createdAt u)\<rparr>))))"

definition retryFailedOutboxEntry :: "string \<Rightarrow> string option \<Rightarrow> script" where
  "retryFailedOutboxEntry i who =
     (if \<not> truthy who then Return Thrown
      else find_one (\<lambda>r. intent_id r = i) (\<lambda>x. case x of
        None \<Rightarrow> Return (Retried ''not_found'' None)
      | Some r \<Rightarrow>
          if status r \<noteq> Dead_letter then Return (Retried ''not_failed'' (Some r))
          else clock (\<lambda>now. update_one (\<lambda>r. intent_id r = i \<and> status r = Dead_letter)
            (\<lambda>r. r\<lparr>status := Pending, attemptCount := 0, nextAttemptAt := now,
                 lastError := Some (''Manual retry by '' @ or_default who [])\<rparr>)
            (\<lambda>y. case y of Some r \<Rightarrow> Return (Retried ''retried'' (Some r)) | None \<Rightarrow> Return (Retried ''conflict'' None)))))"

section \<open>The system\<close>

datatype outbox_call =
    Enqueue string string string "string option" "int option" "string option" "string option"
  | Lease string
  | Mark string string
  | Trace string
  | Trace_source string string
  | Next_link string string
  | Sequence_gap string string
  | Replay_dead nat "string option"
  | Replay_source string string "string option"
  | Reschedule string string
  | Release string string
  | Get_health
  | Retry_entry string "string option"

fun outbox_handler :: "outbox_config \<Rightarrow> outbox_call \<Rightarrow> script" where
  "outbox_handler cfg (Enqueue agg sid pay given ver prev key) = enqueueSideEffect agg sid pay given ver prev key"
| "outbox_handler cfg (Lease worker) = leaseNextIntent cfg worker"
| "outbox_handler cfg (Mark delivery i) = markDelivered delivery i"
| "outbox_handler cfg (Trace delivery) = getOutboxTrace delivery"
| "outbox_handler cfg (Trace_source agg sid) = traceSourceEffects agg sid"
| "outbox_handler cfg (Next_link agg sid) = getNextCausalLink agg sid"
| "outbox_handler cfg (Sequence_gap agg sid) = findSequenceGap agg sid"
| "outbox_handler cfg (Replay_dead limit who) = replayDeadLetters limit who"
| "outbox_handler cfg (Replay_source agg sid who) = replaySource agg sid who"
| "outbox_handler cfg (Reschedule i err) = rescheduleIntent cfg i err"
| "outbox_handler cfg (Release i worker) = releaseLease i worker"
| "outbox_handler cfg Get_health = getOutboxHealth"
| "outbox_handler cfg (Retry_entry i who) = retryFailedOutboxEntry i who"

text \<open>The collection has no unique index but the one of its identifiers.\<close>

definition same_id :: "intent \<Rightarrow> intent \<Rightarrow> bool" where
  "same_id x y \<longleftrightarrow> intent_id x = intent_id y"

section \<open>The contract of the operations\<close>

text \<open>
  The rules for the calls above, for any invariant of the documents and any promise of the results
  that a thrown error keeps trivially.
\<close>

locale outbox_contract = row_contract same_id \<phi> R
  for \<phi> :: "intent list \<Rightarrow> intent \<Rightarrow> bool" and R :: "intent \<Rightarrow> intent \<Rightarrow> bool" +
  fixes Q :: "outbox_result \<Rightarrow> intent list \<Rightarrow> bool"
  assumes thrown: "Q Thrown s"
begin

abbreviation sound :: "script \<Rightarrow> (intent list \<Rightarrow> bool) \<Rightarrow> bool" where
  "sound \<equiv> good same_id (all_rows \<phi>) (evolves R) Q"

abbreviation kept :: "(intent list \<Rightarrow> bool) \<Rightarrow> bool" where
  "kept \<equiv> stays (all_rows \<phi>) (evolves R)"

lemma sound_thrown [simp]: "sound (Return Thrown) K"
  by (simp add: thrown)

lemma clock_rule: "kept K \<Longrightarrow> (\<And>t. sound (k t) K) \<Longrightarrow> sound (clock k) K"
  unfolding clock_def by (rule good_read) (auto split: reply.splits told.splits simp: thrown)

lemma fresh_id_rule: "kept K \<Longrightarrow> (\<And>i. sound (k i) K) \<Longrightarrow> sound (fresh_id k) K"
  unfolding fresh_id_def by (rule good_read) (auto split: reply.splits told.splits simp: thrown)

lemma random_rule: "kept K \<Longrightarrow> (\<And>x. sound (k x) K) \<Longrightarrow> sound (random k) K"
  unfolding random_def by (rule good_read) (auto split: reply.splits told.splits simp: thrown)

lemma authorized_rule: "kept K \<Longrightarrow> sound k K \<Longrightarrow> sound (assertReplayAuthorized who k) K"
  unfolding assertReplayAuthorized_def
  by (auto intro!: good_read split: reply.splits told.splits bool.splits simp: thrown)

lemma find_one_rule: "kept K \<Longrightarrow> (\<And>x. sound (k x) K) \<Longrightarrow> sound (find_one P k) K"
  unfolding find_one_def by (rule good_read) (auto split: reply.splits simp: thrown)

lemma find_all_rule: "kept K \<Longrightarrow> (\<And>x. sound (k x) K) \<Longrightarrow> sound (find_all P k) K"
  unfolding find_all_def by (rule good_read) (auto split: reply.splits simp: thrown)

lemma found_rule:
  assumes "kept K" "\<And>r. kept (K' r)" "\<And>s r. all_rows \<phi> s \<Longrightarrow> K s \<Longrightarrow> r \<in> set s \<Longrightarrow> P r \<Longrightarrow> K' r s"
    and "\<And>r. sound (k (Some r)) (K' r)" "sound (k None) K"
  shows "sound (find_one P k) K"
  unfolding find_one_def
  by (rule good_find_one [where K' = K' and K'' = K])
    (use assms in \<open>auto split: reply.splits option.splits simp: thrown\<close>)

lemma update_rule:
  assumes "\<And>s r. all_rows \<phi> s \<Longrightarrow> K s \<Longrightarrow> r \<in> set s \<Longrightarrow> P r \<Longrightarrow> R r (f r) \<and> \<phi> s (f r)"
    and "kept K" "\<And>x. sound (k x) K"
  shows "sound (update_one P f k) K"
  unfolding update_one_def
  by (rule good_update) (use assms in \<open>auto split: reply.splits simp: thrown\<close>)

lemma updated_rule:
  assumes "\<And>s r. all_rows \<phi> s \<Longrightarrow> K s \<Longrightarrow> r \<in> set s \<Longrightarrow> P r \<Longrightarrow> R r (f r) \<and> \<phi> s (f r)"
    and "kept K" "\<And>r. kept (K' r)"
    and "\<And>s t r. all_rows \<phi> t \<Longrightarrow> evolves R s t \<Longrightarrow> all_rows \<phi> s \<Longrightarrow> K s \<Longrightarrow> r \<in> set s \<Longrightarrow> P r \<Longrightarrow> f r \<in> set t \<Longrightarrow>
      K' (f r) t"
    and "\<And>r. sound (k (Some r)) (K' r)" "sound (k None) K"
  shows "sound (update_one P f k) K"
  unfolding update_one_def
  by (rule good_updated [where K' = K', OF assms(1,2,4,3)])
    (use assms in \<open>auto split: reply.splits option.splits simp: thrown\<close>)

lemma update_many_rule:
  assumes "\<And>s r. all_rows \<phi> s \<Longrightarrow> K s \<Longrightarrow> r \<in> set s \<Longrightarrow> P r \<Longrightarrow> R r (f r) \<and> \<phi> s (f r)"
    and "kept K" "\<And>n. sound (k n) K"
  shows "sound (update_many P f k) K"
  unfolding update_many_def
  by (rule good_update_many) (use assms in \<open>auto split: reply.splits simp: thrown\<close>)

lemma store_entry_rule:
  assumes "\<And>s. all_rows \<phi> s \<Longrightarrow> K s \<Longrightarrow> \<phi> s e" "kept K" "\<And>x s. Q (Entry x) s"
  shows "sound (store_entry given e) K"
  unfolding store_entry_def
  by (auto intro!: good_update good_insert find_one_rule simp: R_refl thrown assms all_rows_def split: reply.splits)

end

section \<open>Causal order\<close>

definition was_delivered :: "intent list \<Rightarrow> string \<Rightarrow> bool" where
  "was_delivered s p \<longleftrightarrow> (\<exists>x \<in> set s. deliveryId x = p \<and> deliveredAt x \<noteq> None)"

definition causal_ok :: "intent list \<Rightarrow> intent \<Rightarrow> bool" where
  "causal_ok s r \<longleftrightarrow> (status r = Delivered \<longrightarrow> deliveredAt r \<noteq> None) \<and>
     (\<forall>p. previousDeliveryId r = Some p \<longrightarrow> predecessorDelivered r \<longrightarrow> was_delivered s p)"

definition causal_step :: "intent \<Rightarrow> intent \<Rightarrow> bool" where
  "causal_step r r' \<longleftrightarrow> deliveryId r' = deliveryId r \<and> (deliveredAt r \<noteq> None \<longrightarrow> deliveredAt r' \<noteq> None)"

lemma was_delivered_keep: "evolves causal_step s t \<Longrightarrow> was_delivered s p \<Longrightarrow> was_delivered t p"
  unfolding was_delivered_def using evolvesD [of causal_step s t] by (fastforce simp: causal_step_def)

text \<open>What a result promises: a leased intent comes after the delivery of its predecessor.\<close>

definition lease_promise :: "outbox_config \<Rightarrow> outbox_result \<Rightarrow> intent list \<Rightarrow> bool" where
  "lease_promise cfg res s \<longleftrightarrow> (case res of
     Got x \<Rightarrow> (\<forall>p. previousDeliveryId x = Some p \<longrightarrow> was_delivered s p) \<and>
       0 < attemptCount x \<and> attemptCount x < maxAttempts cfg
   | _ \<Rightarrow> True)"

interpretation causal: outbox_contract causal_ok causal_step "lease_promise cfg" for cfg
  by unfold_locales (auto simp: causal_ok_def causal_step_def lease_promise_def intro: was_delivered_keep)

lemma promise_simps [simp]:
  "lease_promise cfg Thrown s" "lease_promise cfg (Entry e) s" "lease_promise cfg No_intent s"
  "lease_promise cfg (Acked i b) s" "lease_promise cfg (Effects es) s" "lease_promise cfg (Link v l) s"
  "lease_promise cfg (Gap g) s" "lease_promise cfg (Replayed n) s" "lease_promise cfg (Rescheduled r t) s"
  "lease_promise cfg Released s" "lease_promise cfg (Retried x y) s" "lease_promise cfg (Health h) s"
  by (simp_all add: lease_promise_def)

lemma kept_delivered: "causal.kept (\<lambda>s. was_delivered s p)"
  unfolding stays_def using was_delivered_keep by blast

lemma lease_good: "causal.sound cfg (leaseNextIntent cfg worker) (\<lambda>_. True)"
  unfolding leaseNextIntent_def
proof (rule causal.clock_rule, simp, rule causal.updated_rule [where K' = "\<lambda>r s. 0 < attemptCount r \<and>
      (\<forall>p. previousDeliveryId r = Some p \<longrightarrow> was_delivered s p)"])
  fix s t :: "intent list" and r now
  assume "all_rows causal_ok s" "evolves causal_step s t" "r \<in> set s" "claimable now r"
  then show "0 < attemptCount (leased cfg worker now r) \<and>
      (\<forall>p. previousDeliveryId (leased cfg worker now r) = Some p \<longrightarrow> was_delivered t p)"
    by (auto simp: leased_def claimable_def all_rows_def causal_ok_def intro: was_delivered_keep)
next
  fix r :: intent
  show k: "causal.kept (\<lambda>s. 0 < attemptCount r \<and> (\<forall>p. previousDeliveryId r = Some p \<longrightarrow> was_delivered s p))"
    unfolding stays_def using was_delivered_keep by blast
  fix now
  show "causal.sound cfg (case Some r of None \<Rightarrow> Return No_intent
      | Some x \<Rightarrow> if maxAttempts cfg \<le> attemptCount x
          then update_one (\<lambda>r. intent_id r = intent_id x)
            (\<lambda>r. r\<lparr>status := Dead_letter, lastError := Some ''Max attempts exceeded''\<rparr>) (\<lambda>_. Return No_intent)
          else Return (Got x))
      (\<lambda>s. 0 < attemptCount r \<and> (\<forall>p. previousDeliveryId r = Some p \<longrightarrow> was_delivered s p))"
    by (auto intro!: causal.update_rule k simp: lease_promise_def causal_step_def causal_ok_def all_rows_def)
qed (auto simp: causal_step_def causal_ok_def leased_def all_rows_def)

lemma mark_good: "causal.sound cfg (markDelivered delivery i) (\<lambda>_. True)"
  unfolding markDelivered_def
proof (rule causal.clock_rule, simp, rule causal.updated_rule [where K' = "\<lambda>_ s. was_delivered s delivery"])
  fix r :: intent
  show "causal.kept (\<lambda>s. was_delivered s delivery)" by (rule kept_delivered)
  show "causal.sound cfg (case Some r of None \<Rightarrow> Return (Acked i False)
      | Some _ \<Rightarrow> update_many (\<lambda>r. previousDeliveryId r = Some delivery) (\<lambda>r. r\<lparr>predecessorDelivered := True\<rparr>)
          (\<lambda>_. Return (Acked i True))) (\<lambda>s. was_delivered s delivery)"
    by (auto intro!: causal.update_many_rule kept_delivered simp: causal_step_def causal_ok_def all_rows_def)
next
  fix s t :: "intent list" and r :: intent and now :: int
  assume "intent_id r = i \<and> deliveryId r = delivery \<and> status r \<noteq> Delivered"
    "r\<lparr>status := Delivered, deliveredAt := Some now\<rparr> \<in> set t"
  then show "was_delivered t delivery" unfolding was_delivered_def
    by (intro bexI [of _ "r\<lparr>status := Delivered, deliveredAt := Some now\<rparr>"]) simp_all
qed (auto simp: causal_step_def causal_ok_def all_rows_def)

lemma enqueue_good: "causal.sound cfg (enqueueSideEffect agg sid pay given ver prev key) (\<lambda>_. True)"
proof -
  have entry: "causal.sound cfg (store_entry given (outbox_entry i agg sid pay ver prev b key u now)) K"
    if "causal.kept K" "\<And>s. K s \<Longrightarrow> truthy prev \<Longrightarrow> b \<Longrightarrow> was_delivered s (or_default prev [])" for i b u now K
    by (rule causal.store_entry_rule [OF _ that(1)])
      (use that(2) in \<open>auto simp: lease_promise_def causal_ok_def outbox_entry_def or_default_truthy split: if_splits\<close>)
  have found: "causal.sound cfg (find_one (\<lambda>r. deliveryId r = p) (\<lambda>x. k (case x of Some y \<Rightarrow> status y = Delivered | None \<Rightarrow> False)))
      (\<lambda>_. True)"
    if "\<And>b. causal.sound cfg (k b) (\<lambda>s. b \<longrightarrow> was_delivered s p)" for k p
  proof (rule causal.found_rule [where K' = "\<lambda>r s. status r = Delivered \<longrightarrow> was_delivered s p"])
    fix r :: intent
    show "causal.kept (\<lambda>s. status r = Delivered \<longrightarrow> was_delivered s p)"
      using kept_delivered [of p] by (auto simp: stays_def)
    show "causal.sound cfg (k (case Some r of None \<Rightarrow> False | Some y \<Rightarrow> status y = Delivered))
        (\<lambda>s. status r = Delivered \<longrightarrow> was_delivered s p)"
      using that by simp
    show "causal.sound cfg (k (case None of None \<Rightarrow> False | Some y \<Rightarrow> status y = Delivered)) (\<lambda>_. True)"
      by (rule good_mono [OF that]) simp
  next
    fix s :: "intent list" and r
    assume "all_rows causal_ok s" "r \<in> set s" "deliveryId r = p"
    then show "status r = Delivered \<longrightarrow> was_delivered s p" by (auto simp: all_rows_def causal_ok_def was_delivered_def)
  qed simp
  show ?thesis
    unfolding enqueueSideEffect_def Let_def
    by (auto intro!: causal.clock_rule causal.fresh_id_rule found entry)
      (use kept_delivered in \<open>auto simp: stays_def\<close>)
qed

text \<open>Everything but the replay of a source keeps the order.\<close>

fun keeps_deliveries :: "outbox_call \<Rightarrow> bool" where
  "keeps_deliveries (Replay_source _ _ _) = False"
| "keeps_deliveries _ = True"

lemma others_good: "keeps_deliveries c \<Longrightarrow> causal.sound cfg (outbox_handler cfg c) (\<lambda>_. True)"
proof (cases c)
  case (Enqueue agg sid pay given ver prev key)
  then show ?thesis by (simp add: enqueue_good)
next
  case (Lease w)
  then show ?thesis by (simp add: lease_good)
next
  case (Mark d i)
  then show ?thesis by (simp add: mark_good)
next
  case (Replay_dead limit who)
  then show ?thesis
    by (auto simp: replayDeadLetters_def Let_def replayed_def causal_step_def causal_ok_def all_rows_def
        intro!: causal.authorized_rule causal.clock_rule causal.find_all_rule causal.update_many_rule)
next
  case (Reschedule i err)
  then show ?thesis
    by (auto simp: rescheduleIntent_def Let_def causal_step_def causal_ok_def all_rows_def
        intro!: causal.find_one_rule causal.clock_rule causal.random_rule causal.update_rule split: option.splits)
next
  case (Release i worker)
  then show ?thesis
    by (auto simp: releaseLease_def causal_step_def causal_ok_def all_rows_def intro!: causal.update_rule)
next
  case (Retry_entry i who)
  then show ?thesis
    by (auto simp: retryFailedOutboxEntry_def causal_step_def causal_ok_def all_rows_def
        intro!: causal.find_one_rule causal.clock_rule causal.update_rule split: option.splits)
next
  case (Trace d)
  then show ?thesis by (auto simp: getOutboxTrace_def intro!: causal.find_one_rule)
next
  case (Trace_source agg sid)
  then show ?thesis by (auto simp: traceSourceEffects_def source_effects_def intro!: causal.find_all_rule)
next
  case (Next_link agg sid)
  then show ?thesis
    by (auto simp: getNextCausalLink_def source_effects_def intro!: causal.find_all_rule split: list.splits)
next
  case (Sequence_gap agg sid)
  then show ?thesis by (auto simp: findSequenceGap_def source_effects_def intro!: causal.find_all_rule)
next
  case Get_health
  then show ?thesis by (auto simp: getOutboxHealth_def intro!: causal.clock_rule causal.find_all_rule)
qed simp

interpretation outbox_order: rely_guarantee same_id "all_rows causal_ok" "evolves causal_step" "lease_promise cfg"
    "\<lambda>_. True" "outbox_handler cfg" keeps_deliveries for cfg
  by unfold_locales (auto intro: causal.evolves_refl causal.evolves_trans others_good)

section \<open>Leases\<close>

text \<open>The lease of the intent \<open>i\<close> by a worker until \<open>t\<close> stands, or has ended by a delivery or the dead letter.\<close>

definition holds_lease :: "string \<Rightarrow> string \<Rightarrow> int \<Rightarrow> intent \<Rightarrow> bool" where
  "holds_lease i worker t r \<longleftrightarrow> intent_id r = i \<and> leasedBy r = Some worker \<and> leaseExpiresAt r = Some t \<and>
     status r \<in> {Leased, Delivered, Dead_letter}"

definition lease_kept :: "string \<Rightarrow> string \<Rightarrow> int \<Rightarrow> intent \<Rightarrow> intent \<Rightarrow> bool" where
  "lease_kept i worker t r r' \<longleftrightarrow> intent_id r' = intent_id r \<and> (holds_lease i worker t r \<longrightarrow> holds_lease i worker t r')"

interpretation leasing: outbox_contract "\<lambda>_ _. True" "lease_kept i worker t" "\<lambda>_ _. True" for i worker t
  by unfold_locales (auto simp: lease_kept_def)

text \<open>Calls that neither report on the intent's attempt, nor release it for its worker, nor retry or replay it.\<close>

fun quiet_about :: "string \<Rightarrow> string \<Rightarrow> outbox_call \<Rightarrow> bool" where
  "quiet_about i worker (Replay_dead _ _) = False"
| "quiet_about i worker (Replay_source _ _ _) = False"
| "quiet_about i worker (Reschedule j _) \<longleftrightarrow> j \<noteq> i"
| "quiet_about i worker (Release j v) \<longleftrightarrow> j \<noteq> i \<or> v \<noteq> worker"
| "quiet_about i worker (Retry_entry j _) \<longleftrightarrow> j \<noteq> i"
| "quiet_about i worker _ \<longleftrightarrow> True"

text \<open>The handlers as far as no clock has reached \<open>t\<close>.\<close>

definition reads_before :: "int \<Rightarrow> (intent, outside) request \<Rightarrow> (intent, told) reply \<Rightarrow> bool" where
  "reads_before t q a \<longleftrightarrow> (\<forall>u. q = Ask Clock \<longrightarrow> a = Said (Time u) \<longrightarrow> u < t)"

abbreviation until :: "int \<Rightarrow> script \<Rightarrow> script" where
  "until t \<equiv> cut_off (reads_before t) Thrown"

lemma until_reads [simp]:
  "until t (find_one P ko) = find_one P (\<lambda>x. until t (ko x))"
  "until t (find_all P kr) = find_all P (\<lambda>x. until t (kr x))"
  "until t (update_one P f ko) = update_one P f (\<lambda>x. until t (ko x))"
  "until t (update_many P f kn) = update_many P f (\<lambda>x. until t (kn x))"
  unfolding awaits_def by (auto simp: reads_before_def fun_eq_iff split: reply.splits)

lemma until_asks [simp]:
  "until t (clock kt) = clock (\<lambda>u. if u < t then until t (kt u) else Return Thrown)"
  "until t (fresh_id ki) = fresh_id (\<lambda>x. until t (ki x))"
  "until t (random kx) = random (\<lambda>x. until t (kx x))"
  unfolding awaits_def by (auto simp: reads_before_def fun_eq_iff split: reply.splits told.splits)

lemma until_store [simp]: "until t (store_entry given e) = store_entry given e"
  unfolding store_entry_def awaits_def by (auto simp: reads_before_def fun_eq_iff split: reply.splits told.splits)

lemma leased_step: "u < t \<Longrightarrow> claimable u r \<Longrightarrow> lease_kept i worker t r (leased cfg v u r)"
  by (auto simp: lease_kept_def holds_lease_def leased_def claimable_def)

lemma dead_step: "lease_kept i worker t r (r\<lparr>status := Dead_letter, lastError := e\<rparr>)"
  by (simp add: lease_kept_def holds_lease_def)

lemma until_leasing: "quiet_about i worker c \<Longrightarrow> leasing.sound i worker t (until t (outbox_handler cfg c)) (\<lambda>_. True)"
proof (cases c)
  case (Enqueue agg sid pay given ver prev key)
  then show ?thesis
    by (auto simp: enqueueSideEffect_def Let_def
        intro!: leasing.clock_rule leasing.fresh_id_rule leasing.find_one_rule leasing.store_entry_rule)
next
  case (Lease v)
  then show ?thesis
    by (auto simp: leaseNextIntent_def leased_step dead_step
        intro!: leasing.clock_rule leasing.update_rule split: option.splits)
next
  case (Mark d j)
  then show ?thesis
    by (auto simp: markDelivered_def lease_kept_def holds_lease_def
        intro!: leasing.clock_rule leasing.update_rule leasing.update_many_rule split: option.splits)
next
  case (Trace d)
  then show ?thesis by (auto simp: getOutboxTrace_def intro!: leasing.find_one_rule)
next
  case (Trace_source agg sid)
  then show ?thesis by (auto simp: traceSourceEffects_def source_effects_def intro!: leasing.find_all_rule)
next
  case (Next_link agg sid)
  then show ?thesis
    by (auto simp: getNextCausalLink_def source_effects_def intro!: leasing.find_all_rule split: list.splits)
next
  case (Sequence_gap agg sid)
  then show ?thesis by (auto simp: findSequenceGap_def source_effects_def intro!: leasing.find_all_rule)
next
  case Get_health
  then show ?thesis by (auto simp: getOutboxHealth_def intro!: leasing.clock_rule leasing.find_all_rule)
next
  case (Reschedule j err)
  assume "quiet_about i worker c"
  with Reschedule show ?thesis
    by (auto simp: rescheduleIntent_def Let_def lease_kept_def holds_lease_def
        intro!: leasing.find_one_rule leasing.clock_rule leasing.random_rule leasing.update_rule split: option.splits)
next
  case (Release j v)
  assume "quiet_about i worker c"
  with Release show ?thesis
    by (auto simp: releaseLease_def lease_kept_def holds_lease_def intro!: leasing.update_rule)
next
  case (Retry_entry j who)
  assume "quiet_about i worker c"
  with Retry_entry show ?thesis
    by (auto simp: retryFailedOutboxEntry_def lease_kept_def holds_lease_def
        intro!: leasing.find_one_rule leasing.clock_rule leasing.update_rule split: option.splits)
qed simp_all

interpretation outbox_leases: rely_guarantee same_id "all_rows (\<lambda>_ _. True)" "evolves (lease_kept i worker t)" "\<lambda>_ _. True"
    "\<lambda>_. True" "\<lambda>c. until t (outbox_handler cfg c)" "quiet_about i worker" for i worker t cfg
  by unfold_locales (auto intro: leasing.evolves_refl leasing.evolves_trans until_leasing)

section \<open>Acknowledgements\<close>

text \<open>
  The intent \<open>i\<close> is delivered. If a delivery \<open>p\<close> is named, it is that intent's, and the successors
  that wait for it have not been told.
\<close>

definition acked_ok :: "string \<Rightarrow> string option \<Rightarrow> intent list \<Rightarrow> intent \<Rightarrow> bool" where
  "acked_ok i p s r \<longleftrightarrow> (intent_id r = i \<longrightarrow> status r = Delivered) \<and> (Some (deliveryId r) = p \<longrightarrow> intent_id r = i) \<and>
     (p \<noteq> None \<longrightarrow> previousDeliveryId r = p \<longrightarrow> \<not> predecessorDelivered r)"

definition acked_promise :: "string \<Rightarrow> string option \<Rightarrow> outbox_result \<Rightarrow> intent list \<Rightarrow> bool" where
  "acked_promise i p res s \<longleftrightarrow> (case res of
     Acked j b \<Rightarrow> j = i \<longrightarrow> \<not> b
   | Got x \<Rightarrow> intent_id x \<noteq> i \<and> (p \<noteq> None \<longrightarrow> previousDeliveryId x \<noteq> p)
   | _ \<Rightarrow> True)"

definition acked_step :: "intent \<Rightarrow> intent \<Rightarrow> bool" where
  "acked_step r r' \<longleftrightarrow> intent_id r' = intent_id r \<and> deliveryId r' = deliveryId r \<and>
     previousDeliveryId r' = previousDeliveryId r"

interpretation acking: outbox_contract "acked_ok i p" acked_step "acked_promise i p" for i p
  by unfold_locales (auto simp: acked_ok_def acked_step_def acked_promise_def)

fun worker_call :: "outbox_call \<Rightarrow> bool" where
  "worker_call (Lease _) = True"
| "worker_call (Mark _ _) = True"
| "worker_call (Retry_entry _ _) = True"
| "worker_call (Trace _) = True"
| "worker_call _ = False"

lemma kept_fixed: "stays I G (\<lambda>_. b)"
  by (simp add: stays_def)

lemma claimable_acked:
  assumes "acked_ok i p s r" "claimable now r"
  shows "intent_id r \<noteq> i \<and> (p \<noteq> None \<longrightarrow> previousDeliveryId r \<noteq> p) \<and>
    acked_step r (leased cfg w now r) \<and> acked_ok i p s (leased cfg w now r)"
  using assms by (auto simp: acked_ok_def acked_step_def leased_def claimable_def)

lemma lease_acking: "acking.sound i p (leaseNextIntent cfg worker) (\<lambda>_. True)"
  unfolding leaseNextIntent_def
proof (rule acking.clock_rule, rule kept_fixed, rule acking.updated_rule
    [where K' = "\<lambda>r _. intent_id r \<noteq> i \<and> (p \<noteq> None \<longrightarrow> previousDeliveryId r \<noteq> p)"])
  fix s t :: "intent list" and r :: intent and now
  assume "all_rows (acked_ok i p) s" "r \<in> set s" "claimable now r"
  then have r: "intent_id r \<noteq> i \<and> (p \<noteq> None \<longrightarrow> previousDeliveryId r \<noteq> p) \<and>
      acked_step r (leased cfg worker now r) \<and> acked_ok i p s (leased cfg worker now r)"
    unfolding all_rows_def by (intro claimable_acked) blast+
  then show "acked_step r (leased cfg worker now r) \<and> acked_ok i p s (leased cfg worker now r)" by blast
  show "intent_id (leased cfg worker now r) \<noteq> i \<and> (p \<noteq> None \<longrightarrow> previousDeliveryId (leased cfg worker now r) \<noteq> p)"
    using r by (simp add: leased_def)
next
  fix r :: intent
  show "acking.sound i p (case Some r of None \<Rightarrow> Return No_intent
      | Some x \<Rightarrow> if maxAttempts cfg \<le> attemptCount x
          then update_one (\<lambda>r. intent_id r = intent_id x)
            (\<lambda>r. r\<lparr>status := Dead_letter, lastError := Some ''Max attempts exceeded''\<rparr>) (\<lambda>_. Return No_intent)
          else Return (Got x))
      (\<lambda>_. intent_id r \<noteq> i \<and> (p \<noteq> None \<longrightarrow> previousDeliveryId r \<noteq> p))"
    by (auto intro!: acking.update_rule kept_fixed simp: acked_promise_def acked_step_def acked_ok_def all_rows_def)
qed (simp_all add: kept_fixed acked_promise_def)

lemma mark_acking: "acking.sound i p (markDelivered d j) (\<lambda>_. True)"
  unfolding markDelivered_def
proof (rule acking.clock_rule, rule kept_fixed, rule acking.updated_rule [where K' = "\<lambda>_ _. Some d \<noteq> p \<and> j \<noteq> i"])
  fix r :: intent
  show "acking.sound i p (case Some r of None \<Rightarrow> Return (Acked j False)
      | Some _ \<Rightarrow> update_many (\<lambda>r. previousDeliveryId r = Some d) (\<lambda>r. r\<lparr>predecessorDelivered := True\<rparr>)
          (\<lambda>_. Return (Acked j True))) (\<lambda>_. Some d \<noteq> p \<and> j \<noteq> i)"
    by (auto intro!: acking.update_many_rule kept_fixed simp: acked_promise_def acked_step_def acked_ok_def all_rows_def)
next
  fix s :: "intent list" and r :: intent
  assume "all_rows (acked_ok i p) s" "r \<in> set s" "intent_id r = j \<and> deliveryId r = d \<and> status r \<noteq> Delivered"
  then show "Some d \<noteq> p \<and> j \<noteq> i" by (auto simp: all_rows_def acked_ok_def)
qed (auto simp: kept_fixed acked_promise_def acked_step_def acked_ok_def all_rows_def)

lemma worker_acking: "worker_call c \<Longrightarrow> acking.sound i p (outbox_handler cfg c) (\<lambda>_. True)"
proof (cases c)
  case (Retry_entry j who)
  then show ?thesis
    by (auto simp: retryFailedOutboxEntry_def acked_step_def acked_ok_def all_rows_def acked_promise_def
        intro!: acking.find_one_rule acking.clock_rule acking.update_rule kept_fixed split: option.splits)
next
  case (Trace d)
  then show ?thesis by (auto simp: getOutboxTrace_def acked_promise_def intro!: acking.find_one_rule kept_fixed)
qed (simp_all add: lease_acking mark_acking)

interpretation outbox_acks: rely_guarantee same_id "all_rows (acked_ok i p)" "evolves acked_step" "acked_promise i p"
    "\<lambda>_. True" "outbox_handler cfg" worker_call for i p cfg
  by unfold_locales (auto intro: acking.evolves_refl acking.evolves_trans worker_acking)

section \<open>Sequence gaps\<close>

definition delivered_prefix :: "int \<Rightarrow> intent list \<Rightarrow> nat \<Rightarrow> bool" where
  "delivered_prefix v es n \<longleftrightarrow> n \<le> length es \<and>
     (\<forall>i < n. sourceVersion (es ! i) = Some (v + int i) \<and> status (es ! i) = Delivered)"

lemma gap_loop_spec:
  "gap_loop es v h n = \<lparr>highestContiguousVersion = h', gapAt = g, deliveredCount = m\<rparr> \<Longrightarrow>
     n \<le> m \<and> delivered_prefix v es (m - n) \<and> \<not> delivered_prefix v es (Suc (m - n)) \<and>
     h' = (if m = n then h else Some (v + int (m - n) - 1)) \<and>
     g = (if m - n < length es \<and> sourceVersion (es ! (m - n)) \<noteq> Some (v + int (m - n)) then Some (v + int (m - n)) else None)"
proof (induction es v h n rule: gap_loop.induct)
  case (1 v h n)
  then show ?case by (auto simp: delivered_prefix_def)
next
  case (2 e es v h n)
  show ?case
  proof (cases "sourceVersion e = Some v \<and> status e = Delivered")
    case True
    then have l: "gap_loop es (v + 1) (sourceVersion e) (n + 1) = \<lparr>highestContiguousVersion = h', gapAt = g, deliveredCount = m\<rparr>"
      using 2 by simp
    have ih: "n + 1 \<le> m" "delivered_prefix (v + 1) es (m - (n + 1))" "\<not> delivered_prefix (v + 1) es (Suc (m - (n + 1)))"
      "h' = (if m = n + 1 then Some v else Some (v + 1 + int (m - (n + 1)) - 1))"
      "g = (if m - (n + 1) < length es \<and> sourceVersion (es ! (m - (n + 1))) \<noteq> Some (v + 1 + int (m - (n + 1)))
            then Some (v + 1 + int (m - (n + 1))) else None)"
      using "2.IH" [OF _ _ l] True by simp_all
    have shift: "delivered_prefix v (e # es) (Suc j) \<longleftrightarrow> delivered_prefix (v + 1) es j" for j
      using True by (auto simp: delivered_prefix_def nth_Cons' less_Suc_eq_0_disj)
    have j: "m - n = Suc (m - (n + 1))" using ih(1) by simp
    show ?thesis unfolding j shift using ih by (auto simp: algebra_simps)
  next
    case False
    then show ?thesis using 2(2) by (auto simp: delivered_prefix_def split: if_splits)
  qed
qed

lemma backoff_mono: "1 \<le> backoffMultiplier cfg \<Longrightarrow> 0 \<le> initialBackoffMs cfg \<Longrightarrow> m \<le> n \<Longrightarrow>
    initialBackoffMs cfg * backoffMultiplier cfg ^ m \<le> initialBackoffMs cfg * backoffMultiplier cfg ^ n"
  by (intro mult_left_mono power_increasing)

section \<open>Properties\<close>

text \<open>
  C29: Effects are leased in causal order: in every interleaving of producers, workers, failure
  reports, releases, retries and replays of dead letters, that is of every function of the file but
  \<open>replaySource\<close>, an intent is handed to a worker only when its predecessor has been acknowledged:
  the predecessor carries the time of its delivery, which none of these calls takes away, although a
  late failure report may have made it pending again. And an intent handed out is at its first to
  last but one attempt, so with the default configuration four attempts are made, not five.
\<close>

theorem leases_respect_causal_order:
  assumes "documented_db same_id D" "\<forall>c \<in> begun moves. keeps_deliveries c"
    and "Got x \<in> set (results (run D (outbox_handler cfg) moves (world_of [])))"
  shows "(\<forall>p. previousDeliveryId x = Some p \<longrightarrow>
      was_delivered (rows (run D (outbox_handler cfg) moves (world_of []))) p)
    \<and> 0 < attemptCount x \<and> attemptCount x < maxAttempts cfg"
proof -
  have "all_rows causal_ok []" by (simp add: all_rows_def)
  from outbox_order.run_keeps(3) [OF assms(1) this TrueI _ assms(3)] assms(2)
  have "lease_promise cfg (Got x) (rows (run D (outbox_handler cfg) moves (world_of [])))" by blast
  then show ?thesis by (simp add: lease_promise_def)
qed

text \<open>Runs of a database in memory, with identifiers and times chosen by the moves.\<close>

definition enqueue_moves :: "nat \<Rightarrow> string \<Rightarrow> string option \<Rightarrow> string \<Rightarrow> int \<Rightarrow> (outbox_call, told) move list" where
  "enqueue_moves n d prev i t =
     [Begin (Enqueue ''purchase'' ''s'' ''x'' (Some d) (Some 1) prev None), Turn n (Says (Time t)), Turn n (Says (Id i)),
      Turn n (Says (Id ''u''))]"

definition sample_run :: "(outbox_call, told) move list" where
  "sample_run = enqueue_moves 0 ''p'' None ''1'' 0 @ [Turn 0 (Works 0), Turn 0 (Works 0),
     Begin (Lease ''w''), Turn 1 (Says (Time 10)), Turn 1 (Works 0)]"

abbreviation sample_world :: "(outbox_call, told) move list \<Rightarrow> (intent, outside, told, outbox_result) world" where
  "sample_world moves \<equiv> run (mem_db same_id) (outbox_handler DEFAULT_CONFIG) moves (world_of [])"

definition got :: "outbox_result \<Rightarrow> intent option" where
  "got res = (case res of Got x \<Rightarrow> Some x | _ \<Rightarrow> None)"

lemma got_iff: "got res = Some x \<longleftrightarrow> res = Got x"
  by (cases res) (simp_all add: got_def)

lemma got_mem: "got (rs ! n) \<noteq> None \<Longrightarrow> n < length rs \<Longrightarrow> Got (the (got (rs ! n))) \<in> set rs"
  using got_iff [of "rs ! n" "the (got (rs ! n))"] by (metis nth_mem option.collapse)

theorem leases_respect_causal_order_witness:
  "\<exists>x. Got x \<in> set (results (sample_world sample_run)) \<and> 0 < attemptCount x \<and> attemptCount x < 5"
proof -
  let ?x = "the (got (results (sample_world sample_run) ! 1))"
  have "got (results (sample_world sample_run) ! 1) \<noteq> None" "1 < length (results (sample_world sample_run))" by code_simp+
  then have x: "Got ?x \<in> set (results (sample_world sample_run))" by (rule got_mem)
  moreover have "\<forall>c \<in> begun sample_run. keeps_deliveries c" by (auto simp: begun_def sample_run_def enqueue_moves_def)
  ultimately show ?thesis
    using leases_respect_causal_order [OF mem_documented, of sample_run ?x DEFAULT_CONFIG] by (auto simp: DEFAULT_CONFIG_def)
qed

text \<open>
  C30: A lease is not stolen: once a worker has leased an intent until some time, then as long as no
  clock has reached that time, the intent stays leased by it until then, or is delivered, or is in
  the dead letters, with the lease's owner and end unchanged. This holds in every run of any calls,
  other workers' leases that are under way when the lease is taken included, but for the calls that
  give an intent back on purpose: reports of a failure and retries of this intent, its worker's
  release of it, and replays.
\<close>

theorem leases_are_not_stolen:
  assumes "documented_db same_id D" "\<forall>c \<in> begun moves. quiet_about i worker c" "j \<le> k"
    and "\<forall>n u. (Ask Clock, Said (Time u)) \<in> set (conversation D (outbox_handler cfg) moves (world_of s) n) \<longrightarrow> u < t"
    and "n < length (rows (run D (outbox_handler cfg) (take j moves) (world_of s)))"
    and "r = rows (run D (outbox_handler cfg) (take j moves) (world_of s)) ! n"
    and "intent_id r = i" "status r = Leased" "leasedBy r = Some worker" "leaseExpiresAt r = Some t"
    and "r' = rows (run D (outbox_handler cfg) (take k moves) (world_of s)) ! n"
  shows "intent_id r' = i \<and> leasedBy r' = Some worker \<and> leaseExpiresAt r' = Some t
    \<and> (status r' = Leased \<or> status r' = Delivered \<or> status r' = Dead_letter)"
proof -
  let ?h = "\<lambda>c. until t (outbox_handler cfg c)"
  have same: "rows (run D ?h (take m moves) (world_of s)) = rows (run D (outbox_handler cfg) (take m moves) (world_of s))" for m
  proof -
    have "reads_before t q a" if "(q, a) \<in> set (conversation D (outbox_handler cfg) (take m moves) (world_of s) n)" for n q a
      using that conversation_take assms(4) unfolding reads_before_def by blast
    then show ?thesis
      using run_cut_off [of D "outbox_handler cfg" "take m moves" "world_of s" "reads_before t" Thrown] by simp
  qed
  have "all_rows (\<lambda>_ _. True) s" by (simp add: all_rows_def)
  from outbox_leases.run_guarantees [OF assms(1) this TrueI _ assms(3)] assms(2)
  have "evolves (lease_kept i worker t) (rows (run D ?h (take j moves) (world_of s))) (rows (run D ?h (take k moves) (world_of s)))" by blast
  then have "lease_kept i worker t r r'" using assms(5,6,11) by (simp add: same evolves_def)
  then show ?thesis using assms(7-10) by (simp add: lease_kept_def holds_lease_def)
qed

definition steal_moves :: "(outbox_call, told) move list" where
  "steal_moves = enqueue_moves 0 ''p'' None ''1'' 0 @ [Turn 0 (Works 0), Turn 0 (Works 0),
     Begin (Lease ''w''), Begin (Lease ''v''), Turn 1 (Says (Time 10)), Turn 2 (Says (Time 20)), Turn 1 (Works 0), Turn 2 (Works 0)]"

theorem leases_are_not_stolen_witness:
  "status (rows (sample_world (take 11 steal_moves)) ! 0) = Leased \<and>
   leasedBy (rows (sample_world (take 12 steal_moves)) ! 0) = Some ''w''"
proof -
  let ?r = "rows (sample_world (take 11 steal_moves)) ! 0"
  have "0 < length (rows (sample_world (take 11 steal_moves)))" "intent_id ?r = ''1''" "status ?r = Leased"
    "leasedBy ?r = Some ''w''" "leaseExpiresAt ?r = Some 300010"
    by code_simp+
  moreover have "\<forall>c \<in> begun steal_moves. quiet_about ''1'' ''w'' c" by (auto simp: begun_def steal_moves_def enqueue_moves_def)
  moreover have "u < 300010" if "(Ask Clock, Said (Time u)) \<in>
      set (conversation (mem_db same_id) (outbox_handler DEFAULT_CONFIG) steal_moves (world_of []) n)" for n u
    using mem_said [OF that] by (auto simp: steal_moves_def enqueue_moves_def)
  ultimately show ?thesis
    using leases_are_not_stolen [OF mem_documented, of steal_moves "''1''" "''w''" 11 12 DEFAULT_CONFIG "[]" 300010 0 ?r] by simp
qed

text \<open>
  Acknowledging an effect again is refused: once an intent is delivered, no later
  acknowledgement of it by any worker succeeds and nobody leases it again, as long as workers
  lease, acknowledge and retry dead letters only.
\<close>

theorem duplicate_ack_is_refused:
  assumes "documented_db same_id D" "\<forall>c \<in> begun moves. worker_call c"
    and "\<forall>r \<in> set s. intent_id r = i \<longrightarrow> status r = Delivered"
    and "res \<in> set (results (run D (outbox_handler cfg) moves (world_of s)))"
  shows "res \<noteq> Acked i True \<and> (\<forall>x. res = Got x \<longrightarrow> intent_id x \<noteq> i)"
proof -
  have "all_rows (acked_ok i None) s" using assms(3) by (auto simp: all_rows_def acked_ok_def)
  from outbox_acks.run_keeps(3) [OF assms(1) this TrueI _ assms(4)] assms(2)
  have "acked_promise i None res (rows (run D (outbox_handler cfg) moves (world_of s)))" by blast
  then show ?thesis by (auto simp: acked_promise_def)
qed

definition delivered_run :: "(outbox_call, told) move list" where
  "delivered_run = sample_run @ [Begin (Mark ''p'' ''1''), Turn 2 (Says (Time 30)), Turn 2 (Works 0), Turn 2 (Works 0)]"

definition again_moves :: "(outbox_call, told) move list" where
  "again_moves = [Begin (Mark ''p'' ''1''), Turn 0 (Says (Time 40)), Turn 0 (Works 0)]"

theorem duplicate_ack_is_refused_witness:
  "results (run (mem_db same_id) (outbox_handler DEFAULT_CONFIG) again_moves (world_of (rows (sample_world delivered_run))))
     = [Acked ''1'' False] \<and> Acked ''1'' False \<noteq> Acked ''1'' True"
proof -
  let ?s = "rows (sample_world delivered_run)"
  have res: "results (run (mem_db same_id) (outbox_handler DEFAULT_CONFIG) again_moves (world_of ?s)) = [Acked ''1'' False]"
    by code_simp
  have "\<forall>r \<in> set ?s. intent_id r = ''1'' \<longrightarrow> status r = Delivered" by code_simp
  moreover have "\<forall>c \<in> begun again_moves. worker_call c" by (auto simp: begun_def again_moves_def)
  ultimately show ?thesis
    using duplicate_ack_is_refused [OF mem_documented, of again_moves ?s "''1''" "Acked ''1'' False" DEFAULT_CONFIG] res
    by simp
qed

definition lost_moves :: "(outbox_call, told) move list" where
  "lost_moves = sample_run @ enqueue_moves 2 ''q'' (Some ''p'') ''2'' 20 @ [Turn 2 (Works 0),
     Begin (Mark ''p'' ''1''), Turn 3 (Says (Time 30)), Turn 3 (Works 0), Turn 3 (Works 0),
     Turn 2 (Works 0), Turn 2 (Works 0)] @ enqueue_moves 4 ''z'' None ''3'' 40 @ [Turn 4 (Works 0), Turn 4 (Works 0)]"

text \<open>
  A wake-up can be lost: a successor is enqueued while its predecessor is out for delivery;
  the producer has seen that it is not delivered yet, then the worker acknowledges it and tells the
  successors, of which there are none, then the successor is inserted. From that state no worker
  ever leases the successor, although its predecessor is delivered; a third effect is leased as
  usual.
\<close>

theorem wakeup_can_be_lost:
  assumes "documented_db same_id D" "\<forall>c \<in> begun moves. worker_call c"
    and "Got x \<in> set (results (run D (outbox_handler cfg) moves (world_of (rows (sample_world lost_moves)))))"
  shows "previousDeliveryId x \<noteq> Some ''p'' \<and> was_delivered (rows (sample_world lost_moves)) ''p'' \<and>
    map (\<lambda>r. (deliveryId r, status r, previousDeliveryId r)) (rows (sample_world lost_moves))
      = [(''p'', Delivered, None), (''q'', Pending, Some ''p''), (''z'', Pending, None)]"
proof -
  let ?s = "rows (sample_world lost_moves)"
  have s: "map (\<lambda>r. (deliveryId r, status r, previousDeliveryId r)) ?s
      = [(''p'', Delivered, None), (''q'', Pending, Some ''p''), (''z'', Pending, None)]" by code_simp
  have "was_delivered ?s ''p''" unfolding was_delivered_def by code_simp
  moreover have ok: "all_rows (acked_ok ''1'' (Some ''p'')) ?s" unfolding all_rows_def by code_simp
  from outbox_acks.run_keeps(3) [OF assms(1) ok TrueI _ assms(3)] assms(2)
  have "acked_promise ''1'' (Some ''p'') (Got x) (rows (run D (outbox_handler cfg) moves (world_of ?s)))" by blast
  ultimately show ?thesis using s by (simp add: acked_promise_def)
qed

definition third_moves :: "(outbox_call, told) move list" where
  "third_moves = [Begin (Lease ''v''), Turn 0 (Says (Time 1000)), Turn 0 (Works 0)]"

theorem wakeup_can_be_lost_witness:
  "\<exists>x. Got x \<in> set (results (run (mem_db same_id) (outbox_handler DEFAULT_CONFIG) third_moves
      (world_of (rows (sample_world lost_moves))))) \<and> deliveryId x = ''z'' \<and> previousDeliveryId x \<noteq> Some ''p''"
proof -
  let ?w = "run (mem_db same_id) (outbox_handler DEFAULT_CONFIG) third_moves (world_of (rows (sample_world lost_moves)))"
  let ?x = "the (got (results ?w ! 0))"
  have "got (results ?w ! 0) \<noteq> None" "0 < length (results ?w)" by code_simp+
  then have x: "Got ?x \<in> set (results ?w)" by (rule got_mem)
  moreover have "deliveryId ?x = ''z''" by code_simp
  moreover have "\<forall>c \<in> begun third_moves. worker_call c" by (auto simp: begun_def third_moves_def)
  ultimately show ?thesis using wakeup_can_be_lost [OF mem_documented _ x(1)] by blast
qed

definition late_failure :: "(outbox_call, told) move list" where
  "late_failure = delivered_run @ [Begin (Reschedule ''1'' ''timeout''), Turn 3 (Works 0), Turn 3 (Says (Time 40)),
     Turn 3 (Says (Fraction (1/2))), Turn 3 (Works 0), Begin (Lease ''v''), Turn 4 (Says (Time 5000)), Turn 4 (Works 0)]"

definition late_release :: "(outbox_call, told) move list" where
  "late_release = delivered_run @ [Begin (Release ''1'' ''w''), Turn 3 (Works 0),
     Begin (Lease ''v''), Turn 4 (Says (Time 50)), Turn 4 (Works 0)]"

text \<open>
  A late report delivers twice: the failure report and the release of a lease do not look at
  the status, so one that comes after the acknowledgement makes the delivered effect pending, and
  the next worker gets it although it was acknowledged.
\<close>

theorem late_report_redelivers:
  "(let rs = results (sample_world late_failure) in
      rs ! 2 = Acked ''1'' True \<and> map_option (\<lambda>x. (deliveryId x, leasedBy x, deliveredAt x)) (got (rs ! 4))
        = Some (''p'', Some ''v'', Some 30)) \<and>
   (let rs = results (sample_world late_release) in
      rs ! 2 = Acked ''1'' True \<and> map_option (\<lambda>x. (deliveryId x, leasedBy x, deliveredAt x)) (got (rs ! 4))
        = Some (''p'', Some ''v'', Some 30))"
  unfolding Let_def by (intro conjI; code_simp)

text \<open>
  The report of a sequence counts the longest run of delivered effects from the first version
  on, names the last of them, and a gap exactly when the next effect of the list has another
  version than the next number.
\<close>

theorem sequence_gap_exact:
  assumes "filter (\<lambda>e. sourceVersion e \<noteq> None) effects = es" "es \<noteq> []" "sourceVersion (hd es) = Some v"
    and "sequence_gap effects = g" "n = deliveredCount g"
  shows "delivered_prefix v es n \<and> \<not> delivered_prefix v es (Suc n)
    \<and> highestContiguousVersion g = (if n = 0 then None else Some (v + int n - 1))
    \<and> gapAt g = (if n < length es \<and> sourceVersion (es ! n) \<noteq> Some (v + int n) then Some (v + int n) else None)"
proof -
  have "gap_loop es v None 0 = g" using assms(1-4) by (cases es) (simp_all add: sequence_gap_def)
  then have "gap_loop es v None 0 =
      \<lparr>highestContiguousVersion = highestContiguousVersion g, gapAt = gapAt g, deliveredCount = n\<rparr>"
    using assms(5) by simp
  from gap_loop_spec [OF this] show ?thesis by simp
qed

definition version_of :: "int \<Rightarrow> outbox_status \<Rightarrow> intent" where
  "version_of v st = (outbox_entry ''1'' ''a'' ''s'' ''x'' (Some v) None True None ''d'' 0)\<lparr>status := st\<rparr>"

theorem sequence_gap_exact_witness:
  "sequence_gap [version_of 3 Delivered, version_of 4 Delivered, version_of 6 Delivered]
    = \<lparr>highestContiguousVersion = Some 4, gapAt = Some 5, deliveredCount = 2\<rparr>
   \<and> delivered_prefix 3 [version_of 3 Delivered, version_of 4 Delivered, version_of 6 Delivered] 2"
proof -
  let ?es = "[version_of 3 Delivered, version_of 4 Delivered, version_of 6 Delivered]"
  have g: "sequence_gap ?es = \<lparr>highestContiguousVersion = Some 4, gapAt = Some 5, deliveredCount = 2\<rparr>" by code_simp
  moreover have "filter (\<lambda>e. sourceVersion e \<noteq> None) ?es = ?es" "sourceVersion (hd ?es) = Some 3" by code_simp+
  ultimately show ?thesis using sequence_gap_exact [of ?es ?es 3 _ 2] by simp
qed

text \<open>
  The delay before the next attempt is at least the initial one and at most the maximum with
  its jitter, and grows with the attempts: between one second and 72 seconds by default.
\<close>

theorem backoff_is_bounded:
  assumes "0 \<le> rnd" "rnd < 1" "m \<le> n"
  shows "now + 1000 \<le> computeNextAttempt DEFAULT_CONFIG n now rnd
    \<and> computeNextAttempt DEFAULT_CONFIG n now rnd \<le> now + 72000
    \<and> computeNextAttempt DEFAULT_CONFIG m now rnd \<le> computeNextAttempt DEFAULT_CONFIG n now rnd"
proof -
  define c where "c k = min (1000 * 2 ^ k) (60000 :: rat)" for k
  have nxt: "computeNextAttempt DEFAULT_CONFIG k now rnd = \<lfloor>of_int now + c k + c k * (2 / 10) * rnd\<rfloor>" for k
    by (simp add: computeNextAttempt_def DEFAULT_CONFIG_def c_def Let_def)
  have "1000 * 2 ^ m \<le> (1000 * 2 ^ n :: rat)" using assms(3) by simp
  then have "c m \<le> c n" unfolding c_def by (rule min.mono) simp
  moreover have "1000 \<le> c k" "c k \<le> 60000" for k by (simp_all add: c_def)
  ultimately have c: "c m \<le> c n" "1000 \<le> c n" "c n \<le> 60000" "0 \<le> c m"
    using order_trans [of 0 1000 "c m"] by auto
  then have "0 \<le> c n * (2 / 10) * rnd" "c n * (2 / 10) * rnd \<le> 60000 * (2 / 10) * 1"
    using assms by (simp, intro mult_mono) auto
  moreover have "c m * (2 / 10) * rnd \<le> c n * (2 / 10) * rnd" using c assms by (intro mult_right_mono) auto
  ultimately have b: "of_int (now + 1000) \<le> of_int now + c n + c n * (2 / 10) * rnd"
      "of_int now + c n + c n * (2 / 10) * rnd \<le> of_int (now + 72000)"
      "of_int now + c m + c m * (2 / 10) * rnd \<le> of_int now + c n + c n * (2 / 10) * rnd"
    using c by simp_all
  show ?thesis unfolding nxt
  proof (intro conjI)
    show "now + 1000 \<le> \<lfloor>of_int now + c n + c n * (2 / 10) * rnd\<rfloor>" using b(1) by (simp only: le_floor_iff)
    show "\<lfloor>of_int now + c n + c n * (2 / 10) * rnd\<rfloor> \<le> now + 72000"
      using b(2) order_trans [OF of_int_floor_le b(2)] by (simp only: of_int_le_iff)
    show "\<lfloor>of_int now + c m + c m * (2 / 10) * rnd\<rfloor> \<le> \<lfloor>of_int now + c n + c n * (2 / 10) * rnd\<rfloor>"
      by (rule floor_mono [OF b(3)])
  qed
qed

theorem backoff_is_bounded_witness:
  "computeNextAttempt DEFAULT_CONFIG 3 0 (1 / 2) = 8800 \<and> 8800 \<le> (72000 :: int)"
proof -
  have "computeNextAttempt DEFAULT_CONFIG 3 0 (1 / 2) = 8800" by code_simp
  then show ?thesis using backoff_is_bounded [of "1 / 2" 3 3 0] by simp
qed

end
