(* ===== verification/DocStore.thy ===== *)
theory DocStore imports AsyncStore Json begin

text \<open>
  The calls of the services that keep dynamic documents in MongoDB: documents of named collections,
  queries by field equality, \<open>$set\<close>, upserts with \<open>$setOnInsert\<close>, and the unique indexes. A call
  has two continuations: one for its result, one for what the function does when it throws.
  \<open>docs_contract\<close> is the contract of such handlers over a per-document invariant.
\<close>

section \<open>Documents\<close>

record doc =
  coll :: string
  body :: document

definition field_of :: "doc \<Rightarrow> string \<Rightarrow> json option" where
  "field_of d k = map_of (body d) k"

text \<open>A filter \<open>{ k: v }\<close>: null matches a field that is null or missing.\<close>

definition matches_field :: "doc \<Rightarrow> string \<times> json \<Rightarrow> bool" where
  "matches_field d kv = (if snd kv = JNull then nullish (field_of d (fst kv)) else field_of d (fst kv) = Some (snd kv))"

definition query :: "string \<Rightarrow> document \<Rightarrow> doc \<Rightarrow> bool" where
  "query c flt d \<longleftrightarrow> coll d = c \<and> list_all (matches_field d) flt"

definition put :: "document \<Rightarrow> doc \<Rightarrow> doc" where
  "put kvs d = d\<lparr>body := set_fields kvs (body d)\<rparr>"

text \<open>What an upsert inserts: the fields of the filter, \<open>$set\<close> and \<open>$setOnInsert\<close>.\<close>

definition fresh_doc :: "string \<Rightarrow> string \<Rightarrow> document \<Rightarrow> document \<Rightarrow> document \<Rightarrow> doc" where
  "fresh_doc i c flt sets ins = \<lparr>coll = c, body = set_fields (flt @ sets @ ins) [(''_id'', JStr i)]\<rparr>"

text \<open>
  The unique indexes: \<open>_id\<close> in every collection; one purchase and one cache entry per material and
  buyer; the transaction of a purchase, sparse, so that only a missing field is left out.
\<close>

definition same_values :: "string list \<Rightarrow> doc \<Rightarrow> doc \<Rightarrow> bool" where
  "same_values ks x y \<longleftrightarrow> list_all (\<lambda>k. nullish_null (field_of x k) = nullish_null (field_of y k)) ks"

definition same_key :: "doc \<Rightarrow> doc \<Rightarrow> bool" where
  "same_key x y \<longleftrightarrow> coll x = coll y \<and>
     (same_values [''_id''] x y \<or>
      coll x \<in> {''purchases'', ''entitlement_cache''} \<and> same_values [''materialId'', ''buyerAddress''] x y \<or>
      coll x = ''purchases'' \<and> field_of x ''chainTxHash'' \<noteq> None \<and>
        field_of x ''chainTxHash'' = field_of y ''chainTxHash'')"

lemma put_simps [simp]: "coll (put kvs d) = coll d" "body (put kvs d) = set_fields kvs (body d)"
  by (simp_all add: put_def)

lemma field_put: "distinct (keys kvs) \<Longrightarrow>
    field_of (put kvs d) k = (case map_of kvs k of Some v \<Rightarrow> Some v | None \<Rightarrow> field_of d k)"
  by (simp add: field_of_def map_of_set_fields_distinct split: option.splits)

lemma fresh_coll [simp]: "coll (fresh_doc i c flt sets ins) = c"
  by (simp add: fresh_doc_def)

lemma field_fresh: "field_of (fresh_doc i c flt sets ins) k =
    (case map_of (rev (flt @ sets @ ins)) k of Some v \<Rightarrow> Some v | None \<Rightarrow> if k = ''_id'' then Some (JStr i) else None)"
  unfolding field_of_def fresh_doc_def by (simp add: map_of_set_fields del: rev_append split: option.splits)

lemma query_coll: "query c flt d \<Longrightarrow> coll d = c"
  by (simp add: query_def)

lemma query_field: "query c flt d \<Longrightarrow> (k, v) \<in> set flt \<Longrightarrow> v \<noteq> JNull \<Longrightarrow> field_of d k = Some v"
  by (auto simp: query_def list_all_iff matches_field_def dest!: bspec [of "set flt"])

section \<open>Calls\<close>

datatype 'e ask = Clock | Fresh_id | Other 'e
datatype 'v answer = Time int | Id string | Told 'v

datatype thrown = Duplicate_key | Call_failed | Error string

type_synonym ('e, 'v, 'r) script = "(doc, 'e ask, 'v answer, 'r) async"

definition clock :: "(thrown \<Rightarrow> ('e, 'v, 'r) script) \<Rightarrow> (int \<Rightarrow> ('e, 'v, 'r) script) \<Rightarrow> ('e, 'v, 'r) script" where
  "clock err k = Await (Ask Clock) (\<lambda>a. case a of Said (Time t) \<Rightarrow> k t | _ \<Rightarrow> err Call_failed)"

definition fresh_id :: "(thrown \<Rightarrow> ('e, 'v, 'r) script) \<Rightarrow> (string \<Rightarrow> ('e, 'v, 'r) script) \<Rightarrow> ('e, 'v, 'r) script" where
  "fresh_id err k = Await (Ask Fresh_id) (\<lambda>a. case a of Said (Id i) \<Rightarrow> k i | _ \<Rightarrow> err Call_failed)"

definition outer :: "(thrown \<Rightarrow> ('e, 'v, 'r) script) \<Rightarrow> 'e \<Rightarrow> ('v \<Rightarrow> ('e, 'v, 'r) script) \<Rightarrow> ('e, 'v, 'r) script" where
  "outer err e k = Await (Ask (Other e)) (\<lambda>a. case a of Said (Told v) \<Rightarrow> k v | _ \<Rightarrow> err Call_failed)"

definition find_doc :: "(thrown \<Rightarrow> ('e, 'v, 'r) script) \<Rightarrow> (doc \<Rightarrow> bool) \<Rightarrow>
    (doc option \<Rightarrow> ('e, 'v, 'r) script) \<Rightarrow> ('e, 'v, 'r) script" where
  "find_doc err P k = Await (Find_one P) (\<lambda>a. case a of Row r \<Rightarrow> k r | _ \<Rightarrow> err Call_failed)"

definition find_docs :: "(thrown \<Rightarrow> ('e, 'v, 'r) script) \<Rightarrow> (doc \<Rightarrow> bool) \<Rightarrow>
    (doc list \<Rightarrow> ('e, 'v, 'r) script) \<Rightarrow> ('e, 'v, 'r) script" where
  "find_docs err P k = Await (Find_all P) (\<lambda>a. case a of Rows rs \<Rightarrow> k rs | _ \<Rightarrow> err Call_failed)"

definition update_doc :: "(thrown \<Rightarrow> ('e, 'v, 'r) script) \<Rightarrow> (doc \<Rightarrow> bool) \<Rightarrow> (doc \<Rightarrow> doc) \<Rightarrow>
    (doc option \<Rightarrow> ('e, 'v, 'r) script) \<Rightarrow> ('e, 'v, 'r) script" where
  "update_doc err P f k = Await (Update_one P f None)
     (\<lambda>a. case a of Updated r \<Rightarrow> k r | Duplicate \<Rightarrow> err Duplicate_key | _ \<Rightarrow> err Call_failed)"

definition update_docs :: "(thrown \<Rightarrow> ('e, 'v, 'r) script) \<Rightarrow> (doc \<Rightarrow> bool) \<Rightarrow> (doc \<Rightarrow> doc) \<Rightarrow>
    (nat \<Rightarrow> ('e, 'v, 'r) script) \<Rightarrow> ('e, 'v, 'r) script" where
  "update_docs err P f k = Await (Update_all P f) (\<lambda>a. case a of Count n \<Rightarrow> k n | _ \<Rightarrow> err Call_failed)"

definition insert_doc :: "(thrown \<Rightarrow> ('e, 'v, 'r) script) \<Rightarrow> doc \<Rightarrow> ('e, 'v, 'r) script \<Rightarrow> ('e, 'v, 'r) script" where
  "insert_doc err d k = Await (Insert_one d)
     (\<lambda>a. case a of Inserted _ \<Rightarrow> k | Duplicate \<Rightarrow> err Duplicate_key | _ \<Rightarrow> err Call_failed)"

definition delete_doc :: "(thrown \<Rightarrow> ('e, 'v, 'r) script) \<Rightarrow> (doc \<Rightarrow> bool) \<Rightarrow> (nat \<Rightarrow> ('e, 'v, 'r) script) \<Rightarrow> ('e, 'v, 'r) script" where
  "delete_doc err P k = Await (Delete_one P) (\<lambda>a. case a of Count n \<Rightarrow> k n | _ \<Rightarrow> err Call_failed)"

definition upsert_doc :: "(thrown \<Rightarrow> ('e, 'v, 'r) script) \<Rightarrow> string \<Rightarrow> document \<Rightarrow> document \<Rightarrow> document \<Rightarrow>
    ('e, 'v, 'r) script \<Rightarrow> ('e, 'v, 'r) script" where
  "upsert_doc err c flt sets ins k =
     fresh_id err (\<lambda>i. Await (Update_one (query c flt) (put sets) (Some (fresh_doc i c flt sets ins)))
       (\<lambda>a. case a of Updated _ \<Rightarrow> k | Upserted _ \<Rightarrow> k | Duplicate \<Rightarrow> err Duplicate_key | _ \<Rightarrow> err Call_failed))"

section \<open>The contract\<close>

text \<open>
  Every document satisfies \<open>\<phi>\<close>; a document with \<open>V\<close> stays one as \<open>R\<close> allows, and is not deleted.
\<close>

definition docs_ok :: "(doc \<Rightarrow> bool) \<Rightarrow> doc list \<Rightarrow> bool" where
  "docs_ok \<phi> s \<longleftrightarrow> (\<forall>d \<in> set s. \<phi> d)"

definition lasting :: "(doc \<Rightarrow> bool) \<Rightarrow> (doc \<Rightarrow> doc \<Rightarrow> bool) \<Rightarrow> doc list \<Rightarrow> doc list \<Rightarrow> bool" where
  "lasting V R s t \<longleftrightarrow> (\<forall>d \<in> set s. V d \<longrightarrow> (\<exists>d' \<in> set t. V d' \<and> R d d'))"

definition present :: "(doc \<Rightarrow> bool) \<Rightarrow> doc list \<Rightarrow> bool" where
  "present V s \<longleftrightarrow> (\<exists>d \<in> set s. V d)"

lemma present_lasts: "lasting V R s t \<Longrightarrow> present V s \<Longrightarrow> present V t"
  by (auto simp: lasting_def present_def)

locale docs_contract =
  fixes \<phi> V :: "doc \<Rightarrow> bool"
    and R :: "doc \<Rightarrow> doc \<Rightarrow> bool"
    and Q :: "'r \<Rightarrow> doc list \<Rightarrow> bool"
  assumes R_refl: "R d d"
    and R_trans: "R d e \<Longrightarrow> R e f \<Longrightarrow> R d f"
begin

abbreviation sound :: "('e, 'v, 'r) script \<Rightarrow> (doc list \<Rightarrow> bool) \<Rightarrow> bool" where
  "sound \<equiv> good same_key (docs_ok \<phi>) (lasting V R) Q"

abbreviation kept :: "(doc list \<Rightarrow> bool) \<Rightarrow> bool" where
  "kept \<equiv> stays (docs_ok \<phi>) (lasting V R)"

lemma lasting_refl: "lasting V R s s"
  using R_refl by (auto simp: lasting_def)

lemma lasting_trans: "lasting V R s t \<Longrightarrow> lasting V R t u \<Longrightarrow> lasting V R s u"
  unfolding lasting_def using R_trans by meson

lemma lasting_superset: "set s \<subseteq> set t \<Longrightarrow> lasting V R s t"
  using R_refl by (auto simp: lasting_def)

lemma kept_present [simp]: "kept (present V)"
  unfolding stays_def using present_lasts by blast

lemma kept_True [simp]: "kept (\<lambda>_. True)"
  by (simp add: stays_def)

text \<open>A change of one document, and the calls that change documents.\<close>

definition allowed :: "(doc \<Rightarrow> bool) \<Rightarrow> (doc \<Rightarrow> doc) \<Rightarrow> bool" where
  "allowed P f \<longleftrightarrow> (\<forall>d. \<phi> d \<longrightarrow> P d \<longrightarrow> \<phi> (f d) \<and> (V d \<longrightarrow> V (f d) \<and> R d (f d)))"

lemma change_keeps:
  assumes "docs_ok \<phi> s" "\<And>d. d \<in> set t \<Longrightarrow> d \<in> set s \<or> \<phi> d"
    and "\<And>d. d \<in> set s \<Longrightarrow> V d \<Longrightarrow> \<exists>d' \<in> set t. V d' \<and> R d d'"
  shows "docs_ok \<phi> t \<and> lasting V R s t"
  using assms by (auto simp: docs_ok_def lasting_def)

lemma update_one_keeps:
  assumes "documented same_key (Update_one P f ups) s a s'" "docs_ok \<phi> s" "allowed P f" "\<And>d. ups = Some d \<Longrightarrow> \<phi> d"
  shows "docs_ok \<phi> s' \<and> lasting V R s s'"
  using documented_update_rows [OF assms(1)]
proof (elim disjE exE conjE)
  fix i
  assume "update_at same_key P f i s s'"
  then have i: "i < length s" "P (s ! i)" "s' = s[i := f (s ! i)]" by (simp_all add: update_at_def)
  then have f: "\<phi> (f (s ! i))" "V (s ! i) \<Longrightarrow> V (f (s ! i)) \<and> R (s ! i) (f (s ! i))"
    using assms(2,3) by (auto simp: allowed_def docs_ok_def)
  show ?thesis
  proof (rule change_keeps [OF assms(2)])
    show "d \<in> set s \<or> \<phi> d" if "d \<in> set s'" for d
      using set_list_update_memI [OF i(1) that [unfolded i(3)]] f(1) by auto
    show "\<exists>d' \<in> set s'. V d' \<and> R d d'" if d: "d \<in> set s" "V d" for d
    proof -
      obtain j where j: "j < length s" "s ! j = d" using d(1) by (auto simp: in_set_conv_nth)
      have "s' ! j \<in> set s'" using j i(3) by simp
      moreover have "V (s' ! j) \<and> R d (s' ! j)" using j i f(2) d(2) R_refl by (cases "i = j") auto
      ultimately show ?thesis by blast
    qed
  qed
next
  fix r
  assume "ups = Some r" "s' = s @ [r]"
  then show ?thesis using assms(2,4) R_refl by (intro change_keeps) auto
qed (use assms(2) lasting_refl in auto)

lemma update_all_keeps:
  assumes "documented same_key (Update_all P f) s a s'" "docs_ok \<phi> s" "allowed P f"
  shows "docs_ok \<phi> s' \<and> lasting V R s s'"
  using documented_update_all [OF assms(1)]
proof
  assume s': "s' = map (\<lambda>r. if P r then f r else r) s"
  show ?thesis
  proof (rule change_keeps [OF assms(2)])
    show "d \<in> set s \<or> \<phi> d" if "d \<in> set s'" for d
      using that assms(2,3) by (auto simp: s' allowed_def docs_ok_def)
    show "\<exists>d' \<in> set s'. V d' \<and> R d d'" if "d \<in> set s" "V d" for d
      using that assms(2,3) R_refl
      by (intro bexI [of _ "if P d then f d else d"]) (auto simp: s' allowed_def docs_ok_def)
  qed
qed (use assms(2) lasting_refl in auto)

lemma delete_keeps:
  assumes "documented same_key (Delete_one P) s a s'" "docs_ok \<phi> s" "\<And>d. P d \<Longrightarrow> \<not> V d"
  shows "docs_ok \<phi> s' \<and> lasting V R s s'"
proof -
  have "s' = s \<or> (\<exists>i < length s. P (s ! i) \<and> s' = take i s @ drop (Suc i) s)"
    using assms(1) by (auto simp: documented_def effect_def split: reply.splits)
  then show ?thesis
  proof (elim disjE exE conjE)
    fix i
    assume i: "i < length s" "P (s ! i)" "s' = take i s @ drop (Suc i) s"
    have split: "s = take i s @ s ! i # drop (Suc i) s" using i(1) by (rule id_take_nth_drop)
    have sub: "set s' \<subseteq> set s" unfolding i(3) using set_take_subset set_drop_subset by fastforce
    have "d \<in> set s'" if "d \<in> set s" "V d" for d
    proof -
      have "d \<in> set (take i s @ s ! i # drop (Suc i) s)" using split that(1) by simp
      moreover have "d \<noteq> s ! i" using that(2) i(2) assms(3) by blast
      ultimately show ?thesis by (simp add: i(3))
    qed
    then show ?thesis using sub R_refl by (intro change_keeps [OF assms(2)]) auto
  qed (use assms(2) lasting_refl in auto)
qed

lemma insert_doc_keeps:
  assumes "documented same_key (Insert_one d) s a s'" "docs_ok \<phi> s" "\<phi> d"
  shows "docs_ok \<phi> s' \<and> lasting V R s s'"
  using documented_insert [OF assms(1)] assms(2,3) by (auto simp: docs_ok_def intro: lasting_superset)

text \<open>The rules.\<close>

lemma keeps_rule:
  fixes k :: "(doc, 'v answer) reply \<Rightarrow> ('e, 'v, 'r) script"
  assumes "\<And>s a s'. docs_ok \<phi> s \<Longrightarrow> K s \<Longrightarrow> documented same_key q s (a :: (doc, 'v answer) reply) s' \<Longrightarrow>
      docs_ok \<phi> s' \<and> lasting V R s s'"
    and "kept K" "\<And>a. sound (k a) K"
  shows "sound (Await q k) K"
  by (rule good_call [where K' = "\<lambda>_. K"]) (use assms in \<open>unfold stays_def, blast+\<close>)

lemma read_rule:
  fixes k :: "(doc, 'v answer) reply \<Rightarrow> ('e, 'v, 'r) script"
  assumes "reads q" "kept K" "\<And>a. sound (k a) K"
  shows "sound (Await q k) K"
  by (rule keeps_rule [OF _ assms(2,3)]) (use documented_reads [OF assms(1)] lasting_refl in blast)

lemma clock_rule: "kept K \<Longrightarrow> (\<And>e. sound (err e) K) \<Longrightarrow> (\<And>t. sound (k t) K) \<Longrightarrow> sound (clock err k) K"
  unfolding clock_def by (rule read_rule) (auto split: reply.splits answer.splits)

lemma fresh_id_rule: "kept K \<Longrightarrow> (\<And>e. sound (err e) K) \<Longrightarrow> (\<And>i. sound (k i) K) \<Longrightarrow> sound (fresh_id err k) K"
  unfolding fresh_id_def by (rule read_rule) (auto split: reply.splits answer.splits)

lemma outer_rule: "kept K \<Longrightarrow> (\<And>e. sound (err e) K) \<Longrightarrow> (\<And>v. sound (k v) K) \<Longrightarrow> sound (outer err e k) K"
  unfolding outer_def by (rule read_rule) (auto split: reply.splits answer.splits)

lemma find_rule: "kept K \<Longrightarrow> (\<And>e. sound (err e) K) \<Longrightarrow> (\<And>x. sound (k x) K) \<Longrightarrow> sound (find_doc err P k) K"
  unfolding find_doc_def by (rule read_rule) (auto split: reply.splits)

lemma find_docs_rule: "kept K \<Longrightarrow> (\<And>e. sound (err e) K) \<Longrightarrow> (\<And>x. sound (k x) K) \<Longrightarrow> sound (find_docs err P k) K"
  unfolding find_docs_def by (rule read_rule) (auto split: reply.splits)

lemma update_rule:
  "allowed P f \<Longrightarrow> kept K \<Longrightarrow> (\<And>e. sound (err e) K) \<Longrightarrow> (\<And>x. sound (k x) K) \<Longrightarrow> sound (update_doc err P f k) K"
  unfolding update_doc_def by (rule keeps_rule) (auto split: reply.splits dest: update_one_keeps)

lemma update_docs_rule:
  "allowed P f \<Longrightarrow> kept K \<Longrightarrow> (\<And>e. sound (err e) K) \<Longrightarrow> (\<And>n. sound (k n) K) \<Longrightarrow> sound (update_docs err P f k) K"
  unfolding update_docs_def by (rule keeps_rule) (auto split: reply.splits dest: update_all_keeps)

lemma insert_rule: "\<phi> d \<Longrightarrow> kept K \<Longrightarrow> (\<And>e. sound (err e) K) \<Longrightarrow> sound k K \<Longrightarrow> sound (insert_doc err d k) K"
  unfolding insert_doc_def by (rule keeps_rule) (auto split: reply.splits dest: insert_doc_keeps)

lemma delete_rule:
  "(\<And>d. P d \<Longrightarrow> \<not> V d) \<Longrightarrow> kept K \<Longrightarrow> (\<And>e. sound (err e) K) \<Longrightarrow> (\<And>n. sound (k n) K) \<Longrightarrow> sound (delete_doc err P k) K"
  unfolding delete_doc_def by (rule keeps_rule) (auto split: reply.splits dest: delete_keeps)

lemma upsert_rule:
  assumes "allowed (query c flt) (put sets)" "\<And>i. \<phi> (fresh_doc i c flt sets ins)" "kept K" "\<And>e. sound (err e) K" "sound k K"
  shows "sound (upsert_doc err c flt sets ins k) K"
  unfolding upsert_doc_def
proof (rule fresh_id_rule [OF assms(3,4)], rule keeps_rule [OF _ assms(3)])
  fix i s s' and a :: "(doc, 'b answer) reply"
  assume "docs_ok \<phi> s" "documented same_key (Update_one (query c flt) (put sets) (Some (fresh_doc i c flt sets ins))) s a s'"
  then show "docs_ok \<phi> s' \<and> lasting V R s s'" using assms(1,2) by (auto dest: update_one_keeps)
qed (use assms(4,5) in \<open>auto split: reply.splits\<close>)

text \<open>A document that is known to be there is found.\<close>

lemma found_rule:
  fixes k :: "doc option \<Rightarrow> ('e, 'v, 'r) script"
  assumes "\<And>s. docs_ok \<phi> s \<Longrightarrow> K s \<Longrightarrow> present P s" "kept K" "\<And>e. sound (err e) K"
    and "\<And>d. \<phi> d \<Longrightarrow> P d \<Longrightarrow> sound (k (Some d)) K"
  shows "sound (find_doc err P k) K"
proof -
  define K' where "K' a s \<longleftrightarrow> K s \<and> (\<forall>r. a = Row r \<longrightarrow> (\<exists>d. r = Some d \<and> \<phi> d \<and> P d))"
    for a :: "(doc, 'v answer) reply" and s
  show ?thesis unfolding find_doc_def
  proof (rule good_call [where K' = K'])
    fix s s' and a :: "(doc, 'v answer) reply"
    assume a: "docs_ok \<phi> s" "K s" "documented same_key (Find_one P) s a s'"
    have s': "s' = s" using documented_reads [OF _ a(3)] by simp
    have "\<exists>d. r = Some d \<and> \<phi> d \<and> P d" if r: "a = Row r" for r
    proof (cases r)
      case None
      then show ?thesis using documented_none [OF a(3) [unfolded r None]] assms(1) [OF a(1,2)] by (auto simp: present_def)
    next
      case (Some d)
      then show ?thesis using documented_found [OF a(3) [unfolded r Some]] a(1) by (auto simp: docs_ok_def)
    qed
    then show "docs_ok \<phi> s' \<and> lasting V R s s' \<and> K' a s'" using a(1,2) lasting_refl by (auto simp: K'_def s')
  next
    fix s t and a :: "(doc, 'v answer) reply"
    assume "K' a s" "docs_ok \<phi> s" "docs_ok \<phi> t" "lasting V R s t"
    then show "K' a t" using assms(2) unfolding K'_def stays_def by blast
  next
    fix a :: "(doc, 'v answer) reply"
    have mono: "sound p (K' a)" if "(\<forall>r. a = Row r \<longrightarrow> (\<exists>d. r = Some d \<and> \<phi> d \<and> P d)) \<Longrightarrow> sound p K" for p :: "('e, 'v, 'r) script"
    proof (cases "\<forall>r. a = Row r \<longrightarrow> (\<exists>d. r = Some d \<and> \<phi> d \<and> P d)")
      case True
      then show ?thesis by (intro good_mono [OF that]) (auto simp: K'_def)
    next
      case False
      then have none: "\<not> K' a s" for s by (auto simp: K'_def)
      show ?thesis using none by (rule good_absurd)
    qed
    show "sound (case a of Row r \<Rightarrow> k r | _ \<Rightarrow> err Call_failed) (K' a)"
      by (rule mono) (use assms(3,4) in \<open>auto split: reply.splits\<close>)
  qed
qed

end

end
