(* ===== verification/AccessCalls.thy ===== *)
theory AccessCalls imports DocStore PurchaseStatus JsNumbers begin

text \<open>
  What the entitlement service and the ledger indexer share: the configuration, the calls to the
  chain and their answers. The XDR is the Stellar library's; what it decodes to are plain values.
\<close>

record chain_config =
  PURCHASE_MANAGER_CONTRACT_ID :: string
  STELLAR_RPC_URL :: string
  NETWORK_PASSPHRASE :: string
  ENTITLEMENT_CACHE_TTL_MS :: int
  CACHE_VERSION :: rat

definition chain_defaults :: "string \<Rightarrow> string \<Rightarrow> string \<Rightarrow> chain_config" where
  "chain_defaults contract rpc net =
     \<lparr>PURCHASE_MANAGER_CONTRACT_ID = contract, STELLAR_RPC_URL = rpc, NETWORK_PASSPHRASE = net,
      ENTITLEMENT_CACHE_TTL_MS = 30000, CACHE_VERSION = 1\<rparr>"

text \<open>A page of events, as the event source returns it; an event is an object.\<close>

record event_page =
  p_events :: "document list"
  p_nextCursor :: "json option"
  p_lastLedger :: "json option"

text \<open>What is known of an error that a call threw.\<close>

record error_info =
  ei_code :: "json option"
  ei_status :: "json option"
  ei_responseStatus :: "json option"
  ei_message :: string

datatype chain_ask =
    Has_entitlement string string
  | Settlement_state json
  | Ledger_hash rat
  | Get_events json nat
  | Payments string nat
  | Error_of_call

datatype chain_answer =
    Simulated "json option"
  | Hash "string option"
  | Page event_page
  | Payments_are "document list"
  | Error_is error_info

text \<open>The key of a purchase, and of a cache entry.\<close>

definition pair_key :: "json \<Rightarrow> string \<Rightarrow> document" where
  "pair_key m b = [(''materialId'', m), (''buyerAddress'', JStr b)]"

type_synonym 'r access_script = "(chain_ask, chain_answer, 'r) script"

end
