(* ===== verification/Entitlement.thy ===== *)
theory Entitlement imports AccessCalls begin

text \<open>
  \<open>src/lib/entitlement.js\<close>: the decision whether a wallet may use a material. The functions are
  trees of awaited calls over the documents of \<open>users\<close>, \<open>purchases\<close>, \<open>materials\<close> and
  \<open>entitlement_cache\<close>; the chain is asked from outside. Logging, and the XDR of the calls, are not
  modelled; addresses are strings, prices numbers or strings, and times of the cache are dates.
\<close>

section \<open>States\<close>

datatype entitlement_state = Finalized | Provisional | Revoked | Unavailable | Not_entitled

fun state_name :: "entitlement_state \<Rightarrow> string" where
  "state_name Finalized = ''finalized''"
| "state_name Provisional = ''provisional''"
| "state_name Revoked = ''revoked''"
| "state_name Unavailable = ''unavailable''"
| "state_name Not_entitled = ''not_entitled''"

definition ALLOWING_STATES :: "json list" where
  "ALLOWING_STATES = [JStr (state_name Finalized), JStr (state_name Provisional)]"

definition REVOKING_SETTLEMENT_STATES :: "json list" where
  "REVOKING_SETTLEMENT_STATES = [JStr ''Refunded'', JStr ''Disputed'', JStr ''Expired'']"

text \<open>\<open>state && REVOKING_SETTLEMENT_STATES.has(state)\<close>.\<close>

definition revoking :: "json option \<Rightarrow> bool" where
  "revoking v \<longleftrightarrow> js_true v \<and> (case v of Some x \<Rightarrow> x \<in> set REVOKING_SETTLEMENT_STATES | None \<Rightarrow> False)"

record resolution =
  r_state :: entitlement_state
  r_hasAccess :: bool
  r_source :: json
  r_purchaseId :: json
  r_settlementState :: json

definition denied :: "entitlement_state \<Rightarrow> string \<Rightarrow> resolution" where
  "denied st src = \<lparr>r_state = st, r_hasAccess = False, r_source = JStr src, r_purchaseId = JNull, r_settlementState = JNull\<rparr>"

definition granted :: "entitlement_state \<Rightarrow> string \<Rightarrow> json \<Rightarrow> resolution" where
  "granted st src pid = \<lparr>r_state = st, r_hasAccess = True, r_source = JStr src, r_purchaseId = pid, r_settlementState = JNull\<rparr>"

section \<open>The chain\<close>

text \<open>\<open>decodeBoolean\<close> and \<open>decodeSettlementState\<close>, of the decoded value.\<close>

definition decodeBoolean :: "json option \<Rightarrow> bool option" where
  "decodeBoolean v = (case v of Some (JBool b) \<Rightarrow> Some b | _ \<Rightarrow> None)"

definition valid_states :: "string list" where
  "valid_states = [''Pending'', ''Released'', ''Disputed'', ''Refunded'', ''Expired'']"

definition object_tag :: "document \<Rightarrow> json option" where
  "object_tag m =
     (if js_true (map_of m ''tag'') then map_of m ''tag''
      else if js_true (map_of m ''name'') then map_of m ''name''
      else map_option JStr (as_str (map_of m ''state'')))"

definition decodeSettlementState :: "json option \<Rightarrow> string option" where
  "decodeSettlementState v =
     (case v of
        Some (JStr s) \<Rightarrow> if s \<in> set valid_states then Some s else None
      | Some (JNum r) \<Rightarrow> if 0 \<le> r \<and> r < 5 \<and> is_integer r then Some (valid_states ! nat \<lfloor>r\<rfloor>) else None
      | Some (JObj m) \<Rightarrow>
          (case as_str (object_tag m) of Some t \<Rightarrow> if t \<in> set valid_states then Some t else None | None \<Rightarrow> None)
      | _ \<Rightarrow> None)"

definition simulated :: "chain_answer \<Rightarrow> json option" where
  "simulated a = (case a of Simulated v \<Rightarrow> v | _ \<Rightarrow> None)"

definition checkChainEntitlement :: "chain_config \<Rightarrow> string \<Rightarrow> string \<Rightarrow> (bool option \<Rightarrow> 'r access_script) \<Rightarrow> 'r access_script" where
  "checkChainEntitlement cfg m b k =
     (if PURCHASE_MANAGER_CONTRACT_ID cfg = [] \<or> STELLAR_RPC_URL cfg = [] then k None
      else outer (\<lambda>_. k None) (Has_entitlement m b) (\<lambda>a. k (decodeBoolean (simulated a))))"

definition checkChainSettlementState :: "chain_config \<Rightarrow> json \<Rightarrow> (string option \<Rightarrow> 'r access_script) \<Rightarrow> 'r access_script" where
  "checkChainSettlementState cfg pid k =
     (if PURCHASE_MANAGER_CONTRACT_ID cfg = [] \<or> STELLAR_RPC_URL cfg = [] \<or> \<not> js_true (Some pid) then k None
      else outer (\<lambda>_. k None) (Settlement_state pid) (\<lambda>a. k (decodeSettlementState (simulated a))))"

section \<open>The cache\<close>

definition current_contract :: "chain_config \<Rightarrow> json" where
  "current_contract cfg = or_null (Some (JStr (PURCHASE_MANAGER_CONTRACT_ID cfg)))"

definition cache_fields :: "chain_config \<Rightarrow> string \<Rightarrow> string \<Rightarrow> entitlement_state \<Rightarrow> string \<Rightarrow> json \<Rightarrow> json \<Rightarrow> json \<Rightarrow> int \<Rightarrow> document" where
  "cache_fields cfg m b st src pid settlement hash timestamp =
     [(''materialId'', JStr m), (''buyerAddress'', JStr b), (''state'', JStr (state_name st)),
      (''active'', JBool (JStr (state_name st) \<in> set ALLOWING_STATES)), (''source'', JStr src),
      (''purchaseId'', pid), (''settlementState'', settlement), (''network'', JStr (NETWORK_PASSPHRASE cfg)),
      (''contractId'', current_contract cfg), (''contentHash'', hash), (''cacheVersion'', JNum (CACHE_VERSION cfg)),
      (''checkedAt'', JDate timestamp), (''updatedAt'', JDate timestamp)]"

definition writeCacheEntry :: "(thrown \<Rightarrow> 'r access_script) \<Rightarrow> chain_config \<Rightarrow> string \<Rightarrow> string \<Rightarrow> entitlement_state \<Rightarrow>
    string \<Rightarrow> json \<Rightarrow> json \<Rightarrow> json \<Rightarrow> 'r access_script \<Rightarrow> 'r access_script" where
  "writeCacheEntry err cfg m b st src pid settlement hash k =
     clock err (\<lambda>timestamp. upsert_doc err ''entitlement_cache'' (pair_key (JStr m) b)
       (cache_fields cfg m b st src pid settlement hash timestamp) [(''createdAt'', JDate timestamp)] k)"

definition isFresh :: "chain_config \<Rightarrow> int \<Rightarrow> doc \<Rightarrow> bool" where
  "isFresh cfg now entry =
     (case field_of entry ''checkedAt'' of
        Some (JDate t) \<Rightarrow> now - t < ENTITLEMENT_CACHE_TTL_MS cfg \<and>
          (if nullish (field_of entry ''cacheVersion'') then 0 \<ge> CACHE_VERSION cfg
           else case as_num (field_of entry ''cacheVersion'') of Some v \<Rightarrow> v \<ge> CACHE_VERSION cfg | None \<Rightarrow> False)
      | _ \<Rightarrow> False)"

definition binds :: "json option \<Rightarrow> json \<Rightarrow> bool" where
  "binds v current \<longleftrightarrow> \<not> (js_true v \<and> js_true (Some current) \<and> v \<noteq> Some current)"

definition bindingMatches :: "chain_config \<Rightarrow> doc \<Rightarrow> json \<Rightarrow> bool" where
  "bindingMatches cfg entry hash \<longleftrightarrow>
     binds (field_of entry ''contractId'') (current_contract cfg) \<and>
     binds (field_of entry ''network'') (JStr (NETWORK_PASSPHRASE cfg)) \<and>
     binds (field_of entry ''contentHash'') hash"

section \<open>Revoking and creating\<close>

text \<open>The result is whether the parameters were there.\<close>

definition invalidateEntitlement :: "(thrown \<Rightarrow> 'r access_script) \<Rightarrow> chain_config \<Rightarrow> string option \<Rightarrow> string option \<Rightarrow> string \<Rightarrow>
    json \<Rightarrow> json \<Rightarrow> (bool \<Rightarrow> 'r access_script) \<Rightarrow> 'r access_script" where
  "invalidateEntitlement err cfg m b reason pid settlement k =
     (if \<not> truthy m \<or> \<not> truthy b then k False
      else writeCacheEntry err cfg (or_default m []) (normalizeBuyerAddress b) Revoked reason pid settlement JNull (k True))"

definition createEntitlement :: "(thrown \<Rightarrow> 'r access_script) \<Rightarrow> chain_config \<Rightarrow> string option \<Rightarrow> string option \<Rightarrow> document \<Rightarrow>
    (bool \<Rightarrow> 'r access_script) \<Rightarrow> 'r access_script" where
  "createEntitlement err cfg m b purchaseData k =
     (if \<not> truthy m \<or> \<not> truthy b then k False
      else writeCacheEntry err cfg (or_default m []) (normalizeBuyerAddress b) Provisional ''purchase-api''
             (or_null (map_of purchaseData ''purchaseId'')) (JStr ''Pending'') (or_null (map_of purchaseData ''contentHash''))
        (update_doc err (query ''entitlement_cache'' (pair_key (JStr (or_default m [])) (normalizeBuyerAddress b)))
          (put [(''transactionHash'', or_null (map_of purchaseData ''transactionHash'')),
                (''amount'', or_null (map_of purchaseData ''amount'')),
                (''asset'', or_null (map_of purchaseData ''asset''))])
          (\<lambda>_. k True)))"

definition revokeEntitlement :: "(thrown \<Rightarrow> 'r access_script) \<Rightarrow> chain_config \<Rightarrow> string option \<Rightarrow> string option \<Rightarrow>
    (bool \<Rightarrow> 'r access_script) \<Rightarrow> 'r access_script" where
  "revokeEntitlement err cfg m b k = invalidateEntitlement err cfg m b ''refunded'' JNull (JStr ''Refunded'') k"

section \<open>Resolving\<close>

text \<open>A failed lookup of the user does not count as a suspension.\<close>

definition lookupBuyerSuspended :: "string \<Rightarrow> (bool \<Rightarrow> 'r access_script) \<Rightarrow> 'r access_script" where
  "lookupBuyerSuspended b k =
     find_doc (\<lambda>_. k False) (query ''users'' [(''walletAddressLower'', JStr b)])
       (\<lambda>user. k (case user of Some u \<Rightarrow> field_of u ''status'' = Some (JStr ''suspended'') | None \<Rightarrow> False))"

definition purchase_of :: "json \<Rightarrow> string \<Rightarrow> doc \<Rightarrow> bool" where
  "purchase_of m b = query ''purchases'' (pair_key m b)"

fun try_aliases :: "(thrown \<Rightarrow> 'r access_script) \<Rightarrow> string \<Rightarrow> json list \<Rightarrow> (doc option \<Rightarrow> 'r access_script) \<Rightarrow> 'r access_script" where
  "try_aliases err b [] k = k None"
| "try_aliases err b (alt # alts) k =
     find_doc err (purchase_of alt b) (\<lambda>p. case p of Some x \<Rightarrow> k (Some x) | None \<Rightarrow> try_aliases err b alts k)"

definition candidate_ids :: "doc option \<Rightarrow> json list" where
  "candidate_ids mat =
     (case mat of
        None \<Rightarrow> []
      | Some d \<Rightarrow> (if js_true (field_of d ''mergedInto'') then [or_null (field_of d ''mergedInto'')] else []) @
          (case field_of d ''aliases'' of Some (JArr xs) \<Rightarrow> xs | _ \<Rightarrow> []))"

definition material_named :: "string \<Rightarrow> doc \<Rightarrow> bool" where
  "material_named m d \<longleftrightarrow> query ''materials'' [(''materialId'', JStr m)] d \<or> query ''materials'' [(''_id'', JStr m)] d"

definition find_purchase :: "(thrown \<Rightarrow> 'r access_script) \<Rightarrow> string \<Rightarrow> string \<Rightarrow> (doc option \<Rightarrow> 'r access_script) \<Rightarrow> 'r access_script" where
  "find_purchase err m b k =
     find_doc err (purchase_of (JStr m) b) (\<lambda>p. case p of
       Some x \<Rightarrow> k (Some x)
     | None \<Rightarrow> find_doc err (material_named m) (\<lambda>mat. try_aliases err b (candidate_ids mat) k))"

definition effective_id :: "json \<Rightarrow> doc \<Rightarrow> json" where
  "effective_id pid purchase =
     (if js_true (Some pid) then pid else or_null (field_of purchase ''purchaseId''))"

definition usable_cache :: "chain_config \<Rightarrow> int \<Rightarrow> doc \<Rightarrow> json \<Rightarrow> json \<Rightarrow> bool" where
  "usable_cache cfg now cached pid hash \<longleftrightarrow>
     isFresh cfg now cached \<and> nullish_null (field_of cached ''state'') \<in> set ALLOWING_STATES \<and>
     field_of cached ''purchaseId'' = Some pid \<and> bindingMatches cfg cached hash"

text \<open>From the purchase on: the chain decides, and the verdict is cached.\<close>

definition conclude :: "(thrown \<Rightarrow> 'r access_script) \<Rightarrow> chain_config \<Rightarrow> string \<Rightarrow> string \<Rightarrow> json \<Rightarrow> json \<Rightarrow> doc \<Rightarrow>
    string option \<Rightarrow> (resolution \<Rightarrow> 'r access_script) \<Rightarrow> 'r access_script" where
  "conclude err cfg m b eff hash purchase chainState k =
     (let settlement = (case chainState of Some c \<Rightarrow> JStr c | None \<Rightarrow> or_null (field_of purchase ''settlementState'')) in
      if revoking (Some settlement)
      then writeCacheEntry err cfg m b Revoked ''chain'' eff settlement JNull
        (let verdict = (denied Revoked ''chain'')\<lparr>r_settlementState := settlement\<rparr> in
         clock (\<lambda>_. k verdict) (\<lambda>t. update_doc (\<lambda>_. k verdict) (purchase_of (JStr m) b)
           (put [(''settlementState'', settlement), (''updatedAt'', JDate t)]) (\<lambda>_. k verdict)))
      else
        let st = (if chainState \<noteq> None then Finalized else Provisional);
            src = (if chainState \<noteq> None then ''chain'' else ''purchases-db'') in
        writeCacheEntry err cfg m b st src eff settlement hash (k (granted st src eff)))"

definition settle_verdict :: "(thrown \<Rightarrow> 'r access_script) \<Rightarrow> chain_config \<Rightarrow> string \<Rightarrow> string \<Rightarrow> json \<Rightarrow> json \<Rightarrow> doc \<Rightarrow>
    (resolution \<Rightarrow> 'r access_script) \<Rightarrow> 'r access_script" where
  "settle_verdict err cfg m b eff hash purchase k =
     checkChainSettlementState cfg eff (\<lambda>chainState. conclude err cfg m b eff hash purchase chainState k)"

definition resolve_purchase :: "(thrown \<Rightarrow> 'r access_script) \<Rightarrow> chain_config \<Rightarrow> string \<Rightarrow> string \<Rightarrow> json \<Rightarrow> json \<Rightarrow>
    doc option \<Rightarrow> doc \<Rightarrow> (resolution \<Rightarrow> 'r access_script) \<Rightarrow> 'r access_script" where
  "resolve_purchase err cfg m b pid hash cached purchase k =
     (if \<not> isCompletedPurchaseStatus (as_str (field_of purchase ''status''))
      then k (denied Not_entitled ''purchases-db-incomplete'')
      else if revoking (field_of purchase ''settlementState'')
      then k ((denied Revoked ''purchases-db'')\<lparr>r_settlementState := or_null (field_of purchase ''settlementState'')\<rparr>)
      else let eff = effective_id pid purchase in
        (case cached of
           None \<Rightarrow> settle_verdict err cfg m b eff hash purchase k
         | Some c \<Rightarrow> clock err (\<lambda>t.
             if usable_cache cfg t c eff hash
             then k (granted (if field_of c ''state'' = Some (JStr (state_name Finalized)) then Finalized else Provisional)
                       ''cache'' eff)
             else settle_verdict err cfg m b eff hash purchase k)))"

definition resolve_absent :: "(thrown \<Rightarrow> 'r access_script) \<Rightarrow> chain_config \<Rightarrow> string \<Rightarrow> string \<Rightarrow> json \<Rightarrow> json \<Rightarrow>
    (resolution \<Rightarrow> 'r access_script) \<Rightarrow> 'r access_script" where
  "resolve_absent err cfg m b pid hash k =
     checkChainEntitlement cfg m b (\<lambda>onChain.
       if onChain = Some True
       then writeCacheEntry err cfg m b Finalized ''chain'' pid (JStr ''Released'') hash (k (granted Finalized ''chain'' pid))
       else k (denied Not_entitled ''not-found''))"

text \<open>A revoked cache entry denies, whatever the purchase says.\<close>

definition resolve_found :: "(thrown \<Rightarrow> 'r access_script) \<Rightarrow> chain_config \<Rightarrow> string \<Rightarrow> string \<Rightarrow> json \<Rightarrow> json \<Rightarrow>
    doc option \<Rightarrow> (resolution \<Rightarrow> 'r access_script) \<Rightarrow> 'r access_script" where
  "resolve_found err cfg m b pid hash purchase k =
     find_doc err (query ''entitlement_cache'' (pair_key (JStr m) b)) (\<lambda>cached.
       if (case cached of Some c \<Rightarrow> field_of c ''state'' = Some (JStr (state_name Revoked)) | None \<Rightarrow> False)
       then k ((denied Revoked ''cache'')\<lparr>r_source :=
         (case cached of Some c \<Rightarrow> if js_true (field_of c ''source'') then or_null (field_of c ''source'') else JStr ''cache''
          | None \<Rightarrow> JNull)\<rparr>)
       else (case purchase of
           None \<Rightarrow> resolve_absent err cfg m b pid hash k
         | Some p \<Rightarrow> resolve_purchase err cfg m b pid hash cached p k))"

definition resolveEntitlement :: "chain_config \<Rightarrow> string option \<Rightarrow> string option \<Rightarrow> json \<Rightarrow> json \<Rightarrow>
    (resolution \<Rightarrow> 'r access_script) \<Rightarrow> 'r access_script" where
  "resolveEntitlement cfg materialId buyerAddress pid hash k =
     (if \<not> truthy materialId \<or> \<not> truthy buyerAddress then k (denied Unavailable ''invalid-params'')
      else
        let m = or_default materialId []; b = normalizeBuyerAddress buyerAddress in
        lookupBuyerSuspended b (\<lambda>suspended.
          if suspended then k (denied Revoked ''buyer-suspended'')
          else find_purchase (\<lambda>_. k (denied Unavailable ''purchases-db-error'')) m b (\<lambda>purchase.
            resolve_found (\<lambda>_. k (denied Unavailable ''error'')) cfg m b pid hash purchase k)))"

section \<open>The policies on top\<close>

definition verifyEntitlement :: "chain_config \<Rightarrow> string option \<Rightarrow> string option \<Rightarrow> (bool \<times> json \<Rightarrow> 'r access_script) \<Rightarrow> 'r access_script" where
  "verifyEntitlement cfg m b k = resolveEntitlement cfg m b JNull JNull (\<lambda>r. k (r_hasAccess r, r_source r))"

text \<open>The identifiers of the asked materials that the buyer owns.\<close>

definition owned_row :: "string \<Rightarrow> string list \<Rightarrow> doc \<Rightarrow> bool" where
  "owned_row b ids d \<longleftrightarrow> query ''purchases'' [(''buyerAddress'', JStr b)] d \<and>
     (case field_of d ''materialId'' of Some (JStr m) \<Rightarrow> m \<in> set ids | _ \<Rightarrow> False) \<and>
     (case field_of d ''status'' of Some (JStr st) \<Rightarrow> st \<in> set COMPLETED_PURCHASE_STATUSES | _ \<Rightarrow> False)"

definition getOwnedMaterialIds :: "string option \<Rightarrow> string list \<Rightarrow> (json list \<Rightarrow> 'r access_script) \<Rightarrow> 'r access_script" where
  "getOwnedMaterialIds buyerAddress materialIds k =
     (let ids = filter (\<lambda>i. i \<noteq> []) materialIds in
      if \<not> truthy buyerAddress \<or> ids = [] then k []
      else find_docs (\<lambda>_. k []) (owned_row (normalizeBuyerAddress buyerAddress) ids) (\<lambda>rs.
        k (js_set (map (\<lambda>d. nullish_null (field_of d ''materialId''))
             (filter (\<lambda>d. \<not> revoking (field_of d ''settlementState'')) rs)))))"

definition isOwner :: "document \<Rightarrow> string option \<Rightarrow> bool" where
  "isOwner material b \<longleftrightarrow>
     list_ex (\<lambda>f. truthy (as_str (map_of material f)) \<and>
         normalizeBuyerAddress (as_str (map_of material f)) = normalizeBuyerAddress b)
       [''userAddress'', ''ownerAddress'', ''creatorAddress'']"

definition number_of :: "json option \<Rightarrow> jsnum" where
  "number_of v = (if \<not> js_true v then Fin 0 else
     case v of Some (JNum r) \<Rightarrow> Fin r | Some (JStr s) \<Rightarrow> js_number s | Some (JBool b) \<Rightarrow> Fin 1 | _ \<Rightarrow> NaN)"

definition isFreePublicMaterial :: "document \<Rightarrow> bool" where
  "isFreePublicMaterial material \<longleftrightarrow>
     js_le (number_of (map_of material ''price'')) (Fin 0) \<and> map_of material ''visibility'' = Some (JStr ''public'')"

definition contentHashOf :: "document \<Rightarrow> json" where
  "contentHashOf material =
     (case filter (\<lambda>k. \<not> nullish (map_of material k)) [''ipfsCid'', ''cid'', ''fileHash'', ''storageKey'', ''fileUrl''] of
        [] \<Rightarrow> JNull | k # _ \<Rightarrow> nullish_null (map_of material k))"

record access_decision =
  allowed :: bool
  a_state :: entitlement_state
  httpStatus :: nat
  a_source :: json

definition material_key :: "document \<Rightarrow> string option" where
  "material_key material =
     (if js_true (map_of material ''materialId'') then as_str (map_of material ''materialId'')
      else as_str (map_of material ''_id''))"

definition authorizeMaterialAccess :: "chain_config \<Rightarrow> document option \<Rightarrow> string option \<Rightarrow> json \<Rightarrow>
    (access_decision \<Rightarrow> 'r access_script) \<Rightarrow> 'r access_script" where
  "authorizeMaterialAccess cfg material b pid k =
     (case material of
        None \<Rightarrow> k \<lparr>allowed = False, a_state = Unavailable, httpStatus = 404, a_source = JStr ''orphaned''\<rparr>
      | Some mat \<Rightarrow>
          if \<not> truthy b then k \<lparr>allowed = False, a_state = Unavailable, httpStatus = 400, a_source = JStr ''missing-buyer''\<rparr>
          else if isOwner mat b then k \<lparr>allowed = True, a_state = Finalized, httpStatus = 200, a_source = JStr ''owner''\<rparr>
          else if isFreePublicMaterial mat
          then k \<lparr>allowed = True, a_state = Finalized, httpStatus = 200, a_source = JStr ''free-public''\<rparr>
          else resolveEntitlement cfg (material_key mat) b pid (contentHashOf mat) (\<lambda>r.
            k \<lparr>allowed = r_hasAccess r, a_state = r_state r,
               httpStatus = (if r_hasAccess r then 200 else if r_state r = Unavailable then 503 else 403),
               a_source = r_source r\<rparr>))"

text \<open>The status of a protected route; \<open>None\<close> when the request goes on to its handler.\<close>

definition requireEntitlement :: "chain_config \<Rightarrow> string option \<Rightarrow> string option \<Rightarrow> (nat option \<Rightarrow> 'r access_script) \<Rightarrow> 'r access_script" where
  "requireEntitlement cfg m b k =
     (if \<not> truthy b \<or> \<not> truthy m then k (Some 400)
      else verifyEntitlement cfg m b (\<lambda>(hasAccess, source). k (if hasAccess then None else Some 403)))"

end
