(* ===== verification/ForkDetection.thy ===== *)
theory ForkDetection imports Entitlement begin

text \<open>
  \<open>src/lib/indexer/forkDetection.js\<close>: the bounded history of ledger hashes, the search for the
  point where the chain diverged from it, and the rewind of what was indexed from there on.
\<close>

section \<open>Checkpoints\<close>

definition MAX_CHECKPOINTS :: nat where
  "MAX_CHECKPOINTS = 8"

type_synonym checkpoint = "rat \<times> string"

definition checkpoint_of :: "json \<Rightarrow> checkpoint option" where
  "checkpoint_of v =
     (case v of
        JObj m \<Rightarrow> (case (map_of m ''ledger'', map_of m ''hash'') of
          (Some (JNum l), Some (JStr h)) \<Rightarrow> Some (l, h) | _ \<Rightarrow> None)
      | _ \<Rightarrow> None)"

definition checkpoint_json :: "checkpoint \<Rightarrow> json" where
  "checkpoint_json c = JObj [(''ledger'', JNum (fst c)), (''hash'', JStr (snd c))]"

text \<open>The newest hash of each ledger, in ascending order.\<close>

definition dedupe :: "checkpoint list \<Rightarrow> checkpoint list" where
  "dedupe cs = sort_key fst (fold (\<lambda>c m. AList.update (fst c) (snd c) m) cs [])"

definition dedupeCheckpoints :: "json list \<Rightarrow> checkpoint list" where
  "dedupeCheckpoints cs = dedupe (List.map_filter checkpoint_of cs)"

lemma checkpoint_of_json [simp]: "checkpoint_of (checkpoint_json c) = Some c"
  by (cases c) (simp add: checkpoint_of_def checkpoint_json_def)

lemma dedupe_fold:
  "distinct (keys m) \<Longrightarrow> distinct (keys (fold (\<lambda>c m. AList.update (fst c) (snd c) m) cs m)) \<and>
   map_of (fold (\<lambda>c m. AList.update (fst c) (snd c) m) cs m) = map_of m ++ map_of (rev cs)"
proof (induction cs arbitrary: m)
  case (Cons c cs)
  then show ?case using Cons.IH [of "AList.update (fst c) (snd c) m"]
    by (cases c) (auto simp: update_conv' map_add_def fun_eq_iff split: option.splits)
qed simp

lemma dedupe_props: "sorted (map fst (dedupe cs))" "distinct (map fst (dedupe cs))"
  "(l, h) \<in> set (dedupe cs) \<longleftrightarrow> map_of (rev cs) l = Some h"
proof -
  let ?m = "fold (\<lambda>c m. AList.update (fst c) (snd c) m) cs []"
  have m: "distinct (keys ?m)" "map_of ?m = map_of (rev cs)" using dedupe_fold [of "[]" cs] by simp_all
  show "sorted (map fst (dedupe cs))" by (simp add: dedupe_def)
  have "mset (map fst (dedupe cs)) = mset (map fst ?m)" by (simp add: dedupe_def)
  then show "distinct (map fst (dedupe cs))" using m(1) mset_eq_imp_distinct_iff by blast
  have "(l, h) \<in> set (dedupe cs) \<longleftrightarrow> (l, h) \<in> set ?m" by (simp add: dedupe_def)
  also have "\<dots> \<longleftrightarrow> map_of ?m l = Some h" using m(1) by simp
  finally show "(l, h) \<in> set (dedupe cs) \<longleftrightarrow> map_of (rev cs) l = Some h" by (simp add: m(2))
qed

section \<open>Detection\<close>

record fork_report =
  forked :: bool
  divergenceLedger :: "rat option"
  canonicalHash :: "string option"

definition no_fork :: fork_report where
  "no_fork = \<lparr>forked = False, divergenceLedger = None, canonicalHash = None\<rparr>"

definition hash_told :: "chain_answer \<Rightarrow> string option" where
  "hash_told a = (case a of Hash h \<Rightarrow> h | _ \<Rightarrow> None)"

text \<open>From the newest checkpoint backwards: the hash of the last mismatch, and the first match.\<close>

fun fork_walk :: "(thrown \<Rightarrow> 'r access_script) \<Rightarrow> checkpoint list \<Rightarrow> string option \<Rightarrow>
    (string option \<Rightarrow> checkpoint option \<Rightarrow> 'r access_script) \<Rightarrow> 'r access_script" where
  "fork_walk err [] mismatch k = k mismatch None"
| "fork_walk err (c # cs) mismatch k =
     outer err (Ledger_hash (fst c)) (\<lambda>a. case hash_told a of
        None \<Rightarrow> fork_walk err cs mismatch k
      | Some h \<Rightarrow> if h = snd c then k mismatch (Some c) else fork_walk err cs (Some h) k)"

definition history_of :: "json option \<Rightarrow> json option \<Rightarrow> json option \<Rightarrow> checkpoint list option" where
  "history_of checkpoints ledger expectedHash =
     (case checkpoints of
        Some (JArr (c # cs)) \<Rightarrow> Some (dedupeCheckpoints (c # cs))
      | _ \<Rightarrow> if js_true ledger \<and> js_true expectedHash then
            (case (ledger, expectedHash) of (Some (JNum l), Some (JStr h)) \<Rightarrow> Some [(l, h)] | _ \<Rightarrow> None)
          else None)"

definition fork_verdict :: "checkpoint list \<Rightarrow> string option \<Rightarrow> checkpoint option \<Rightarrow> fork_report" where
  "fork_verdict history mismatch match =
     (case mismatch of
        None \<Rightarrow> no_fork
      | Some h \<Rightarrow>
          \<lparr>forked = True,
           divergenceLedger = (case match of Some c \<Rightarrow> Some (fst c + 1)
             | None \<Rightarrow> (case history of c # _ \<Rightarrow> Some (fst c) | [] \<Rightarrow> None)),
           canonicalHash = Some h\<rparr>)"

definition detectFork :: "(thrown \<Rightarrow> 'r access_script) \<Rightarrow> json option \<Rightarrow> json option \<Rightarrow> json option \<Rightarrow>
    (fork_report \<Rightarrow> 'r access_script) \<Rightarrow> 'r access_script" where
  "detectFork err checkpoints ledger expectedHash k =
     (case history_of checkpoints ledger expectedHash of
        None \<Rightarrow> k no_fork
      | Some history \<Rightarrow> fork_walk err (rev history) None (\<lambda>mismatch match. k (fork_verdict history mismatch match)))"

section \<open>Rewind\<close>

definition state_id :: "string \<Rightarrow> string" where
  "state_id source = source @ '':events''"

definition below_ledger :: "rat \<Rightarrow> json \<Rightarrow> bool" where
  "below_ledger d v =
     (case v of JObj m \<Rightarrow> (case as_num (map_of m ''ledger'') of Some l \<Rightarrow> l < d | None \<Rightarrow> False) | _ \<Rightarrow> False)"

definition from_ledger :: "rat \<Rightarrow> json option \<Rightarrow> bool" where
  "from_ledger d v = (case as_num v of Some l \<Rightarrow> l \<ge> d | None \<Rightarrow> False)"

definition orphan_row :: "rat \<Rightarrow> doc \<Rightarrow> bool" where
  "orphan_row d p \<longleftrightarrow> query ''purchases'' [] p \<and> from_ledger d (field_of p ''indexedLedger'')"

fun orphan_all :: "(thrown \<Rightarrow> 'r access_script) \<Rightarrow> chain_config \<Rightarrow> int \<Rightarrow> doc list \<Rightarrow> 'r access_script \<Rightarrow> 'r access_script" where
  "orphan_all err cfg now [] k = k"
| "orphan_all err cfg now (p # ps) k =
     update_doc err (query ''purchases'' [(''_id'', nullish_null (field_of p ''_id''))])
       (put [(''settlementState'', JStr ''Orphaned''), (''orphanedAt'', JDate now), (''updatedAt'', JDate now)])
       (\<lambda>_. if js_true (field_of p ''buyerAddress'') \<and> js_true (field_of p ''materialId'')
            then invalidateEntitlement (\<lambda>_. orphan_all err cfg now ps k) cfg (as_str (field_of p ''materialId''))
                   (as_str (field_of p ''buyerAddress'')) ''chain-reorg'' (nullish_null (field_of p ''purchaseId''))
                   (JStr ''Orphaned'') (\<lambda>_. orphan_all err cfg now ps k)
            else orphan_all err cfg now ps k)"

definition rewound_state :: "rat \<Rightarrow> json list \<Rightarrow> int \<Rightarrow> document" where
  "rewound_state d retained now =
     [(''cursor'', JNull), (''lastLedger'', JNull), (''lastLedgerHash'', JNull), (''checkpoints'', JArr retained),
      (''lastForkRewindAt'', JDate now), (''lastForkDivergenceLedger'', JNum d), (''updatedAt'', JDate now)]"

definition stored_checkpoints :: "doc option \<Rightarrow> json list" where
  "stored_checkpoints state =
     (case state of Some s \<Rightarrow> (case field_of s ''checkpoints'' of Some (JArr cs) \<Rightarrow> cs | _ \<Rightarrow> []) | None \<Rightarrow> [])"

definition stale_material :: "rat \<Rightarrow> doc \<Rightarrow> bool" where
  "stale_material d m \<longleftrightarrow> query ''materials'' [] m \<and> from_ledger d (field_of m ''chainLedger'')
     \<and> field_of m ''syncStatus'' \<noteq> Some (JStr ''orphaned'')"

definition rewindAfterFork :: "(thrown \<Rightarrow> 'r access_script) \<Rightarrow> chain_config \<Rightarrow> string \<Rightarrow> rat \<Rightarrow>
    (nat \<times> nat \<Rightarrow> 'r access_script) \<Rightarrow> 'r access_script" where
  "rewindAfterFork err cfg source d k =
     clock err (\<lambda>now. find_doc err (query ''sync_state'' [(''_id'', JStr (state_id source))]) (\<lambda>state.
       let retained = filter (below_ledger d) (stored_checkpoints state) in
       update_docs err (stale_material d)
         (put [(''syncStatus'', JStr ''orphaned''), (''orphanedAt'', JDate now), (''orphanedReason'', JStr ''chain_reorg'')])
         (\<lambda>n. find_docs err (orphan_row d) (\<lambda>ps. orphan_all err cfg now ps
           (update_doc err (query ''sync_state'' [(''_id'', JStr (state_id source))]) (put (rewound_state d retained now))
             (\<lambda>_. k (n, length ps)))))))"

end
