(* ===== verification/EventIdentity.thy ===== *)
theory EventIdentity imports Json begin

text \<open>
  \<open>src/lib/indexer/eventIdentity.js\<close>: the identifier of an indexed event, a hash of its position on
  the chain, and the plan of the migration of old identifiers. An event is an object with its
  fields; \<open>digest\<close> is the SHA-256 of the serialised tuple, in hexadecimal, and a parameter.
\<close>

definition non_empty_string :: "json option \<Rightarrow> bool" where
  "non_empty_string v \<longleftrightarrow> (case v of Some (JStr s) \<Rightarrow> s \<noteq> [] | _ \<Rightarrow> False)"

definition positive_integer :: "json option \<Rightarrow> bool" where
  "positive_integer v \<longleftrightarrow> (case v of Some (JNum r) \<Rightarrow> is_integer r \<and> r > 0 | _ \<Rightarrow> False)"

definition non_negative_integer :: "json option \<Rightarrow> bool" where
  "non_negative_integer v \<longleftrightarrow> (case v of Some (JNum r) \<Rightarrow> is_integer r \<and> r \<ge> 0 | _ \<Rightarrow> False)"

definition ID_VERSION :: string where
  "ID_VERSION = ''v1''"

definition id_prefix :: string where
  "id_prefix = ''evt_'' @ ID_VERSION @ ''_''"

definition hashTuple :: "(json list \<Rightarrow> string) \<Rightarrow> json list \<Rightarrow> string" where
  "hashTuple digest tuple = id_prefix @ digest tuple"

datatype derivation = Canonical | Position_only
datatype identity = Insufficient | Identified string derivation

definition string_or_null :: "json option \<Rightarrow> json" where
  "string_or_null v = (if non_empty_string v then nullish_null v else JNull)"

definition deriveEventId :: "(json list \<Rightarrow> string) \<Rightarrow> json option \<Rightarrow> json option \<Rightarrow> json option \<Rightarrow> json option \<Rightarrow>
    json option \<Rightarrow> json option \<Rightarrow> identity" where
  "deriveEventId digest network contractId ledger transactionHash operationIndex eventPosition =
     (if \<not> non_empty_string eventPosition then Insufficient
      else let contract = string_or_null contractId; net = string_or_null network in
        if net \<noteq> JNull \<and> positive_integer ledger \<and> non_empty_string transactionHash \<and> non_negative_integer operationIndex
        then Identified (hashTuple digest [JStr ID_VERSION, JStr ''canonical'', net, contract, nullish_null ledger,
               nullish_null transactionHash, nullish_null operationIndex, nullish_null eventPosition]) Canonical
        else Identified (hashTuple digest [JStr ID_VERSION, JStr ''position-only'', net, contract,
               nullish_null eventPosition]) Position_only)"

text \<open>\<open>a ?? b\<close>.\<close>

definition coalesce :: "json option \<Rightarrow> json option \<Rightarrow> json option" where
  "coalesce a b = (if nullish a then b else a)"

definition deriveEventIdFromEvent :: "(json list \<Rightarrow> string) \<Rightarrow> document \<Rightarrow> identity" where
  "deriveEventIdFromEvent digest ev =
     deriveEventId digest (map_of ev ''network'') (map_of ev ''contractId'') (map_of ev ''ledger'')
       (coalesce (map_of ev ''transactionHash'') (map_of ev ''txHash''))
       (map_of ev ''operationIndex'') (coalesce (map_of ev ''id'') (map_of ev ''eventId''))"

definition computeQuarantineKey :: "(json list \<Rightarrow> string) \<Rightarrow> string \<Rightarrow> json \<Rightarrow> string" where
  "computeQuarantineKey digest source rawEvent =
     ''quarantine:'' @ digest [or_null (Some (JStr source)), rawEvent]"

text \<open>\<open>/^[^:]+:unknown:/\<close>.\<close>

definition isLegacyFallbackId :: "string \<Rightarrow> bool" where
  "isLegacyFallbackId s \<longleftrightarrow>
     takeWhile (\<lambda>c. c \<noteq> CHR '':'') s \<noteq> [] \<and> starts_with (dropWhile (\<lambda>c. c \<noteq> CHR '':'') s) '':unknown:''"

definition isCanonicalEventId :: "string \<Rightarrow> bool" where
  "isCanonicalEventId s \<longleftrightarrow> starts_with s id_prefix"

datatype rewrite_reason = No_raw_event | Not_identified | Already_canonical | Legacy_fallback | Older derivation
datatype rewrite_plan =
    Keep_id string
  | Rewrite_id string rewrite_reason
  | Quarantine_row rewrite_reason

definition planEventIdRewrite :: "(json list \<Rightarrow> string) \<Rightarrow> string \<Rightarrow> document option \<Rightarrow> json option \<Rightarrow> rewrite_plan" where
  "planEventIdRewrite digest currentId rawEvent network =
     (case rawEvent of
        None \<Rightarrow> Quarantine_row No_raw_event
      | Some raw \<Rightarrow>
          (case deriveEventIdFromEvent digest
              (with_field ''network'' (nullish_null (coalesce (map_of raw ''network'') network)) raw) of
             Insufficient \<Rightarrow> Quarantine_row Not_identified
           | Identified i d \<Rightarrow>
               if i = currentId then Keep_id i
               else Rewrite_id i (if isLegacyFallbackId currentId then Legacy_fallback else Older d)))"

section \<open>Identifiers and positions\<close>

text \<open>The part of an event its identifier stands for.\<close>

definition position :: "document \<Rightarrow> json list option" where
  "position ev =
     (let net = string_or_null (map_of ev ''network''); contract = string_or_null (map_of ev ''contractId'');
          tx = coalesce (map_of ev ''transactionHash'') (map_of ev ''txHash'');
          p = coalesce (map_of ev ''id'') (map_of ev ''eventId'') in
      if \<not> non_empty_string p then None
      else if net \<noteq> JNull \<and> positive_integer (map_of ev ''ledger'') \<and> non_empty_string tx
        \<and> non_negative_integer (map_of ev ''operationIndex'')
      then Some [net, contract, nullish_null p, nullish_null (map_of ev ''ledger''), nullish_null tx,
             nullish_null (map_of ev ''operationIndex'')]
      else Some [net, contract, nullish_null p])"

text \<open>What is hashed: the position, with the version and the derivation in front.\<close>

definition hashed :: "document \<Rightarrow> json list option" where
  "hashed ev =
     (case position ev of
        Some [net, contract, p, l, tx, op] \<Rightarrow> Some [JStr ID_VERSION, JStr ''canonical'', net, contract, l, tx, op, p]
      | Some [net, contract, p] \<Rightarrow> Some [JStr ID_VERSION, JStr ''position-only'', net, contract, p]
      | _ \<Rightarrow> None)"

lemma derive_hashed:
  "deriveEventIdFromEvent digest ev =
     (case hashed ev of
        None \<Rightarrow> Insufficient
      | Some t \<Rightarrow> Identified (hashTuple digest t) (if length t = 8 then Canonical else Position_only))"
  by (simp add: deriveEventIdFromEvent_def deriveEventId_def hashed_def position_def Let_def)

lemma position_shape:
  "position ev = None \<or> (\<exists>n c p. position ev = Some [n, c, p]) \<or> (\<exists>n c p l x q. position ev = Some [n, c, p, l, x, q])"
  by (simp add: position_def Let_def)

lemma hashed_simps:
  "position ev = None \<Longrightarrow> hashed ev = None"
  "position ev = Some [n, c, p] \<Longrightarrow> hashed ev = Some [JStr ID_VERSION, JStr ''position-only'', n, c, p]"
  "position ev = Some [n, c, p, l, x, q] \<Longrightarrow> hashed ev = Some [JStr ID_VERSION, JStr ''canonical'', n, c, l, x, q, p]"
  by (simp_all add: hashed_def)

lemma hashed_position: "hashed a = hashed b \<longleftrightarrow> position a = position b"
  using position_shape [of a] position_shape [of b] by (elim disjE exE) (simp_all add: hashed_simps, blast)

text \<open>
  C39: As long as the digest does not collide on the tuples that are hashed, two events get the
  same identifier exactly when they have the same position: the source event id, the contract, the
  network, and, where all of them are known, the ledger, the transaction and the operation. Events
  with different positions never share one, whichever way theirs was derived, and an event gets none
  exactly when it has no source event id.
\<close>

theorem event_ids_are_positions:
  assumes "inj_on digest {t. \<exists>ev \<in> events. hashed ev = Some t}" "a \<in> events" "b \<in> events"
  shows "(deriveEventIdFromEvent digest a = deriveEventIdFromEvent digest b \<longleftrightarrow> position a = position b) \<and>
    (\<forall>i d e. deriveEventIdFromEvent digest a = Identified i d \<longrightarrow> deriveEventIdFromEvent digest b = Identified i e \<longrightarrow>
      position a = position b) \<and>
    (deriveEventIdFromEvent digest a = Insufficient \<longleftrightarrow>
      \<not> non_empty_string (coalesce (map_of a ''id'') (map_of a ''eventId'')))"
proof -
  have digest: "hashed a = hashed b" if "hashed a = Some t" "hashed b = Some u" "hashTuple digest t = hashTuple digest u" for t u
  proof -
    have "digest t = digest u" using that(3) by (simp add: hashTuple_def)
    then have "t = u" by (rule inj_onD [OF assms(1)]) (use that assms(2,3) in auto)
    then show ?thesis using that by simp
  qed
  have "deriveEventIdFromEvent digest a = Insufficient \<longleftrightarrow>
      \<not> non_empty_string (coalesce (map_of a ''id'') (map_of a ''eventId''))"
    by (simp add: deriveEventIdFromEvent_def deriveEventId_def Let_def)
  moreover have "hashed a = hashed b" if "deriveEventIdFromEvent digest a = Identified i d"
      "deriveEventIdFromEvent digest b = Identified i e" for i d e
    using that digest by (auto simp: derive_hashed split: option.splits)
  moreover have "hashed a = hashed b" if "deriveEventIdFromEvent digest a = deriveEventIdFromEvent digest b"
    using that digest by (auto simp: derive_hashed split: option.splits)
  moreover have "deriveEventIdFromEvent digest a = deriveEventIdFromEvent digest b" if "hashed a = hashed b"
    by (simp only: derive_hashed that)
  ultimately show ?thesis unfolding hashed_position [symmetric] by blast
qed

definition sample_event :: "string \<Rightarrow> document" where
  "sample_event i = [(''id'', JStr i), (''network'', JStr ''Test''), (''ledger'', JNum 7)]"

definition sample_digest :: "json list \<Rightarrow> string" where
  "sample_digest t = (case t of [_, _, _, _, JStr p] \<Rightarrow> p | _ \<Rightarrow> [])"

theorem event_ids_are_positions_witness:
  "deriveEventIdFromEvent sample_digest (sample_event ''1'') = Identified ''evt_v1_1'' Position_only \<and>
   position (sample_event ''1'') \<noteq> position (sample_event ''2'') \<and>
   deriveEventIdFromEvent sample_digest (sample_event ''1'') \<noteq> deriveEventIdFromEvent sample_digest (sample_event ''2'')"
proof -
  let ?E = "{sample_event ''1'', sample_event ''2''}"
  have h: "hashed (sample_event i) = Some [JStr ''v1'', JStr ''position-only'', JStr ''Test'', JNull, JStr i]" if "i \<noteq> []" for i
    using that by (simp add: hashed_def position_def sample_event_def non_empty_string_def string_or_null_def coalesce_def
        nullish_def nullish_null_def ID_VERSION_def)
  have "inj_on sample_digest {t. \<exists>ev \<in> ?E. hashed ev = Some t}"
    by (auto simp: inj_on_def h sample_digest_def)
  from event_ids_are_positions [OF this, of "sample_event ''1''" "sample_event ''2''"]
  have "deriveEventIdFromEvent sample_digest (sample_event ''1'') = deriveEventIdFromEvent sample_digest (sample_event ''2'')
      \<longleftrightarrow> position (sample_event ''1'') = position (sample_event ''2'')" by simp
  moreover have "position (sample_event ''1'') \<noteq> position (sample_event ''2'')"
    using h [of "''1''"] h [of "''2''"] by (simp add: hashed_position [symmetric])
  ultimately show ?thesis
    by (simp add: derive_hashed h hashTuple_def id_prefix_def ID_VERSION_def sample_digest_def)
qed

text \<open>
  The migration of identifiers settles: a row that keeps its identifier has the one its event
  derives, and a row that is rewritten keeps the new one when the migration runs again.
\<close>

theorem migration_settles:
  "planEventIdRewrite digest current raw net = Rewrite_id i why \<Longrightarrow> planEventIdRewrite digest i raw net = Keep_id i"
  by (auto simp: planEventIdRewrite_def split: option.splits identity.splits if_splits)

theorem migration_settles_witness:
  "planEventIdRewrite sample_digest ''evt_v1_1'' (Some (sample_event ''1'')) None = Keep_id ''evt_v1_1''"
proof -
  have "planEventIdRewrite sample_digest ''stellar:unknown:7:0.1'' (Some (sample_event ''1'')) None =
      Rewrite_id ''evt_v1_1'' Legacy_fallback" by code_simp
  then show ?thesis by (rule migration_settles)
qed

end
