(* ===== verification/EventParser.thy ===== *)
theory EventParser imports Json begin

text \<open>
  \<open>src/lib/indexer/eventParser.js\<close>: contract events in the shape the indexer applies. \<open>decode\<close>, a
  parameter, is what the Stellar library makes of one base64 XDR value (none when it throws): bytes
  are lists of numbers, 64- and 128-bit integers numbers. A parser that throws gives no event.
\<close>

section \<open>Values\<close>

definition hex_char :: "nat \<Rightarrow> char" where
  "hex_char n = ''0123456789abcdef'' ! n"

definition byte_hex :: "nat \<Rightarrow> string" where
  "byte_hex n = [hex_char (n div 16), hex_char (n mod 16)]"

text \<open>\<open>Buffer.from(x).toString('hex')\<close> of bytes or a string; anything else throws.\<close>

definition bytesToHex :: "json option \<Rightarrow> string option" where
  "bytesToHex v =
     (case v of
        Some (JArr xs) \<Rightarrow> Some (concat (map (\<lambda>x. case x of JNum r \<Rightarrow> byte_hex (nat (\<lfloor>r\<rfloor> mod 256)) | _ \<Rightarrow> byte_hex 0) xs))
      | Some (JStr s) \<Rightarrow> Some (concat (map (\<lambda>c. byte_hex (of_char c)) s))
      | _ \<Rightarrow> None)"

definition int_text :: "int \<Rightarrow> string" where
  "int_text n = (if n < 0 then CHR ''-'' # nat_str (nat (- n)) else nat_str (nat n))"

text \<open>\<open>String(v)\<close>; the numbers of the contracts are integers, and they have no dates.\<close>

fun comma :: "string list \<Rightarrow> string" where
  "comma [] = []"
| "comma [x] = x"
| "comma (x # y # xs) = x @ CHR '','' # comma (y # xs)"

fun text_of :: "json \<Rightarrow> string" where
  "text_of JNull = ''null''"
| "text_of (JBool b) = (if b then ''true'' else ''false'')"
| "text_of (JNum r) = int_text \<lfloor>r\<rfloor>"
| "text_of (JStr s) = s"
| "text_of (JDate t) = []"
| "text_of (JArr xs) = comma (map (\<lambda>x. if x = JNull then [] else text_of x) xs)"
| "text_of (JObj m) = ''[object Object]''"

text \<open>\<open>v != null ? String(v) : null\<close>.\<close>

definition text_or_null :: "json option \<Rightarrow> json" where
  "text_or_null v = (case v of Some x \<Rightarrow> if x = JNull then JNull else JStr (text_of x) | None \<Rightarrow> JNull)"

text \<open>\<open>xs[i]\<close>: undefined past the end.\<close>

definition item :: "json list \<Rightarrow> nat \<Rightarrow> json option" where
  "item xs i = (if i < length xs then Some (xs ! i) else None)"

text \<open>Fields of an object literal: an undefined value is a field that reads as undefined.\<close>

definition given :: "string \<Rightarrow> json option \<Rightarrow> document" where
  "given k v = (case v of Some x \<Rightarrow> [(k, x)] | None \<Rightarrow> [])"

definition named :: "string \<Rightarrow> document \<Rightarrow> document" where
  "named ty fs = (''type'', JStr ty) # fs"

definition with_bytes :: "json option \<Rightarrow> (json \<Rightarrow> document) \<Rightarrow> document option" where
  "with_bytes v f = map_option (\<lambda>h. f (JStr h)) (bytesToHex v)"

section \<open>The parsers\<close>

definition not_false :: "json option \<Rightarrow> json" where
  "not_false v = JBool (v \<noteq> Some (JBool False))"

definition EVENT_PARSERS :: "(string \<times> (json list \<Rightarrow> json list \<Rightarrow> document option)) list" where
  "EVENT_PARSERS =
     [(''purchase.completed'', \<lambda>t d. with_bytes (item t 3) (\<lambda>m. named ''purchase.completed''
         ([(''purchaseId'', text_or_null (item t 2)), (''materialId'', m)] @ given ''buyerAddress'' (item t 4) @
          [(''sellerAddress'', nullish_null (item d 0)), (''asset'', nullish_null (item d 1)),
           (''amount'', text_or_null (item d 2))]))),
      (''purchase.refunded'', \<lambda>t d. with_bytes (item t 3) (\<lambda>m. named ''purchase.refunded''
         ([(''purchaseId'', text_or_null (item t 2)), (''materialId'', m)] @ given ''buyerAddress'' (item t 4) @
          [(''asset'', nullish_null (item d 0)), (''refundAmount'', text_or_null (item d 1)),
           (''entitlementRevoked'', not_false (item d 2))]))),
      (''dispute.opened'', \<lambda>t d. with_bytes (item t 3) (\<lambda>m. named ''dispute.opened''
         [(''purchaseId'', text_or_null (item t 2)), (''materialId'', m), (''opener'', nullish_null (item t 4))])),
      (''material.registered'', \<lambda>t d. with_bytes (item t 2) (\<lambda>m. named ''material.registered''
         [(''materialId'', m), (''creatorAddress'', nullish_null (item t 3))])),
      (''payout.distributed'', \<lambda>t d. with_bytes (item t 3) (\<lambda>m. named ''payout.distributed''
         [(''purchaseId'', text_or_null (item t 2)), (''materialId'', m), (''recipient'', nullish_null (item t 4)),
          (''role'', nullish_null (item d 0)), (''asset'', nullish_null (item d 1)), (''amount'', text_or_null (item d 2))])),
      (''dispute.resolved'', \<lambda>t d. with_bytes (item t 3) (\<lambda>m. named ''dispute.resolved''
         [(''purchaseId'', text_or_null (item t 2)), (''materialId'', m), (''resolution'', nullish_null (item d 0)),
          (''resolvedLedger'', nullish_null (item d 1))])),
      (''escrow.released'', \<lambda>t d. with_bytes (item d 0) (\<lambda>m. named ''escrow.released''
         [(''purchaseId'', text_or_null (item t 2)), (''materialId'', m), (''asset'', nullish_null (item d 1)),
          (''amount'', text_or_null (item d 2))])),
      (''admin.transfer_initiated'', \<lambda>t d. Some (named ''admin.transfer_initiated''
         [(''from'', nullish_null (item t 2)), (''pendingAdmin'', nullish_null (item d 0))])),
      (''admin.transfer_accepted'', \<lambda>t d. Some (named ''admin.transfer_accepted''
         [(''newAdmin'', nullish_null (item t 2))])),
      (''creator.tier_updated'', \<lambda>t d. Some (named ''creator.tier_updated''
         [(''creator'', nullish_null (item t 2)), (''tier'', nullish_null (item d 0))])),
      (''purchase.bulk_completed'', \<lambda>t d. with_bytes (item t 3) (\<lambda>m. named ''purchase.bulk_completed''
         [(''purchaser'', nullish_null (item t 2)), (''materialId'', m), (''recipientCount'', nullish_null (item d 0)),
          (''unitPrice'', text_or_null (item d 1)), (''totalPaid'', text_or_null (item d 2)),
          (''asset'', nullish_null (item d 3))])),
      (''scholarship.credits_issued'', \<lambda>t d. Some (named ''scholarship.credits_issued''
         [(''grantId'', text_or_null (item t 2)), (''learner'', nullish_null (item t 3)), (''issuer'', nullish_null (item d 0)),
          (''amount'', text_or_null (item d 1)), (''expiresAt'', nullish_null (item d 2))])),
      (''scholarship.credits_redeemed'', \<lambda>t d. with_bytes (item t 4) (\<lambda>m. named ''scholarship.credits_redeemed''
         [(''redemptionId'', text_or_null (item t 2)), (''learner'', nullish_null (item t 3)), (''materialId'', m),
          (''creditsUsed'', text_or_null (item d 0)), (''remainingCredits'', text_or_null (item d 1))])),
      (''scholarship.grant_revoked'', \<lambda>t d. Some (named ''scholarship.grant_revoked''
         [(''grantId'', text_or_null (item t 2)), (''learner'', nullish_null (item t 3)), (''issuer'', nullish_null (item d 0)),
          (''creditsRevoked'', text_or_null (item d 1))])),
      (''scholarship.cost_updated'', \<lambda>t d. with_bytes (item t 2) (\<lambda>m. named ''scholarship.cost_updated''
         [(''materialId'', m), (''creditCost'', text_or_null (item d 0))])),
      (''scholarship.issuer_updated'', \<lambda>t d. Some (named ''scholarship.issuer_updated''
         [(''issuer'', nullish_null (item t 2)), (''enabled'', not_false (item d 0))]))]"

section \<open>Decoding an event\<close>

definition or_else :: "json option \<Rightarrow> json option \<Rightarrow> json option" where
  "or_else a b = (if nullish a then b else a)"

fun decode_all :: "(string \<Rightarrow> json option) \<Rightarrow> json list \<Rightarrow> json list option" where
  "decode_all decode [] = Some []"
| "decode_all decode (JStr s # xs) =
     (case decode s of None \<Rightarrow> None | Some v \<Rightarrow> map_option (\<lambda>vs. v # vs) (decode_all decode xs))"
| "decode_all decode (_ # xs) = None"

definition decodeTopics :: "(string \<Rightarrow> json option) \<Rightarrow> document \<Rightarrow> json list option" where
  "decodeTopics decode ev =
     (case or_else (map_of ev ''topic'') (map_of ev ''topics'') of
        Some (JArr ts) \<Rightarrow> decode_all decode ts
      | None \<Rightarrow> Some [] | Some JNull \<Rightarrow> Some []
      | _ \<Rightarrow> None)"

definition decodeDataVec :: "(string \<Rightarrow> json option) \<Rightarrow> document \<Rightarrow> json list option" where
  "decodeDataVec decode ev =
     (let v = or_else (map_of ev ''value'') (map_of ev ''data'');
          base64 = (case v of Some (JStr s) \<Rightarrow> v | Some (JObj m) \<Rightarrow> map_of m ''xdr'' | _ \<Rightarrow> None) in
      if \<not> js_true base64 then Some []
      else (case base64 of
          Some (JStr s) \<Rightarrow> (case decode s of None \<Rightarrow> None | Some (JArr xs) \<Rightarrow> Some xs | Some x \<Rightarrow> Some [x])
        | _ \<Rightarrow> None))"

definition envelope :: "document \<Rightarrow> document" where
  "envelope ev =
     given ''id'' (or_else (map_of ev ''id'') (map_of ev ''pagingToken'')) @
     [(''ledger'', nullish_null (map_of ev ''ledger'')),
      (''transactionHash'', nullish_null (or_else (map_of ev ''txHash'') (map_of ev ''transactionHash''))),
      (''operationIndex'', (case map_of ev ''operationIndex'' of Some (JNum r) \<Rightarrow> if is_integer r then JNum r else JNull | _ \<Rightarrow> JNull)),
      (''contractId'', nullish_null (map_of ev ''contractId'')),
      (''timestamp'', nullish_null (map_of ev ''ledgerClosedAt'')),
      (''topic'', nullish_null (or_else (map_of ev ''topic'') (map_of ev ''topics'')))]"

definition parseContractEvent :: "(string \<Rightarrow> json option) \<Rightarrow> document \<Rightarrow> document option" where
  "parseContractEvent decode ev =
     (case (decodeTopics decode ev, decodeDataVec decode ev) of
        (Some topics, Some vec) \<Rightarrow>
          (case (item topics 0, item topics 1) of
             (Some (JStr name0), Some (JStr name1)) \<Rightarrow>
               (case map_of EVENT_PARSERS (name0 @ ''.'' @ name1) of
                  None \<Rightarrow> None
                | Some parse \<Rightarrow>
                    (case parse topics vec of None \<Rightarrow> None | Some parsed \<Rightarrow> Some (set_fields (envelope ev) parsed)))
           | _ \<Rightarrow> None)
      | _ \<Rightarrow> None)"

section \<open>What a parsed event is\<close>

text \<open>The fields a parser sets never clash with those of the envelope, so nothing of the payload is lost.\<close>

definition envelope_fields :: "string list" where
  "envelope_fields = [''id'', ''ledger'', ''transactionHash'', ''operationIndex'', ''contractId'', ''timestamp'', ''topic'']"

lemma given_keys: "set (keys (given k v)) \<subseteq> {k}"
  by (cases v) (simp_all add: given_def)

lemma envelope_keys: "set (keys (envelope ev)) \<subseteq> set envelope_fields"
  using given_keys [of "''id''"] by (auto simp: envelope_def envelope_fields_def)

lemma parser_named:
  "(ty, parse) \<in> set EVENT_PARSERS \<Longrightarrow> parse t d = Some parsed \<Longrightarrow> map_of parsed ''type'' = Some (JStr ty)"
  by (auto simp: EVENT_PARSERS_def with_bytes_def named_def)

lemma parser_keys:
  assumes "(ty, parse) \<in> set EVENT_PARSERS" "parse t d = Some parsed"
  shows "set (keys parsed) \<inter> set envelope_fields = {}"
  using assms given_keys [of "''buyerAddress''" "item t 4"]
  by (fastforce simp: EVENT_PARSERS_def with_bytes_def named_def envelope_fields_def)

end
