(* ===== verification/EventIndexer.thy ===== *)
theory EventIndexer imports ForkDetection EventIdentity EventParser begin

text \<open>
  \<open>src/lib/indexer/stellarIndexer.js\<close>: contract events applied to the documents, the batch with
  its cursor, checkpoints, quarantine and dead letters, and the operator's actions on dead letters.
  An event is an object with its fields. \<open>digest\<close> and \<open>decode\<close> stand for the hash and the XDR
  library; the event source and the ledger hashes are asked from outside.
\<close>

section \<open>Reading an event\<close>

definition tx_hash :: "document \<Rightarrow> json" where
  "tx_hash ev = (if js_true (map_of ev ''transactionHash'') then or_null (map_of ev ''transactionHash'')
     else or_null (map_of ev ''txHash''))"

text \<open>\<open>String(v || "").toLowerCase()\<close>.\<close>

definition lower_text :: "json option \<Rightarrow> string" where
  "lower_text v = (if js_true v then js_lower (text_of (or_null v)) else [])"

definition given_null :: "document \<Rightarrow> string \<Rightarrow> json" where
  "given_null ev k = nullish_null (map_of ev k)"

definition truthy_null :: "document \<Rightarrow> string \<Rightarrow> json" where
  "truthy_null ev k = or_null (map_of ev k)"

definition isStaleReplay :: "doc option \<Rightarrow> document \<Rightarrow> bool" where
  "isStaleReplay record ev =
     (case record of
        None \<Rightarrow> False
      | Some r \<Rightarrow> js_true (field_of r ''indexedLedger'') \<and> js_true (map_of ev ''ledger'') \<and>
          (case (as_num (map_of ev ''ledger''), as_num (field_of r ''indexedLedger'')) of
             (Some l, Some i) \<Rightarrow> l < i | _ \<Rightarrow> False))"

text \<open>What a call is applied with.\<close>

record applying =
  a_event :: document
  a_now :: int
  a_cfg :: chain_config

abbreviation "indexed_ledger ev \<equiv> (''indexedLedger'', truthy_null ev ''ledger'')"

definition upsert_now :: "(thrown \<Rightarrow> 'r access_script) \<Rightarrow> applying \<Rightarrow> string \<Rightarrow> document \<Rightarrow> document \<Rightarrow> 'r access_script \<Rightarrow> 'r access_script" where
  "upsert_now err x c flt sets k =
     upsert_doc err c flt (sets @ [(''updatedAt'', JDate (a_now x))]) [(''createdAt'', JDate (a_now x))] k"

definition revoke :: "(thrown \<Rightarrow> 'r access_script) \<Rightarrow> applying \<Rightarrow> json \<Rightarrow> string \<Rightarrow> string \<Rightarrow> 'r access_script \<Rightarrow> 'r access_script" where
  "revoke err x buyer reason settlement k =
     invalidateEntitlement err (a_cfg x) (as_str (map_of (a_event x) ''materialId'')) (as_str (Some buyer)) reason
       (given_null (a_event x) ''purchaseId'') (JStr settlement) (\<lambda>_. k)"

section \<open>The handlers of the events\<close>

definition material_registered :: "(thrown \<Rightarrow> 'r access_script) \<Rightarrow> applying \<Rightarrow> 'r access_script \<Rightarrow> 'r access_script" where
  "material_registered err x k =
     (let ev = a_event x in
      upsert_doc err ''materials'' [(''materialId'', given_null ev ''materialId'')]
        [(''materialId'', given_null ev ''materialId''), (''chainContractId'', truthy_null ev ''contractId''),
         (''chainLedger'', truthy_null ev ''ledger''), (''chainTxHash'', tx_hash ev), indexed_ledger ev,
         (''syncStatus'', JStr ''indexed''), (''updatedAt'', JDate (a_now x))]
        [(''createdAt'', JDate (a_now x)), (''visibility'', JStr ''public'')] k)"

definition purchase_snapshot :: "document \<Rightarrow> json" where
  "purchase_snapshot ev =
     JObj [(''metadataHash'', truthy_null ev ''metadataHash''), (''rightsHash'', truthy_null ev ''rightsHash''),
       (''saleTermsVersion'', given_null ev ''saleTermsVersion''), (''metadataUri'', truthy_null ev ''metadataUri'')]"

definition completed_fields :: "document \<Rightarrow> string \<Rightarrow> document" where
  "completed_fields ev buyer =
     [(''materialId'', given_null ev ''materialId''), (''buyerAddress'', JStr buyer),
      (''purchaseId'', given_null ev ''purchaseId''), (''sellerAddress'', truthy_null ev ''sellerAddress''),
      (''chainTxHash'', tx_hash ev), (''amount'', truthy_null ev ''amount''), (''asset'', truthy_null ev ''asset''),
      (''status'', JStr ''settled''), (''settlementState'', JStr ''Pending''),
      (''purchaseSnapshot'', purchase_snapshot ev), indexed_ledger ev]"

definition active_cache_fields :: "document \<Rightarrow> json \<Rightarrow> string \<Rightarrow> int \<Rightarrow> document" where
  "active_cache_fields ev buyer settlement now =
     [(''materialId'', given_null ev ''materialId''), (''buyerAddress'', buyer), (''state'', JStr (state_name Finalized)),
      (''active'', JBool True), (''source'', JStr ''stellar''), (''purchaseId'', given_null ev ''purchaseId''),
      (''settlementState'', JStr settlement), (''chainTxHash'', tx_hash ev), indexed_ledger ev,
      (''checkedAt'', JDate now)]"

definition receipt_id :: "json \<Rightarrow> string" where
  "receipt_id purchaseId = ''side-effect:email:purchase_receipt:'' @ text_of purchaseId"

definition enqueue_receipt :: "(thrown \<Rightarrow> 'r access_script) \<Rightarrow> applying \<Rightarrow> json \<Rightarrow> 'r access_script \<Rightarrow> 'r access_script" where
  "enqueue_receipt err x purchase k =
     upsert_doc err ''side_effect_outbox'' [(''deliveryId'', JStr (receipt_id purchase))]
       [(''sourceAggregate'', JStr ''purchase''), (''sourceId'', JStr (text_of purchase)),
        (''intent'', JObj [(''type'', JStr ''email''), (''channel'', JStr ''purchase_receipt''),
           (''payload'', JObj [(''source'', JStr ''indexer''), (''purchaseId'', purchase)])]),
        (''status'', JStr ''pending''), (''deliveryId'', JStr (receipt_id purchase)), (''updatedAt'', JDate (a_now x))]
       [(''attemptCount'', JNum 0), (''nextAttemptAt'', JDate (a_now x)), (''createdAt'', JDate (a_now x))] k"

definition purchase_completed :: "(thrown \<Rightarrow> 'r access_script) \<Rightarrow> applying \<Rightarrow> bool \<Rightarrow> 'r access_script \<Rightarrow> 'r access_script" where
  "purchase_completed err x alreadyIndexed k =
     (let ev = a_event x; buyer = lower_text (map_of ev ''buyerAddress''); key = pair_key (given_null ev ''materialId'') buyer in
      upsert_now err x ''purchases'' key (completed_fields ev buyer)
        (upsert_now err x ''entitlement_cache'' key (active_cache_fields ev (JStr buyer) ''Pending'' (a_now x))
          (if alreadyIndexed then k
           else find_doc err (query ''purchases'' key) (\<lambda>p. case p of
             None \<Rightarrow> k
           | Some d \<Rightarrow> enqueue_receipt err x (nullish_null (field_of d ''_id'')) k))))"

definition settlement_fields :: "applying \<Rightarrow> string \<Rightarrow> document \<Rightarrow> document" where
  "settlement_fields x settlement extra =
     (''settlementState'', JStr settlement) # extra @ [indexed_ledger (a_event x), (''updatedAt'', JDate (a_now x))]"

text \<open>\<open>skip\<close> is the early return of a stale event.\<close>

definition purchase_refunded :: "(thrown \<Rightarrow> 'r access_script) \<Rightarrow> applying \<Rightarrow> 'r access_script \<Rightarrow> 'r access_script \<Rightarrow> 'r access_script" where
  "purchase_refunded err x skip k =
     (let ev = a_event x; buyer = lower_text (map_of ev ''buyerAddress''); key = pair_key (given_null ev ''materialId'') buyer in
      find_doc err (query ''purchases'' key) (\<lambda>existing.
        if isStaleReplay existing ev then skip
        else update_doc err (query ''purchases'' key)
          (put (settlement_fields x ''Refunded'' [(''refundedAt'', JDate (a_now x)), (''refundTransactionHash'', tx_hash ev)]))
          (\<lambda>_. revoke err x (JStr buyer) ''chain-refunded'' ''Refunded'' k)))"

definition purchase_key :: "document \<Rightarrow> document" where
  "purchase_key ev = [(''materialId'', given_null ev ''materialId''), (''purchaseId'', given_null ev ''purchaseId'')]"

definition buyer_of :: "doc option \<Rightarrow> json" where
  "buyer_of p = (case p of Some d \<Rightarrow> or_null (field_of d ''buyerAddress'') | None \<Rightarrow> JNull)"

definition dispute_opened :: "(thrown \<Rightarrow> 'r access_script) \<Rightarrow> applying \<Rightarrow> 'r access_script \<Rightarrow> 'r access_script \<Rightarrow> 'r access_script" where
  "dispute_opened err x skip k =
     (let ev = a_event x in
      find_doc err (query ''purchases'' (purchase_key ev)) (\<lambda>purchase.
        if isStaleReplay purchase ev then skip
        else update_doc err (query ''purchases'' (purchase_key ev))
          (put (settlement_fields x ''Disputed'' [(''disputedAt'', JDate (a_now x))]))
          (\<lambda>_. if buyer_of purchase = JNull then k
               else revoke err x (buyer_of purchase) ''chain-disputed'' ''Disputed'' k)))"

definition refunds_buyer :: "document \<Rightarrow> bool" where
  "refunds_buyer ev \<longleftrightarrow> map_of ev ''resolution'' = Some (JStr ''RefundBuyer'')"

definition dispute_resolved :: "(thrown \<Rightarrow> 'r access_script) \<Rightarrow> applying \<Rightarrow> 'r access_script \<Rightarrow> 'r access_script \<Rightarrow> 'r access_script" where
  "dispute_resolved err x skip k =
     (let ev = a_event x in
      find_doc err (query ''purchases'' (purchase_key ev)) (\<lambda>purchase.
        if isStaleReplay purchase ev then skip
        else update_doc err (query ''purchases'' (purchase_key ev))
          (put (settlement_fields x (if refunds_buyer ev then ''Refunded'' else ''Released'')
             [(''disputeResolution'', given_null ev ''resolution''), (''disputeResolvedAt'', JDate (a_now x)),
              (''disputeResolvedLedger'', given_null ev ''resolvedLedger'')]))
          (\<lambda>_. if buyer_of purchase = JNull then k
               else if refunds_buyer ev then revoke err x (buyer_of purchase) ''chain-dispute-resolved'' ''Refunded'' k
               else upsert_now err x ''entitlement_cache''
                 [(''materialId'', given_null ev ''materialId''), (''buyerAddress'', buyer_of purchase)]
                 (active_cache_fields ev (buyer_of purchase) ''Released'' (a_now x)) k)))"

definition escrow_released :: "(thrown \<Rightarrow> 'r access_script) \<Rightarrow> applying \<Rightarrow> 'r access_script \<Rightarrow> 'r access_script \<Rightarrow> 'r access_script" where
  "escrow_released err x skip k =
     (let ev = a_event x in
      find_doc err (query ''purchases'' (purchase_key ev)) (\<lambda>purchase.
        if isStaleReplay purchase ev then skip
        else update_doc err (query ''purchases'' (purchase_key ev))
          (put (settlement_fields x ''Released''
             [(''escrowReleasedAt'', JDate (a_now x)), (''escrowReleaseLedger'', truthy_null ev ''ledger'')]))
          (\<lambda>_. k)))"

section \<open>The mirrors\<close>

text \<open>The events that only upsert one document: its collection, its key, and the fields.\<close>

definition template_text :: "json option \<Rightarrow> string" where
  "template_text v = (case v of Some x \<Rightarrow> text_of x | None \<Rightarrow> ''undefined'')"

definition bulk_key :: "document \<Rightarrow> string" where
  "bulk_key ev = ''bulk:'' @ (if tx_hash ev = JNull then ''tx'' else text_of (tx_hash ev)) @ '':'' @
     template_text (map_of ev ''materialId'')"

definition mirror_of :: "document \<Rightarrow> string \<Rightarrow> (string \<times> document \<times> document) option" where
  "mirror_of ev ty =
     (if ty = ''payout.distributed'' then
        let recipient = lower_text (map_of ev ''recipient'') in
        Some (''payouts'', [(''purchaseId'', given_null ev ''purchaseId''), (''recipient'', JStr recipient)],
          [(''purchaseId'', given_null ev ''purchaseId''), (''materialId'', truthy_null ev ''materialId''),
           (''recipient'', JStr recipient), (''role'', given_null ev ''role''), (''asset'', given_null ev ''asset''),
           (''amount'', given_null ev ''amount''), (''chainTxHash'', tx_hash ev), indexed_ledger ev])
      else if ty = ''purchase.bulk_completed'' then
        Some (''bulk_purchases'', [(''_id'', JStr (bulk_key ev))],
          [(''_id'', JStr (bulk_key ev)), (''purchaser'', given_null ev ''purchaser''),
           (''materialId'', truthy_null ev ''materialId''), (''recipientCount'', given_null ev ''recipientCount''),
           (''unitPrice'', given_null ev ''unitPrice''), (''totalPaid'', given_null ev ''totalPaid''),
           (''asset'', given_null ev ''asset''), (''chainTxHash'', tx_hash ev), indexed_ledger ev])
      else if ty = ''creator.tier_updated'' then
        let key = JStr (lower_text (map_of ev ''creator'')) in
        Some (''creator_tiers'', [(''_id'', key)],
          [(''_id'', key), (''creator'', given_null ev ''creator''), (''tier'', given_null ev ''tier''), indexed_ledger ev])
      else if ty = ''admin.transfer_initiated'' then
        let key = JStr (lower_text (map_of ev ''from'')) in
        Some (''admin_transfers'', [(''_id'', key)],
          [(''_id'', key), (''from'', given_null ev ''from''), (''pendingAdmin'', given_null ev ''pendingAdmin''),
           (''status'', JStr ''initiated''), indexed_ledger ev])
      else if ty = ''scholarship.credits_issued'' then
        let learner = JStr (lower_text (map_of ev ''learner'')) in
        Some (''scholarship_grants'', [(''grantId'', given_null ev ''grantId''), (''learner'', learner)],
          [(''grantId'', given_null ev ''grantId''), (''learner'', learner), (''issuer'', given_null ev ''issuer''),
           (''amount'', given_null ev ''amount''), (''remainingAmount'', given_null ev ''amount''),
           (''expiresAt'', given_null ev ''expiresAt''), (''active'', JBool True), indexed_ledger ev,
           (''chainTxHash'', tx_hash ev)])
      else if ty = ''scholarship.cost_updated'' then
        Some (''materials'', [(''materialId'', given_null ev ''materialId'')],
          [(''materialId'', given_null ev ''materialId''), (''scholarshipCreditCost'', given_null ev ''creditCost''),
           indexed_ledger ev])
      else if ty = ''scholarship.issuer_updated'' then
        Some (''scholarship_config'', [(''_id'', JStr ''issuer'')],
          [(''_id'', JStr ''issuer''), (''issuer'', given_null ev ''issuer''),
           (''enabled'', JBool (map_of ev ''enabled'' \<noteq> Some (JBool False))), indexed_ledger ev])
      else None)"

definition transfer_accepted :: "(thrown \<Rightarrow> 'r access_script) \<Rightarrow> applying \<Rightarrow> 'r access_script \<Rightarrow> 'r access_script" where
  "transfer_accepted err x k =
     (let ev = a_event x; key = JStr (lower_text (map_of ev ''newAdmin'')) in
      upsert_now err x ''admin_transfers'' [(''_id'', key)]
        [(''_id'', key), (''newAdmin'', given_null ev ''newAdmin''), (''status'', JStr ''accepted''),
         (''acceptedAt'', JDate (a_now x)), indexed_ledger ev] k)"

definition credits_redeemed :: "(thrown \<Rightarrow> 'r access_script) \<Rightarrow> applying \<Rightarrow> 'r access_script \<Rightarrow> 'r access_script" where
  "credits_redeemed err x k =
     (let ev = a_event x; learner = JStr (lower_text (map_of ev ''learner'')) in
      upsert_now err x ''scholarship_redemptions'' [(''redemptionId'', given_null ev ''redemptionId'')]
        [(''redemptionId'', given_null ev ''redemptionId''), (''learner'', learner),
         (''materialId'', truthy_null ev ''materialId''), (''creditsUsed'', given_null ev ''creditsUsed''),
         (''remainingCredits'', given_null ev ''remainingCredits''), indexed_ledger ev, (''chainTxHash'', tx_hash ev)]
        (update_doc err (query ''scholarship_grants'' [(''learner'', learner), (''active'', JBool True)])
          (put [(''remainingAmount'', given_null ev ''remainingCredits''), (''updatedAt'', JDate (a_now x))]) (\<lambda>_. k)))"

definition grant_revoked :: "(thrown \<Rightarrow> 'r access_script) \<Rightarrow> applying \<Rightarrow> 'r access_script \<Rightarrow> 'r access_script" where
  "grant_revoked err x k =
     (let ev = a_event x; learner = JStr (lower_text (map_of ev ''learner'')) in
      update_doc err (query ''scholarship_grants'' [(''grantId'', given_null ev ''grantId''), (''learner'', learner)])
        (put [(''active'', JBool False), (''creditsRevoked'', given_null ev ''creditsRevoked''),
              (''revokedAt'', JDate (a_now x)), indexed_ledger ev, (''updatedAt'', JDate (a_now x))]) (\<lambda>_. k))"

section \<open>Applying an event\<close>

definition apply_effects :: "(thrown \<Rightarrow> 'r access_script) \<Rightarrow> applying \<Rightarrow> bool \<Rightarrow> (bool \<Rightarrow> 'r access_script) \<Rightarrow> 'r access_script" where
  "apply_effects err x already k =
     (case map_of (a_event x) ''type'' of
        Some (JStr ty) \<Rightarrow>
          if ty = ''material.registered'' then material_registered err x (k already)
          else if ty = ''purchase.completed'' then purchase_completed err x already (k already)
          else if ty = ''purchase.refunded'' then purchase_refunded err x (k True) (k already)
          else if ty = ''dispute.opened'' then dispute_opened err x (k True) (k already)
          else if ty = ''dispute.resolved'' then dispute_resolved err x (k True) (k already)
          else if ty = ''escrow.released'' then escrow_released err x (k True) (k already)
          else if ty = ''admin.transfer_accepted'' then transfer_accepted err x (k already)
          else if ty = ''scholarship.credits_redeemed'' then credits_redeemed err x (k already)
          else if ty = ''scholarship.grant_revoked'' then grant_revoked err x (k already)
          else (case mirror_of (a_event x) ty of
              Some (c, flt, sets) \<Rightarrow> upsert_now err x c flt sets (k already)
            | None \<Rightarrow> k already)
      | _ \<Rightarrow> k already)"

definition sync_event :: "string \<Rightarrow> document \<Rightarrow> int \<Rightarrow> doc" where
  "sync_event i ev now =
     \<lparr>coll = ''sync_events'',
      body = [(''_id'', JStr i)] @ given ''type'' (map_of ev ''type'') @
        [(''source'', if js_true (map_of ev ''source'') then truthy_null ev ''source'' else JStr ''stellar''),
         (''raw'', JObj ev), (''createdAt'', JDate now), indexed_ledger ev,
         (''ledgerHash'', truthy_null ev ''ledgerHash''), (''txHash'', tx_hash ev)]\<rparr>"

text \<open>The result is the identifier and whether the event counts as skipped.\<close>

definition applyIndexedEvent :: "(json list \<Rightarrow> string) \<Rightarrow> chain_config \<Rightarrow> (thrown \<Rightarrow> 'r access_script) \<Rightarrow> document \<Rightarrow>
    (string \<times> bool \<Rightarrow> 'r access_script) \<Rightarrow> 'r access_script" where
  "applyIndexedEvent digest cfg err ev k =
     clock err (\<lambda>now. case deriveEventIdFromEvent digest ev of
       Insufficient \<Rightarrow> err (Error ''Indexed event is missing a stable id'')
     | Identified i _ \<Rightarrow>
         let x = \<lparr>a_event = ev, a_now = now, a_cfg = cfg\<rparr> in
         insert_doc (\<lambda>e. if e = Duplicate_key then apply_effects err x True (\<lambda>skipped. k (i, skipped)) else err e)
           (sync_event i ev now) (apply_effects err x False (\<lambda>skipped. k (i, skipped))))"

end
