(* ===== verification/IndexerBatch.thy ===== *)
theory IndexerBatch imports EventIndexer begin

text \<open>
  The batch of \<open>src/lib/indexer/stellarIndexer.js\<close> with its cursor, checkpoints, quarantine and dead
  letters, the operator's actions on dead letters, and the recovery of missed payments
  (\<open>src/lib/indexer/recovery.js\<close>). Texts of errors come with the error from outside; the two
  queries of the health report, which run at once, are asked one after the other.
\<close>

section \<open>Errors\<close>

definition transient_codes :: "json list" where
  "transient_codes = [JStr ''ECONNRESET'', JStr ''ECONNREFUSED'', JStr ''ETIMEDOUT'', JNum 11600, JStr ''ENOTFOUND'', JStr ''EAI_AGAIN'']"

definition transient_words :: "string list" where
  "transient_words = [''timeout'', ''network'', ''econnreset'', ''socket'', ''topology was destroyed'', ''fetch failed'',
     ''failed to fetch'', ''dns'', ''getaddrinfo'']"

definition error_status :: "error_info \<Rightarrow> json option" where
  "error_status e =
     (if \<not> nullish (ei_responseStatus e) then ei_responseStatus e
      else if \<not> nullish (ei_status e) then ei_status e
      else map_option JNum (as_num (ei_code e)))"

definition classifyIndexerError :: "error_info \<Rightarrow> string" where
  "classifyIndexerError e =
     (if (case ei_code e of Some c \<Rightarrow> c \<in> set transient_codes | None \<Rightarrow> False) then ''transient''
      else if (case as_num (error_status e) of Some r \<Rightarrow> r = 429 \<or> (500 \<le> r \<and> r < 600) | None \<Rightarrow> False) then ''transient''
      else if list_ex (js_includes (js_lower (ei_message e))) transient_words then ''transient''
      else ''poison'')"

definition no_info :: "string \<Rightarrow> error_info" where
  "no_info text = \<lparr>ei_code = None, ei_status = None, ei_responseStatus = None, ei_message = text\<rparr>"

definition with_info :: "thrown \<Rightarrow> (error_info \<Rightarrow> 'r access_script) \<Rightarrow> 'r access_script" where
  "with_info e k =
     (case e of
        Error text \<Rightarrow> k (no_info text)
      | _ \<Rightarrow> outer (\<lambda>_. k (no_info [])) Error_of_call (\<lambda>a. case a of
            Error_is i \<Rightarrow> k (if e = Duplicate_key then i\<lparr>ei_code := Some (JNum 11000)\<rparr> else i)
          | _ \<Rightarrow> k (no_info [])))"

section \<open>Quarantine and dead letters\<close>

definition dead_letter :: "json \<Rightarrow> doc \<Rightarrow> bool" where
  "dead_letter i = query ''dead_letter_events'' [(''_id'', i)]"

definition quarantineEvent :: "(json list \<Rightarrow> string) \<Rightarrow> document \<Rightarrow> document \<Rightarrow> string \<Rightarrow> 'r access_script \<Rightarrow> 'r access_script" where
  "quarantineEvent digest raw parsed source k =
     clock (\<lambda>_. k) (\<lambda>now. upsert_doc (\<lambda>_. k) ''indexer_quarantine''
       [(''_id'', JStr (computeQuarantineKey digest source (JObj raw)))]
       [(''source'', JStr source),
        (''type'', if js_true (map_of parsed ''type'') then truthy_null parsed ''type'' else truthy_null raw ''type''),
        (''raw'', JObj raw), (''parsed'', JObj parsed),
        (''reason'', JStr ''insufficiently identified event: missing event position (source event id)''),
        (''status'', JStr ''pending''), (''lastSeenAt'', JDate now)] [(''createdAt'', JDate now)] k)"

definition retry_count :: "doc option \<Rightarrow> rat" where
  "retry_count d = (case d of Some x \<Rightarrow> (case as_num (field_of x ''retryCount'') of Some r \<Rightarrow> r | None \<Rightarrow> 0) | None \<Rightarrow> 0)"

definition record_failure :: "(thrown \<Rightarrow> 'r access_script) \<Rightarrow> rat \<Rightarrow> string \<Rightarrow> string \<Rightarrow> document \<Rightarrow> document \<Rightarrow> thrown \<Rightarrow>
    'r access_script \<Rightarrow> 'r access_script" where
  "record_failure err maxRetries source i raw parsed e k =
     find_doc err (dead_letter (JStr i)) (\<lambda>existing. with_info e (\<lambda>info. clock err (\<lambda>now.
       let n = retry_count existing + 1; cls = classifyIndexerError info in
       upsert_doc err ''dead_letter_events'' [(''_id'', JStr i)]
         [(''raw'', JObj raw), (''parsed'', JObj parsed), (''lastError'', JStr (ei_message info)),
          (''errorClass'', JStr cls), (''retryCount'', JNum n), (''lastAttemptedAt'', JDate now),
          (''status'', JStr (if cls = ''poison'' \<or> n > maxRetries then ''failed'' else ''retryable'')),
          (''source'', JStr source)] [(''createdAt'', JDate now)] k)))"

section \<open>The batch\<close>

record progress =
  applied :: nat
  skipped :: nat
  quarantined :: nat
  hadFailure :: bool
  lastCursor :: json
  lastLedger :: json

definition moved_to :: "document \<Rightarrow> json option \<Rightarrow> progress \<Rightarrow> progress" where
  "moved_to ev ledger p = p\<lparr>lastCursor := nullish_null (coalesce (coalesce (map_of ev ''id'') (map_of ev ''pagingToken'')) (Some (lastCursor p))),
     lastLedger := nullish_null (coalesce ledger (Some (lastLedger p)))\<rparr>"

definition parsed_event :: "(string \<Rightarrow> json option) \<Rightarrow> document \<Rightarrow> document option" where
  "parsed_event decode ev =
     (case parseContractEvent decode ev of
        Some p \<Rightarrow> Some p
      | None \<Rightarrow> if js_true (map_of ev ''type'') then Some ev else None)"

definition in_context :: "string \<Rightarrow> json \<Rightarrow> document \<Rightarrow> document" where
  "in_context source network ev = set_fields [(''source'', JStr source), (''network'', network)] ev"

record indexer =
  i_digest :: "json list \<Rightarrow> string"
  i_decode :: "string \<Rightarrow> json option"
  i_config :: chain_config
  i_maxRetries :: rat
  i_source :: string
  i_network :: json
  i_hashes :: bool

primrec batch_loop :: "indexer \<Rightarrow> (thrown \<Rightarrow> 'r access_script) \<Rightarrow> document list \<Rightarrow> progress \<Rightarrow>
    (progress \<Rightarrow> 'r access_script) \<Rightarrow> 'r access_script" where
  "batch_loop ix err [] p k = k p"
| "batch_loop ix err (ev # evs) p k =
     (case parsed_event (i_decode ix) ev of
        None \<Rightarrow> batch_loop ix err evs (moved_to ev (map_of ev ''ledger'') (p\<lparr>skipped := skipped p + 1\<rparr>)) k
      | Some parsed \<Rightarrow>
          (let withContext = in_context (i_source ix) (i_network ix) parsed in
           case deriveEventIdFromEvent (i_digest ix) withContext of
             Insufficient \<Rightarrow> quarantineEvent (i_digest ix) ev parsed (i_source ix)
               (batch_loop ix err evs (moved_to ev (map_of ev ''ledger'') (p\<lparr>quarantined := quarantined p + 1\<rparr>)) k)
           | Identified i _ \<Rightarrow>
               applyIndexedEvent (i_digest ix) (i_config ix)
                 (\<lambda>e. record_failure err (i_maxRetries ix) (i_source ix) i ev parsed e
                    (batch_loop ix err evs (p\<lparr>hadFailure := True\<rparr>) k))
                 withContext
                 (\<lambda>(eventId, skip).
                    let q = moved_to ev (map_of parsed ''ledger'')
                              (if skip then p\<lparr>skipped := skipped p + 1\<rparr> else p\<lparr>applied := applied p + 1\<rparr>) in
                    if eventId = [] then batch_loop ix err evs q k
                    else delete_doc (\<lambda>_. batch_loop ix err evs q k) (dead_letter (JStr eventId))
                           (\<lambda>_. batch_loop ix err evs q k))))"

definition sync_state :: "string \<Rightarrow> doc \<Rightarrow> bool" where
  "sync_state source = query ''sync_state'' [(''_id'', JStr (state_id source))]"

definition state_field :: "doc option \<Rightarrow> string \<Rightarrow> json option" where
  "state_field st k = (case st of Some d \<Rightarrow> field_of d k | None \<Rightarrow> None)"

definition single_checkpoint :: "doc option \<Rightarrow> json list" where
  "single_checkpoint st =
     (if js_true (state_field st ''lastLedger'') \<and> js_true (state_field st ''lastLedgerHash'')
      then [JObj [(''ledger'', truthy_null (case st of Some d \<Rightarrow> body d | None \<Rightarrow> []) ''lastLedger''),
                  (''hash'', truthy_null (case st of Some d \<Rightarrow> body d | None \<Rightarrow> []) ''lastLedgerHash'')]]
      else [])"

definition known_checkpoints :: "doc option \<Rightarrow> json list" where
  "known_checkpoints st = (if stored_checkpoints st \<noteq> [] then stored_checkpoints st else single_checkpoint st)"

definition next_checkpoints :: "doc option \<Rightarrow> json \<Rightarrow> json \<Rightarrow> checkpoint list" where
  "next_checkpoints st ledger hash =
     (let all = known_checkpoints st @
            (if js_true (Some ledger) \<and> js_true (Some hash) \<and> Some ledger \<noteq> state_field st ''lastLedger''
             then [JObj [(''ledger'', ledger), (''hash'', hash)]] else []);
          deduped = dedupeCheckpoints all in
      drop (length deduped - MAX_CHECKPOINTS) deduped)"

text \<open>Before the batch: when the chain left the recorded history, rewind and read the state again.\<close>

definition check_fork :: "indexer \<Rightarrow> (thrown \<Rightarrow> 'r access_script) \<Rightarrow> doc option \<Rightarrow> (doc option \<Rightarrow> 'r access_script) \<Rightarrow> 'r access_script" where
  "check_fork ix err st k =
     (if js_true (state_field st ''lastLedger'') \<and> js_true (state_field st ''lastLedgerHash'') \<and> i_hashes ix then
        detectFork err (Some (JArr (known_checkpoints st))) (state_field st ''lastLedger'') (state_field st ''lastLedgerHash'')
          (\<lambda>report. if forked report then
              (case divergenceLedger report of
                 Some d \<Rightarrow> rewindAfterFork err (i_config ix) (i_source ix) d (\<lambda>_. find_doc err (sync_state (i_source ix)) k)
               | None \<Rightarrow> k st)
            else k st)
      else k st)"

definition batch_cursor :: "event_page \<Rightarrow> progress \<Rightarrow> json" where
  "batch_cursor page p =
     (if hadFailure p then lastCursor p else if js_true (p_nextCursor page) then or_null (p_nextCursor page) else lastCursor p)"

definition batch_ledger :: "event_page \<Rightarrow> progress \<Rightarrow> json" where
  "batch_ledger page p =
     (if hadFailure p then lastLedger p else if js_true (p_lastLedger page) then or_null (p_lastLedger page) else lastLedger p)"

text \<open>The hash of the ledger the batch reached; the recorded one when it cannot be had.\<close>

definition next_hash :: "indexer \<Rightarrow> doc option \<Rightarrow> json \<Rightarrow> (json \<Rightarrow> 'r access_script) \<Rightarrow> 'r access_script" where
  "next_hash ix st ledger k =
     (let old = or_null (state_field st ''lastLedgerHash'') in
      if i_hashes ix \<and> js_true (Some ledger) \<and> Some ledger \<noteq> state_field st ''lastLedger'' then
        (case ledger of
           JNum l \<Rightarrow> outer (\<lambda>_. k old) (Ledger_hash l) (\<lambda>a. k (case hash_told a of
               Some h \<Rightarrow> if h = [] then old else JStr h | None \<Rightarrow> old))
         | _ \<Rightarrow> k old)
      else k old)"

record batch_result =
  br_applied :: nat
  br_skipped :: nat
  br_quarantined :: nat
  br_nextCursor :: json
  br_hadFailure :: bool

definition save_state :: "indexer \<Rightarrow> (thrown \<Rightarrow> 'r access_script) \<Rightarrow> doc option \<Rightarrow> json \<Rightarrow> json \<Rightarrow> json \<Rightarrow> 'r access_script \<Rightarrow> 'r access_script" where
  "save_state ix err st cursor ledger hash k =
     clock err (\<lambda>now. upsert_doc err ''sync_state'' [(''_id'', JStr (state_id (i_source ix)))]
       [(''_id'', JStr (state_id (i_source ix))), (''source'', JStr (i_source ix)), (''cursor'', cursor),
        (''lastLedger'', ledger), (''lastLedgerHash'', hash),
        (''checkpoints'', JArr (map checkpoint_json (next_checkpoints st ledger hash))), (''updatedAt'', JDate now)]
       [(''createdAt'', JDate now)] k)"

definition runIndexerBatch :: "indexer \<Rightarrow> (thrown \<Rightarrow> 'r access_script) \<Rightarrow> nat \<Rightarrow> (batch_result \<Rightarrow> 'r access_script) \<Rightarrow> 'r access_script" where
  "runIndexerBatch ix err limit k =
     find_doc err (sync_state (i_source ix)) (\<lambda>st0. check_fork ix err st0 (\<lambda>st.
       outer err (Get_events (or_null (state_field st ''cursor'')) limit) (\<lambda>a. case a of
         Page page \<Rightarrow>
           batch_loop ix err (p_events page)
             \<lparr>applied = 0, skipped = 0, quarantined = 0, hadFailure = False,
              lastCursor = or_null (state_field st ''cursor''), lastLedger = or_null (state_field st ''lastLedger'')\<rparr>
             (\<lambda>p. next_hash ix st (batch_ledger page p) (\<lambda>hash.
                save_state ix err st (batch_cursor page p) (batch_ledger page p) hash
                  (k \<lparr>br_applied = applied p, br_skipped = skipped p, br_quarantined = quarantined p,
                      br_nextCursor = batch_cursor page p, br_hadFailure = hadFailure p\<rparr>)))
       | _ \<Rightarrow> err Call_failed)))"

end
