(* ===== verification/IndexerOps.thy ===== *)
theory IndexerOps imports IndexerBatch begin

text \<open>
  The operator's side of the indexer: its health, reprocessing, retrying and quarantining dead
  letters (\<open>src/lib/indexer/stellarIndexer.js\<close>), and the recovery of payments that were never
  indexed (\<open>src/lib/indexer/recovery.js\<close>).
\<close>

section \<open>Health\<close>

record indexer_health =
  ih_source :: string
  ih_lastLedger :: json
  ih_lastLedgerHash :: json
  ih_lastCheckpointAt :: json
  ih_lag :: "rat option"
  ih_retryable :: nat
  ih_failed :: nat
  ih_retrySum :: rat
  ih_blocked :: nat
  ih_quarantined :: nat
  ih_lastForkRewindAt :: json
  ih_lastForkDivergenceLedger :: json

definition ledger_lag :: "rat option \<Rightarrow> json \<Rightarrow> rat option" where
  "ledger_lag current ledger = (case (current, ledger) of (Some c, JNum l) \<Rightarrow> Some (max 0 (c - l)) | _ \<Rightarrow> None)"

definition getIndexerHealth :: "(thrown \<Rightarrow> 'r access_script) \<Rightarrow> string \<Rightarrow> rat option \<Rightarrow> (indexer_health \<Rightarrow> 'r access_script) \<Rightarrow> 'r access_script" where
  "getIndexerHealth err source current k =
     find_doc err (sync_state source) (\<lambda>st.
       find_docs err (query ''dead_letter_events'' [(''status'', JStr ''retryable'')]) (\<lambda>retryable.
         find_docs err (query ''dead_letter_events'' [(''status'', JStr ''failed'')]) (\<lambda>failed.
           find_docs err (query ''indexer_quarantine'' [(''status'', JStr ''pending'')]) (\<lambda>pending.
             let last = nullish_null (state_field st ''lastLedger'') in
             k \<lparr>ih_source = source, ih_lastLedger = last, ih_lastLedgerHash = nullish_null (state_field st ''lastLedgerHash''),
                ih_lastCheckpointAt = nullish_null (state_field st ''updatedAt''), ih_lag = ledger_lag current last,
                ih_retryable = length retryable, ih_failed = length failed,
                ih_retrySum = sum_list (map (\<lambda>d. retry_count (Some d)) retryable),
                ih_blocked = length retryable + length failed, ih_quarantined = length pending,
                ih_lastForkRewindAt = nullish_null (state_field st ''lastForkRewindAt''),
                ih_lastForkDivergenceLedger = nullish_null (state_field st ''lastForkDivergenceLedger'')\<rparr>))))"

section \<open>Dead letters\<close>

definition object_of :: "json option \<Rightarrow> document option" where
  "object_of v = (case v of Some (JObj m) \<Rightarrow> Some m | _ \<Rightarrow> None)"

text \<open>\<open>entry.parsed || parseContractEvent(entry.raw)\<close>.\<close>

definition entry_event :: "(string \<Rightarrow> json option) \<Rightarrow> doc \<Rightarrow> document option" where
  "entry_event decode entry =
     (case object_of (field_of entry ''parsed'') of
        Some p \<Rightarrow> Some p
      | None \<Rightarrow> (case object_of (field_of entry ''raw'') of
            Some raw \<Rightarrow> parseContractEvent decode raw | None \<Rightarrow> None))"

definition entry_source :: "doc \<Rightarrow> document \<Rightarrow> document" where
  "entry_source entry parsed =
     (let src = (if js_true (field_of entry ''source'') then field_of entry ''source'' else map_of parsed ''source'') in
      case src of Some s \<Rightarrow> AList.update ''source'' s parsed | None \<Rightarrow> parsed)"

definition entry_network :: "json \<Rightarrow> document \<Rightarrow> document" where
  "entry_network network parsed =
     AList.update ''network'' (nullish_null (coalesce (map_of parsed ''network'') (Some network))) parsed"

text \<open>Apply the event and remove the entry; \<open>err\<close> when either throws.\<close>

definition apply_and_drop :: "indexer \<Rightarrow> (thrown \<Rightarrow> 'r access_script) \<Rightarrow> doc \<Rightarrow> document \<Rightarrow> 'r access_script \<Rightarrow> 'r access_script" where
  "apply_and_drop ix err entry ev k =
     applyIndexedEvent (i_digest ix) (i_config ix) err ev (\<lambda>_.
       delete_doc err (dead_letter (nullish_null (field_of entry ''_id''))) (\<lambda>_. k))"

primrec reprocess_all :: "indexer \<Rightarrow> (thrown \<Rightarrow> 'r access_script) \<Rightarrow> doc list \<Rightarrow> json list \<Rightarrow>
    (json list \<Rightarrow> 'r access_script) \<Rightarrow> 'r access_script" where
  "reprocess_all ix err [] done_ids k = k done_ids"
| "reprocess_all ix err (entry # es) done_ids k =
     (let i = nullish_null (field_of entry ''_id'') in
      case entry_event (i_decode ix) entry of
        None \<Rightarrow> clock err (\<lambda>now. update_doc err (dead_letter i)
          (put [(''status'', JStr ''failed''), (''lastError'', JStr ''Event could not be parsed on reprocess''),
                (''lastAttemptedAt'', JDate now)])
          (\<lambda>_. reprocess_all ix err es done_ids k))
      | Some parsed \<Rightarrow>
          let ev = entry_network (i_network ix) (entry_source entry parsed) in
          apply_and_drop ix
            (\<lambda>_. apply_and_drop ix
               (\<lambda>e. with_info e (\<lambda>info. clock err (\<lambda>now.
                  upsert_doc err ''dead_letter_events'' [(''_id'', i)]
                    [(''lastError'', JStr (ei_message info)), (''lastAttemptedAt'', JDate now)] []
                    (reprocess_all ix err es done_ids k))))
               entry ev (reprocess_all ix err es (done_ids @ [i]) k))
            entry ev (reprocess_all ix err es (done_ids @ [i]) k))"

definition reprocessDeadLetters :: "indexer \<Rightarrow> (thrown \<Rightarrow> 'r access_script) \<Rightarrow> string list \<Rightarrow> nat \<Rightarrow>
    (json list \<Rightarrow> 'r access_script) \<Rightarrow> 'r access_script" where
  "reprocessDeadLetters ix err statuses limit k =
     find_docs err (\<lambda>d. coll d = ''dead_letter_events'' \<and>
         (case field_of d ''status'' of Some (JStr st) \<Rightarrow> st \<in> set statuses | _ \<Rightarrow> False))
       (\<lambda>rs. reprocess_all ix err (take limit rs) [] k)"

definition recordIndexerOperatorAction :: "(thrown \<Rightarrow> 'r access_script) \<Rightarrow> document \<Rightarrow> 'r access_script \<Rightarrow> 'r access_script" where
  "recordIndexerOperatorAction err action k =
     fresh_id err (\<lambda>i. clock err (\<lambda>now.
       insert_doc err \<lparr>coll = ''indexer_operator_audit'', body = (''_id'', JStr i) # action @ [(''createdAt'', JDate now)]\<rparr> k))"

text \<open>Newest attempt first; entries that were never attempted come last.\<close>

definition attempted :: "doc \<Rightarrow> int option" where
  "attempted d = (case field_of d ''lastAttemptedAt'' of Some (JDate t) \<Rightarrow> Some t | _ \<Rightarrow> None)"

definition newest_first :: "doc list \<Rightarrow> doc list" where
  "newest_first rs = sort_key (\<lambda>d. - the (attempted d)) (filter (\<lambda>d. attempted d \<noteq> None) rs) @
     filter (\<lambda>d. attempted d = None) rs"

definition listDeadLetterEvents :: "(thrown \<Rightarrow> 'r access_script) \<Rightarrow> string option \<Rightarrow> nat \<Rightarrow> (doc list \<Rightarrow> 'r access_script) \<Rightarrow> 'r access_script" where
  "listDeadLetterEvents err st limit k =
     find_docs err (query ''dead_letter_events'' (if truthy st then [(''status'', jstr st)] else []))
       (\<lambda>rs. k (take limit (newest_first rs)))"

definition operator_action :: "string \<Rightarrow> string \<Rightarrow> string \<Rightarrow> document \<Rightarrow> doc \<Rightarrow> document" where
  "operator_action i action operator extra entry =
     [(''eventId'', JStr i), (''action'', JStr action), (''operator'', JStr operator)] @ extra @
     given ''previousStatus'' (field_of entry ''status'') @ [(''errorClass'', or_null (field_of entry ''errorClass''))]"

definition retryDeadLetter :: "indexer \<Rightarrow> (thrown \<Rightarrow> 'r access_script) \<Rightarrow> string \<Rightarrow> string \<Rightarrow> 'r access_script \<Rightarrow> 'r access_script" where
  "retryDeadLetter ix err i operator k =
     find_doc err (dead_letter (JStr i)) (\<lambda>e. case e of
       None \<Rightarrow> err (Error (''Dead-letter event not found: '' @ i))
     | Some entry \<Rightarrow>
         if field_of entry ''status'' = Some (JStr ''quarantined'')
         then err (Error ''Quarantined events must be explicitly released before retry'')
         else (case entry_event (i_decode ix) entry of
             None \<Rightarrow> err (Error ''Event could not be parsed for retry'')
           | Some parsed \<Rightarrow>
               applyIndexedEvent (i_digest ix) (i_config ix) err (entry_source entry parsed) (\<lambda>_.
                 delete_doc err (dead_letter (JStr i)) (\<lambda>_.
                   recordIndexerOperatorAction err (operator_action i ''retry'' operator [] entry) k))))"

definition quarantineDeadLetter :: "(thrown \<Rightarrow> 'r access_script) \<Rightarrow> string \<Rightarrow> string option \<Rightarrow> string \<Rightarrow> 'r access_script \<Rightarrow> 'r access_script" where
  "quarantineDeadLetter err i reason operator k =
     (if js_trim (or_default reason []) = []
      then err (Error ''Permanent failures require an explicit quarantine reason'')
      else find_doc err (dead_letter (JStr i)) (\<lambda>e. case e of
        None \<Rightarrow> err (Error (''Dead-letter event not found: '' @ i))
      | Some entry \<Rightarrow>
          let why = JStr (js_trim (or_default reason [])) in
          clock err (\<lambda>now. update_doc err (dead_letter (JStr i))
            (put [(''status'', JStr ''quarantined''), (''quarantineReason'', why), (''quarantinedAt'', JDate now),
                  (''quarantinedBy'', JStr operator), (''lastAttemptedAt'', JDate now)])
            (\<lambda>_. recordIndexerOperatorAction err (operator_action i ''quarantine'' operator [(''reason'', why)] entry) k))))"

section \<open>Recovery\<close>

definition operationToEvent :: "document \<Rightarrow> json \<Rightarrow> document" where
  "operationToEvent op network =
     given ''id'' (if js_true (map_of op ''id'') then map_of op ''id'' else map_of op ''transaction_hash'') @
     [(''type'', JStr ''purchase.completed''), (''ledger'', given_null op ''ledger_attr'')] @
     given ''transactionHash'' (map_of op ''transaction_hash'') @ [(''network'', network)] @
     given ''buyerAddress'' (map_of op ''from'') @ given ''sellerAddress'' (map_of op ''to'') @
     given ''amount'' (map_of op ''amount'') @
     [(''asset'', if js_true (map_of op ''asset_code'') then truthy_null op ''asset_code'' else JStr ''XLM''),
      (''source'', JStr ''recovery'')]"

text \<open>The operations whose transaction no purchase records.\<close>

definition findMissingTransactions :: "(thrown \<Rightarrow> 'r access_script) \<Rightarrow> string \<Rightarrow> nat \<Rightarrow> (document list \<Rightarrow> 'r access_script) \<Rightarrow> 'r access_script" where
  "findMissingTransactions err account limit k =
     (if account = [] then err (Error ''findMissingTransactions: accountId is required'')
      else outer err (Payments account limit) (\<lambda>a. case a of
        Payments_are records \<Rightarrow>
          let hashes = map (\<lambda>op. truthy_null op ''transaction_hash'') (filter (\<lambda>op. js_true (map_of op ''transaction_hash'')) records) in
          if hashes = [] then k []
          else find_docs err (\<lambda>d. coll d = ''purchases'' \<and> nullish_null (field_of d ''chainTxHash'') \<in> set hashes) (\<lambda>rs.
            k (filter (\<lambda>op. js_true (map_of op ''transaction_hash'') \<and>
                 map_of op ''transaction_hash'' \<notin> set (map (\<lambda>d. field_of d ''chainTxHash'') rs)) records))
      | _ \<Rightarrow> err Call_failed))"

record recovery_report =
  recovered :: nat
  rr_skipped :: nat
  rr_errors :: "json list"

primrec reprocessMissingTransactions :: "indexer \<Rightarrow> document list \<Rightarrow> recovery_report \<Rightarrow> (recovery_report \<Rightarrow> 'r access_script) \<Rightarrow> 'r access_script" where
  "reprocessMissingTransactions ix [] rep k = k rep"
| "reprocessMissingTransactions ix (op # ops) rep k =
     applyIndexedEvent (i_digest ix) (i_config ix)
       (\<lambda>_. reprocessMissingTransactions ix ops (rep\<lparr>rr_errors := rr_errors rep @ [given_null op ''transaction_hash'']\<rparr>) k)
       (operationToEvent op (i_network ix))
       (\<lambda>(i, skip). reprocessMissingTransactions ix ops
          (if skip then rep\<lparr>rr_skipped := rr_skipped rep + 1\<rparr> else rep\<lparr>recovered := recovered rep + 1\<rparr>) k)"

definition runRecovery :: "indexer \<Rightarrow> (thrown \<Rightarrow> 'r access_script) \<Rightarrow> string \<Rightarrow> nat \<Rightarrow> (recovery_report \<Rightarrow> 'r access_script) \<Rightarrow> 'r access_script" where
  "runRecovery ix err account limit k =
     findMissingTransactions err account limit (\<lambda>missing.
       let none = \<lparr>recovered = 0, rr_skipped = 0, rr_errors = []\<rparr> in
       if missing = [] then k none else reprocessMissingTransactions ix missing none k)"

end
