(* ===== verification/AccessSystem.thy ===== *)
theory AccessSystem imports IndexerOps begin

text \<open>
  The entitlement service and the indexer as one system: every entry point as a call, its handler,
  and its result. \<open>AsyncStore\<close> interleaves any number of them over the shared documents.
\<close>

type_synonym question = "string option \<times> string option \<times> json \<times> json"

datatype access_call =
    Decide question
  | Authorize "document option" "string option" json
  | Require "string option" "string option"
  | Owned "string option" "string list"
  | Create "string option" "string option" document
  | Invalidate "string option" "string option" string json json
  | Revoke_entitlement "string option" "string option"
  | Index document
  | Rewind rat
  | Run_batch nat
  | Health_of "rat option"
  | Reprocess "string list" nat
  | List_dead "string option" nat
  | Retry_dead string string
  | Quarantine_dead string "string option" string
  | Recover string nat

datatype access_result =
    Decided access_call resolution
  | Decision access_call access_decision
  | Required access_call "nat option"
  | Owned_ids "json list"
  | Written bool
  | Indexed string bool
  | Rewound nat nat
  | Batched batch_result
  | Health_is indexer_health
  | Reprocessed "json list"
  | Dead_letters "doc list"
  | Acted
  | Recovered recovery_report
  | Threw thrown

abbreviation threw :: "thrown \<Rightarrow> access_result access_script" where
  "threw e \<equiv> Return (Threw e)"

fun access_handler :: "indexer \<Rightarrow> access_call \<Rightarrow> access_result access_script" where
  "access_handler ix (Decide q) =
     (case q of (m, b, pid, hash) \<Rightarrow> resolveEntitlement (i_config ix) m b pid hash (\<lambda>r. Return (Decided (Decide q) r)))"
| "access_handler ix (Authorize mat b pid) = authorizeMaterialAccess (i_config ix) mat b pid (\<lambda>d. Return (Decision (Authorize mat b pid) d))"
| "access_handler ix (Require m b) = requireEntitlement (i_config ix) m b (\<lambda>s. Return (Required (Require m b) s))"
| "access_handler ix (Owned b ids) = getOwnedMaterialIds b ids (\<lambda>xs. Return (Owned_ids xs))"
| "access_handler ix (Create m b data) = createEntitlement threw (i_config ix) m b data (\<lambda>ok. Return (Written ok))"
| "access_handler ix (Invalidate m b reason pid settlement) =
     invalidateEntitlement threw (i_config ix) m b reason pid settlement (\<lambda>ok. Return (Written ok))"
| "access_handler ix (Revoke_entitlement m b) = revokeEntitlement threw (i_config ix) m b (\<lambda>ok. Return (Written ok))"
| "access_handler ix (Index ev) = applyIndexedEvent (i_digest ix) (i_config ix) threw ev (\<lambda>(i, s). Return (Indexed i s))"
| "access_handler ix (Rewind d) = rewindAfterFork threw (i_config ix) (i_source ix) d (\<lambda>(n, p). Return (Rewound n p))"
| "access_handler ix (Run_batch limit) = runIndexerBatch ix threw limit (\<lambda>r. Return (Batched r))"
| "access_handler ix (Health_of current) = getIndexerHealth threw (i_source ix) current (\<lambda>h. Return (Health_is h))"
| "access_handler ix (Reprocess statuses limit) = reprocessDeadLetters ix threw statuses limit (\<lambda>xs. Return (Reprocessed xs))"
| "access_handler ix (List_dead st limit) = listDeadLetterEvents threw st limit (\<lambda>ds. Return (Dead_letters ds))"
| "access_handler ix (Retry_dead i operator) = retryDeadLetter ix threw i operator (Return Acted)"
| "access_handler ix (Quarantine_dead i reason operator) = quarantineDeadLetter threw i reason operator (Return Acted)"
| "access_handler ix (Recover account limit) = runRecovery ix threw account limit (\<lambda>r. Return (Recovered r))"

text \<open>Whether a result lets the caller at the material.\<close>

fun grants :: "access_result \<Rightarrow> bool" where
  "grants (Decided c r) = r_hasAccess r"
| "grants (Decision c d) = allowed d"
| "grants (Required c s) = (s = None)"
| "grants _ = False"

text \<open>The call a decision answers, the question it puts to \<open>resolveEntitlement\<close>, and the bypasses.\<close>

fun label_of :: "access_result \<Rightarrow> access_call option" where
  "label_of (Decided c r) = Some c"
| "label_of (Decision c d) = Some c"
| "label_of (Required c s) = Some c"
| "label_of _ = None"

fun question_of :: "access_call \<Rightarrow> question option" where
  "question_of (Decide q) = Some q"
| "question_of (Authorize (Some mat) b pid) = Some (material_key mat, b, pid, contentHashOf mat)"
| "question_of (Require m b) = Some (m, b, JNull, JNull)"
| "question_of _ = None"

definition bypasses :: "document \<Rightarrow> string option \<Rightarrow> bool" where
  "bypasses mat b \<longleftrightarrow> truthy b \<and> (isOwner mat b \<or> isFreePublicMaterial mat)"

fun bypassed :: "access_call \<Rightarrow> bool" where
  "bypassed (Authorize (Some mat) b pid) = bypasses mat b"
| "bypassed _ = False"

text \<open>How a decision is wrapped by the three entry points.\<close>

definition as_decision :: "access_call \<Rightarrow> resolution \<Rightarrow> access_result" where
  "as_decision c r = Decision c \<lparr>allowed = r_hasAccess r, a_state = r_state r,
     httpStatus = (if r_hasAccess r then 200 else if r_state r = Unavailable then 503 else 403), a_source = r_source r\<rparr>"

definition as_required :: "access_call \<Rightarrow> resolution \<Rightarrow> access_result" where
  "as_required c r = Required c (if r_hasAccess r then None else Some 403)"

lemma authorize_handler:
  "\<not> bypasses mat b \<Longrightarrow> truthy b \<Longrightarrow> access_handler ix (Authorize (Some mat) b pid) =
     resolveEntitlement (i_config ix) (material_key mat) b pid (contentHashOf mat)
       (\<lambda>r. Return (as_decision (Authorize (Some mat) b pid) r))"
  by (simp add: authorizeMaterialAccess_def bypasses_def as_decision_def)

lemma require_handler:
  "truthy b \<Longrightarrow> truthy m \<Longrightarrow> access_handler ix (Require m b) =
     resolveEntitlement (i_config ix) m b JNull JNull (\<lambda>r. Return (as_required (Require m b) r))"
  by (simp add: requireEntitlement_def verifyEntitlement_def as_required_def if_distrib [of "\<lambda>x. Required _ x"])

end
