(* ===== verification/ForkSafety.thy ===== *)
theory ForkSafety imports AccessSystem begin

text \<open>
  The search for a fork against what the chain says (\<open>src/lib/indexer/forkDetection.js\<close>): exactly
  when one is reported and from which ledger, and how a failed lookup fakes one.
\<close>

section \<open>A chain that answers\<close>

text \<open>What a script returns that only asks for ledger hashes, of a chain with these.\<close>

primrec consult :: "(rat \<Rightarrow> string option) \<Rightarrow> 'r access_script \<Rightarrow> 'r option" where
  "consult chain (Return r) = Some r"
| "consult chain (Await q k) =
     (case q of
        Ask (Other (Ledger_hash l)) \<Rightarrow> consult chain (k (Said (Told (Hash (chain l)))))
      | _ \<Rightarrow> None)"

definition confirms :: "(rat \<Rightarrow> string option) \<Rightarrow> checkpoint \<Rightarrow> bool" where
  "confirms chain c \<longleftrightarrow> chain (fst c) = Some (snd c)"

definition contradicts :: "(rat \<Rightarrow> string option) \<Rightarrow> checkpoint \<Rightarrow> bool" where
  "contradicts chain c \<longleftrightarrow> chain (fst c) \<noteq> None \<and> chain (fst c) \<noteq> Some (snd c)"

fun last_mismatch :: "(rat \<Rightarrow> string option) \<Rightarrow> checkpoint list \<Rightarrow> string option \<Rightarrow> string option" where
  "last_mismatch chain [] found = found"
| "last_mismatch chain (c # cs) found =
     (if confirms chain c then found else last_mismatch chain cs (if contradicts chain c then chain (fst c) else found))"

lemma consult_outer: "consult chain (outer err (Ledger_hash l) k) = consult chain (k (Hash (chain l)))"
  by (simp add: outer_def)

lemma consult_walk:
  "consult chain (fork_walk err cs found k) = consult chain (k (last_mismatch chain cs found) (List.find (confirms chain) cs))"
proof (induction cs arbitrary: found)
  case (Cons c cs)
  then show ?case
    by (cases "chain (fst c)") (auto simp: consult_outer hash_told_def confirms_def contradicts_def)
qed simp

lemma mismatch_iff:
  "last_mismatch chain cs found \<noteq> None \<longleftrightarrow>
     found \<noteq> None \<or> (\<exists>c \<in> set (takeWhile (\<lambda>c. \<not> confirms chain c) cs). contradicts chain c)"
proof (induction cs arbitrary: found)
  case (Cons c cs)
  have "chain (fst c) \<noteq> None" if "contradicts chain c" using that by (simp add: contradicts_def)
  then show ?case
    by (cases "confirms chain c"; cases "contradicts chain c") (simp_all only: last_mismatch.simps Cons.IH if_True if_False
        takeWhile.simps list.set not_True_eq_False not_False_eq_True bex_simps empty_iff insert_iff, blast+)
qed simp

section \<open>The history\<close>

lemma strict_history:
  assumes "history_of checkpoints ledger expected = Some history"
  shows "sorted_wrt (\<lambda>c c'. fst c < fst c') history"
proof -
  have "sorted (map fst history) \<and> distinct (map fst history)"
    using assms dedupe_props(1,2)
    by (auto simp: history_of_def dedupeCheckpoints_def split: option.splits json.splits list.splits if_splits)
  then have "sorted_wrt (<) (map fst history)" by (simp add: strict_sorted_iff)
  then show ?thesis by (simp add: sorted_wrt_map)
qed

text \<open>Newest first, up to the first that the chain confirms: the checkpoints newer than all confirmed ones.\<close>

lemma newer_part:
  assumes "sorted_wrt (\<lambda>c c'. fst c' < fst c) cs" "c \<in> set cs"
  shows "c \<in> set (takeWhile (\<lambda>c. \<not> confirms chain c) cs) \<longleftrightarrow> (\<forall>c' \<in> set cs. confirms chain c' \<longrightarrow> fst c' < fst c)"
  using assms
proof (induction cs)
  case (Cons x xs)
  show ?case
  proof (cases "confirms chain x")
    case True
    then show ?thesis using Cons.prems by fastforce
  next
    case False
    show ?thesis
    proof (cases "c = x")
      case True
      then show ?thesis using False Cons.prems by auto
    next
      case other: False
      then have "c \<in> set xs" using Cons.prems(2) by simp
      then show ?thesis using False other Cons by auto
    qed
  qed
qed simp

lemma newest_match:
  assumes "sorted_wrt (\<lambda>c c'. fst c' < fst c) cs" "c \<in> set cs" "confirms chain c" "\<forall>c' \<in> set cs. confirms chain c' \<longrightarrow> fst c' \<le> fst c"
  shows "List.find (confirms chain) cs = Some c"
  using assms by (induction cs) fastforce+

text \<open>
  C7: A fork is reported exactly when the chain contradicts a recorded checkpoint that is newer than
  every checkpoint it confirms; the divergence is then the ledger after the newest confirmed
  checkpoint, or the oldest recorded one when none is confirmed. Checkpoints of which the chain
  knows nothing change nothing, and the search always ends.
\<close>

theorem fork_found_exactly:
  assumes "history_of checkpoints ledger expected = Some history"
  shows "\<exists>report. consult chain (detectFork err checkpoints ledger expected Return) = Some report \<and>
    (forked report \<longleftrightarrow> (\<exists>c \<in> set history. contradicts chain c \<and> (\<forall>c' \<in> set history. confirms chain c' \<longrightarrow> fst c' < fst c))) \<and>
    (\<forall>c \<in> set history. forked report \<longrightarrow> confirms chain c \<longrightarrow> (\<forall>c' \<in> set history. confirms chain c' \<longrightarrow> fst c' \<le> fst c) \<longrightarrow>
       divergenceLedger report = Some (fst c + 1)) \<and>
    (forked report \<longrightarrow> (\<forall>c \<in> set history. \<not> confirms chain c) \<longrightarrow>
       (\<exists>c \<in> set history. divergenceLedger report = Some (fst c) \<and> (\<forall>c' \<in> set history. fst c \<le> fst c')))"
proof -
  let ?mm = "last_mismatch chain (rev history) None" and ?m = "List.find (confirms chain) (rev history)"
  have sorted: "sorted_wrt (\<lambda>c c'. fst c < fst c') history" using strict_history [OF assms] .
  have in_takeWhile: "c \<in> set history" if "c \<in> set (takeWhile (\<lambda>c. \<not> confirms chain c) (rev history))" for c
    using that set_takeWhileD by fastforce
  from sorted have down: "sorted_wrt (\<lambda>c c'. fst c' < fst c) (rev history)" by (simp add: sorted_wrt_rev)
  have found: "consult chain (detectFork err checkpoints ledger expected Return) = Some (fork_verdict history ?mm ?m)"
    by (simp add: detectFork_def assms consult_walk)
  have "?mm \<noteq> None \<longleftrightarrow> (\<exists>c \<in> set history. contradicts chain c \<and> (\<forall>c' \<in> set history. confirms chain c' \<longrightarrow> fst c' < fst c))"
    using newer_part [OF down] in_takeWhile unfolding mismatch_iff set_rev by meson
  moreover have "forked (fork_verdict history ?mm ?m) \<longleftrightarrow> ?mm \<noteq> None"
    by (auto simp: fork_verdict_def no_fork_def split: option.splits)
  moreover have "divergenceLedger (fork_verdict history ?mm ?m) = Some (fst c + 1)"
    if "forked (fork_verdict history ?mm ?m)" "c \<in> set history" "confirms chain c"
      "\<forall>c' \<in> set history. confirms chain c' \<longrightarrow> fst c' \<le> fst c" for c
    using newest_match [OF down, of c chain] that by (auto simp: fork_verdict_def no_fork_def split: option.splits)
  moreover have "\<exists>c \<in> set history. divergenceLedger (fork_verdict history ?mm ?m) = Some (fst c) \<and> (\<forall>c' \<in> set history. fst c \<le> fst c')"
    if f: "forked (fork_verdict history ?mm ?m)" and none: "\<forall>c \<in> set history. \<not> confirms chain c"
  proof -
    have m: "?m = None" using none by (simp add: find_None_iff)
    have "history \<noteq> []" using f by (auto simp: fork_verdict_def no_fork_def)
    then obtain c cs where h: "history = c # cs" by (cases history) auto
    then have "\<forall>c' \<in> set history. fst c \<le> fst c'" using sorted by auto
    then show ?thesis using f m h by (auto simp: fork_verdict_def no_fork_def split: option.splits)
  qed
  ultimately show ?thesis using found by blast
qed

definition sample_checkpoints :: "json option" where
  "sample_checkpoints = Some (JArr (map checkpoint_json [(5, ''a''), (7, ''x''), (6, ''b''), (8, ''y'')]))"

definition sample_chain :: "rat \<Rightarrow> string option" where
  "sample_chain l = (if l = 6 then Some ''b'' else if l = 8 then Some ''c'' else None)"

theorem fork_found_exactly_witness:
  "consult sample_chain (detectFork (\<lambda>_. Return no_fork) sample_checkpoints None None Return)
     = Some \<lparr>forked = True, divergenceLedger = Some 7, canonicalHash = Some ''c''\<rparr> \<and>
   history_of sample_checkpoints None None = Some [(5, ''a''), (6, ''b''), (7, ''x''), (8, ''y'')] \<and>
   (\<exists>c \<in> set [(5, ''a''), (6, ''b''), (7, ''x''), (8, ''y'')]. contradicts sample_chain c \<and>
     (\<forall>c' \<in> set [(5, ''a''), (6, ''b''), (7, ''x''), (8, ''y'')]. confirms sample_chain c' \<longrightarrow> fst c' < fst c))"
proof -
  have h: "history_of sample_checkpoints None None = Some [(5, ''a''), (6, ''b''), (7, ''x''), (8, ''y'')]" by code_simp
  have r: "consult sample_chain (detectFork (\<lambda>_. Return no_fork) sample_checkpoints None None Return)
     = Some \<lparr>forked = True, divergenceLedger = Some 7, canonicalHash = Some ''c''\<rparr>" by code_simp
  from fork_found_exactly [OF h, of sample_chain "\<lambda>_. Return no_fork"] r h show ?thesis by auto
qed

section \<open>A fork that is not there\<close>

definition sample_indexer :: indexer where
  "sample_indexer =
     \<lparr>i_digest = sample_digest, i_decode = (\<lambda>_. None), i_config = chain_defaults ''CPM'' ''rpc'' ''Test'',
      i_maxRetries = 3, i_source = ''stellar'', i_network = JStr ''Test'', i_hashes = True\<rparr>"

definition sample_purchase :: "string \<Rightarrow> doc" where
  "sample_purchase settlement = \<lparr>coll = ''purchases'', body =
     [(''_id'', JStr ''p''), (''materialId'', JStr ''m''), (''buyerAddress'', JStr ''b''), (''purchaseId'', JStr ''1''),
      (''status'', JStr ''settled''), (''settlementState'', JStr settlement), (''indexedLedger'', JNum 5)]\<rparr>"

abbreviation "access_run moves s \<equiv> run (mem_db same_key) (access_handler sample_indexer) moves (world_of s)"

definition indexed_state :: doc where
  "indexed_state = \<lparr>coll = ''sync_state'', body =
     [(''_id'', JStr ''stellar:events''), (''cursor'', JStr ''c10''), (''lastLedger'', JNum 10), (''lastLedgerHash'', JStr ''a''),
      (''checkpoints'', JArr [checkpoint_json (10, ''a'')])]\<rparr>"

definition recent_purchase :: doc where
  "recent_purchase = put [(''indexedLedger'', JNum 11)] (sample_purchase ''Pending'')"

definition says_hash :: "string \<Rightarrow> chain_answer answer choice" where
  "says_hash h = Says (Told (Hash (Some h)))"

definition failed_lookup :: "(access_call, chain_answer answer) move list" where
  "failed_lookup =
     [Begin (Run_batch 10), Turn 0 (Works 0), Turn 0 (says_hash ''a''),
      Turn 0 (Says (Told (Page \<lparr>p_events = [], p_nextCursor = Some (JStr ''c11''), p_lastLedger = Some (JNum 11)\<rparr>))),
      Turn 0 Fails, Turn 0 (Says (Time 1)), Turn 0 (Says (Id ''i'')), Turn 0 (Works 0)]"

definition faked_state :: doc where
  "faked_state = \<lparr>coll = ''sync_state'', body =
     [(''_id'', JStr ''stellar:events''), (''cursor'', JStr ''c11''), (''lastLedger'', JNum 11), (''lastLedgerHash'', JStr ''a''),
      (''checkpoints'', JArr [checkpoint_json (10, ''a''), checkpoint_json (11, ''a'')]), (''source'', JStr ''stellar''),
      (''updatedAt'', JDate 1)]\<rparr>"

definition steady_chain :: "rat \<Rightarrow> string option" where
  "steady_chain l = (if l = 10 then Some ''a'' else if l = 11 then Some ''b'' else None)"

definition rewinding :: "(access_call, chain_answer answer) move list" where
  "rewinding =
     [Begin (Rewind 11), Turn 0 (Says (Time 2)), Turn 0 (Works 0), Turn 0 (Works 0), Turn 0 (Works 0), Turn 0 (Works 0),
      Turn 0 (Says (Time 2)), Turn 0 (Says (Id ''c'')), Turn 0 (Works 0), Turn 0 (Works 0)]"

lemma failed_lookup_recorded: "rows (access_run failed_lookup [indexed_state, recent_purchase]) = [faked_state, recent_purchase]"
  by code_simp

lemma faked_fork_reported:
  "consult steady_chain (detectFork (\<lambda>_. Return no_fork) (Some (JArr (known_checkpoints (Some faked_state))))
       (state_field (Some faked_state) ''lastLedger'') (state_field (Some faked_state) ''lastLedgerHash'') Return)
     = Some \<lparr>forked = True, divergenceLedger = Some 11, canonicalHash = Some ''b''\<rparr>"
  by code_simp

lemma faked_fork_rewound:
  "map (\<lambda>d. (coll d, field_of d ''cursor'', field_of d ''settlementState'', field_of d ''state''))
     (rows (access_run rewinding [faked_state, recent_purchase]))
   = [(''sync_state'', Some JNull, None, None), (''purchases'', None, Some (JStr ''Orphaned''), None),
      (''entitlement_cache'', None, Some (JStr ''Orphaned''), Some (JStr ''revoked''))]"
  by code_simp

text \<open>
  A failed lookup fakes a fork: when the hash of the ledger a batch reached cannot be had, the
  batch records that ledger with the hash of the one before. At the next batch the search for a fork
  finds that the chain, which has never changed, contradicts this checkpoint, and the rewind from
  the ledger it reports orphans the purchase of that ledger and revokes its entitlement.
\<close>

theorem failed_lookup_fakes_fork:
  "rows (access_run failed_lookup [indexed_state, recent_purchase]) = [faked_state, recent_purchase] \<and>
   consult steady_chain (detectFork (\<lambda>_. Return no_fork) (Some (JArr (known_checkpoints (Some faked_state))))
       (state_field (Some faked_state) ''lastLedger'') (state_field (Some faked_state) ''lastLedgerHash'') Return)
     = Some \<lparr>forked = True, divergenceLedger = Some 11, canonicalHash = Some ''b''\<rparr> \<and>
   map (\<lambda>d. (coll d, field_of d ''cursor'', field_of d ''settlementState'', field_of d ''state''))
     (rows (access_run rewinding [faked_state, recent_purchase]))
   = [(''sync_state'', Some JNull, None, None), (''purchases'', None, Some (JStr ''Orphaned''), None),
      (''entitlement_cache'', None, Some (JStr ''Orphaned''), Some (JStr ''revoked''))]"
  by (intro conjI failed_lookup_recorded faked_fork_reported faked_fork_rewound)

end
