(* ===== verification/AccessEvidence.thy ===== *)
theory AccessEvidence imports AccessSystem begin

text \<open>
  What an allowing decision rests on: the locale \<open>evidence\<close> holds the rules to collect the calls a
  handler made and their replies, and its interpretation the evidence of \<open>resolveEntitlement\<close>,
  with the theorem that in every interleaving each access granted has it.
\<close>

section \<open>Collecting evidence\<close>

locale evidence =
  fixes Q :: "'r \<Rightarrow> ((doc, 'e ask) request \<times> (doc, 'v answer) reply) set \<Rightarrow> bool"
  assumes lasts: "Q r L \<Longrightarrow> L \<subseteq> L' \<Longrightarrow> Q r L'"
begin

abbreviation proven :: "('e, 'v, 'r) script \<Rightarrow> ((doc, 'e ask) request \<times> (doc, 'v answer) reply) set \<Rightarrow> bool" where
  "proven \<equiv> earns Q"

lemma more: "proven p L \<Longrightarrow> L \<subseteq> L' \<Longrightarrow> proven p L'"
  by (rule earns_weaken [of Q]) (auto intro: lasts)

lemma later: "proven p L \<Longrightarrow> proven p (insert x L)"
  by (rule more [OF _ subset_insertI])

lemma call: "(\<And>a. proven (k a) L) \<Longrightarrow> proven (Await q k) L"
  by (simp add: later)

lemma clock_rule:
  assumes "\<And>e. proven (err e) L" "\<And>t. proven (k t) (insert (Ask Clock, Said (Time t)) L)"
  shows "proven (clock err k) L"
  unfolding clock_def using assms by (auto intro: later split: reply.splits answer.splits)

lemma fresh_rule: "(\<And>e. proven (err e) L) \<Longrightarrow> (\<And>i. proven (k i) L) \<Longrightarrow> proven (fresh_id err k) L"
  unfolding fresh_id_def by (rule call) (auto split: reply.splits answer.splits)

lemma outer_rule:
  assumes "\<And>e a. (\<forall>v. a \<noteq> Said (Told v)) \<Longrightarrow> proven (err e) (insert (Ask (Other q), a) L)" "\<And>v. proven (k v) (insert (Ask (Other q), Said (Told v)) L)"
  shows "proven (outer err q k) L"
  unfolding outer_def using assms by (auto split: reply.splits answer.splits)

lemma find_rule:
  assumes "\<And>e. proven (err e) L" "\<And>r. proven (k r) (insert (Find_one P, Row r) L)"
  shows "proven (find_doc err P k) L"
  unfolding find_doc_def using assms by (auto intro: later split: reply.splits)

lemma maybe_rule:
  assumes "\<And>e a. (\<forall>r. a \<noteq> Row r) \<Longrightarrow> proven (err e) (insert (Find_one P, a) L)" "\<And>r. proven (k r) (insert (Find_one P, Row r) L)"
  shows "proven (find_doc err P k) L"
  unfolding find_doc_def using assms by (auto split: reply.splits)

lemma update_rule: "(\<And>e. proven (err e) L) \<Longrightarrow> (\<And>r. proven (k r) L) \<Longrightarrow> proven (update_doc err P f k) L"
  unfolding update_doc_def by (rule call) (auto split: reply.splits)

lemma upsert_rule: "(\<And>e. proven (err e) L) \<Longrightarrow> proven k L \<Longrightarrow> proven (upsert_doc err c flt sets ins k) L"
  unfolding upsert_doc_def by (rule fresh_rule, simp, rule call) (auto split: reply.splits)

end

section \<open>The evidence of an access\<close>

type_synonym access_log = "((doc, chain_ask ask) request \<times> (doc, chain_answer answer) reply) set"

text \<open>The user was looked up, and not found suspended.\<close>

definition suspended_user :: "doc \<Rightarrow> bool" where
  "suspended_user u \<longleftrightarrow> field_of u ''status'' = Some (JStr ''suspended'')"

definition not_suspended :: "string \<Rightarrow> access_log \<Rightarrow> bool" where
  "not_suspended b L \<longleftrightarrow> (\<exists>a. (Find_one (query ''users'' [(''walletAddressLower'', JStr b)]), a) \<in> L \<and>
     (\<forall>u. a = Row (Some u) \<longrightarrow> \<not> suspended_user u))"

definition cache_read :: "string \<Rightarrow> string \<Rightarrow> doc option \<Rightarrow> access_log \<Rightarrow> bool" where
  "cache_read m b c L \<longleftrightarrow> (Find_one (query ''entitlement_cache'' (pair_key (JStr m) b)), Row c) \<in> L"

definition revoked_entry :: "doc \<Rightarrow> bool" where
  "revoked_entry c \<longleftrightarrow> field_of c ''state'' = Some (JStr (state_name Revoked))"

definition not_revoked :: "string \<Rightarrow> string \<Rightarrow> access_log \<Rightarrow> bool" where
  "not_revoked m b L \<longleftrightarrow> (\<exists>c. cache_read m b c L \<and> (\<forall>d. c = Some d \<longrightarrow> \<not> revoked_entry d))"

text \<open>A purchase was found under the material's identifier or one of its aliases.\<close>

definition alias_of :: "string \<Rightarrow> json \<Rightarrow> access_log \<Rightarrow> bool" where
  "alias_of m alt L \<longleftrightarrow> alt = JStr m \<or> (\<exists>mat. (Find_one (material_named m), Row mat) \<in> L \<and> alt \<in> set (candidate_ids mat))"

definition purchase_found :: "string \<Rightarrow> string \<Rightarrow> doc \<Rightarrow> access_log \<Rightarrow> bool" where
  "purchase_found m b p L \<longleftrightarrow> (\<exists>alt. alias_of m alt L \<and> (Find_one (purchase_of alt b), Row (Some p)) \<in> L)"

definition good_purchase :: "doc \<Rightarrow> bool" where
  "good_purchase p \<longleftrightarrow> isCompletedPurchaseStatus (as_str (field_of p ''status'')) \<and> \<not> revoking (field_of p ''settlementState'')"

text \<open>The chain was not asked for lack of configuration or number, did not answer, or did not object.\<close>

definition chain_clear :: "chain_config \<Rightarrow> json \<Rightarrow> access_log \<Rightarrow> bool" where
  "chain_clear cfg eff L \<longleftrightarrow>
     PURCHASE_MANAGER_CONTRACT_ID cfg = [] \<or> STELLAR_RPC_URL cfg = [] \<or> \<not> js_true (Some eff) \<or>
     (\<exists>a. (Ask (Other (Settlement_state eff)), a) \<in> L \<and>
        (\<forall>v c. a = Said (Told v) \<longrightarrow> decodeSettlementState (simulated v) = Some c \<longrightarrow> \<not> revoking (Some (JStr c))))"

definition cache_clear :: "chain_config \<Rightarrow> string \<Rightarrow> string \<Rightarrow> json \<Rightarrow> json \<Rightarrow> access_log \<Rightarrow> bool" where
  "cache_clear cfg m b eff hash L \<longleftrightarrow>
     (\<exists>c t. cache_read m b (Some c) L \<and> (Ask Clock, Said (Time t)) \<in> L \<and> usable_cache cfg t c eff hash)"

definition access_evidence :: "chain_config \<Rightarrow> string \<Rightarrow> string \<Rightarrow> json \<Rightarrow> json \<Rightarrow> access_log \<Rightarrow> bool" where
  "access_evidence cfg m b pid hash L \<longleftrightarrow>
     not_suspended b L \<and> not_revoked m b L \<and>
     ((\<exists>p. purchase_found m b p L \<and> good_purchase p \<and>
         (chain_clear cfg (effective_id pid p) L \<or> cache_clear cfg m b (effective_id pid p) hash L)) \<or>
      ((Find_one (purchase_of (JStr m) b), Row None) \<in> L \<and>
       (Ask (Other (Has_entitlement m b)), Said (Told (Simulated (Some (JBool True))))) \<in> L))"

definition grant_promise :: "chain_config \<Rightarrow> string \<Rightarrow> string \<Rightarrow> json \<Rightarrow> json \<Rightarrow> access_result \<Rightarrow> access_log \<Rightarrow> bool" where
  "grant_promise cfg m b pid hash r L \<longleftrightarrow> (grants r \<longrightarrow> access_evidence cfg m b pid hash L)"

text \<open>
  The evidence of a decision whose calls were answered: the lookup of the user found none that is
  suspended, and the chain, where it was asked, knew a state that does not revoke.
\<close>

definition user_clear :: "string \<Rightarrow> access_log \<Rightarrow> bool" where
  "user_clear b L \<longleftrightarrow> (\<exists>u. (Find_one (query ''users'' [(''walletAddressLower'', JStr b)]), Row u) \<in> L \<and>
     (\<forall>d. u = Some d \<longrightarrow> \<not> suspended_user d))"

definition chain_agrees :: "chain_config \<Rightarrow> json \<Rightarrow> access_log \<Rightarrow> bool" where
  "chain_agrees cfg eff L \<longleftrightarrow>
     PURCHASE_MANAGER_CONTRACT_ID cfg = [] \<or> STELLAR_RPC_URL cfg = [] \<or> \<not> js_true (Some eff) \<or>
     (\<exists>v c. (Ask (Other (Settlement_state eff)), Said (Told v)) \<in> L \<and> decodeSettlementState (simulated v) = Some c \<and>
        \<not> revoking (Some (JStr c)))"

definition answered_evidence :: "chain_config \<Rightarrow> string \<Rightarrow> string \<Rightarrow> json \<Rightarrow> json \<Rightarrow> access_log \<Rightarrow> bool" where
  "answered_evidence cfg m b pid hash L \<longleftrightarrow>
     user_clear b L \<and> not_revoked m b L \<and>
     ((\<exists>p. purchase_found m b p L \<and> good_purchase p \<and>
         (chain_agrees cfg (effective_id pid p) L \<or> cache_clear cfg m b (effective_id pid p) hash L)) \<or>
      ((Find_one (purchase_of (JStr m) b), Row None) \<in> L \<and>
       (Ask (Other (Has_entitlement m b)), Said (Told (Simulated (Some (JBool True))))) \<in> L))"

text \<open>The two calls whose failure the code lets pass were answered, where they were made.\<close>

definition user_answered :: "string \<Rightarrow> access_log \<Rightarrow> bool" where
  "user_answered b L \<longleftrightarrow>
     (\<forall>a. (Find_one (query ''users'' [(''walletAddressLower'', JStr b)]), a) \<in> L \<longrightarrow> (\<exists>u. a = Row u))"

definition chain_answered :: "access_log \<Rightarrow> bool" where
  "chain_answered L \<longleftrightarrow> (\<forall>eff a. (Ask (Other (Settlement_state eff)), a) \<in> L \<longrightarrow>
     (\<exists>v c. a = Said (Told v) \<and> decodeSettlementState (simulated v) = Some c))"

lemma answered_access:
  assumes "access_evidence cfg m b pid hash L" "user_answered b L" "chain_answered L"
  shows "answered_evidence cfg m b pid hash L"
proof -
  have "user_clear b L"
    using assms unfolding access_evidence_def not_suspended_def user_clear_def user_answered_def by metis
  moreover have "chain_agrees cfg eff L" if "chain_clear cfg eff L" for eff
    using that assms(3) unfolding chain_clear_def chain_agrees_def chain_answered_def by metis
  ultimately show ?thesis using assms(1) unfolding access_evidence_def answered_evidence_def by blast
qed

lemma evidence_lasts:
  assumes "L \<subseteq> L'"
  shows "not_suspended b L \<Longrightarrow> not_suspended b L'" "not_revoked m b L \<Longrightarrow> not_revoked m b L'"
    "alias_of m alt L \<Longrightarrow> alias_of m alt L'" "purchase_found m b p L \<Longrightarrow> purchase_found m b p L'"
    "chain_clear cfg eff L \<Longrightarrow> chain_clear cfg eff L'" "cache_clear cfg m b eff hash L \<Longrightarrow> cache_clear cfg m b eff hash L'"
    "cache_read m b c L \<Longrightarrow> cache_read m b c L'"
  using assms unfolding not_suspended_def not_revoked_def alias_of_def purchase_found_def chain_clear_def cache_clear_def cache_read_def
  by (blast+)

interpretation granting: evidence "grant_promise cfg m b pid hash" for cfg m b pid hash
proof
  fix r and L L' :: access_log
  assume "grant_promise cfg m b pid hash r L" "L \<subseteq> L'"
  then show "grant_promise cfg m b pid hash r L'"
    unfolding grant_promise_def access_evidence_def using evidence_lasts [of L L'] by blast
qed

text \<open>The results that a decision is wrapped in let nobody in whom the decision does not.\<close>

locale answering =
  fixes f :: "resolution \<Rightarrow> access_result"
  assumes answers_only: "grants (f r) \<Longrightarrow> r_hasAccess r"
begin

lemma denial [simp]: "grant_promise cfg m b pid hash (f (denied st src)) L"
  "grant_promise cfg m b pid hash (f ((denied st src)\<lparr>r_settlementState := x\<rparr>)) L"
  "grant_promise cfg m b pid hash (f ((denied st src)\<lparr>r_source := x\<rparr>)) L"
  using answers_only [of "denied st src"] answers_only [of "(denied st src)\<lparr>r_settlementState := x\<rparr>"]
    answers_only [of "(denied st src)\<lparr>r_source := x\<rparr>"]
  by (auto simp: grant_promise_def denied_def)

abbreviation answer :: "resolution \<Rightarrow> access_result access_script" where
  "answer \<equiv> (\<lambda>r. Return (f r))"

abbreviation fails_closed :: "thrown \<Rightarrow> access_result access_script" where
  "fails_closed \<equiv> (\<lambda>_. answer (denied Unavailable ''error''))"

lemma write_rule:
  "(\<And>e. granting.proven cfg m b pid hash (err e) L) \<Longrightarrow> granting.proven cfg m b pid hash k L \<Longrightarrow>
   granting.proven cfg m b pid hash (writeCacheEntry err cfg' m' b' st src pid' settlement hash' k) L"
  unfolding writeCacheEntry_def
  by (auto intro!: granting.clock_rule granting.upsert_rule intro: granting.later)

lemma conclude_rule:
  assumes "\<And>st src. (\<forall>c. chainState = Some c \<longrightarrow> \<not> revoking (Some (JStr c))) \<Longrightarrow>
      grant_promise cfg m b pid hash (f (granted st src eff)) L"
  shows "granting.proven cfg m b pid hash (conclude fails_closed cfg m b eff hash p chainState answer) L"
  unfolding conclude_def Let_def
  by (auto intro!: write_rule granting.clock_rule granting.update_rule assms split: option.splits)

lemma settle_rule:
  assumes "not_suspended b L" "not_revoked m b L" "purchase_found m b p L" "good_purchase p"
  shows "granting.proven cfg m b pid hash
    (settle_verdict fails_closed cfg m b (effective_id pid p) hash p answer) L"
proof -
  let ?eff = "effective_id pid p"
  have grant: "grant_promise cfg m b pid hash (f (granted st src ?eff)) L'" if "L \<subseteq> L'" "chain_clear cfg ?eff L'" for st src L'
    using that assms evidence_lasts(1,2,4) [OF that(1)] unfolding grant_promise_def access_evidence_def by blast
  have clear: "chain_clear cfg ?eff (insert (Ask (Other (Settlement_state ?eff)), a) L)"
    if "\<forall>v c. a = Said (Told v) \<longrightarrow> decodeSettlementState (simulated v) = Some c \<longrightarrow> \<not> revoking (Some (JStr c))" for a
    unfolding chain_clear_def using that by blast
  have idle: "chain_clear cfg ?eff L"
    if "PURCHASE_MANAGER_CONTRACT_ID cfg = [] \<or> STELLAR_RPC_URL cfg = [] \<or> \<not> js_true (Some ?eff)"
    unfolding chain_clear_def using that by blast
  show ?thesis
    unfolding settle_verdict_def checkChainSettlementState_def
    by (auto intro!: granting.outer_rule conclude_rule grant clear idle)
qed

lemma cached_rule:
  assumes "not_suspended b L" "not_revoked m b L" "purchase_found m b p L" "good_purchase p" "cache_read m b (Some c) L"
    "(Ask Clock, Said (Time t)) \<in> L" "usable_cache cfg t c (effective_id pid p) hash"
  shows "grant_promise cfg m b pid hash (f (granted st src (effective_id pid p))) L"
  using assms unfolding grant_promise_def access_evidence_def cache_clear_def by blast

lemma resolve_purchase_rule:
  assumes "not_suspended b L" "not_revoked m b L" "purchase_found m b p L" "\<And>c. cached = Some c \<Longrightarrow> cache_read m b (Some c) L"
  shows "granting.proven cfg m b pid hash (resolve_purchase fails_closed cfg m b pid hash cached p answer) L"
proof -
  have clocked: "not_suspended b (insert x L)" "not_revoked m b (insert x L)" "purchase_found m b p (insert x L)"
    "cached = Some c \<Longrightarrow> cache_read m b (Some c) (insert x L)" for x c
    using assms evidence_lasts [OF subset_insertI [of L x]] by blast+
  show ?thesis
    unfolding resolve_purchase_def Let_def
    by (auto intro!: granting.clock_rule cached_rule settle_rule clocked assms simp: good_purchase_def split: option.splits)
qed

lemma resolve_absent_rule:
  assumes "not_suspended b L" "not_revoked m b L" "(Find_one (purchase_of (JStr m) b), Row None) \<in> L"
  shows "granting.proven cfg m b pid hash (resolve_absent fails_closed cfg m b pid hash answer) L"
proof -
  have grant: "grant_promise cfg m b pid hash (f (granted st src pid)) (insert (Ask (Other (Has_entitlement m b)), Said (Told v)) L)"
    if "decodeBoolean (simulated v) = Some True" for v st src
  proof -
    have v: "v = Simulated (Some (JBool True))"
      using that by (cases v) (auto simp: simulated_def decodeBoolean_def split: option.splits json.splits)
    show ?thesis unfolding grant_promise_def access_evidence_def v
      using assms evidence_lasts(1,2) [OF subset_insertI] by blast
  qed
  show ?thesis
    unfolding resolve_absent_def checkChainEntitlement_def
    by (auto intro!: granting.outer_rule write_rule grant)
qed

lemma try_aliases_rule:
  assumes "\<And>alt. alt \<in> set alts \<Longrightarrow> alias_of m alt L" "\<And>e. granting.proven cfg m b pid hash (err e) L"
    and "\<And>p L'. L \<subseteq> L' \<Longrightarrow> purchase_found m b p L' \<Longrightarrow> granting.proven cfg m b pid hash (k (Some p)) L'"
    and "\<And>L'. L \<subseteq> L' \<Longrightarrow> granting.proven cfg m b pid hash (k None) L'"
  shows "granting.proven cfg m b pid hash (try_aliases err b alts k) L"
  using assms
proof (induction alts arbitrary: L)
  case (Cons alt alts)
  have found: "purchase_found m b p (insert (Find_one (purchase_of alt b), Row (Some p)) L)" for p
    unfolding purchase_found_def
    by (intro exI [of _ alt] conjI insertI1 evidence_lasts(3) [OF subset_insertI]) (simp add: Cons.prems(1))
  have rest: "granting.proven cfg m b pid hash (try_aliases err b alts k) (insert (Find_one (purchase_of alt b), Row None) L)"
  proof (rule Cons.IH)
    show "alias_of m x (insert (Find_one (purchase_of alt b), Row None) L)" if "x \<in> set alts" for x
      using Cons.prems(1) [of x] that evidence_lasts(3) [OF subset_insertI] by auto
    show "granting.proven cfg m b pid hash (err e) (insert (Find_one (purchase_of alt b), Row None) L)" for e
      using Cons.prems(2) by (rule granting.later)
  qed (use Cons.prems in auto)
  have hit: "granting.proven cfg m b pid hash (k (Some p)) (insert (Find_one (purchase_of alt b), Row (Some p)) L)" for p
    by (rule Cons.prems(3) [OF subset_insertI found])
  show ?case unfolding try_aliases.simps
    by (rule granting.find_rule) (use Cons.prems(2) hit rest in \<open>auto split: option.split\<close>)
qed simp

lemma find_purchase_rule:
  assumes "\<And>e. granting.proven cfg m b pid hash (err e) L"
    and "\<And>p L'. L \<subseteq> L' \<Longrightarrow> purchase_found m b p L' \<Longrightarrow> granting.proven cfg m b pid hash (k (Some p)) L'"
    and "\<And>L'. L \<subseteq> L' \<Longrightarrow> (Find_one (purchase_of (JStr m) b), Row None) \<in> L' \<Longrightarrow> granting.proven cfg m b pid hash (k None) L'"
  shows "granting.proven cfg m b pid hash (find_purchase err m b k) L"
proof -
  let ?u = "Find_one (purchase_of (JStr m) b)"
  have hit: "granting.proven cfg m b pid hash (k (Some p)) (insert (?u, Row (Some p)) L)" for p
    by (rule assms(2)) (auto simp: purchase_found_def alias_of_def)
  let ?L = "\<lambda>mat. insert (Find_one (material_named m), Row mat) (insert (?u, Row None) L)"
  have "granting.proven cfg m b pid hash (try_aliases err b (candidate_ids mat) k) (?L mat)" for mat
  proof (rule try_aliases_rule)
    show "granting.proven cfg m b pid hash (err e) (?L mat)" for e
      by (intro granting.later assms(1))
  qed (auto simp: alias_of_def intro!: assms(2,3))
  then have miss: "granting.proven cfg m b pid hash
      (find_doc err (material_named m) (\<lambda>mat. try_aliases err b (candidate_ids mat) k)) (insert (?u, Row None) L)"
    by (intro granting.find_rule) (rule granting.later [OF assms(1)])
  show ?thesis unfolding find_purchase_def
    by (rule granting.find_rule) (use assms(1) hit miss in \<open>auto split: option.split\<close>)
qed

lemma resolve_found_rule:
  assumes "not_suspended b L" "\<And>p. purchase = Some p \<Longrightarrow> purchase_found m b p L"
    and "purchase = None \<Longrightarrow> (Find_one (purchase_of (JStr m) b), Row None) \<in> L"
  shows "granting.proven cfg m b pid hash (resolve_found fails_closed cfg m b pid hash purchase answer) L"
  unfolding resolve_found_def
proof (rule granting.find_rule)
  fix cached
  let ?L = "insert (Find_one (query ''entitlement_cache'' (pair_key (JStr m) b)), Row cached) L"
  have read: "cache_read m b cached ?L" by (simp add: cache_read_def)
  have L: "not_suspended b ?L" "\<And>p. purchase = Some p \<Longrightarrow> purchase_found m b p ?L"
    using assms(1,2) evidence_lasts(1,4) [OF subset_insertI] by blast+
  have ok: "not_revoked m b ?L" if "\<not> (case cached of Some c \<Rightarrow> revoked_entry c | None \<Rightarrow> False)"
    unfolding not_revoked_def by (rule exI [of _ cached]) (use read that in \<open>auto split: option.splits\<close>)
  show "granting.proven cfg m b pid hash
      (if (case cached of Some c \<Rightarrow> field_of c ''state'' = Some (JStr (state_name Revoked)) | None \<Rightarrow> False)
       then answer ((denied Revoked ''cache'')\<lparr>r_source :=
         (case cached of Some c \<Rightarrow> if js_true (field_of c ''source'') then or_null (field_of c ''source'') else JStr ''cache''
          | None \<Rightarrow> JNull)\<rparr>)
       else (case purchase of
           None \<Rightarrow> resolve_absent fails_closed cfg m b pid hash answer
         | Some p \<Rightarrow> resolve_purchase fails_closed cfg m b pid hash cached p answer)) ?L"
    using ok assms(3) L read unfolding revoked_entry_def [symmetric]
    by (auto intro!: resolve_absent_rule resolve_purchase_rule split: option.split)
qed simp

lemma resolve_rule:
  "granting.proven cfg (or_default materialId []) (normalizeBuyerAddress buyer) pid hash
     (resolveEntitlement cfg materialId buyer pid hash answer) {}"
proof -
  define m b where "m = or_default materialId []" and "b = normalizeBuyerAddress buyer"
  let ?u = "Find_one (query ''users'' [(''walletAddressLower'', JStr b)])"
  have lookup: "granting.proven cfg m b pid hash (find_purchase (\<lambda>_. answer (denied Unavailable ''purchases-db-error'')) m b
      (\<lambda>purchase. resolve_found fails_closed cfg m b pid hash purchase answer)) {(?u, a)}"
    if "\<forall>u. a = Row (Some u) \<longrightarrow> \<not> suspended_user u" for a
  proof -
    have "not_suspended b {(?u, a)}" unfolding not_suspended_def using that by blast
    then have "not_suspended b L" if "{(?u, a)} \<subseteq> L" for L using that evidence_lasts(1) by blast
    then show ?thesis by (intro find_purchase_rule resolve_found_rule) auto
  qed
  show ?thesis
    unfolding resolveEntitlement_def lookupBuyerSuspended_def Let_def m_def [symmetric] b_def [symmetric]
    by (auto intro!: granting.maybe_rule lookup simp: suspended_user_def split: option.split)
qed

end

interpretation deciding: answering "Decided c" for c
  by unfold_locales simp

interpretation authorizing: answering "as_decision c" for c
  by unfold_locales (simp add: as_decision_def)

interpretation requiring: answering "as_required c" for c
  by unfold_locales (simp add: as_required_def split: if_splits)

text \<open>What each of the three entry points earns.\<close>

definition call_promise :: "chain_config \<Rightarrow> access_call \<Rightarrow> access_result \<Rightarrow> access_log \<Rightarrow> bool" where
  "call_promise cfg c r L \<longleftrightarrow> (\<forall>m b pid hash. grants r \<longrightarrow> question_of c = Some (m, b, pid, hash) \<longrightarrow> \<not> bypassed c \<longrightarrow>
     access_evidence cfg (or_default m []) (normalizeBuyerAddress b) pid hash L)"

lemma promise_of_grant:
  assumes "question_of c = Some (m, b, pid, hash)"
  shows "call_promise cfg c = grant_promise cfg (or_default m []) (normalizeBuyerAddress b) pid hash \<or> bypassed c"
  using assms by (auto simp: call_promise_def grant_promise_def fun_eq_iff)

lemma call_earns:
  assumes "question_of c = Some (m, b, pid, hash)" "\<not> bypassed c"
  shows "earns (call_promise (i_config ix) c) (access_handler ix c) {}"
proof -
  have promise: "call_promise (i_config ix) c = grant_promise (i_config ix) (or_default m []) (normalizeBuyerAddress b) pid hash"
    using promise_of_grant [OF assms(1)] assms(2) by blast
  show ?thesis
  proof (cases c)
    case (Decide q)
    then show ?thesis unfolding promise using assms(1) deciding.resolve_rule by simp
  next
    case (Authorize mat b' pid')
    then obtain d where c: "c = Authorize (Some d) b pid" "m = material_key d" "hash = contentHashOf d"
      using assms(1) by (cases mat) auto
    show ?thesis
    proof (cases "truthy b")
      case True
      then show ?thesis unfolding promise
        using authorize_handler [of d b ix pid] assms(2) c authorizing.resolve_rule by simp
    next
      case False
      then show ?thesis by (simp add: c(1) authorizeMaterialAccess_def call_promise_def)
    qed
  next
    case (Require m' b')
    then have c: "c = Require m b" "pid = JNull" "hash = JNull" using assms(1) by auto
    show ?thesis
    proof (cases "truthy b \<and> truthy m")
      case True
      then show ?thesis unfolding promise using require_handler [of b m ix] c requiring.resolve_rule by simp
    next
      case False
      then show ?thesis by (auto simp: c(1) requireEntitlement_def call_promise_def)
    qed
  qed (use assms(1) in simp_all)
qed

end
