(* ===== verification/AccessContract.thy ===== *)
theory AccessContract imports AccessSystem begin

text \<open>
  The contract every entry point of the access system keeps: the locale \<open>access_contract\<close> states
  what an invariant of the purchases must allow (the mirror of a revocation, the events taken, the
  rewind), and proves once that all handlers keep it, call by call.
\<close>

section \<open>What events do to purchases\<close>

definition type_of :: "document \<Rightarrow> string option" where
  "type_of ev = as_str (map_of ev ''type'')"

definition event_pair :: "document \<Rightarrow> document" where
  "event_pair ev = pair_key (given_null ev ''materialId'') (lower_text (map_of ev ''buyerAddress''))"

text \<open>The filter of the purchases an event settles, and the state they get.\<close>

definition settles :: "document \<Rightarrow> (document \<times> string) option" where
  "settles ev =
     (case type_of ev of
        None \<Rightarrow> None
      | Some ty \<Rightarrow>
          if ty = ''purchase.refunded'' then Some (event_pair ev, ''Refunded'')
          else if ty = ''dispute.opened'' then Some (purchase_key ev, ''Disputed'')
          else if ty = ''dispute.resolved'' then Some (purchase_key ev, if refunds_buyer ev then ''Refunded'' else ''Released'')
          else if ty = ''escrow.released'' then Some (purchase_key ev, ''Released'')
          else None)"

lemma settles_simps:
  "type_of ev = Some ''purchase.refunded'' \<Longrightarrow> settles ev = Some (event_pair ev, ''Refunded'')"
  "type_of ev = Some ''dispute.opened'' \<Longrightarrow> settles ev = Some (purchase_key ev, ''Disputed'')"
  "type_of ev = Some ''dispute.resolved'' \<Longrightarrow>
     settles ev = Some (purchase_key ev, if refunds_buyer ev then ''Refunded'' else ''Released'')"
  "type_of ev = Some ''escrow.released'' \<Longrightarrow> settles ev = Some (purchase_key ev, ''Released'')"
  by (simp_all add: settles_def)

definition completes :: "document \<Rightarrow> bool" where
  "completes ev \<longleftrightarrow> type_of ev = Some ''purchase.completed''"

text \<open>The fields written beside the settlement state.\<close>

definition beside :: "document \<Rightarrow> bool" where
  "beside extra \<longleftrightarrow> distinct (keys extra) \<and>
     set (keys extra) \<inter> {''_id'', ''materialId'', ''buyerAddress'', ''settlementState'', ''status'', ''indexedLedger'', ''updatedAt''} = {}"

lemma mirror_elsewhere: "mirror_of ev ty = Some (c, flt, sets) \<Longrightarrow> c \<noteq> ''purchases''"
  by (auto simp: mirror_of_def Let_def split: if_splits)

text \<open>Calls that neither decide nor write purchases, and the decisions.\<close>

fun harmless :: "access_call \<Rightarrow> bool" where
  "harmless (Owned b ids) = True"
| "harmless (Create m b data) = True"
| "harmless (Invalidate m b reason pid settlement) = True"
| "harmless (Revoke_entitlement m b) = True"
| "harmless (Health_of current) = True"
| "harmless (List_dead st limit) = True"
| "harmless (Quarantine_dead i reason operator) = True"
| "harmless _ = False"

fun decides :: "access_call \<Rightarrow> bool" where
  "decides (Decide q) = True"
| "decides (Authorize mat b pid) = True"
| "decides (Require m b) = True"
| "decides _ = False"

section \<open>The contract\<close>

locale access_contract = docs_contract \<phi> V R Q
  for \<phi> V :: "doc \<Rightarrow> bool" and R :: "doc \<Rightarrow> doc \<Rightarrow> bool" and Q :: "access_result \<Rightarrow> doc list \<Rightarrow> bool" +
  fixes takes :: "document \<Rightarrow> bool"
    and may_rewind :: bool
  assumes other_docs: "coll d \<noteq> ''purchases'' \<Longrightarrow> \<phi> d \<and> \<not> V d"
    and mirror_ok: "revoking (Some v) \<Longrightarrow>
      allowed (purchase_of m b) (put [(''settlementState'', v), (''updatedAt'', JDate t)])"
    and completed_ok: "takes ev \<Longrightarrow> completes ev \<Longrightarrow>
      allowed (query ''purchases'' (event_pair ev))
        (put (completed_fields ev (lower_text (map_of ev ''buyerAddress'')) @ [(''updatedAt'', JDate now)])) \<and>
      \<phi> (fresh_doc i ''purchases'' (event_pair ev)
        (completed_fields ev (lower_text (map_of ev ''buyerAddress'')) @ [(''updatedAt'', JDate now)]) [(''createdAt'', JDate now)])"
    and settled_ok: "takes (a_event x) \<Longrightarrow> settles (a_event x) = Some (flt, st) \<Longrightarrow> beside extra \<Longrightarrow>
      allowed (query ''purchases'' flt) (put (settlement_fields x st extra))"
    and orphan_ok: "may_rewind \<Longrightarrow> allowed (query ''purchases'' [(''_id'', j)])
      (put [(''settlementState'', JStr ''Orphaned''), (''orphanedAt'', JDate t), (''updatedAt'', JDate t)])"
    and quiet: "\<not> grants r \<Longrightarrow> Q r s"
begin

lemma other_allowed: "(\<And>d. P d \<Longrightarrow> coll d \<noteq> ''purchases'') \<Longrightarrow> (\<And>d. coll (f d) = coll d) \<Longrightarrow> allowed P f"
  unfolding allowed_def using other_docs by metis

lemma put_other: "c \<noteq> ''purchases'' \<Longrightarrow> allowed (query c flt) (put sets)"
  by (rule other_allowed) (auto dest: query_coll)

lemma upsert_other:
  "c \<noteq> ''purchases'' \<Longrightarrow> kept K \<Longrightarrow> (\<And>e. sound (err e) K) \<Longrightarrow> sound k K \<Longrightarrow> sound (upsert_doc err c flt sets ins k) K"
  by (rule upsert_rule) (simp_all add: put_other other_docs)

lemma insert_other:
  "coll d \<noteq> ''purchases'' \<Longrightarrow> kept K \<Longrightarrow> (\<And>e. sound (err e) K) \<Longrightarrow> sound k K \<Longrightarrow> sound (insert_doc err d k) K"
  by (rule insert_rule) (simp_all add: other_docs)

lemma delete_other:
  "(\<And>d. P d \<Longrightarrow> coll d \<noteq> ''purchases'') \<Longrightarrow> kept K \<Longrightarrow> (\<And>e. sound (err e) K) \<Longrightarrow> (\<And>n. sound (k n) K) \<Longrightarrow> sound (delete_doc err P k) K"
  by (rule delete_rule) (use other_docs in blast)+

lemma update_other:
  "c \<noteq> ''purchases'' \<Longrightarrow> kept K \<Longrightarrow> (\<And>e. sound (err e) K) \<Longrightarrow> (\<And>x. sound (k x) K) \<Longrightarrow> sound (update_doc err (query c flt) (put sets) k) K"
  by (rule update_rule) (simp_all add: put_other)

lemma threw_sound [simp]: "sound (threw e) K"
  by (simp add: quiet)

lemmas basic_rules = clock_rule fresh_id_rule outer_rule find_rule find_docs_rule upsert_other insert_other update_other

subsection \<open>The entitlement service\<close>

lemma write_rule: "kept K \<Longrightarrow> (\<And>e. sound (err e) K) \<Longrightarrow> sound k K \<Longrightarrow>
    sound (writeCacheEntry err cfg m b st src pid settlement hash k) K"
  unfolding writeCacheEntry_def by (auto intro!: basic_rules)

lemma invalidate_rule: "kept K \<Longrightarrow> (\<And>e. sound (err e) K) \<Longrightarrow> (\<And>ok. sound (k ok) K) \<Longrightarrow>
    sound (invalidateEntitlement err cfg m b reason pid settlement k) K"
  unfolding invalidateEntitlement_def by (auto intro!: write_rule)

lemma create_rule: "kept K \<Longrightarrow> (\<And>e. sound (err e) K) \<Longrightarrow> (\<And>ok. sound (k ok) K) \<Longrightarrow>
    sound (createEntitlement err cfg m b data k) K"
  unfolding createEntitlement_def by (auto intro!: write_rule update_other)

lemma conclude_rule: "kept K \<Longrightarrow> (\<And>e. sound (err e) K) \<Longrightarrow> (\<And>r. sound (k r) K) \<Longrightarrow>
    sound (conclude err cfg m b eff hash p chainState k) K"
  unfolding conclude_def Let_def
  by (auto intro!: write_rule clock_rule update_rule mirror_ok split: option.splits)

lemma settle_rule: "kept K \<Longrightarrow> (\<And>e. sound (err e) K) \<Longrightarrow> (\<And>r. sound (k r) K) \<Longrightarrow>
    sound (settle_verdict err cfg m b eff hash p k) K"
  unfolding settle_verdict_def checkChainSettlementState_def by (auto intro!: outer_rule conclude_rule)

lemma resolve_purchase_rule: "kept K \<Longrightarrow> (\<And>e. sound (err e) K) \<Longrightarrow> (\<And>r. sound (k r) K) \<Longrightarrow>
    sound (resolve_purchase err cfg m b pid hash cached p k) K"
  unfolding resolve_purchase_def Let_def by (auto intro!: clock_rule settle_rule split: option.splits)

lemma resolve_absent_rule: "kept K \<Longrightarrow> (\<And>e. sound (err e) K) \<Longrightarrow> (\<And>r. sound (k r) K) \<Longrightarrow>
    sound (resolve_absent err cfg m b pid hash k) K"
  unfolding resolve_absent_def checkChainEntitlement_def by (auto intro!: outer_rule write_rule)

lemma resolve_found_rule: "kept K \<Longrightarrow> (\<And>e. sound (err e) K) \<Longrightarrow> (\<And>r. sound (k r) K) \<Longrightarrow>
    sound (resolve_found err cfg m b pid hash p k) K"
  unfolding resolve_found_def
  by (auto intro!: find_rule resolve_purchase_rule resolve_absent_rule split: option.splits)

lemma aliases_rule: "kept K \<Longrightarrow> (\<And>e. sound (err e) K) \<Longrightarrow> (\<And>p. sound (k p) K) \<Longrightarrow> sound (try_aliases err b alts k) K"
  by (induction alts) (auto intro!: find_rule split: option.splits)

lemma find_purchase_rule: "kept K \<Longrightarrow> (\<And>e. sound (err e) K) \<Longrightarrow> (\<And>p. sound (k p) K) \<Longrightarrow> sound (find_purchase err m b k) K"
  unfolding find_purchase_def by (auto intro!: find_rule aliases_rule split: option.splits)

lemma resolve_rule: "kept K \<Longrightarrow> (\<And>r. sound (k r) K) \<Longrightarrow> sound (resolveEntitlement cfg m b pid hash k) K"
  unfolding resolveEntitlement_def lookupBuyerSuspended_def Let_def
  by (auto intro!: find_rule find_purchase_rule resolve_found_rule)

lemma authorize_rule: "kept K \<Longrightarrow> (\<And>d. sound (k d) K) \<Longrightarrow> sound (authorizeMaterialAccess cfg mat b pid k) K"
  unfolding authorizeMaterialAccess_def by (auto intro!: resolve_rule split: option.splits)

lemma require_rule: "kept K \<Longrightarrow> (\<And>s. sound (k s) K) \<Longrightarrow> sound (requireEntitlement cfg m b k) K"
  unfolding requireEntitlement_def verifyEntitlement_def by (auto intro!: resolve_rule)

lemma owned_rule: "kept K \<Longrightarrow> (\<And>xs. sound (k xs) K) \<Longrightarrow> sound (getOwnedMaterialIds b ids k) K"
  unfolding getOwnedMaterialIds_def Let_def by (auto intro!: find_docs_rule)

subsection \<open>The indexer\<close>

lemma upsert_now_other: "c \<noteq> ''purchases'' \<Longrightarrow> kept K \<Longrightarrow> (\<And>e. sound (err e) K) \<Longrightarrow> sound k K \<Longrightarrow>
    sound (upsert_now err x c flt sets k) K"
  unfolding upsert_now_def by (rule upsert_other)

lemma revoke_rule: "kept K \<Longrightarrow> (\<And>e. sound (err e) K) \<Longrightarrow> sound k K \<Longrightarrow> sound (revoke err x buyer reason st k) K"
  unfolding revoke_def by (rule invalidate_rule)

lemma completed_rule:
  assumes "takes (a_event x)" "completes (a_event x)" "kept K" "\<And>e. sound (err e) K" "sound k K"
  shows "sound (purchase_completed err x already k) K"
proof -
  have first: "sound (upsert_now err x ''purchases'' (event_pair (a_event x))
      (completed_fields (a_event x) (lower_text (map_of (a_event x) ''buyerAddress''))) p) K" if "sound p K" for p
    unfolding upsert_now_def
    by (rule upsert_rule [OF _ _ assms(3,4) that]) (use completed_ok [OF assms(1,2)] in blast)+
  show ?thesis
    unfolding purchase_completed_def Let_def enqueue_receipt_def event_pair_def [symmetric]
    using assms(3-5) by (auto intro!: first upsert_now_other upsert_other find_rule split: option.splits)
qed

lemma refunded_rule:
  assumes "takes (a_event x)" "settles (a_event x) = Some (event_pair (a_event x), ''Refunded'')"
    and "kept K" "\<And>e. sound (err e) K" "sound skip K" "sound k K"
  shows "sound (purchase_refunded err x skip k) K"
  unfolding purchase_refunded_def Let_def event_pair_def [symmetric]
  using assms(3-6)
  by (auto intro!: find_rule update_rule revoke_rule settled_ok [OF assms(1,2)] simp: beside_def)

lemma dispute_opened_rule:
  assumes "takes (a_event x)" "settles (a_event x) = Some (purchase_key (a_event x), ''Disputed'')"
    and "kept K" "\<And>e. sound (err e) K" "sound skip K" "sound k K"
  shows "sound (dispute_opened err x skip k) K"
  unfolding dispute_opened_def Let_def
  using assms(3-6)
  by (auto intro!: find_rule update_rule revoke_rule settled_ok [OF assms(1,2)] simp: beside_def)

lemma dispute_resolved_rule:
  assumes "takes (a_event x)"
    and "settles (a_event x) = Some (purchase_key (a_event x), if refunds_buyer (a_event x) then ''Refunded'' else ''Released'')"
    and "kept K" "\<And>e. sound (err e) K" "sound skip K" "sound k K"
  shows "sound (dispute_resolved err x skip k) K"
  unfolding dispute_resolved_def Let_def
  using assms(3-6) settled_ok [OF assms(1,2)]
  by (auto intro!: find_rule update_rule revoke_rule upsert_now_other simp: beside_def)

lemma escrow_rule:
  assumes "takes (a_event x)" "settles (a_event x) = Some (purchase_key (a_event x), ''Released'')"
    and "kept K" "\<And>e. sound (err e) K" "sound skip K" "sound k K"
  shows "sound (escrow_released err x skip k) K"
  unfolding escrow_released_def Let_def
  using assms(3-6)
  by (auto intro!: find_rule update_rule settled_ok [OF assms(1,2)] simp: beside_def)

lemma if_rule: "(c \<Longrightarrow> sound p K) \<Longrightarrow> (\<not> c \<Longrightarrow> sound q K) \<Longrightarrow> sound (if c then p else q) K"
  by simp

lemma effects_rule:
  assumes "takes (a_event x)" "kept K" "\<And>e. sound (err e) K" "\<And>b. sound (k b) K"
  shows "sound (apply_effects err x already k) K"
proof (cases "type_of (a_event x)")
  case None
  have "apply_effects err x already k = k already"
  proof (cases "map_of (a_event x) ''type''")
    case (Some v)
    then show ?thesis using \<open>type_of (a_event x) = None\<close>
      unfolding apply_effects_def type_of_def by (cases v) simp_all
  qed (simp add: apply_effects_def)
  then show ?thesis using assms(4) by simp
next
  case (Some ty)
  then have ty: "map_of (a_event x) ''type'' = Some (JStr ty)"
    by (auto simp: type_of_def elim: as_str.elims)
  have mirrored: "sound (case mirror_of (a_event x) ty of
      Some (c, flt, sets) \<Rightarrow> upsert_now err x c flt sets (k already) | None \<Rightarrow> k already) K"
    using assms(2-4) mirror_elsewhere [of "a_event x" ty] by (auto intro!: upsert_now_other split: option.splits)
  show ?thesis
    unfolding apply_effects_def ty option.case json.case
  proof (intro if_rule mirrored)
    assume t: "ty = ''purchase.completed''"
    show "sound (purchase_completed err x already (k already)) K"
      by (rule completed_rule) (use assms Some t in \<open>simp_all add: completes_def\<close>)
  next
    assume t: "ty = ''purchase.refunded''"
    show "sound (purchase_refunded err x (k True) (k already)) K"
      by (rule refunded_rule) (use assms Some t in \<open>simp_all add: settles_simps\<close>)
  next
    assume t: "ty = ''dispute.opened''"
    show "sound (dispute_opened err x (k True) (k already)) K"
      by (rule dispute_opened_rule) (use assms Some t in \<open>simp_all add: settles_simps\<close>)
  next
    assume t: "ty = ''dispute.resolved''"
    show "sound (dispute_resolved err x (k True) (k already)) K"
      by (rule dispute_resolved_rule) (use assms Some t in \<open>simp_all add: settles_simps\<close>)
  next
    assume t: "ty = ''escrow.released''"
    show "sound (escrow_released err x (k True) (k already)) K"
      by (rule escrow_rule) (use assms Some t in \<open>simp_all add: settles_simps\<close>)
  qed (use assms(2-4) in \<open>auto simp: material_registered_def transfer_accepted_def credits_redeemed_def grant_revoked_def Let_def
      intro!: upsert_other upsert_now_other update_other\<close>)
qed

lemma apply_rule:
  assumes "takes ev" "kept K" "\<And>e. sound (err e) K" "\<And>r. sound (k r) K"
  shows "sound (applyIndexedEvent digest cfg err ev k) K"
  unfolding applyIndexedEvent_def Let_def
  using assms by (auto intro!: clock_rule insert_other effects_rule simp: sync_event_def split: identity.splits)

subsection \<open>Rewinds, batches and dead letters\<close>

lemma stale_coll: "stale_material d m \<Longrightarrow> coll m \<noteq> ''purchases''"
  by (auto simp: stale_material_def dest: query_coll)

lemma orphan_all_rule: "may_rewind \<Longrightarrow> kept K \<Longrightarrow> (\<And>e. sound (err e) K) \<Longrightarrow> sound k K \<Longrightarrow> sound (orphan_all err cfg now ps k) K"
  by (induction ps) (auto intro!: update_rule orphan_ok invalidate_rule)

lemma rewind_rule: "may_rewind \<Longrightarrow> kept K \<Longrightarrow> (\<And>e. sound (err e) K) \<Longrightarrow> (\<And>r. sound (k r) K) \<Longrightarrow>
    sound (rewindAfterFork err cfg source d k) K"
  unfolding rewindAfterFork_def Let_def
  by (auto intro!: clock_rule find_rule update_docs_rule find_docs_rule orphan_all_rule update_other other_allowed dest: stale_coll)

lemma walk_rule: "kept K \<Longrightarrow> (\<And>e. sound (err e) K) \<Longrightarrow> (\<And>x y. sound (k x y) K) \<Longrightarrow> sound (fork_walk err cs mismatch k) K"
  by (induction cs arbitrary: mismatch) (auto intro!: outer_rule split: option.splits)

lemma detect_rule: "kept K \<Longrightarrow> (\<And>e. sound (err e) K) \<Longrightarrow> (\<And>r. sound (k r) K) \<Longrightarrow> sound (detectFork err cps l h k) K"
  unfolding detectFork_def by (auto intro!: walk_rule split: option.splits)

lemma info_rule: "kept K \<Longrightarrow> (\<And>i. sound (k i) K) \<Longrightarrow> sound (with_info e k) K"
  unfolding with_info_def by (auto intro!: outer_rule split: thrown.splits chain_answer.splits)

lemma failure_rule: "kept K \<Longrightarrow> (\<And>e. sound (err e) K) \<Longrightarrow> sound k K \<Longrightarrow>
    sound (record_failure err maxRetries source i raw_event parsed e k) K"
  unfolding record_failure_def Let_def by (auto intro!: find_rule info_rule clock_rule upsert_other)

lemma quarantine_rule: "kept K \<Longrightarrow> sound k K \<Longrightarrow> sound (quarantineEvent digest ev parsed source k) K"
  unfolding quarantineEvent_def by (auto intro!: clock_rule upsert_other)

lemma dead_letter_coll: "dead_letter i d \<Longrightarrow> coll d \<noteq> ''purchases''"
  by (auto simp: dead_letter_def dest: query_coll)

lemma loop_rule:
  assumes "\<And>ev. takes ev" "kept K" "\<And>e. sound (err e) K" "\<And>p. sound (k p) K"
  shows "sound (batch_loop ix err evs p k) K"
proof (induction evs arbitrary: p)
  case (Cons ev evs)
  show ?case
    by (auto simp: Let_def intro!: Cons.IH assms quarantine_rule apply_rule failure_rule delete_other
        split: option.split identity.split dest: dead_letter_coll)
qed (simp add: assms)

lemma check_rule:
  assumes "may_rewind" "kept K" "\<And>e. sound (err e) K" "\<And>st. sound (k st) K"
  shows "sound (check_fork ix err st k) K"
  unfolding check_fork_def using assms by (auto intro!: detect_rule rewind_rule find_rule split: option.split)

lemma next_hash_rule: "kept K \<Longrightarrow> (\<And>h. sound (k h) K) \<Longrightarrow> sound (next_hash ix st ledger k) K"
  unfolding next_hash_def Let_def by (auto intro!: outer_rule split: json.split)

lemma save_rule: "kept K \<Longrightarrow> (\<And>e. sound (err e) K) \<Longrightarrow> sound k K \<Longrightarrow> sound (save_state ix err st cursor ledger hash k) K"
  unfolding save_state_def by (auto intro!: clock_rule upsert_other)

lemma batch_rule:
  assumes "may_rewind" "\<And>ev. takes ev" "kept K" "\<And>e. sound (err e) K" "\<And>r. sound (k r) K"
  shows "sound (runIndexerBatch ix err limit k) K"
  unfolding runIndexerBatch_def using assms
  by (auto intro!: find_rule check_rule outer_rule loop_rule next_hash_rule save_rule split: chain_answer.split)

lemma health_rule: "kept K \<Longrightarrow> (\<And>e. sound (err e) K) \<Longrightarrow> (\<And>h. sound (k h) K) \<Longrightarrow> sound (getIndexerHealth err source current k) K"
  unfolding getIndexerHealth_def Let_def by (auto intro!: find_rule find_docs_rule)

lemma drop_rule:
  assumes "\<And>ev. takes ev" "kept K" "\<And>e. sound (err e) K" "sound k K"
  shows "sound (apply_and_drop ix err entry ev k) K"
  unfolding apply_and_drop_def using assms by (auto intro!: apply_rule delete_other dest: dead_letter_coll)

lemma reprocess_all_rule:
  assumes "\<And>ev. takes ev" "kept K" "\<And>e. sound (err e) K" "\<And>xs. sound (k xs) K"
  shows "sound (reprocess_all ix err es xs k) K"
proof (induction es arbitrary: xs)
  case (Cons entry es)
  show ?case
    by (auto simp: Let_def dead_letter_def intro!: Cons.IH assms clock_rule update_other drop_rule info_rule upsert_other
        split: option.split)
qed (simp add: assms)

lemma reprocess_rule:
  assumes "\<And>ev. takes ev" "kept K" "\<And>e. sound (err e) K" "\<And>xs. sound (k xs) K"
  shows "sound (reprocessDeadLetters ix err statuses limit k) K"
  unfolding reprocessDeadLetters_def using assms by (auto intro!: find_docs_rule reprocess_all_rule)

lemma action_rule: "kept K \<Longrightarrow> (\<And>e. sound (err e) K) \<Longrightarrow> sound k K \<Longrightarrow> sound (recordIndexerOperatorAction err action k) K"
  unfolding recordIndexerOperatorAction_def by (auto intro!: fresh_id_rule clock_rule insert_other)

lemma list_rule: "kept K \<Longrightarrow> (\<And>e. sound (err e) K) \<Longrightarrow> (\<And>ds. sound (k ds) K) \<Longrightarrow> sound (listDeadLetterEvents err st limit k) K"
  unfolding listDeadLetterEvents_def by (auto intro!: find_docs_rule)

lemma retry_rule:
  assumes "\<And>ev. takes ev" "kept K" "\<And>e. sound (err e) K" "sound k K"
  shows "sound (retryDeadLetter ix err i operator k) K"
  unfolding retryDeadLetter_def using assms
  by (auto intro!: find_rule apply_rule delete_other action_rule split: option.split dest: dead_letter_coll)

lemma quarantine_dead_rule: "kept K \<Longrightarrow> (\<And>e. sound (err e) K) \<Longrightarrow> sound k K \<Longrightarrow>
    sound (quarantineDeadLetter err i reason operator k) K"
  unfolding quarantineDeadLetter_def Let_def dead_letter_def
  by (auto intro!: find_rule clock_rule update_other action_rule split: option.split)

lemma recover_all_rule:
  assumes "\<And>ev. takes ev" "kept K" "\<And>r. sound (k r) K"
  shows "sound (reprocessMissingTransactions ix ops rep k) K"
proof (induction ops arbitrary: rep)
  case (Cons op ops)
  show ?case by (auto intro!: Cons.IH assms apply_rule)
qed (simp add: assms)

lemma recover_rule:
  assumes "\<And>ev. takes ev" "kept K" "\<And>e. sound (err e) K" "\<And>r. sound (k r) K"
  shows "sound (runRecovery ix err account limit k) K"
  unfolding runRecovery_def findMissingTransactions_def Let_def using assms
  by (auto intro!: outer_rule find_docs_rule recover_all_rule split: chain_answer.split)

subsection \<open>All entry points\<close>

lemma harmless_rule: "harmless c \<Longrightarrow> kept K \<Longrightarrow> sound (access_handler ix c) K"
  by (cases c) (auto simp: revokeEntitlement_def quiet
      intro!: owned_rule create_rule invalidate_rule health_rule list_rule quarantine_dead_rule)

lemma index_rule: "takes ev \<Longrightarrow> kept K \<Longrightarrow> sound (access_handler ix (Index ev)) K"
  by (auto intro!: apply_rule simp: quiet)

lemma decision_rule:
  assumes "question_of c \<noteq> None" "kept K" "\<And>r s. label_of r = Some c \<Longrightarrow> Q r s"
  shows "sound (access_handler ix c) K"
proof (cases c)
  case (Decide q)
  then show ?thesis using assms by (cases q) (auto intro!: resolve_rule)
next
  case (Authorize mat b pid)
  then show ?thesis using assms by (auto intro!: authorize_rule)
next
  case (Require m b)
  then show ?thesis using assms by (auto intro!: require_rule)
qed (use assms in simp_all)

lemma any_rule:
  assumes "\<And>ev. takes ev" "may_rewind" "kept K" "\<And>r s. Q r s"
  shows "sound (access_handler ix c) K"
proof (cases "question_of c = None")
  case False
  then show ?thesis by (rule decision_rule) (use assms in auto)
next
  case True
  show ?thesis
  proof (cases "harmless c")
    case True
    then show ?thesis using assms(3) by (rule harmless_rule)
  next
    case False
    with True assms show ?thesis
    proof (cases c)
      case (Authorize mat b pid)
      then show ?thesis using \<open>question_of c = None\<close> assms(4) by (cases mat) (simp_all add: authorizeMaterialAccess_def)
    qed (auto intro!: rewind_rule batch_rule reprocess_rule retry_rule recover_rule apply_rule)
  qed
qed

end

end
