(* ===== verification/AccessSafety.thy ===== *)
theory AccessSafety imports ForkSafety AccessEvidence AccessContract begin

text \<open>
  The properties of entitlements over every interleaving of the access system: what an access rests
  on, that a refunded purchase stays refunded while no event of the chain restores it, the states a
  purchase can be in, and exactly when a fork is seen.
\<close>

section \<open>Access needs evidence\<close>


definition sample_question :: access_call where
  "sample_question = Decide (Some ''m'', Some ''B'', JStr ''1'', JNull)"






section \<open>Refunds last\<close>

definition names_purchase :: "string \<Rightarrow> string \<Rightarrow> doc \<Rightarrow> bool" where
  "names_purchase m b d \<longleftrightarrow> query ''purchases'' (pair_key (JStr m) b) d"

definition frozen :: "string \<Rightarrow> string \<Rightarrow> doc \<Rightarrow> bool" where
  "frozen m b d \<longleftrightarrow> (query ''purchases'' (pair_key (JStr m) b) d \<longrightarrow> revoking (field_of d ''settlementState''))"

definition reinstates :: "string \<Rightarrow> string \<Rightarrow> document \<Rightarrow> bool" where
  "reinstates m b ev \<longleftrightarrow>
     completes ev \<and> event_pair ev = pair_key (JStr m) b \<or>
     given_null ev ''materialId'' = JStr m \<and> (\<exists>flt. settles ev = Some (flt, ''Released''))"

text \<open>
  Calls that apply no event that reinstates the purchase: no batch, rewind, replay or recovery, which
  may bring such events.
\<close>

fun spares :: "string \<Rightarrow> string \<Rightarrow> access_call \<Rightarrow> bool" where
  "spares m b (Index ev) = (\<not> reinstates m b ev)"
| "spares m b c = (harmless c \<or> decides c)"

definition asks_for :: "string \<Rightarrow> string \<Rightarrow> access_call \<Rightarrow> bool" where
  "asks_for m b c \<longleftrightarrow> (case question_of c of
     Some (i, x, pid, hash) \<Rightarrow> or_default i [] = m \<and> normalizeBuyerAddress x = b | None \<Rightarrow> False)"

definition refusal :: "string \<Rightarrow> string \<Rightarrow> access_result \<Rightarrow> doc list \<Rightarrow> bool" where
  "refusal m b r s \<longleftrightarrow> (\<forall>c. grants r \<longrightarrow> label_of r = Some c \<longrightarrow> asks_for m b c \<longrightarrow> bypassed c)"

lemma pair_fields: "query ''purchases'' (pair_key (JStr m) b) d \<longleftrightarrow>
    coll d = ''purchases'' \<and> field_of d ''materialId'' = Some (JStr m) \<and> field_of d ''buyerAddress'' = Some (JStr b)"
  by (auto simp: query_def pair_key_def matches_field_def)

lemma completed_keys: "distinct (keys (completed_fields ev b @ [(''updatedAt'', t)]))"
  by (simp add: completed_fields_def)

lemma completed_values:
  "map_of (completed_fields ev b @ [(''updatedAt'', t)]) ''materialId'' = Some (given_null ev ''materialId'')"
  "map_of (completed_fields ev b @ [(''updatedAt'', t)]) ''buyerAddress'' = Some (JStr b)"
  "map_of (completed_fields ev b @ [(''updatedAt'', t)]) ''settlementState'' = Some (JStr ''Pending'')"
  by (simp_all add: completed_fields_def)

lemma settlement_keys: "beside extra \<Longrightarrow> distinct (keys (settlement_fields x st extra))"
  by (auto simp: beside_def settlement_fields_def)

lemma beside_values: "beside extra \<Longrightarrow> map_of extra ''materialId'' = None" "beside extra \<Longrightarrow> map_of extra ''buyerAddress'' = None"
  unfolding beside_def by (auto simp: map_of_eq_None_iff)

lemma settlement_values:
  "map_of (settlement_fields x st extra) ''settlementState'' = Some (JStr st)"
  "beside extra \<Longrightarrow> map_of (settlement_fields x st extra) ''materialId'' = None"
  "beside extra \<Longrightarrow> map_of (settlement_fields x st extra) ''buyerAddress'' = None"
  by (simp_all add: settlement_fields_def map_add_def beside_values)

lemma settled_states: "settles ev = Some (flt, st) \<Longrightarrow> st \<in> {''Refunded'', ''Disputed'', ''Released''}"
  by (auto simp: settles_def split: option.splits if_splits)

lemma released_key: "settles ev = Some (flt, ''Released'') \<Longrightarrow> flt = purchase_key ev"
  by (auto simp: settles_def split: option.splits if_splits)

lemma revoking_states [simp]: "revoking (Some (JStr ''Refunded''))" "revoking (Some (JStr ''Disputed''))"
  by (simp_all add: revoking_def REVOKING_SETTLEMENT_STATES_def)

lemma completed_row:
  "field_of (put (completed_fields ev b @ [(''updatedAt'', t)]) d) ''materialId'' = Some (given_null ev ''materialId'')"
  "field_of (put (completed_fields ev b @ [(''updatedAt'', t)]) d) ''buyerAddress'' = Some (JStr b)"
  "field_of (put (completed_fields ev b @ [(''updatedAt'', t)]) d) ''settlementState'' = Some (JStr ''Pending'')"
  by (simp_all only: field_put [OF completed_keys] completed_values option.case)

lemma settled_row:
  assumes "beside extra"
  shows "field_of (put (settlement_fields x st extra) d) ''settlementState'' = Some (JStr st)"
    "field_of (put (settlement_fields x st extra) d) ''materialId'' = field_of d ''materialId''"
    "field_of (put (settlement_fields x st extra) d) ''buyerAddress'' = field_of d ''buyerAddress''"
  using settlement_values(1) [of x st extra] settlement_values(2,3) [OF assms, of x st]
  by (simp_all only: field_put [OF settlement_keys [OF assms]] option.case)

text \<open>The contract for the purchases of a pair, while nothing reinstates them.\<close>

lemma event_pair_fields: "query ''purchases'' (event_pair ev) d \<longleftrightarrow> coll d = ''purchases'' \<and>
    matches_field d (''materialId'', given_null ev ''materialId'') \<and>
    field_of d ''buyerAddress'' = Some (JStr (lower_text (map_of ev ''buyerAddress'')))"
  by (auto simp: query_def event_pair_def pair_key_def matches_field_def)

lemma other_pair:
  assumes "completes ev" "\<not> reinstates m b ev"
  shows "\<not> (given_null ev ''materialId'' = JStr m \<and> lower_text (map_of ev ''buyerAddress'') = b)"
  using assms by (auto simp: reinstates_def event_pair_def)

lemma frozen_completed:
  assumes "completes ev" "\<not> reinstates m b ev"
  shows "query ''purchases'' (event_pair ev) d \<Longrightarrow> \<not> query ''purchases'' (pair_key (JStr m) b) d"
    "frozen m b (put (completed_fields ev (lower_text (map_of ev ''buyerAddress'')) @ [(''updatedAt'', t)]) d)"
  using other_pair [OF assms]
  by (auto simp: event_pair_fields pair_fields frozen_def completed_row matches_field_def nullish_def split: if_splits)

lemma fresh_completed:
  "field_of (fresh_doc i ''purchases'' (event_pair ev) (completed_fields ev b @ [(''updatedAt'', t)]) [(''createdAt'', t)]) ''materialId''
     = Some (given_null ev ''materialId'')"
  "field_of (fresh_doc i ''purchases'' (event_pair ev) (completed_fields ev b @ [(''updatedAt'', t)]) [(''createdAt'', t)]) ''buyerAddress''
     = Some (JStr b)"
  "field_of (fresh_doc i ''purchases'' (event_pair ev) (completed_fields ev b @ [(''updatedAt'', t)]) [(''createdAt'', t)]) ''settlementState''
     = Some (JStr ''Pending'')"
  by (simp_all add: field_fresh completed_fields_def)

lemma frozen_fresh:
  assumes "completes ev" "\<not> reinstates m b ev"
  shows "frozen m b (fresh_doc i ''purchases'' (event_pair ev)
    (completed_fields ev (lower_text (map_of ev ''buyerAddress'')) @ [(''updatedAt'', t)]) [(''createdAt'', t)])"
  using other_pair [OF assms] by (auto simp: frozen_def pair_fields fresh_completed)

lemma frozen_settled:
  assumes "\<not> reinstates m b ev" "settles ev = Some (flt, st)" "beside extra" "query ''purchases'' flt d" "a_event x = ev"
  shows "frozen m b (put (settlement_fields x st extra) d)"
proof (cases "st = ''Released''")
  case True
  then have "flt = purchase_key ev" "given_null ev ''materialId'' \<noteq> JStr m"
    using released_key assms(1,2) by (auto simp: reinstates_def)
  then have "field_of d ''materialId'' \<noteq> Some (JStr m)"
    using assms(4) by (auto simp: query_def purchase_key_def matches_field_def nullish_def split: if_splits)
  then show ?thesis by (simp add: frozen_def pair_fields settled_row [OF assms(3)])
next
  case False
  then have "revoking (Some (JStr st))" using settled_states [OF assms(2)] by auto
  then show ?thesis by (simp add: frozen_def settled_row [OF assms(3)])
qed

lemma plain_contract: "docs_contract (\<lambda>_ _. True)"
  by unfold_locales auto

lemmas allowed_plain = docs_contract.allowed_def [OF plain_contract]

interpretation refunds: access_contract "frozen m b" "query ''purchases'' (pair_key (JStr m) b)" "\<lambda>_ _. True" "refusal m b"
  "\<lambda>ev. \<not> reinstates m b ev" False for m b
proof
  fix d
  show "coll d \<noteq> ''purchases'' \<Longrightarrow> frozen m b d \<and> \<not> query ''purchases'' (pair_key (JStr m) b) d"
    by (simp add: frozen_def pair_fields)
next
  fix v m' b' t
  assume "revoking (Some v)"
  then show "docs_contract.allowed (frozen m b) (query ''purchases'' (pair_key (JStr m) b)) (\<lambda>_ _. True) (purchase_of m' b')
      (put [(''settlementState'', v), (''updatedAt'', JDate t)])"
    by (simp add: allowed_plain frozen_def pair_fields field_put)
next
  fix ev now i
  assume "\<not> reinstates m b ev" "completes ev"
  then show "docs_contract.allowed (frozen m b) (query ''purchases'' (pair_key (JStr m) b)) (\<lambda>_ _. True)
      (query ''purchases'' (event_pair ev))
      (put (completed_fields ev (lower_text (map_of ev ''buyerAddress'')) @ [(''updatedAt'', JDate now)])) \<and>
    frozen m b (fresh_doc i ''purchases'' (event_pair ev)
      (completed_fields ev (lower_text (map_of ev ''buyerAddress'')) @ [(''updatedAt'', JDate now)]) [(''createdAt'', JDate now)])"
    using frozen_completed [of ev m b] frozen_fresh [of ev m b] by (simp add: allowed_plain)
next
  fix x :: applying and flt st extra
  assume "\<not> reinstates m b (a_event x)" "settles (a_event x) = Some (flt, st)" "beside extra"
  then show "docs_contract.allowed (frozen m b) (query ''purchases'' (pair_key (JStr m) b)) (\<lambda>_ _. True)
      (query ''purchases'' flt) (put (settlement_fields x st extra))"
    using frozen_settled [of m b "a_event x"] by (auto simp: allowed_plain pair_fields settled_row)
qed (auto simp: refusal_def)

abbreviation "keeping m b \<equiv> good same_key (docs_ok (frozen m b)) (lasting (query ''purchases'' (pair_key (JStr m) b)) (\<lambda>_ _. True)) (refusal m b)"

abbreviation "on_file m b \<equiv> present (query ''purchases'' (pair_key (JStr m) b))"

lemma refused_rule:
  assumes "\<And>r. \<not> r_hasAccess r \<Longrightarrow> keeping m b (k r) (on_file m b)" "or_default i [] = m" "normalizeBuyerAddress x = b"
  shows "keeping m b (resolveEntitlement cfg i x pid hash k) (on_file m b)"
proof -
  have deny: "keeping m b (k (denied st src)) (on_file m b)"
    "keeping m b (k ((denied st src)\<lparr>r_settlementState := y\<rparr>)) (on_file m b)"
    "keeping m b (k ((denied st src)\<lparr>r_source := y\<rparr>)) (on_file m b)" for st src y
    by (auto intro: assms(1) simp: denied_def)
  have found: "keeping m b (resolve_found (\<lambda>_. k (denied Unavailable ''error'')) cfg m b pid hash (Some d) k) (on_file m b)"
    if "frozen m b d" "purchase_of (JStr m) b d" for d
    unfolding resolve_found_def resolve_purchase_def
    using that by (auto intro!: refunds.find_rule deny simp: frozen_def purchase_of_def)
  have "keeping m b (find_purchase (\<lambda>_. k (denied Unavailable ''purchases-db-error'')) m b
      (\<lambda>p. resolve_found (\<lambda>_. k (denied Unavailable ''error'')) cfg m b pid hash p k)) (on_file m b)"
    unfolding find_purchase_def
    by (rule refunds.found_rule) (use found deny in \<open>auto simp: purchase_of_def\<close>)
  then show ?thesis
    unfolding resolveEntitlement_def lookupBuyerSuspended_def Let_def assms(2,3)
    by (auto intro!: refunds.find_rule deny)
qed

lemma asked_rule:
  assumes "asks_for m b c"
  shows "keeping m b (access_handler ix c) (on_file m b)"
proof (cases c)
  case (Decide q)
  then show ?thesis using assms
    by (cases q) (auto intro!: refused_rule simp: asks_for_def refusal_def)
next
  case (Authorize mat x pid)
  then show ?thesis using assms
    by (cases mat) (auto simp: authorizeMaterialAccess_def asks_for_def bypasses_def refusal_def intro!: refused_rule)
next
  case (Require i x)
  then show ?thesis using assms
    by (auto simp: requireEntitlement_def verifyEntitlement_def asks_for_def refusal_def intro!: refused_rule)
qed (use assms in \<open>simp_all add: asks_for_def\<close>)

lemma spared_rule:
  assumes "spares m b c"
  shows "keeping m b (access_handler ix c) (on_file m b)"
proof (cases "asks_for m b c")
  case False
  have decision: "keeping m b (access_handler ix c) (on_file m b)" if "decides c"
  proof (cases "question_of c")
    case None
    then have "\<exists>x pid. c = Authorize None x pid" using that by (cases c) (auto elim: question_of.elims)
    then show ?thesis by (auto simp: authorizeMaterialAccess_def refusal_def)
  qed (use False in \<open>auto intro!: refunds.decision_rule simp: refusal_def\<close>)
  consider "decides c" | "harmless c" | ev where "c = Index ev" "\<not> reinstates m b ev" using assms by (cases c) auto
  then show ?thesis by cases (auto intro: decision refunds.harmless_rule refunds.index_rule simp del: access_handler.simps)
qed (rule asked_rule)

interpretation refunded: rely_guarantee same_key "docs_ok (frozen m b)"
  "lasting (query ''purchases'' (pair_key (JStr m) b)) (\<lambda>_ _. True)" "refusal m b" "on_file m b" "access_handler ix" "spares m b"
  for m b ix
proof
  fix s t
  show "on_file m b s \<Longrightarrow> lasting (query ''purchases'' (pair_key (JStr m) b)) (\<lambda>_ _. True) s t \<Longrightarrow> on_file m b t"
    by (rule present_lasts)
qed (auto intro: refunds.lasting_refl refunds.lasting_trans spared_rule)

text \<open>
  C6: A refunded purchase stays refunded. When the buyer's purchase of a material is on file with a
  settlement that revokes it, then in every interleaving of the following calls it stays on file and
  revoked, and every decision asked for that pair refuses, unless it is bypassed (an authorization for
  a material that the buyer owns or that is free), whatever the cache holds, whatever the chain
  answers and whichever calls fail. The calls: decisions, the list of a buyer's entitlements, cache
  entries created, invalidated and revoked, the health and dead-letter queries, the quarantine, and
  chain events applied one by one of which none completes a purchase of that material by that buyer
  or releases a purchase of that material. Not covered: indexer batches, rewinds, replays of dead
  letters and the recovery.
\<close>

theorem refunded_stays_revoked:
  assumes "documented_db same_key D" "\<forall>c \<in> begun moves. spares m b c"
    and "\<forall>d \<in> set s. names_purchase m b d \<longrightarrow> revoking (field_of d ''settlementState'')"
    and "\<exists>d \<in> set s. names_purchase m b d"
    and "w = run D (access_handler ix) moves (world_of s)"
  shows "(\<forall>res \<in> set (results w). \<forall>c. label_of res = Some c \<longrightarrow> asks_for m b c \<longrightarrow> grants res \<longrightarrow> bypassed c) \<and>
    (\<exists>d \<in> set (rows w). names_purchase m b d) \<and>
    (\<forall>d \<in> set (rows w). names_purchase m b d \<longrightarrow> revoking (field_of d ''settlementState''))"
proof -
  have ok: "docs_ok (frozen m b) s" "on_file m b s"
    using assms(3,4) by (auto simp: docs_ok_def frozen_def present_def names_purchase_def)
  have spared: "spares m b c" if "c \<in> begun moves" for c using that assms(2) by blast
  have kept: "docs_ok (frozen m b) (rows w)" "on_file m b (rows w)"
    using refunded.run_keeps(1,2) [OF assms(1) ok spared] present_lasts ok(2) unfolding assms(5) by blast+
  have "refusal m b res (rows w)" if "res \<in> set (results w)" for res
    using refunded.run_keeps(3) [OF assms(1) ok spared] that unfolding assms(5) by blast
  then show ?thesis using kept by (auto simp: refusal_def docs_ok_def frozen_def present_def names_purchase_def)
qed

definition pestering :: "(access_call, chain_answer answer) move list" where
  "pestering =
     [Begin (Create (Some ''m'') (Some ''b'') []), Turn 0 (Says (Time 50)), Turn 0 (Says (Id ''x'')), Turn 0 (Works 0), Turn 0 Fails,
      Begin sample_question, Turn 1 Fails, Turn 1 (Works 0), Turn 1 (Works 0), Turn 1 (Says (Time 60))]"

theorem refunded_stays_revoked_witness:
  "map grants (results (access_run pestering [sample_purchase ''Refunded''])) = [False, False] \<and>
   map label_of (results (access_run pestering [sample_purchase ''Refunded''])) = [None, Some sample_question] \<and>
   asks_for ''m'' ''b'' sample_question \<and>
   \<not> (\<exists>d \<in> set (rows (access_run pestering [sample_purchase ''Refunded''])). names_purchase ''m'' ''b'' d \<and>
     \<not> revoking (field_of d ''settlementState''))"
proof -
  let ?w = "access_run pestering [sample_purchase ''Refunded'']"
  have "map grants (results ?w) = [False, False]" "map label_of (results ?w) = [None, Some sample_question]" by code_simp+
  moreover have "asks_for ''m'' ''b'' sample_question" by code_simp
  moreover have "\<forall>c \<in> begun pestering. spares ''m'' ''b'' c" by (auto simp: begun_def pestering_def sample_question_def)
  moreover have "\<forall>d \<in> set [sample_purchase ''Refunded'']. names_purchase ''m'' ''b'' d \<longrightarrow> revoking (field_of d ''settlementState'')"
    "\<exists>d \<in> set [sample_purchase ''Refunded'']. names_purchase ''m'' ''b'' d" unfolding names_purchase_def by code_simp+
  ultimately show ?thesis using refunded_stays_revoked [OF mem_documented, of pestering "''m''" "''b''"] by blast
qed

definition completed_event :: document where
  "completed_event =
     [(''id'', JStr ''1''), (''network'', JStr ''Test''), (''type'', JStr ''purchase.completed''), (''materialId'', JStr ''m''),
      (''buyerAddress'', JStr ''B''), (''purchaseId'', JStr ''1''), (''transactionHash'', JStr ''t''), (''ledger'', JNum 4)]"

definition refused_question :: "(access_call, chain_answer answer) move list" where
  "refused_question = [Begin sample_question, Turn 0 (Works 0), Turn 0 (Works 0), Turn 0 (Works 0)]"

definition replayed :: "(access_call, chain_answer answer) move list" where
  "replayed = refused_question @
     [Begin (Index completed_event), Turn 1 (Says (Time 3)), Turn 1 (Works 0), Turn 1 (Says (Id ''x'')), Turn 1 (Works 0),
        Turn 1 (Says (Id ''y'')), Turn 1 (Works 0), Turn 1 (Works 0), Turn 1 (Says (Id ''o'')), Turn 1 (Works 0),
      Begin sample_question, Turn 2 (Works 0), Turn 2 (Works 0), Turn 2 (Works 0), Turn 2 (Says (Time 4)),
        Turn 2 Fails, Turn 2 (Says (Time 5)), Turn 2 (Says (Id ''z'')), Turn 2 (Works 0)]"

lemma replayed_results: "map grants (results (access_run replayed [sample_purchase ''Refunded''])) = [False, False, True]"
  by code_simp

lemma replayed_rows: "map (\<lambda>d. (coll d, field_of d ''settlementState'')) (rows (access_run replayed [sample_purchase ''Refunded'']))
     = [(''purchases'', Some (JStr ''Pending'')), (''sync_events'', None), (''entitlement_cache'', Some (JStr ''Pending'')),
        (''side_effect_outbox'', None)]"
  by code_simp

text \<open>
  The exception for completed purchases is needed: the handler of a completed purchase has no
  check for stale events, so when its event is applied again after the refund (from the dead
  letters, after a rewind, or by the recovery), although it is older than the refund on file, the
  purchase is pending and the cache finalized again; while the chain does not answer, the refunded
  buyer, refused before, is let in.
\<close>

theorem replayed_purchase_undoes_refund:
  "isStaleReplay (Some (sample_purchase ''Refunded'')) completed_event \<and>
   map grants (results (access_run replayed [sample_purchase ''Refunded''])) = [False, False, True] \<and>
   map (\<lambda>d. (coll d, field_of d ''settlementState'')) (rows (access_run replayed [sample_purchase ''Refunded'']))
     = [(''purchases'', Some (JStr ''Pending'')), (''sync_events'', None), (''entitlement_cache'', Some (JStr ''Pending'')),
        (''side_effect_outbox'', None)]"
proof -
  have "isStaleReplay (Some (sample_purchase ''Refunded'')) completed_event" by code_simp
  then show ?thesis using replayed_results replayed_rows by blast
qed

section \<open>The states of a purchase\<close>

text \<open>The states the contract knows, and the one of a purchase whose ledger was abandoned.\<close>

definition settlement_states :: "string list" where
  "settlement_states = valid_states @ [''Orphaned'']"

definition known_settlement :: "doc \<Rightarrow> bool" where
  "known_settlement d \<longleftrightarrow> coll d = ''purchases'' \<longrightarrow>
     field_of d ''settlementState'' = None \<or> (\<exists>st \<in> set settlement_states. field_of d ''settlementState'' = Some (JStr st))"

lemma known_states [simp]: "st \<in> {''Refunded'', ''Disputed'', ''Released'', ''Pending'', ''Orphaned''} \<Longrightarrow> st \<in> set settlement_states"
  by (auto simp: settlement_states_def valid_states_def)

lemma revoking_known: "revoking (Some v) \<Longrightarrow> \<exists>st \<in> set settlement_states. v = JStr st"
  by (auto simp: revoking_def REVOKING_SETTLEMENT_STATES_def settlement_states_def valid_states_def)

interpretation settling: access_contract known_settlement "\<lambda>_. False" "\<lambda>_ _. True" "\<lambda>_ _. True" "\<lambda>_. True" True
proof
  fix x :: applying and flt st extra
  assume "settles (a_event x) = Some (flt, st)" "beside extra"
  then show "docs_contract.allowed known_settlement (\<lambda>_. False) (\<lambda>_ _. True) (query ''purchases'' flt) (put (settlement_fields x st extra))"
    using settled_states [of "a_event x" flt st] by (auto simp: allowed_plain known_settlement_def settled_row)
qed (use revoking_known in \<open>auto simp: allowed_plain known_settlement_def field_put completed_row fresh_completed\<close>)

interpretation settled: rely_guarantee same_key "docs_ok known_settlement" "lasting (\<lambda>_. False) (\<lambda>_ _. True)" "\<lambda>_ _. True" "\<lambda>_. True"
  "access_handler ix" "\<lambda>_. True" for ix
  by unfold_locales (auto intro: settling.any_rule settling.lasting_refl settling.lasting_trans)

text \<open>
  C37: The settlement state of a purchase is always one of the five the contract knows, or
  \<open>Orphaned\<close>: no interleaving of any of the sixteen entry points, with events of any content, any
  answers of the chain and any failures, writes another value.
\<close>

theorem settlement_states_are_known:
  assumes "documented_db same_key D" "\<forall>d \<in> set s. known_settlement d"
    and "d \<in> set (rows (run D (access_handler ix) moves (world_of s)))"
  shows "known_settlement d"
  using settled.run_keeps(1) [OF assms(1), of s moves ix] assms(2,3) by (simp add: docs_ok_def)

theorem settlement_states_are_known_witness:
  "map (\<lambda>d. (coll d, field_of d ''settlementState'')) (rows (access_run replayed [sample_purchase ''Refunded'']))
     = [(''purchases'', Some (JStr ''Pending'')), (''sync_events'', None), (''entitlement_cache'', Some (JStr ''Pending'')),
        (''side_effect_outbox'', None)] \<and>
   \<not> (\<exists>d \<in> set (rows (access_run replayed [sample_purchase ''Refunded''])). \<not> known_settlement d)"
proof (intro conjI notI)
  have "field_of (sample_purchase ''Refunded'') ''settlementState'' = Some (JStr ''Refunded'')" by code_simp
  then have known: "\<forall>d \<in> set [sample_purchase ''Refunded'']. known_settlement d" by (simp add: known_settlement_def)
  assume "\<exists>d \<in> set (rows (access_run replayed [sample_purchase ''Refunded''])). \<not> known_settlement d"
  then show False using settlement_states_are_known [OF mem_documented known] by blast
qed (rule replayed_rows)

end
