(* ===== verification/CapabilityTokens.thy ===== *)
theory CapabilityTokens imports Json JsNumbers begin

text \<open>
  \<open>src/lib/auth/sensitiveCapabilityToken.js\<close>: signed, expiring capabilities for sensitive actions,
  and the store of consumed and revoked identifiers. JSON, base64url and the HMAC are the platform's:
  a \<open>codec\<close> stands for them. The time a caller passes and each time the store reads itself are
  apart (\<open>clocks\<close>); error texts and recorded times of consumption are kept only as far as the code
  reads them.
\<close>

section \<open>The platform\<close>

text \<open>\<open>from_json\<close> is \<open>JSON.parse\<close>, with no value when it throws; \<open>hmac text secret\<close> is in hex.\<close>

record codec =
  to_json :: "json \<Rightarrow> string"
  from_json :: "string \<Rightarrow> json option"
  to_base64url :: "string \<Rightarrow> string"
  from_base64url :: "string \<Rightarrow> string"
  hmac :: "string \<Rightarrow> string \<Rightarrow> string"

text \<open>\<open>Buffer.from(s, 'hex')\<close> stops at the first pair that is not hexadecimal.\<close>

fun hex_bytes :: "string \<Rightarrow> nat list" where
  "hex_bytes (a # b # s) =
     (case (hex_digit a, hex_digit b) of
        (Some x, Some y) \<Rightarrow> (16 * x + y) # hex_bytes s
      | _ \<Rightarrow> [])"
| "hex_bytes _ = []"

definition constantTimeCompare :: "string \<Rightarrow> string \<Rightarrow> bool" where
  "constantTimeCompare expected received \<longleftrightarrow> hex_bytes expected = hex_bytes received"

definition signPayload :: "codec \<Rightarrow> string \<Rightarrow> string \<Rightarrow> string" where
  "signPayload C payloadJson secret = hmac C payloadJson secret"

text \<open>The secret: the caller's, else the first of the environment that is set.\<close>

definition getCapabilitySecret :: "string option \<Rightarrow> string option list \<Rightarrow> string" where
  "getCapabilitySecret custom env =
     (case filter truthy (custom # env) of
        Some s # _ \<Rightarrow> s
      | _ \<Rightarrow> ''development-capability-secret-key-change-in-production'')"

section \<open>The store\<close>

record nonce_entry =
  n_exp :: rat
  n_at :: rat
  n_reason :: string

record nonce_store =
  consumedNonces :: "(json option \<times> nonce_entry) list"
  revokedNonces :: "(json option \<times> nonce_entry) list"

definition clear_store :: nonce_store where
  "clear_store = \<lparr>consumedNonces = [], revokedNonces = []\<rparr>"

definition unexpired :: "rat \<Rightarrow> (json option \<times> nonce_entry) list \<Rightarrow> (json option \<times> nonce_entry) list" where
  "unexpired now = filter (\<lambda>e. \<not> n_exp (snd e) < now)"

definition prune :: "rat \<Rightarrow> nonce_store \<Rightarrow> nonce_store" where
  "prune now s = \<lparr>consumedNonces = unexpired now (consumedNonces s), revokedNonces = unexpired now (revokedNonces s)\<rparr>"

definition consume_nonce :: "nat \<Rightarrow> json option \<Rightarrow> rat \<Rightarrow> rat \<Rightarrow> nonce_store \<Rightarrow> nonce_store" where
  "consume_nonce maxEntries jti expiry clk s =
     (let s1 = (if maxEntries \<le> length (consumedNonces s) then prune clk s else s) in
      s1\<lparr>consumedNonces := AList.update jti \<lparr>n_exp = expiry, n_at = clk, n_reason = ''consumed''\<rparr> (consumedNonces s1)\<rparr>)"

definition is_consumed :: "json option \<Rightarrow> rat \<Rightarrow> nonce_store \<Rightarrow> bool \<times> nonce_store" where
  "is_consumed jti clk s =
     (case map_of (consumedNonces s) jti of
        None \<Rightarrow> (False, s)
      | Some e \<Rightarrow>
          if n_exp e < clk then (False, s\<lparr>consumedNonces := AList.delete jti (consumedNonces s)\<rparr>) else (True, s))"

definition revoke_nonce :: "nat \<Rightarrow> json option \<Rightarrow> rat \<Rightarrow> string \<Rightarrow> rat \<Rightarrow> nonce_store \<Rightarrow> nonce_store" where
  "revoke_nonce maxEntries jti expiry reason clk s =
     (let s1 = (if maxEntries \<le> length (revokedNonces s) then prune clk s else s) in
      s1\<lparr>revokedNonces := AList.update jti \<lparr>n_exp = expiry, n_at = clk, n_reason = reason\<rparr> (revokedNonces s1)\<rparr>)"

definition is_revoked :: "json option \<Rightarrow> rat \<Rightarrow> nonce_store \<Rightarrow> bool \<times> nonce_store" where
  "is_revoked jti clk s =
     (case map_of (revokedNonces s) jti of
        None \<Rightarrow> (False, s)
      | Some e \<Rightarrow>
          if n_exp e < clk then (False, s\<lparr>revokedNonces := AList.delete jti (revokedNonces s)\<rparr>) else (True, s))"

text \<open>What the functions below use of a store; identifiers are as the payload has them.\<close>

record 's nonce_ops =
  op_consume :: "json option \<Rightarrow> rat \<Rightarrow> rat \<Rightarrow> 's \<Rightarrow> 's"
  op_isConsumed :: "json option \<Rightarrow> rat \<Rightarrow> 's \<Rightarrow> bool \<times> 's"
  op_revoke :: "json option \<Rightarrow> rat \<Rightarrow> string \<Rightarrow> rat \<Rightarrow> 's \<Rightarrow> 's"
  op_isRevoked :: "json option \<Rightarrow> rat \<Rightarrow> 's \<Rightarrow> bool \<times> 's"

definition createCapabilityNonceStore :: "nat \<Rightarrow> nonce_store nonce_ops" where
  "createCapabilityNonceStore maxEntries =
     \<lparr>op_consume = consume_nonce maxEntries, op_isConsumed = is_consumed,
      op_revoke = revoke_nonce maxEntries, op_isRevoked = is_revoked\<rparr>"

section \<open>Tokens\<close>

definition DEFAULT_CAPABILITY_TTL_MS :: rat where "DEFAULT_CAPABILITY_TTL_MS = 5 * 60 * 1000"
definition MAX_CAPABILITY_TTL_MS :: rat where "MAX_CAPABILITY_TTL_MS = 60 * 60 * 1000"
definition MIN_CAPABILITY_TTL_MS :: rat where "MIN_CAPABILITY_TTL_MS = 5 * 1000"

datatype token_error = Actor_required | Action_required | Target_required

text \<open>What is asked for, as the caller passes it; the identifier and the nonce when it gives them.\<close>

record token_request =
  q_actor :: "json option"
  q_action :: "json option"
  q_target :: "json option"
  q_constraints :: "json option"
  q_ttlMs :: "jsnum option"
  q_singleUse :: "json option"
  q_jti :: "string option"
  q_nonce :: "string option"
  q_iat :: "rat option"

definition bounded_ttl :: "jsnum option \<Rightarrow> rat" where
  "bounded_ttl ttl =
     (case (case ttl of None \<Rightarrow> Fin DEFAULT_CAPABILITY_TTL_MS | Some t \<Rightarrow> t) of
        Fin r \<Rightarrow> max MIN_CAPABILITY_TTL_MS (min MAX_CAPABILITY_TTL_MS (if r = 0 then DEFAULT_CAPABILITY_TTL_MS else r))
      | PInf \<Rightarrow> MAX_CAPABILITY_TTL_MS
      | NInf \<Rightarrow> MIN_CAPABILITY_TTL_MS
      | NaN \<Rightarrow> DEFAULT_CAPABILITY_TTL_MS)"

definition object_or_empty :: "json option \<Rightarrow> json" where
  "object_or_empty v = (case v of Some (JObj m) \<Rightarrow> JObj m | Some (JArr xs) \<Rightarrow> JArr xs | Some (JDate t) \<Rightarrow> JDate t | _ \<Rightarrow> JObj [])"

definition token_payload :: "token_request \<Rightarrow> string \<Rightarrow> string \<Rightarrow> string \<Rightarrow> rat \<Rightarrow> string \<Rightarrow> string \<Rightarrow> document" where
  "token_payload q actor action target clk freshJti freshNonce =
     (let issuedAtMs = (case q_iat q of Some t \<Rightarrow> t | None \<Rightarrow> clk) in
      [(''v'', JNum 1), (''jti'', JStr (or_default (q_jti q) freshJti)), (''actor'', JStr (js_trim actor)),
       (''action'', JStr (js_trim action)), (''target'', JStr (js_trim target)),
       (''constraints'', object_or_empty (q_constraints q)),
       (''singleUse'', JBool (q_singleUse q = None \<or> js_true (q_singleUse q))),
       (''nonce'', JStr (or_default (q_nonce q) freshNonce)), (''iat'', JNum issuedAtMs),
       (''exp'', JNum (issuedAtMs + bounded_ttl (q_ttlMs q)))])"

definition sealed :: "codec \<Rightarrow> string \<Rightarrow> document \<Rightarrow> string" where
  "sealed C secret p =
     (let payloadJson = to_json C (JObj p) in
      to_base64url C (to_json C (JObj [(''payload'', JStr payloadJson), (''signature'', JStr (signPayload C payloadJson secret))])))"

definition generateSensitiveCapabilityToken :: "codec \<Rightarrow> string \<Rightarrow> token_request \<Rightarrow> rat \<Rightarrow> string \<Rightarrow> string \<Rightarrow>
    token_error + string \<times> document" where
  "generateSensitiveCapabilityToken C secret q clk freshJti freshNonce =
     (case as_str (q_actor q) of
        None \<Rightarrow> Inl Actor_required
      | Some actor \<Rightarrow> if actor = [] then Inl Actor_required else
     (case as_str (q_action q) of
        None \<Rightarrow> Inl Action_required
      | Some action \<Rightarrow> if action = [] then Inl Action_required else
     (case as_str (q_target q) of
        None \<Rightarrow> Inl Target_required
      | Some target \<Rightarrow> if target = [] then Inl Target_required else
          (let p = token_payload q actor action target clk freshJti freshNonce in Inr (sealed C secret p, p)))))"

section \<open>Verification\<close>

text \<open>\<open>Throws\<close>: a property of a value that has none was read.\<close>

datatype verdict =
    Valid document rat
  | Rejected (v_code: string) (v_status: nat) (v_retryable: bool) (v_supportAction: string)
  | Throws

abbreviation "not_authentic \<equiv> Rejected ''EVT_AUTH_002'' 401 False ''none''"
abbreviation "not_meant \<equiv> Rejected ''EVT_AUTH_004'' 403 False ''none''"
abbreviation "over_limit \<equiv> Rejected ''EVT_INPUT_002'' 403 False ''none''"

definition own_fields :: "json option \<Rightarrow> document" where
  "own_fields v = (case v of Some (JObj m) \<Rightarrow> m | _ \<Rightarrow> [])"

text \<open>The payload of a token with a good signature.\<close>

definition signed_payload :: "codec \<Rightarrow> string \<Rightarrow> string \<Rightarrow> verdict + json" where
  "signed_payload C secret token =
     (if token = [] then Inl (Rejected ''EVT_AUTH_001'' 401 False ''none'')
      else case from_json C (from_base64url C token) of
        None \<Rightarrow> Inl not_authentic
      | Some envelope \<Rightarrow>
          (case (map_of (own_fields (Some envelope)) ''payload'', map_of (own_fields (Some envelope)) ''signature'') of
             (Some (JStr payloadJson), Some (JStr signature)) \<Rightarrow>
               if \<not> constantTimeCompare (signPayload C payloadJson secret) signature then Inl not_authentic
               else (case from_json C payloadJson of None \<Rightarrow> Inl not_authentic | Some payload \<Rightarrow> Inr payload)
           | _ \<Rightarrow> Inl not_authentic))"

record expectation =
  expectedActor :: "string option"
  expectedAction :: "string option"
  expectedTarget :: "string option"
  given_constraints :: "document option"
  consuming :: bool

definition expired_or_early :: "document \<Rightarrow> rat \<Rightarrow> verdict option" where
  "expired_or_early p now =
     (case map_of p ''exp'' of
        Some (JNum expiry) \<Rightarrow>
          if expiry \<le> now then Some (Rejected ''EVT_AUTH_003'' 401 True ''refresh_capability'')
          else (case map_of p ''iat'' of
            Some (JNum iat) \<Rightarrow> if iat > now + 60000 then Some not_authentic else None
          | _ \<Rightarrow> Some not_authentic)
      | _ \<Rightarrow> Some (Rejected ''EVT_AUTH_003'' 401 True ''refresh_capability''))"

definition differs_from :: "document \<Rightarrow> string \<Rightarrow> string option \<Rightarrow> bool" where
  "differs_from p k expected \<longleftrightarrow> (case expected of Some e \<Rightarrow> map_of p k \<noteq> Some (JStr (js_trim e)) | None \<Rightarrow> False)"

definition misdirected :: "expectation \<Rightarrow> document \<Rightarrow> bool" where
  "misdirected x p \<longleftrightarrow>
     differs_from p ''actor'' (expectedActor x) \<or> differs_from p ''action'' (expectedAction x) \<or>
     map_of p ''target'' \<noteq> Some (JStr ''*'') \<and> differs_from p ''target'' (expectedTarget x)"

text \<open>\<open>Number(v)\<close>; a list or a date is not modelled as an amount.\<close>

definition to_number :: "json \<Rightarrow> jsnum" where
  "to_number v = (case v of JNum r \<Rightarrow> Fin r | JStr s \<Rightarrow> js_number s | JBool b \<Rightarrow> Fin (if b then 1 else 0) | JNull \<Rightarrow> Fin 0 | _ \<Rightarrow> NaN)"

definition exceeds :: "json option \<Rightarrow> json option \<Rightarrow> bool" where
  "exceeds limit asked = (case (limit, asked) of (Some l, Some a) \<Rightarrow> js_lt (to_number l) (to_number a) | _ \<Rightarrow> False)"

text \<open>The first constraint that is broken; a currency that is no string throws.\<close>

definition broken_constraint :: "document \<Rightarrow> document option \<Rightarrow> verdict option" where
  "broken_constraint p asked =
     (case asked of
        None \<Rightarrow> None
      | Some c \<Rightarrow>
          (let t = own_fields (map_of p ''constraints'');
               bytes = (if exceeds (map_of t ''byteRangeQuota'') (map_of c ''requestedBytes'')
                        then Some (Rejected ''EVT_DOWNLOAD_004'' 403 False ''none'') else None) in
           if exceeds (map_of t ''maxAmount'') (map_of c ''amount'') then Some over_limit
           else if js_true (map_of t ''currency'') \<and> js_true (map_of c ''currency'') then
             (case (as_str (map_of t ''currency''), as_str (map_of c ''currency'')) of
                (Some a, Some b) \<Rightarrow> if js_upper a \<noteq> js_upper b then Some over_limit else bytes
              | _ \<Rightarrow> Some Throws)
           else bytes))"

definition failed_claim :: "expectation \<Rightarrow> rat \<Rightarrow> document \<Rightarrow> verdict option" where
  "failed_claim x now p =
     (case expired_or_early p now of
        Some r \<Rightarrow> Some r
      | None \<Rightarrow> if misdirected x p then Some not_meant else broken_constraint p (given_constraints x))"

definition expiry_of :: "document \<Rightarrow> rat" where
  "expiry_of p = (case map_of p ''exp'' of Some (JNum r) \<Rightarrow> r | _ \<Rightarrow> 0)"

text \<open>
  The times a verification sees: the caller's \<open>now\<close>, by default read on entry, and what the store
  reads from its own clock in \<open>isRevoked\<close>, \<open>isConsumed\<close> and \<open>consume\<close>.
\<close>

record clocks =
  at_now :: rat
  at_isRevoked :: rat
  at_isConsumed :: rat
  at_consume :: rat

text \<open>The checks of a payload whose signature is good.\<close>

definition verify_payload :: "'s nonce_ops \<Rightarrow> expectation \<Rightarrow> clocks \<Rightarrow> document \<Rightarrow> 's \<Rightarrow> verdict \<times> 's" where
  "verify_payload ops x k p s =
     (case op_isRevoked ops (map_of p ''jti'') (at_isRevoked k) s of
        (True, s1) \<Rightarrow> (not_authentic, s1)
      | (False, s1) \<Rightarrow>
          (case failed_claim x (at_now k) p of
             Some r \<Rightarrow> (r, s1)
           | None \<Rightarrow>
               if js_true (map_of p ''singleUse'') then
                 (case op_isConsumed ops (map_of p ''jti'') (at_isConsumed k) s1 of
                    (True, s2) \<Rightarrow> (Rejected ''EVT_AUTH_002'' 409 False ''none'', s2)
                  | (False, s2) \<Rightarrow> (Valid p (max 0 (expiry_of p - at_now k)),
                      if consuming x then op_consume ops (map_of p ''jti'') (expiry_of p) (at_consume k) s2 else s2))
               else (Valid p (max 0 (expiry_of p - at_now k)), s1)))"

definition verifySensitiveCapabilityToken :: "'s nonce_ops \<Rightarrow> codec \<Rightarrow> string \<Rightarrow> expectation \<Rightarrow> clocks \<Rightarrow> string \<Rightarrow> 's \<Rightarrow> verdict \<times> 's" where
  "verifySensitiveCapabilityToken ops C secret x k token s =
     (case signed_payload C secret token of
        Inl r \<Rightarrow> (r, s)
      | Inr payload \<Rightarrow> if payload = JNull then (Throws, s) else verify_payload ops x k (own_fields (Some payload)) s)"

definition consumeSensitiveCapabilityToken :: "'s nonce_ops \<Rightarrow> codec \<Rightarrow> string \<Rightarrow> expectation \<Rightarrow> clocks \<Rightarrow> string \<Rightarrow> 's \<Rightarrow> verdict \<times> 's" where
  "consumeSensitiveCapabilityToken ops C secret x k token s =
     verifySensitiveCapabilityToken ops C secret (x\<lparr>consuming := True\<rparr>) k token s"

text \<open>A long string is taken for a token and its identifier is read, without checking the signature.\<close>

definition revoked_id :: "codec \<Rightarrow> string \<Rightarrow> json option" where
  "revoked_id C t =
     (if length t > 50 then
        (case from_json C (from_base64url C t) of
           None \<Rightarrow> Some (JStr t)
         | Some envelope \<Rightarrow>
             (case map_of (own_fields (Some envelope)) ''payload'' of
                Some (JStr payloadJson) \<Rightarrow>
                  (case from_json C payloadJson of
                     None \<Rightarrow> Some (JStr t)
                   | Some JNull \<Rightarrow> Some (JStr t)
                   | Some payload \<Rightarrow> map_of (own_fields (Some payload)) ''jti'')
              | Some (JNum r) \<Rightarrow> None
              | Some (JBool b) \<Rightarrow> None
              | _ \<Rightarrow> Some (JStr t)))
      else Some (JStr t))"

text \<open>\<open>now\<close> is read for the expiry of the entry, \<open>clk\<close> by the store.\<close>

definition revokeSensitiveCapabilityToken :: "'s nonce_ops \<Rightarrow> codec \<Rightarrow> string \<Rightarrow> string \<Rightarrow> rat \<Rightarrow> rat \<Rightarrow> 's \<Rightarrow> 's" where
  "revokeSensitiveCapabilityToken ops C t reason now clk s =
     op_revoke ops (revoked_id C t) (now + DEFAULT_CAPABILITY_TTL_MS) reason clk s"

section \<open>Issuing\<close>

datatype issue_result =
    Issued string document rat
  | Refused string nat
  | Issue_error token_error

definition requester_id :: "document \<Rightarrow> json option" where
  "requester_id r =
     (if js_true (map_of r ''id'') then map_of r ''id''
      else if js_true (map_of r ''userAddress'') then map_of r ''userAddress'' else map_of r ''userId'')"

definition role_of :: "document \<Rightarrow> json" where
  "role_of r = (if js_true (map_of r ''role'') then or_null (map_of r ''role'') else JStr ''learner'')"

definition action_refused :: "document \<Rightarrow> string \<Rightarrow> json option \<Rightarrow> bool" where
  "action_refused r action owner \<longleftrightarrow>
     (let admin = (role_of r = JStr ''admin'') in
      if action = ''payout:request'' then role_of r \<noteq> JStr ''creator'' \<and> \<not> admin
      else if action \<in> {''payout:settle'', ''quarantine:override'', ''role:escalate''} then \<not> admin
      else if action \<in> {''material:delete'', ''material:archive''}
      then \<not> admin \<and> js_true owner \<and> owner \<noteq> requester_id r
      else if action = ''maintainer:elevated_confirmation'' then \<not> js_true (map_of r ''isMaintainer'') \<and> \<not> admin
      else False)"

definition issueSensitiveCapability :: "codec \<Rightarrow> string \<Rightarrow> document option \<Rightarrow> string \<Rightarrow> json option \<Rightarrow> json option \<Rightarrow> json option \<Rightarrow>
    jsnum option \<Rightarrow> rat \<Rightarrow> string \<Rightarrow> string \<Rightarrow> issue_result" where
  "issueSensitiveCapability C secret requester action target owner constraints ttl clk freshJti freshNonce =
     (case requester of
        None \<Rightarrow> Refused ''EVT_AUTH_001'' 401
      | Some r \<Rightarrow>
          if action_refused r action owner then Refused ''EVT_AUTH_004'' 403
          else (case generateSensitiveCapabilityToken C secret
              \<lparr>q_actor = requester_id r, q_action = Some (JStr action), q_target = target, q_constraints = constraints,
               q_ttlMs = ttl, q_singleUse = None, q_jti = None, q_nonce = None, q_iat = None\<rparr> clk freshJti freshNonce of
            Inl e \<Rightarrow> Issue_error e
          | Inr (token, p) \<Rightarrow> Issued token p (bounded_ttl ttl)))"

end
