(* ===== verification/CapabilitySafety.thy ===== *)
theory CapabilitySafety imports CapabilityTokens begin

text \<open>
  The store of identifiers as an interface: the locale \<open>nonce_contract\<close> states what the verifier may
  rely on, relative to a reference store that keeps every consumed identifier and lets a revocation
  lapse at its recorded expiry, and proves that a verifier over it answers as over that store. Its
  interpretation is the store of the code, which also forgets what expired. The verifier's \<open>now\<close> and
  the store's clock are apart; where they differ at the end of a token, a replay gets through
  (\<open>replay_between_the_clocks\<close>).
\<close>

section \<open>The reference store\<close>

record ideal_store =
  used :: "json option list"
  withdrawn :: "(json option \<times> rat) list"

definition ideal_ops :: "ideal_store nonce_ops" where
  "ideal_ops =
     \<lparr>op_consume = (\<lambda>j expiry clk i. i\<lparr>used := j # used i\<rparr>),
      op_isConsumed = (\<lambda>j clk i. (j \<in> set (used i), i)),
      op_revoke = (\<lambda>j expiry reason clk i. i\<lparr>withdrawn := (j, expiry) # withdrawn i\<rparr>),
      op_isRevoked = (\<lambda>j clk i. ((case map_of (withdrawn i) j of Some e \<Rightarrow> clk \<le> e | None \<Rightarrow> False), i))\<rparr>"

definition nothing_used :: ideal_store where
  "nothing_used = \<lparr>used = [], withdrawn = []\<rparr>"

section \<open>The contract\<close>

text \<open>
  \<open>rel t s i\<close>: at time \<open>t\<close> the store \<open>s\<close> stands for \<open>i\<close>. \<open>E\<close> is the expiry of the token with an
  identifier: a store may forget a consumed identifier once its token has expired.
\<close>

locale nonce_contract =
  fixes ops :: "'s nonce_ops"
    and E :: "json option \<Rightarrow> rat"
    and rel :: "rat \<Rightarrow> 's \<Rightarrow> ideal_store \<Rightarrow> bool"
  assumes revoked_law: "rel t s i \<Longrightarrow> t \<le> clk \<Longrightarrow> op_isRevoked ops j clk s = (b, s') \<Longrightarrow>
      b = fst (op_isRevoked ideal_ops j clk i) \<and> rel clk s' i"
    and consumed_law: "rel t s i \<Longrightarrow> t \<le> clk \<Longrightarrow> clk \<le> E j \<Longrightarrow> op_isConsumed ops j clk s = (b, s') \<Longrightarrow>
      b = (j \<in> set (used i)) \<and> rel clk s' i"
    and consume_law: "rel t s i \<Longrightarrow> t \<le> clk \<Longrightarrow> rel clk (op_consume ops j (E j) clk s) (i\<lparr>used := j # used i\<rparr>)"
    and revoke_law: "rel t s i \<Longrightarrow> t \<le> clk \<Longrightarrow>
      rel clk (op_revoke ops j expiry reason clk s) (i\<lparr>withdrawn := (j, expiry) # withdrawn i\<rparr>)"
    and wait_law: "rel t s i \<Longrightarrow> t \<le> clk \<Longrightarrow> rel clk s i"
begin

lemma payload_refines:
  assumes "rel t s i" "t \<le> at_isRevoked k" "at_isRevoked k \<le> at_isConsumed k" "at_isConsumed k \<le> at_consume k"
    and "expired_or_early p (at_now k) = None \<Longrightarrow>
      map_of p ''exp'' = Some (JNum (E (map_of p ''jti''))) \<and> at_isConsumed k \<le> E (map_of p ''jti'')"
  shows "fst (verify_payload ops x k p s) = fst (verify_payload ideal_ops x k p i) \<and>
    rel (at_consume k) (snd (verify_payload ops x k p s)) (snd (verify_payload ideal_ops x k p i))"
proof -
  let ?j = "map_of p ''jti''"
  obtain b s1 where b: "op_isRevoked ops ?j (at_isRevoked k) s = (b, s1)" by (cases "op_isRevoked ops ?j (at_isRevoked k) s")
  have ideal: "op_isRevoked ideal_ops ?j (at_isRevoked k) i = (b, i)" and s1: "rel (at_isRevoked k) s1 i"
    using revoked_law [OF assms(1,2) b] by (auto simp: ideal_ops_def)
  have kept: "rel (at_consume k) s1 i" using wait_law [OF s1] assms(3,4) by auto
  show ?thesis
  proof (cases "b \<or> failed_claim x (at_now k) p \<noteq> None \<or> \<not> js_true (map_of p ''singleUse'')")
    case True
    then show ?thesis using kept by (cases b) (auto simp: verify_payload_def b ideal split: option.splits)
  next
    case go: False
    then have live: "expired_or_early p (at_now k) = None" by (auto simp: failed_claim_def split: option.splits)
    then have e: "expiry_of p = E ?j" "at_isConsumed k \<le> E ?j" using assms(5) by (auto simp: expiry_of_def)
    obtain c s2 where c: "op_isConsumed ops ?j (at_isConsumed k) s1 = (c, s2)" by (cases "op_isConsumed ops ?j (at_isConsumed k) s1")
    have c': "c = (?j \<in> set (used i))" "rel (at_isConsumed k) s2 i" using consumed_law [OF s1 assms(3) e(2) c] by auto
    have ideal_c: "op_isConsumed ideal_ops ?j (at_isConsumed k) i = (c, i)" by (simp add: ideal_ops_def c'(1))
    have ideal_u: "op_consume ideal_ops ?j (E ?j) (at_consume k) i = i\<lparr>used := ?j # used i\<rparr>" by (simp add: ideal_ops_def)
    show ?thesis
      using go wait_law [OF c'(2) assms(4)] consume_law [OF c'(2) assms(4), of ?j]
      by (cases b; cases c) (simp_all add: verify_payload_def b ideal c ideal_c e(1) ideal_u)
  qed
qed

lemma verify_refines:
  assumes "rel t s i" "t \<le> at_isRevoked k" "at_isRevoked k \<le> at_isConsumed k" "at_isConsumed k \<le> at_consume k"
    and "\<And>p. signed_payload C secret token = Inr (JObj p) \<Longrightarrow> map_of p ''exp'' = Some (JNum (E (map_of p ''jti''))) \<and>
      (at_now k < E (map_of p ''jti'') \<longrightarrow> at_isConsumed k \<le> E (map_of p ''jti''))"
  shows "fst (verifySensitiveCapabilityToken ops C secret x k token s)
      = fst (verifySensitiveCapabilityToken ideal_ops C secret x k token i) \<and>
    rel (at_consume k) (snd (verifySensitiveCapabilityToken ops C secret x k token s))
      (snd (verifySensitiveCapabilityToken ideal_ops C secret x k token i))"
proof -
  have "map_of (own_fields (Some v)) ''exp'' = Some (JNum (E (map_of (own_fields (Some v)) ''jti''))) \<and>
      at_isConsumed k \<le> E (map_of (own_fields (Some v)) ''jti'')"
    if "signed_payload C secret token = Inr v" "expired_or_early (own_fields (Some v)) (at_now k) = None" for v
    using that assms(5) by (cases v) (auto simp: own_fields_def expired_or_early_def split: if_splits)
  moreover have "rel (at_consume k) s i" using wait_law [OF assms(1)] assms(2-4) by auto
  ultimately show ?thesis using payload_refines [OF assms(1-4)]
    by (auto simp: verifySensitiveCapabilityToken_def split: sum.split)
qed

end

section \<open>The store of the code\<close>

text \<open>What is kept of one of its two maps: entries as recorded, forgotten only after they expire.\<close>

definition remembers :: "rat \<Rightarrow> (json option \<times> nonce_entry) list \<Rightarrow> (json option \<Rightarrow> rat option) \<Rightarrow> bool" where
  "remembers t m f \<longleftrightarrow> (\<forall>j e. map_of m j = Some e \<longrightarrow> f j = Some (n_exp e)) \<and>
     (\<forall>j x. f j = Some x \<longrightarrow> map_of m j = None \<longrightarrow> x < t)"

definition stands_for :: "(json option \<Rightarrow> rat) \<Rightarrow> rat \<Rightarrow> nonce_store \<Rightarrow> ideal_store \<Rightarrow> bool" where
  "stands_for E t s i \<longleftrightarrow>
     distinct (keys (consumedNonces s)) \<and> distinct (keys (revokedNonces s)) \<and>
     remembers t (consumedNonces s) (\<lambda>j. if j \<in> set (used i) then Some (E j) else None) \<and>
     remembers t (revokedNonces s) (map_of (withdrawn i))"

lemma remembersD:
  assumes "remembers t m f"
  shows "map_of m j = Some e \<Longrightarrow> f j = Some (n_exp e)" "map_of m j = None \<Longrightarrow> f j = Some x \<Longrightarrow> x < t"
  using assms by (auto simp: remembers_def)

lemma remembers_later: "remembers t m f \<Longrightarrow> t \<le> u \<Longrightarrow> remembers u m f"
  unfolding remembers_def by (meson order_less_le_trans)

lemma remembers_update: "remembers t m f \<Longrightarrow> remembers t (AList.update j e m) (f(j := Some (n_exp e)))"
  unfolding remembers_def by (simp add: update_conv')

lemma remembers_delete: "remembers t m f \<Longrightarrow> map_of m j = Some e \<Longrightarrow> n_exp e < t \<Longrightarrow> remembers t (AList.delete j m) f"
  unfolding remembers_def delete_conv' by (metis fun_upd_apply option.distinct(1) option.sel)

lemma unexpired_lookup:
  assumes "distinct (keys m)"
  shows "map_of (unexpired t m) j = (case map_of m j of Some e \<Rightarrow> if n_exp e < t then None else Some e | None \<Rightarrow> None)"
  using assms
proof (induction m)
  case (Cons e m)
  have "map_of m j = None" if "j = fst e" using Cons.prems that by (cases e) (auto simp: map_of_eq_None_iff)
  then show ?case using Cons by (cases e) (auto simp: unexpired_def split: option.splits)
qed (simp add: unexpired_def)

lemma unexpired_distinct: "distinct (keys m) \<Longrightarrow> distinct (keys (unexpired t m))"
  by (simp add: unexpired_def distinct_map_filter)

lemma remembers_unexpired:
  assumes "remembers t m f" "distinct (keys m)"
  shows "remembers t (unexpired t m) f"
proof -
  have "f j = Some (n_exp e)" if "map_of (unexpired t m) j = Some e" for j e
    using that assms(1) unfolding unexpired_lookup [OF assms(2)] remembers_def by (auto split: option.splits if_splits)
  moreover have "x < t" if "f j = Some x" "map_of (unexpired t m) j = None" for j x
    using that assms(1) unfolding unexpired_lookup [OF assms(2)] remembers_def
    by (cases "map_of m j") (auto split: if_splits)
  ultimately show ?thesis by (simp add: remembers_def)
qed

lemma stands_later: "stands_for E t s i \<Longrightarrow> t \<le> u \<Longrightarrow> stands_for E u s i"
  using remembers_later by (auto simp: stands_for_def)

lemma stands_pruned: "stands_for E t s i \<Longrightarrow> stands_for E t (prune t s) i"
  by (simp add: stands_for_def prune_def remembers_unexpired unexpired_distinct)

interpretation forgetful: nonce_contract "createCapabilityNonceStore n" E "stands_for E" for n E
proof
  fix t s i clk j b s'
  assume r: "stands_for E t s i" "t \<le> clk" "op_isRevoked (createCapabilityNonceStore n) j clk s = (b, s')"
  have s: "stands_for E clk s i" using r(1,2) by (rule stands_later)
  then have lookup: "case map_of (revokedNonces s) j of Some e \<Rightarrow> map_of (withdrawn i) j = Some (n_exp e)
      | None \<Rightarrow> (\<forall>x. map_of (withdrawn i) j = Some x \<longrightarrow> x < clk)"
    unfolding stands_for_def remembers_def by (auto split: option.splits)
  show "b = fst (op_isRevoked ideal_ops j clk i) \<and> stands_for E clk s' i"
    using r(3) s lookup remembers_delete [of clk "revokedNonces s"]
    by (auto simp: createCapabilityNonceStore_def is_revoked_def ideal_ops_def stands_for_def distinct_delete split: option.splits if_splits)
next
  fix t s i clk j b s'
  assume r: "stands_for E t s i" "t \<le> clk" "clk \<le> E j" "op_isConsumed (createCapabilityNonceStore n) j clk s = (b, s')"
  have s: "stands_for E clk s i" using r(1,2) by (rule stands_later)
  then have lookup: "case map_of (consumedNonces s) j of Some e \<Rightarrow> j \<in> set (used i) \<and> n_exp e = E j
      | None \<Rightarrow> j \<in> set (used i) \<longrightarrow> E j < clk"
    using remembersD [of clk "consumedNonces s" "\<lambda>j. if j \<in> set (used i) then Some (E j) else None" j]
    unfolding stands_for_def by (cases "map_of (consumedNonces s) j") (auto split: if_splits)
  show "b = (j \<in> set (used i)) \<and> stands_for E clk s' i"
    using r(3,4) s lookup by (auto simp: createCapabilityNonceStore_def is_consumed_def split: option.splits if_splits)
next
  fix t s i clk j
  assume r: "stands_for E t s i" "t \<le> clk"
  have f: "(\<lambda>k. if k \<in> set (j # used i) then Some (E k) else None) = (\<lambda>k. if k \<in> set (used i) then Some (E k) else None)(j := Some (E j))"
    by (auto simp: fun_eq_iff)
  show "stands_for E clk (op_consume (createCapabilityNonceStore n) j (E j) clk s) (i\<lparr>used := j # used i\<rparr>)"
    using stands_later [OF r] stands_pruned [OF stands_later [OF r]]
    by (auto simp: createCapabilityNonceStore_def consume_nonce_def stands_for_def Let_def f distinct_update simp del: list.set
        intro!: remembers_update [where e = "\<lparr>n_exp = E j, n_at = clk, n_reason = ''consumed''\<rparr>", simplified])
next
  fix t s i clk j expiry reason
  assume r: "stands_for E t s i" "t \<le> clk"
  have f: "map_of ((j, expiry) # withdrawn i) = (map_of (withdrawn i))(j := Some expiry)" by simp
  show "stands_for E clk (op_revoke (createCapabilityNonceStore n) j expiry reason clk s) (i\<lparr>withdrawn := (j, expiry) # withdrawn i\<rparr>)"
    using stands_later [OF r] stands_pruned [OF stands_later [OF r]]
    by (auto simp: createCapabilityNonceStore_def revoke_nonce_def stands_for_def Let_def f distinct_update simp del: map_of.simps
        intro!: remembers_update [where e = "\<lparr>n_exp = expiry, n_at = clk, n_reason = reason\<rparr>", simplified])
qed (rule stands_later)

section \<open>Runs\<close>

text \<open>Tokens presented, and tokens or identifiers revoked, each call with the times it reads.\<close>

datatype token_call = Present clocks expectation string | Withdraw rat rat string string

fun token_run :: "'s nonce_ops \<Rightarrow> codec \<Rightarrow> string \<Rightarrow> token_call list \<Rightarrow> 's \<Rightarrow> verdict option list" where
  "token_run ops C secret [] s = []"
| "token_run ops C secret (Present k x token # calls) s =
     (let (v, s') = verifySensitiveCapabilityToken ops C secret x k token s in Some v # token_run ops C secret calls s')"
| "token_run ops C secret (Withdraw now clk what reason # calls) s =
     None # token_run ops C secret calls (revokeSensitiveCapabilityToken ops C what reason now clk s)"

lemma run_length [simp]: "length (token_run ops C secret calls s) = length calls"
proof (induction calls arbitrary: s)
  case (Cons c calls)
  then show ?case by (cases c) (simp_all add: case_prod_unfold Let_def)
qed simp

text \<open>What the store reads from its clock during a call.\<close>

fun readings :: "token_call \<Rightarrow> rat list" where
  "readings (Present k x token) = [at_isRevoked k, at_isConsumed k, at_consume k]"
| "readings (Withdraw now clk what reason) = [clk]"

text \<open>
  The tokens presented expire as \<open>E\<close> says of their identifiers, and while the caller's time is before
  the expiry, the store's clock has not passed it.
\<close>

definition expire_by :: "codec \<Rightarrow> string \<Rightarrow> (json option \<Rightarrow> rat) \<Rightarrow> token_call list \<Rightarrow> bool" where
  "expire_by C secret E calls \<longleftrightarrow> (\<forall>k x token p. Present k x token \<in> set calls \<longrightarrow>
     signed_payload C secret token = Inr (JObj p) \<longrightarrow> map_of p ''exp'' = Some (JNum (E (map_of p ''jti''))) \<and>
     (at_now k < E (map_of p ''jti'') \<longrightarrow> at_isConsumed k \<le> E (map_of p ''jti'')))"

lemma expire_by_Cons: "expire_by C secret E (c # calls) \<Longrightarrow> expire_by C secret E calls"
  unfolding expire_by_def list.set by blast

lemma run_refines:
  assumes "stands_for E t s i" "sorted (t # concat (map readings calls))" "expire_by C secret E calls"
  shows "token_run (createCapabilityNonceStore n) C secret calls s = token_run ideal_ops C secret calls i"
  using assms
proof (induction calls arbitrary: t s i)
  case (Cons c calls)
  note later = expire_by_Cons [OF Cons.prems(3)]
  show ?case
  proof (cases c)
    case (Present k x token)
    have k: "t \<le> at_isRevoked k" "at_isRevoked k \<le> at_isConsumed k" "at_isConsumed k \<le> at_consume k"
      "sorted (at_consume k # concat (map readings calls))"
      using Cons.prems(2) by (simp_all add: Present)
    have "map_of p ''exp'' = Some (JNum (E (map_of p ''jti''))) \<and>
        (at_now k < E (map_of p ''jti'') \<longrightarrow> at_isConsumed k \<le> E (map_of p ''jti''))"
      if "signed_payload C secret token = Inr (JObj p)" for p
      using Cons.prems(3) that unfolding expire_by_def Present by (meson list.set_intros(1))
    from forgetful.verify_refines [OF Cons.prems(1) k(1-3) this, of C secret token n x]
    show ?thesis using Cons.IH [OF _ k(4) later] by (auto simp: Present case_prod_unfold Let_def)
  next
    case (Withdraw now clk what reason)
    have k: "t \<le> clk" "sorted (clk # concat (map readings calls))" using Cons.prems(2) by (simp_all add: Withdraw)
    have "stands_for E clk (revokeSensitiveCapabilityToken (createCapabilityNonceStore n) C what reason now clk s)
        (revokeSensitiveCapabilityToken ideal_ops C what reason now clk i)"
      using forgetful.revoke_law [OF Cons.prems(1) k(1)]
      by (simp add: revokeSensitiveCapabilityToken_def ideal_ops_def)
    then show ?thesis using Cons.IH [OF _ k(2) later] by (simp add: Withdraw)
  qed
qed simp

lemma stands_empty: "stands_for E t clear_store nothing_used"
  by (simp add: stands_for_def remembers_def clear_store_def nothing_used_def)

text \<open>
  C8: A verifier over the store of the code, which is bounded and drops entries that have expired when
  it is full and when they are looked up, gives in every run the verdicts of a verifier over the
  reference store, which has no bound, keeps every consumed identifier and lets a revocation lapse at
  the expiry recorded with it. It is assumed that the store's clock does not run backwards, that two
  tokens of the run with one identifier have one expiry, and that at no presentation the caller's time
  is before the expiry of the token while the store's clock is past it.
\<close>

theorem forgetting_is_not_observable:
  assumes "sorted (concat (map readings calls))" "expire_by C secret E calls"
  shows "token_run (createCapabilityNonceStore maxEntries) C secret calls clear_store = token_run ideal_ops C secret calls nothing_used"
proof (cases "concat (map readings calls)")
  case Nil
  have "sorted (0 # concat (map readings calls))" unfolding Nil by simp
  then show ?thesis by (rule run_refines [OF stands_empty _ assms(2)])
next
  case (Cons t ts)
  then have "sorted (t # concat (map readings calls))" using assms(1) by simp
  then show ?thesis by (rule run_refines [OF stands_empty _ assms(2)])
qed

section \<open>One use\<close>

text \<open>The verdict that a token for one use, with this identifier, is accepted.\<close>

definition spends :: "verdict option \<Rightarrow> json option \<Rightarrow> bool" where
  "spends v j \<longleftrightarrow> (\<exists>p r. v = Some (Valid p r) \<and> js_true (map_of p ''singleUse'') \<and> map_of p ''jti'' = j)"

lemma refusals: "signed_payload C secret token \<noteq> Inl (Valid p r)" "failed_claim x t q \<noteq> Some (Valid p r)"
proof -
  show "signed_payload C secret token \<noteq> Inl (Valid p r)"
    unfolding signed_payload_def by (auto split: option.splits json.splits)
  have "expired_or_early q t \<noteq> Some (Valid p r)"
    unfolding expired_or_early_def by (auto split: option.splits json.splits)
  moreover have "broken_constraint q c \<noteq> Some (Valid p r)" for c
    unfolding broken_constraint_def Let_def by (auto split: option.splits)
  ultimately show "failed_claim x t q \<noteq> Some (Valid p r)" unfolding failed_claim_def by (auto split: option.splits)
qed

text \<open>The store holds an identifier as consumed until a time.\<close>

definition held :: "json option \<Rightarrow> rat \<Rightarrow> nonce_store \<Rightarrow> bool" where
  "held j e s \<longleftrightarrow> map_option n_exp (map_of (consumedNonces s) j) = Some e"

lemma held_unexpired: "map_option n_exp (map_of m j) = Some e \<Longrightarrow> t \<le> e \<Longrightarrow> map_option n_exp (map_of (unexpired t m) j) = Some e"
  by (induction m) (auto simp: unexpired_def split: if_splits)

lemma held_pruned: "held j e s \<Longrightarrow> t \<le> e \<Longrightarrow> held j e (prune t s)"
  by (simp add: held_def prune_def held_unexpired)

lemma held_is_revoked: "held j e s \<Longrightarrow> held j e (snd (is_revoked j' t s))"
  by (auto simp: held_def is_revoked_def split: option.split)

lemma held_is_consumed: "held j e s \<Longrightarrow> t \<le> e \<Longrightarrow> held j e (snd (is_consumed j' t s)) \<and> (j' = j \<longrightarrow> fst (is_consumed j' t s))"
  by (auto simp: held_def is_consumed_def delete_conv' split: option.split)

lemma held_consume: "held j e s \<Longrightarrow> t \<le> e \<Longrightarrow> j' \<noteq> j \<Longrightarrow> held j e (consume_nonce n j' e' t s)"
  using held_pruned [of j e s t] by (simp add: consume_nonce_def held_def Let_def update_conv')

lemma held_revoke: "held j e s \<Longrightarrow> t \<le> e \<Longrightarrow> held j e (revoke_nonce n j' e' reason t s)"
  using held_pruned [of j e s t] by (simp add: revoke_nonce_def held_def Let_def)

lemma consumed_is_held: "held j e (consume_nonce n j e t s)"
  by (simp add: held_def consume_nonce_def Let_def update_conv')

text \<open>While an identifier is held, no token with it is accepted, and it stays held.\<close>

lemma held_verify:
  assumes "held j e s" "at_isConsumed k \<le> e" "at_consume k \<le> e"
    and "verifySensitiveCapabilityToken (createCapabilityNonceStore n) C secret x k token s = (v, s')"
  shows "held j e s' \<and> \<not> spends (Some v) j"
proof -
  have "held j e s' \<and> \<not> spends (Some v) j"
    if "verify_payload (createCapabilityNonceStore n) x k p s = (v, s')" for p
  proof -
    obtain b s1 where b: "is_revoked (map_of p ''jti'') (at_isRevoked k) s = (b, s1)" by fastforce
    have s1: "held j e s1" using held_is_revoked [OF assms(1)] b by (metis snd_conv)
    obtain c s2 where c: "is_consumed (map_of p ''jti'') (at_isConsumed k) s1 = (c, s2)" by fastforce
    have s2: "held j e s2" "map_of p ''jti'' = j \<Longrightarrow> c" using held_is_consumed [OF s1 assms(2)] c by (metis fst_conv snd_conv)+
    then have used: "\<not> c \<Longrightarrow> held j e (consume_nonce n (map_of p ''jti'') (expiry_of p) (at_consume k) s2)"
      by (metis held_consume [OF s2(1) assms(3)])
    show ?thesis using that s1 s2 used
      by (auto simp: verify_payload_def createCapabilityNonceStore_def b c spends_def refusals split: bool.splits option.splits if_splits)
  qed
  moreover have "\<not> spends (Some Throws) j" by (simp add: spends_def)
  ultimately show ?thesis using assms(1,4)
    by (auto simp: verifySensitiveCapabilityToken_def spends_def refusals split: sum.splits if_splits)
qed

lemma accepted_is_held:
  assumes "verifySensitiveCapabilityToken (createCapabilityNonceStore n) C secret x k token s = (Valid p r, s')"
    and "consuming x" "js_true (map_of p ''singleUse'')"
  shows "held (map_of p ''jti'') (expiry_of p) s'"
  using assms consumed_is_held
  by (auto simp: verifySensitiveCapabilityToken_def verify_payload_def createCapabilityNonceStore_def refusals
      split: sum.splits if_splits option.splits bool.splits prod.splits)

lemma held_is_not_spent:
  assumes "held j e s" "b < length calls" "\<forall>c \<in> set (take (Suc b) calls). \<forall>t \<in> set (readings c). t \<le> e"
  shows "\<not> spends (token_run (createCapabilityNonceStore n) C secret calls s ! b) j"
  using assms
proof (induction calls arbitrary: b s)
  case (Cons c calls)
  have later: "\<forall>c \<in> set (take (Suc b') calls). \<forall>t \<in> set (readings c). t \<le> e" if "b = Suc b'" for b'
    using Cons.prems(3) that by simp
  show ?case
  proof (cases c)
    case (Present k x token)
    obtain v s' where v: "verifySensitiveCapabilityToken (createCapabilityNonceStore n) C secret x k token s = (v, s')" by fastforce
    have "held j e s' \<and> \<not> spends (Some v) j"
      using held_verify [OF Cons.prems(1) _ _ v] Cons.prems(3) by (simp add: Present)
    then show ?thesis using Cons.IH Cons.prems(2) later by (cases b) (simp_all add: Present v)
  next
    case (Withdraw now clk what reason)
    have "held j e (revokeSensitiveCapabilityToken (createCapabilityNonceStore n) C what reason now clk s)"
      using held_revoke [OF Cons.prems(1)] Cons.prems(3)
      by (simp add: Withdraw revokeSensitiveCapabilityToken_def createCapabilityNonceStore_def)
    moreover have "\<not> spends None j" by (simp add: spends_def)
    ultimately show ?thesis using Cons.IH Cons.prems(2) later by (cases b) (simp_all add: Withdraw)
  qed
qed simp

lemma spent_once:
  assumes "a < b" "b < length calls" "calls ! a = Present k x token" "consuming x"
    and "token_run (createCapabilityNonceStore n) C secret calls s ! a = Some (Valid p r)" "js_true (map_of p ''singleUse'')"
    and "\<forall>c \<in> set (take (b - a) (drop (Suc a) calls)). \<forall>t \<in> set (readings c). t \<le> expiry_of p"
  shows "\<not> spends (token_run (createCapabilityNonceStore n) C secret calls s ! b) (map_of p ''jti'')"
  using assms
proof (induction calls arbitrary: a b s)
  case (Cons c calls)
  show ?case
  proof (cases a)
    case 0
    obtain v s' where v: "verifySensitiveCapabilityToken (createCapabilityNonceStore n) C secret x k token s = (v, s')" by fastforce
    have c: "c = Present k x token" "v = Valid p r" using Cons.prems(3,5) 0 by (simp_all add: v)
    obtain b' where b: "b = Suc b'" using Cons.prems(1) by (cases b) auto
    show ?thesis
      using held_is_not_spent [OF accepted_is_held [OF v [unfolded c(2)] Cons.prems(4,6)], of b' calls n C secret] Cons.prems(2,7) 0
      by (simp add: b c(1) v)
  next
    case (Suc a')
    then obtain b' where b: "b = Suc b'" using Cons.prems(1) by (cases b) auto
    then show ?thesis using Cons Suc by (cases c) (auto simp: case_prod_unfold Let_def)
  qed
qed simp

text \<open>
  C21: A capability for one use is used once: after a presentation that consumes it was accepted, no
  later presentation of a token for one use with its identifier is accepted, as long as no reading
  of the store's own clock has passed the expiry of the consumed token. This holds from any state
  of the store, for any bound on its entries, for any times the callers pass, and whatever was
  presented or revoked in between.
\<close>

theorem capability_used_once:
  assumes "run = token_run (createCapabilityNonceStore maxEntries) C secret calls s"
    and "a < b" "b < length calls" "calls ! a = Present k x token" "consuming x"
    and "run ! a = Some (Valid p r)" "js_true (map_of p ''singleUse'')"
    and "\<forall>c \<in> set (take (b - a) (drop (Suc a) calls)). \<forall>t \<in> set (readings c). t \<le> expiry_of p"
    and "run ! b = Some (Valid p' r')" "js_true (map_of p' ''singleUse'')"
  shows "map_of p ''jti'' \<noteq> map_of p' ''jti''"
  using spent_once [OF assms(2-5) _ assms(7,8), of maxEntries C secret s r] assms(6,9,10)
  unfolding assms(1) spends_def by auto

section \<open>A token from its issue to its end\<close>

text \<open>The platform carries a value: it survives being printed, encoded, decoded and parsed.\<close>

definition carries :: "codec \<Rightarrow> json \<Rightarrow> bool" where
  "carries C v \<longleftrightarrow> from_json C (to_json C v) = Some v \<and> to_base64url C (to_json C v) \<noteq> [] \<and>
     from_base64url C (to_base64url C (to_json C v)) = to_json C v"

definition envelope_of :: "codec \<Rightarrow> string \<Rightarrow> document \<Rightarrow> json" where
  "envelope_of C secret p =
     JObj [(''payload'', JStr (to_json C (JObj p))), (''signature'', JStr (hmac C (to_json C (JObj p)) secret))]"

definition meant_for :: "token_request \<Rightarrow> expectation" where
  "meant_for q = \<lparr>expectedActor = as_str (q_actor q), expectedAction = as_str (q_action q), expectedTarget = as_str (q_target q),
     given_constraints = Some [], consuming = True\<rparr>"

lemma opened:
  assumes "carries C (JObj p)" "carries C (envelope_of C secret p)"
  shows "signed_payload C secret (sealed C secret p) = Inr (JObj p)"
proof -
  have sealed: "sealed C secret p = to_base64url C (to_json C (envelope_of C secret p))"
    by (simp add: sealed_def envelope_of_def signPayload_def Let_def)
  have e: "from_json C (from_base64url C (sealed C secret p)) = Some (envelope_of C secret p)" "sealed C secret p \<noteq> []"
    using assms(2) by (simp_all add: carries_def sealed)
  show ?thesis using assms(1) e(2)
    by (simp add: signed_payload_def e(1) envelope_of_def own_fields_def constantTimeCompare_def signPayload_def carries_def)
qed

lemma bounded_ttl_spec:
  "bounded_ttl ttl = (case ttl of
       Some (Fin t) \<Rightarrow> if t = 0 then 300000 else if t < 5000 then 5000 else if 3600000 < t then 3600000 else t
     | Some PInf \<Rightarrow> 3600000 | Some NInf \<Rightarrow> 5000 | Some NaN \<Rightarrow> 300000 | None \<Rightarrow> 300000)"
  by (simp add: bounded_ttl_def DEFAULT_CAPABILITY_TTL_MS_def MAX_CAPABILITY_TTL_MS_def MIN_CAPABILITY_TTL_MS_def
      split: jsnum.split option.split)

lemma fresh_verdict:
  assumes "map_of p ''exp'' = Some (JNum e)" "map_of p ''iat'' = Some (JNum i)" "\<not> misdirected x p"
    and "given_constraints x = Some []"
  shows "fst (verify_payload (createCapabilityNonceStore n) x k p clear_store) =
    (if e \<le> at_now k then Rejected ''EVT_AUTH_003'' 401 True ''refresh_capability''
     else if i > at_now k + 60000 then not_authentic else Valid p (e - at_now k))"
proof -
  have none: "is_revoked j t clear_store = (False, clear_store)" "is_consumed j t clear_store = (False, clear_store)" for j t
    by (simp_all add: is_revoked_def is_consumed_def clear_store_def)
  have "broken_constraint p (Some []) = None"
    by (simp add: broken_constraint_def exceeds_def Let_def split: option.split)
  then show ?thesis using assms
    by (auto simp: verify_payload_def createCapabilityNonceStore_def none failed_claim_def expired_or_early_def expiry_of_def)
qed

text \<open>
  C22: From its issue to its end: a generated token carries the expiry of its issue plus the lifetime
  asked for, held between five seconds and one hour (five minutes when none, zero or no number is
  asked for). A verifier with the same secret and a store that has seen nothing accepts it for the
  actor, action and target it was generated for, exactly from one minute before its issue until that
  expiry, with the payload that went in and the time that is left.
\<close>

theorem capability_roundtrip:
  assumes "generateSensitiveCapabilityToken C secret q clk freshJti freshNonce = Inr (token, p)"
    and "carries C (JObj p)" "carries C (envelope_of C secret p)" "iat = (case q_iat q of Some t \<Rightarrow> t | None \<Rightarrow> clk)"
    and "lifetime = (case q_ttlMs q of
          Some (Fin t) \<Rightarrow> if t = 0 then 300000 else if t < 5000 then 5000 else if 3600000 < t then 3600000 else t
        | Some PInf \<Rightarrow> 3600000 | Some NInf \<Rightarrow> 5000 | Some NaN \<Rightarrow> 300000 | None \<Rightarrow> 300000)"
    and "v = fst (verifySensitiveCapabilityToken (createCapabilityNonceStore n) C secret (meant_for q) k token clear_store)"
  shows "map_of p ''exp'' = Some (JNum (iat + lifetime)) \<and>
    v = (if iat + lifetime \<le> at_now k then Rejected ''EVT_AUTH_003'' 401 True ''refresh_capability''
         else if iat > at_now k + 60000 then not_authentic else Valid p (iat + lifetime - at_now k))"
proof -
  obtain a b c where q: "as_str (q_actor q) = Some a" "as_str (q_action q) = Some b" "as_str (q_target q) = Some c"
    "p = token_payload q a b c clk freshJti freshNonce" "token = sealed C secret p"
    using assms(1) by (auto simp: generateSensitiveCapabilityToken_def Let_def split: option.splits if_splits)
  have p: "map_of p ''exp'' = Some (JNum (iat + lifetime))" "map_of p ''iat'' = Some (JNum iat)"
    "map_of p ''actor'' = Some (JStr (js_trim a))" "map_of p ''action'' = Some (JStr (js_trim b))"
    "map_of p ''target'' = Some (JStr (js_trim c))"
    unfolding q(4) token_payload_def Let_def assms(4,5) bounded_ttl_spec by simp_all
  have "\<not> misdirected (meant_for q) p" by (simp add: misdirected_def differs_from_def meant_for_def q(1-3) p(3-5))
  from fresh_verdict [OF p(1,2) this] p(1) show ?thesis
    unfolding assms(6) verifySensitiveCapabilityToken_def q(5) opened [OF assms(2,3)] by (simp add: own_fields_def meant_for_def)
qed

text \<open>A platform that carries the values of two tokens.\<close>

definition sample_request :: "string \<Rightarrow> token_request" where
  "sample_request j = \<lparr>q_actor = Some (JStr ''GA''), q_action = Some (JStr ''refund:initiate''), q_target = Some (JStr ''m''),
     q_constraints = None, q_ttlMs = Some PInf, q_singleUse = None, q_jti = Some j, q_nonce = Some ''n'', q_iat = None\<rparr>"

definition sample_payload :: "string \<Rightarrow> document" where
  "sample_payload j = token_payload (sample_request j) ''GA'' ''refund:initiate'' ''m'' 0 j ''n''"

definition sample_envelope :: "string \<Rightarrow> json" where
  "sample_envelope t = JObj [(''payload'', JStr t), (''signature'', JStr ''0a'')]"

definition sample_codec :: codec where
  "sample_codec =
     \<lparr>to_json = (\<lambda>v. if v = JObj (sample_payload ''1'') then ''p'' else if v = JObj (sample_payload ''2'') then ''q''
        else if v = sample_envelope ''q'' then ''f'' else ''e''),
      from_json = (\<lambda>s. map_of [(''p'', JObj (sample_payload ''1'')), (''q'', JObj (sample_payload ''2'')),
        (''e'', sample_envelope ''p''), (''f'', sample_envelope ''q'')] s),
      to_base64url = id, from_base64url = id, hmac = (\<lambda>t secret. ''0a'')\<rparr>"

lemma sample_carries: "carries sample_codec (JObj (sample_payload ''1''))"
  "carries sample_codec (envelope_of sample_codec [] (sample_payload ''1''))"
  unfolding carries_def by code_simp+

lemma sample_generated: "generateSensitiveCapabilityToken sample_codec [] (sample_request ''1'') 0 [] [] = Inr (''e'', sample_payload ''1'')"
  by code_simp

definition one_time :: "rat \<Rightarrow> clocks" where
  "one_time t = \<lparr>at_now = t, at_isRevoked = t, at_isConsumed = t, at_consume = t\<rparr>"

theorem capability_roundtrip_witness:
  "fst (verifySensitiveCapabilityToken (createCapabilityNonceStore 9) sample_codec [] (meant_for (sample_request ''1'')) (one_time 10) ''e'' clear_store)
     = Valid (sample_payload ''1'') 3599990 \<and>
   map_of (sample_payload ''1'') ''exp'' = Some (JNum 3600000)"
proof -
  have "0 = (case q_iat (sample_request ''1'') of Some t \<Rightarrow> t | None \<Rightarrow> 0)" "q_ttlMs (sample_request ''1'') = Some PInf"
    by (simp_all add: sample_request_def)
  then show ?thesis
    using capability_roundtrip [OF sample_generated sample_carries, of 0 3600000 _ 9 "one_time 10"] by (simp add: one_time_def)
qed

definition sample_calls :: "token_call list" where
  "sample_calls =
     [Present (one_time 0) (meant_for (sample_request ''1'')) ''e'', Withdraw 5 5 ''3'' ''lost'',
      Present \<lparr>at_now = 10, at_isRevoked = 11, at_isConsumed = 12, at_consume = 12\<rparr> (meant_for (sample_request ''1'')) ''e'',
      Present (one_time 20) (meant_for (sample_request ''1'')) ''f'']"

definition sample_verdicts :: "verdict option list" where
  "sample_verdicts = [Some (Valid (sample_payload ''1'') 3600000), None, Some (Rejected ''EVT_AUTH_002'' 409 False ''none''),
     Some (Valid (sample_payload ''2'') 3599980)]"

lemma sample_verdicts: "token_run (createCapabilityNonceStore 1) sample_codec [] sample_calls clear_store = sample_verdicts"
  by code_simp

lemma sample_opened: "signed_payload sample_codec [] ''e'' = Inr (JObj (sample_payload ''1''))"
  "signed_payload sample_codec [] ''f'' = Inr (JObj (sample_payload ''2''))"
  by code_simp+

lemma sample_expiry: "map_of (sample_payload j) ''exp'' = Some (JNum 3600000)"
  by (simp add: sample_payload_def token_payload_def sample_request_def bounded_ttl_def MAX_CAPABILITY_TTL_MS_def)

lemma sample_expire_by: "expire_by sample_codec [] (\<lambda>_. 3600000) sample_calls"
  by (auto simp: expire_by_def sample_calls_def sample_opened sample_expiry one_time_def)

lemma sample_sorted: "sorted (concat (map readings sample_calls))"
  by (simp add: sample_calls_def one_time_def)

theorem forgetting_is_not_observable_witness:
  "token_run (createCapabilityNonceStore 1) sample_codec [] sample_calls clear_store = sample_verdicts \<and>
   token_run ideal_ops sample_codec [] sample_calls nothing_used = sample_verdicts"
  using forgetting_is_not_observable [OF sample_sorted sample_expire_by, of 1] sample_verdicts by simp

theorem capability_used_once_witness:
  "map_of (sample_payload ''1'') ''jti'' \<noteq> map_of (sample_payload ''2'') ''jti''"
proof -
  let ?x = "meant_for (sample_request ''1'')"
  have "0 < (3 :: nat)" "3 < length sample_calls" "sample_calls ! 0 = Present (one_time 0) ?x ''e''" "consuming ?x"
    by (simp_all add: sample_calls_def meant_for_def)
  moreover have "sample_verdicts ! 0 = Some (Valid (sample_payload ''1'') 3600000)"
    "sample_verdicts ! 3 = Some (Valid (sample_payload ''2'') 3599980)" by (simp_all add: sample_verdicts_def)
  moreover have "js_true (map_of (sample_payload j) ''singleUse'')" for j
    by (simp add: sample_payload_def token_payload_def sample_request_def)
  moreover have "\<forall>c \<in> set (take (3 - 0) (drop (Suc 0) sample_calls)). \<forall>t \<in> set (readings c). t \<le> expiry_of (sample_payload ''1'')"
    by (simp add: sample_calls_def one_time_def expiry_of_def sample_expiry)
  ultimately show ?thesis
    using capability_used_once [OF sample_verdicts [symmetric]] by blast
qed

text \<open>
  The two clocks leave a gap: the verifier refuses a token from its expiry on, by the time its caller
  passes (by default the time of its entry), and the store forgets it when its own clock is past the
  expiry. A presentation that starts a millisecond before the expiry and reaches the store a
  millisecond after it is accepted a second time.
\<close>

theorem replay_between_the_clocks:
  "token_run (createCapabilityNonceStore 9) sample_codec []
     [Present (one_time 0) (meant_for (sample_request ''1'')) ''e'',
      Present \<lparr>at_now = 3599999, at_isRevoked = 3600001, at_isConsumed = 3600001, at_consume = 3600001\<rparr>
        (meant_for (sample_request ''1'')) ''e''] clear_store
   = [Some (Valid (sample_payload ''1'') 3600000), Some (Valid (sample_payload ''1'') 1)]"
  by code_simp

text \<open>
  A revocation lapses before the token: the entry of a revoked identifier is kept for five
  minutes, but a token may live for an hour, so that a stolen token, revoked at once, is refused
  for five minutes and then accepted.
\<close>

theorem revocation_lapses:
  "token_run (createCapabilityNonceStore 9) sample_codec []
     [Withdraw 0 0 ''1'' ''stolen'', Present (one_time 300000) (meant_for (sample_request ''1'')) ''e'',
      Present (one_time 300001) (meant_for (sample_request ''1'')) ''e''] clear_store
   = [None, Some not_authentic, Some (Valid (sample_payload ''1'') 3299999)]"
  by code_simp

end
