(* ===== verification/OwnershipTransfer.thy ===== *)
theory OwnershipTransfer imports AsyncStore begin

text \<open>
  \<open>src/lib/ownership/ownershipTransfer.js\<close>: the transfer of a material to a new owner, who accepts it,
  and disputes about it. Every exported function is the tree of its awaited calls over the documents
  of \<open>materials\<close>, \<open>ownership_transfers\<close> and \<open>ownership_transfer_disputes\<close>; the time and the fresh
  identifier are arguments of a call. Error texts are not modelled.
\<close>

section \<open>Documents\<close>

datatype transfer_state = Pending | Accepting | Accepted | Declined | Cancelled | Expired | Failed_state

datatype dispute_state = Open_dispute | Under_review | Resolved_accepted | Resolved_rejected

record history_entry =
  h_action :: string
  h_actor :: string
  h_at :: int
  h_reason :: "string option"

record transfer =
  t_id :: string
  t_material :: string
  fromAddress :: string
  toAddress :: string
  t_state :: transfer_state
  t_reason :: "string option"
  t_createdAt :: int
  t_expiresAt :: int
  t_leaseExpiresAt :: "int option"
  acceptedAt :: "int option"
  declinedAt :: "int option"
  cancelledAt :: "int option"
  expiredAt :: "int option"
  failedAt :: "int option"
  t_failureReason :: "string option"
  t_history :: "history_entry list"

record material =
  m_id :: string
  userAddress :: "string option"
  isDeleted :: bool
  m_status :: "string option"
  moderationStatus :: "string option"
  m_visibility :: "string option"
  previousOwnerAddress :: "string option"
  ownershipTransferredAt :: "int option"
  ownershipTransferId :: "string option"
  m_version :: int

record evidence_item =
  e_type :: string
  e_reference :: string
  e_description :: string

record dispute =
  d_id :: string
  d_transfer :: string
  d_state :: dispute_state
  openedBy :: string
  d_reason :: string
  evidence :: "evidence_item list"
  d_history :: "history_entry list"
  resolutionReason :: "string option"
  resolvedBy :: "string option"
  resolvedAt :: "int option"
  d_createdAt :: int
  d_updatedAt :: int

datatype row = Transfer transfer | Material material | Dispute dispute

text \<open>The indexes: identifiers, and one live transfer per material.\<close>

definition is_live :: "transfer \<Rightarrow> bool" where
  "is_live t \<longleftrightarrow> t_state t = Pending \<or> t_state t = Accepting"

fun same_row :: "row \<Rightarrow> row \<Rightarrow> bool" where
  "same_row (Transfer t) (Transfer u) = (t_id t = t_id u \<or> is_live t \<and> is_live u \<and> t_material t = t_material u)"
| "same_row (Material m) (Material n) = (m_id m = m_id n)"
| "same_row (Dispute d) (Dispute e) = (d_id d = d_id e)"
| "same_row _ _ = False"

section \<open>Results and calls\<close>

datatype transfer_result =
    Refused string string
  | Thrown
  | Proposed transfer bool
  | Accepted_as transfer "material option" bool
  | Closed transfer bool
  | Swept nat nat nat
  | Listed "transfer list"
  | Disputed dispute bool
  | Evidence_added "dispute option"
  | Resolved "dispute option" bool

type_synonym 'r transfer_script = "(row, unit, unit, 'r) async"

type_synonym script = "transfer_result transfer_script"

abbreviation refuse :: "string \<Rightarrow> string \<Rightarrow> script" where
  "refuse code reason \<equiv> Return (Refused code reason)"

fun transfer_where :: "(transfer \<Rightarrow> bool) \<Rightarrow> row \<Rightarrow> bool" where
  "transfer_where P (Transfer t) = P t"
| "transfer_where P _ = False"

fun material_where :: "(material \<Rightarrow> bool) \<Rightarrow> row \<Rightarrow> bool" where
  "material_where P (Material m) = P m"
| "material_where P _ = False"

fun dispute_where :: "(dispute \<Rightarrow> bool) \<Rightarrow> row \<Rightarrow> bool" where
  "dispute_where P (Dispute d) = P d"
| "dispute_where P _ = False"

fun on_transfer :: "(transfer \<Rightarrow> transfer) \<Rightarrow> row \<Rightarrow> row" where
  "on_transfer f (Transfer t) = Transfer (f t)"
| "on_transfer f r = r"

fun on_material :: "(material \<Rightarrow> material) \<Rightarrow> row \<Rightarrow> row" where
  "on_material f (Material m) = Material (f m)"
| "on_material f r = r"

fun on_dispute :: "(dispute \<Rightarrow> dispute) \<Rightarrow> row \<Rightarrow> row" where
  "on_dispute f (Dispute d) = Dispute (f d)"
| "on_dispute f r = r"

text \<open>The awaited calls; a rejected one throws out of the function.\<close>

definition find_transfer :: "(transfer \<Rightarrow> bool) \<Rightarrow> (transfer option \<Rightarrow> script) \<Rightarrow> script" where
  "find_transfer P k = Await (Find_one (transfer_where P))
     (\<lambda>a. case a of Row None \<Rightarrow> k None | Row (Some (Transfer t)) \<Rightarrow> k (Some t) | _ \<Rightarrow> Return Thrown)"

definition find_material :: "(material \<Rightarrow> bool) \<Rightarrow> (material option \<Rightarrow> script) \<Rightarrow> script" where
  "find_material P k = Await (Find_one (material_where P))
     (\<lambda>a. case a of Row None \<Rightarrow> k None | Row (Some (Material m)) \<Rightarrow> k (Some m) | _ \<Rightarrow> Return Thrown)"

definition find_dispute :: "(dispute \<Rightarrow> bool) \<Rightarrow> (dispute option \<Rightarrow> script) \<Rightarrow> script" where
  "find_dispute P k = Await (Find_one (dispute_where P))
     (\<lambda>a. case a of Row None \<Rightarrow> k None | Row (Some (Dispute d)) \<Rightarrow> k (Some d) | _ \<Rightarrow> Return Thrown)"

fun transfers_of :: "row list \<Rightarrow> transfer list" where
  "transfers_of [] = []"
| "transfers_of (Transfer t # rs) = t # transfers_of rs"
| "transfers_of (_ # rs) = transfers_of rs"

definition find_transfers :: "(transfer \<Rightarrow> bool) \<Rightarrow> (transfer list \<Rightarrow> script) \<Rightarrow> script" where
  "find_transfers P k = Await (Find_all (transfer_where P)) (\<lambda>a. case a of Rows rs \<Rightarrow> k (transfers_of rs) | _ \<Rightarrow> Return Thrown)"

section \<open>Addresses and states\<close>

definition DEFAULT_TRANSFER_TTL_MS :: rat where "DEFAULT_TRANSFER_TTL_MS = 72 * 60 * 60 * 1000"
definition MIN_TRANSFER_TTL_MS :: rat where "MIN_TRANSFER_TTL_MS = 60 * 60 * 1000"
definition MAX_TRANSFER_TTL_MS :: rat where "MAX_TRANSFER_TTL_MS = 14 * 24 * 60 * 60 * 1000"
definition ACCEPT_LEASE_MS :: int where "ACCEPT_LEASE_MS = 2 * 60 * 1000"
definition MAX_REASON_LENGTH :: nat where "MAX_REASON_LENGTH = 500"

definition NON_TRANSFERABLE_STATUSES :: "string list" where
  "NON_TRANSFERABLE_STATUSES = [''suspended'', ''quarantined'', ''deleted'']"

definition sameAddress :: "string option \<Rightarrow> string option \<Rightarrow> bool" where
  "sameAddress a b = (case (a, b) of (Some x, Some y) \<Rightarrow> js_lower x = js_lower y | _ \<Rightarrow> False)"

definition requireAddress :: "string \<Rightarrow> (string \<Rightarrow> script) \<Rightarrow> script" where
  "requireAddress v k =
     (if length (js_trim v) < 3 \<or> length v > 128 then refuse ''VALIDATION_FIELD'' ''address'' else k (js_trim v))"

definition historyEntry :: "string \<Rightarrow> string \<Rightarrow> int \<Rightarrow> string option \<Rightarrow> history_entry" where
  "historyEntry action actor now reason = \<lparr>h_action = action, h_actor = actor, h_at = now, h_reason = reason\<rparr>"

definition ownerOf :: "material \<Rightarrow> string option" where
  "ownerOf m = (if truthy (userAddress m) then userAddress m else None)"

definition material_status :: "material \<Rightarrow> string option" where
  "material_status m =
     (if truthy (m_status m) then m_status m else if truthy (moderationStatus m) then moderationStatus m else m_visibility m)"

definition restrictedReason :: "material \<Rightarrow> string option" where
  "restrictedReason m =
     (if isDeleted m then Some ''material_deleted''
      else case material_status m of
        Some st \<Rightarrow> if st \<in> set NON_TRANSFERABLE_STATUSES then Some (''material_'' @ st) else None
      | None \<Rightarrow> None)"

fun state_name :: "transfer_state \<Rightarrow> string" where
  "state_name Pending = ''pending''"
| "state_name Accepting = ''accepting''"
| "state_name Accepted = ''accepted''"
| "state_name Declined = ''declined''"
| "state_name Cancelled = ''cancelled''"
| "state_name Expired = ''expired''"
| "state_name Failed_state = ''failed''"

text \<open>\<open>transition\<close>: a state change on condition of the state; no result when it lost the race.\<close>

definition moved_to :: "transfer_state \<Rightarrow> (transfer \<Rightarrow> transfer) \<Rightarrow> history_entry \<Rightarrow> transfer \<Rightarrow> transfer" where
  "moved_to st changes entry t = (changes t)\<lparr>t_state := st, t_history := t_history t @ [entry]\<rparr>"

definition transition :: "string \<Rightarrow> transfer_state \<Rightarrow> (transfer \<Rightarrow> bool) \<Rightarrow> transfer_state \<Rightarrow> (transfer \<Rightarrow> transfer) \<Rightarrow>
    history_entry \<Rightarrow> (transfer option \<Rightarrow> script) \<Rightarrow> script" where
  "transition i expected extra st changes entry k =
     Await (Update_one (transfer_where (\<lambda>t. t_id t = i \<and> t_state t = expected \<and> extra t)) (on_transfer (moved_to st changes entry)) None)
       (\<lambda>a. case a of Updated None \<Rightarrow> k None | Updated (Some (Transfer t)) \<Rightarrow> k (Some t) | _ \<Rightarrow> Return Thrown)"

abbreviation always :: "transfer \<Rightarrow> bool" where "always \<equiv> \<lambda>_. True"

text \<open>\<open>result || findOne\<close>: the transfer as it is now; without one the next property read throws.\<close>

definition or_current :: "string \<Rightarrow> transfer option \<Rightarrow> (transfer \<Rightarrow> script) \<Rightarrow> script" where
  "or_current i r k =
     (case r of
        Some t \<Rightarrow> k t
      | None \<Rightarrow> find_transfer (\<lambda>t. t_id t = i) (\<lambda>x. case x of Some t \<Rightarrow> k t | None \<Rightarrow> Return Thrown))"

definition expireIfOverdue :: "transfer \<Rightarrow> int \<Rightarrow> (transfer \<Rightarrow> script) \<Rightarrow> script" where
  "expireIfOverdue t now k =
     (if t_state t \<noteq> Pending \<or> t_expiresAt t > now then k t
      else transition (t_id t) Pending always Expired (\<lambda>u. u\<lparr>expiredAt := Some now\<rparr>)
        (historyEntry ''expired'' ''system'' now None) (\<lambda>r. or_current (t_id t) r k))"

definition loadTransfer :: "string \<Rightarrow> (transfer \<Rightarrow> script) \<Rightarrow> script" where
  "loadTransfer i k =
     (if i = [] then refuse ''VALIDATION_FIELD'' ''transferId''
      else find_transfer (\<lambda>t. t_id t = i) (\<lambda>x. case x of
        Some t \<Rightarrow> k t | None \<Rightarrow> refuse ''NOT_FOUND'' ''transfer''))"

datatype party = Sender | Recipient

definition assertParty :: "transfer \<Rightarrow> string \<Rightarrow> party \<Rightarrow> bool \<Rightarrow> script \<Rightarrow> script" where
  "assertParty t actor allowed_party admin k =
     (let isFrom = sameAddress (Some (fromAddress t)) (Some actor); isTo = sameAddress (Some (toAddress t)) (Some actor) in
      if admin then k
      else if \<not> isFrom \<and> \<not> isTo then refuse ''NOT_FOUND'' ''transfer''
      else if (allowed_party = Recipient \<and> \<not> isTo) \<or> (allowed_party = Sender \<and> \<not> isFrom) then refuse ''AUTH_FORBIDDEN'' ''wrong_party''
      else k)"

definition active_dispute :: "string \<Rightarrow> dispute \<Rightarrow> bool" where
  "active_dispute i d \<longleftrightarrow> d_transfer d = i \<and> d_state d \<in> {Open_dispute, Under_review}"

definition assertTransferNotDisputed :: "string \<Rightarrow> script \<Rightarrow> script" where
  "assertTransferNotDisputed i k = find_dispute (active_dispute i) (\<lambda>d.
     case d of Some _ \<Rightarrow> refuse ''CONFLICT_STATE'' ''dispute_active'' | None \<Rightarrow> k)"

section \<open>Proposing and accepting\<close>

definition ttl_of :: "jsnum option \<Rightarrow> rat option" where
  "ttl_of given = (case given of
     None \<Rightarrow> Some DEFAULT_TRANSFER_TTL_MS
   | Some (Fin r) \<Rightarrow> if r < MIN_TRANSFER_TTL_MS \<or> r > MAX_TRANSFER_TTL_MS then None else Some r
   | Some _ \<Rightarrow> None)"

definition proposal :: "string \<Rightarrow> string \<Rightarrow> string \<Rightarrow> string \<Rightarrow> string \<Rightarrow> string option \<Rightarrow> rat \<Rightarrow> int \<Rightarrow> transfer" where
  "proposal i mat owner actor addressee reason ttl now =
     \<lparr>t_id = i, t_material = mat, fromAddress = owner, toAddress = addressee, t_state = Pending,
      t_reason = map_option (\<lambda>r. take MAX_REASON_LENGTH (js_trim r)) reason, t_createdAt = now,
      t_expiresAt = now + \<lfloor>ttl\<rfloor>, t_leaseExpiresAt = None, acceptedAt = None, declinedAt = None,
      cancelledAt = None, expiredAt = None, failedAt = None, t_failureReason = None,
      t_history = [historyEntry ''initiated'' actor now None]\<rparr>"

definition insert_proposal :: "transfer \<Rightarrow> script" where
  "insert_proposal t = Await (Insert_one (Transfer t)) (\<lambda>a. case a of
     Inserted _ \<Rightarrow> Return (Proposed t False)
   | Duplicate \<Rightarrow> refuse ''CONFLICT_IN_PROGRESS'' ''transfer_in_progress''
   | _ \<Rightarrow> Return Thrown)"

definition propose :: "string \<Rightarrow> string \<Rightarrow> string \<Rightarrow> string \<Rightarrow> string option \<Rightarrow> rat \<Rightarrow> int \<Rightarrow> material \<Rightarrow> script" where
  "propose i mat actor addressee reason ttl now m =
     (case ownerOf m of
        None \<Rightarrow> refuse ''AUTH_FORBIDDEN'' ''not_owner''
      | Some owner \<Rightarrow>
          if \<not> sameAddress (Some owner) (Some actor) then refuse ''AUTH_FORBIDDEN'' ''not_owner''
          else case restrictedReason m of
            Some why \<Rightarrow> refuse ''CONFLICT_STATE'' why
          | None \<Rightarrow>
              let fresh = insert_proposal (proposal i mat owner actor addressee reason ttl now) in
              find_transfer (\<lambda>t. t_material t = mat \<and> is_live t) (\<lambda>existing. case existing of
                None \<Rightarrow> fresh
              | Some t \<Rightarrow> expireIfOverdue t now (\<lambda>live.
                  if t_state live = Pending \<and> sameAddress (Some (fromAddress live)) (Some actor) \<and>
                     sameAddress (Some (toAddress live)) (Some addressee)
                  then Return (Proposed live True)
                  else if is_live live then refuse ''CONFLICT_IN_PROGRESS'' ''transfer_in_progress''
                  else fresh)))"

definition initiateTransfer :: "string \<Rightarrow> string \<Rightarrow> string \<Rightarrow> string \<Rightarrow> jsnum option \<Rightarrow> string option \<Rightarrow> int \<Rightarrow> script" where
  "initiateTransfer i mat actorAddress toAddr ttlMs reason now =
     requireAddress actorAddress (\<lambda>actor. requireAddress toAddr (\<lambda>addressee.
       if mat = [] then refuse ''VALIDATION_FIELD'' ''materialId''
       else if sameAddress (Some actor) (Some addressee) then refuse ''VALIDATION_FAILED'' ''self_transfer''
       else case ttl_of ttlMs of
         None \<Rightarrow> refuse ''VALIDATION_FIELD'' ''ttlMs''
       | Some ttl \<Rightarrow> find_material (\<lambda>m. m_id m = mat) (\<lambda>m. case m of
           None \<Rightarrow> refuse ''NOT_FOUND_MATERIAL'' []
         | Some m \<Rightarrow> propose i mat actor addressee reason ttl now m)))"

text \<open>\<open>settleStuckTransfer\<close>: the material tells whether the owner swap took place.\<close>

definition swapped_by :: "transfer \<Rightarrow> material \<Rightarrow> bool" where
  "swapped_by t m \<longleftrightarrow> sameAddress (ownerOf m) (Some (toAddress t)) \<and> ownershipTransferId m = Some (t_id t)"

definition roll_forward :: "transfer \<Rightarrow> material \<Rightarrow> int \<Rightarrow> (transfer \<Rightarrow> script) \<Rightarrow> script" where
  "roll_forward t m now k =
     transition (t_id t) Accepting always Accepted
       (\<lambda>u. u\<lparr>acceptedAt := Some (case ownershipTransferredAt m of Some x \<Rightarrow> x | None \<Rightarrow> now)\<rparr>)
       (historyEntry ''accepted'' ''recovery'' now (Some ''owner_swap_confirmed'')) (\<lambda>r. or_current (t_id t) r k)"

definition roll_back :: "transfer \<Rightarrow> int \<Rightarrow> (transfer \<Rightarrow> script) \<Rightarrow> script" where
  "roll_back t now k =
     (if t_expiresAt t \<le> now
      then transition (t_id t) Accepting always Expired (\<lambda>u. u\<lparr>expiredAt := Some now\<rparr>)
        (historyEntry ''expired'' ''recovery'' now (Some ''accept_interrupted'')) (\<lambda>r. or_current (t_id t) r k)
      else transition (t_id t) Accepting always Pending (\<lambda>u. u\<lparr>t_leaseExpiresAt := None\<rparr>)
        (historyEntry ''rolled_back'' ''recovery'' now (Some ''accept_interrupted'')) (\<lambda>r. or_current (t_id t) r k))"

definition settleStuckTransfer :: "transfer \<Rightarrow> int \<Rightarrow> (transfer \<Rightarrow> script) \<Rightarrow> script" where
  "settleStuckTransfer t now k =
     find_material (\<lambda>m. m_id m = t_material t) (\<lambda>x. case x of
       Some m \<Rightarrow> if swapped_by t m then roll_forward t m now k else roll_back t now k
     | None \<Rightarrow> roll_back t now k)"

text \<open>\<open>acceptTransfer\<close>: claim the transfer, swap the owner, mark it accepted.\<close>

definition may_swap :: "transfer \<Rightarrow> material \<Rightarrow> bool" where
  "may_swap c m \<longleftrightarrow> m_id m = t_material c \<and> userAddress m = Some (fromAddress c) \<and> \<not> isDeleted m"

definition handed_over :: "transfer \<Rightarrow> int \<Rightarrow> material \<Rightarrow> material" where
  "handed_over c now m = m\<lparr>userAddress := Some (toAddress c), previousOwnerAddress := Some (fromAddress c),
     ownershipTransferredAt := Some now, ownershipTransferId := Some (t_id c), m_version := m_version m + 1\<rparr>"

definition swap_owner :: "string \<Rightarrow> string \<Rightarrow> int \<Rightarrow> transfer \<Rightarrow> script" where
  "swap_owner i actor now c =
     Await (Update_one (material_where (may_swap c)) (on_material (handed_over c now)) None) (\<lambda>a. case a of
       Updated None \<Rightarrow>
         transition i Accepting always Failed_state
           (\<lambda>u. u\<lparr>failedAt := Some now, t_failureReason := Some ''owner_changed''\<rparr>)
           (historyEntry ''failed'' ''system'' now (Some ''owner_changed''))
           (\<lambda>_. refuse ''CONFLICT_STATE'' ''owner_changed'')
     | Updated (Some (Material m)) \<Rightarrow>
         transition i Accepting always Accepted (\<lambda>u. u\<lparr>acceptedAt := Some now\<rparr>) (historyEntry ''accepted'' actor now None)
           (\<lambda>r. Return (Accepted_as (case r of Some t \<Rightarrow> t | None \<Rightarrow> c\<lparr>t_state := Accepted\<rparr>) (Some m) False))
     | _ \<Rightarrow> settleStuckTransfer c now (\<lambda>_. Return Thrown))"

definition claim_transfer :: "string \<Rightarrow> string \<Rightarrow> int \<Rightarrow> transfer \<Rightarrow> script" where
  "claim_transfer i actor now t =
     (if t_state t \<noteq> Pending then refuse ''CONFLICT_STATE'' ''transfer_not_pending''
      else transition i Pending (\<lambda>u. t_expiresAt u > now) Accepting (\<lambda>u. u\<lparr>t_leaseExpiresAt := Some (now + ACCEPT_LEASE_MS)\<rparr>)
        (historyEntry ''accepting'' actor now None)
        (\<lambda>r. case r of None \<Rightarrow> refuse ''CONFLICT_IN_PROGRESS'' ''accept_in_progress'' | Some c \<Rightarrow> swap_owner i actor now c))"

text \<open>A transfer that is being accepted has a lease.\<close>

definition lease_over :: "transfer \<Rightarrow> int \<Rightarrow> bool" where
  "lease_over t now = (case t_leaseExpiresAt t of Some e \<Rightarrow> e \<le> now | None \<Rightarrow> False)"

definition accept_loaded :: "string \<Rightarrow> string \<Rightarrow> int \<Rightarrow> transfer \<Rightarrow> script" where
  "accept_loaded i actor now loaded =
     (if t_state loaded = Accepted then Return (Accepted_as loaded None True)
      else expireIfOverdue loaded now (\<lambda>t.
        if t_state t = Expired then refuse ''CONFLICT_STATE'' ''transfer_expired''
        else if t_state t = Accepting \<and> lease_over t now
        then settleStuckTransfer t now (\<lambda>settled.
          if t_state settled = Accepted then Return (Accepted_as settled None True)
          else claim_transfer i actor now settled)
        else claim_transfer i actor now t))"

definition acceptTransfer :: "string \<Rightarrow> string \<Rightarrow> int \<Rightarrow> script" where
  "acceptTransfer i actorAddress now =
     requireAddress actorAddress (\<lambda>actor. loadTransfer i (\<lambda>t.
       assertParty t actor Recipient False (assertTransferNotDisputed i (accept_loaded i actor now t))))"

section \<open>Closing, recovery, listing\<close>

definition closePending :: "transfer \<Rightarrow> string \<Rightarrow> transfer_state \<Rightarrow> string \<Rightarrow> (transfer \<Rightarrow> transfer) \<Rightarrow> int \<Rightarrow> script" where
  "closePending t actor target action stamp now =
     assertTransferNotDisputed (t_id t)
       (if t_state t = target then Return (Closed t True)
        else expireIfOverdue t now (\<lambda>cur.
          if t_state cur \<noteq> Pending then refuse ''CONFLICT_STATE'' (''transfer_'' @ state_name (t_state cur))
          else transition (t_id cur) Pending always target stamp (historyEntry action actor now None) (\<lambda>r. case r of
            Some u \<Rightarrow> Return (Closed u False)
          | None \<Rightarrow> find_transfer (\<lambda>u. t_id u = t_id cur) (\<lambda>fresh. case fresh of
              Some f \<Rightarrow> refuse ''CONFLICT_STATE'' (''transfer_'' @ state_name (t_state f))
            | None \<Rightarrow> Return Thrown))))"

definition declineTransfer :: "string \<Rightarrow> string \<Rightarrow> int \<Rightarrow> script" where
  "declineTransfer i actorAddress now =
     requireAddress actorAddress (\<lambda>actor. loadTransfer i (\<lambda>t. assertParty t actor Recipient False
       (closePending t actor Declined ''declined'' (\<lambda>u. u\<lparr>declinedAt := Some now\<rparr>) now)))"

definition cancelTransfer :: "string \<Rightarrow> string \<Rightarrow> bool \<Rightarrow> int \<Rightarrow> script" where
  "cancelTransfer i actorAddress isAdmin now =
     requireAddress actorAddress (\<lambda>actor. loadTransfer i (\<lambda>t. assertParty t actor Sender isAdmin
       (closePending t actor Cancelled ''cancelled'' (\<lambda>u. u\<lparr>cancelledAt := Some now\<rparr>) now)))"

text \<open>\<open>limit(0)\<close> is no limit.\<close>

definition limited :: "nat \<Rightarrow> 'a list \<Rightarrow> 'a list" where
  "limited n xs = (if n = 0 then xs else take n xs)"

fun sweep_overdue :: "int \<Rightarrow> transfer list \<Rightarrow> nat \<Rightarrow> (nat \<Rightarrow> script) \<Rightarrow> script" where
  "sweep_overdue now [] e k = k e"
| "sweep_overdue now (t # ts) e k =
     expireIfOverdue t now (\<lambda>r. sweep_overdue now ts (if t_state r = Expired then e + 1 else e) k)"

fun sweep_stuck :: "int \<Rightarrow> transfer list \<Rightarrow> nat \<Rightarrow> nat \<Rightarrow> nat \<Rightarrow> script" where
  "sweep_stuck now [] e c b = Return (Swept e c b)"
| "sweep_stuck now (t # ts) e c b =
     settleStuckTransfer t now (\<lambda>r. sweep_stuck now ts
       (if t_state r = Expired then e + 1 else e) (if t_state r = Accepted then c + 1 else c)
       (if t_state r = Pending then b + 1 else b))"

definition recoverStuckTransfers :: "int \<Rightarrow> nat \<Rightarrow> script" where
  "recoverStuckTransfers now limit =
     find_transfers (\<lambda>t. t_state t = Pending \<and> t_expiresAt t \<le> now) (\<lambda>overdue.
       sweep_overdue now (limited limit overdue) 0 (\<lambda>e.
         find_transfers (\<lambda>t. t_state t = Accepting \<and> lease_over t now) (\<lambda>stuck.
           sweep_stuck now (limited limit stuck) e 0 0)))"

text \<open>The newest first, then by identifier.\<close>

fun bytes_le :: "string \<Rightarrow> string \<Rightarrow> bool" where
  "bytes_le [] _ = True"
| "bytes_le _ [] = False"
| "bytes_le (a # s) (b # t) = ((of_char a :: nat) < of_char b \<or> a = b \<and> bytes_le s t)"

definition listed_before :: "transfer \<Rightarrow> transfer \<Rightarrow> bool" where
  "listed_before t u \<longleftrightarrow> t_createdAt t > t_createdAt u \<or> t_createdAt t = t_createdAt u \<and> bytes_le (t_id t) (t_id u)"

fun list_in :: "transfer \<Rightarrow> transfer list \<Rightarrow> transfer list" where
  "list_in t [] = [t]"
| "list_in t (u # us) = (if listed_before t u then t # u # us else u # list_in t us)"

definition shown_at :: "int \<Rightarrow> transfer \<Rightarrow> transfer" where
  "shown_at now t = (if t_state t = Pending \<and> t_expiresAt t \<le> now then t\<lparr>t_state := Expired\<rparr> else t)"

definition listTransfersForUser :: "string \<Rightarrow> transfer_state option \<Rightarrow> int \<Rightarrow> int \<Rightarrow> script" where
  "listTransfersForUser address st limit now =
     requireAddress address (\<lambda>user.
       find_transfers (\<lambda>t. (fromAddress t = user \<or> toAddress t = user) \<and> (case st of None \<Rightarrow> True | Some x \<Rightarrow> t_state t = x))
         (\<lambda>ts. Return (Listed (map (shown_at now) (take (nat (min (max limit 1) 200)) (foldr list_in ts []))))))"

section \<open>Disputes\<close>

text \<open>Who acts: \<open>String(actor?.id ?? actor?.sub ?? actor?.walletAddress ?? actor)\<close>.\<close>

record dispute_actor =
  a_id :: "string option"
  a_sub :: "string option"
  a_wallet :: "string option"
  a_text :: string
  a_role :: "string option"

definition disputeActorId :: "dispute_actor \<Rightarrow> string" where
  "disputeActorId a = (case a_id a of Some x \<Rightarrow> x | None \<Rightarrow> (case a_sub a of Some x \<Rightarrow> x | None \<Rightarrow>
     (case a_wallet a of Some x \<Rightarrow> x | None \<Rightarrow> a_text a)))"

record raw_evidence =
  r_type :: "string option"
  r_reference :: "string option"
  r_description :: "string option"

definition evidence_of :: "raw_evidence \<Rightarrow> evidence_item" where
  "evidence_of r = \<lparr>e_type = take 40 (or_default (r_type r) ''reference''), e_reference = take 500 (or_default (r_reference r) []),
     e_description = take 500 (or_default (r_description r) [])\<rparr>"

definition normalizeEvidence :: "raw_evidence list \<Rightarrow> evidence_item list" where
  "normalizeEvidence rs = filter (\<lambda>e. e_reference e \<noteq> []) (map evidence_of (take 50 rs))"

text \<open>Evidence that is not an array has no list.\<close>

definition openTransferDispute :: "string \<Rightarrow> string \<Rightarrow> dispute_actor \<Rightarrow> string option \<Rightarrow> raw_evidence list option \<Rightarrow> int \<Rightarrow> script" where
  "openTransferDispute i tid actor reason given now =
     loadTransfer tid (\<lambda>t.
       if \<not> sameAddress (Some (fromAddress t)) (Some (disputeActorId actor)) \<and>
          \<not> sameAddress (Some (toAddress t)) (Some (disputeActorId actor)) \<and> a_role actor \<noteq> Some ''admin''
       then refuse ''AUTH_FORBIDDEN'' ''not_a_party''
       else if length (js_trim (or_default reason [])) < 3 then refuse ''VALIDATION_FIELD'' ''reason''
       else if t_state t \<notin> {Pending, Accepting, Accepted} then refuse ''CONFLICT_STATE'' ''not_disputable''
       else find_dispute (active_dispute tid) (\<lambda>x. case x of
         Some d \<Rightarrow> Return (Disputed d True)
       | None \<Rightarrow> (case given of
           None \<Rightarrow> refuse ''VALIDATION_FIELD'' ''evidence''
         | Some rs \<Rightarrow>
             let d = \<lparr>d_id = i, d_transfer = tid, d_state = Open_dispute, openedBy = disputeActorId actor,
               d_reason = take MAX_REASON_LENGTH (js_trim (or_default reason [])), evidence = normalizeEvidence rs,
               d_history = [historyEntry ''opened'' (disputeActorId actor) now None], resolutionReason = None,
               resolvedBy = None, resolvedAt = None, d_createdAt = now, d_updatedAt = now\<rparr>
             in Await (Insert_one (Dispute d)) (\<lambda>a. case a of Inserted _ \<Rightarrow> Return (Disputed d False) | _ \<Rightarrow> Return Thrown))))"

definition update_dispute :: "(dispute \<Rightarrow> bool) \<Rightarrow> (dispute \<Rightarrow> dispute) \<Rightarrow> (dispute option \<Rightarrow> script) \<Rightarrow> script" where
  "update_dispute P f k = Await (Update_one (dispute_where P) (on_dispute f) None)
     (\<lambda>a. case a of Updated None \<Rightarrow> k None | Updated (Some (Dispute d)) \<Rightarrow> k (Some d) | _ \<Rightarrow> Return Thrown)"

definition addDisputeEvidence :: "string \<Rightarrow> dispute_actor \<Rightarrow> raw_evidence \<Rightarrow> int \<Rightarrow> script" where
  "addDisputeEvidence did actor given now =
     find_dispute (\<lambda>d. d_id d = did) (\<lambda>x. case x of
       None \<Rightarrow> refuse ''NOT_FOUND'' ''dispute''
     | Some d \<Rightarrow>
         if d_state d \<notin> {Open_dispute, Under_review} then refuse ''CONFLICT_STATE'' ''resolved''
         else case normalizeEvidence [given] of
           [] \<Rightarrow> refuse ''VALIDATION_FIELD'' ''evidence''
         | item # _ \<Rightarrow> update_dispute (\<lambda>d. d_id d = did)
             (\<lambda>d. d\<lparr>evidence := evidence d @ [item],
                d_history := d_history d @ [historyEntry ''evidence_added'' (disputeActorId actor) now None], d_updatedAt := now\<rparr>)
             (\<lambda>r. Return (Evidence_added r)))"

fun dispute_state_name :: "dispute_state \<Rightarrow> string" where
  "dispute_state_name Open_dispute = ''open''"
| "dispute_state_name Under_review = ''under_review''"
| "dispute_state_name Resolved_accepted = ''resolved_accepted''"
| "dispute_state_name Resolved_rejected = ''resolved_rejected''"

text \<open>A resolution that is no state of a dispute is none.\<close>

definition resolveTransferDispute :: "string \<Rightarrow> dispute_actor \<Rightarrow> dispute_state option \<Rightarrow> string option \<Rightarrow> int \<Rightarrow> script" where
  "resolveTransferDispute did actor resolution reason now =
     (if a_role actor \<noteq> Some ''admin'' then refuse ''AUTH_FORBIDDEN'' ''admin''
      else case resolution of
        None \<Rightarrow> refuse ''VALIDATION_FIELD'' ''resolution''
      | Some st \<Rightarrow>
          if st \<notin> {Resolved_accepted, Resolved_rejected} then refuse ''VALIDATION_FIELD'' ''resolution''
          else find_dispute (\<lambda>d. d_id d = did) (\<lambda>x. case x of
            None \<Rightarrow> refuse ''NOT_FOUND'' ''dispute''
          | Some d \<Rightarrow>
              if d_state d \<notin> {Open_dispute, Under_review} then Return (Resolved (Some d) True)
              else update_dispute (\<lambda>d. d_id d = did \<and> d_state d \<in> {Open_dispute, Under_review})
                (\<lambda>d. d\<lparr>d_state := st, resolutionReason := Some (take MAX_REASON_LENGTH (or_default reason [])),
                   resolvedBy := Some (disputeActorId actor), resolvedAt := Some now, d_updatedAt := now,
                   d_history := d_history d @ [historyEntry (dispute_state_name st) (disputeActorId actor) now None]\<rparr>)
                (\<lambda>r. Return (Resolved r False))))"

section \<open>The calls\<close>

datatype ownership_call =
    Initiate string string string string "jsnum option" "string option" int
  | Accept string string int
  | Decline string string int
  | Cancel string string bool int
  | Recover int nat
  | List_transfers string "transfer_state option" int int
  | Open_a_dispute string string dispute_actor "string option" "raw_evidence list option" int
  | Add_evidence string dispute_actor raw_evidence int
  | Resolve_dispute string dispute_actor "dispute_state option" "string option" int

fun ownership_handler :: "ownership_call \<Rightarrow> script" where
  "ownership_handler (Initiate i mat actor addressee ttl reason now) = initiateTransfer i mat actor addressee ttl reason now"
| "ownership_handler (Accept i actor now) = acceptTransfer i actor now"
| "ownership_handler (Decline i actor now) = declineTransfer i actor now"
| "ownership_handler (Cancel i actor admin now) = cancelTransfer i actor admin now"
| "ownership_handler (Recover now limit) = recoverStuckTransfers now limit"
| "ownership_handler (List_transfers address st limit now) = listTransfersForUser address st limit now"
| "ownership_handler (Open_a_dispute i tid actor reason given now) = openTransferDispute i tid actor reason given now"
| "ownership_handler (Add_evidence did actor given now) = addDisputeEvidence did actor given now"
| "ownership_handler (Resolve_dispute did actor st reason now) = resolveTransferDispute did actor st reason now"

end
