(* ===== verification/OwnershipSafety.thy ===== *)
theory OwnershipSafety imports OwnershipTransfer begin

text \<open>
  What the transfers of ownership guarantee. The locale \<open>ownership_contract\<close> states what a proposal,
  a state change and an owner swap must keep, and proves once that every handler keeps it; it is
  interpreted three times: the owner of a material who proposes nothing, an address that accepts
  nothing, and the record of each transfer.
\<close>

section \<open>The contract of the handlers\<close>

definition untouched :: "transfer \<Rightarrow> transfer \<Rightarrow> bool" where
  "untouched t u \<longleftrightarrow> t_id u = t_id t \<and> t_material u = t_material t \<and> fromAddress u = fromAddress t \<and>
     toAddress u = toAddress t \<and> t_createdAt u = t_createdAt t \<and> t_expiresAt u = t_expiresAt t"

fun actions :: "transfer_state \<Rightarrow> string list" where
  "actions Pending = [''initiated'', ''rolled_back'']"
| "actions Accepting = [''accepting'']"
| "actions Accepted = [''accepted'']"
| "actions Declined = [''declined'']"
| "actions Cancelled = [''cancelled'']"
| "actions Expired = [''expired'']"
| "actions Failed_state = [''failed'']"

lemma sameAddress_trans: "sameAddress a b \<Longrightarrow> sameAddress a c \<Longrightarrow> sameAddress b c"
  by (auto simp: sameAddress_def split: option.splits)

lemma sameAddress_sym: "sameAddress a b \<longleftrightarrow> sameAddress b a"
  by (auto simp: sameAddress_def split: option.splits)

lemma on_where [simp]:
  "transfer_where P r \<longleftrightarrow> (\<exists>t. r = Transfer t \<and> P t)" "material_where Q r \<longleftrightarrow> (\<exists>m. r = Material m \<and> Q m)"
  "dispute_where Z r \<longleftrightarrow> (\<exists>d. r = Dispute d \<and> Z d)"
  by (cases r; simp)+

lemma in_transfers_of: "t \<in> set (transfers_of rs) \<longleftrightarrow> Transfer t \<in> set rs"
  by (induction rs rule: transfers_of.induct) simp_all

text \<open>The calls a contract allows: who proposes what, and who accepts.\<close>

fun permitted :: "(string \<Rightarrow> string \<Rightarrow> string \<Rightarrow> string \<Rightarrow> bool) \<Rightarrow> (string \<Rightarrow> string \<Rightarrow> bool) \<Rightarrow> ownership_call \<Rightarrow> bool" where
  "permitted proposes accepts (Initiate i mat actor addressee ttl reason now) = proposes i mat (js_trim actor) (js_trim addressee)"
| "permitted proposes accepts (Accept i actor now) = accepts i (js_trim actor)"
| "permitted proposes accepts _ = True"

locale ownership_contract = row_contract same_row "\<lambda>_. ok" R
  for ok :: "row \<Rightarrow> bool" and R :: "row \<Rightarrow> row \<Rightarrow> bool" +
  fixes proposes :: "string \<Rightarrow> string \<Rightarrow> string \<Rightarrow> string \<Rightarrow> bool" and accepts :: "string \<Rightarrow> string \<Rightarrow> bool"
  assumes proposal_ok: "proposes i mat actor addressee \<Longrightarrow> sameAddress (Some owner) (Some actor) \<Longrightarrow>
      ok (Transfer (proposal i mat owner actor addressee reason ttl now))"
    and move_ok: "ok (Transfer t) \<Longrightarrow> is_live t \<Longrightarrow> untouched t (changes t) \<Longrightarrow> h_action e \<in> set (actions st) \<Longrightarrow>
      ok (Transfer (moved_to st changes e t)) \<and> R (Transfer t) (Transfer (moved_to st changes e t))"
    and swap_ok: "accepts (t_id t) actor \<Longrightarrow> ok (Transfer t) \<Longrightarrow> sameAddress (Some (toAddress t)) (Some actor) \<Longrightarrow>
      ok (Transfer c) \<Longrightarrow> t_id c = t_id t \<Longrightarrow> may_swap c m \<Longrightarrow> ok (Material m) \<Longrightarrow>
      ok (Material (handed_over c now m)) \<and> R (Material m) (Material (handed_over c now m))"
    and dispute_ok: "ok (Dispute d)" "d_id d' = d_id d \<Longrightarrow> R (Dispute d) (Dispute d')"
begin

abbreviation sound :: "script \<Rightarrow> bool" where
  "sound p \<equiv> good same_row (all_rows (\<lambda>_. ok)) (evolves R) (\<lambda>_ _. True) p (\<lambda>_. True)"

lemma under: "(B \<Longrightarrow> sound p) \<Longrightarrow> good same_row (all_rows (\<lambda>_. ok)) (evolves R) (\<lambda>_ _. True) p (\<lambda>_. B)"
  by (cases B) (auto intro: good_absurd)

lemma read_rule:
  fixes k :: "(row, unit) reply \<Rightarrow> script"
  assumes "reads q" "\<And>a. (\<And>r. a = Row (Some r) \<Longrightarrow> ok r \<and> (\<forall>P. q = Find_one P \<longrightarrow> P r)) \<Longrightarrow>
      (\<And>rs r. a = Rows rs \<Longrightarrow> r \<in> set rs \<Longrightarrow> ok r) \<Longrightarrow> sound (k a)"
  shows "sound (Await q k)"
proof -
  define B where "B a \<longleftrightarrow> (\<forall>r. a = Row (Some r) \<longrightarrow> ok r \<and> (\<forall>P. q = Find_one P \<longrightarrow> P r)) \<and>
      (\<forall>rs. a = Rows rs \<longrightarrow> (\<forall>r \<in> set rs. ok r))" for a :: "(row, unit) reply"
  show ?thesis
  proof (rule good_call [where K' = "\<lambda>a _. B a"])
    fix s s' and a :: "(row, unit) reply"
    assume s: "all_rows (\<lambda>_. ok) s" "documented same_row q s a s'"
    have s': "s' = s" by (rule documented_reads [OF assms(1) s(2)])
    have "B a" unfolding B_def
    proof (intro conjI allI impI ballI)
      fix r assume a: "a = Row (Some r)"
      obtain P where "q = Find_one P" using assms(1) s(2) a by (cases q) (auto simp: documented_def effect_def)
      then have "r \<in> set s" "P r" "q = Find_one P" using documented_found [OF s(2) [unfolded a \<open>q = Find_one P\<close>]] by blast+
      then show "ok r" "\<And>P. q = Find_one P \<Longrightarrow> P r" using s(1) by (simp_all add: all_rows_def)
    next
      fix rs r assume a: "a = Rows rs" "r \<in> set rs"
      obtain P where "q = Find_all P" using assms(1) s(2) a by (cases q) (auto simp: documented_def effect_def)
      then have "r \<in> set s" using documented_rows [OF s(2) [unfolded a(1) \<open>q = Find_all P\<close>]] a(2) by simp
      then show "ok r" using s(1) by (simp add: all_rows_def)
    qed
    then show "all_rows (\<lambda>_. ok) s' \<and> evolves R s s' \<and> B a" using s(1) s' evolves_refl by simp
  next
    fix a :: "(row, unit) reply"
    show "good same_row (all_rows (\<lambda>_. ok)) (evolves R) (\<lambda>_ _. True) (k a) (\<lambda>_. B a)"
      proof (rule under, rule assms(2))
      show "ok r \<and> (\<forall>P. q = Find_one P \<longrightarrow> P r)" if "B a" "a = Row (Some r)" for r
        by (rule mp [OF spec [OF conjunct1 [OF that(1) [unfolded B_def]]] that(2)])
      show "ok r" if "B a" "a = Rows rs" "r \<in> set rs" for rs r
        using that(1) [unfolded B_def] that(2,3) by simp
    qed
  qed
qed

lemma if_sound: "(b \<Longrightarrow> sound p) \<Longrightarrow> (\<not> b \<Longrightarrow> sound p') \<Longrightarrow> sound (if b then p else p')"
  by simp

lemma sound_return [simp]: "sound (Return r)"
  by simp

lemma find_transfer_rule:
  "(\<And>x. (\<And>t. x = Some t \<Longrightarrow> ok (Transfer t) \<and> P t) \<Longrightarrow> sound (k x)) \<Longrightarrow> sound (find_transfer P k)"
  unfolding find_transfer_def by (rule read_rule) (auto split: reply.splits option.splits row.splits)

lemma find_material_rule: "(\<And>x. sound (k x)) \<Longrightarrow> sound (find_material P k)"
  unfolding find_material_def by (rule read_rule) (auto split: reply.splits option.splits row.splits)

lemma find_dispute_rule: "(\<And>x. sound (k x)) \<Longrightarrow> sound (find_dispute P k)"
  unfolding find_dispute_def by (rule read_rule) (auto split: reply.splits option.splits row.splits)

lemma find_transfers_rule:
  "(\<And>ts. (\<And>t. t \<in> set ts \<Longrightarrow> ok (Transfer t)) \<Longrightarrow> sound (k ts)) \<Longrightarrow> sound (find_transfers P k)"
  unfolding find_transfers_def
  by (rule read_rule, simp) (auto split: reply.splits, metis in_transfers_of)

lemma update_rule:
  fixes k :: "(row, unit) reply \<Rightarrow> script"
  assumes "\<And>r. ok r \<Longrightarrow> P r \<Longrightarrow> R r (f r) \<and> ok (f r)"
    and "\<And>a. (\<And>r. a = Updated (Some r) \<Longrightarrow> \<exists>x. P x \<and> r = f x \<and> ok r) \<Longrightarrow> sound (k a)"
  shows "sound (Await (Update_one P f None) k)"
proof (rule good_updated [where K' = "\<lambda>r _. \<exists>x. P x \<and> r = f x \<and> ok r"])
  fix r
  show "good same_row (all_rows (\<lambda>_. ok)) (evolves R) (\<lambda>_ _. True) (k (Updated (Some r))) (\<lambda>_. \<exists>x. P x \<and> r = f x \<and> ok r)"
    by (rule under, rule assms(2)) auto
next
  fix a :: "(row, unit) reply"
  assume "\<forall>r. a \<noteq> Updated (Some r)"
  then show "sound (k a)" by (intro assms(2)) blast
qed (use assms(1) in \<open>auto simp: all_rows_def stays_def\<close>)

lemma insert_rule:
  fixes k :: "(row, unit) reply \<Rightarrow> script"
  shows "ok r \<Longrightarrow> (\<And>a. sound (k a)) \<Longrightarrow> sound (Await (Insert_one r) k)"
  by (rule good_insert) (auto simp: all_rows_def)

lemma transition_rule:
  assumes "expected = Pending \<or> expected = Accepting" "\<And>t. untouched t (changes t)" "h_action e \<in> set (actions st)"
    and "\<And>r. (\<And>t. r = Some t \<Longrightarrow> ok (Transfer t) \<and> t_id t = i) \<Longrightarrow> sound (k r)"
  shows "sound (transition i expected extra st changes e k)"
  unfolding transition_def
proof (rule update_rule)
  fix r
  assume "ok r" "transfer_where (\<lambda>t. t_id t = i \<and> t_state t = expected \<and> extra t) r"
  then show "R r (on_transfer (moved_to st changes e) r) \<and> ok (on_transfer (moved_to st changes e) r)"
    using assms(1-3) move_ok by (auto simp: is_live_def)
next
  fix a :: "(row, unit) reply"
  assume a: "\<And>r. a = Updated (Some r) \<Longrightarrow> \<exists>x. transfer_where (\<lambda>t. t_id t = i \<and> t_state t = expected \<and> extra t) x \<and>
      r = on_transfer (moved_to st changes e) x \<and> ok r"
  have "ok (Transfer t) \<and> t_id t = i" if "a = Updated (Some (Transfer t))" for t
    using a [OF that] assms(2) by (auto simp: moved_to_def untouched_def)
  then show "sound (case a of Updated None \<Rightarrow> k None | Updated (Some (Transfer t)) \<Rightarrow> k (Some t) | _ \<Rightarrow> Return Thrown)"
    using assms(4) by (auto split: reply.splits option.splits row.splits)
qed

lemma or_current_rule:
  assumes "\<And>t. r = Some t \<Longrightarrow> ok (Transfer t)" "\<And>t. ok (Transfer t) \<Longrightarrow> sound (k t)"
  shows "sound (or_current i r k)"
proof (cases r)
  case None
  then show ?thesis unfolding or_current_def by (auto intro!: find_transfer_rule assms(2) split: option.splits)
next
  case (Some t)
  then show ?thesis using assms(2) [OF assms(1) [OF Some]] by (simp add: or_current_def)
qed

lemma expire_rule: "ok (Transfer t) \<Longrightarrow> (\<And>u. ok (Transfer u) \<Longrightarrow> sound (k u)) \<Longrightarrow> sound (expireIfOverdue t now k)"
  unfolding expireIfOverdue_def
  by (auto intro!: transition_rule or_current_rule simp: untouched_def historyEntry_def)

lemma roll_forward_rule: "(\<And>u. ok (Transfer u) \<Longrightarrow> sound (k u)) \<Longrightarrow> sound (roll_forward t m now k)"
  unfolding roll_forward_def
  by (rule transition_rule, simp, simp add: untouched_def, simp add: historyEntry_def, rule or_current_rule) blast+

lemma roll_back_rule: "(\<And>u. ok (Transfer u) \<Longrightarrow> sound (k u)) \<Longrightarrow> sound (roll_back t now k)"
  unfolding roll_back_def
  by (rule if_sound; rule transition_rule, simp, simp add: untouched_def, simp add: historyEntry_def, rule or_current_rule) blast+

lemma settle_rule: "(\<And>u. ok (Transfer u) \<Longrightarrow> sound (k u)) \<Longrightarrow> sound (settleStuckTransfer t now k)"
  unfolding settleStuckTransfer_def
  by (rule find_material_rule) (auto intro: roll_forward_rule roll_back_rule split: option.splits)

lemma load_rule: "(\<And>t. ok (Transfer t) \<Longrightarrow> t_id t = i \<Longrightarrow> sound (k t)) \<Longrightarrow> sound (loadTransfer i k)"
  unfolding loadTransfer_def by (auto intro!: find_transfer_rule split: option.splits)

lemma require_rule: "sound (k (js_trim v)) \<Longrightarrow> sound (requireAddress v k)"
  by (simp add: requireAddress_def)

lemma party_rule: "sound k \<Longrightarrow> sound (assertParty t actor p admin k)"
  by (simp add: assertParty_def Let_def)

lemma undisputed_rule: "sound k \<Longrightarrow> sound (assertTransferNotDisputed i k)"
  unfolding assertTransferNotDisputed_def by (rule find_dispute_rule) (auto split: option.splits)

text \<open>The handlers.\<close>

lemma initiate_sound: "proposes i mat (js_trim actor) (js_trim addressee) \<Longrightarrow> sound (initiateTransfer i mat actor addressee ttl reason now)"
  unfolding initiateTransfer_def propose_def insert_proposal_def Let_def
  by (auto intro!: require_rule find_material_rule find_transfer_rule expire_rule insert_rule proposal_ok
      split: option.splits reply.splits)

lemma swap_sound:
  assumes "accepts (t_id t) actor" "ok (Transfer t)" "sameAddress (Some (toAddress t)) (Some actor)" "ok (Transfer c)" "t_id c = t_id t"
  shows "sound (swap_owner i actor now c)"
  unfolding swap_owner_def
proof (rule update_rule)
  fix r
  assume "ok r" "material_where (may_swap c) r"
  then show "R r (on_material (handed_over c now) r) \<and> ok (on_material (handed_over c now) r)"
    using swap_ok [OF assms] by auto
qed (auto intro!: transition_rule settle_rule simp: untouched_def historyEntry_def split: reply.splits option.splits row.splits)

lemma claim_sound:
  assumes "accepts (t_id t) actor" "ok (Transfer t)" "sameAddress (Some (toAddress t)) (Some actor)" "t_id t = i"
  shows "sound (claim_transfer i actor now u)"
  unfolding claim_transfer_def
proof (rule if_sound, simp, rule transition_rule)
  fix r
  assume "\<And>c. r = Some c \<Longrightarrow> ok (Transfer c) \<and> t_id c = i"
  then show "sound (case r of None \<Rightarrow> refuse ''CONFLICT_IN_PROGRESS'' ''accept_in_progress'' | Some c \<Rightarrow> swap_owner i actor now c)"
    using swap_sound [OF assms(1-3)] assms(4) by (cases r) simp_all
qed (simp_all add: untouched_def historyEntry_def)

lemma accept_sound: "accepts i (js_trim actor) \<Longrightarrow> sound (acceptTransfer i actor now)"
  unfolding acceptTransfer_def
proof (rule require_rule, rule load_rule)
  fix t
  assume t: "accepts i (js_trim actor)" "ok (Transfer t)" "t_id t = i"
  then have "accepts (t_id t) (js_trim actor)" by simp
  note claim = claim_sound [OF this t(2) _ t(3)]
  have "sound (accept_loaded i (js_trim actor) now t)" if "sameAddress (Some (toAddress t)) (Some (js_trim actor))"
    unfolding accept_loaded_def
    by (intro if_sound sound_return expire_rule settle_rule claim [OF that] t(2))
  then show "sound (assertParty t (js_trim actor) Recipient False (assertTransferNotDisputed i (accept_loaded i (js_trim actor) now t)))"
    by (auto simp: assertParty_def Let_def intro!: undisputed_rule)
qed

lemma close_sound:
  assumes "ok (Transfer t)" "\<And>u. untouched u (stamp u)" "action \<in> set (actions target)"
  shows "sound (closePending t actor target action stamp now)"
  unfolding closePending_def
  by (auto intro!: undisputed_rule expire_rule transition_rule find_transfer_rule assms simp: historyEntry_def split: option.splits)

lemma sweep_overdue_sound:
  "(\<And>t. t \<in> set ts \<Longrightarrow> ok (Transfer t)) \<Longrightarrow> (\<And>n. sound (k n)) \<Longrightarrow> sound (sweep_overdue now ts e k)"
  by (induction ts arbitrary: e) (auto intro!: expire_rule)

lemma sweep_stuck_sound: "sound (sweep_stuck now ts e c b)"
  by (induction ts arbitrary: e c b) (auto intro!: settle_rule)

lemma in_limited: "x \<in> set (limited n xs) \<Longrightarrow> x \<in> set xs"
  by (auto simp: limited_def split: if_splits dest: in_set_takeD)

lemma recover_sound: "sound (recoverStuckTransfers now limit)"
  unfolding recoverStuckTransfers_def
  by (auto intro!: find_transfers_rule sweep_overdue_sound sweep_stuck_sound dest: in_limited)

lemma update_dispute_rule:
  "(\<And>d. d_id (f d) = d_id d) \<Longrightarrow> (\<And>x. sound (k x)) \<Longrightarrow> sound (update_dispute P f k)"
  unfolding update_dispute_def
  by (rule update_rule) (auto simp: dispute_ok split: reply.splits option.splits row.splits)

lemma dispute_sound:
  "sound (openTransferDispute i tid a reason given now)" "sound (addDisputeEvidence did a item now)"
  "sound (resolveTransferDispute did a st reason now)"
  unfolding openTransferDispute_def addDisputeEvidence_def resolveTransferDispute_def Let_def
  by (auto intro!: load_rule find_dispute_rule insert_rule update_dispute_rule dispute_ok split: option.splits list.splits reply.splits)

lemma handler_sound: "permitted proposes accepts c \<Longrightarrow> sound (ownership_handler c)"
  by (cases c) (auto simp: declineTransfer_def cancelTransfer_def listTransfersForUser_def untouched_def
      intro!: initiate_sound accept_sound recover_sound dispute_sound require_rule load_rule party_rule close_sound find_transfers_rule)

end

text \<open>Every run of the handlers keeps the contract.\<close>

sublocale ownership_contract < served: rely_guarantee same_row "all_rows (\<lambda>_. ok)" "evolves R" "\<lambda>_ _. True" "\<lambda>_. True"
  ownership_handler "permitted proposes accepts"
  by unfold_locales (use evolves_refl evolves_trans handler_sound in blast)+

section \<open>The owner\<close>

text \<open>The owner \<open>u\<close> of the material \<open>M\<close> who proposes nothing keeps it.\<close>

definition no_offer :: "string \<Rightarrow> string \<Rightarrow> row \<Rightarrow> bool" where
  "no_offer M u r \<longleftrightarrow> (\<forall>t. r = Transfer t \<longrightarrow> \<not> (t_material t = M \<and> fromAddress t = u))"

definition keeps_owner :: "string \<Rightarrow> string \<Rightarrow> row \<Rightarrow> row \<Rightarrow> bool" where
  "keeps_owner M u r r' \<longleftrightarrow> (\<forall>m. r = Material m \<and> m_id m = M \<and> userAddress m = Some u \<longrightarrow>
     (\<exists>m'. r' = Material m' \<and> m_id m' = M \<and> userAddress m' = Some u))"

definition never_offers :: "string \<Rightarrow> string \<Rightarrow> string \<Rightarrow> string \<Rightarrow> string \<Rightarrow> string \<Rightarrow> bool" where
  "never_offers M u i mat actor addressee \<longleftrightarrow> \<not> (mat = M \<and> sameAddress (Some u) (Some actor))"

lemma keeps_owner_trans: "keeps_owner M u r x \<Longrightarrow> keeps_owner M u x y \<Longrightarrow> keeps_owner M u r y"
  unfolding keeps_owner_def by blast

interpretation seller: ownership_contract "no_offer M u" "keeps_owner M u" "never_offers M u" "\<lambda>_ _. True" for M u
proof unfold_locales
  fix t c :: transfer and m :: material and now :: int
  assume "no_offer M u (Transfer c)" "may_swap c m"
  then show "no_offer M u (Material (handed_over c now m)) \<and> keeps_owner M u (Material m) (Material (handed_over c now m))"
    by (auto simp: no_offer_def keeps_owner_def may_swap_def)
qed (erule (1) keeps_owner_trans | simp add: no_offer_def keeps_owner_def never_offers_def proposal_def moved_to_def untouched_def;
     blast)+

text \<open>
  The address \<open>w\<close> that accepts no offer of the material \<open>M\<close> does not get it. \<open>offer\<close> gives the
  material and the addressee of each identifier.
\<close>

definition offered_as :: "(string \<Rightarrow> string \<times> string) \<Rightarrow> row \<Rightarrow> bool" where
  "offered_as offer r \<longleftrightarrow> (\<forall>t. r = Transfer t \<longrightarrow> offer (t_id t) = (t_material t, toAddress t))"

definition keeps_from :: "string \<Rightarrow> string \<Rightarrow> row \<Rightarrow> row \<Rightarrow> bool" where
  "keeps_from M w r r' \<longleftrightarrow> (\<forall>m. r = Material m \<and> m_id m = M \<longrightarrow>
     (\<exists>m'. r' = Material m' \<and> m_id m' = M \<and> (userAddress m' = userAddress m \<or> \<not> sameAddress (Some w) (userAddress m'))))"

definition offers_as :: "(string \<Rightarrow> string \<times> string) \<Rightarrow> string \<Rightarrow> string \<Rightarrow> string \<Rightarrow> string \<Rightarrow> bool" where
  "offers_as offer i mat actor addressee \<longleftrightarrow> offer i = (mat, addressee)"

definition never_accepts :: "(string \<Rightarrow> string \<times> string) \<Rightarrow> string \<Rightarrow> string \<Rightarrow> string \<Rightarrow> string \<Rightarrow> bool" where
  "never_accepts offer M w i actor \<longleftrightarrow> \<not> (fst (offer i) = M \<and> sameAddress (Some w) (Some actor))"

lemma swap_keeps_from:
  assumes "never_accepts offer M w (t_id t) actor" "offered_as offer (Transfer t)" "sameAddress (Some (toAddress t)) (Some actor)"
    and "offered_as offer (Transfer c)" "t_id c = t_id t" "may_swap c m"
  shows "keeps_from M w (Material m) (Material (handed_over c now m))"
proof -
  have c: "t_material c = fst (offer (t_id t))" "toAddress c = toAddress t" "m_id m = t_material c"
    using assms(2,4-6) by (auto simp: offered_as_def may_swap_def)
  have "\<not> sameAddress (Some w) (Some (toAddress c))" if "m_id m = M"
  proof
    assume "sameAddress (Some w) (Some (toAddress c))"
    then have "sameAddress (Some (toAddress t)) (Some w)" unfolding c(2) using sameAddress_sym by blast
    then have "sameAddress (Some w) (Some actor)" using assms(3) by (rule sameAddress_trans)
    then show False using assms(1) that c(1,3) by (simp add: never_accepts_def)
  qed
  then show ?thesis by (simp add: keeps_from_def handed_over_def)
qed

lemma keeps_from_trans:
  assumes "keeps_from M w r x" "keeps_from M w x y"
  shows "keeps_from M w r y"
  unfolding keeps_from_def
proof (intro allI impI)
  fix m
  assume m: "r = Material m \<and> m_id m = M"
  then obtain m1 where m1: "x = Material m1" "m_id m1 = M" "userAddress m1 = userAddress m \<or> \<not> sameAddress (Some w) (userAddress m1)"
    using assms(1) unfolding keeps_from_def by blast
  then obtain m2 where m2: "y = Material m2" "m_id m2 = M" "userAddress m2 = userAddress m1 \<or> \<not> sameAddress (Some w) (userAddress m2)"
    using assms(2) unfolding keeps_from_def by blast
  have "userAddress m2 = userAddress m \<or> \<not> sameAddress (Some w) (userAddress m2)" using m1(3) m2(3) by auto
  then show "\<exists>m'. y = Material m' \<and> m_id m' = M \<and> (userAddress m' = userAddress m \<or> \<not> sameAddress (Some w) (userAddress m'))"
    using m2(1,2) by (intro exI [of _ m2] conjI)
qed

interpretation buyer: ownership_contract "offered_as offer" "keeps_from M w" "offers_as offer" "never_accepts offer M w" for offer M w
proof unfold_locales
  fix t c :: transfer and m :: material and actor :: string and now :: int
  assume "never_accepts offer M w (t_id t) actor" "offered_as offer (Transfer t)" "sameAddress (Some (toAddress t)) (Some actor)"
    "offered_as offer (Transfer c)" "t_id c = t_id t" "may_swap c m"
  from swap_keeps_from [OF this]
  show "offered_as offer (Material (handed_over c now m)) \<and> keeps_from M w (Material m) (Material (handed_over c now m))"
    by (simp add: offered_as_def)
qed (erule (1) keeps_from_trans | simp add: offered_as_def keeps_from_def offers_as_def proposal_def moved_to_def untouched_def)+

section \<open>The record of a transfer\<close>

definition recorded :: "transfer \<Rightarrow> bool" where
  "recorded t \<longleftrightarrow> t_history t \<noteq> [] \<and> h_action (last (t_history t)) \<in> set (actions (t_state t))"

definition row_recorded :: "row \<Rightarrow> bool" where
  "row_recorded r \<longleftrightarrow> (\<forall>t. r = Transfer t \<longrightarrow> recorded t)"

definition record_kept :: "transfer \<Rightarrow> transfer \<Rightarrow> bool" where
  "record_kept t t' \<longleftrightarrow> untouched t t' \<and> (\<exists>es. t_history t' = t_history t @ es) \<and> (\<not> is_live t \<longrightarrow> t' = t)"

definition row_kept :: "row \<Rightarrow> row \<Rightarrow> bool" where
  "row_kept r r' \<longleftrightarrow> (\<forall>t. r = Transfer t \<longrightarrow> (\<exists>t'. r' = Transfer t' \<and> record_kept t t'))"

lemma record_kept_refl: "record_kept t t"
  by (simp add: record_kept_def untouched_def)

lemma record_kept_trans: "record_kept t u \<Longrightarrow> record_kept u v \<Longrightarrow> record_kept t v"
  by (auto simp: record_kept_def untouched_def)

lemma row_kept_trans:
  assumes "row_kept r x" "row_kept x y"
  shows "row_kept r y"
  unfolding row_kept_def
proof (intro allI impI)
  fix t
  assume "r = Transfer t"
  then obtain u where u: "x = Transfer u" "record_kept t u" using assms(1) unfolding row_kept_def by blast
  then obtain v where "y = Transfer v" "record_kept u v" using assms(2) unfolding row_kept_def by blast
  then show "\<exists>t'. y = Transfer t' \<and> record_kept t t'" using record_kept_trans [OF u(2)] by blast
qed

interpretation recording: ownership_contract row_recorded row_kept "\<lambda>_ _ _ _. True" "\<lambda>_ _. True"
proof unfold_locales
  show "row_kept r x \<Longrightarrow> row_kept x y \<Longrightarrow> row_kept r y" for r x y by (rule row_kept_trans)
next
  fix t :: transfer and changes st and e :: history_entry
  assume "is_live t" "untouched t (changes t)" "h_action e \<in> set (actions st)"
  then show "row_recorded (Transfer (moved_to st changes e t)) \<and> row_kept (Transfer t) (Transfer (moved_to st changes e t))"
    by (simp add: row_recorded_def recorded_def row_kept_def record_kept_def moved_to_def untouched_def)
qed (auto simp: row_recorded_def recorded_def row_kept_def record_kept_refl proposal_def historyEntry_def)

section \<open>The guarantees\<close>

definition run_of :: "(row, unit, unit) database \<Rightarrow> (ownership_call, unit) move list \<Rightarrow> row list \<Rightarrow> (row, unit, unit, transfer_result) world" where
  "run_of D moves s = run D ownership_handler moves (world_of s)"

lemma seller_keeps:
  assumes "documented_db same_row D" "\<And>t. Transfer t \<in> set s \<Longrightarrow> t_material t = M \<Longrightarrow> fromAddress t \<noteq> u"
    and "n < length s" "s ! n = Material m" "m_id m = M" "userAddress m = Some u"
    and "\<And>i actor addressee ttl reason now. Initiate i M actor addressee ttl reason now \<in> begun moves \<Longrightarrow> \<not> sameAddress (Some u) (Some (js_trim actor))"
  shows "\<exists>m'. rows (run_of D moves s) ! n = Material m' \<and> userAddress m' = Some u"
proof -
  have "permitted (never_offers M u) (\<lambda>_ _. True) c" if "c \<in> begun moves" for c
    using that assms(7) by (cases c) (auto simp: never_offers_def)
  moreover have "all_rows (\<lambda>_. no_offer M u) s" using assms(2) by (auto simp: all_rows_def no_offer_def)
  ultimately have "evolves (keeps_owner M u) s (rows (run_of D moves s))"
    unfolding run_of_def by (intro seller.served.run_keeps(2) assms(1)) simp_all
  then show ?thesis using assms(3-6) unfolding evolves_def keeps_owner_def by blast
qed

lemma buyer_keeps:
  assumes "documented_db same_row D" "\<And>t. Transfer t \<in> set s \<Longrightarrow> offer (t_id t) = (t_material t, toAddress t)"
    and "\<And>i mat actor addressee ttl reason now. Initiate i mat actor addressee ttl reason now \<in> begun moves \<Longrightarrow> offer i = (mat, js_trim addressee)"
    and "n < length s" "s ! n = Material m"
    and "\<And>i actor now. Accept i actor now \<in> begun moves \<Longrightarrow> fst (offer i) = m_id m \<Longrightarrow> \<not> sameAddress (Some w) (Some (js_trim actor))"
  shows "\<exists>m'. rows (run_of D moves s) ! n = Material m' \<and> m_id m' = m_id m \<and>
    (userAddress m' = userAddress m \<or> \<not> sameAddress (Some w) (userAddress m'))"
proof -
  have "permitted (offers_as offer) (never_accepts offer (m_id m) w) c" if "c \<in> begun moves" for c
    using that assms(3,6) by (cases c) (auto simp: offers_as_def never_accepts_def)
  moreover have "all_rows (\<lambda>_. offered_as offer) s" using assms(2) by (auto simp: all_rows_def offered_as_def)
  ultimately have "evolves (keeps_from (m_id m) w) s (rows (run_of D moves s))"
    unfolding run_of_def by (intro buyer.served.run_keeps(2) assms(1)) simp_all
  then show ?thesis using assms(4,5) unfolding evolves_def keeps_from_def by blast
qed

text \<open>
  C4: ownership never moves on one party's say-so, under every interleaving of proposals, accepts,
  closings, recovery sweeps and disputes and every failure of the database: when no transfer of the
  material is on file and its owner has changed from \<open>u\<close> to \<open>w\<close>, somebody with the address \<open>u\<close>
  proposed a transfer of this material, and somebody with the address \<open>w\<close> accepted an offer of this
  material. The only hypothesis on the calls is that a fresh identifier stands for one proposal.
\<close>

theorem ownership_needs_both_parties:
  assumes "documented_db same_row D"
    and "\<forall>t. Transfer t \<in> set s \<longrightarrow> t_material t \<noteq> m_id m \<and> offer (t_id t) = (t_material t, toAddress t)"
    and "\<forall>i mat actor addressee ttl reason now. Initiate i mat actor addressee ttl reason now \<in> begun moves \<longrightarrow>
      offer i = (mat, js_trim addressee)"
    and "n < length s" "s ! n = Material m" "userAddress m = Some u"
    and "rows (run_of D moves s) ! n = Material m'" "userAddress m' = Some w" "w \<noteq> u"
  shows "(\<exists>i actor addressee ttl reason now. Initiate i (m_id m) actor addressee ttl reason now \<in> begun moves \<and>
      sameAddress (Some u) (Some (js_trim actor))) \<and>
    (\<exists>i actor now. Accept i actor now \<in> begun moves \<and> fst (offer i) = m_id m \<and> sameAddress (Some w) (Some (js_trim actor)))"
proof (rule conjI; rule ccontr)
  assume no: "\<not> (\<exists>i actor addressee ttl reason now. Initiate i (m_id m) actor addressee ttl reason now \<in> begun moves \<and>
      sameAddress (Some u) (Some (js_trim actor)))"
  have "\<exists>m'. rows (run_of D moves s) ! n = Material m' \<and> userAddress m' = Some u"
    by (rule seller_keeps [OF assms(1) _ assms(4,5) refl assms(6)]) (use assms(2) no in blast)+
  then show False using assms(7-9) by auto
next
  assume no: "\<not> (\<exists>i actor now. Accept i actor now \<in> begun moves \<and> fst (offer i) = m_id m \<and> sameAddress (Some w) (Some (js_trim actor)))"
  have "\<exists>m'. rows (run_of D moves s) ! n = Material m' \<and> m_id m' = m_id m \<and>
      (userAddress m' = userAddress m \<or> \<not> sameAddress (Some w) (userAddress m'))"
    by (rule buyer_keeps [where offer = offer, OF assms(1) _ _ assms(4,5)]) (use assms(2,3) no in blast)+
  then show False using assms(6-9) by (auto simp: sameAddress_def)
qed

text \<open>A handover in a run.\<close>

definition a_material :: material where
  "a_material = \<lparr>m_id = ''m1'', userAddress = Some ''alice'', isDeleted = False, m_status = Some ''published'',
     moderationStatus = None, m_visibility = None, previousOwnerAddress = None, ownershipTransferredAt = None,
     ownershipTransferId = None, m_version = 1\<rparr>"

definition works :: "nat \<Rightarrow> nat \<Rightarrow> (ownership_call, unit) move list" where
  "works n i = replicate n (Turn i (Works 0))"

definition handover :: "(ownership_call, unit) move list" where
  "handover = [Begin (Initiate ''t1'' ''m1'' ''Alice'' ''bobby'' None None 0)] @ works 3 0 @
     [Begin (Accept ''t1'' ''BOBBY'' 1000)] @ works 5 1"

definition owners :: "row list \<Rightarrow> string option list" where
  "owners rs = map (\<lambda>r. case r of Material m \<Rightarrow> userAddress m | _ \<Rightarrow> None) rs"

lemma handover_moves: "owners (rows (run_of (mem_db same_row) handover [Material a_material])) = [Some ''bobby'', None]"
  by code_simp

theorem ownership_needs_both_parties_witness:
  "\<exists>m'. rows (run_of (mem_db same_row) handover [Material a_material]) ! 0 = Material m' \<and> userAddress m' = Some ''bobby'' \<and>
    (\<exists>i actor addressee ttl reason now. Initiate i ''m1'' actor addressee ttl reason now \<in> begun handover \<and>
      sameAddress (Some ''alice'') (Some (js_trim actor))) \<and>
    (\<exists>i actor now. Accept i actor now \<in> begun handover \<and> sameAddress (Some ''bobby'') (Some (js_trim actor)))"
proof -
  let ?rows = "rows (run_of (mem_db same_row) handover [Material a_material])"
  have len: "length ?rows = 2" and own: "owners ?rows ! 0 = Some ''bobby''"
    using handover_moves by (auto simp: owners_def dest: arg_cong [where f = length])
  obtain m' where m': "?rows ! 0 = Material m'" "userAddress m' = Some ''bobby''"
    using own len by (cases "?rows ! 0") (auto simp: owners_def)
  have init: "Initiate i mat actor addressee ttl reason now \<in> begun handover \<Longrightarrow> mat = ''m1'' \<and> js_trim addressee = ''bobby''"
    for i mat actor addressee ttl reason now
    by (auto simp: begun_def handover_def works_def) code_simp
  have "(\<exists>i actor addressee ttl reason now. Initiate i (m_id a_material) actor addressee ttl reason now \<in> begun handover \<and>
      sameAddress (Some ''alice'') (Some (js_trim actor))) \<and>
    (\<exists>i actor now. Accept i actor now \<in> begun handover \<and> fst (''m1'', ''bobby'') = m_id a_material \<and>
      sameAddress (Some ''bobby'') (Some (js_trim actor)))"
    by (rule ownership_needs_both_parties [where offer = "\<lambda>_. (''m1'', ''bobby'')" and s = "[Material a_material]" and n = 0,
          OF mem_documented _ _ _ _ _ m'])
      (use init in \<open>auto simp: a_material_def\<close>)
  then show ?thesis using m' by (auto simp: a_material_def)
qed

text \<open>
  C20: closed transfers are final and the record of a transfer tells its state. Whatever the calls,
  their interleaving and the failures: a transfer on file keeps its identifier, material, parties,
  dates and every entry of its history; once it is accepted, declined, cancelled, expired or failed
  it never changes again; and the last entry of the history names the state.
\<close>

theorem closed_transfers_are_final:
  assumes "documented_db same_row D" "\<forall>t. Transfer t \<in> set s \<longrightarrow> recorded t"
  shows "(\<forall>n t. n < length s \<longrightarrow> s ! n = Transfer t \<longrightarrow>
      (\<exists>t'. rows (run_of D moves s) ! n = Transfer t' \<and> untouched t t' \<and>
        (\<exists>es. t_history t' = t_history t @ es) \<and> (\<not> is_live t \<longrightarrow> t' = t))) \<and>
    (\<forall>t. Transfer t \<in> set (rows (run_of D moves s)) \<longrightarrow> recorded t)"
proof -
  have p: "permitted (\<lambda>_ _ _ _. True) (\<lambda>_ _. True) c" for c by (cases c) simp_all
  have "all_rows (\<lambda>_. row_recorded) s" using assms(2) by (auto simp: all_rows_def row_recorded_def)
  from recording.served.run_keeps(1,2) [OF assms(1) this TrueI p, of moves]
  have k: "all_rows (\<lambda>_. row_recorded) (rows (run_of D moves s))" "evolves row_kept s (rows (run_of D moves s))"
    unfolding run_of_def by simp_all
  have "\<exists>t'. rows (run_of D moves s) ! n = Transfer t' \<and> record_kept t t'" if "n < length s" "s ! n = Transfer t" for n t
    using k(2) that unfolding evolves_def row_kept_def by blast
  moreover have "recorded t" if "Transfer t \<in> set (rows (run_of D moves s))" for t
    using k(1) that unfolding all_rows_def row_recorded_def by blast
  ultimately show ?thesis unfolding record_kept_def by blast
qed

text \<open>A transfer on file that was cancelled, and an attempt to accept it.\<close>

definition cancelled_transfer :: transfer where
  "cancelled_transfer = (proposal ''t1'' ''m1'' ''alice'' ''alice'' ''bobby'' None DEFAULT_TRANSFER_TTL_MS 0)
     \<lparr>t_state := Cancelled, cancelledAt := Some 5, t_history := [historyEntry ''initiated'' ''alice'' 0 None, historyEntry ''cancelled'' ''alice'' 5 None]\<rparr>"

theorem closed_transfers_are_final_witness:
  "rows (run_of (mem_db same_row) (Begin (Accept ''t1'' ''bobby'' 10) # works 5 0) [Transfer cancelled_transfer]) ! 0 =
    Transfer cancelled_transfer"
proof -
  have r: "\<forall>t. Transfer t \<in> set [Transfer cancelled_transfer] \<longrightarrow> recorded t"
    by (auto simp: cancelled_transfer_def recorded_def historyEntry_def)
  have "\<not> is_live cancelled_transfer" by (simp add: cancelled_transfer_def is_live_def)
  moreover have "0 < length [Transfer cancelled_transfer]" "[Transfer cancelled_transfer] ! 0 = Transfer cancelled_transfer"
    by simp_all
  ultimately show ?thesis
    using closed_transfers_are_final [OF mem_documented r, of "Begin (Accept ''t1'' ''bobby'' 10) # works 5 0"] by blast
qed

text \<open>
  The recipient claims an offer and stalls before the owner swap; the sweep takes the claim back
  after its lease, the owner cancels the offer, and then the stalled swap arrives.
\<close>

definition late_swap :: "(ownership_call, unit) move list" where
  "late_swap = [Begin (Initiate ''t1'' ''m1'' ''alice'' ''bobby'' None None 0)] @ works 3 0 @
     [Begin (Accept ''t1'' ''bobby'' 1000)] @ works 3 1 @
     [Begin (Recover 200000 100)] @ works 4 2 @
     [Begin (Cancel ''t1'' ''alice'' False 200001)] @ works 3 3 @ works 2 1"

definition row_shown :: "row \<Rightarrow> string option \<times> string" where
  "row_shown r = (case r of Material m \<Rightarrow> (userAddress m, []) | Transfer t \<Rightarrow> (None, state_name (t_state t)) | Dispute d \<Rightarrow> (None, []))"

definition result_shown :: "transfer_result \<Rightarrow> string" where
  "result_shown r = (case r of
     Accepted_as t (Some m) False \<Rightarrow> ''accepted'' | Closed t False \<Rightarrow> ''closed: '' @ state_name (t_state t)
   | Swept e c b \<Rightarrow> ''swept'' | Proposed t False \<Rightarrow> ''proposed'' | _ \<Rightarrow> [])"

text \<open>
  The lease of an accept is not checked when the owner is swapped. In this run the owner is told
  that the offer is cancelled, and the recipient that it is accepted; the transfer is cancelled for
  good, and the material belongs to the recipient.
\<close>

theorem cancelled_offer_still_moves:
  "map row_shown (rows (run_of (mem_db same_row) late_swap [Material a_material])) = [(Some ''bobby'', []), (None, ''cancelled'')] \<and>
   map result_shown (results (run_of (mem_db same_row) late_swap [Material a_material])) =
     [''proposed'', ''accepted'', ''swept'', ''closed: cancelled'']"
  by code_simp

end
