(* ===== verification/WorkflowLeases.thy ===== *)
theory WorkflowLeases imports AsyncStore begin

text \<open>
  \<open>src/lib/backend/workflowOrchestrator.js\<close> and \<open>src/lib/backend/workflowWorker.js\<close>: workflows that
  wait for the chain, claimed by workers under a lease with a fencing token. A call is the tree of
  its awaited calls over the documents of \<open>sync_state\<close>, \<open>materials\<close>, \<open>purchases\<close> and \<open>sync_events\<close>;
  it asks the clock, and the fresh token of a claim is an argument. One call \<open>Work\<close> is one turn of
  the worker's loop, without the refunds. Error texts are not modelled.
\<close>

section \<open>Documents\<close>

datatype workflow_state = Pending | Submitted | Confirmed | Failed_workflow | Needs_reconciliation | Poisoned

record workflow =
  w_id :: string
  w_type :: string
  w_user :: string
  w_state :: workflow_state
  meta_tokenURI :: "string option"
  meta_txHash :: "string option"
  meta_key :: "string option"
  retries :: int
  maxRetries :: int
  lastRetryAt :: "int option"
  poisoned :: bool
  poisonReason :: "string option"
  leaseOwner :: "string option"
  leaseExpiresAt :: "int option"
  fencingToken :: "string option"
  generation :: int
  claimCount :: int
  nextCheckAt :: "int option"
  w_txHash :: "string option"
  w_blockNumber :: "string option"
  w_tokenId :: "string option"
  confirmedAt :: "int option"
  errorReason :: "string option"
  failedAt :: "int option"
  retryError :: "string option"
  recoveryNote :: "string option"
  recoveredAt :: "int option"
  w_createdAt :: int
  w_updatedAt :: int

record material_data =
  d_user :: string
  d_tokenId :: "string option"
  d_txHash :: "string option"
  d_chainId :: "string option"
  d_metadataUrl :: "string option"
  d_fileUrl :: "string option"
  d_thumbnailUrl :: "string option"
  d_price :: "string option"
  d_visibility :: "string option"

record material =
  mat_workflow :: "string option"
  mat_data :: material_data
  mintTxHash :: "string option"
  mintStatus :: "string option"
  mintedAt :: "int option"
  mat_key :: "string option"

record purchase =
  p_workflow :: "string option"
  p_status :: string
  chainTxHash :: "string option"
  p_confirmedAt :: "int option"
  p_key :: "string option"

record sync_event =
  e_txHash :: string
  e_tokenId :: "string option"
  e_blockNumber :: "string option"

datatype row = Workflow workflow | Material material | Purchase purchase | Sync_event sync_event

fun same_row :: "row \<Rightarrow> row \<Rightarrow> bool" where
  "same_row (Workflow w) (Workflow v) = (w_id w = w_id v)"
| "same_row _ _ = False"

section \<open>Calls\<close>

text \<open>What is thrown: \<open>FencingTokenMismatchError\<close>, or the error of a call of the database.\<close>

datatype thrown = Fenced_off | Call_failed

datatype workflow_result =
    Created workflow
  | State_set "workflow option"
  | Found "workflow option"
  | Found_all "workflow list"
  | Persisted material
  | Claimed "workflow option"
  | Committed workflow
  | No_workflow
  | Turn_over
  | Threw thrown

type_synonym script = "(row, unit, int, workflow_result) async"

definition uncaught :: "thrown \<Rightarrow> script" where
  "uncaught e = Return (Threw e)"

fun workflow_where :: "(workflow \<Rightarrow> bool) \<Rightarrow> row \<Rightarrow> bool" where
  "workflow_where P (Workflow w) = P w"
| "workflow_where P _ = False"

fun on_workflow :: "(workflow \<Rightarrow> workflow) \<Rightarrow> row \<Rightarrow> row" where
  "on_workflow f (Workflow w) = Workflow (f w)"
| "on_workflow f r = r"

fun material_where :: "(material \<Rightarrow> bool) \<Rightarrow> row \<Rightarrow> bool" where
  "material_where P (Material m) = P m"
| "material_where P _ = False"

fun on_material :: "(material \<Rightarrow> material) \<Rightarrow> row \<Rightarrow> row" where
  "on_material f (Material m) = Material (f m)"
| "on_material f r = r"

fun purchase_where :: "(purchase \<Rightarrow> bool) \<Rightarrow> row \<Rightarrow> bool" where
  "purchase_where P (Purchase p) = P p"
| "purchase_where P _ = False"

fun on_purchase :: "(purchase \<Rightarrow> purchase) \<Rightarrow> row \<Rightarrow> row" where
  "on_purchase f (Purchase p) = Purchase (f p)"
| "on_purchase f r = r"

fun event_where :: "(sync_event \<Rightarrow> bool) \<Rightarrow> row \<Rightarrow> bool" where
  "event_where P (Sync_event e) = P e"
| "event_where P _ = False"

definition clock :: "(thrown \<Rightarrow> script) \<Rightarrow> (int \<Rightarrow> script) \<Rightarrow> script" where
  "clock err k = Await (Ask ()) (\<lambda>a. case a of Said t \<Rightarrow> k t | _ \<Rightarrow> err Call_failed)"

definition find_workflow :: "(thrown \<Rightarrow> script) \<Rightarrow> (workflow \<Rightarrow> bool) \<Rightarrow> (workflow option \<Rightarrow> script) \<Rightarrow> script" where
  "find_workflow err P k = Await (Find_one (workflow_where P))
     (\<lambda>a. case a of Row None \<Rightarrow> k None | Row (Some (Workflow w)) \<Rightarrow> k (Some w) | _ \<Rightarrow> err Call_failed)"

definition find_material :: "(thrown \<Rightarrow> script) \<Rightarrow> (material \<Rightarrow> bool) \<Rightarrow> (material option \<Rightarrow> script) \<Rightarrow> script" where
  "find_material err P k = Await (Find_one (material_where P))
     (\<lambda>a. case a of Row None \<Rightarrow> k None | Row (Some (Material m)) \<Rightarrow> k (Some m) | _ \<Rightarrow> err Call_failed)"

definition find_purchase :: "(thrown \<Rightarrow> script) \<Rightarrow> (purchase \<Rightarrow> bool) \<Rightarrow> (purchase option \<Rightarrow> script) \<Rightarrow> script" where
  "find_purchase err P k = Await (Find_one (purchase_where P))
     (\<lambda>a. case a of Row None \<Rightarrow> k None | Row (Some (Purchase p)) \<Rightarrow> k (Some p) | _ \<Rightarrow> err Call_failed)"

definition find_event :: "(thrown \<Rightarrow> script) \<Rightarrow> (sync_event \<Rightarrow> bool) \<Rightarrow> (sync_event option \<Rightarrow> script) \<Rightarrow> script" where
  "find_event err P k = Await (Find_one (event_where P))
     (\<lambda>a. case a of Row None \<Rightarrow> k None | Row (Some (Sync_event e)) \<Rightarrow> k (Some e) | _ \<Rightarrow> err Call_failed)"

fun workflows_of :: "row list \<Rightarrow> workflow list" where
  "workflows_of [] = []"
| "workflows_of (Workflow w # rs) = w # workflows_of rs"
| "workflows_of (_ # rs) = workflows_of rs"

definition find_workflows :: "(workflow \<Rightarrow> bool) \<Rightarrow> (workflow list \<Rightarrow> script) \<Rightarrow> script" where
  "find_workflows P k = Await (Find_all (workflow_where P)) (\<lambda>a. case a of Rows rs \<Rightarrow> k (workflows_of rs) | _ \<Rightarrow> uncaught Call_failed)"

definition update_workflow :: "(thrown \<Rightarrow> script) \<Rightarrow> (workflow \<Rightarrow> bool) \<Rightarrow> (workflow \<Rightarrow> workflow) \<Rightarrow> (workflow option \<Rightarrow> script) \<Rightarrow> script" where
  "update_workflow err P f k = Await (Update_one (workflow_where P) (on_workflow f) None)
     (\<lambda>a. case a of Updated None \<Rightarrow> k None | Updated (Some (Workflow w)) \<Rightarrow> k (Some w) | _ \<Rightarrow> err Call_failed)"

definition update_row :: "(thrown \<Rightarrow> script) \<Rightarrow> (row \<Rightarrow> bool) \<Rightarrow> (row \<Rightarrow> row) \<Rightarrow> script \<Rightarrow> script" where
  "update_row err P f k = Await (Update_one P f None) (\<lambda>a. case a of Updated _ \<Rightarrow> k | _ \<Rightarrow> err Call_failed)"

definition insert_row :: "(thrown \<Rightarrow> script) \<Rightarrow> row \<Rightarrow> script \<Rightarrow> script" where
  "insert_row err r k = Await (Insert_one r) (\<lambda>a. case a of Inserted _ \<Rightarrow> k | _ \<Rightarrow> err Call_failed)"

section \<open>Workflows\<close>

text \<open>\<open>applyTimestamps\<close> on an update: both times are set.\<close>

definition stamped :: "int \<Rightarrow> workflow \<Rightarrow> workflow" where
  "stamped t w = w\<lparr>w_createdAt := t, w_updatedAt := t\<rparr>"

definition or_int :: "int option \<Rightarrow> int \<Rightarrow> int" where
  "or_int v d = (case v of None \<Rightarrow> d | Some x \<Rightarrow> if x = 0 then d else x)"

definition new_workflow :: "string \<Rightarrow> string \<Rightarrow> string \<Rightarrow> string option \<Rightarrow> string option \<Rightarrow> string option \<Rightarrow> int option \<Rightarrow> int \<Rightarrow> workflow" where
  "new_workflow i type user uri tx key given now =
     \<lparr>w_id = i, w_type = type, w_user = js_lower user, w_state = Pending, meta_tokenURI = uri, meta_txHash = tx, meta_key = key,
      retries = 0, maxRetries = or_int given 5, lastRetryAt = None, poisoned = False, poisonReason = None, leaseOwner = None,
      leaseExpiresAt = None, fencingToken = None, generation = 0, claimCount = 0, nextCheckAt = None, w_txHash = None,
      w_blockNumber = None, w_tokenId = None, confirmedAt = None, errorReason = None, failedAt = None, retryError = None,
      recoveryNote = None, recoveredAt = None, w_createdAt = now, w_updatedAt = now\<rparr>"

definition createWorkflow :: "string \<Rightarrow> string \<Rightarrow> string \<Rightarrow> string option \<Rightarrow> string option \<Rightarrow> string option \<Rightarrow> int option \<Rightarrow> script" where
  "createWorkflow i type user uri tx key given =
     clock uncaught (\<lambda>now. let w = new_workflow i type user uri tx key given now in
       insert_row uncaught (Workflow w) (Return (Created w)))"

definition updateWorkflowState :: "(thrown \<Rightarrow> script) \<Rightarrow> string \<Rightarrow> workflow_state \<Rightarrow> (workflow \<Rightarrow> workflow) \<Rightarrow>
    (workflow option \<Rightarrow> script) \<Rightarrow> script" where
  "updateWorkflowState err i st updates k =
     clock err (\<lambda>t. update_workflow err (\<lambda>w. w_id w = i) (\<lambda>w. stamped t ((updates w)\<lparr>w_state := st\<rparr>)) k)"

definition getWorkflow :: "string \<Rightarrow> script" where
  "getWorkflow i = find_workflow uncaught (\<lambda>w. w_id w = i) (\<lambda>r. Return (Found r))"

definition getWorkflowsByUser :: "string \<Rightarrow> string option \<Rightarrow> workflow_state option \<Rightarrow> nat \<Rightarrow> nat \<Rightarrow> script" where
  "getWorkflowsByUser user type st limit skip =
     find_workflows (\<lambda>w. w_user w = js_lower user \<and> (truthy type \<longrightarrow> type = Some (w_type w)) \<and>
         (case st of None \<Rightarrow> True | Some s \<Rightarrow> w_state w = s))
       (\<lambda>ws. Return (Found_all (let rest = drop skip (sort_key (\<lambda>w. - w_createdAt w) ws) in
          if limit = 0 then rest else take limit rest)))"

definition QUIET_MS :: int where "QUIET_MS = 15 * 60 * 1000"

definition unattended :: "int \<Rightarrow> workflow \<Rightarrow> bool" where
  "unattended now w \<longleftrightarrow> w_state w = Needs_reconciliation \<or>
     w_state w = Submitted \<and> (case lastRetryAt w of Some t \<Rightarrow> t < now - QUIET_MS | None \<Rightarrow> False)"

definition getWorkflowsNeedingReconciliation :: "nat \<Rightarrow> script" where
  "getWorkflowsNeedingReconciliation limit =
     clock uncaught (\<lambda>now. find_workflows (unattended now) (\<lambda>ws. Return (Found_all
       (let sorted = sort_key w_updatedAt ws in if limit = 0 then sorted else take limit sorted))))"

definition checkIdempotency :: "string \<Rightarrow> string \<Rightarrow> string \<Rightarrow> script" where
  "checkIdempotency type user key =
     find_workflow uncaught (\<lambda>w. w_type w = type \<and> w_user w = js_lower user \<and> meta_key w = Some key \<and>
       w_state w \<in> {Pending, Submitted, Confirmed}) (\<lambda>r. Return (Found r))"

section \<open>Leases and fencing tokens\<close>

definition WORKFLOW_LEASE_DEFAULT_TTL_MS :: int where "WORKFLOW_LEASE_DEFAULT_TTL_MS = 2 * 60 * 1000"

definition claimable :: "int \<Rightarrow> workflow \<Rightarrow> bool" where
  "claimable now w \<longleftrightarrow> \<not> poisoned w \<and> unattended now w \<and> (case leaseExpiresAt w of Some t \<Rightarrow> t \<le> now | None \<Rightarrow> True)"

definition claimed_by :: "string \<Rightarrow> string \<Rightarrow> int \<Rightarrow> int \<Rightarrow> workflow \<Rightarrow> workflow" where
  "claimed_by tok worker ttl now w = w\<lparr>leaseOwner := Some worker, leaseExpiresAt := Some (now + ttl), fencingToken := Some tok,
     w_updatedAt := now, generation := generation w + 1, claimCount := claimCount w + 1\<rparr>"

definition claimWorkflowForProcessing :: "(thrown \<Rightarrow> script) \<Rightarrow> string \<Rightarrow> string \<Rightarrow> int \<Rightarrow> (workflow option \<Rightarrow> script) \<Rightarrow> script" where
  "claimWorkflowForProcessing err tok worker ttl k =
     clock err (\<lambda>now. update_workflow err (claimable now) (claimed_by tok worker ttl now) k)"

definition lease_live :: "int \<Rightarrow> workflow \<Rightarrow> bool" where
  "lease_live now w = (case leaseExpiresAt w of Some t \<Rightarrow> t > now | None \<Rightarrow> False)"

definition renewWorkflowLease :: "(thrown \<Rightarrow> script) \<Rightarrow> string \<Rightarrow> string \<Rightarrow> string \<Rightarrow> int \<Rightarrow> (workflow \<Rightarrow> script) \<Rightarrow> script" where
  "renewWorkflowLease err i tok worker ttl k =
     clock err (\<lambda>now. update_workflow err
       (\<lambda>w. w_id w = i \<and> fencingToken w = Some tok \<and> leaseOwner w = Some worker \<and> lease_live now w)
       (\<lambda>w. w\<lparr>leaseExpiresAt := Some (now + ttl), w_updatedAt := now\<rparr>)
       (\<lambda>r. case r of None \<Rightarrow> err Fenced_off | Some w \<Rightarrow> k w))"

definition released :: "workflow \<Rightarrow> workflow" where
  "released w = w\<lparr>leaseOwner := None, leaseExpiresAt := None, fencingToken := None\<rparr>"

definition transitionWorkflow :: "(thrown \<Rightarrow> script) \<Rightarrow> string \<Rightarrow> string \<Rightarrow> workflow_state \<Rightarrow> (workflow \<Rightarrow> workflow) \<Rightarrow> (workflow \<Rightarrow> script) \<Rightarrow> script" where
  "transitionWorkflow err i tok st updates k =
     clock err (\<lambda>now. update_workflow err (\<lambda>w. w_id w = i \<and> fencingToken w = Some tok \<and> lease_live now w)
       (\<lambda>w. stamped now (released ((updates w)\<lparr>w_state := st, generation := generation w + 1\<rparr>)))
       (\<lambda>r. case r of None \<Rightarrow> err Fenced_off | Some w \<Rightarrow> k w))"

definition poisonWorkflow :: "(thrown \<Rightarrow> script) \<Rightarrow> string \<Rightarrow> string \<Rightarrow> (workflow option \<Rightarrow> script) \<Rightarrow> script" where
  "poisonWorkflow err i reason k =
     clock err (\<lambda>now. update_workflow err (\<lambda>w. w_id w = i)
       (\<lambda>w. stamped now (released (w\<lparr>w_state := Poisoned, poisoned := True, poisonReason := Some reason\<rparr>))) k)"

definition recoverWorkflow :: "string \<Rightarrow> string option \<Rightarrow> script" where
  "recoverWorkflow i reason =
     clock uncaught (\<lambda>now. update_workflow uncaught (\<lambda>w. w_id w = i)
       (\<lambda>w. stamped now (released (w\<lparr>poisoned := False, poisonReason := None, retries := 0, recoveryNote := Some (or_default reason ''Recovered by operator''),
          recoveredAt := Some now, w_state := Needs_reconciliation, generation := generation w + 1\<rparr>)))
       (\<lambda>r. Return (State_set r)))"

text \<open>A change of state with the token when one is given, and without it otherwise.\<close>

definition set_state :: "(thrown \<Rightarrow> script) \<Rightarrow> string \<Rightarrow> string option \<Rightarrow> workflow_state \<Rightarrow> (workflow \<Rightarrow> workflow) \<Rightarrow>
    (workflow option \<Rightarrow> script) \<Rightarrow> script" where
  "set_state err i tok st updates k =
     (if truthy tok then transitionWorkflow err i (the tok) st updates (\<lambda>w. k (Some w)) else updateWorkflowState err i st updates k)"

record tx_details =
  tx_hash :: "string option"
  tx_block :: "string option"
  tx_token :: "string option"

definition confirmWorkflow :: "(thrown \<Rightarrow> script) \<Rightarrow> string \<Rightarrow> tx_details \<Rightarrow> string option \<Rightarrow> (workflow option \<Rightarrow> script) \<Rightarrow> script" where
  "confirmWorkflow err i d tok k =
     clock err (\<lambda>t. set_state err i tok Confirmed
       (\<lambda>w. w\<lparr>w_txHash := tx_hash d, w_blockNumber := tx_block d, w_tokenId := tx_token d, confirmedAt := Some t\<rparr>) k)"

definition failWorkflow :: "(thrown \<Rightarrow> script) \<Rightarrow> string \<Rightarrow> string \<Rightarrow> string option \<Rightarrow> (workflow option \<Rightarrow> script) \<Rightarrow> script" where
  "failWorkflow err i reason tok k =
     clock err (\<lambda>t. set_state err i tok Failed_workflow (\<lambda>w. w\<lparr>errorReason := Some reason, failedAt := Some t\<rparr>) k)"

definition addRetryAttempt :: "(thrown \<Rightarrow> script) \<Rightarrow> string \<Rightarrow> string \<Rightarrow> string option \<Rightarrow> (workflow option \<Rightarrow> script) \<Rightarrow> script" where
  "addRetryAttempt err i reason tok k =
     clock err (\<lambda>now. find_workflow err (\<lambda>w. w_id w = i) (\<lambda>r. case r of
       None \<Rightarrow> k None
     | Some w \<Rightarrow>
         let limit = or_int (Some (maxRetries w)) 5; n = retries w + 1 in
         if n \<ge> limit
         then set_state err i tok Poisoned (\<lambda>v. v\<lparr>poisoned := True, poisonReason := Some reason, retryError := Some reason,
             lastRetryAt := Some now, retries := n\<rparr>) k
         else set_state err i tok (w_state w) (\<lambda>v. v\<lparr>retryError := Some reason, lastRetryAt := Some now, retries := n\<rparr>) k))"

definition persistMaterialRecord :: "string \<Rightarrow> material_data \<Rightarrow> script" where
  "persistMaterialRecord i d =
     (let m = \<lparr>mat_workflow = None, mat_data = d, mintTxHash = None, mintStatus = None, mintedAt = None, mat_key = None\<rparr> in
      insert_row uncaught (Material m)
        (confirmWorkflow uncaught i \<lparr>tx_hash = d_txHash d, tx_block = None, tx_token = d_tokenId d\<rparr> None (\<lambda>_. Return (Persisted m))))"

section \<open>The worker\<close>

text \<open>
  Each function of the worker ends in \<open>stop\<close> or throws to \<open>err\<close>. Its own handler of errors drops a
  lost fencing token and records a retry for anything else.
\<close>

definition retry_on :: "(thrown \<Rightarrow> script) \<Rightarrow> workflow \<Rightarrow> script \<Rightarrow> thrown \<Rightarrow> script" where
  "retry_on err w stop e =
     (case e of Fenced_off \<Rightarrow> stop
      | Call_failed \<Rightarrow> addRetryAttempt err (w_id w) ''error'' (fencingToken w) (\<lambda>_. stop))"

definition minted :: "workflow \<Rightarrow> sync_event \<Rightarrow> int \<Rightarrow> material \<Rightarrow> material" where
  "minted w e now m = m\<lparr>mat_data := (mat_data m)\<lparr>d_tokenId := e_tokenId e\<rparr>, mintTxHash := meta_txHash w,
     mintStatus := Some ''confirmed'', mintedAt := Some now, mat_key := Some (w_id w)\<rparr>"

definition paid :: "workflow \<Rightarrow> int \<Rightarrow> purchase \<Rightarrow> purchase" where
  "paid w now p = p\<lparr>p_status := ''confirmed'', p_confirmedAt := Some now, p_key := Some (w_id w)\<rparr>"

definition reconcileTransaction :: "(thrown \<Rightarrow> script) \<Rightarrow> workflow \<Rightarrow> script \<Rightarrow> script" where
  "reconcileTransaction err w stop =
     (let caught = retry_on err w stop in
      find_event caught (\<lambda>e. Some (e_txHash e) = meta_txHash w) (\<lambda>r. case r of
        None \<Rightarrow> addRetryAttempt caught (w_id w) ''Transaction not yet indexed'' (fencingToken w) (\<lambda>_. stop)
      | Some e \<Rightarrow>
          if w_type w = ''material_registration''
          then confirmWorkflow caught (w_id w) \<lparr>tx_hash = meta_txHash w, tx_block = e_blockNumber e, tx_token = e_tokenId e\<rparr> (fencingToken w)
            (\<lambda>_. clock caught (\<lambda>now. update_row caught (material_where (\<lambda>m. mat_workflow m = Some (w_id w))) (on_material (minted w e now)) stop))
          else if w_type w = ''purchase''
          then confirmWorkflow caught (w_id w) \<lparr>tx_hash = meta_txHash w, tx_block = None, tx_token = None\<rparr> (fencingToken w)
            (\<lambda>_. clock caught (\<lambda>now. update_row caught (purchase_where (\<lambda>p. p_workflow p = Some (w_id w))) (on_purchase (paid w now)) stop))
          else stop))"

definition check_registration :: "(thrown \<Rightarrow> script) \<Rightarrow> workflow \<Rightarrow> script \<Rightarrow> script" where
  "check_registration caught w stop =
     (if truthy (meta_tokenURI w) \<and> \<not> truthy (meta_txHash w)
      then clock caught (\<lambda>t. updateWorkflowState caught (w_id w) (w_state w) (\<lambda>v. v\<lparr>nextCheckAt := Some (t + 5 * 60 * 1000)\<rparr>) (\<lambda>_. stop))
      else if truthy (meta_txHash w) then reconcileTransaction caught w stop else stop)"

definition processMaterialRegistration :: "(thrown \<Rightarrow> script) \<Rightarrow> workflow \<Rightarrow> script \<Rightarrow> script" where
  "processMaterialRegistration err w stop =
     (let caught = retry_on err w stop in
      find_material caught (\<lambda>m. mat_workflow m = Some (w_id w)) (\<lambda>r. case r of
        Some m \<Rightarrow>
          if truthy (d_tokenId (mat_data m))
          then confirmWorkflow caught (w_id w) \<lparr>tx_hash = mintTxHash m, tx_block = None, tx_token = d_tokenId (mat_data m)\<rparr> (fencingToken w) (\<lambda>_. stop)
          else check_registration caught w stop
      | None \<Rightarrow> check_registration caught w stop))"

definition processPurchase :: "(thrown \<Rightarrow> script) \<Rightarrow> workflow \<Rightarrow> script \<Rightarrow> script" where
  "processPurchase err w stop =
     (let caught = retry_on err w stop; reconcile = (if truthy (meta_txHash w) then reconcileTransaction caught w stop else stop) in
      find_purchase caught (\<lambda>p. p_workflow p = Some (w_id w)) (\<lambda>r. case r of
        Some p \<Rightarrow>
          if p_status p = ''confirmed''
          then confirmWorkflow caught (w_id w) \<lparr>tx_hash = chainTxHash p, tx_block = None, tx_token = None\<rparr> (fencingToken w) (\<lambda>_. stop)
          else reconcile
      | None \<Rightarrow> reconcile))"

definition pollingInterval :: int where "pollingInterval = 30000"

definition poison_on :: "workflow \<Rightarrow> thrown \<Rightarrow> script" where
  "poison_on w e =
     (case e of Fenced_off \<Rightarrow> Return Turn_over
      | Call_failed \<Rightarrow> poisonWorkflow (\<lambda>_. Return Turn_over) (w_id w) ''Unexpected worker error'' (\<lambda>_. Return Turn_over))"

definition work_on :: "string \<Rightarrow> string \<Rightarrow> workflow \<Rightarrow> script" where
  "work_on tok worker w =
     renewWorkflowLease (poison_on w) (w_id w) tok worker WORKFLOW_LEASE_DEFAULT_TTL_MS (\<lambda>_.
       if w_type w = ''material_registration'' then processMaterialRegistration (poison_on w) w (Return Turn_over)
       else if w_type w = ''purchase'' then processPurchase (poison_on w) w (Return Turn_over)
       else failWorkflow (poison_on w) (w_id w) ''Unknown workflow type'' (fencingToken w) (\<lambda>_. Return Turn_over))"

definition runWorker :: "string \<Rightarrow> string \<Rightarrow> script" where
  "runWorker tok worker =
     claimWorkflowForProcessing (\<lambda>_. Return Turn_over) tok worker pollingInterval
       (\<lambda>r. case r of None \<Rightarrow> Return Turn_over | Some w \<Rightarrow> work_on tok worker w)"

section \<open>The system\<close>

datatype workflow_call =
    Create string string string "string option" "string option" "string option" "int option"
  | Set_state string workflow_state "workflow \<Rightarrow> workflow"
  | Get string
  | By_user string "string option" "workflow_state option" nat nat
  | Needing nat
  | Check string string string
  | Persist string material_data
  | Claim string string int
  | Renew string string string int
  | Transition string string workflow_state "workflow \<Rightarrow> workflow"
  | Poison string string
  | Recover string "string option"
  | Confirm string tx_details "string option"
  | Fail string string "string option"
  | Retry string string "string option"
  | Work string string

fun workflow_handler :: "workflow_call \<Rightarrow> script" where
  "workflow_handler (Create i type user uri tx key given) = createWorkflow i type user uri tx key given"
| "workflow_handler (Set_state i st updates) = updateWorkflowState uncaught i st updates (\<lambda>r. Return (State_set r))"
| "workflow_handler (Get i) = getWorkflow i"
| "workflow_handler (By_user user type st limit skip) = getWorkflowsByUser user type st limit skip"
| "workflow_handler (Needing limit) = getWorkflowsNeedingReconciliation limit"
| "workflow_handler (Check type user key) = checkIdempotency type user key"
| "workflow_handler (Persist i d) = persistMaterialRecord i d"
| "workflow_handler (Claim tok worker ttl) = claimWorkflowForProcessing uncaught tok worker ttl (\<lambda>r. Return (Claimed r))"
| "workflow_handler (Renew i tok worker ttl) = renewWorkflowLease uncaught i tok worker ttl (\<lambda>w. Return (Committed w))"
| "workflow_handler (Transition i tok st updates) = transitionWorkflow uncaught i tok st updates (\<lambda>w. Return (Committed w))"
| "workflow_handler (Poison i reason) = poisonWorkflow uncaught i reason (\<lambda>r. Return (State_set r))"
| "workflow_handler (Recover i reason) = recoverWorkflow i reason"
| "workflow_handler (Confirm i d tok) = confirmWorkflow uncaught i d tok (\<lambda>r. Return (State_set r))"
| "workflow_handler (Fail i reason tok) = failWorkflow uncaught i reason tok (\<lambda>r. Return (State_set r))"
| "workflow_handler (Retry i reason tok) = addRetryAttempt uncaught i reason tok
     (\<lambda>r. case r of None \<Rightarrow> Return No_workflow | Some w \<Rightarrow> Return (State_set (Some w)))"
| "workflow_handler (Work tok worker) = runWorker tok worker"

end
