(* ===== verification/WorkflowSafety.thy ===== *)
theory WorkflowSafety imports WorkflowLeases begin

text \<open>
  What the leases and fencing tokens guarantee. The locale \<open>lease_contract\<close> states what each change
  of a workflow must keep and when a call may report success, and proves once that every call keeps
  it; it is interpreted for a token that has been replaced and for the owners of a generation.
\<close>

section \<open>The contract of the calls\<close>

definition inert :: "(workflow \<Rightarrow> workflow) \<Rightarrow> bool" where
  "inert f \<longleftrightarrow> (\<forall>w. w_id (f w) = w_id w \<and> generation (f w) = generation w \<and> claimCount (f w) = claimCount w \<and>
     fencingToken (f w) = fencingToken w \<and> leaseOwner (f w) = leaseOwner w \<and> leaseExpiresAt (f w) = leaseExpiresAt w)"

text \<open>The token a call presents.\<close>

fun presented :: "workflow_call \<Rightarrow> string option" where
  "presented (Renew i tok worker ttl) = Some tok"
| "presented (Transition i tok st updates) = Some tok"
| "presented (Confirm i d tok) = (if truthy tok then tok else None)"
| "presented (Fail i reason tok) = (if truthy tok then tok else None)"
| "presented (Retry i reason tok) = (if truthy tok then tok else None)"
| "presented _ = None"

text \<open>The calls of a system whose claims draw only some tokens, and whose callers leave the lease alone.\<close>

fun orderly :: "(string \<Rightarrow> bool) \<Rightarrow> workflow_call \<Rightarrow> bool" where
  "orderly draws (Claim tok worker ttl) = draws tok"
| "orderly draws (Work tok worker) = draws tok"
| "orderly draws (Set_state i st updates) = inert updates"
| "orderly draws (Transition i tok st updates) = inert updates"
| "orderly draws _ = True"

lemma on_row_where [simp]:
  "workflow_where P r \<longleftrightarrow> (\<exists>w. r = Workflow w \<and> P w)" "material_where Q r \<longleftrightarrow> (\<exists>m. r = Material m \<and> Q m)"
  "purchase_where Z r \<longleftrightarrow> (\<exists>p. r = Purchase p \<and> Z p)" "event_where E r \<longleftrightarrow> (\<exists>e. r = Sync_event e \<and> E e)"
  by (cases r; simp)+

locale lease_contract = row_contract same_row "\<lambda>_. ok" R
  for ok :: "row \<Rightarrow> bool" and R :: "row \<Rightarrow> row \<Rightarrow> bool" +
  fixes draws :: "string \<Rightarrow> bool" and promise :: "workflow_call \<Rightarrow> workflow_result \<Rightarrow> bool"
  assumes new_ok: "ok (Workflow (new_workflow i type user uri tx key given now))"
    and claim_ok: "draws tok \<Longrightarrow> ok (Workflow w) \<Longrightarrow> claimable now w \<Longrightarrow>
      ok (Workflow (claimed_by tok worker ttl now w)) \<and> R (Workflow w) (Workflow (claimed_by tok worker ttl now w))"
    and renew_ok: "ok (Workflow w) \<Longrightarrow>
      ok (Workflow (w\<lparr>leaseExpiresAt := e, w_updatedAt := now\<rparr>)) \<and> R (Workflow w) (Workflow (w\<lparr>leaseExpiresAt := e, w_updatedAt := now\<rparr>))"
    and fenced_ok: "ok (Workflow w) \<Longrightarrow> inert f \<Longrightarrow>
      ok (Workflow (stamped now (released ((f w)\<lparr>w_state := st, generation := generation w + 1\<rparr>)))) \<and>
      R (Workflow w) (Workflow (stamped now (released ((f w)\<lparr>w_state := st, generation := generation w + 1\<rparr>))))"
    and unfenced_ok: "ok (Workflow w) \<Longrightarrow> inert f \<Longrightarrow>
      ok (Workflow (stamped now ((f w)\<lparr>w_state := st\<rparr>))) \<and> R (Workflow w) (Workflow (stamped now ((f w)\<lparr>w_state := st\<rparr>)))"
    and poison_ok: "ok (Workflow w) \<Longrightarrow> inert f \<Longrightarrow>
      ok (Workflow (stamped now (released (f w)))) \<and> R (Workflow w) (Workflow (stamped now (released (f w))))"
    and other_ok: "(\<And>w. r \<noteq> Workflow w) \<Longrightarrow> ok r" "(\<And>w. r \<noteq> Workflow w) \<Longrightarrow> R r r'"
    and refused: "promise c (Threw th)" "promise c No_workflow"
    and unasked: "presented c = None \<Longrightarrow> promise c res"
    and held: "presented c = Some tok \<Longrightarrow> ok (Workflow w) \<Longrightarrow> fencingToken w = Some tok \<Longrightarrow> promise c res"
begin

abbreviation sound :: "workflow_call \<Rightarrow> script \<Rightarrow> bool" where
  "sound c p \<equiv> good same_row (all_rows (\<lambda>_. ok)) (evolves R) (\<lambda>res _. promise c res) p (\<lambda>_. True)"

lemma under:
  "(B \<Longrightarrow> sound c p) \<Longrightarrow> good same_row (all_rows (\<lambda>_. ok)) (evolves R) (\<lambda>res _. promise c res) p (\<lambda>_. B)"
  by (cases B) (auto intro: good_absurd)

lemma read_rule:
  fixes k :: "(row, int) reply \<Rightarrow> script"
  shows "reads q \<Longrightarrow> (\<And>a. sound c (k a)) \<Longrightarrow> sound c (Await q k)"
  by (rule good_read) auto

lemma uncaught_sound [simp]: "sound c (uncaught e)"
  by (simp add: uncaught_def refused)

lemma result_sound: "presented c = None \<Longrightarrow> sound c (Return res)"
  by (simp add: unasked)

lemma clock_rule: "(\<And>e. sound c (err e)) \<Longrightarrow> (\<And>t. sound c (k t)) \<Longrightarrow> sound c (clock err k)"
  unfolding clock_def by (rule read_rule) (auto split: reply.splits)

lemma find_workflow_rule: "(\<And>e. sound c (err e)) \<Longrightarrow> (\<And>x. sound c (k x)) \<Longrightarrow> sound c (find_workflow err P k)"
  unfolding find_workflow_def by (rule read_rule) (auto split: reply.splits option.splits row.splits)

lemma find_material_rule: "(\<And>e. sound c (err e)) \<Longrightarrow> (\<And>x. sound c (k x)) \<Longrightarrow> sound c (find_material err P k)"
  unfolding find_material_def by (rule read_rule) (auto split: reply.splits option.splits row.splits)

lemma find_purchase_rule: "(\<And>e. sound c (err e)) \<Longrightarrow> (\<And>x. sound c (k x)) \<Longrightarrow> sound c (find_purchase err P k)"
  unfolding find_purchase_def by (rule read_rule) (auto split: reply.splits option.splits row.splits)

lemma find_event_rule: "(\<And>e. sound c (err e)) \<Longrightarrow> (\<And>x. sound c (k x)) \<Longrightarrow> sound c (find_event err P k)"
  unfolding find_event_def by (rule read_rule) (auto split: reply.splits option.splits row.splits)

lemma find_workflows_rule: "(\<And>ws. sound c (k ws)) \<Longrightarrow> sound c (find_workflows P k)"
  unfolding find_workflows_def by (rule read_rule) (auto split: reply.splits)

lemma update_rule:
  fixes k :: "(row, int) reply \<Rightarrow> script"
  assumes "\<And>r. ok r \<Longrightarrow> P r \<Longrightarrow> R r (f r) \<and> ok (f r)"
    and "\<And>a. (\<And>r. a = Updated (Some r) \<Longrightarrow> \<exists>x. ok x \<and> P x \<and> r = f x) \<Longrightarrow> sound c (k a)"
  shows "sound c (Await (Update_one P f None) k)"
proof (rule good_updated [where K' = "\<lambda>r _. \<exists>x. ok x \<and> P x \<and> r = f x"])
  fix r
  show "good same_row (all_rows (\<lambda>_. ok)) (evolves R) (\<lambda>res _. promise c res) (k (Updated (Some r))) (\<lambda>_. \<exists>x. ok x \<and> P x \<and> r = f x)"
    by (rule under, rule assms(2)) auto
next
  fix a :: "(row, int) reply"
  assume "\<forall>r. a \<noteq> Updated (Some r)"
  then show "sound c (k a)" by (intro assms(2)) blast
qed (use assms(1) in \<open>auto simp: all_rows_def stays_def\<close>)

lemma update_workflow_rule:
  assumes "\<And>w. ok (Workflow w) \<Longrightarrow> P w \<Longrightarrow> ok (Workflow (f w)) \<and> R (Workflow w) (Workflow (f w))"
    and "\<And>e. sound c (err e)" "sound c (k None)" "\<And>v w. ok (Workflow w) \<Longrightarrow> P w \<Longrightarrow> sound c (k (Some v))"
  shows "sound c (update_workflow err P f k)"
  unfolding update_workflow_def
proof (rule update_rule)
  fix a :: "(row, int) reply"
  assume a: "\<And>r. a = Updated (Some r) \<Longrightarrow> \<exists>x. ok x \<and> workflow_where P x \<and> r = on_workflow f x"
  have "sound c (k (Some v))" if "a = Updated (Some (Workflow v))" for v
    using a [OF that] assms(4) by auto
  then show "sound c (case a of Updated None \<Rightarrow> k None | Updated (Some (Workflow w)) \<Rightarrow> k (Some w) | _ \<Rightarrow> err Call_failed)"
    using assms(2,3) by (auto split: reply.splits option.splits row.splits)
qed (use assms(1) in auto)

lemma update_other_rule:
  assumes "\<And>r. P r \<Longrightarrow> (\<forall>w. r \<noteq> Workflow w) \<and> (\<forall>w. f r \<noteq> Workflow w)" "\<And>e. sound c (err e)" "sound c k"
  shows "sound c (update_row err P f k)"
  unfolding update_row_def by (rule update_rule) (use assms other_ok in \<open>auto split: reply.splits\<close>)

lemma insert_rule: "ok r \<Longrightarrow> (\<And>e. sound c (err e)) \<Longrightarrow> sound c k \<Longrightarrow> sound c (insert_row err r k)"
  unfolding insert_row_def by (rule good_insert) (auto simp: all_rows_def split: reply.splits)

text \<open>The operations.\<close>

lemma set_unfenced_sound:
  "inert f \<Longrightarrow> (\<And>e. sound c (err e)) \<Longrightarrow> (\<And>r. sound c (k r)) \<Longrightarrow> sound c (updateWorkflowState err i st f k)"
  unfolding updateWorkflowState_def by (intro clock_rule update_workflow_rule unfenced_ok)

lemma claim_sound:
  "draws tok \<Longrightarrow> (\<And>e. sound c (err e)) \<Longrightarrow> (\<And>r. sound c (k r)) \<Longrightarrow> sound c (claimWorkflowForProcessing err tok worker ttl k)"
  unfolding claimWorkflowForProcessing_def by (intro clock_rule update_workflow_rule claim_ok)

text \<open>After a call with a token, some workflow carries it.\<close>

definition carried :: "string \<Rightarrow> bool" where
  "carried tok \<longleftrightarrow> (\<exists>w. ok (Workflow w) \<and> fencingToken w = Some tok)"

lemma renew_sound:
  "(\<And>e. sound c (err e)) \<Longrightarrow> (\<And>w. carried tok \<Longrightarrow> sound c (k w)) \<Longrightarrow> sound c (renewWorkflowLease err i tok worker ttl k)"
  unfolding renewWorkflowLease_def
  by (intro clock_rule update_workflow_rule renew_ok) (auto simp: carried_def)

lemma transition_sound:
  "inert f \<Longrightarrow> (\<And>e. sound c (err e)) \<Longrightarrow> (\<And>w. carried tok \<Longrightarrow> sound c (k w)) \<Longrightarrow> sound c (transitionWorkflow err i tok st f k)"
  unfolding transitionWorkflow_def
  by (intro clock_rule update_workflow_rule fenced_ok) (auto simp: carried_def)

lemma poison_sound: "(\<And>e. sound c (err e)) \<Longrightarrow> (\<And>r. sound c (k r)) \<Longrightarrow> sound c (poisonWorkflow err i reason k)"
  unfolding poisonWorkflow_def by (intro clock_rule update_workflow_rule poison_ok) (auto simp: inert_def)

lemma set_state_sound:
  assumes "inert f" "\<And>e. sound c (err e)" "\<And>r. (\<And>t. tok = Some t \<Longrightarrow> t \<noteq> [] \<Longrightarrow> carried t) \<Longrightarrow> sound c (k r)"
  shows "sound c (set_state err i tok st f k)"
  unfolding set_state_def using assms
  by (auto intro!: transition_sound set_unfenced_sound simp: truthy_def split: option.splits)

lemma confirm_sound:
  "(\<And>e. sound c (err e)) \<Longrightarrow> (\<And>r. (\<And>t. tok = Some t \<Longrightarrow> t \<noteq> [] \<Longrightarrow> carried t) \<Longrightarrow> sound c (k r)) \<Longrightarrow> sound c (confirmWorkflow err i d tok k)"
  unfolding confirmWorkflow_def by (intro clock_rule set_state_sound) (auto simp: inert_def)

lemma fail_sound:
  "(\<And>e. sound c (err e)) \<Longrightarrow> (\<And>r. (\<And>t. tok = Some t \<Longrightarrow> t \<noteq> [] \<Longrightarrow> carried t) \<Longrightarrow> sound c (k r)) \<Longrightarrow> sound c (failWorkflow err i reason tok k)"
  unfolding failWorkflow_def by (intro clock_rule set_state_sound) (auto simp: inert_def)

lemma retry_sound:
  assumes "\<And>e. sound c (err e)" "sound c (k None)" "\<And>r. (\<And>t. tok = Some t \<Longrightarrow> t \<noteq> [] \<Longrightarrow> carried t) \<Longrightarrow> sound c (k r)"
  shows "sound c (addRetryAttempt err i reason tok k)"
  unfolding addRetryAttempt_def Let_def
  by (rule clock_rule [OF assms(1)], rule find_workflow_rule [OF assms(1)])
    (auto intro!: set_state_sound assms simp: inert_def split: option.splits)

lemma retry_on_sound: "(\<And>e. sound c (err e)) \<Longrightarrow> sound c stop \<Longrightarrow> sound c (retry_on err w stop e)"
  unfolding retry_on_def by (auto intro!: retry_sound split: thrown.splits)

lemma reconcile_sound: "(\<And>e. sound c (err e)) \<Longrightarrow> sound c stop \<Longrightarrow> sound c (reconcileTransaction err w stop)"
  unfolding reconcileTransaction_def Let_def
  by (rule find_event_rule)
    (auto intro!: retry_on_sound retry_sound confirm_sound clock_rule update_other_rule split: option.splits)

lemma registration_sound: "(\<And>e. sound c (err e)) \<Longrightarrow> sound c stop \<Longrightarrow> sound c (processMaterialRegistration err w stop)"
  unfolding processMaterialRegistration_def check_registration_def Let_def
  by (rule find_material_rule)
    (auto intro!: retry_on_sound confirm_sound reconcile_sound clock_rule set_unfenced_sound simp: inert_def split: option.splits)

lemma purchase_sound: "(\<And>e. sound c (err e)) \<Longrightarrow> sound c stop \<Longrightarrow> sound c (processPurchase err w stop)"
  unfolding processPurchase_def Let_def
  by (rule find_purchase_rule) (auto intro!: retry_on_sound confirm_sound reconcile_sound split: option.splits)

lemma worker_sound: "draws tok \<Longrightarrow> presented c = None \<Longrightarrow> sound c (runWorker tok worker)"
proof -
  assume tok: "draws tok" and c: "presented c = None"
  have stop: "sound c (Return Turn_over)" by (rule result_sound [OF c])
  have err: "sound c (poison_on w e)" for w e
    by (cases e) (simp_all only: poison_on_def thrown.case, (rule stop | rule poison_sound)+)
  show ?thesis unfolding runWorker_def work_on_def
    by (rule claim_sound [OF tok stop])
      (auto intro!: stop renew_sound registration_sound purchase_sound fail_sound err simp del: good.simps split: option.splits)
qed

text \<open>The calls.\<close>

lemma carried_promise: "presented c = Some tok \<Longrightarrow> carried tok \<Longrightarrow> promise c r"
  unfolding carried_def using held by blast

lemma create_sound: "sound (Create i type user uri tx key given) (createWorkflow i type user uri tx key given)"
  unfolding createWorkflow_def Let_def by (intro clock_rule insert_rule new_ok uncaught_sound result_sound) simp

lemma reads_sound:
  "sound (Get i) (getWorkflow i)" "sound (By_user user type' st limit skip) (getWorkflowsByUser user type' st limit skip)"
  "sound (Needing n) (getWorkflowsNeedingReconciliation n)" "sound (Check ty user key) (checkIdempotency ty user key)"
  unfolding getWorkflow_def getWorkflowsByUser_def getWorkflowsNeedingReconciliation_def checkIdempotency_def
  by (intro clock_rule find_workflow_rule find_workflows_rule uncaught_sound result_sound; simp)+

lemma persist_sound: "sound (Persist i d) (persistMaterialRecord i d)"
  unfolding persistMaterialRecord_def Let_def
  by (intro insert_rule confirm_sound other_ok uncaught_sound result_sound) simp_all

lemma recover_sound: "sound (Recover i reason) (recoverWorkflow i reason)"
proof -
  have "ok (Workflow w) \<Longrightarrow>
      ok (Workflow (stamped now (released (w\<lparr>poisoned := False, poisonReason := None, retries := 0,
        recoveryNote := n, recoveredAt := Some now, w_state := Needs_reconciliation, generation := generation w + 1\<rparr>)))) \<and>
      R (Workflow w) (Workflow (stamped now (released (w\<lparr>poisoned := False, poisonReason := None,
        retries := 0, recoveryNote := n, recoveredAt := Some now, w_state := Needs_reconciliation, generation := generation w + 1\<rparr>))))" for w now n
    using fenced_ok [of w "\<lambda>w. w\<lparr>poisoned := False, poisonReason := None, retries := 0, recoveryNote := n, recoveredAt := Some now\<rparr>"
        now Needs_reconciliation] by (simp add: inert_def)
  then show ?thesis unfolding recoverWorkflow_def
    by (intro clock_rule update_workflow_rule uncaught_sound result_sound) simp_all
qed

lemma answer_sound:
  assumes "presented c = (if truthy tok then tok else None)" "\<And>t. tok = Some t \<Longrightarrow> t \<noteq> [] \<Longrightarrow> carried t"
  shows "sound c (Return res)"
proof (cases "truthy tok")
  case True
  then obtain t where "tok = Some t" "t \<noteq> []" by (cases tok) auto
  then show ?thesis using assms carried_promise [of c t] by simp
next
  case False
  then show ?thesis using assms(1) by (intro result_sound) simp
qed

lemma handler_sound: "orderly draws c \<Longrightarrow> sound c (workflow_handler c)"
proof (cases c)
  case (Retry i reason tok)
  have "sound c (case r of None \<Rightarrow> Return No_workflow | Some w \<Rightarrow> Return (State_set (Some w)))"
    if "\<And>t. tok = Some t \<Longrightarrow> t \<noteq> [] \<Longrightarrow> carried t" for r
    using that by (cases r) (simp_all only: option.case, simp add: refused, rule answer_sound, simp_all add: Retry)
  then show ?thesis by (auto simp only: Retry workflow_handler.simps intro!: retry_sound uncaught_sound) (simp add: refused)
next
  case (Confirm i d tok)
  have "sound c (Return (State_set r))" if "\<And>t. tok = Some t \<Longrightarrow> t \<noteq> [] \<Longrightarrow> carried t" for r
    by (rule answer_sound [where tok = tok]) (use that in \<open>simp_all add: Confirm\<close>)
  then show ?thesis by (auto simp only: Confirm workflow_handler.simps intro!: confirm_sound uncaught_sound)
next
  case (Fail i reason tok)
  have "sound c (Return (State_set r))" if "\<And>t. tok = Some t \<Longrightarrow> t \<noteq> [] \<Longrightarrow> carried t" for r
    by (rule answer_sound [where tok = tok]) (use that in \<open>simp_all add: Fail\<close>)
  then show ?thesis by (auto simp only: Fail workflow_handler.simps intro!: fail_sound uncaught_sound)
next
  case (Renew i tok worker ttl)
  have "sound c (Return (Committed w))" if "carried tok" for w using carried_promise [OF _ that] Renew by simp
  then show ?thesis by (auto simp only: Renew workflow_handler.simps intro!: renew_sound uncaught_sound)
next
  case (Transition i tok st updates)
  have "sound c (Return (Committed w))" if "carried tok" for w using carried_promise [OF _ that] Transition by simp
  moreover assume "orderly draws c"
  ultimately show ?thesis by (auto simp only: Transition workflow_handler.simps orderly.simps intro!: transition_sound uncaught_sound)
qed (simp_all only: workflow_handler.simps orderly.simps, (intro create_sound reads_sound persist_sound recover_sound
    set_unfenced_sound claim_sound poison_sound worker_sound uncaught_sound result_sound; simp)+)

end

sublocale lease_contract < served: rely_guarantee same_row "all_rows (\<lambda>_. ok)" "evolves R" "\<lambda>(c, r) _. promise c r" "\<lambda>_. True"
  "\<lambda>c. labelled c (workflow_handler c)" "orderly draws"
proof unfold_locales
  fix c
  assume "orderly draws c"
  then show "good same_row (all_rows (\<lambda>_. ok)) (evolves R) (\<lambda>(c, r) _. promise c r) (labelled c (workflow_handler c)) (\<lambda>_. True)"
    by (intro good_labelled) (use handler_sound in simp)
qed (use evolves_refl evolves_trans in blast)+

section \<open>A token that has been replaced\<close>

definition without :: "string \<Rightarrow> row \<Rightarrow> bool" where
  "without tok r \<longleftrightarrow> (\<forall>w. r = Workflow w \<longrightarrow> fencingToken w \<noteq> Some tok)"

definition rejected :: "string \<Rightarrow> workflow_call \<Rightarrow> workflow_result \<Rightarrow> bool" where
  "rejected tok c r \<longleftrightarrow> (presented c = Some tok \<longrightarrow> (\<exists>e. r = Threw e) \<or> r = No_workflow)"

interpretation replaced: lease_contract "without tok" "\<lambda>_ _. True" "\<lambda>x. x \<noteq> tok" "rejected tok" for tok
  by unfold_locales (auto simp: without_def rejected_def new_workflow_def claimed_by_def stamped_def released_def inert_def)

definition run_of :: "(row, unit, int) database \<Rightarrow> (workflow_call, int) move list \<Rightarrow> row list \<Rightarrow>
    (row, unit, int, workflow_call \<times> workflow_result) world" where
  "run_of D moves s = run D (\<lambda>c. labelled c (workflow_handler c)) moves (world_of s)"

section \<open>The owner of a generation\<close>

definition one_owner :: "workflow \<Rightarrow> workflow \<Rightarrow> bool" where
  "one_owner w w' \<longleftrightarrow> w_id w' = w_id w \<and> generation w \<le> generation w' \<and> claimCount w \<le> claimCount w' \<and>
     (generation w' = generation w \<longrightarrow>
        fencingToken w' = fencingToken w \<and> leaseOwner w' = leaseOwner w \<or> fencingToken w' = None \<and> leaseOwner w' = None)"

definition row_owned :: "row \<Rightarrow> row \<Rightarrow> bool" where
  "row_owned r r' \<longleftrightarrow> (\<forall>w. r = Workflow w \<longrightarrow> (\<exists>w'. r' = Workflow w' \<and> one_owner w w'))"

lemma one_owner_trans: "one_owner w v \<Longrightarrow> one_owner v u \<Longrightarrow> one_owner w u"
  by (auto simp: one_owner_def)

lemma row_owned_trans:
  assumes "row_owned r x" "row_owned x y"
  shows "row_owned r y"
  unfolding row_owned_def
proof (intro allI impI)
  fix w
  assume "r = Workflow w"
  then obtain v where v: "x = Workflow v" "one_owner w v" using assms(1) unfolding row_owned_def by blast
  then obtain u where "y = Workflow u" "one_owner v u" using assms(2) unfolding row_owned_def by blast
  then show "\<exists>w'. y = Workflow w' \<and> one_owner w w'" using one_owner_trans [OF v(2)] by blast
qed

interpretation owned: lease_contract "\<lambda>_. True" row_owned "\<lambda>_. True" "\<lambda>_ _. True"
proof unfold_locales
  show "row_owned r x \<Longrightarrow> row_owned x y \<Longrightarrow> row_owned r y" for r x y by (rule row_owned_trans)
qed (auto simp: row_owned_def one_owner_def claimed_by_def stamped_def released_def inert_def)

section \<open>Calls behind the fence\<close>

text \<open>
  A call that may write only to a workflow that carries the token, with a lease that is live by a
  time the caller read from the clock.
\<close>

definition fenced :: "string \<Rightarrow> (row, unit) request \<Rightarrow> ((row, unit) request \<times> (row, int) reply) set \<Rightarrow> bool" where
  "fenced tok q L \<longleftrightarrow> (case q of
       Update_one P f None \<Rightarrow> \<forall>r. P r \<longrightarrow>
         (\<exists>w now. r = Workflow w \<and> fencingToken w = Some tok \<and> (Ask (), Said now) \<in> L \<and> lease_live now w \<and> (\<exists>v. f r = Workflow v))
     | Find_one P \<Rightarrow> True | Find_all P \<Rightarrow> True | Ask e \<Rightarrow> True | _ \<Rightarrow> False)"

abbreviation behind :: "string \<Rightarrow> script \<Rightarrow> ((row, unit) request \<times> (row, int) reply) set \<Rightarrow> bool" where
  "behind tok \<equiv> guarded (fenced tok)"

lemma behind_clock:
  "(\<And>e L'. behind tok (err e) L') \<Longrightarrow> (\<And>t. behind tok (k t) (insert (Ask (), Said t) L)) \<Longrightarrow> behind tok (clock err k) L"
  by (auto simp: clock_def fenced_def split: reply.splits)

lemma behind_find:
  "(\<And>e L'. behind tok (err e) L') \<Longrightarrow> (\<And>r L'. behind tok (k r) L') \<Longrightarrow> behind tok (find_workflow err P k) L"
  by (auto simp: find_workflow_def fenced_def split: reply.splits option.splits row.splits)

lemma behind_update:
  assumes "\<And>w. P w \<Longrightarrow> fencingToken w = Some tok \<and> (\<exists>now. (Ask (), Said now) \<in> L \<and> lease_live now w)"
    and "\<And>e L'. behind tok (err e) L'" "\<And>r L'. behind tok (k r) L'"
  shows "behind tok (update_workflow err P f k) L"
  using assms by (auto simp: update_workflow_def fenced_def split: reply.splits option.splits row.splits)

lemma behind_transition:
  assumes "\<And>e L'. behind tok (err e) L'" "\<And>w L'. behind tok (k w) L'"
  shows "behind tok (transitionWorkflow err i tok st f k) L"
  unfolding transitionWorkflow_def
  by (intro behind_clock behind_update assms) (auto simp: assms split: option.split)

lemma behind_set_state:
  assumes "\<And>e L'. behind tok (err e) L'" "\<And>w L'. behind tok (k w) L'" "tok \<noteq> []"
  shows "behind tok (set_state err i (Some tok) st f k) L"
  unfolding set_state_def using assms by (auto intro!: behind_transition)

lemma behind_renew:
  assumes "\<And>e L'. behind tok (err e) L'" "\<And>w L'. behind tok (k w) L'"
  shows "behind tok (renewWorkflowLease err i tok worker ttl k) L"
  unfolding renewWorkflowLease_def
  by (intro behind_clock behind_update assms) (auto simp: assms split: option.split)

lemma behind_retry:
  assumes "\<And>e L'. behind tok (err e) L'" "\<And>r L'. behind tok (k r) L'" "tok \<noteq> []"
  shows "behind tok (addRetryAttempt err i reason (Some tok) k) L"
  unfolding addRetryAttempt_def Let_def
  by (intro behind_clock behind_find assms(1)) (auto intro!: behind_set_state assms split: option.split)

lemma uncaught_behind: "behind tok (uncaught e) L"
  by (simp add: uncaught_def)

lemma handler_behind:
  assumes "presented c = Some tok"
  shows "behind tok (workflow_handler c) L"
proof (cases c)
  case (Confirm i d t)
  then show ?thesis using assms
    by (auto simp: truthy_def confirmWorkflow_def intro!: behind_clock behind_set_state uncaught_behind split: if_splits option.splits)
next
  case (Fail i reason t)
  then show ?thesis using assms
    by (auto simp: truthy_def failWorkflow_def intro!: behind_clock behind_set_state uncaught_behind split: if_splits option.splits)
next
  case (Retry i reason t)
  then show ?thesis using assms
    by (auto simp: truthy_def intro!: behind_retry uncaught_behind split: if_splits option.splits)
qed (use assms in \<open>auto intro!: behind_renew behind_transition uncaught_behind\<close>)

text \<open>A call that reports success was told that an update took place.\<close>

definition updated_in :: "((row, unit) request \<times> (row, int) reply) set \<Rightarrow> bool" where
  "updated_in L \<longleftrightarrow> (\<exists>P f v. (Update_one P f None, Updated (Some v)) \<in> L)"

lemma updated_in_insert [simp]: "updated_in (insert (Update_one P f None, Updated (Some v)) L)"
  by (auto simp: updated_in_def)

definition success_told :: "workflow_result \<Rightarrow> ((row, unit) request \<times> (row, int) reply) set \<Rightarrow> bool" where
  "success_told r L \<longleftrightarrow> (\<exists>e. r = Threw e) \<or> r = No_workflow \<or> updated_in L"

lemma told_clock:
  "(\<And>e L'. earns success_told (err e) L') \<Longrightarrow> (\<And>t L'. earns success_told (k t) L') \<Longrightarrow> earns success_told (clock err k) L"
  by (auto simp: clock_def split: reply.splits)

lemma told_find:
  "(\<And>e L'. earns success_told (err e) L') \<Longrightarrow> (\<And>r L'. earns success_told (k r) L') \<Longrightarrow> earns success_told (find_workflow err P k) L"
  by (auto simp: find_workflow_def split: reply.splits option.splits row.splits)

lemma told_update:
  assumes "\<And>e L'. earns success_told (err e) L'" "\<And>L'. earns success_told (k None) L'"
    and "\<And>w L'. updated_in L' \<Longrightarrow> earns success_told (k (Some w)) L'"
  shows "earns success_told (update_workflow err P f k) L"
  using assms by (auto simp: update_workflow_def split: reply.splits option.splits row.splits)

lemma told_uncaught: "earns success_told (uncaught e) L"
  by (simp add: uncaught_def success_told_def)

lemma told_transition:
  assumes "\<And>e L'. earns success_told (err e) L'"
    "\<And>w L'. updated_in L' \<Longrightarrow> earns success_told (k w) L'"
  shows "earns success_told (transitionWorkflow err i tok st f k) L"
  unfolding transitionWorkflow_def by (intro told_clock told_update assms) (simp_all add: assms)

lemma told_set_state:
  assumes "\<And>e L'. earns success_told (err e) L'" "tok \<noteq> []"
    "\<And>w L'. updated_in L' \<Longrightarrow> earns success_told (k (Some w)) L'"
  shows "earns success_told (set_state err i (Some tok) st f k) L"
  unfolding set_state_def using assms by (auto intro!: told_transition)

lemma told_answer: "updated_in L \<Longrightarrow> earns success_told (Return r) L"
  by (simp add: success_told_def)

lemma handler_told:
  assumes "presented c = Some tok"
  shows "earns success_told (workflow_handler c) L"
proof (cases c)
  case (Confirm i d t)
  then show ?thesis using assms
    by (auto simp: truthy_def confirmWorkflow_def simp del: earns.simps
        intro!: told_clock told_set_state told_uncaught told_answer split: if_splits option.splits)
next
  case (Fail i reason t)
  then show ?thesis using assms
    by (auto simp: truthy_def failWorkflow_def simp del: earns.simps
        intro!: told_clock told_set_state told_uncaught told_answer split: if_splits option.splits)
next
  case (Retry i reason t)
  have none: "earns success_told (Return No_workflow) L'" for L' by (simp add: success_told_def)
  show ?thesis using assms unfolding Retry workflow_handler.simps addRetryAttempt_def Let_def
    by (intro told_clock told_find told_uncaught)
      (auto simp: truthy_def simp del: earns.simps intro!: told_set_state told_uncaught told_answer none split: if_splits option.splits)
next
  case (Renew i t worker ttl)
  then show ?thesis unfolding renewWorkflowLease_def workflow_handler.simps Renew
    by (intro told_clock told_update told_uncaught)
      (auto simp del: earns.simps intro!: told_uncaught told_answer)
next
  case (Transition i t st f)
  then show ?thesis by (auto simp del: earns.simps intro!: told_transition told_uncaught told_answer)
qed (use assms in auto)

section \<open>The guarantees\<close>

text \<open>The documents change in one workflow, which carries the token, with a lease live at one of the times \<open>ts\<close>.\<close>

definition commits :: "string \<Rightarrow> int set \<Rightarrow> row list \<Rightarrow> row list \<Rightarrow> bool" where
  "commits tok ts s s' \<longleftrightarrow> (\<exists>i v v'. i < length s \<and> s ! i = Workflow v \<and> s' = s[i := Workflow v'] \<and>
     fencingToken v = Some tok \<and> (\<exists>now \<in> ts. lease_live now v))"

lemma fenced_effect:
  fixes a :: "(row, int) reply"
  assumes "fenced tok q L" "documented same_row q s a s'"
  shows "s' = s \<or> commits tok {t. (Ask (), Said t) \<in> L} s s'"
proof -
  have "s' = s \<or> commits tok {t. (Ask (), Said t) \<in> L} s s'" if e: "effect same_row q s b s'" for b :: "(row, int) reply"
  proof (cases q)
    case (Update_one P f ups)
    then have ups: "ups = None" using assms(1) by (cases ups) (auto simp: fenced_def)
    show ?thesis
    proof (cases "\<exists>r. b = Updated (Some r)")
      case True
      then obtain i where i: "update_at same_row P f i s s'" using e Update_one by (auto simp: effect_def)
      then have "P (s ! i)" by (simp add: update_at_def)
      then obtain w now v where "s ! i = Workflow w" "fencingToken w = Some tok" "(Ask (), Said now) \<in> L" "lease_live now w" "f (s ! i) = Workflow v"
        using assms(1) Update_one ups unfolding fenced_def by fastforce
      then show ?thesis using i unfolding update_at_def commits_def by auto
    next
      case False
      then show ?thesis using e Update_one ups by (auto simp: effect_def split: reply.splits option.splits)
    qed
  qed (use assms(1) e in \<open>auto simp: fenced_def effect_def\<close>)
  then show ?thesis using assms(2) unfolding documented_def by blast
qed

lemma fenced_updated:
  fixes D :: "(row, unit, int) database"
  assumes "fenced tok (Update_one P f None) L" "documented same_row (Update_one P f None) s (Updated (Some r) :: (row, int) reply) s'"
  shows "commits tok {t. (Ask (), Said t) \<in> L} s s'"
proof -
  obtain i where i: "update_at same_row P f i s s'" using assms(2) by (auto simp: documented_def effect_def)
  then have "P (s ! i)" by (simp add: update_at_def)
  then obtain w now v where "s ! i = Workflow w" "fencingToken w = Some tok" "(Ask (), Said now) \<in> L" "lease_live now w" "f (s ! i) = Workflow v"
    using assms(1) unfolding fenced_def by fastforce
  then show ?thesis using i unfolding update_at_def commits_def by auto
qed

text \<open>What a call that presents the token waits for, in a run.\<close>

lemma waits_fenced:
  fixes handler :: "workflow_call \<Rightarrow> (row, unit, int, workflow_call \<times> workflow_result) async"
  assumes "presented (calls moves ! n) = Some tok" "handler = (\<lambda>c. labelled c (workflow_handler c))"
    and "w = run D handler (take j moves) (world_of s)" "n < length (tasks w)" "tasks w ! n = Await q k"
  shows "fenced tok q (set (conversation D handler (take j moves) (world_of s) n))"
proof -
  have n: "n < length (calls (take j moves))" using run_tasks [of D handler "take j moves" s] assms(3,4) by simp
  then have "guarded (fenced tok) (handler (calls (take j moves) ! n)) {}" using handler_behind [OF assms(1)] by (simp add: calls_take assms(2))
  from run_guarded [OF n assms(5) [unfolded assms(3)] this] show ?thesis .
qed

lemma commits_mono: "commits tok ts s s' \<Longrightarrow> ts \<subseteq> us \<Longrightarrow> commits tok us s s'"
  unfolding commits_def by blast

text \<open>
  C10: a stale worker is fenced off. Whenever it is the turn of a call that presents a fencing token
  (a renewal, a transition, a confirmation, failure or retry with a token), in any run of any calls
  beside it and with any failures, its turn changes nothing, or it changes one workflow that carries
  that very token at that moment, with a lease that is live by a time this call read; and a call that
  returned was refused (it threw, or \<open>addRetryAttempt\<close> found no workflow), or it made such a change. So
  a call under way when its token is replaced can no longer commit. The turns of the worker (\<open>Work\<close>),
  which also writes without a token (\<open>stale_worker_poisons_confirmed\<close>), are not such calls.
\<close>

theorem stale_worker_cannot_commit:
  assumes "documented_db same_row D" "n < length (calls moves)" "presented (calls moves ! n) = Some tok"
    and "docs = (\<lambda>j. rows (run_of D (take j moves) s))"
    and "ts = {t. (Ask (), Said t) \<in> set (conversation D (\<lambda>c. labelled c (workflow_handler c)) moves (world_of s) n)}"
  shows "(\<forall>j < length moves. (\<exists>ch. moves ! j = Turn n ch) \<longrightarrow> docs (Suc j) = docs j \<or> commits tok ts (docs j) (docs (Suc j))) \<and>
    (\<forall>c r. tasks (run_of D moves s) ! n = Return (c, r) \<longrightarrow> (\<exists>e. r = Threw e) \<or> r = No_workflow \<or>
       (\<exists>j < length moves. (\<exists>ch. moves ! j = Turn n ch) \<and> commits tok ts (docs j) (docs (Suc j))))"
proof -
  let ?h = "\<lambda>c. labelled c (workflow_handler c)"
  let ?w = "\<lambda>j. run D ?h (take j moves) (world_of s)"
  have told_before: "{t. (Ask (), Said t) \<in> set (conversation D ?h (take j moves) (world_of s) n)} \<subseteq> ts" for j
    using conversation_take unfolding assms(5) by blast
  have turn_commits: "docs (Suc j) = docs j \<or> commits tok ts (docs j) (docs (Suc j))" if j: "j < length moves" "moves ! j = Turn n ch" for j ch
  proof -
    have after: "?w (Suc j) = turn D n ch (?w j)" using j by (simp add: take_Suc_conv_app_nth run_snoc)
    show ?thesis
    proof (cases "n < length (tasks (?w j)) \<and> (\<exists>q k. tasks (?w j) ! n = Await q k)")
      case True
      then obtain q k where q: "n < length (tasks (?w j))" "tasks (?w j) ! n = Await q k" by blast
      obtain a s' where D: "D ch q (rows (?w j)) = (a, s')" by (cases "D ch q (rows (?w j))")
      have "rows (turn D n ch (?w j)) = s'" using q D by (simp add: turn_def)
      then have "docs (Suc j) = s'" "docs j = rows (?w j)" using after by (simp_all add: assms(4) run_of_def)
      then show ?thesis
        using fenced_effect [OF waits_fenced [OF assms(3) refl refl q] documented_dbD [OF assms(1) D]]
        by (auto intro: commits_mono [OF _ told_before [of j]])
    next
      case False
      then have "turn D n ch (?w j) = ?w j" by (auto simp: turn_def split: async.split)
      then show ?thesis using after by (simp add: assms(4) run_of_def)
    qed
  qed
  have answers: "(\<exists>e. r = Threw e) \<or> r = No_workflow \<or>
      (\<exists>j < length moves. (\<exists>ch. moves ! j = Turn n ch) \<and> commits tok ts (docs j) (docs (Suc j)))"
    if r: "tasks (run_of D moves s) ! n = Return (c, r)" for c r
  proof (cases "(\<exists>e. r = Threw e) \<or> r = No_workflow")
    case False
    have "earns (\<lambda>(c, r). success_told r) (?h (calls moves ! n)) {}" using handler_told [OF assms(3)] by simp
    from run_earns [OF assms(2) r [unfolded run_of_def] this] False obtain P f v
      where "(Update_one P f None, Updated (Some v)) \<in> set (conversation D ?h moves (world_of s) n)"
      unfolding success_told_def updated_in_def by auto
    from conversation_turn [OF this] obtain j ch k where j: "j < length moves" "moves ! j = Turn n ch"
      "n < length (tasks (?w j))" "tasks (?w j) ! n = Await (Update_one P f None) k"
      "D ch (Update_one P f None) (rows (?w j)) = (Updated (Some v), rows (?w (Suc j)))" by blast
    have "commits tok ts (docs j) (docs (Suc j))" unfolding assms(4) run_of_def
      using fenced_updated [OF waits_fenced [OF assms(3) refl refl j(3,4)] documented_dbD [OF assms(1) j(5)]] commits_mono [OF _ told_before]
      by blast
    then show ?thesis using j(1,2) by blast
  qed blast
  show ?thesis using turn_commits answers by blast
qed

text \<open>
  C15: two workers never own the same generation. Between any two moments of a run, with any calls
  under way at the first, the worker's turns included, a workflow keeps its place and its identifier,
  its generation and its count of claims do not decrease, and when its generation is the same at both
  moments, then its owner and its token are the same, or they have been given up. Assumed of the
  callers is that the updates they pass to the general changes of state leave the lease alone.
\<close>

theorem generations_have_one_owner:
  assumes "documented_db same_row D" "\<forall>c \<in> begun moves. orderly (\<lambda>_. True) c" "i \<le> j"
    and "n < length (rows (run_of D (take i moves) s))" "rows (run_of D (take i moves) s) ! n = Workflow w"
  shows "\<exists>w'. n < length (rows (run_of D (take j moves) s)) \<and> rows (run_of D (take j moves) s) ! n = Workflow w' \<and> w_id w' = w_id w \<and>
    generation w \<le> generation w' \<and> claimCount w \<le> claimCount w' \<and>
    (generation w' = generation w \<longrightarrow>
       fencingToken w' = fencingToken w \<and> leaseOwner w' = leaseOwner w \<or> fencingToken w' = None \<and> leaseOwner w' = None)"
proof -
  have "all_rows (\<lambda>_ _. True) s" by (simp add: all_rows_def)
  from owned.served.run_guarantees [OF assms(1) this TrueI _ assms(3)] assms(2)
  have "evolves row_owned (rows (run_of D (take i moves) s)) (rows (run_of D (take j moves) s))"
    unfolding run_of_def by blast
  then show ?thesis using assms(4,5) unfolding evolves_def row_owned_def one_owner_def by fastforce
qed

text \<open>A purchase that is confirmed, and its workflow that waits for a worker.\<close>

definition waiting :: workflow where
  "waiting = (new_workflow ''w1'' ''purchase'' ''gabc'' None (Some ''tx'') None None 0)\<lparr>w_state := Needs_reconciliation\<rparr>"

definition confirmed_purchase :: purchase where
  "confirmed_purchase = \<lparr>p_workflow = Some ''w1'', p_status = ''confirmed'', chainTxHash = Some ''tx'', p_confirmedAt = None, p_key = None\<rparr>"

text \<open>A worker that was replaced by another confirms with its old token.\<close>

definition stale_call :: workflow_call where
  "stale_call = Confirm ''w1'' \<lparr>tx_hash = None, tx_block = None, tx_token = None\<rparr> (Some ''a'')"

definition reassigned :: "row list" where
  "reassigned = [Workflow (claimed_by ''b'' ''p2'' 30000 40000 (claimed_by ''a'' ''p1'' 30000 0 waiting))]"

definition stale_moves :: "(workflow_call, int) move list" where
  "stale_moves = [Begin stale_call, Turn 0 (Says 40001), Turn 0 (Says 40002), Turn 0 (Works 0)]"

text \<open>The worker that replaced it confirms with the new token.\<close>

definition fresh_call :: workflow_call where
  "fresh_call = Confirm ''w1'' \<lparr>tx_hash = None, tx_block = None, tx_token = None\<rparr> (Some ''b'')"

definition both_moves :: "(workflow_call, int) move list" where
  "both_moves = stale_moves @ [Begin fresh_call, Turn 1 (Says 40003), Turn 1 (Says 40004), Turn 1 (Works 0)]"

lemmas confirm_run = run_of_def run_def world_of_def turn_def both_moves_def stale_moves_def stale_call_def fresh_call_def reassigned_def
  claimed_by_def waiting_def new_workflow_def confirmWorkflow_def set_state_def transitionWorkflow_def clock_def update_workflow_def
  uncaught_def mem_db_def mem_works_def matching_def results_def map_filter_simps

lemma both_results:
  "tasks (run_of (mem_db same_row) both_moves reassigned) ! 0 = Return (stale_call, Threw Fenced_off) \<and>
   (\<exists>v. tasks (run_of (mem_db same_row) both_moves reassigned) ! 1 = Return (fresh_call, State_set (Some v)))"
  by (simp add: confirm_run lease_live_def pick_def clashes_but_def upt_rec Let_def)

theorem stale_worker_cannot_commit_witness:
  "tasks (run_of (mem_db same_row) both_moves reassigned) ! 0 = Return (stale_call, Threw Fenced_off) \<and>
   (\<exists>j ts. j < length both_moves \<and> commits ''b'' ts (rows (run_of (mem_db same_row) (take j both_moves) reassigned))
      (rows (run_of (mem_db same_row) (take (Suc j) both_moves) reassigned)))"
proof -
  have c: "calls both_moves = [stale_call, fresh_call]" by (simp add: both_moves_def stale_moves_def calls_def List.map_filter_def)
  have "presented (calls both_moves ! 1) = Some ''b''" by (simp add: c fresh_call_def)
  moreover obtain v where "tasks (run_of (mem_db same_row) both_moves reassigned) ! 1 = Return (fresh_call, State_set (Some v))"
    using both_results by blast
  ultimately show ?thesis
    using stale_worker_cannot_commit [OF mem_documented, of 1 both_moves "''b''" _ reassigned, OF _ _ refl refl] both_results
    by (auto simp: c)
qed

text \<open>The steps of a worker alone, on one workflow and one purchase.\<close>

lemmas mem_simps = mem_db_def mem_works_def matching_def pick_def clashes_but_def Let_def

lemma claim_steps:
  "claimable now v \<Longrightarrow> solo (mem_db same_row) [Says now, Works 0] (runWorker tok worker) [Workflow v, Purchase p] =
     (work_on tok worker (claimed_by tok worker pollingInterval now v), [Workflow (claimed_by tok worker pollingInterval now v), Purchase p])"
  by (simp add: runWorker_def claimWorkflowForProcessing_def clock_def update_workflow_def mem_simps upt_rec)

lemma renew_steps:
  assumes "w_id v = w_id w" "fencingToken v = Some tok" "leaseOwner v = Some worker" "lease_live now v" "w_type w = ''purchase''"
  shows "solo (mem_db same_row) [Says now, Works 0] (work_on tok worker w) [Workflow v, Purchase p] =
     (processPurchase (poison_on w) w (Return Turn_over),
      [Workflow (v\<lparr>leaseExpiresAt := Some (now + WORKFLOW_LEASE_DEFAULT_TTL_MS), w_updatedAt := now\<rparr>), Purchase p])"
  using assms by (simp add: work_on_def renewWorkflowLease_def clock_def update_workflow_def mem_simps upt_rec)

lemma confirm_steps:
  assumes "w_id v = w_id w" "fencingToken w = Some tok" "tok \<noteq> []" "fencingToken v = Some tok" "lease_live now v"
    and "p_workflow p = Some (w_id w)" "p_status p = ''confirmed''"
  shows "\<exists>v'. solo (mem_db same_row) [Works 0, Says t, Says now, Works 0] (processPurchase err w stop) [Workflow v, Purchase p] =
      (stop, [Workflow v', Purchase p]) \<and> w_id v' = w_id v \<and> w_state v' = Confirmed \<and> generation v' = generation v + 1"
  using assms by (simp add: processPurchase_def find_purchase_def confirmWorkflow_def set_state_def transitionWorkflow_def clock_def
      update_workflow_def stamped_def released_def mem_simps upt_rec)

lemma failed_steps:
  "solo (mem_db same_row) [Says now, Fails] (work_on tok worker w) s = (poison_on w Call_failed, s)"
  by (simp add: work_on_def renewWorkflowLease_def clock_def update_workflow_def mem_simps)

lemma poison_steps:
  assumes "w_id v = w_id w"
  shows "\<exists>v'. solo (mem_db same_row) [Says now, Works 0] (poison_on w Call_failed) [Workflow v, Purchase p] =
      (Return Turn_over, [Workflow v', Purchase p]) \<and> w_state v' = Poisoned \<and> generation v' = generation v"
  using assms by (simp add: poison_on_def poisonWorkflow_def clock_def update_workflow_def stamped_def released_def mem_simps upt_rec)

text \<open>A worker stalls after its claim; its lease runs out, and a second worker confirms the workflow.\<close>

definition first_claims :: "(workflow_call, int) move list" where
  "first_claims = Begin (Work ''a'' ''p1'') # map (Turn 0) [Says 0, Works 0]"

definition second_confirms :: "(workflow_call, int) move list" where
  "second_confirms = Begin (Work ''b'' ''p2'') # map (Turn 1) [Says 40000, Works 0, Says 40001, Works 0, Works 0, Says 40002, Says 40003, Works 0]"

definition first_fails :: "(workflow_call, int) move list" where
  "first_fails = map (Turn 0) [Says 40004, Fails, Says 40005, Works 0]"

definition states_of :: "row list \<Rightarrow> (workflow_state \<times> int) list" where
  "states_of rs = map (\<lambda>w. (w_state w, generation w)) (workflows_of rs)"

definition race_rows :: "row list" where
  "race_rows = [Workflow waiting, Purchase confirmed_purchase]"

text \<open>Where the two workers stand when the second one is done.\<close>

lemma taken_over:
  "\<exists>v w. run_of (mem_db same_row) (first_claims @ second_confirms) race_rows =
     \<lparr>rows = [Workflow v, Purchase confirmed_purchase],
      tasks = [labelled (Work ''a'' ''p1'') (work_on ''a'' ''p1'' w), Return (Work ''b'' ''p2'', Turn_over)]\<rparr> \<and>
     w_id v = w_id w \<and> w_state v = Confirmed \<and> generation v = 3"
proof -
  let ?p = confirmed_purchase and ?solo = "solo (mem_db same_row)"
  let ?w1 = "claimed_by ''a'' ''p1'' pollingInterval 0 waiting"
  let ?w2 = "claimed_by ''b'' ''p2'' pollingInterval 40000 ?w1"
  let ?w3 = "?w2\<lparr>leaseExpiresAt := Some (40001 + WORKFLOW_LEASE_DEFAULT_TTL_MS), w_updatedAt := 40001\<rparr>"
  have claimable: "claimable 0 waiting" "claimable 40000 ?w1"
    by (simp_all add: claimable_def unattended_def claimed_by_def waiting_def new_workflow_def pollingInterval_def)
  have first: "run_of (mem_db same_row) first_claims race_rows =
      \<lparr>rows = [Workflow ?w1, Purchase ?p], tasks = [labelled (Work ''a'' ''p1'') (work_on ''a'' ''p1'' ?w1)]\<rparr>"
    unfolding run_of_def first_claims_def world_of_def run_begin race_rows_def
    by (simp add: run_turns solo_labelled claim_steps [OF claimable(1)] del: list.map)
  have renewed: "?solo [Says 40001, Works 0] (work_on ''b'' ''p2'' ?w2) [Workflow ?w2, Purchase ?p] =
      (processPurchase (poison_on ?w2) ?w2 (Return Turn_over), [Workflow ?w3, Purchase ?p])"
    by (rule renew_steps) (simp_all add: claimed_by_def lease_live_def pollingInterval_def waiting_def new_workflow_def)
  have "\<exists>v'. ?solo [Works 0, Says 40002, Says 40003, Works 0] (processPurchase (poison_on ?w2) ?w2 (Return Turn_over)) [Workflow ?w3, Purchase ?p] =
      (Return Turn_over, [Workflow v', Purchase ?p]) \<and> w_id v' = w_id ?w3 \<and> w_state v' = Confirmed \<and> generation v' = generation ?w3 + 1"
    by (rule confirm_steps [where tok = "''b''"])
      (simp_all add: claimed_by_def lease_live_def waiting_def new_workflow_def confirmed_purchase_def WORKFLOW_LEASE_DEFAULT_TTL_MS_def)
  then obtain v where v: "?solo [Works 0, Says 40002, Says 40003, Works 0] (processPurchase (poison_on ?w2) ?w2 (Return Turn_over)) [Workflow ?w3, Purchase ?p] =
      (Return Turn_over, [Workflow v, Purchase ?p])" "w_id v = w_id ?w3" "w_state v = Confirmed" "generation v = generation ?w3 + 1" by blast
  have split: "[Says 40000, Works 0, Says 40001, Works 0, Works 0, Says 40002, Says 40003, Works 0] =
      [Says 40000, Works 0] @ [Says 40001, Works 0] @ [Works 0, Says 40002, Says 40003, Works 0]" by simp
  have second: "?solo [Says 40000, Works 0, Says 40001, Works 0, Works 0, Says 40002, Says 40003, Works 0] (runWorker ''b'' ''p2'')
      [Workflow ?w1, Purchase ?p] = (Return Turn_over, [Workflow v, Purchase ?p])"
    unfolding split solo_append claim_steps [OF claimable(2)] prod.case renewed v(1) ..
  have "run_of (mem_db same_row) (first_claims @ second_confirms) race_rows =
     \<lparr>rows = [Workflow v, Purchase ?p], tasks = [labelled (Work ''a'' ''p1'') (work_on ''a'' ''p1'' ?w1), Return (Work ''b'' ''p2'', Turn_over)]\<rparr>"
    using first unfolding run_of_def run_moves_append second_confirms_def
    by (simp only: run_begin) (simp add: run_turns solo_labelled second del: list.map)
  then show ?thesis using v by (intro exI [of _ v] exI [of _ ?w1]) (simp add: claimed_by_def waiting_def new_workflow_def)
qed

definition the_first :: "row list \<Rightarrow> workflow" where
  "the_first rs = (case rs of Workflow w # rest \<Rightarrow> w | _ \<Rightarrow> waiting)"

lemma claimed_rows:
  "rows (run_of (mem_db same_row) first_claims race_rows) =
     [Workflow (claimed_by ''a'' ''p1'' pollingInterval 0 waiting), Purchase confirmed_purchase]"
proof -
  have "claimable 0 waiting" by (simp add: claimable_def unattended_def waiting_def new_workflow_def)
  then show ?thesis unfolding run_of_def first_claims_def world_of_def run_begin race_rows_def
    by (simp add: run_turns solo_labelled claim_steps del: list.map)
qed

theorem generations_have_one_owner_witness:
  "leaseOwner (the_first (rows (run_of (mem_db same_row) first_claims race_rows))) = Some ''p1'' \<and>
   generation (the_first (rows (run_of (mem_db same_row) first_claims race_rows))) = 1 \<and>
   w_id (the_first (rows (run_of (mem_db same_row) (first_claims @ second_confirms) race_rows))) = ''w1'' \<and>
   1 \<le> claimCount (the_first (rows (run_of (mem_db same_row) (first_claims @ second_confirms) race_rows)))"
proof -
  let ?m = "first_claims @ second_confirms" and ?w = "claimed_by ''a'' ''p1'' pollingInterval 0 waiting"
  have calm: "\<forall>c \<in> begun ?m. orderly (\<lambda>_. True) c" by (auto simp: begun_def first_claims_def second_confirms_def)
  have t: "take (length first_claims) ?m = first_claims" "take (length ?m) ?m = ?m" by simp_all
  obtain v where "rows (run_of (mem_db same_row) ?m race_rows) ! 0 = Workflow v" "0 < length (rows (run_of (mem_db same_row) ?m race_rows))"
    "w_id v = w_id ?w" "claimCount ?w \<le> claimCount v"
    using generations_have_one_owner [OF mem_documented calm, of "length first_claims" "length ?m" 0 race_rows ?w]
    unfolding t by (auto simp: claimed_rows)
  then have "the_first (rows (run_of (mem_db same_row) ?m race_rows)) = v" "w_id v = ''w1''" "1 \<le> claimCount v"
    by (auto simp: the_first_def claimed_by_def waiting_def new_workflow_def split: list.split)
  then show ?thesis by (simp add: claimed_rows the_first_def claimed_by_def waiting_def new_workflow_def)
qed

text \<open>
  But the worker itself goes around the fence. A worker stalls after its claim, its lease runs
  out, and a second worker confirms the workflow; when the next call of the first fails for another
  reason than its token, it poisons the workflow by its identifier, and the confirmed workflow ends
  as poisoned, in the generation of its confirmation.
\<close>

theorem stale_worker_poisons_confirmed:
  "states_of (rows (run_of (mem_db same_row) (first_claims @ second_confirms) race_rows)) = [(Confirmed, 3)] \<and>
   states_of (rows (run_of (mem_db same_row) (first_claims @ second_confirms @ first_fails) race_rows)) = [(Poisoned, 3)]"
proof -
  obtain v w where run: "run_of (mem_db same_row) (first_claims @ second_confirms) race_rows =
     \<lparr>rows = [Workflow v, Purchase confirmed_purchase],
      tasks = [labelled (Work ''a'' ''p1'') (work_on ''a'' ''p1'' w), Return (Work ''b'' ''p2'', Turn_over)]\<rparr>"
    and v: "w_id v = w_id w" "w_state v = Confirmed" "generation v = 3" using taken_over by blast
  obtain u where u: "solo (mem_db same_row) [Says 40005, Works 0] (poison_on w Call_failed) [Workflow v, Purchase confirmed_purchase] =
      (Return Turn_over, [Workflow u, Purchase confirmed_purchase])" "w_state u = Poisoned" "generation u = generation v"
    using poison_steps [OF v(1)] by blast
  have split: "[Says 40004, Fails, Says 40005, Works 0] = [Says 40004, Fails] @ [Says 40005, Works 0]" by simp
  have first: "solo (mem_db same_row) [Says 40004, Fails, Says 40005, Works 0] (work_on ''a'' ''p1'' w)
      [Workflow v, Purchase confirmed_purchase] = (Return Turn_over, [Workflow u, Purchase confirmed_purchase])"
    unfolding split solo_append failed_steps prod.case u(1) ..
  have "rows (run_of (mem_db same_row) ((first_claims @ second_confirms) @ first_fails) race_rows) = [Workflow u, Purchase confirmed_purchase]"
    using run unfolding run_of_def run_moves_append [of _ _ "first_claims @ second_confirms"] first_fails_def
    by (simp add: run_turns solo_labelled first del: list.map)
  then show ?thesis using run v u by (simp add: states_of_def)
qed

end
