(* ===== verification/Digests.thy ===== *)
theory Digests imports Json "HOL-Library.Word" "HOL-Library.List_Lexorder" begin

text \<open>
  The digest of a value, which the audit ledgers (\<open>src/lib/backend/auditLedger.js\<close>,
  \<open>financialAuditLedger.js\<close>) and the idempotency keys (\<open>src/lib/backend/idempotency.js\<close>) share: sorted
  keys, dates as text, JSON, SHA-256. SHA-256, \<open>JSON.stringify\<close> and \<open>toISOString\<close> are the platform's: a
  \<open>platform\<close> stands for them. Properties that are undefined are not modelled.
\<close>

section \<open>Canonical values and digests\<close>

record platform =
  sha256 :: "string \<Rightarrow> 256 word"
  to_json :: "json \<Rightarrow> string"
  iso :: "int \<Rightarrow> string"

text \<open>
  The properties of an object are enumerated with the array indexes first, in ascending order, then
  the others in the order they were added.
\<close>

definition is_index :: "string \<Rightarrow> bool" where
  "is_index k \<longleftrightarrow> k \<noteq> [] \<and> list_all is_digit k \<and> (k = ''0'' \<or> hd k \<noteq> CHR ''0'') \<and> digits_val k < 4294967295"

definition enumerated :: "(string \<times> 'a) list \<Rightarrow> (string \<times> 'a) list" where
  "enumerated m = sort_key (\<lambda>e. digits_val (fst e)) (filter (\<lambda>e. is_index (fst e)) m) @ filter (\<lambda>e. \<not> is_index (fst e)) m"

definition key_code :: "string \<Rightarrow> nat list" where
  "key_code k = map of_char k"

primrec normalize_with :: "(int \<Rightarrow> string) \<Rightarrow> json \<Rightarrow> json" where
  "normalize_with f JNull = JNull"
| "normalize_with f (JBool b) = JBool b"
| "normalize_with f (JNum r) = JNum r"
| "normalize_with f (JStr s) = JStr s"
| "normalize_with f (JDate t) = JStr (f t)"
| "normalize_with f (JArr xs) = JArr (map (normalize_with f) xs)"
| "normalize_with f (JObj m) = JObj (enumerated (sort_key (\<lambda>e. key_code (fst e)) (map (map_prod id (normalize_with f)) m)))"

definition normalize :: "platform \<Rightarrow> json \<Rightarrow> json" where
  "normalize P = normalize_with (iso P)"

definition canonicalize :: "platform \<Rightarrow> json \<Rightarrow> string" where
  "canonicalize P v = to_json P (normalize P v)"

text \<open>\<open>digest('hex')\<close>: the 64 hexadecimal digits of the hash, most significant first.\<close>

definition hex :: "256 word \<Rightarrow> string" where
  "hex w = map (\<lambda>i. ''0123456789abcdef'' ! unat (take_bit 4 (drop_bit (4 * i) w))) (rev [0..<64])"

definition digest :: "platform \<Rightarrow> json \<Rightarrow> string" where
  "digest P v = hex (sha256 P (canonicalize P v))"

fun fields_of :: "json \<Rightarrow> document" where
  "fields_of (JObj m) = m"
| "fields_of _ = []"

section \<open>Lookups in a normalized object\<close>

lemma map_of_key_filter: "map_of (filter (\<lambda>e. fst e = k) m) k = map_of m k"
  by (induction m) auto

lemma filter_key_sort: "filter (\<lambda>e. fst e = k) (sort_key (\<lambda>e. g (fst e)) m) = filter (\<lambda>e. fst e = k) m"
proof -
  have "filter (\<lambda>e. fst e = k) xs = filter (\<lambda>e. fst e = k) (filter (\<lambda>e. g (fst e) = g k) xs)" for xs :: "('a \<times> 'b) list"
    by (induction xs) auto
  then show ?thesis by (metis sort_key_stable)
qed

lemma map_of_sort_key: "map_of (sort_key (\<lambda>e. g (fst e)) m) k = map_of m k"
  by (metis filter_key_sort map_of_key_filter)

lemma map_of_filter_pred: "map_of (filter (\<lambda>e. p (fst e)) m) k = (if p k then map_of m k else None)"
  by (induction m) auto

lemma map_of_enumerated: "map_of (enumerated m) k = map_of m k"
  by (simp add: enumerated_def map_add_def map_of_sort_key map_of_filter_pred map_of_filter_pred [of "\<lambda>x. \<not> is_index x"]
      split: option.splits)

lemma map_of_normalized: "map_of (fields_of (normalize P (JObj m))) k = map_option (normalize P) (map_of m k)"
proof -
  have "map_of (map (map_prod id f) m) k = map_option f (map_of m k)" for f :: "json \<Rightarrow> json"
    by (induction m) auto
  then show ?thesis by (simp add: normalize_def map_of_enumerated map_of_sort_key)
qed

lemma hex_nonempty [simp]: "hex w \<noteq> []"
  by (simp add: hex_def)

lemma digest_nonempty [simp]: "digest P v \<noteq> []"
  by (simp add: digest_def)

end
