(* ===== verification/AuditLedger.thy ===== *)
theory AuditLedger imports AsyncStore Digests "HOL-Library.Option_ord" begin

text \<open>
  \<open>src/lib/backend/auditLedger.js\<close> and \<open>src/lib/backend/financialAuditLedger.js\<close>: the hash-chained
  ledger of audit records, which both modules keep in the collection \<open>audit_ledger\<close>. A record is its
  content, a document, with the hash of the content. The texts of errors and the CSV form of an
  export are not modelled.
\<close>

definition GENESIS_HASH :: string where "GENESIS_HASH = replicate 64 (CHR ''0'')"

section \<open>Records\<close>

record ledger_entry =
  content :: document
  recordHash :: "string option"

record checkpoint =
  c_sequence :: json
  c_hash :: string
  c_at :: int

datatype row = Ledger ledger_entry | Checkpoint checkpoint

text \<open>The indexes; a missing value counts as null.\<close>

definition indexed :: "string \<Rightarrow> ledger_entry \<Rightarrow> json" where
  "indexed k e = nullish_null (map_of (content e) k)"

fun same_row :: "row \<Rightarrow> row \<Rightarrow> bool" where
  "same_row (Ledger a) (Ledger b) = (indexed ''sequence'' a = indexed ''sequence'' b \<or> indexed ''operationId'' a = indexed ''operationId'' b)"
| "same_row (Checkpoint a) (Checkpoint b) = (c_sequence a = c_sequence b)"
| "same_row _ _ = False"

text \<open>\<open>sort({ sequence: 1 })\<close>: null before the numbers.\<close>

definition seq_key :: "ledger_entry \<Rightarrow> rat option" where
  "seq_key e = (case map_of (content e) ''sequence'' of Some (JNum r) \<Rightarrow> Some r | _ \<Rightarrow> None)"

definition by_sequence :: "ledger_entry list \<Rightarrow> ledger_entry list" where
  "by_sequence = sort_key seq_key"

definition head_of :: "ledger_entry list \<Rightarrow> ledger_entry option" where
  "head_of es = (if es = [] then None else Some (last (by_sequence es)))"

section \<open>Calls\<close>

datatype question = Clock | Anchor checkpoint
datatype answer = Time int | Taken bool

datatype ledger_error =
    Missing_field | No_details | No_reason | No_change | Conflicts | Inversion | Broken json | Not_anchored | Call_failed

record export_receipt =
  recordCount :: nat
  firstSequence :: json
  lastSequence :: json
  firstHash :: "string option"
  lastHash :: "string option"
  isCompleteChainVerified :: bool
  exportChecksum :: string

datatype ledger_result =
    Recorded ledger_entry
  | Records "ledger_entry list"
  | Checkpointed checkpoint
  | Exported "ledger_entry list" export_receipt
  | Logged
  | Threw ledger_error

type_synonym script = "(row, question, answer, ledger_result) async"

fun ledger_where :: "(ledger_entry \<Rightarrow> bool) \<Rightarrow> row \<Rightarrow> bool" where
  "ledger_where P (Ledger e) = P e"
| "ledger_where P _ = False"

fun checkpoint_where :: "(checkpoint \<Rightarrow> bool) \<Rightarrow> row \<Rightarrow> bool" where
  "checkpoint_where P (Checkpoint c) = P c"
| "checkpoint_where P _ = False"

fun entries_of :: "row list \<Rightarrow> ledger_entry list" where
  "entries_of [] = []"
| "entries_of (Ledger e # rs) = e # entries_of rs"
| "entries_of (_ # rs) = entries_of rs"

abbreviation throw :: "ledger_error \<Rightarrow> script" where
  "throw e \<equiv> Return (Threw e)"

definition clock :: "(int \<Rightarrow> script) \<Rightarrow> script" where
  "clock k = Await (Ask Clock) (\<lambda>a. case a of Said (Time t) \<Rightarrow> k t | _ \<Rightarrow> throw Call_failed)"

definition find_entry :: "(ledger_entry \<Rightarrow> bool) \<Rightarrow> (ledger_entry option \<Rightarrow> script) \<Rightarrow> script" where
  "find_entry P k = Await (Find_one (ledger_where P))
     (\<lambda>a. case a of Row None \<Rightarrow> k None | Row (Some (Ledger e)) \<Rightarrow> k (Some e) | _ \<Rightarrow> throw Call_failed)"

definition find_entries :: "(ledger_entry \<Rightarrow> bool) \<Rightarrow> (ledger_entry list \<Rightarrow> script) \<Rightarrow> script" where
  "find_entries P k = Await (Find_all (ledger_where P)) (\<lambda>a. case a of Rows rs \<Rightarrow> k (entries_of rs) | _ \<Rightarrow> throw Call_failed)"

section \<open>Appending\<close>

definition of_operation :: "string \<Rightarrow> ledger_entry \<Rightarrow> bool" where
  "of_operation i e \<longleftrightarrow> map_of (content e) ''operationId'' = Some (JStr i)"

definition next_sequence :: "ledger_entry option \<Rightarrow> rat" where
  "next_sequence head = (case head of None \<Rightarrow> 0 | Some e \<Rightarrow> (case map_of (content e) ''sequence'' of Some (JNum r) \<Rightarrow> r + 1 | _ \<Rightarrow> 0))"

definition previous_hash :: "ledger_entry option \<Rightarrow> string" where
  "previous_hash head = (case head of None \<Rightarrow> GENESIS_HASH | Some e \<Rightarrow> or_default (recordHash e) GENESIS_HASH)"

definition hashed :: "platform \<Rightarrow> document \<Rightarrow> ledger_entry" where
  "hashed P c = \<lparr>content = c, recordHash = Some (digest P (JObj c))\<rparr>"

text \<open>
  The loop of both modules: read the head, make the content, insert; after a duplicate key, return
  the record of the same operation if there is one, else try again.
\<close>

fun append_at_head :: "platform \<Rightarrow> nat \<Rightarrow> string \<Rightarrow> (ledger_entry option \<Rightarrow> (document \<Rightarrow> script) \<Rightarrow> script) \<Rightarrow> script" where
  "append_at_head P 0 i build = throw Conflicts"
| "append_at_head P (Suc n) i build =
     find_entries (\<lambda>_. True) (\<lambda>es. build (head_of es) (\<lambda>c.
       Await (Insert_one (Ledger (hashed P c))) (\<lambda>a. case a of
         Inserted _ \<Rightarrow> Return (Recorded (hashed P c))
       | Duplicate \<Rightarrow> find_entry (of_operation i) (\<lambda>x. case x of Some e \<Rightarrow> Return (Recorded e) | None \<Rightarrow> append_at_head P n i build)
       | _ \<Rightarrow> throw Call_failed)))"

definition append_once :: "platform \<Rightarrow> nat \<Rightarrow> string \<Rightarrow> (ledger_entry option \<Rightarrow> (document \<Rightarrow> script) \<Rightarrow> script) \<Rightarrow> script" where
  "append_once P n i build = find_entry (of_operation i) (\<lambda>x. case x of Some e \<Rightarrow> Return (Recorded e) | None \<Rightarrow> append_at_head P n i build)"

text \<open>What is recorded, as the caller passes it.\<close>

record audit_request =
  a_operationId :: "string option"
  a_actor :: "string option"
  a_actorContext :: document
  a_action :: "string option"
  a_target :: "json option"
  a_result :: "json option"
  a_reason :: "string option"
  a_intent :: json
  a_before :: "json option"
  a_after :: "json option"

definition actorProof :: "platform \<Rightarrow> string option \<Rightarrow> document \<Rightarrow> string" where
  "actorProof P actor context = digest P (JObj (set_fields context [(''actor'', JStr (or_default actor ''system''))]))"

definition createActorProof :: "platform \<Rightarrow> string option \<Rightarrow> document \<Rightarrow> string" where
  "createActorProof P actor context =
     digest P (JObj (set_fields (fields_of (normalize P (JObj context))) [(''actor'', JStr (or_default actor ''system''))]))"

definition short_reason :: "nat \<Rightarrow> string option \<Rightarrow> json" where
  "short_reason n r = (if truthy r then JStr (take n (the r)) else JNull)"

definition or_empty :: "json option \<Rightarrow> json" where
  "or_empty v = (if js_true v then the v else JObj [])"

definition audit_content :: "platform \<Rightarrow> audit_request \<Rightarrow> ledger_entry option \<Rightarrow> int \<Rightarrow> document" where
  "audit_content P q head createdAt =
     [(''version'', JStr ''v1''), (''operationId'', JStr (the (a_operationId q))), (''sequence'', JNum (next_sequence head)),
      (''previousHash'', JStr (previous_hash head)), (''actor'', JStr (or_default (a_actor q) ''system'')),
      (''actorProof'', JStr (actorProof P (a_actor q) (a_actorContext q))), (''action'', JStr (the (a_action q))),
      (''target'', normalize P (the (a_target q))), (''intentHash'', JStr (digest P (a_intent q))),
      (''before'', normalize P (nullish_null (a_before q))), (''after'', normalize P (nullish_null (a_after q))),
      (''result'', normalize P (or_empty (a_result q))), (''reason'', short_reason 500 (a_reason q)), (''createdAt'', JDate createdAt)]"

definition appendAuditRecord :: "platform \<Rightarrow> audit_request \<Rightarrow> script" where
  "appendAuditRecord P q =
     (if \<not> truthy (a_operationId q) \<or> \<not> truthy (a_action q) \<or> \<not> js_true (a_target q) then throw Missing_field
      else append_once P 3 (the (a_operationId q)) (\<lambda>head k. clock (\<lambda>t. k (audit_content P q head t))))"

definition same_canonical :: "platform \<Rightarrow> json option \<Rightarrow> json option \<Rightarrow> bool" where
  "same_canonical P a b \<longleftrightarrow> map_option (canonicalize P) a = map_option (canonicalize P) b"

definition appendCriticalMutation :: "platform \<Rightarrow> audit_request \<Rightarrow> script" where
  "appendCriticalMutation P q =
     (if js_trim (or_default (a_reason q) []) = [] then throw No_reason
      else if same_canonical P (a_before q) (a_after q) then throw No_change
      else appendAuditRecord P (q\<lparr>a_result := Some (JObj [(''status'', JStr ''applied'')])\<rparr>))"

record ledger_request =
  l_eventDomain :: string
  l_eventType :: "string option"
  l_operationId :: "string option"
  l_actor :: "string option"
  l_actorContext :: document
  l_financialDetails :: "json option"
  l_target :: "json option"
  l_intent :: json
  l_beforeState :: json
  l_afterState :: json
  l_result :: json
  l_reason :: "string option"
  l_timestamp :: int

definition ledger_content :: "platform \<Rightarrow> ledger_request \<Rightarrow> ledger_entry option \<Rightarrow> document" where
  "ledger_content P q head =
     [(''version'', JStr ''v2''), (''sequence'', JNum (next_sequence head)), (''previousHash'', JStr (previous_hash head)),
      (''eventDomain'', JStr (l_eventDomain q)), (''eventType'', JStr (the (l_eventType q))),
      (''operationId'', JStr (the (l_operationId q))), (''actor'', JStr (or_default (l_actor q) ''system'')),
      (''actorProof'', JStr (createActorProof P (l_actor q) (l_actorContext q))), (''target'', normalize P (the (l_target q))),
      (''financialDetails'', if js_true (l_financialDetails q) then normalize P (the (l_financialDetails q)) else JNull),
      (''intentHash'', JStr (digest P (l_intent q))), (''beforeState'', normalize P (l_beforeState q)),
      (''afterState'', normalize P (l_afterState q)), (''result'', normalize P (l_result q)),
      (''reason'', short_reason 1000 (l_reason q)), (''timestamp'', JDate (l_timestamp q))]"

text \<open>\<open>new Date(record.timestamp)\<close>; a missing timestamp is an invalid date, which compares to nothing.\<close>

definition timestamp_of :: "document \<Rightarrow> int option" where
  "timestamp_of c = (case map_of c ''timestamp'' of Some (JDate t) \<Rightarrow> Some t | _ \<Rightarrow> None)"

definition earlier :: "int option \<Rightarrow> int option \<Rightarrow> bool" where
  "earlier a b = (case (a, b) of (Some x, Some y) \<Rightarrow> x < y | _ \<Rightarrow> False)"

definition inverts :: "ledger_entry option \<Rightarrow> int \<Rightarrow> bool" where
  "inverts head t = (case head of Some e \<Rightarrow> earlier (Some t) (timestamp_of (content e)) | None \<Rightarrow> False)"

definition appendLedgerRecord :: "platform \<Rightarrow> ledger_request \<Rightarrow> script" where
  "appendLedgerRecord P q =
     (if \<not> truthy (l_operationId q) \<or> \<not> truthy (l_eventType q) \<or> \<not> js_true (l_target q) then throw Missing_field
      else append_once P 5 (the (l_operationId q))
        (\<lambda>head k. if inverts head (l_timestamp q) then throw Inversion else k (ledger_content P q head)))"

definition is_object :: "json option \<Rightarrow> bool" where
  "is_object v = (case v of Some (JObj _) \<Rightarrow> True | Some (JArr _) \<Rightarrow> True | Some (JDate _) \<Rightarrow> True | _ \<Rightarrow> False)"

definition appendFinancialEvent :: "platform \<Rightarrow> ledger_request \<Rightarrow> script" where
  "appendFinancialEvent P q =
     (if \<not> is_object (l_financialDetails q) then throw No_details
      else appendLedgerRecord P (q\<lparr>l_eventDomain := ''financial'', l_financialDetails := map_option (normalize P) (l_financialDetails q)\<rparr>))"

definition appendPrivilegedEvent :: "platform \<Rightarrow> ledger_request \<Rightarrow> script" where
  "appendPrivilegedEvent P q = appendLedgerRecord P (q\<lparr>l_eventDomain := ''privileged'', l_financialDetails := None\<rparr>)"

section \<open>Verification\<close>

datatype chain_report = Valid nat | Broken_at json

fun verify_from :: "platform \<Rightarrow> nat \<Rightarrow> string \<Rightarrow> ledger_entry list \<Rightarrow> chain_report" where
  "verify_from P i prev [] = Valid i"
| "verify_from P i prev (e # es) =
     (let s = map_of (content e) ''sequence'' in
      if s \<noteq> Some (JNum (of_nat i)) \<or> map_of (content e) ''previousHash'' \<noteq> Some (JStr prev)
      then Broken_at (if nullish s then JNum (of_nat i) else the s)
      else if recordHash e \<noteq> Some (digest P (JObj (content e))) then Broken_at (the s)
      else verify_from P (Suc i) (the (recordHash e)) es)"

definition verifyAuditRecords :: "platform \<Rightarrow> ledger_entry list \<Rightarrow> chain_report" where
  "verifyAuditRecords P es = verify_from P 0 GENESIS_HASH es"

datatype anomaly = Sequence_gap nat | Broken_chain nat | Content_modification nat | Chronological_inversion nat

fun integrity_from :: "platform \<Rightarrow> nat \<Rightarrow> string \<Rightarrow> int option \<Rightarrow> ledger_entry list \<Rightarrow> anomaly + string" where
  "integrity_from P i prev before [] = Inr prev"
| "integrity_from P i prev before (e # es) =
     (if map_of (content e) ''sequence'' \<noteq> Some (JNum (of_nat i)) then Inl (Sequence_gap i)
      else if map_of (content e) ''previousHash'' \<noteq> Some (JStr prev) then Inl (Broken_chain i)
      else if recordHash e \<noteq> Some (digest P (JObj (content e))) then Inl (Content_modification i)
      else if earlier (timestamp_of (content e)) before then Inl (Chronological_inversion i)
      else integrity_from P (Suc i) (the (recordHash e)) (timestamp_of (content e)) es)"

definition verifyLedgerIntegrity :: "platform \<Rightarrow> ledger_entry list \<Rightarrow> anomaly + string" where
  "verifyLedgerIntegrity P es = integrity_from P 0 GENESIS_HASH (Some 0) es"

section \<open>Reading, checkpoints, export\<close>

record audit_filter =
  f_action :: "string option"
  f_actor :: "string option"
  f_operationId :: "string option"
  f_targetType :: "string option"
  f_from :: "int option"
  f_to :: "int option"
  f_limit :: nat

definition wanted :: "string \<Rightarrow> string option \<Rightarrow> document \<Rightarrow> bool" where
  "wanted k v c \<longleftrightarrow> (truthy v \<longrightarrow> map_of c k = Some (JStr (the v)))"

definition after_start :: "int option \<Rightarrow> int \<Rightarrow> bool" where
  "after_start b t = (case b of None \<Rightarrow> True | Some x \<Rightarrow> x \<le> t)"

definition before_stop :: "int option \<Rightarrow> int \<Rightarrow> bool" where
  "before_stop b t = (case b of None \<Rightarrow> True | Some x \<Rightarrow> t \<le> x)"

definition in_range :: "string \<Rightarrow> int option \<Rightarrow> int option \<Rightarrow> document \<Rightarrow> bool" where
  "in_range k a b c \<longleftrightarrow> (a = None \<and> b = None) \<or>
     (case map_of c k of Some (JDate t) \<Rightarrow> after_start a t \<and> before_stop b t | _ \<Rightarrow> False)"

definition target_type :: "document \<Rightarrow> json option" where
  "target_type c = (case map_of c ''target'' of Some (JObj t) \<Rightarrow> map_of t ''type'' | _ \<Rightarrow> None)"

definition audit_match :: "audit_filter \<Rightarrow> ledger_entry \<Rightarrow> bool" where
  "audit_match f e \<longleftrightarrow> wanted ''action'' (f_action f) (content e) \<and> wanted ''actor'' (f_actor f) (content e) \<and>
     wanted ''operationId'' (f_operationId f) (content e) \<and>
     (truthy (f_targetType f) \<longrightarrow> target_type (content e) = Some (JStr (the (f_targetType f)))) \<and>
     in_range ''createdAt'' (f_from f) (f_to f) (content e)"

definition readAuditRecords :: "audit_filter \<Rightarrow> script" where
  "readAuditRecords f = find_entries (audit_match f)
     (\<lambda>es. Return (Records (take (if f_limit f = 0 then 1000 else f_limit f) (by_sequence es))))"

definition checkpoint_of :: "ledger_entry list \<Rightarrow> int \<Rightarrow> checkpoint" where
  "checkpoint_of es t =
     (if es = [] then \<lparr>c_sequence = JNum (- 1), c_hash = GENESIS_HASH, c_at = t\<rparr>
      else \<lparr>c_sequence = (let s = map_of (content (last es)) ''sequence'' in if nullish s then JNum (- 1) else the s),
            c_hash = or_default (recordHash (last es)) GENESIS_HASH, c_at = t\<rparr>)"

definition anchor :: "bool \<Rightarrow> checkpoint \<Rightarrow> script" where
  "anchor url c =
     (if url then Await (Ask (Anchor c)) (\<lambda>a. case a of
         Said (Taken True) \<Rightarrow> Return (Checkpointed c) | Said (Taken False) \<Rightarrow> throw Not_anchored | _ \<Rightarrow> throw Call_failed)
      else Return (Checkpointed c))"

definition createAuditCheckpoint :: "platform \<Rightarrow> bool \<Rightarrow> script" where
  "createAuditCheckpoint P url =
     find_entries (\<lambda>_. True) (\<lambda>rs. let es = by_sequence rs in
       case verifyAuditRecords P es of
         Broken_at s \<Rightarrow> throw (Broken s)
       | Valid _ \<Rightarrow> clock (\<lambda>t. let c = checkpoint_of es t in
           Await (Update_one (checkpoint_where (\<lambda>x. c_sequence x = c_sequence c)) id (Some (Checkpoint c))) (\<lambda>a. case a of
             Updated _ \<Rightarrow> anchor url c | Upserted _ \<Rightarrow> anchor url c | _ \<Rightarrow> throw Call_failed)))"

record export_options =
  o_eventDomain :: "string option"
  o_eventType :: "string option"
  o_from :: "int option"
  o_to :: "int option"
  o_limit :: int

definition export_match :: "export_options \<Rightarrow> ledger_entry \<Rightarrow> bool" where
  "export_match x e \<longleftrightarrow> wanted ''eventDomain'' (o_eventDomain x) (content e) \<and> wanted ''eventType'' (o_eventType x) (content e) \<and>
     in_range ''timestamp'' (o_from x) (o_to x) (content e)"

definition unfiltered :: "export_options \<Rightarrow> bool" where
  "unfiltered x \<longleftrightarrow> \<not> truthy (o_eventDomain x) \<and> \<not> truthy (o_eventType x) \<and> o_from x = None \<and> o_to x = None"

definition sequence_or_null :: "ledger_entry \<Rightarrow> json" where
  "sequence_or_null e = nullish_null (map_of (content e) ''sequence'')"

definition receipt_of :: "platform \<Rightarrow> export_options \<Rightarrow> ledger_entry list \<Rightarrow> export_receipt" where
  "receipt_of P x es =
     \<lparr>recordCount = length es, firstSequence = (if es = [] then JNull else sequence_or_null (hd es)),
      lastSequence = (if es = [] then JNull else sequence_or_null (last es)),
      firstHash = (if es = [] then None else recordHash (hd es)), lastHash = (if es = [] then None else recordHash (last es)),
      isCompleteChainVerified = (unfiltered x \<and> es \<noteq> [] \<and> map_of (content (hd es)) ''sequence'' = Some (JNum 0) \<and>
        (case verifyLedgerIntegrity P es of Inr _ \<Rightarrow> True | Inl _ \<Rightarrow> False)),
      exportChecksum = digest P (JArr (map (\<lambda>e. jstr (recordHash e)) es))\<rparr>"

definition exportLedger :: "platform \<Rightarrow> export_options \<Rightarrow> script" where
  "exportLedger P x = find_entries (export_match x) (\<lambda>rs.
     let es = take (nat (min (max 1 (if o_limit x = 0 then 1000 else o_limit x)) 5000)) (by_sequence rs) in
     Return (Exported es (receipt_of P x es)))"

text \<open>
  \<open>executeWithInvariantProtection\<close> of \<open>src/lib/transitions/invariantChecker.js\<close> inserts a document of
  its own into the ledger; a failure is only logged.
\<close>

definition rollback_document :: "string \<Rightarrow> json \<Rightarrow> string \<Rightarrow> json \<Rightarrow> int \<Rightarrow> ledger_entry" where
  "rollback_document type params message state t =
     \<lparr>content = [(''eventType'', JStr ''TRANSITION_FAILURE_ROLLBACK_REQUIRED''), (''type'', JStr type), (''params'', params),
        (''error'', JStr message), (''rollbackState'', state), (''timestamp'', JDate t)], recordHash = None\<rparr>"

definition log_rollback :: "string \<Rightarrow> json \<Rightarrow> string \<Rightarrow> json \<Rightarrow> script" where
  "log_rollback type params message state =
     clock (\<lambda>t. Await (Insert_one (Ledger (rollback_document type params message state t))) (\<lambda>_. Return Logged))"

section \<open>The system\<close>

datatype ledger_call =
    Append audit_request
  | Append_critical audit_request
  | Append_financial ledger_request
  | Append_privileged ledger_request
  | Read_records audit_filter
  | Make_checkpoint bool
  | Export export_options
  | Log_rollback string json string json

fun ledger_handler :: "platform \<Rightarrow> ledger_call \<Rightarrow> script" where
  "ledger_handler P (Append q) = appendAuditRecord P q"
| "ledger_handler P (Append_critical q) = appendCriticalMutation P q"
| "ledger_handler P (Append_financial q) = appendFinancialEvent P q"
| "ledger_handler P (Append_privileged q) = appendPrivilegedEvent P q"
| "ledger_handler P (Read_records f) = readAuditRecords f"
| "ledger_handler P (Make_checkpoint url) = createAuditCheckpoint P url"
| "ledger_handler P (Export x) = exportLedger P x"
| "ledger_handler P (Log_rollback type params message state) = log_rollback type params message state"

end
