(* ===== verification/AuditSafety.thy ===== *)
theory AuditSafety imports AuditLedger "HOL-Library.Sublist" begin

text \<open>
  The ledger never breaks. Every handler of the ledger is proved once, in the locale
  \<open>ledger_contract\<close>, for any invariant of the store that appending to the head preserves; the
  interpretation \<open>chain\<close> gives it the invariant that the ledger verifies, \<open>poisoned\<close> that it holds a
  document without a sequence. What the hashes commit to is proved of the verification itself.
\<close>

section \<open>Lists sorted by a key\<close>

lemma insort_key_snoc: "f y \<le> f x \<Longrightarrow> insort_key f y (zs @ [x]) = insort_key f y zs @ [x]"
  by (induction zs) auto

lemma sort_key_snoc: "(\<And>y. y \<in> set xs \<Longrightarrow> f y \<le> f x) \<Longrightarrow> sort_key f (xs @ [x]) = sort_key f xs @ [x]"
  by (induction xs) (simp_all add: insort_key_snoc)

lemma set_by_sequence [simp]: "set (by_sequence es) = set es"
  by (simp add: by_sequence_def)

lemma by_sequence_Nil [simp]: "by_sequence es = [] \<longleftrightarrow> es = []"
  by (metis set_by_sequence set_empty)

lemma set_entries: "e \<in> set (entries_of rs) \<longleftrightarrow> Ledger e \<in> set rs"
  by (induction rs rule: entries_of.induct) auto

lemma entries_append: "entries_of (rs @ rs') = entries_of rs @ entries_of rs'"
  by (induction rs rule: entries_of.induct) auto

section \<open>A verified ledger\<close>

text \<open>What the verification checks of each record, by position.\<close>

definition stands :: "platform \<Rightarrow> nat \<Rightarrow> string \<Rightarrow> ledger_entry \<Rightarrow> bool" where
  "stands P i prev e \<longleftrightarrow> map_of (content e) ''sequence'' = Some (JNum (of_nat i)) \<and>
     map_of (content e) ''previousHash'' = Some (JStr prev) \<and> recordHash e = Some (digest P (JObj (content e)))"

definition hash_of :: "ledger_entry list \<Rightarrow> string" where
  "hash_of es = (if es = [] then GENESIS_HASH else the (recordHash (last es)))"

definition verified :: "platform \<Rightarrow> ledger_entry list \<Rightarrow> bool" where
  "verified P es \<longleftrightarrow> verifyAuditRecords P es = Valid (length es)"

lemma verify_step: "verify_from P i prev (e # es) = Valid n \<longleftrightarrow> stands P i prev e \<and> verify_from P (Suc i) (the (recordHash e)) es = Valid n"
  by (auto simp: stands_def Let_def)

lemma verify_count: "verify_from P i prev es = Valid n \<Longrightarrow> n = i + length es"
proof (induction es arbitrary: i prev)
  case (Cons e es)
  then show ?case unfolding verify_step by fastforce
qed simp

lemma verified_iff: "verifyAuditRecords P es = Valid n \<longleftrightarrow> verified P es \<and> n = length es"
  using verify_count [of P 0 GENESIS_HASH es n] unfolding verified_def verifyAuditRecords_def by auto

lemma verify_snoc: "verify_from P i prev (es @ [e]) = Valid n \<longleftrightarrow>
    (\<exists>m. verify_from P i prev es = Valid m \<and> stands P m (if es = [] then prev else the (recordHash (last es))) e \<and> n = Suc m)"
proof (induction es arbitrary: i prev)
  case Nil
  show ?case unfolding append_Nil verify_step by auto
next
  case (Cons x es)
  show ?case unfolding append_Cons verify_step Cons.IH by auto
qed

lemma verified_snoc: "verified P (es @ [e]) \<longleftrightarrow> verified P es \<and> stands P (length es) (hash_of es) e"
  using verify_count [of P 0 GENESIS_HASH es] unfolding verified_def verifyAuditRecords_def verify_snoc hash_of_def by auto

lemma verified_Nil [simp]: "verified P []"
  by (simp add: verified_def verifyAuditRecords_def)

lemma verified_append: "verified P (es @ fs) \<Longrightarrow> verified P es"
  by (induction fs rule: rev_induct) (simp_all add: verified_snoc flip: append_assoc)

lemma verified_nth:
  assumes "verified P es" "i < length es"
  shows "stands P i (hash_of (take i es)) (es ! i)"
proof -
  have "verified P (take (Suc i) es @ drop (Suc i) es)" using assms(1) by simp
  then have "verified P (take (Suc i) es)" by (rule verified_append)
  then have "verified P (take i es @ [es ! i])" using assms(2) by (simp add: take_Suc_conv_app_nth)
  then show ?thesis using assms(2) by (simp add: verified_snoc)
qed

lemma verified_seq: "verified P es \<Longrightarrow> i < length es \<Longrightarrow> map_of (content (es ! i)) ''sequence'' = Some (JNum (of_nat i))"
  using verified_nth unfolding stands_def by blast

lemma verified_mem:
  assumes "verified P es" "e \<in> set es"
  obtains i where "i < length es" "es ! i = e" "map_of (content e) ''sequence'' = Some (JNum (of_nat i))"
  using assms verified_seq by (metis in_set_conv_nth)

lemma last_verified: "verified P es \<Longrightarrow> es \<noteq> [] \<Longrightarrow> map_of (content (last es)) ''sequence'' = Some (JNum (of_nat (length es - 1)))"
  using verified_seq [of P es "length es - 1"] by (simp add: last_conv_nth)

text \<open>Two verified ledgers with the same records are the same.\<close>

lemma verified_unique:
  assumes "verified P es" "verified P fs" "set es \<subseteq> set fs"
  shows "es = take (length es) fs"
proof -
  have at: "\<exists>j < length fs. fs ! j = es ! i \<and> j = i" if "i < length es" for i
  proof -
    have "es ! i \<in> set fs" using assms(3) nth_mem [OF that] by blast
    from verified_mem [OF assms(2) this] obtain j where
      "j < length fs" "fs ! j = es ! i" "map_of (content (es ! i)) ''sequence'' = Some (JNum (of_nat j))" by metis
    then show ?thesis using verified_seq [OF assms(1) that] by auto
  qed
  show ?thesis
  proof (rule nth_equalityI)
    show "length es = length (take (length es) fs)"
      using at [of "length es - 1"] by (cases es) auto
    show "es ! i = take (length es) fs ! i" if "i < length es" for i using at [OF that] that by auto
  qed
qed

section \<open>The contract of an appended ledger\<close>

definition fits :: "ledger_entry option \<Rightarrow> document \<Rightarrow> bool" where
  "fits h c \<longleftrightarrow> map_of c ''sequence'' = Some (JNum (next_sequence h)) \<and> map_of c ''previousHash'' = Some (JStr (previous_hash h))"

definition known :: "ledger_entry option \<Rightarrow> row list \<Rightarrow> bool" where
  "known h s \<longleftrightarrow> (\<forall>e. h = Some e \<longrightarrow> Ledger e \<in> set s)"

definition holds_all :: "ledger_entry list \<Rightarrow> row list \<Rightarrow> bool" where
  "holds_all es s \<longleftrightarrow> (\<forall>e \<in> set es. Ledger e \<in> set s)"

text \<open>The store from which a checkpoint was made: an earlier one, whose whole ledger verified.\<close>

definition commits :: "platform \<Rightarrow> (row list \<Rightarrow> bool) \<Rightarrow> (row list \<Rightarrow> row list \<Rightarrow> bool) \<Rightarrow> checkpoint \<Rightarrow> row list \<Rightarrow> bool" where
  "commits P I G k s \<longleftrightarrow> (\<exists>s0 es t. I s0 \<and> G s0 s \<and> set es = set (entries_of s0) \<and> verified P es \<and> k = checkpoint_of es t)"

fun operation_of :: "ledger_call \<Rightarrow> string option" where
  "operation_of (Append q) = a_operationId q"
| "operation_of (Append_critical q) = a_operationId q"
| "operation_of (Append_financial q) = l_operationId q"
| "operation_of (Append_privileged q) = l_operationId q"
| "operation_of _ = None"

fun promise :: "platform \<Rightarrow> (row list \<Rightarrow> bool) \<Rightarrow> (row list \<Rightarrow> row list \<Rightarrow> bool) \<Rightarrow> string option \<Rightarrow> ledger_result \<Rightarrow> row list \<Rightarrow> bool" where
  "promise P I G i (Recorded e) s = (Ledger e \<in> set s \<and> (\<exists>x. i = Some x \<and> of_operation x e))"
| "promise P I G i (Records es) s = holds_all es s"
| "promise P I G i (Checkpointed k) s = commits P I G k s"
| "promise P I G i (Exported es x) s = (holds_all es s \<and> (isCompleteChainVerified x \<longrightarrow> verified P es))"
| "promise P I G i Logged s = True"
| "promise P I G i (Threw e) s = True"

text \<open>The calls of the two modules; only the transition checker logs rollbacks.\<close>

fun appends :: "ledger_call \<Rightarrow> bool" where
  "appends (Log_rollback type params message state) = False"
| "appends _ = True"

lemma integrity_verified: "integrity_from P i prev t es = Inr h \<Longrightarrow> verify_from P i prev es = Valid (i + length es)"
proof (induction P i prev t es rule: integrity_from.induct)
  case (2 P i prev before e es)
  then have "stands P i prev e" "integrity_from P (Suc i) (the (recordHash e)) (timestamp_of (content e)) es = Inr h"
    "\<not> earlier (timestamp_of (content e)) before"
    by (auto simp: stands_def split: if_splits)
  then show ?case using "2.IH" by (auto simp: stands_def)
qed simp

lemma receipt_verified: "isCompleteChainVerified (receipt_of P x es) \<Longrightarrow> verified P es"
  using integrity_verified [of P 0 GENESIS_HASH "Some 0" es]
  by (auto simp: receipt_of_def verifyLedgerIntegrity_def verified_def verifyAuditRecords_def split: sum.splits)

locale ledger_contract =
  fixes P :: platform and I :: "row list \<Rightarrow> bool" and G :: "row list \<Rightarrow> row list \<Rightarrow> bool"
  assumes G_refl: "G s s"
    and G_trans: "G s t \<Longrightarrow> G t u \<Longrightarrow> G s u"
    and G_rows: "G s t \<Longrightarrow> set s \<subseteq> set t"
    and record_kept: "I s \<Longrightarrow> known h s \<Longrightarrow> fits h c \<Longrightarrow> \<not> clashes same_row s (Ledger (hashed P c)) \<Longrightarrow>
      I (s @ [Ledger (hashed P c)]) \<and> G s (s @ [Ledger (hashed P c)])"
    and checkpoint_kept: "I s \<Longrightarrow> I (s @ [Checkpoint k]) \<and> G s (s @ [Checkpoint k])"
begin

abbreviation sound :: "string option \<Rightarrow> script \<Rightarrow> (row list \<Rightarrow> bool) \<Rightarrow> bool" where
  "sound i p K \<equiv> good same_row I G (promise P I G i) p K"

abbreviation lasts :: "(row list \<Rightarrow> bool) \<Rightarrow> bool" where
  "lasts K \<equiv> stays I G K"

lemma lasts_mem: "lasts (\<lambda>s. r \<in> set s)" "lasts (known h)" "lasts (holds_all es)"
  using G_rows by (fastforce simp: stays_def known_def holds_all_def)+

lemma lasts_conj: "lasts K \<Longrightarrow> lasts K' \<Longrightarrow> lasts (\<lambda>s. K s \<and> K' s)"
  unfolding stays_def by blast

lemma lasts_True: "lasts (\<lambda>_. True)"
  by (simp add: stays_def)

lemma lasts_commits: "lasts (commits P I G k)"
  unfolding stays_def commits_def using G_trans by blast

lemma sound_throw: "sound i (throw e) K"
  by simp

lemma sound_ask:
  assumes "\<And>a. sound i (k a) K" "lasts K"
  shows "sound i (Await (Ask e) k) K"
proof (rule good_call [where K' = "\<lambda>_. K"])
  fix s s' and a :: "(row, answer) reply"
  assume a: "I s" "K s" "documented same_row (Ask e) s a s'"
  have "s' = s" by (rule documented_reads [OF _ a(3)]) simp
  then show "I s' \<and> G s s' \<and> K s'" using a(1,2) G_refl by simp
qed (use assms in \<open>auto simp: stays_def\<close>)

lemma sound_clock:
  assumes "\<And>t. sound i (k t) K" "lasts K"
  shows "sound i (clock k) K"
  unfolding clock_def by (rule sound_ask) (use assms in \<open>auto split: reply.splits answer.splits\<close>)

lemma found_rows:
  assumes "documented same_row (Find_all (ledger_where p)) s (Rows rs) s'"
  shows "set (entries_of rs) = {e. Ledger e \<in> set s \<and> p e}"
  using documented_rows [OF assms] by (auto simp: set_entries)

lemma sound_entries:
  assumes "\<And>s es. I s \<Longrightarrow> K s \<Longrightarrow> set es = {e. Ledger e \<in> set s \<and> p e} \<Longrightarrow> K' es s"
    and "\<And>es. lasts (K' es)" "\<And>es. sound i (k es) (K' es)"
  shows "sound i (find_entries p k) K"
  unfolding find_entries_def
proof (rule good_call [where K' = "\<lambda>a. case a of Rows rs \<Rightarrow> K' (entries_of rs) | _ \<Rightarrow> \<lambda>_. True"])
  fix s s' and a :: "(row, answer) reply"
  assume a: "I s" "K s" "documented same_row (Find_all (ledger_where p)) s a s'"
  have s': "s' = s" using documented_reads [OF _ a(3)] by simp
  show "I s' \<and> G s s' \<and> (case a of Rows rs \<Rightarrow> K' (entries_of rs) | _ \<Rightarrow> \<lambda>_. True) s'"
    using a(1) assms(1) [OF a(1,2)] found_rows [of p s _ s'] a(3) G_refl unfolding s' by (auto split: reply.splits)
next
  fix a :: "(row, answer) reply" and s t
  assume "(case a of Rows rs \<Rightarrow> K' (entries_of rs) | _ \<Rightarrow> \<lambda>_. True) s" "I s" "I t" "G s t"
  then show "(case a of Rows rs \<Rightarrow> K' (entries_of rs) | _ \<Rightarrow> \<lambda>_. True) t"
    using assms(2) unfolding stays_def by (auto split: reply.splits)
qed (use assms(3) in \<open>auto split: reply.splits\<close>)

lemma sound_entry:
  assumes "\<And>e. p e \<Longrightarrow> sound i (k (Some e)) (\<lambda>s. Ledger e \<in> set s)" "sound i (k None) K" "lasts K"
  shows "sound i (find_entry p k) K"
  unfolding find_entry_def
proof (rule good_call [where K' = "\<lambda>a s. K s \<and> (\<forall>e. a = Row (Some (Ledger e)) \<longrightarrow> p e \<and> Ledger e \<in> set s)"])
  fix s s' and a :: "(row, answer) reply"
  assume a: "I s" "K s" "documented same_row (Find_one (ledger_where p)) s a s'"
  have s': "s' = s" using documented_reads [OF _ a(3)] by simp
  show "I s' \<and> G s s' \<and> (K s' \<and> (\<forall>e. a = Row (Some (Ledger e)) \<longrightarrow> p e \<and> Ledger e \<in> set s'))"
    using a(1,2) documented_found [of same_row "ledger_where p" s "Ledger _" s'] a(3) G_refl unfolding s' by fastforce
next
  fix a :: "(row, answer) reply" and s t
  assume "K s \<and> (\<forall>e. a = Row (Some (Ledger e)) \<longrightarrow> p e \<and> Ledger e \<in> set s)" "I s" "I t" "G s t"
  then show "K t \<and> (\<forall>e. a = Row (Some (Ledger e)) \<longrightarrow> p e \<and> Ledger e \<in> set t)"
    using assms(3) G_rows unfolding stays_def by blast
next
  fix a :: "(row, answer) reply"
  show "sound i (case a of Row None \<Rightarrow> k None | Row (Some (Ledger e)) \<Rightarrow> k (Some e) | _ \<Rightarrow> throw Call_failed)
    (\<lambda>s. K s \<and> (\<forall>e. a = Row (Some (Ledger e)) \<longrightarrow> p e \<and> Ledger e \<in> set s))"
  proof (cases "\<exists>e. a = Row (Some (Ledger e))")
    case True
    then obtain e where e: "a = Row (Some (Ledger e))" by blast
    show ?thesis
    proof (cases "p e")
      case True
      show ?thesis unfolding e by (simp, rule good_mono [OF assms(1) [OF True]]) simp
    next
      case False
      then show ?thesis unfolding e by (intro good_absurd) simp
    qed
  next
    case False
    then show ?thesis
      using good_mono [OF assms(2), of "\<lambda>s. K s \<and> (\<forall>e. a = Row (Some (Ledger e)) \<longrightarrow> p e \<and> Ledger e \<in> set s)"]
      by (auto split: reply.splits option.splits row.splits)
  qed
qed

text \<open>The loop: a record is made from a head that is in the ledger, then inserted.\<close>

definition made_by :: "(ledger_entry option \<Rightarrow> (document \<Rightarrow> script) \<Rightarrow> script) \<Rightarrow> string \<Rightarrow> bool" where
  "made_by build x \<longleftrightarrow> (\<forall>h k.
     (\<forall>c. fits h c \<longrightarrow> map_of c ''operationId'' = Some (JStr x) \<longrightarrow> sound (Some x) (k c) (known h)) \<longrightarrow>
     sound (Some x) (build h k) (known h))"

lemma sound_insert:
  assumes "fits h c" "map_of c ''operationId'' = Some (JStr x)" "sound (Some x) q (known h)"
  shows "sound (Some x) (Await (Insert_one (Ledger (hashed P c))) (\<lambda>a. case a of
      Inserted _ \<Rightarrow> Return (Recorded (hashed P c)) | Duplicate \<Rightarrow> q | _ \<Rightarrow> throw Call_failed)) (known h)"
proof (rule good_call [where K' = "\<lambda>a s. known h s \<and> (\<forall>r. a = Inserted r \<longrightarrow> Ledger (hashed P c) \<in> set s)"])
  fix s s' and a :: "(row, answer) reply"
  assume a: "I s" "known h s" "documented same_row (Insert_one (Ledger (hashed P c))) s a s'"
  have kept: "I s' \<and> G s s'"
    using documented_insert [OF a(3)] a(1) record_kept [OF a(1,2) assms(1)] G_refl by auto
  moreover have "known h s'" using kept a lasts_mem(2) unfolding stays_def by blast
  moreover have "Ledger (hashed P c) \<in> set s'" if "a = Inserted r" for r
    using a(3) unfolding that by (auto simp: documented_def effect_def)
  ultimately show "I s' \<and> G s s' \<and> known h s' \<and> (\<forall>r. a = Inserted r \<longrightarrow> Ledger (hashed P c) \<in> set s')" by blast
next
  fix a :: "(row, answer) reply" and s t
  assume "known h s \<and> (\<forall>r. a = Inserted r \<longrightarrow> Ledger (hashed P c) \<in> set s)" "I s" "I t" "G s t"
  then show "known h t \<and> (\<forall>r. a = Inserted r \<longrightarrow> Ledger (hashed P c) \<in> set t)"
    using lasts_mem(2) [of h] G_rows unfolding stays_def by blast
next
  fix a :: "(row, answer) reply"
  have "of_operation x (hashed P c)" using assms(2) by (simp add: of_operation_def hashed_def)
  then show "sound (Some x) (case a of Inserted _ \<Rightarrow> Return (Recorded (hashed P c)) | Duplicate \<Rightarrow> q | _ \<Rightarrow> throw Call_failed)
      (\<lambda>s. known h s \<and> (\<forall>r. a = Inserted r \<longrightarrow> Ledger (hashed P c) \<in> set s))"
    using good_mono [OF assms(3), of "\<lambda>s. known h s \<and> (\<forall>r. a = Inserted r \<longrightarrow> Ledger (hashed P c) \<in> set s)"]
    by (auto split: reply.splits)
qed

lemma sound_recorded: "of_operation x e \<Longrightarrow> sound (Some x) (Return (Recorded e)) (\<lambda>s. Ledger e \<in> set s)"
  by simp

lemma head_known: "set es = {e. Ledger e \<in> set s \<and> True} \<Longrightarrow> known (head_of es) s"
  using last_in_set [of "by_sequence es"] by (auto simp: known_def head_of_def split: if_splits)

lemma sound_loop: "made_by build x \<Longrightarrow> sound (Some x) (append_at_head P n x build) (\<lambda>_. True)"
proof (induction n)
  case (Suc n)
  have retry: "sound (Some x) (find_entry (of_operation x) (\<lambda>y. case y of Some e \<Rightarrow> Return (Recorded e) | None \<Rightarrow> append_at_head P n x build))
      (known h)" for h
    by (rule sound_entry)
      (use sound_recorded good_mono [OF Suc.IH [OF Suc.prems], of "known h"] lasts_mem(2) in auto)
  show ?case unfolding append_at_head.simps
  proof (rule sound_entries [where K' = "\<lambda>es. known (head_of es)"])
    fix es
    show "sound (Some x) (build (head_of es) (\<lambda>c. Await (Insert_one (Ledger (hashed P c))) (\<lambda>a. case a of
         Inserted _ \<Rightarrow> Return (Recorded (hashed P c))
       | Duplicate \<Rightarrow> find_entry (of_operation x) (\<lambda>y. case y of Some e \<Rightarrow> Return (Recorded e) | None \<Rightarrow> append_at_head P n x build)
       | _ \<Rightarrow> throw Call_failed))) (known (head_of es))"
      by (rule Suc.prems [unfolded made_by_def, rule_format]) (rule sound_insert [OF _ _ retry])
  qed (use head_known lasts_mem(2) in auto)
qed simp

lemma sound_once: "made_by build x \<Longrightarrow> sound (Some x) (append_once P n x build) (\<lambda>_. True)"
  unfolding append_once_def
  by (rule sound_entry) (use sound_recorded sound_loop [of build x n] lasts_True in auto)

lemma truthy_some: "truthy v \<Longrightarrow> v = Some (the v)"
  by (cases v) simp_all

lemma audit_made: "truthy (a_operationId q) \<Longrightarrow> made_by (\<lambda>h k. clock (\<lambda>t. k (audit_content P q h t))) (the (a_operationId q))"
  unfolding made_by_def
  by (intro allI impI sound_clock lasts_mem) (simp add: fits_def audit_content_def)

lemma ledger_made: "made_by (\<lambda>h k. if inverts h (l_timestamp q) then throw Inversion else k (ledger_content P q h)) (the (l_operationId q))"
  unfolding made_by_def by (simp add: fits_def ledger_content_def)

lemma audit_sound: "sound (a_operationId q) (appendAuditRecord P q) (\<lambda>_. True)"
  using sound_once [OF audit_made, of q 3] truthy_some [of "a_operationId q"] unfolding appendAuditRecord_def by auto

lemma critical_sound: "sound (a_operationId q) (appendCriticalMutation P q) (\<lambda>_. True)"
  using audit_sound [of "q\<lparr>a_result := Some (JObj [(''status'', JStr ''applied'')])\<rparr>"]
  unfolding appendCriticalMutation_def by simp

lemma ledger_sound: "sound (l_operationId q) (appendLedgerRecord P q) (\<lambda>_. True)"
  using sound_once [OF ledger_made, of q 5] truthy_some [of "l_operationId q"] unfolding appendLedgerRecord_def by auto

lemma event_sound:
  "sound (l_operationId q) (appendFinancialEvent P q) (\<lambda>_. True)" "sound (l_operationId q) (appendPrivilegedEvent P q) (\<lambda>_. True)"
  using ledger_sound [of "q\<lparr>l_eventDomain := ''financial'', l_financialDetails := map_option (normalize P) (l_financialDetails q)\<rparr>"]
    ledger_sound [of "q\<lparr>l_eventDomain := ''privileged'', l_financialDetails := None\<rparr>"]
  unfolding appendFinancialEvent_def appendPrivilegedEvent_def by simp_all

lemma read_sound: "sound None (readAuditRecords f) (\<lambda>_. True)"
  unfolding readAuditRecords_def
  by (rule sound_entries [where K' = holds_all]) (use lasts_mem in \<open>auto simp: holds_all_def dest!: in_set_takeD\<close>)

lemma export_sound: "sound None (exportLedger P x) (\<lambda>_. True)"
  unfolding exportLedger_def Let_def
  by (rule sound_entries [where K' = holds_all])
    (use lasts_mem receipt_verified in \<open>auto simp: holds_all_def dest!: in_set_takeD\<close>)

lemma anchor_sound: "sound None (anchor url k) (commits P I G k)"
  unfolding anchor_def
  by (auto intro!: sound_ask lasts_commits split: reply.splits answer.splits bool.splits)

lemma checkpoint_sound: "sound None (createAuditCheckpoint P url) (\<lambda>_. True)"
  unfolding createAuditCheckpoint_def Let_def
proof (rule sound_entries [where K' = "\<lambda>es s. \<forall>t. verified P (by_sequence es) \<longrightarrow> commits P I G (checkpoint_of (by_sequence es) t) s"])
  fix s es
  assume "I s" "set es = {e. Ledger e \<in> set s \<and> True}"
  then show "\<forall>t. verified P (by_sequence es) \<longrightarrow> commits P I G (checkpoint_of (by_sequence es) t) s"
    unfolding commits_def using G_refl by (auto simp: set_entries intro!: exI [of _ s] exI [of _ "by_sequence es"])
next
  show "lasts (\<lambda>s. \<forall>t. verified P (by_sequence es) \<longrightarrow> commits P I G (checkpoint_of (by_sequence es) t) s)" for es
    using lasts_commits unfolding stays_def by blast
next
  fix es
  let ?K = "\<lambda>s. \<forall>t. verified P (by_sequence es) \<longrightarrow> commits P I G (checkpoint_of (by_sequence es) t) s"
  have last: "lasts ?K" using lasts_commits unfolding stays_def by blast
  have upsert: "sound None (Await (Update_one (checkpoint_where p) id (Some (Checkpoint k))) (\<lambda>a. case a of
      Updated _ \<Rightarrow> anchor url k | Upserted _ \<Rightarrow> anchor url k | _ \<Rightarrow> throw Call_failed)) (commits P I G k)" for p k
  proof (rule good_call [where K' = "\<lambda>_. commits P I G k"])
    fix s s' and a :: "(row, answer) reply"
    assume a: "I s" "commits P I G k s" "documented same_row (Update_one (checkpoint_where p) id (Some (Checkpoint k))) s a s'"
    have "s' = s \<or> s' = s @ [Checkpoint k]"
      using documented_update_rows [OF a(3)] by (auto simp: update_at_def)
    then have "I s' \<and> G s s'" using a(1) checkpoint_kept G_refl by auto
    then show "I s' \<and> G s s' \<and> commits P I G k s'" using a lasts_commits unfolding stays_def by blast
  next
    show "sound None (case a of Updated _ \<Rightarrow> anchor url k | Upserted _ \<Rightarrow> anchor url k | _ \<Rightarrow> throw Call_failed) (commits P I G k)"
      for a :: "(row, answer) reply"
      using anchor_sound by (auto split: reply.splits)
  qed (use lasts_commits in \<open>auto simp: stays_def\<close>)
  show "sound None (case verifyAuditRecords P (by_sequence es) of Broken_at s \<Rightarrow> throw (Broken s)
      | Valid _ \<Rightarrow> clock (\<lambda>t. Await (Update_one (checkpoint_where (\<lambda>x. c_sequence x = c_sequence (checkpoint_of (by_sequence es) t))) id
          (Some (Checkpoint (checkpoint_of (by_sequence es) t)))) (\<lambda>a. case a of
            Updated _ \<Rightarrow> anchor url (checkpoint_of (by_sequence es) t)
          | Upserted _ \<Rightarrow> anchor url (checkpoint_of (by_sequence es) t) | _ \<Rightarrow> throw Call_failed))) ?K"
  proof (cases "verifyAuditRecords P (by_sequence es)")
    case (Valid n)
    then have v: "verified P (by_sequence es)" by (simp add: verified_iff)
    show ?thesis unfolding Valid chain_report.case
      by (rule sound_clock [OF _ last], rule good_mono [OF upsert]) (use v in blast)
  qed simp
qed

lemma handler_sound: "appends c \<Longrightarrow> sound (operation_of c) (ledger_handler P c) (\<lambda>_. True)"
  by (cases c) (simp_all add: audit_sound critical_sound event_sound read_sound export_sound checkpoint_sound)

end

sublocale ledger_contract < appended: rely_guarantee same_row I G "\<lambda>(c, r). promise P I G (operation_of c) r" "\<lambda>_. True"
  "\<lambda>c. labelled c (ledger_handler P c)" appends
proof unfold_locales
  fix c
  assume "appends c"
  then show "good same_row I G (\<lambda>(c, r). promise P I G (operation_of c) r) (labelled c (ledger_handler P c)) (\<lambda>_. True)"
    by (intro good_labelled) (use handler_sound in simp)
qed (use G_refl G_trans in blast)+

text \<open>An invariant that any document preserves also covers the transition checker.\<close>

locale open_ledger = ledger_contract +
  assumes any_kept: "I s \<Longrightarrow> I (s @ [Ledger e]) \<and> G s (s @ [Ledger e])"
begin

lemma rollback_sound: "sound None (log_rollback type params message state) (\<lambda>_. True)"
  unfolding log_rollback_def
proof (rule sound_clock [OF good_call [where K' = "\<lambda>_ _. True"]])
  fix t s s' and a :: "(row, answer) reply"
  assume "I s" "documented same_row (Insert_one (Ledger (rollback_document type params message state t))) s a s'"
  then show "I s' \<and> G s s' \<and> True" using documented_insert [of same_row _ s a s'] any_kept G_refl by blast
qed (use lasts_True in auto)

lemma every_sound: "sound (operation_of c) (ledger_handler P c) (\<lambda>_. True)"
proof (cases "appends c")
  case False
  then show ?thesis using rollback_sound by (cases c) simp_all
qed (rule handler_sound)

end

sublocale open_ledger < mixed: rely_guarantee same_row I G "\<lambda>(c, r). promise P I G (operation_of c) r" "\<lambda>_. True"
  "\<lambda>c. labelled c (ledger_handler P c)" "\<lambda>_. True"
proof unfold_locales
  fix c
  show "good same_row I G (\<lambda>(c, r). promise P I G (operation_of c) r) (labelled c (ledger_handler P c)) (\<lambda>_. True)"
    by (intro good_labelled) (use every_sound in simp)
qed (use G_refl G_trans in blast)+

section \<open>The ledger verifies\<close>

definition ledger :: "row list \<Rightarrow> ledger_entry list" where
  "ledger s = by_sequence (entries_of s)"

definition grows :: "row list \<Rightarrow> row list \<Rightarrow> bool" where
  "grows s t \<longleftrightarrow> prefix (ledger s) (ledger t) \<and> set s \<subseteq> set t"

lemma set_ledger: "e \<in> set (ledger s) \<longleftrightarrow> Ledger e \<in> set s"
  by (simp add: ledger_def set_entries)

lemma head_hash: "stands P i prev e \<Longrightarrow> or_default (recordHash e) GENESIS_HASH = the (recordHash e)"
  by (simp add: stands_def)

lemma seq_keyI: "map_of (content e) ''sequence'' = Some (JNum r) \<Longrightarrow> seq_key e = Some r"
  by (simp add: seq_key_def)

text \<open>What does not clash with a verified ledger, and continues one of its records, continues its head.\<close>

lemma continues_head:
  assumes v: "verified P (ledger s)" and h: "known h s" and c: "fits h c"
    and new: "\<not> clashes same_row s (Ledger (hashed P c))"
  shows "stands P (length (ledger s)) (hash_of (ledger s)) (hashed P c)"
proof -
  have free: "map_of c ''sequence'' \<noteq> Some (JNum (of_nat i))" if i: "i < length (ledger s)" for i
  proof
    assume "map_of c ''sequence'' = Some (JNum (of_nat i))"
    then have "same_row (Ledger (ledger s ! i)) (Ledger (hashed P c))"
      using verified_seq [OF v i] by (simp add: indexed_def hashed_def)
    moreover have "Ledger (ledger s ! i) \<in> set s" using nth_mem [OF i] by (simp add: set_ledger)
    ultimately show False using new unfolding clashes_def by blast
  qed
  show ?thesis
  proof (cases h)
    case None
    then have "length (ledger s) = 0" using free [of 0] c by (auto simp: fits_def next_sequence_def)
    then show ?thesis using c None by (simp add: stands_def hashed_def fits_def next_sequence_def previous_hash_def hash_of_def)
  next
    case (Some x)
    then have "x \<in> set (ledger s)" using h by (simp add: known_def set_ledger)
    from verified_mem [OF v this] obtain i where i: "i < length (ledger s)" "ledger s ! i = x"
      "map_of (content x) ''sequence'' = Some (JNum (of_nat i))" by blast
    have nxt: "map_of c ''sequence'' = Some (JNum (of_nat (Suc i)))"
      using c i(3) Some by (simp add: fits_def next_sequence_def add.commute)
    then have len: "length (ledger s) = Suc i" using free [of "Suc i"] i(1) by linarith
    then have "last (ledger s) = x" using i by (simp add: last_conv_nth flip: length_greater_0_conv)
    moreover have "or_default (recordHash x) GENESIS_HASH = the (recordHash x)"
      using head_hash [OF verified_nth [OF v i(1)]] i(2) by simp
    ultimately show ?thesis using c nxt len Some
      by (auto simp: stands_def hashed_def fits_def previous_hash_def hash_of_def)
  qed
qed

lemma ledger_snoc:
  assumes "verified P (ledger s)" "stands P (length (ledger s)) p e"
  shows "ledger (s @ [Ledger e]) = ledger s @ [e]"
  unfolding ledger_def by_sequence_def entries_append
proof (simp, rule sort_key_snoc)
  fix y
  assume "y \<in> set (entries_of s)"
  then have "y \<in> set (ledger s)" by (simp add: ledger_def)
  from verified_mem [OF assms(1) this] obtain i where "i < length (ledger s)" "seq_key y = Some (of_nat i)"
    by (metis seq_keyI)
  moreover have "seq_key e = Some (of_nat (length (ledger s)))" using assms(2) by (auto simp: stands_def intro: seq_keyI)
  ultimately show "seq_key y \<le> seq_key e" by simp
qed

lemma ledger_checkpoint: "ledger (s @ [Checkpoint k]) = ledger s"
  by (simp add: ledger_def entries_append)

interpretation chain: ledger_contract P "\<lambda>s. verified P (ledger s)" grows for P
proof unfold_locales
  fix s h c
  assume s: "verified P (ledger s)" "known h s" "fits h c" "\<not> clashes same_row s (Ledger (hashed P c))"
  note new = continues_head [OF s]
  have "ledger (s @ [Ledger (hashed P c)]) = ledger s @ [hashed P c]" by (rule ledger_snoc [OF s(1) new])
  then show "verified P (ledger (s @ [Ledger (hashed P c)])) \<and> grows s (s @ [Ledger (hashed P c)])"
    using s(1) new by (auto simp: grows_def verified_snoc)
qed (auto simp: grows_def ledger_checkpoint intro: prefix_order.order_trans)

section \<open>A document without a sequence\<close>

definition poisoned :: "row list \<Rightarrow> bool" where
  "poisoned s \<longleftrightarrow> (\<exists>e. Ledger e \<in> set s \<and> map_of (content e) ''sequence'' = None)"

interpretation spoiled: open_ledger P poisoned "\<lambda>s t. set s \<subseteq> set t" for P
  by unfold_locales (auto simp: poisoned_def)

section \<open>What a hash commits to\<close>

definition contents :: "ledger_entry list \<Rightarrow> json list" where
  "contents es = map (\<lambda>e. JObj (content e)) es"

definition collision_free :: "platform \<Rightarrow> json list \<Rightarrow> bool" where
  "collision_free P vs \<longleftrightarrow> (\<forall>a \<in> set vs. \<forall>b \<in> set vs. digest P a = digest P b \<longrightarrow> normalize P a = normalize P b)"

lemma collision_freeD:
  "collision_free P vs \<Longrightarrow> a \<in> set vs \<Longrightarrow> b \<in> set vs \<Longrightarrow> digest P a = digest P b \<Longrightarrow> normalize P a = normalize P b"
  unfolding collision_free_def by blast

lemma collision_free_subset: "collision_free P vs \<Longrightarrow> set ws \<subseteq> set vs \<Longrightarrow> collision_free P ws"
  unfolding collision_free_def by blast

definition same_contents :: "platform \<Rightarrow> ledger_entry list \<Rightarrow> ledger_entry list \<Rightarrow> bool" where
  "same_contents P es fs \<longleftrightarrow> map (normalize P) (contents es) = map (normalize P) (contents fs)"

lemma same_fields:
  assumes "normalize P (JObj (content e)) = normalize P (JObj (content f))" "stands P i p e" "stands P j q f"
  shows "i = j \<and> p = q"
proof -
  have "map_option (normalize P) (map_of (content e) k) = map_option (normalize P) (map_of (content f) k)" for k
    using assms(1) map_of_normalized by metis
  from this [of "''sequence''"] this [of "''previousHash''"] show ?thesis
    using assms(2,3) by (auto simp: stands_def normalize_def)
qed

lemma committed:
  "verified P es \<Longrightarrow> verified P fs \<Longrightarrow> collision_free P (contents es @ contents fs) \<Longrightarrow> es \<noteq> [] \<Longrightarrow> fs \<noteq> [] \<Longrightarrow>
    hash_of es = hash_of fs \<Longrightarrow> same_contents P es fs"
proof (induction es arbitrary: fs rule: rev_induct)
  case (snoc e es)
  obtain f gs where fs: "fs = gs @ [f]" using snoc.prems(5) by (cases fs rule: rev_cases) auto
  have e: "verified P es" "stands P (length es) (hash_of es) e" and f: "verified P gs" "stands P (length gs) (hash_of gs) f"
    using snoc.prems(1,2) by (simp_all add: fs verified_snoc)
  have "digest P (JObj (content e)) = digest P (JObj (content f))"
    using snoc.prems(6) e(2) f(2) by (simp add: hash_of_def fs stands_def)
  then have norm: "normalize P (JObj (content e)) = normalize P (JObj (content f))"
    by (intro collision_freeD [OF snoc.prems(3)]) (simp_all add: contents_def fs)
  from same_fields [OF norm e(2) f(2)] have eq: "length es = length gs" "hash_of es = hash_of gs" by simp_all
  have "same_contents P es gs"
  proof (cases "es = []")
    case False
    moreover have "collision_free P (contents es @ contents gs)"
      by (rule collision_free_subset [OF snoc.prems(3)]) (auto simp: contents_def fs)
    moreover have "gs \<noteq> []" using False eq(1) by auto
    ultimately show ?thesis using snoc.IH [OF e(1) f(1)] eq(2) by blast
  qed (use eq in \<open>simp add: same_contents_def contents_def\<close>)
  then show ?case using norm by (simp add: same_contents_def contents_def fs)
qed simp

section \<open>Guarantees\<close>

definition run_ledger :: "platform \<Rightarrow> (row, question, answer) database \<Rightarrow> (ledger_call, answer) move list \<Rightarrow> row list \<Rightarrow>
    (row, question, answer, ledger_call \<times> ledger_result) world" where
  "run_ledger P D moves s = run D (\<lambda>c. labelled c (ledger_handler P c)) moves (world_of s)"

lemma committed_at:
  assumes "grows s0 t" "verified P (ledger t)" "set es = set (entries_of s0)" "verified P es"
  shows "prefix es (ledger t)" "checkpoint_of es u = \<lparr>c_sequence = JNum (of_nat (length es) - 1), c_hash = hash_of es, c_at = u\<rparr>"
proof -
  have "set es \<subseteq> set (ledger t)" using assms(1,3) by (auto simp: grows_def set_ledger set_entries)
  from verified_unique [OF assms(4,2) this] show "prefix es (ledger t)" by (metis take_is_prefix)
  show "checkpoint_of es u = \<lparr>c_sequence = JNum (of_nat (length es) - 1), c_hash = hash_of es, c_at = u\<rparr>"
  proof (cases "es = []")
    case False
    have "stands P (length es - 1) (hash_of (take (length es - 1) es)) (last es)"
      using verified_nth [OF assms(4), of "length es - 1"] False by (simp add: last_conv_nth)
    then show ?thesis using False by (simp add: checkpoint_of_def hash_of_def stands_def nullish_def of_nat_diff Suc_leI)
  qed (simp add: checkpoint_of_def hash_of_def)
qed

text \<open>
  C9: the audit ledger is append-only and never breaks. From a ledger that verifies, however any
  appends of both modules, reads, checkpoints and exports interleave and wherever calls fail, the
  ledger verifies, the old ledger is a prefix of it, and every record a call returned is in it and
  carries the operation id of the call.
\<close>

theorem ledger_append_only:
  assumes "documented_db same_row D" "verified P (ledger s)" "\<And>c. c \<in> begun moves \<Longrightarrow> appends c"
  shows "verified P (ledger (rows (run_ledger P D moves s))) \<and> prefix (ledger s) (ledger (rows (run_ledger P D moves s))) \<and>
    ((c, Recorded e) \<in> set (results (run_ledger P D moves s)) \<longrightarrow>
      e \<in> set (ledger (rows (run_ledger P D moves s))) \<and> (\<exists>i. operation_of c = Some i \<and> of_operation i e))"
proof -
  note kept = chain.appended.run_keeps [OF assms(1,2) TrueI assms(3), folded run_ledger_def]
  have "promise P (\<lambda>s. verified P (ledger s)) grows (operation_of c) r (rows (run_ledger P D moves s))"
    if "(c, r) \<in> set (results (run_ledger P D moves s))" for r
    using kept(3) that by fastforce
  from this [of "Recorded e"] show ?thesis using kept(1,2) by (auto simp: grows_def set_ledger)
qed

text \<open>
  C11: a checkpoint commits to the ledger of its moment. Its hash is that of a prefix of the final
  ledger, as long as its sequence says; and if the digest has no collisions, any other list of
  records that verifies with this hash at its head has the same contents, so an edit, a removal or a
  reordering of records that a checkpoint covers is visible.
\<close>

theorem checkpoint_commits:
  assumes "documented_db same_row D" "verified P (ledger s)" "\<And>c. c \<in> begun moves \<Longrightarrow> appends c"
    and "(c, Checkpointed k) \<in> set (results (run_ledger P D moves s))"
  shows "\<exists>es. prefix es (ledger (rows (run_ledger P D moves s))) \<and> c_sequence k = JNum (of_nat (length es) - 1) \<and> c_hash k = hash_of es \<and>
    (\<forall>fs. es \<noteq> [] \<longrightarrow> fs \<noteq> [] \<longrightarrow> verified P fs \<longrightarrow> hash_of fs = c_hash k \<longrightarrow> collision_free P (contents fs @ contents es) \<longrightarrow>
      same_contents P fs es)"
proof -
  note kept = chain.appended.run_keeps [OF assms(1,2) TrueI assms(3), folded run_ledger_def]
  from kept(3) assms(4) have "commits P (\<lambda>s. verified P (ledger s)) grows k (rows (run_ledger P D moves s))" by fastforce
  then obtain s0 es t where es: "grows s0 (rows (run_ledger P D moves s))" "set es = set (entries_of s0)" "verified P es"
    "k = checkpoint_of es t" unfolding commits_def by blast
  have v: "verified P (ledger (rows (run_ledger P D moves s)))" using kept(1) by simp
  note at = committed_at [OF es(1) v es(2,3)]
  show ?thesis using at(1) at(2) [of t] es(3,4) committed [of P _ es] by (intro exI [of _ es]) simp
qed

text \<open>
  C31: a rollback record stops the checkpoints. The transition checker inserts a document of its own
  into the ledger, without a sequence; once one is there, no call returns a checkpoint any more,
  and no export verifies a complete chain together with it.
\<close>

theorem rollback_record_stops_checkpoints:
  assumes "documented_db same_row D" "Ledger (rollback_document type params message state t) \<in> set s"
  shows "(c, Checkpointed k) \<notin> set (results (run_ledger P D moves s)) \<and>
    ((c, Exported es x) \<in> set (results (run_ledger P D moves s)) \<longrightarrow> isCompleteChainVerified x \<longrightarrow>
      rollback_document type params message state t \<notin> set es)"
proof -
  have no: "map_of (content (rollback_document type params message state t)) ''sequence'' = None" by (simp add: rollback_document_def)
  then have "poisoned s" using assms(2) unfolding poisoned_def by blast
  note kept = spoiled.mixed.run_keeps [OF assms(1) this TrueI TrueI, folded run_ledger_def]
  have bad: "\<not> verified P es" if "e \<in> set es" "map_of (content e) ''sequence'' = None" for e es
    by (rule notI, erule verified_mem [OF _ that(1)]) (use that(2) in simp)
  have "(c, Checkpointed k) \<notin> set (results (run_ledger P D moves s))"
  proof
    assume "(c, Checkpointed k) \<in> set (results (run_ledger P D moves s))"
    with kept(3) have "commits P poisoned (\<lambda>s t. set s \<subseteq> set t) k (rows (run_ledger P D moves s))" by fastforce
    then obtain s0 vs e where "set vs = set (entries_of s0)" "verified P vs" "Ledger e \<in> set s0" "map_of (content e) ''sequence'' = None"
      unfolding commits_def poisoned_def by blast
    then show False using bad [of e vs] by (simp add: set_entries)
  qed
  moreover have "verified P es" if "(c, Exported es x) \<in> set (results (run_ledger P D moves s))" "isCompleteChainVerified x"
    using kept(3) that by fastforce
  ultimately show ?thesis using bad no by blast
qed

text \<open>
  An export that the limit cuts off still claims to be the complete chain: only the filters and the
  first record decide.
\<close>

lemma integrity_take: "integrity_from P i prev t es = Inr h \<Longrightarrow> \<exists>h'. integrity_from P i prev t (take n es) = Inr h'"
proof (induction P i prev t es arbitrary: n rule: integrity_from.induct)
  case (2 P i prev before e es)
  then show ?case by (cases n) (auto split: if_splits)
qed simp

lemma cut_export_claims_complete:
  assumes "verifyLedgerIntegrity P (ledger s) = Inr h" "unfiltered x" "o_limit x = int n" "0 < n" "n \<le> 5000" "n < length (ledger s)"
  shows "\<exists>r. told [Rows s] (exportLedger P x) = Return (Exported (take n (ledger s)) r) \<and> isCompleteChainVerified r \<and>
    recordCount r = n"
proof -
  have "ledger s \<noteq> []" using assms(6) by auto
  then obtain e es where es: "ledger s = e # es" by (cases "ledger s") auto
  then have "map_of (content e) ''sequence'' = Some (JNum 0)"
    using assms(1) by (auto simp: verifyLedgerIntegrity_def split: if_splits)
  then have "map_of (content (hd (take n (ledger s)))) ''sequence'' = Some (JNum 0)" using es assms(4) by (simp add: take_Cons')
  moreover obtain h' where "verifyLedgerIntegrity P (take n (ledger s)) = Inr h'"
    using integrity_take assms(1) unfolding verifyLedgerIntegrity_def by blast
  moreover have "nat (min (max 1 (if o_limit x = 0 then 1000 else o_limit x)) 5000) = n" using assms(3-5) by auto
  moreover have "told [Rows s] (exportLedger P x) = (let m = nat (min (max 1 (if o_limit x = 0 then 1000 else o_limit x)) 5000) in
      Return (Exported (take m (ledger s)) (receipt_of P x (take m (ledger s)))))"
    by (simp add: exportLedger_def find_entries_def ledger_def Let_def)
  ultimately show ?thesis using assms(2,4,6) \<open>ledger s \<noteq> []\<close> by (auto simp: Let_def receipt_of_def)
qed

section \<open>A run\<close>

definition sample_event :: "string \<Rightarrow> int \<Rightarrow> ledger_request" where
  "sample_event i t = \<lparr>l_eventDomain = ''privileged'', l_eventType = Some ''role_change'', l_operationId = Some i, l_actor = None,
     l_actorContext = [], l_financialDetails = None, l_target = Some (JStr ''u''), l_intent = JObj [], l_beforeState = JNull,
     l_afterState = JNull, l_result = JObj [], l_reason = None, l_timestamp = t\<rparr>"

definition first_record :: "platform \<Rightarrow> ledger_entry" where
  "first_record P = hashed P (ledger_content P (sample_event ''a'' 5) None)"

definition second_record :: "platform \<Rightarrow> ledger_entry" where
  "second_record P = hashed P (ledger_content P (sample_event ''b'' 7) (Some (first_record P)))"

definition first_call :: ledger_call where
  "first_call = Append_privileged (sample_event ''a'' 5)"

definition second_call :: ledger_call where
  "second_call = Append_privileged (sample_event ''b'' 7)"

definition sample_moves :: "(ledger_call, answer) move list" where
  "sample_moves = Begin first_call # map (Turn 0) [Works 0, Works 0, Works 0] @ Begin second_call # map (Turn 1) [Works 0, Works 0, Works 0] @
     Begin (Make_checkpoint False) # map (Turn 2) [Works 0, Says (Time 9), Works 0]"

lemma event_fields: "map_of (ledger_content P q h) ''sequence'' = Some (JNum (next_sequence h))"
  "map_of (ledger_content P q h) ''previousHash'' = Some (JStr (previous_hash h))"
  "map_of (ledger_content P q h) ''operationId'' = Some (JStr (the (l_operationId q)))"
  "map_of (ledger_content P q h) ''timestamp'' = Some (JDate (l_timestamp q))"
  by (simp_all add: ledger_content_def)

lemma sample_handler: "i \<noteq> [] \<Longrightarrow> ledger_handler P (Append_privileged (sample_event i t)) =
    append_once P (Suc 4) i (\<lambda>head k. if inverts head t then throw Inversion else k (ledger_content P (sample_event i t) head))"
proof -
  have "(sample_event i t)\<lparr>l_eventDomain := ''privileged'', l_financialDetails := None\<rparr> = sample_event i t"
    by (simp add: sample_event_def)
  moreover have "l_operationId (sample_event i t) = Some i" "l_eventType (sample_event i t) = Some ''role_change''"
    "l_target (sample_event i t) = Some (JStr ''u'')" "l_timestamp (sample_event i t) = t" by (simp_all add: sample_event_def)
  moreover assume "i \<noteq> []"
  ultimately show ?thesis by (simp add: appendPrivilegedEvent_def appendLedgerRecord_def)
qed

lemma first_fields:
  "map_of (content (first_record P)) ''sequence'' = Some (JNum 0)" "map_of (content (first_record P)) ''operationId'' = Some (JStr ''a'')"
  "map_of (content (first_record P)) ''timestamp'' = Some (JDate 5)" "stands P 0 GENESIS_HASH (first_record P)"
  by (simp_all add: first_record_def hashed_def event_fields next_sequence_def previous_hash_def sample_event_def stands_def)

lemma second_fields:
  "map_of (content (second_record P)) ''sequence'' = Some (JNum 1)" "map_of (content (second_record P)) ''operationId'' = Some (JStr ''b'')"
  "stands P 1 (the (recordHash (first_record P))) (second_record P)"
  using head_hash [OF first_fields(4)]
  by (simp_all add: second_record_def hashed_def event_fields next_sequence_def previous_hash_def sample_event_def stands_def first_fields)

lemmas first_attempt = append_at_head.simps(2) [where n = 4, simplified]

lemmas mem_simps = mem_db_def mem_works_def matching_simps pick_def find_entry_def find_entries_def of_operation_def

lemma first_solo: "solo (mem_db same_row) [Works 0, Works 0, Works 0] (ledger_handler P first_call) [] =
    (Return (Recorded (first_record P)), [Ledger (first_record P)])"
  unfolding first_call_def
  by (subst sample_handler) (simp_all add: append_once_def first_attempt mem_simps head_of_def inverts_def first_record_def)

lemma second_solo: "solo (mem_db same_row) [Works 0, Works 0, Works 0] (ledger_handler P second_call) [Ledger (first_record P)] =
    (Return (Recorded (second_record P)), [Ledger (first_record P), Ledger (second_record P)])"
proof -
  have "hashed P (ledger_content P (sample_event ''b'' 7) (Some (first_record P))) = second_record P" by (simp add: second_record_def)
  moreover have "\<not> same_row (Ledger (first_record P)) (Ledger (second_record P))"
    by (simp add: indexed_def nullish_null_def nullish_def first_fields second_fields)
  ultimately show ?thesis unfolding second_call_def
    by (subst sample_handler)
      (simp_all add: append_once_def first_attempt mem_simps first_fields head_of_def by_sequence_def inverts_def timestamp_of_def earlier_def
        del: same_row.simps)
qed

definition sample_checkpoint :: "platform \<Rightarrow> checkpoint" where
  "sample_checkpoint P = \<lparr>c_sequence = JNum 1, c_hash = the (recordHash (second_record P)), c_at = 9\<rparr>"

lemma third_solo: "solo (mem_db same_row) [Works 0, Says (Time 9), Works 0] (ledger_handler P (Make_checkpoint False))
      [Ledger (first_record P), Ledger (second_record P)] =
    (Return (Checkpointed (sample_checkpoint P)), [Ledger (first_record P), Ledger (second_record P), Checkpoint (sample_checkpoint P)])"
proof -
  have sort: "by_sequence [first_record P, second_record P] = [first_record P, second_record P]"
    by (simp add: by_sequence_def seq_key_def first_fields second_fields)
  have v: "verifyAuditRecords P [first_record P, second_record P] = Valid 2"
    using first_fields(4) second_fields(3) verified_snoc [of P "[first_record P]" "second_record P"]
      verified_snoc [of P "[]" "first_record P"] verified_iff [of P "[first_record P, second_record P]" 2]
    by (simp add: hash_of_def)
  have c: "checkpoint_of [first_record P, second_record P] 9 = sample_checkpoint P"
    using head_hash [OF second_fields(3)] by (simp add: checkpoint_of_def sample_checkpoint_def second_fields nullish_def)
  show ?thesis
    by (simp add: createAuditCheckpoint_def mem_simps clock_def sort v c anchor_def Let_def)
qed

lemma sample_run: "run_ledger P (mem_db same_row) sample_moves [] =
    \<lparr>rows = [Ledger (first_record P), Ledger (second_record P), Checkpoint (sample_checkpoint P)],
     tasks = [Return (first_call, Recorded (first_record P)), Return (second_call, Recorded (second_record P)),
       Return (Make_checkpoint False, Checkpointed (sample_checkpoint P))]\<rparr>"
  unfolding run_ledger_def sample_moves_def world_of_def append_Cons run_begin run_moves_append
  by (simp add: run_begin run_moves_append run_turns solo_labelled first_solo second_solo third_solo del: list.map ledger_handler.simps)

lemma sample_results: "set (results (run_ledger P (mem_db same_row) sample_moves [])) =
    {(first_call, Recorded (first_record P)), (second_call, Recorded (second_record P)),
     (Make_checkpoint False, Checkpointed (sample_checkpoint P))}"
  by (simp add: sample_run results_def map_filter_simps)

lemma sample_begun: "c \<in> begun sample_moves \<Longrightarrow> appends c"
  by (auto simp: begun_def sample_moves_def first_call_def second_call_def)

text \<open>The witnesses, on a platform whose hash is the length of the text.\<close>

definition sample_platform :: platform where
  "sample_platform = \<lparr>sha256 = (\<lambda>t. of_nat (length t)),
     to_json = (\<lambda>v. case map_of (fields_of v) ''sequence'' of Some (JNum r) \<Rightarrow> if r = 0 then ''0'' else ''11'' | _ \<Rightarrow> ''222''),
     iso = (\<lambda>_. [])\<rparr>"

lemma empty_verified: "verified P (ledger [])"
  by (simp add: ledger_def by_sequence_def)

lemma sample_ledger: "ledger [Ledger (first_record P), Ledger (second_record P), Checkpoint k] = [first_record P, second_record P]"
  by (simp add: ledger_def by_sequence_def seq_key_def first_fields second_fields)

theorem ledger_append_only_witness:
  "second_record sample_platform \<in> set [first_record sample_platform, second_record sample_platform] \<and>
   verified sample_platform [first_record sample_platform, second_record sample_platform]"
  using ledger_append_only [OF mem_documented empty_verified sample_begun, where P = sample_platform and moves = sample_moves and c = second_call
    and e = "second_record sample_platform"]
  unfolding sample_results by (simp add: sample_run sample_ledger)

theorem checkpoint_commits_witness:
  "\<exists>es. prefix es [first_record sample_platform, second_record sample_platform] \<and> length es = 2 \<and>
     hash_of es = the (recordHash (second_record sample_platform))"
proof -
  have "(Make_checkpoint False, Checkpointed (sample_checkpoint sample_platform)) \<in>
      set (results (run_ledger sample_platform (mem_db same_row) sample_moves []))" by (simp add: sample_results)
  from checkpoint_commits [OF mem_documented empty_verified sample_begun this] obtain es where
    "prefix es [first_record sample_platform, second_record sample_platform]"
    "JNum 1 = JNum (of_nat (length es) - 1)" "the (recordHash (second_record sample_platform)) = hash_of es"
    by (auto simp: sample_run sample_ledger sample_checkpoint_def)
  then show ?thesis by (intro exI [of _ es]) auto
qed

theorem rollback_record_stops_checkpoints_witness:
  "(Make_checkpoint False, Checkpointed (sample_checkpoint sample_platform)) \<notin> set (results (run_ledger sample_platform (mem_db same_row)
     [Begin (Make_checkpoint False), Turn 0 (Works 0)] [Ledger (rollback_document ''refund'' JNull ''failed'' JNull 3)]))"
  using rollback_record_stops_checkpoints [OF mem_documented, of "''refund''" JNull "''failed''" JNull 3
    "[Ledger (rollback_document ''refund'' JNull ''failed'' JNull 3)]"] by simp

end
