(* ===== verification/Idempotency.thy ===== *)
theory Idempotency imports AsyncStore Digests begin

text \<open>
  \<open>src/lib/backend/idempotency.js\<close>: writes that run once per idempotency key, over the collection
  \<open>idempotency_keys\<close>, and the TTL index that removes expired records. The write itself is a call to the
  outside (\<open>Perform\<close>), which gives a response or raises an error. The clock of a call and its fresh
  claim are arguments.
\<close>

section \<open>Keys and hashes\<close>

definition DEFAULT_TTL_MS :: int where "DEFAULT_TTL_MS = 24 * 60 * 60 * 1000"

definition MAX_KEY_LENGTH :: nat where "MAX_KEY_LENGTH = 128"

definition DEFAULT_LOCK_MS :: int where "DEFAULT_LOCK_MS = 2 * 60 * 1000"

definition MAX_CLAIM_ATTEMPTS :: nat where "MAX_CLAIM_ATTEMPTS = 5"

definition hashPayload :: "platform \<Rightarrow> json \<Rightarrow> string" where
  "hashPayload P v = digest P v"

text \<open>The header is that of the request; the body is missing or any value.\<close>

definition usable_key :: "string option \<Rightarrow> bool" where
  "usable_key v \<longleftrightarrow> js_trim (or_default v []) \<noteq> []"

definition key_of :: "string option \<Rightarrow> string" where
  "key_of v = take MAX_KEY_LENGTH (js_trim (the v))"

fun body_key :: "json option \<Rightarrow> string option" where
  "body_key (Some (JObj m)) = as_str (map_of m ''idempotencyKey'')"
| "body_key _ = None"

definition extractIdempotencyKey :: "string option \<Rightarrow> json option \<Rightarrow> string option" where
  "extractIdempotencyKey header body =
     (if usable_key header then Some (key_of header)
      else if usable_key (body_key body) then Some (key_of (body_key body)) else None)"

section \<open>Records\<close>

datatype claim_status = In_progress | Completed | Attempt_failed

record entry =
  e_key :: string
  claimId :: string
  status :: claim_status
  payloadHash :: string
  lockExpiresAt :: int
  expiresAt :: int
  response :: "json option"
  error_text :: "string option"

definition same_key :: "entry \<Rightarrow> entry \<Rightarrow> bool" where
  "same_key a b \<longleftrightarrow> e_key a = e_key b"

datatype question = Perform string json
datatype outcome = Gave json | Raised string

datatype refusal = Conflict_key | Conflict_in_progress | Call_failed

datatype result =
    Ran json
  | Replayed "json option"
  | Handler_threw string
  | Outcome "entry option"
  | Purged
  | Threw refusal

type_synonym script = "(entry, question, outcome, result) async"

record request =
  r_key :: "string option"
  r_payload :: json
  r_claim :: string
  r_ttl :: int
  r_lock :: int
  r_clock :: "nat \<Rightarrow> int"

definition claim_of :: "platform \<Rightarrow> request \<Rightarrow> int \<Rightarrow> entry" where
  "claim_of P q now = \<lparr>e_key = the (r_key q), claimId = r_claim q, status = In_progress, payloadHash = hashPayload P (r_payload q),
     lockExpiresAt = now + r_lock q, expiresAt = now + r_ttl q, response = None, error_text = None\<rparr>"

text \<open>What an existing record means for a call.\<close>

datatype verdict = Stale | Other_payload | Replay | Busy

definition verdict_of :: "string \<Rightarrow> int \<Rightarrow> entry \<Rightarrow> verdict" where
  "verdict_of h now e =
     (if expiresAt e < now then Stale
      else if payloadHash e \<noteq> h then Other_payload
      else if status e = Completed then Replay
      else if status e = Attempt_failed then Stale
      else if status e = In_progress \<and> lockExpiresAt e < now then Stale
      else Busy)"

definition removeStale :: "entry \<Rightarrow> script \<Rightarrow> script" where
  "removeStale e k = Await (Delete_one (\<lambda>x. e_key x = e_key e \<and> claimId x = claimId e))
     (\<lambda>a. case a of Count _ \<Rightarrow> k | _ \<Rightarrow> Return (Threw Call_failed))"

definition mine :: "request \<Rightarrow> entry \<Rightarrow> bool" where
  "mine q e \<longleftrightarrow> e_key e = the (r_key q) \<and> claimId e = r_claim q"

text \<open>The bookkeeping of a failure never masks the error of the write.\<close>

definition record_failure :: "request \<Rightarrow> string \<Rightarrow> script" where
  "record_failure q err = Await (Update_one (mine q) (\<lambda>e. e\<lparr>status := Attempt_failed, error_text := Some (take 500 err)\<rparr>) None)
     (\<lambda>_. Return (Handler_threw err))"

definition record_success :: "request \<Rightarrow> json \<Rightarrow> script" where
  "record_success q v = Await (Update_one (mine q) (\<lambda>e. e\<lparr>status := Completed, response := Some v\<rparr>) None)
     (\<lambda>a. case a of Updated _ \<Rightarrow> Return (Ran v) | _ \<Rightarrow> Return (Threw Call_failed))"

definition perform :: "request \<Rightarrow> (json \<Rightarrow> script) \<Rightarrow> (string \<Rightarrow> script) \<Rightarrow> script" where
  "perform q ok err = Await (Ask (Perform (or_default (r_key q) []) (r_payload q)))
     (\<lambda>a. case a of Said (Gave v) \<Rightarrow> ok v | Said (Raised e) \<Rightarrow> err e | _ \<Rightarrow> err [])"

fun attempts :: "platform \<Rightarrow> request \<Rightarrow> nat \<Rightarrow> script" where
  "attempts P q 0 = Return (Threw Conflict_in_progress)"
| "attempts P q (Suc n) = (let now = r_clock q (MAX_CLAIM_ATTEMPTS - Suc n) in
     Await (Insert_one (claim_of P q now)) (\<lambda>a. case a of
       Inserted _ \<Rightarrow> perform q (record_success q) (record_failure q)
     | Duplicate \<Rightarrow> Await (Find_one (\<lambda>e. e_key e = the (r_key q))) (\<lambda>b. case b of
           Row None \<Rightarrow> attempts P q n
         | Row (Some e) \<Rightarrow> (case verdict_of (hashPayload P (r_payload q)) now e of
               Stale \<Rightarrow> removeStale e (attempts P q n)
             | Other_payload \<Rightarrow> Return (Threw Conflict_key)
             | Replay \<Rightarrow> Return (Replayed (response e))
             | Busy \<Rightarrow> Return (Threw Conflict_in_progress))
         | _ \<Rightarrow> Return (Threw Call_failed))
     | _ \<Rightarrow> Return (Threw Call_failed)))"

definition withIdempotency :: "platform \<Rightarrow> request \<Rightarrow> script" where
  "withIdempotency P q =
     (if \<not> truthy (r_key q) then perform q (\<lambda>v. Return (Ran v)) (\<lambda>e. Return (Handler_threw e))
      else attempts P q MAX_CLAIM_ATTEMPTS)"

definition getIdempotencyOutcome :: "string option \<Rightarrow> int \<Rightarrow> script" where
  "getIdempotencyOutcome key now =
     (if \<not> truthy key then Return (Outcome None)
      else Await (Find_one (\<lambda>e. e_key e = the key)) (\<lambda>a. case a of
          Row None \<Rightarrow> Return (Outcome None)
        | Row (Some e) \<Rightarrow> Return (Outcome (if expiresAt e < now then None else Some e))
        | _ \<Rightarrow> Return (Threw Call_failed)))"

text \<open>The TTL index removes records once they have expired.\<close>

definition purge :: "int \<Rightarrow> script" where
  "purge now = Await (Delete_one (\<lambda>e. expiresAt e \<le> now)) (\<lambda>_. Return Purged)"

datatype call = Guarded request | Outcome_of "string option" int | Purge int

fun handler :: "platform \<Rightarrow> call \<Rightarrow> script" where
  "handler P (Guarded q) = withIdempotency P q"
| "handler P (Outcome_of key now) = getIdempotencyOutcome key now"
| "handler P (Purge now) = purge now"

end
