(* ===== verification/IdempotencySafety.thy ===== *)
theory IdempotencySafety imports Idempotency begin

text \<open>
  A live record guards its key. The locale \<open>key_contract\<close> proves every call once, for any record that
  no call of the system may treat as stale; it is interpreted for a record that is completed and for
  one whose write is in progress.
\<close>

section \<open>The contract of a guarded key\<close>

fun guarded_key :: "call \<Rightarrow> string option" where
  "guarded_key (Guarded q) = (if truthy (r_key q) then r_key q else None)"
| "guarded_key _ = None"

text \<open>The calls of other claims, made before the record expires.\<close>

fun timely :: "entry \<Rightarrow> call \<Rightarrow> bool" where
  "timely e (Guarded q) = (r_claim q \<noteq> claimId e \<and>
     (\<forall>n. r_clock q n \<le> expiresAt e \<and> (status e = In_progress \<longrightarrow> r_clock q n \<le> lockExpiresAt e)))"
| "timely e (Outcome_of key now) = True"
| "timely e (Purge now) = (now < expiresAt e)"

fun honoured :: "entry \<Rightarrow> string \<Rightarrow> result \<Rightarrow> bool" where
  "honoured e h (Replayed v) = (status e = Completed \<and> v = response e \<and> h = payloadHash e)"
| "honoured e h (Threw x) = True"
| "honoured e h _ = False"

fun obeys :: "platform \<Rightarrow> entry \<Rightarrow> call \<Rightarrow> result \<Rightarrow> bool" where
  "obeys P e (Guarded q) res = (r_key q = Some (e_key e) \<and> truthy (r_key q) \<longrightarrow> honoured e (hashPayload P (r_payload q)) res)"
| "obeys P e _ res = True"

lemma obeys_simps [simp]: "obeys P e c (Threw x)" "\<not> truthy (r_key q) \<Longrightarrow> obeys P e (Guarded q) res"
  "e_key e \<noteq> the (r_key q) \<Longrightarrow> obeys P e (Guarded q) res"
  by (cases c; simp) auto

lemma obeys_replayed: "status e = Completed \<Longrightarrow> hashPayload P (r_payload q) = payloadHash e \<Longrightarrow> obeys P e (Guarded q) (Replayed (response e))"
  by simp

lemma obeys_unguarded: "obeys P e (Outcome_of key t) res" "obeys P e (Purge t) res"
  by simp_all

declare obeys.simps [simp del]

definition guards :: "entry \<Rightarrow> entry list \<Rightarrow> bool" where
  "guards e s \<longleftrightarrow> e \<in> set s \<and> (\<forall>x \<in> set s. e_key x = e_key e \<longrightarrow> x = e)"

lemma guards_update:
  assumes "guards e s" "update_at U p f i s s'" "\<not> p e" "\<And>x. e_key (f x) = e_key x"
  shows "guards e s'"
proof -
  have i: "i < length s" "p (s ! i)" "s' = s[i := f (s ! i)]" using assms(2) by (simp_all add: update_at_def)
  then have "s ! i \<noteq> e" using assms(3) by auto
  then have other: "e_key (f (s ! i)) \<noteq> e_key e" using assms(1,4) i(1) unfolding guards_def by (metis nth_mem)
  obtain j where j: "j < length s" "s ! j = e" using assms(1) unfolding guards_def by (metis in_set_conv_nth)
  then have "j \<noteq> i" using \<open>s ! i \<noteq> e\<close> by auto
  then have "e \<in> set s'" using j unfolding i(3) by (metis length_list_update nth_list_update_neq nth_mem)
  moreover have "x = e" if "x \<in> set s'" "e_key x = e_key e" for x
    using that other assms(1) set_list_update_memI [OF i(1)] unfolding i(3) guards_def by metis
  ultimately show ?thesis unfolding guards_def by blast
qed

lemma guards_delete:
  assumes "guards e s" "i < length s" "p (s ! i)" "s' = take i s @ drop (Suc i) s" "\<not> p e"
  shows "guards e s'"
proof -
  have "s ! i \<noteq> e" using assms(3,5) by auto
  have "s = take i s @ s ! i # drop (Suc i) s" using assms(2) by (rule id_take_nth_drop)
  then have "set s = insert (s ! i) (set s')" using assms(4)
    by (metis Un_insert_right list.simps(15) set_append)
  then show ?thesis using assms(1) \<open>s ! i \<noteq> e\<close> unfolding guards_def by auto
qed

abbreviation sound :: "platform \<Rightarrow> entry \<Rightarrow> call \<Rightarrow> script \<Rightarrow> bool" where
  "sound P e c p \<equiv> good same_key (guards e) (\<lambda>_ _. True) (\<lambda>res _. obeys P e c res) p (\<lambda>_. True)"

lemma given: "(B \<Longrightarrow> sound P e c p) \<Longrightarrow> good same_key (guards e) (\<lambda>_ _. True) (\<lambda>res _. obeys P e c res) p (\<lambda>_. B)"
  by (cases B) (auto intro: good_absurd)

lemma key_ask_rule: "(\<And>a. sound P e c (k a)) \<Longrightarrow> sound P e c (Await (Ask q) k)"
proof (rule good_call [where K' = "\<lambda>_ _. True"])
  show "guards e s' \<and> True \<and> True" if "guards e s" "documented same_key (Ask q) s a s'" for s s' and a :: "(entry, outcome) reply"
    using that documented_reads [of "Ask q" same_key s a s'] by simp
qed simp_all

lemma key_find_rule:
  assumes "\<And>a. (\<And>x. a = Row (Some x) \<Longrightarrow> p x \<and> (e_key x = e_key e \<longrightarrow> x = e)) \<Longrightarrow> sound P e c (k a)"
  shows "sound P e c (Await (Find_one p) k)"
proof (rule good_call [where K' = "\<lambda>a _. \<forall>x. a = Row (Some x) \<longrightarrow> p x \<and> (e_key x = e_key e \<longrightarrow> x = e)"])
  fix s s' and a :: "(entry, outcome) reply"
  assume a: "guards e s" "documented same_key (Find_one p) s a s'"
  have "s' = s" by (rule documented_reads [OF _ a(2)]) simp
  then show "guards e s' \<and> True \<and> (\<forall>x. a = Row (Some x) \<longrightarrow> p x \<and> (e_key x = e_key e \<longrightarrow> x = e))"
    using a documented_found [of same_key p s _ s'] unfolding guards_def by blast
next
  show "good same_key (guards e) (\<lambda>_ _. True) (\<lambda>res _. obeys P e c res) (k a)
      (\<lambda>_. \<forall>x. a = Row (Some x) \<longrightarrow> p x \<and> (e_key x = e_key e \<longrightarrow> x = e))" for a
    by (rule given, rule assms) blast
qed simp

lemma key_update_rule:
  assumes "\<not> p e" "\<And>x. e_key (f x) = e_key x" "\<And>a. sound P e c (k a)"
  shows "sound P e c (Await (Update_one p f None) k)"
proof (rule good_call [where K' = "\<lambda>_ _. True"])
  fix s s' and a :: "(entry, outcome) reply"
  assume a: "guards e s" "documented same_key (Update_one p f None) s a s'"
  show "guards e s' \<and> True \<and> True"
    using documented_update_rows [OF a(2)] guards_update [where p = p and f = f, OF a(1) _ assms(1,2)] a(1) by auto
qed (use assms(3) in simp_all)

lemma key_delete_rule:
  assumes "\<not> p e" "\<And>a. sound P e c (k a)"
  shows "sound P e c (Await (Delete_one p) k)"
proof (rule good_call [where K' = "\<lambda>_ _. True"])
  fix s s' and a :: "(entry, outcome) reply"
  assume a: "guards e s" "documented same_key (Delete_one p) s a s'"
  have "s' = s \<or> (\<exists>i < length s. p (s ! i) \<and> s' = take i s @ drop (Suc i) s)"
    using a(2) by (auto simp: documented_def effect_def split: reply.splits)
  then show "guards e s' \<and> True \<and> True" using guards_delete [where p = p, OF a(1) _ _ _ assms(1)] a(1) by auto
qed (use assms(2) in simp_all)

lemma key_insert_rule:
  assumes "\<And>a. e_key x \<noteq> e_key e \<Longrightarrow> sound P e c (k a)"
    and "\<And>a. e_key x = e_key e \<Longrightarrow> (\<forall>r. a \<noteq> Inserted r) \<Longrightarrow> sound P e c (k a)"
  shows "sound P e c (Await (Insert_one x) k)"
proof (rule good_call [where K' = "\<lambda>a _. \<forall>r. a = Inserted r \<longrightarrow> e_key x \<noteq> e_key e"])
  fix s s' and a :: "(entry, outcome) reply"
  assume a: "guards e s" "documented same_key (Insert_one x) s a s'"
  have clash: "e_key x = e_key e \<Longrightarrow> clashes same_key s x" using a(1) by (auto simp: clashes_def guards_def same_key_def)
  have "guards e s'" using documented_insert [OF a(2)] a(1) clash by (auto simp: guards_def)
  moreover have "\<not> clashes same_key s x" if "a = Inserted r" for r
    using a(2) unfolding that by (auto simp: documented_def effect_def)
  ultimately show "guards e s' \<and> True \<and> (\<forall>r. a = Inserted r \<longrightarrow> e_key x \<noteq> e_key e)" using clash by blast
next
  show "good same_key (guards e) (\<lambda>_ _. True) (\<lambda>res _. obeys P e c res) (k a) (\<lambda>_. \<forall>r. a = Inserted r \<longrightarrow> e_key x \<noteq> e_key e)" for a
    by (rule given) (use assms in blast)
qed simp

section \<open>The calls\<close>

lemma live_verdict:
  assumes "status e \<noteq> Attempt_failed" "now \<le> expiresAt e" "status e = In_progress \<longrightarrow> now \<le> lockExpiresAt e"
  shows "verdict_of h now e \<noteq> Stale" "verdict_of h now e = Replay \<Longrightarrow> status e = Completed \<and> h = payloadHash e"
  using assms by (auto simp: verdict_of_def split: if_splits)

lemma key_perform_rule: "(\<And>v. sound P e c (ok v)) \<Longrightarrow> (\<And>x. sound P e c (err x)) \<Longrightarrow> sound P e c (perform q ok err)"
  unfolding perform_def by (rule key_ask_rule) (auto split: reply.splits outcome.splits)

lemma performed_other: "e_key e \<noteq> the (r_key q) \<Longrightarrow> sound P e (Guarded q) (perform q (record_success q) (record_failure q))"
  unfolding record_success_def record_failure_def
  by (intro key_perform_rule key_update_rule) (auto simp: mine_def split: reply.splits)

lemma attempts_sound:
  assumes "timely e (Guarded q)" "status e \<noteq> Attempt_failed"
  shows "sound P e (Guarded q) (attempts P q n)"
proof (induction n)
  case (Suc n)
  let ?now = "r_clock q (MAX_CLAIM_ATTEMPTS - Suc n)"
  note live = live_verdict [OF assms(2), of ?now]
  have found: "sound P e (Guarded q) (case b of
           Row None \<Rightarrow> attempts P q n
         | Row (Some e) \<Rightarrow> (case verdict_of (hashPayload P (r_payload q)) ?now e of
               Stale \<Rightarrow> removeStale e (attempts P q n)
             | Other_payload \<Rightarrow> Return (Threw Conflict_key)
             | Replay \<Rightarrow> Return (Replayed (response e))
             | Busy \<Rightarrow> Return (Threw Conflict_in_progress))
         | _ \<Rightarrow> Return (Threw Call_failed))"
      if b: "\<And>x. b = Row (Some x) \<Longrightarrow> e_key x = the (r_key q) \<and> (e_key x = e_key e \<longrightarrow> x = e)" for b :: "(entry, outcome) reply"
    proof (cases "\<exists>x. b = Row (Some x)")
      case True
      then obtain x where x: "b = Row (Some x)" "e_key x = the (r_key q)" "e_key x = e_key e \<longrightarrow> x = e" using b by blast
      show ?thesis
      proof (cases "e_key x = e_key e")
        case True
        then show ?thesis using x(1,3) live assms(1) by (auto split: verdict.splits intro: obeys_replayed)
      next
        case False
        then have "sound P e (Guarded q) (removeStale x (attempts P q n))"
          unfolding removeStale_def by (intro key_delete_rule) (auto intro: Suc.IH split: reply.splits)
        then show ?thesis using x(1,2) False by (auto split: verdict.splits)
      qed
    qed (use Suc.IH in \<open>auto split: reply.splits option.splits\<close>)
  have own: "e_key (claim_of P q ?now) = the (r_key q)" by (simp add: claim_of_def)
  have main: "sound P e (Guarded q) (case a of
         Inserted _ \<Rightarrow> perform q (record_success q) (record_failure q)
       | Duplicate \<Rightarrow> Await (Find_one (\<lambda>e. e_key e = the (r_key q))) (\<lambda>b. case b of
           Row None \<Rightarrow> attempts P q n
         | Row (Some e) \<Rightarrow> (case verdict_of (hashPayload P (r_payload q)) ?now e of
               Stale \<Rightarrow> removeStale e (attempts P q n)
             | Other_payload \<Rightarrow> Return (Threw Conflict_key)
             | Replay \<Rightarrow> Return (Replayed (response e))
             | Busy \<Rightarrow> Return (Threw Conflict_in_progress))
         | _ \<Rightarrow> Return (Threw Call_failed))
       | _ \<Rightarrow> Return (Threw Call_failed))"
    if a: "e_key (claim_of P q ?now) = e_key e \<Longrightarrow> \<forall>r. a \<noteq> Inserted r" for a :: "(entry, outcome) reply"
    proof (cases a)
      case (Inserted r)
      then have "e_key e \<noteq> the (r_key q)" using a own by auto
      then show ?thesis using Inserted performed_other by simp
    next
      case Duplicate
      show ?thesis unfolding Duplicate reply.case by (rule key_find_rule) (use found in blast)
    qed simp_all
  show ?case unfolding attempts.simps Let_def by (rule key_insert_rule) (rule main; blast)+
qed simp

lemma call_sound: "status e \<noteq> Attempt_failed \<Longrightarrow> timely e c \<Longrightarrow> sound P e c (handler P c)"
proof (cases c)
  case (Guarded q)
  assume "status e \<noteq> Attempt_failed" "timely e c"
  then have "sound P e (Guarded q) (attempts P q MAX_CLAIM_ATTEMPTS)" using attempts_sound Guarded by blast
  moreover have "sound P e (Guarded q) (perform q (\<lambda>v. Return (Ran v)) (\<lambda>x. Return (Handler_threw x)))" if "\<not> truthy (r_key q)"
    by (rule key_perform_rule) (use that in simp_all)
  ultimately show ?thesis unfolding Guarded handler.simps withIdempotency_def
    by (cases "truthy (r_key q)") (simp_all only: if_True if_False not_True_eq_False not_False_eq_True)
next
  case (Outcome_of key now)
  then show ?thesis unfolding Outcome_of
    by (auto simp: getIdempotencyOutcome_def intro!: key_find_rule obeys_unguarded split: reply.splits option.splits)
next
  case (Purge now)
  assume "timely e c"
  then show ?thesis unfolding Purge by (auto simp: purge_def intro!: key_delete_rule obeys_unguarded)
qed

interpretation guarded: rely_guarantee same_key "guards e" "\<lambda>_ _. True" "\<lambda>(c, r) _. obeys P e c r" "\<lambda>_. True"
  "\<lambda>c. labelled c (handler P c)" "\<lambda>c. status e \<noteq> Attempt_failed \<and> timely e c" for P e
proof unfold_locales
  fix c
  assume "status e \<noteq> Attempt_failed \<and> timely e c"
  then show "good same_key (guards e) (\<lambda>_ _. True) (\<lambda>(c, r) _. obeys P e c r) (labelled c (handler P c)) (\<lambda>_. True)"
    by (intro good_labelled) (use call_sound in simp)
qed simp_all

section \<open>Guarantees\<close>

definition run_calls :: "platform \<Rightarrow> (entry, question, outcome) database \<Rightarrow> (call, outcome) move list \<Rightarrow> entry list \<Rightarrow>
    (entry, question, outcome, call \<times> result) world" where
  "run_calls P D moves s = run D (\<lambda>c. labelled c (handler P c)) moves (world_of s)"

text \<open>A write runs under a key only after the call inserted a claim for the key.\<close>

definition claims_first :: "string \<Rightarrow> (entry, question) AsyncStore.request \<Rightarrow> ((entry, question) AsyncStore.request \<times> (entry, outcome) reply) set \<Rightarrow> bool" where
  "claims_first key q L \<longleftrightarrow> (\<forall>v. q = Ask (Perform key v) \<longrightarrow> (\<exists>x r. (Insert_one x, Inserted r) \<in> L \<and> e_key x = key))"

lemma claims_first_simps [simp]: "claims_first key (Insert_one x) L" "claims_first key (Find_one p) L" "claims_first key (Update_one p f u) L"
  "claims_first key (Delete_one p) L" "claims_first key (Ask (Perform k v)) L \<longleftrightarrow> (k = key \<longrightarrow> (\<exists>x r. (Insert_one x, Inserted r) \<in> L \<and> e_key x = key))"
  by (auto simp: claims_first_def)

lemma record_claims: "guarded (claims_first key) (record_success q v) L" "guarded (claims_first key) (record_failure q x) L"
  by (auto simp: record_success_def record_failure_def split: reply.splits)

lemma perform_claims:
  assumes "or_default (r_key q) [] = key \<Longrightarrow> \<exists>x r. (Insert_one x, Inserted r) \<in> L \<and> e_key x = key"
    and "\<And>v L'. guarded (claims_first key) (ok v) L'" "\<And>x L'. guarded (claims_first key) (err x) L'"
  shows "guarded (claims_first key) (perform q ok err) L"
  unfolding perform_def using assms by (auto split: reply.splits outcome.splits)

lemma attempts_claim: "truthy (r_key q) \<Longrightarrow> guarded (claims_first key) (attempts P q n) L"
proof (induction n arbitrary: L)
  case (Suc n)
  have claimed: "guarded (claims_first key) (perform q (record_success q) (record_failure q))
      (insert (Insert_one (claim_of P q now), Inserted r) L')" for now r L'
    by (rule perform_claims) (use Suc.prems in \<open>auto simp: record_claims claim_of_def or_default_def truthy_def split: option.splits\<close>)
  show ?case unfolding attempts.simps Let_def using Suc claimed
    by (auto simp: removeStale_def split: reply.splits option.splits verdict.splits)
qed simp

lemma handler_claims:
  assumes "key \<noteq> []"
  shows "guarded (claims_first key) (handler P c) {}"
proof (cases c)
  case (Guarded q)
  have "guarded (claims_first key) (perform q (\<lambda>v. Return (Ran v)) (\<lambda>e. Return (Handler_threw e))) {}" if "\<not> truthy (r_key q)"
    by (rule perform_claims) (use that assms in \<open>auto simp: truthy_def or_default_def split: option.splits\<close>)
  then show ?thesis using attempts_claim by (auto simp: Guarded withIdempotency_def simp del: attempts.simps)
qed (auto simp: getIdempotencyOutcome_def purge_def split: reply.splits option.splits)

lemma inserted_only_new:
  fixes a :: "(entry, outcome) reply"
  assumes "guards e s" "documented same_key (Insert_one x) s (Inserted r :: (entry, outcome) reply) s'"
  shows "e_key x \<noteq> e_key e"
  using assms by (auto simp: documented_def effect_def clashes_def guards_def same_key_def)

text \<open>
  C12: an idempotency key runs its write at most once while its record lives. Take a run that begins,
  with no call under way, when the key has a record that is completed, or in progress under a claim.
  In every interleaving, with every failure of the database, of calls that draw other claims and are
  made before the record expires (and before its lock does, while it is in progress), no call ever
  runs the write under that key; a call with the key that returned threw, or it replayed the stored
  response, of a completed record and for the same payload hash; and the record stays as it is.
\<close>

theorem live_key_runs_once:
  assumes "documented_db same_key D" "e \<in> set s" "\<And>x. x \<in> set s \<Longrightarrow> e_key x = e_key e \<Longrightarrow> x = e" "e_key e \<noteq> []"
    and "status e = Completed \<or> status e = In_progress" "\<And>c. c \<in> begun moves \<Longrightarrow> timely e c"
  shows "e \<in> set (rows (run_calls P D moves s)) \<and>
    (Ask (Perform (e_key e) v), a) \<notin> set (conversation D (\<lambda>c. labelled c (handler P c)) moves (world_of s) n) \<and>
    ((Guarded q, res) \<in> set (results (run_calls P D moves s)) \<longrightarrow> r_key q = Some (e_key e) \<longrightarrow>
      (\<exists>x. res = Threw x) \<or> (status e = Completed \<and> res = Replayed (response e) \<and> hashPayload P (r_payload q) = payloadHash e))"
proof -
  let ?h = "\<lambda>c. labelled c (handler P c)"
  have I: "guards e s" using assms(2,3) unfolding guards_def by blast
  have ok: "status e \<noteq> Attempt_failed \<and> timely e c" if "c \<in> begun moves" for c using assms(5,6) that by auto
  note kept = guarded.run_keeps [OF assms(1) I TrueI ok, folded run_calls_def]
  have always: "guards e (rows (run D ?h (take j moves) (world_of s)))" for j
    by (rule guarded.run_keeps(1) [OF assms(1) I TrueI ok]) (auto simp: begun_def dest: in_set_takeD)
  have "(Ask (Perform (e_key e) v), a) \<notin> set (conversation D ?h moves (world_of s) n)"
  proof
    assume "(Ask (Perform (e_key e) v), a) \<in> set (conversation D ?h moves (world_of s) n)"
    from conversation_turn [OF this] obtain j ch k where j: "n < length (tasks (run D ?h (take j moves) (world_of s)))"
      "tasks (run D ?h (take j moves) (world_of s)) ! n = Await (Ask (Perform (e_key e) v)) k" by blast
    have n: "n < length (calls (take j moves))" using j(1) run_tasks [of D ?h "take j moves" s] by simp
    have "guarded (claims_first (e_key e)) (?h (calls (take j moves) ! n)) {}" using handler_claims [OF assms(4)] by simp
    from run_guarded [OF n j(2) this] obtain x r
      where x: "(Insert_one x, Inserted r) \<in> set (conversation D ?h (take j moves) (world_of s) n)" "e_key x = e_key e"
      by auto
    from conversation_turn [OF x(1)] obtain i ch' where
      "D ch' (Insert_one x) (rows (run D ?h (take i (take j moves)) (world_of s))) =
        (Inserted r, rows (run D ?h (take (Suc i) (take j moves)) (world_of s)))" by blast
    from inserted_only_new [OF always documented_dbD [OF assms(1) this [unfolded take_take]]] x(2) show False by simp
  qed
  moreover have "obeys P e (Guarded q) res" if "(Guarded q, res) \<in> set (results (run_calls P D moves s))"
    using kept(3) [OF _ that] by simp
  moreover have "e \<in> set (rows (run_calls P D moves s))" using kept(1) by (simp add: guards_def)
  moreover have "honoured e h res \<Longrightarrow> (\<exists>x. res = Threw x) \<or> status e = Completed \<and> res = Replayed (response e) \<and> h = payloadHash e" for h
    by (cases res) auto
  ultimately show ?thesis using assms(4) by (auto simp: obeys.simps(1))
qed

section \<open>Runs\<close>

definition buy :: "string \<Rightarrow> int \<Rightarrow> request" where
  "buy claim now = \<lparr>r_key = Some ''k'', r_payload = JStr ''order'', r_claim = claim, r_ttl = DEFAULT_TTL_MS, r_lock = DEFAULT_LOCK_MS,
     r_clock = (\<lambda>_. now)\<rparr>"

definition lost_moves :: "(call, outcome) move list" where
  "lost_moves = Begin (Guarded (buy ''a'' 0)) # map (Turn 0) [Works 0, Says (Gave (JStr ''first'')), Fails] @
     Begin (Guarded (buy ''b'' 120001)) # map (Turn 1) [Works 0, Works 0, Works 0, Works 0, Says (Gave (JStr ''second'')), Works 0]"

lemma buy_fields: "r_key (buy i t) = Some ''k''" "r_claim (buy i t) = i" "r_clock (buy i t) n = t" "r_payload (buy i t) = JStr ''order''"
  by (simp_all add: buy_def)

lemma buy_claim: "e_key (claim_of P (buy i t) t) = ''k''" "claimId (claim_of P (buy i t) t) = i" "status (claim_of P (buy i t) t) = In_progress"
  "payloadHash (claim_of P (buy i t) t) = hashPayload P (JStr ''order'')" "expiresAt (claim_of P (buy i t) t) = t + 86400000"
  "lockExpiresAt (claim_of P (buy i t) t) = t + 120000"
  by (simp_all add: claim_of_def buy_def DEFAULT_TTL_MS_def DEFAULT_LOCK_MS_def)

lemma buy_attempts: "handler P (Guarded (buy i t)) = attempts P (buy i t) (Suc (Suc 3))"
  by (simp add: withIdempotency_def MAX_CLAIM_ATTEMPTS_def buy_fields eval_nat_numeral)

lemma buy_solo: "solo (mem_db same_key) [Works 0, Says (Gave (JStr ''first'')), Fails] (handler P (Guarded (buy ''a'' 0))) [] =
    (Return (Threw Call_failed), [claim_of P (buy ''a'' 0) 0])"
  unfolding buy_attempts attempts.simps(2)
  by (simp add: mem_db_def mem_works_def buy_fields Let_def perform_def record_success_def del: attempts.simps)

lemma rebuy_solo: "solo (mem_db same_key) [Works 0, Works 0, Works 0, Works 0, Says (Gave (JStr ''second'')), Works 0]
      (handler P (Guarded (buy ''b'' 120001))) [claim_of P (buy ''a'' 0) 0] =
    (Return (Ran (JStr ''second'')), [(claim_of P (buy ''b'' 120001) 120001)\<lparr>status := Completed, response := Some (JStr ''second'')\<rparr>])"
  unfolding buy_attempts attempts.simps(2)
  by (simp add: mem_db_def mem_works_def same_key_def buy_claim buy_fields Let_def perform_def record_success_def matching_simps pick_def
    verdict_of_def removeStale_def mine_def clashes_but_def del: attempts.simps)

text \<open>
  A write can run twice although it succeeded. When the write has succeeded but its outcome
  cannot be stored, the record stays in progress; after the lock has expired the next call takes the
  key over and runs the write again, minutes into the retention of a day.
\<close>

theorem lost_outcome_runs_twice:
  "results (run_calls P (mem_db same_key) lost_moves []) =
     [(Guarded (buy ''a'' 0), Threw Call_failed), (Guarded (buy ''b'' 120001), Ran (JStr ''second''))]"
proof -
  have "run_calls P (mem_db same_key) lost_moves [] =
      \<lparr>rows = [(claim_of P (buy ''b'' 120001) 120001)\<lparr>status := Completed, response := Some (JStr ''second'')\<rparr>],
       tasks = [Return (Guarded (buy ''a'' 0), Threw Call_failed), Return (Guarded (buy ''b'' 120001), Ran (JStr ''second''))]\<rparr>"
    unfolding run_calls_def lost_moves_def world_of_def append_Cons run_begin run_moves_append
    by (simp add: run_begin run_moves_append run_turns solo_labelled buy_solo rebuy_solo del: list.map handler.simps)
  then show ?thesis by (simp add: results_def map_filter_simps)
qed

text \<open>A platform whose hash is constant.\<close>

definition flat_platform :: platform where
  "flat_platform = \<lparr>sha256 = (\<lambda>_. 0), to_json = (\<lambda>_. []), iso = (\<lambda>_. [])\<rparr>"

definition held_record :: entry where
  "held_record = claim_of flat_platform (buy ''a'' 0) 0"

definition held_moves :: "(call, outcome) move list" where
  "held_moves = [Begin (Guarded (buy ''b'' 5)), Turn 0 (Works 0), Turn 0 (Works 0)]"

theorem live_key_runs_once_witness:
  "held_record \<in> set (rows (run_calls flat_platform (mem_db same_key) held_moves [held_record])) \<and>
   (Ask (Perform ''k'' (JStr ''order'')), Failed) \<notin> set (conversation (mem_db same_key) (\<lambda>c. labelled c (handler flat_platform c)) held_moves
      (world_of [held_record]) 0)"
proof -
  have timely: "c \<in> begun held_moves \<Longrightarrow> timely held_record c" for c
    by (auto simp: begun_def held_moves_def held_record_def buy_claim buy_fields)
  show ?thesis
    using live_key_runs_once [OF mem_documented _ _ _ _ timely, where s = "[held_record]" and P = flat_platform and v = "JStr ''order''" and a = Failed and n = 0]
    by (simp add: held_record_def buy_claim)
qed

end
