(* ===== verification/PublicationSaga.thy ===== *)
theory PublicationSaga imports AsyncStore Json begin

text \<open>
  \<open>src/lib/backend/publicationSaga.js\<close>: the saga that publishes a material step by step, with failure,
  retry and compensation, in the collection \<open>publication_sagas\<close>. A saga without a state has the state
  null. Identifiers are strings; the texts of errors are not modelled.
\<close>

section \<open>States\<close>

datatype saga_state =
    Pending | Upload_done | Ipfs_pinned | Soroban_registered | Chain_finalized | Indexed | Complete | Saga_failed

fun STATE_TRANSITIONS :: "saga_state \<Rightarrow> saga_state option" where
  "STATE_TRANSITIONS Pending = Some Upload_done"
| "STATE_TRANSITIONS Upload_done = Some Ipfs_pinned"
| "STATE_TRANSITIONS Ipfs_pinned = Some Soroban_registered"
| "STATE_TRANSITIONS Soroban_registered = Some Chain_finalized"
| "STATE_TRANSITIONS Chain_finalized = Some Indexed"
| "STATE_TRANSITIONS Indexed = Some Complete"
| "STATE_TRANSITIONS Complete = None"
| "STATE_TRANSITIONS Saga_failed = None"

definition SAGA_TERMINAL_STATES :: "saga_state list" where
  "SAGA_TERMINAL_STATES = [Complete]"

definition SAGA_STEP_ORDER :: "saga_state list" where
  "SAGA_STEP_ORDER = [Pending, Upload_done, Ipfs_pinned, Soroban_registered, Chain_finalized, Indexed, Complete]"

text \<open>The states asked about may be missing; a missing entry of the table equals a missing state.\<close>

definition isValidSagaTransition :: "saga_state \<Rightarrow> saga_state option \<Rightarrow> saga_state option \<Rightarrow> bool" where
  "isValidSagaTransition from to failedAt =
     (if STATE_TRANSITIONS from = to then True
      else if to = Some Saga_failed then from \<noteq> Complete \<and> from \<noteq> Saga_failed \<and> from \<in> set SAGA_STEP_ORDER
      else if from = Saga_failed
      then (case failedAt of None \<Rightarrow> False | Some f \<Rightarrow> to = failedAt \<and> STATE_TRANSITIONS f \<noteq> None)
      else False)"

section \<open>Documents and calls\<close>

record saga_error =
  failedAt :: saga_state
  reason :: string
  failed_on :: int

record rollback =
  rb_step :: saga_state
  rb_action :: string
  rb_value :: json

record saga =
  s_id :: string
  materialId :: string
  idempotencyKey :: string
  state :: "saga_state option"
  stepProofs :: "(saga_state \<times> int \<times> document) list"
  lastError :: "saga_error option"
  retries :: nat
  compensation :: "(rollback list \<times> int) option"
  completedAt :: "int option"
  createdAt :: int
  updatedAt :: int

text \<open>Only the identifier is unique.\<close>

definition same_saga :: "saga \<Rightarrow> saga \<Rightarrow> bool" where
  "same_saga a b \<longleftrightarrow> s_id a = s_id b"

datatype saga_error_kind = Invalid_transition | Cannot_compensate | Call_failed

datatype saga_result =
    Created saga
  | Found "saga option"
  | Found_all "saga list"
  | Changed "saga option"
  | Compensated "rollback list"
  | Threw saga_error_kind

type_synonym script = "(saga, unit, int, saga_result) async"

definition clock :: "(int \<Rightarrow> script) \<Rightarrow> script" where
  "clock k = Await (Ask ()) (\<lambda>a. case a of Said t \<Rightarrow> k t | _ \<Rightarrow> Return (Threw Call_failed))"

definition find_saga :: "(saga \<Rightarrow> bool) \<Rightarrow> (saga option \<Rightarrow> script) \<Rightarrow> script" where
  "find_saga P k = Await (Find_one P) (\<lambda>a. case a of Row r \<Rightarrow> k r | _ \<Rightarrow> Return (Threw Call_failed))"

definition find_and_update :: "(saga \<Rightarrow> bool) \<Rightarrow> (saga \<Rightarrow> saga) \<Rightarrow> (saga option \<Rightarrow> script) \<Rightarrow> script" where
  "find_and_update P f k = Await (Update_one P f None) (\<lambda>a. case a of Updated r \<Rightarrow> k r | _ \<Rightarrow> Return (Threw Call_failed))"

section \<open>Operations\<close>

definition new_saga :: "string \<Rightarrow> string \<Rightarrow> string \<Rightarrow> int \<Rightarrow> saga" where
  "new_saga i m key now = \<lparr>s_id = i, materialId = m, idempotencyKey = key, state = Some Pending, stepProofs = [], lastError = None,
     retries = 0, compensation = None, completedAt = None, createdAt = now, updatedAt = now\<rparr>"

definition createPublicationSaga :: "string \<Rightarrow> string \<Rightarrow> string \<Rightarrow> script" where
  "createPublicationSaga i m key = clock (\<lambda>now.
     Await (Insert_one (new_saga i m key now)) (\<lambda>a. case a of
       Inserted _ \<Rightarrow> Return (Created (new_saga i m key now)) | _ \<Rightarrow> Return (Threw Call_failed)))"

definition getSagaByIdempotencyKey :: "string \<Rightarrow> script" where
  "getSagaByIdempotencyKey key = find_saga (\<lambda>s. idempotencyKey s = key) (\<lambda>r. Return (Found r))"

definition getSagaByMaterialId :: "string \<Rightarrow> script" where
  "getSagaByMaterialId m = find_saga (\<lambda>s. materialId s = m) (\<lambda>r. Return (Found r))"

definition stepped :: "saga_state \<Rightarrow> saga_state \<Rightarrow> document \<Rightarrow> int \<Rightarrow> saga \<Rightarrow> saga" where
  "stepped st nx proof now s = s\<lparr>state := Some nx, stepProofs := AList.update st (now, proof) (stepProofs s),
     lastError := None, retries := 0, updatedAt := now\<rparr>"

definition transitionSagaState :: "string \<Rightarrow> saga_state \<Rightarrow> document \<Rightarrow> script" where
  "transitionSagaState i st proof =
     (case STATE_TRANSITIONS st of
        None \<Rightarrow> Return (Threw Invalid_transition)
      | Some nx \<Rightarrow> clock (\<lambda>now. find_and_update (\<lambda>s. s_id s = i \<and> state s = Some st) (stepped st nx proof now) (\<lambda>r. Return (Changed r))))"

definition failed_at :: "saga_state \<Rightarrow> string \<Rightarrow> int \<Rightarrow> saga \<Rightarrow> saga" where
  "failed_at st why now s = s\<lparr>state := Some Saga_failed, lastError := Some \<lparr>failedAt = st, reason = why, failed_on = now\<rparr>,
     retries := retries s + 1, updatedAt := now\<rparr>"

definition failSagaStep :: "string \<Rightarrow> saga_state \<Rightarrow> string \<Rightarrow> script" where
  "failSagaStep i st why =
     (if STATE_TRANSITIONS st = None then Return (Changed None)
      else clock (\<lambda>now. find_and_update (\<lambda>s. s_id s = i \<and> state s = Some st) (failed_at st why now) (\<lambda>r. Return (Changed r))))"

definition stalled :: "int \<Rightarrow> saga \<Rightarrow> bool" where
  "stalled since s \<longleftrightarrow> state s \<noteq> Some Complete \<and> state s \<noteq> Some Saga_failed \<and> updatedAt s < since"

definition getStalledSagas :: "int \<Rightarrow> script" where
  "getStalledSagas maxAgeMs = clock (\<lambda>now. Await (Find_all (stalled (now - maxAgeMs)))
     (\<lambda>a. case a of Rows rs \<Rightarrow> Return (Found_all rs) | _ \<Rightarrow> Return (Threw Call_failed)))"

definition rollback_of :: "saga \<Rightarrow> saga_state \<Rightarrow> string \<Rightarrow> string \<Rightarrow> rollback list" where
  "rollback_of s st action key =
     (case map_of (stepProofs s) st of
        Some (_, proof) \<Rightarrow> if js_true (map_of proof key) then [\<lparr>rb_step = st, rb_action = action, rb_value = the (map_of proof key)\<rparr>] else []
      | None \<Rightarrow> [])"

definition rollbacks :: "saga \<Rightarrow> rollback list" where
  "rollbacks s = rollback_of s Ipfs_pinned ''unpin_ipfs'' ''cid'' @ rollback_of s Soroban_registered ''mark_unregistered'' ''contractId'' @
     rollback_of s Chain_finalized ''mark_draft'' ''txHash''"

definition compensated :: "rollback list \<Rightarrow> int \<Rightarrow> saga \<Rightarrow> saga" where
  "compensated rbs now s = s\<lparr>state := Some Saga_failed, compensation := Some (rbs, now), updatedAt := now\<rparr>"

text \<open>The saga is the one the caller read at some earlier moment.\<close>

definition compensateSaga :: "saga \<Rightarrow> script" where
  "compensateSaga seen = clock (\<lambda>now.
     find_and_update (\<lambda>s. s_id s = s_id seen \<and> state s \<noteq> Some Complete) (compensated (rollbacks seen) now)
       (\<lambda>r. case r of None \<Rightarrow> Return (Threw Cannot_compensate) | Some _ \<Rightarrow> Return (Compensated (rollbacks seen))))"

definition resumed :: "saga_state option \<Rightarrow> int \<Rightarrow> saga \<Rightarrow> saga" where
  "resumed st now s = s\<lparr>state := st, updatedAt := now\<rparr>"

definition retrySagaFromFailure :: "string \<Rightarrow> script" where
  "retrySagaFromFailure i = find_saga (\<lambda>s. s_id s = i) (\<lambda>r. case r of
       None \<Rightarrow> Return (Changed None)
     | Some s \<Rightarrow>
         if state s \<noteq> Some Saga_failed \<or> compensation s \<noteq> None then Return (Changed None)
         else let f = map_option failedAt (lastError s) in
           if \<not> isValidSagaTransition Saga_failed f f then Return (Changed None)
           else clock (\<lambda>now. find_and_update (\<lambda>x. s_id x = i \<and> state x = Some Saga_failed \<and> map_option failedAt (lastError x) = f)
             (resumed f now) (\<lambda>r. Return (Changed r))))"

definition completed :: "int \<Rightarrow> saga \<Rightarrow> saga" where
  "completed now s = s\<lparr>state := Some Complete, completedAt := Some now, updatedAt := now\<rparr>"

definition completeSaga :: "string \<Rightarrow> script" where
  "completeSaga i = clock (\<lambda>now. find_and_update (\<lambda>s. s_id s = i \<and> state s = Some Indexed) (completed now) (\<lambda>r. Return (Changed r)))"

section \<open>The system\<close>

datatype saga_call =
    Create string string string
  | By_key string
  | By_material string
  | Advance string saga_state document
  | Fail_step string saga_state string
  | Stalled int
  | Compensate saga
  | Retry string
  | Complete_it string

fun saga_handler :: "saga_call \<Rightarrow> script" where
  "saga_handler (Create i m key) = createPublicationSaga i m key"
| "saga_handler (By_key key) = getSagaByIdempotencyKey key"
| "saga_handler (By_material m) = getSagaByMaterialId m"
| "saga_handler (Advance i st proof) = transitionSagaState i st proof"
| "saga_handler (Fail_step i st why) = failSagaStep i st why"
| "saga_handler (Stalled age) = getStalledSagas age"
| "saga_handler (Compensate seen) = compensateSaga seen"
| "saga_handler (Retry i) = retrySagaFromFailure i"
| "saga_handler (Complete_it i) = completeSaga i"

end
