(* ===== verification/PublicationSafety.thy ===== *)
theory PublicationSafety imports PublicationSaga begin

text \<open>
  What the publication sagas guarantee. The locale \<open>saga_contract\<close> states what each change of a saga
  must keep and proves once that every operation keeps it; it is interpreted for the order of the
  steps and for a saga that has been compensated.
\<close>

section \<open>The contract of the operations\<close>

definition retryable :: "saga \<Rightarrow> bool" where
  "retryable s \<longleftrightarrow> state s = Some Saga_failed \<and> compensation s = None"

fun creates :: "(string \<Rightarrow> bool) \<Rightarrow> saga_call \<Rightarrow> bool" where
  "creates draws (Create i m key) = draws i"
| "creates draws _ = True"

locale saga_contract = row_contract same_saga "\<lambda>_. ok" R
  for ok :: "saga \<Rightarrow> bool" and R :: "saga \<Rightarrow> saga \<Rightarrow> bool" +
  fixes draws :: "string \<Rightarrow> bool"
  assumes new_ok: "draws i \<Longrightarrow> ok (new_saga i m key now)"
    and step_ok: "ok s \<Longrightarrow> state s = Some st \<Longrightarrow> STATE_TRANSITIONS st = Some nx \<Longrightarrow>
      ok (stepped st nx d now s) \<and> R s (stepped st nx d now s)"
    and fail_ok: "ok s \<Longrightarrow> state s = Some st \<Longrightarrow> STATE_TRANSITIONS st \<noteq> None \<Longrightarrow>
      ok (failed_at st why now s) \<and> R s (failed_at st why now s)"
    and compensate_ok: "ok s \<Longrightarrow> state s \<noteq> Some Complete \<Longrightarrow> ok (compensated rbs now s) \<and> R s (compensated rbs now s)"
    and retry_ok: "ok x \<Longrightarrow> retryable x \<Longrightarrow> f = map_option failedAt (lastError x) \<Longrightarrow> isValidSagaTransition Saga_failed f f \<Longrightarrow>
      ok s \<Longrightarrow> s_id s = s_id x \<Longrightarrow> state s = Some Saga_failed \<Longrightarrow> map_option failedAt (lastError s) = f \<Longrightarrow>
      ok (resumed f now s) \<and> R s (resumed f now s)"
    and complete_ok: "ok s \<Longrightarrow> state s = Some Indexed \<Longrightarrow> ok (completed now s) \<and> R s (completed now s)"
begin

abbreviation sound :: "script \<Rightarrow> bool" where
  "sound p \<equiv> good same_saga (all_rows (\<lambda>_. ok)) (evolves R) (\<lambda>_ _. True) p (\<lambda>_. True)"

lemma under: "(B \<Longrightarrow> sound p) \<Longrightarrow> good same_saga (all_rows (\<lambda>_. ok)) (evolves R) (\<lambda>_ _. True) p (\<lambda>_. B)"
  by (cases B) (auto intro: good_absurd)

lemma clock_rule: "(\<And>t. sound (k t)) \<Longrightarrow> sound (clock k)"
  unfolding clock_def by (rule good_read) (auto split: reply.splits)

lemma find_rule:
  assumes "sound (k None)" "\<And>x. ok x \<Longrightarrow> P x \<Longrightarrow> sound (k (Some x))"
  shows "sound (find_saga P k)"
  unfolding find_saga_def
proof (rule good_find_one [where K' = "\<lambda>r _. ok r \<and> P r" and K'' = "\<lambda>_. True"])
  show "good same_saga (all_rows (\<lambda>_. ok)) (evolves R) (\<lambda>_ _. True)
    (case Row (Some r) of Row r \<Rightarrow> k r | _ \<Rightarrow> Return (Threw Call_failed)) (\<lambda>_. ok r \<and> P r)" for r
    by (rule under) (simp add: assms(2))
  show "sound (case a of Row r \<Rightarrow> k r | _ \<Rightarrow> Return (Threw Call_failed))" if "\<forall>r. a \<noteq> Row (Some r)" for a :: "(saga, int) reply"
    using that assms(1) by (auto split: reply.splits option.splits)
qed (auto simp: all_rows_def stays_def)

lemma change_rule:
  assumes "\<And>s. ok s \<Longrightarrow> P s \<Longrightarrow> ok (f s) \<and> R s (f s)" "\<And>r. sound (k r)"
  shows "sound (find_and_update P f k)"
  unfolding find_and_update_def
  by (rule good_update) (use assms in \<open>auto simp: all_rows_def stays_def split: reply.splits\<close>)

lemma create_sound: "draws i \<Longrightarrow> sound (createPublicationSaga i m key)"
  unfolding createPublicationSaga_def
  by (intro clock_rule good_insert) (auto simp: new_ok stays_def split: reply.splits)

lemma retry_sound: "sound (retrySagaFromFailure i)"
  unfolding retrySagaFromFailure_def
proof (rule find_rule)
  fix x
  assume x: "ok x" "s_id x = i"
  show "sound (case Some x of None \<Rightarrow> Return (Changed None) | Some s \<Rightarrow>
      if state s \<noteq> Some Saga_failed \<or> compensation s \<noteq> None then Return (Changed None)
      else let f = map_option failedAt (lastError s) in
        if \<not> isValidSagaTransition Saga_failed f f then Return (Changed None)
        else clock (\<lambda>now. find_and_update (\<lambda>x. s_id x = i \<and> state x = Some Saga_failed \<and> map_option failedAt (lastError x) = f)
          (resumed f now) (\<lambda>r. Return (Changed r))))"
  proof (cases "retryable x \<and> isValidSagaTransition Saga_failed (map_option failedAt (lastError x)) (map_option failedAt (lastError x))")
    case True
    then have "sound (clock (\<lambda>now. find_and_update
        (\<lambda>s. s_id s = i \<and> state s = Some Saga_failed \<and> map_option failedAt (lastError s) = map_option failedAt (lastError x))
        (resumed (map_option failedAt (lastError x)) now) (\<lambda>r. Return (Changed r))))"
      by (intro clock_rule change_rule) (use x retry_ok in auto)
    with True show ?thesis by (simp add: retryable_def Let_def)
  next
    case False
    then show ?thesis by (auto simp: retryable_def)
  qed
qed simp

lemma compensate_sound: "sound (compensateSaga seen)"
  unfolding compensateSaga_def
  by (intro clock_rule change_rule) (use compensate_ok in \<open>auto split: option.splits\<close>)

lemma read_sound: "sound (getStalledSagas age)"
  unfolding getStalledSagas_def by (intro clock_rule good_read) (auto split: reply.splits)

lemma handler_sound: "creates draws c \<Longrightarrow> sound (saga_handler c)"
  using step_ok fail_ok complete_ok
  by (cases c)
    (auto simp: create_sound retry_sound compensate_sound read_sound getSagaByIdempotencyKey_def getSagaByMaterialId_def
      transitionSagaState_def failSagaStep_def completeSaga_def intro!: find_rule clock_rule change_rule split: option.splits)

end

sublocale saga_contract < served: rely_guarantee same_saga "all_rows (\<lambda>_. ok)" "evolves R" "\<lambda>_ _. True" "\<lambda>_. True"
  saga_handler "creates draws"
proof unfold_locales
  fix c
  assume "creates draws c"
  then show "good same_saga (all_rows (\<lambda>_. ok)) (evolves R) (\<lambda>_ _. True) (saga_handler c) (\<lambda>_. True)" by (rule handler_sound)
qed (use evolves_refl evolves_trans in blast)+

section \<open>The order of the steps\<close>

text \<open>The steps before a state, by the order of the steps; a failed saga stands at no step.\<close>

definition before :: "saga_state \<Rightarrow> saga_state list" where
  "before st = (if st = Saga_failed then [] else takeWhile (\<lambda>x. x \<noteq> st) SAGA_STEP_ORDER)"

definition proven :: "saga_state \<Rightarrow> saga \<Rightarrow> bool" where
  "proven st s \<longleftrightarrow> set (before st) \<subseteq> fst ` set (stepProofs s)"

text \<open>
  A saga at a step has a proof of each step before it. \<open>completeSaga\<close> stores no proof, so a complete
  saga is only sure to have what an indexed one has; a failed one has what the step that failed needs.
\<close>

fun stands_proven :: "saga_state \<Rightarrow> saga \<Rightarrow> bool" where
  "stands_proven Complete s = proven Indexed s"
| "stands_proven Saga_failed s = (compensation s \<noteq> None \<or> (\<exists>e. lastError s = Some e \<and> proven (failedAt e) s))"
| "stands_proven st s = proven st s"

definition in_order :: "saga \<Rightarrow> bool" where
  "in_order s \<longleftrightarrow> (\<exists>st. state s = Some st \<and> stands_proven st s) \<and>
     (\<forall>e. lastError s = Some e \<longrightarrow> proven (failedAt e) s \<and> STATE_TRANSITIONS (failedAt e) \<noteq> None)"

text \<open>Proofs stay, identities stay, and a complete saga does not change.\<close>

definition forward :: "saga \<Rightarrow> saga \<Rightarrow> bool" where
  "forward s t \<longleftrightarrow> s_id t = s_id s \<and> materialId t = materialId s \<and> idempotencyKey t = idempotencyKey s \<and>
     fst ` set (stepProofs s) \<subseteq> fst ` set (stepProofs t) \<and> (state s = Some Complete \<longrightarrow> t = s)"

lemma update_keys: "fst ` set (AList.update k v m) = insert k (fst ` set m)"
  using dom_update [of k v m] by (simp add: dom_map_of_conv_image_fst)

lemma before_simps [simp]:
  "before Pending = []" "before Upload_done = [Pending]" "before Ipfs_pinned = [Pending, Upload_done]"
  "before Soroban_registered = [Pending, Upload_done, Ipfs_pinned]"
  "before Chain_finalized = [Pending, Upload_done, Ipfs_pinned, Soroban_registered]"
  "before Indexed = [Pending, Upload_done, Ipfs_pinned, Soroban_registered, Chain_finalized]"
  "before Complete = [Pending, Upload_done, Ipfs_pinned, Soroban_registered, Chain_finalized, Indexed]"
  "before Saga_failed = []"
  by (simp_all add: before_def SAGA_STEP_ORDER_def)

lemma stepped_stands:
  assumes "stands_proven st s" "STATE_TRANSITIONS st = Some nx"
  shows "stands_proven nx (stepped st nx d now s)"
  using assms by (cases st) (auto simp: proven_def stepped_def update_keys)

lemma stands_same:
  assumes "stands_proven st s" "stepProofs t = stepProofs s" "st \<noteq> Saga_failed"
  shows "stands_proven st t"
  using assms by (cases st) (auto simp: proven_def)

lemma moving: "STATE_TRANSITIONS st \<noteq> None \<Longrightarrow> stands_proven st s = proven st s" "STATE_TRANSITIONS st \<noteq> None \<Longrightarrow> st \<noteq> Complete"
  by (cases st; simp)+

interpretation ordered: saga_contract in_order forward "\<lambda>_. True"
proof unfold_locales
  fix s st nx d now
  assume s: "in_order s" "state s = Some st" "STATE_TRANSITIONS st = Some nx"
  have "stands_proven st s" "st \<noteq> Complete" using s by (auto simp: in_order_def)
  then show "in_order (stepped st nx d now s) \<and> forward s (stepped st nx d now s)"
    using s(2) stepped_stands [OF _ s(3)] by (auto simp: in_order_def forward_def stepped_def update_keys)
next
  fix s st why now
  assume s: "in_order s" "state s = Some st" "STATE_TRANSITIONS st \<noteq> None"
  then have "proven st s" "st \<noteq> Complete" using moving by (auto simp: in_order_def)
  then show "in_order (failed_at st why now s) \<and> forward s (failed_at st why now s)"
    using s by (simp add: in_order_def forward_def failed_at_def proven_def)
next
  fix s rbs now
  assume "in_order s" "state s \<noteq> Some Complete"
  then show "in_order (compensated rbs now s) \<and> forward s (compensated rbs now s)"
    by (auto simp: in_order_def forward_def compensated_def proven_def)
next
  fix x f s now
  assume x: "in_order x" "retryable x" "f = map_option failedAt (lastError x)" "isValidSagaTransition Saga_failed f f" "in_order s"
    "state s = Some Saga_failed" "map_option failedAt (lastError s) = f"
  then obtain e where e: "lastError s = Some e" "f = Some (failedAt e)"
    by (auto simp: in_order_def retryable_def)
  then have "proven (failedAt e) s" "STATE_TRANSITIONS (failedAt e) \<noteq> None" using x(5) by (auto simp: in_order_def)
  then show "in_order (resumed f now s) \<and> forward s (resumed f now s)"
    using x(6) e by (simp add: in_order_def forward_def resumed_def moving(1)) (simp add: proven_def)
next
  fix s now
  assume "in_order s" "state s = Some Indexed"
  then show "in_order (completed now s) \<and> forward s (completed now s)"
    by (auto simp: in_order_def forward_def completed_def proven_def)
qed (auto simp: in_order_def new_saga_def proven_def forward_def)

section \<open>A compensated saga\<close>

definition rolled_back :: "string \<Rightarrow> saga \<Rightarrow> bool" where
  "rolled_back i s \<longleftrightarrow> (s_id s = i \<longrightarrow> state s = Some Saga_failed \<and> compensation s \<noteq> None)"

interpretation halted: saga_contract "rolled_back i" "\<lambda>s t. s_id t = s_id s" "\<lambda>x. x \<noteq> i" for i
proof unfold_locales
  fix s st nx d now
  assume "rolled_back i s" "state s = Some st" "STATE_TRANSITIONS st = Some nx"
  then show "rolled_back i (stepped st nx d now s) \<and> s_id (stepped st nx d now s) = s_id s"
    by (cases st) (auto simp: rolled_back_def stepped_def)
qed (auto simp: rolled_back_def new_saga_def failed_at_def compensated_def completed_def resumed_def retryable_def)

section \<open>Guarantees\<close>

definition run_sagas :: "(saga, unit, int) database \<Rightarrow> (saga_call, int) move list \<Rightarrow> saga list \<Rightarrow> (saga, unit, int, saga_result) world" where
  "run_sagas D moves s = run D saga_handler moves (world_of s)"

text \<open>
  C13: publication steps happen in order, once and for good. In every run, however steps, failures,
  retries, compensations and completions of any number of workers interleave, a saga that stands at a
  step has a recorded proof of every step before it; a complete saga has one of every step before the
  last but one, indexing, of which \<open>completeSaga\<close> records none; a failed saga that is not compensated
  has one of every step before the one that failed, to which a retry goes back; and a complete saga
  never changes.
\<close>

theorem publication_in_order:
  assumes "documented_db same_saga D" "\<forall>r \<in> set s. in_order r"
  shows "(\<forall>r \<in> set (rows (run_sagas D moves s)). \<exists>st. state r = Some st \<and> stands_proven st r) \<and>
    (\<forall>r \<in> set s. state r = Some Complete \<longrightarrow> r \<in> set (rows (run_sagas D moves s)))"
proof -
  have "all_rows (\<lambda>_. in_order) s" using assms(2) by (simp add: all_rows_def)
  note kept = ordered.served.run_keeps [OF assms(1) this TrueI, of moves, folded run_sagas_def]
  have any: "creates (\<lambda>_. True) c" for c by (cases c) simp_all
  have "\<exists>st. state r = Some st \<and> stands_proven st r" if "r \<in> set (rows (run_sagas D moves s))" for r
    using kept(1) any that by (auto simp: all_rows_def in_order_def)
  moreover have "r \<in> set (rows (run_sagas D moves s))" if r: "r \<in> set s" "state r = Some Complete" for r
    using evolvesD [OF kept(2) r(1)] any r(2) by (auto simp: forward_def)
  ultimately show ?thesis by blast
qed

text \<open>
  C32: a compensated saga is not resumed. Once a saga is compensated and no operation is under way,
  no later step, retry or completion moves it from the failed state, whatever interleaves.
\<close>

theorem compensation_is_final:
  assumes "documented_db same_saga D" "\<forall>r \<in> set s. s_id r = i \<longrightarrow> state r = Some Saga_failed \<and> compensation r \<noteq> None"
    and "\<And>m key. Create i m key \<notin> begun moves"
  shows "\<forall>r \<in> set (rows (run_sagas D moves s)). s_id r = i \<longrightarrow> state r = Some Saga_failed \<and> compensation r \<noteq> None"
proof -
  have "all_rows (\<lambda>_. rolled_back i) s" using assms(2) by (simp add: all_rows_def rolled_back_def)
  moreover have "creates (\<lambda>x. x \<noteq> i) c" if "c \<in> begun moves" for c
    using that assms(3) by (cases c) auto
  ultimately have "all_rows (\<lambda>_. rolled_back i) (rows (run_sagas D moves s))"
    unfolding run_sagas_def by (intro halted.served.run_keeps(1) [OF assms(1) _ TrueI])
  then show ?thesis by (simp add: all_rows_def rolled_back_def)
qed

section \<open>Runs\<close>

definition pinned_saga :: saga where
  "pinned_saga = \<lparr>s_id = ''p'', materialId = ''m'', idempotencyKey = ''k'', state = Some Saga_failed,
     stepProofs = [(Pending, 1, []), (Upload_done, 2, []), (Ipfs_pinned, 3, [(''cid'', JStr ''Qm'')])],
     lastError = Some \<lparr>failedAt = Soroban_registered, reason = ''timeout'', failed_on = 4\<rparr>, retries = 1, compensation = None,
     completedAt = None, createdAt = 0, updatedAt = 4\<rparr>"

definition race_moves :: "(saga_call, int) move list" where
  "race_moves = [Begin (Retry ''p''), Turn 0 (Works 0), Begin (Compensate pinned_saga), Turn 1 (Says 5), Turn 1 (Works 0),
     Turn 0 (Says 6), Turn 0 (Works 0), Begin (Advance ''p'' Soroban_registered []), Turn 2 (Says 7), Turn 2 (Works 0),
     Begin (Advance ''p'' Chain_finalized []), Turn 3 (Says 8), Turn 3 (Works 0), Begin (Advance ''p'' Indexed []), Turn 4 (Says 9), Turn 4 (Works 0)]"

definition outcomes :: "saga list \<Rightarrow> (saga_state option \<times> rollback list option) list" where
  "outcomes = map (\<lambda>s. (state s, map_option fst (compensation s)))"

text \<open>
  A retry that overtakes a compensation publishes rolled-back material. A retry reads the failed
  saga before the compensation and writes after it; its write checks the failure point only, so the
  saga goes on to complete although its file has been given up for unpinning.
\<close>

theorem compensated_saga_completes:
  "outcomes (rows (run_sagas (mem_db same_saga) race_moves [pinned_saga])) =
     [(Some Complete, Some [\<lparr>rb_step = Ipfs_pinned, rb_action = ''unpin_ipfs'', rb_value = JStr ''Qm''\<rparr>])]"
  by code_simp

text \<open>The identifier of a publication is not unique among the sagas.\<close>

lemma same_key_twice:
  "map idempotencyKey (rows (run_sagas (mem_db same_saga) [Begin (Create ''p'' ''m'' ''k''), Begin (Create ''q'' ''m'' ''k''), Turn 0 (Says 1),
      Turn 1 (Says 1), Turn 0 (Works 0), Turn 1 (Works 0)] [])) = [''k'', ''k'']"
  by code_simp

text \<open>A missing state is a valid successor of the final states.\<close>

lemma missing_target_is_valid: "isValidSagaTransition Complete None None" "isValidSagaTransition Saga_failed None None"
  by (simp_all add: isValidSagaTransition_def)

definition full_moves :: "(saga_call, int) move list" where
  "full_moves = [Begin (Create ''p'' ''m'' ''k''), Turn 0 (Says 1), Turn 0 (Works 0), Begin (Advance ''p'' Pending []), Turn 1 (Says 2), Turn 1 (Works 0)]"

definition first_step :: saga where
  "first_step = stepped Pending Upload_done [] 2 (new_saga ''p'' ''m'' ''k'' 1)"

theorem publication_in_order_witness:
  "first_step \<in> set (rows (run_sagas (mem_db same_saga) full_moves [])) \<and>
   state first_step = Some Upload_done \<and> stands_proven Upload_done first_step"
proof -
  have in_rows: "first_step \<in> set (rows (run_sagas (mem_db same_saga) full_moves []))" by code_simp
  moreover have "state first_step = Some Upload_done" by code_simp
  moreover have "\<exists>st. state first_step = Some st \<and> stands_proven st first_step"
    using publication_in_order [OF mem_documented, of "[]" full_moves] in_rows by simp
  ultimately show ?thesis by auto
qed

text \<open>A saga completes without a proof that it was indexed.\<close>

definition indexed_saga :: saga where
  "indexed_saga = pinned_saga\<lparr>state := Some Indexed, lastError := None,
     stepProofs := map (\<lambda>st. (st, 1, [])) [Pending, Upload_done, Ipfs_pinned, Soroban_registered, Chain_finalized]\<rparr>"

lemma complete_without_index_proof:
  "map (\<lambda>s. (state s, Indexed \<in> fst ` set (stepProofs s)))
     (rows (run_sagas (mem_db same_saga) [Begin (Complete_it ''p''), Turn 0 (Says 9), Turn 0 (Works 0)] [indexed_saga])) = [(Some Complete, False)]"
  by code_simp

definition halted_moves :: "(saga_call, int) move list" where
  "halted_moves = [Begin (Retry ''p''), Turn 0 (Works 0), Turn 0 (Says 6), Turn 0 (Works 0)]"

theorem compensation_is_final_witness:
  "compensated [] 5 pinned_saga \<in> set (rows (run_sagas (mem_db same_saga) halted_moves [compensated [] 5 pinned_saga])) \<and>
   state (compensated [] 5 pinned_saga) = Some Saga_failed"
proof -
  have in_rows: "compensated [] 5 pinned_saga \<in> set (rows (run_sagas (mem_db same_saga) halted_moves [compensated [] 5 pinned_saga]))"
    by code_simp
  have "\<forall>r \<in> set (rows (run_sagas (mem_db same_saga) halted_moves [compensated [] 5 pinned_saga])).
      s_id r = ''p'' \<longrightarrow> state r = Some Saga_failed \<and> compensation r \<noteq> None"
    by (rule compensation_is_final [OF mem_documented]) (simp_all add: compensated_def pinned_saga_def begun_def halted_moves_def)
  then have "s_id (compensated [] 5 pinned_saga) = ''p'' \<longrightarrow> state (compensated [] 5 pinned_saga) = Some Saga_failed"
    using in_rows by blast
  moreover have "s_id (compensated [] 5 pinned_saga) = ''p''" by (simp add: compensated_def pinned_saga_def)
  ultimately show ?thesis using in_rows by simp
qed

end
