(* ===== verification/Moderation.thy ===== *)
theory Moderation imports AsyncStore Digests begin

text \<open>
  \<open>src/lib/moderation/cases.js\<close>: reports on materials, the cases they open, and sanctions under dual
  control with appeals, over the collections \<open>moderation_reports\<close>, \<open>moderation_cases\<close> and \<open>materials\<close>. The
  rate limiter and the clock are asked; fresh identifiers and the settings of the environment are
  arguments. The log of audit events and the texts of errors are not modelled.
\<close>

section \<open>Documents\<close>

datatype report_status = Report_open | Report_investigating | Report_closed

record report =
  r_id :: string
  r_material :: string
  r_reporter :: string
  r_reason :: string
  r_evidence :: "json option"
  r_evidenceHash :: string
  r_status :: report_status
  r_createdAt :: int

datatype case_status =
    Case_open | Case_investigating | Pending_approval | Sanctioned | Appealed | Appeal_granted | Appeal_denied | Case_closed

record mod_case =
  c_id :: string
  c_material :: string
  c_status :: case_status
  c_reports :: "string list"
  flaggedForPriorityReview :: bool
  priorityReviewReason :: "string option"
  proposedSanction :: "string option"
  proposerId :: "string option"
  approverId :: "string option"
  approvedAt :: "int option"
  appealReason :: "string option"
  appealReviewerId :: "string option"
  c_createdAt :: int

record material =
  m_id :: string
  creatorId :: "string option"
  creatorAddress :: "string option"
  creator :: "string option"
  moderationStatus :: "string option"

datatype row = Report report | Case mod_case | Material material

fun same_row :: "row \<Rightarrow> row \<Rightarrow> bool" where
  "same_row (Report a) (Report b) = (r_id a = r_id b)"
| "same_row (Case a) (Case b) = (c_id a = c_id b)"
| "same_row (Material a) (Material b) = (m_id a = m_id b)"
| "same_row _ _ = False"

section \<open>Calls\<close>

datatype question = Clock | Rate_limit string int int
datatype answer = Time int | Allowed bool

datatype refusal =
    Case_not_found | Not_active | Unsupported | Material_not_found | Conflict_of_interest | Not_pending | Dual_control
  | Not_sanctioned | Not_creator | Window_expired | Not_appealed | Call_failed

datatype result =
    Reported string
  | Limited
  | Already_reported string
  | Succeeded
  | Threw refusal

type_synonym script = "(row, question, answer, result) async"

fun report_where :: "(report \<Rightarrow> bool) \<Rightarrow> row \<Rightarrow> bool" where
  "report_where P (Report r) = P r"
| "report_where P _ = False"

fun case_where :: "(mod_case \<Rightarrow> bool) \<Rightarrow> row \<Rightarrow> bool" where
  "case_where P (Case c) = P c"
| "case_where P _ = False"

fun material_where :: "(material \<Rightarrow> bool) \<Rightarrow> row \<Rightarrow> bool" where
  "material_where P (Material m) = P m"
| "material_where P _ = False"

fun on_report :: "(report \<Rightarrow> report) \<Rightarrow> row \<Rightarrow> row" where
  "on_report f (Report r) = Report (f r)"
| "on_report f x = x"

fun on_case :: "(mod_case \<Rightarrow> mod_case) \<Rightarrow> row \<Rightarrow> row" where
  "on_case f (Case c) = Case (f c)"
| "on_case f x = x"

fun on_material :: "(material \<Rightarrow> material) \<Rightarrow> row \<Rightarrow> row" where
  "on_material f (Material m) = Material (f m)"
| "on_material f x = x"

fun reports_of :: "row list \<Rightarrow> report list" where
  "reports_of [] = []"
| "reports_of (Report r # rs) = r # reports_of rs"
| "reports_of (_ # rs) = reports_of rs"

fun materials_of :: "row list \<Rightarrow> material list" where
  "materials_of [] = []"
| "materials_of (Material m # rs) = m # materials_of rs"
| "materials_of (_ # rs) = materials_of rs"

abbreviation throw :: "refusal \<Rightarrow> script" where
  "throw e \<equiv> Return (Threw e)"

definition clock :: "(int \<Rightarrow> script) \<Rightarrow> script" where
  "clock k = Await (Ask Clock) (\<lambda>a. case a of Said (Time t) \<Rightarrow> k t | _ \<Rightarrow> throw Call_failed)"

definition find_report :: "(report \<Rightarrow> bool) \<Rightarrow> (report option \<Rightarrow> script) \<Rightarrow> script" where
  "find_report P k = Await (Find_one (report_where P))
     (\<lambda>a. case a of Row None \<Rightarrow> k None | Row (Some (Report r)) \<Rightarrow> k (Some r) | _ \<Rightarrow> throw Call_failed)"

definition find_case :: "(mod_case \<Rightarrow> bool) \<Rightarrow> (mod_case option \<Rightarrow> script) \<Rightarrow> script" where
  "find_case P k = Await (Find_one (case_where P))
     (\<lambda>a. case a of Row None \<Rightarrow> k None | Row (Some (Case c)) \<Rightarrow> k (Some c) | _ \<Rightarrow> throw Call_failed)"

definition find_material :: "(material \<Rightarrow> bool) \<Rightarrow> (material option \<Rightarrow> script) \<Rightarrow> script" where
  "find_material P k = Await (Find_one (material_where P))
     (\<lambda>a. case a of Row None \<Rightarrow> k None | Row (Some (Material m)) \<Rightarrow> k (Some m) | _ \<Rightarrow> throw Call_failed)"

definition find_reports :: "(report \<Rightarrow> bool) \<Rightarrow> (report list \<Rightarrow> script) \<Rightarrow> script" where
  "find_reports P k = Await (Find_all (report_where P)) (\<lambda>a. case a of Rows rs \<Rightarrow> k (reports_of rs) | _ \<Rightarrow> throw Call_failed)"

definition find_materials :: "(material \<Rightarrow> bool) \<Rightarrow> (material list \<Rightarrow> script) \<Rightarrow> script" where
  "find_materials P k = Await (Find_all (material_where P)) (\<lambda>a. case a of Rows rs \<Rightarrow> k (materials_of rs) | _ \<Rightarrow> throw Call_failed)"

definition insert_row :: "row \<Rightarrow> script \<Rightarrow> script" where
  "insert_row r k = Await (Insert_one r) (\<lambda>a. case a of Inserted _ \<Rightarrow> k | _ \<Rightarrow> throw Call_failed)"

definition update_row :: "(row \<Rightarrow> bool) \<Rightarrow> (row \<Rightarrow> row) \<Rightarrow> script \<Rightarrow> script" where
  "update_row P f k = Await (Update_one P f None) (\<lambda>a. case a of Updated _ \<Rightarrow> k | _ \<Rightarrow> throw Call_failed)"

definition update_rows :: "(row \<Rightarrow> bool) \<Rightarrow> (row \<Rightarrow> row) \<Rightarrow> script \<Rightarrow> script" where
  "update_rows P f k = Await (Update_all P f) (\<lambda>a. case a of Count _ \<Rightarrow> k | _ \<Rightarrow> throw Call_failed)"

section \<open>Reports\<close>

record submission =
  s_report :: string
  s_case :: string
  s_material :: string
  s_reporter :: string
  s_reason :: string
  s_evidence :: "json option"
  rateLimit :: int
  windowMs :: int
  threshold :: nat

definition evidence_hash :: "platform \<Rightarrow> json option \<Rightarrow> string" where
  "evidence_hash P v = hex (sha256 P (to_json P (if js_true v then the v else JObj [])))"

definition new_report :: "platform \<Rightarrow> submission \<Rightarrow> int \<Rightarrow> report" where
  "new_report P q now = \<lparr>r_id = s_report q, r_material = s_material q, r_reporter = s_reporter q, r_reason = s_reason q,
     r_evidence = s_evidence q, r_evidenceHash = evidence_hash P (s_evidence q), r_status = Report_open, r_createdAt = now\<rparr>"

definition first_truthy :: "string option \<Rightarrow> string option \<Rightarrow> string option" where
  "first_truthy a b = (if truthy a then a else b)"

definition creator_of :: "material option \<Rightarrow> string option" where
  "creator_of m = (case m of None \<Rightarrow> None
     | Some x \<Rightarrow> first_truthy (first_truthy (creatorId x) (creatorAddress x)) (creator x))"

definition made_by :: "string \<Rightarrow> material \<Rightarrow> bool" where
  "made_by w m \<longleftrightarrow> creatorId m = Some w \<or> creatorAddress m = Some w \<or> creator m = Some w"

definition new_case :: "submission \<Rightarrow> string option \<Rightarrow> int \<Rightarrow> mod_case" where
  "new_case q priority now = \<lparr>c_id = s_case q, c_material = s_material q, c_status = Case_open, c_reports = [s_report q],
     flaggedForPriorityReview = (priority \<noteq> None), priorityReviewReason = priority, proposedSanction = None, proposerId = None,
     approverId = None, approvedAt = None, appealReason = None, appealReviewerId = None, c_createdAt = now\<rparr>"

definition flag :: "string \<Rightarrow> mod_case \<Rightarrow> mod_case" where
  "flag why c = c\<lparr>flaggedForPriorityReview := True, priorityReviewReason := Some why\<rparr>"

definition add_report :: "submission \<Rightarrow> string option \<Rightarrow> mod_case \<Rightarrow> mod_case" where
  "add_report q priority c = (let c' = c\<lparr>c_reports := c_reports c @ [s_report q]\<rparr> in
     case priority of None \<Rightarrow> c' | Some why \<Rightarrow> flag why c')"

text \<open>The last part of a report: the case of the material.\<close>

definition file_in_case :: "submission \<Rightarrow> int \<Rightarrow> string option \<Rightarrow> script" where
  "file_in_case q now priority = find_case (\<lambda>c. c_material c = s_material q \<and> c_status c \<noteq> Case_closed) (\<lambda>x. case x of
       None \<Rightarrow> insert_row (Case (new_case q priority now)) (Return (Reported (s_report q)))
     | Some c \<Rightarrow> update_row (case_where (\<lambda>d. c_id d = c_id c)) (on_case (add_report q priority)) (Return (Reported (s_report q))))"

definition same_evidence :: "platform \<Rightarrow> submission \<Rightarrow> (string option \<Rightarrow> script) \<Rightarrow> script" where
  "same_evidence P q k = clock (\<lambda>t. find_report (\<lambda>r. r_evidenceHash r = evidence_hash P (s_evidence q) \<and> r_material r \<noteq> s_material q \<and>
       t - 3600000 \<le> r_createdAt r) (\<lambda>x. k (case x of None \<Rightarrow> None | Some _ \<Rightarrow> Some ''Identical evidence submitted across different materials'')))"

definition cluster_reason :: string where
  "cluster_reason = ''Potential creator harassment (multiple materials reported in short window)''"

definition creator_cluster :: "submission \<Rightarrow> string \<Rightarrow> (string option \<Rightarrow> script) \<Rightarrow> script" where
  "creator_cluster q w k = clock (\<lambda>t. find_reports (\<lambda>r. r_reporter r = s_reporter q \<and> t - 3600000 \<le> r_createdAt r) (\<lambda>rs.
     let seen = js_set (map r_material rs); ids = (if s_material q \<in> set seen then seen else seen @ [s_material q]) in
     find_materials (\<lambda>m. m_id m \<in> set ids) (\<lambda>ms. let mine = filter (made_by w) ms in
       if threshold q \<le> length mine
       then update_rows (case_where (\<lambda>c. c_material c \<in> set (map m_id mine) \<and> c_status c \<noteq> Case_closed)) (on_case (flag cluster_reason))
         (k (Some cluster_reason))
       else k None)))"

definition createReport :: "platform \<Rightarrow> submission \<Rightarrow> script" where
  "createReport P q = Await (Ask (Rate_limit (s_reporter q) (rateLimit q) (windowMs q))) (\<lambda>a. case a of
     Said (Allowed False) \<Rightarrow> Return Limited
   | Said (Allowed True) \<Rightarrow>
       find_report (\<lambda>r. r_material r = s_material q \<and> r_reporter r = s_reporter q \<and> r_status r \<in> {Report_open, Report_investigating})
         (\<lambda>x. case x of Some r \<Rightarrow> Return (Already_reported (r_id r))
          | None \<Rightarrow> clock (\<lambda>now. insert_row (Report (new_report P q now)) (find_material (\<lambda>m. m_id m = s_material q) (\<lambda>m.
              let finish = (\<lambda>priority. if priority = None then same_evidence P q (file_in_case q now) else file_in_case q now priority) in
              if truthy (creator_of m) then creator_cluster q (the (creator_of m)) finish else finish None))))
   | _ \<Rightarrow> throw Call_failed)"

section \<open>Sanctions\<close>

definition proposed :: "string \<Rightarrow> string \<Rightarrow> mod_case \<Rightarrow> mod_case" where
  "proposed sanction who c = c\<lparr>c_status := Pending_approval, proposedSanction := Some sanction, proposerId := Some who\<rparr>"

definition proposeSanction :: "string \<Rightarrow> string \<Rightarrow> string \<Rightarrow> script" where
  "proposeSanction i sanction who = find_case (\<lambda>c. c_id c = i) (\<lambda>x. case x of
     None \<Rightarrow> throw Case_not_found
   | Some c \<Rightarrow>
       if c_status c \<noteq> Case_open \<and> c_status c \<noteq> Case_investigating then throw Not_active
       else if sanction \<noteq> ''suspend_material'' then throw Unsupported
       else find_material (\<lambda>m. m_id m = c_material c) (\<lambda>y. case y of
           None \<Rightarrow> throw Material_not_found
         | Some m \<Rightarrow>
             if creatorId m = Some who \<or> creatorAddress m = Some who then throw Conflict_of_interest
             else update_row (case_where (\<lambda>c. c_id c = i)) (on_case (proposed sanction who)) (Return Succeeded)))"

definition suspended :: "material \<Rightarrow> material" where
  "suspended m = m\<lparr>moderationStatus := Some ''suspended''\<rparr>"

definition sanctioned :: "string \<Rightarrow> int \<Rightarrow> mod_case \<Rightarrow> mod_case" where
  "sanctioned who now c = c\<lparr>c_status := Sanctioned, approverId := Some who, approvedAt := Some now\<rparr>"

definition closed :: "report \<Rightarrow> report" where
  "closed r = r\<lparr>r_status := Report_closed\<rparr>"

definition approveSanction :: "string \<Rightarrow> string \<Rightarrow> script" where
  "approveSanction i who = find_case (\<lambda>c. c_id c = i) (\<lambda>x. case x of
     None \<Rightarrow> throw Case_not_found
   | Some c \<Rightarrow>
       if c_status c \<noteq> Pending_approval then throw Not_pending
       else if proposerId c = Some who then throw Dual_control
       else if proposedSanction c \<noteq> Some ''suspend_material'' then throw Unsupported
       else update_row (material_where (\<lambda>m. m_id m = c_material c)) (on_material suspended)
         (clock (\<lambda>now. update_row (case_where (\<lambda>d. c_id d = i)) (on_case (sanctioned who now))
           (update_rows (report_where (\<lambda>r. r_id r \<in> set (c_reports c))) (on_report closed) (Return Succeeded)))))"

section \<open>Appeals\<close>

definition APPEAL_WINDOW :: int where "APPEAL_WINDOW = 30 * 24 * 60 * 60 * 1000"

text \<open>A missing date compares to nothing.\<close>

definition before :: "int option \<Rightarrow> int \<Rightarrow> bool" where
  "before a t = (case a of None \<Rightarrow> False | Some x \<Rightarrow> x < t)"

definition appealed :: "string \<Rightarrow> mod_case \<Rightarrow> mod_case" where
  "appealed why c = c\<lparr>c_status := Appealed, appealReason := Some why\<rparr>"

definition fileAppeal :: "string \<Rightarrow> string \<Rightarrow> string \<Rightarrow> script" where
  "fileAppeal i who why = find_case (\<lambda>c. c_id c = i) (\<lambda>x. case x of
     None \<Rightarrow> throw Case_not_found
   | Some c \<Rightarrow>
       if c_status c \<noteq> Sanctioned then throw Not_sanctioned
       else find_material (\<lambda>m. m_id m = c_material c) (\<lambda>y. case y of
           None \<Rightarrow> throw Not_creator
         | Some m \<Rightarrow>
             if creatorId m \<noteq> Some who \<and> creatorAddress m \<noteq> Some who then throw Not_creator
             else clock (\<lambda>now. if before (approvedAt c) (now - APPEAL_WINDOW) then throw Window_expired
               else update_row (case_where (\<lambda>d. c_id d = i)) (on_case (appealed why)) (Return Succeeded))))"

definition resolved :: "bool \<Rightarrow> string \<Rightarrow> mod_case \<Rightarrow> mod_case" where
  "resolved granted who c = c\<lparr>c_status := (if granted then Appeal_granted else Appeal_denied), appealReviewerId := Some who\<rparr>"

definition close_appeal :: "string \<Rightarrow> bool \<Rightarrow> string \<Rightarrow> script" where
  "close_appeal i granted who = update_row (case_where (\<lambda>d. c_id d = i)) (on_case (resolved granted who)) (Return Succeeded)"

definition reinstated :: "material \<Rightarrow> material" where
  "reinstated m = m\<lparr>moderationStatus := None\<rparr>"

definition resolveAppeal :: "string \<Rightarrow> string \<Rightarrow> string \<Rightarrow> script" where
  "resolveAppeal i decision who = find_case (\<lambda>c. c_id c = i) (\<lambda>x. case x of
     None \<Rightarrow> throw Case_not_found
   | Some c \<Rightarrow>
       if c_status c \<noteq> Appealed then throw Not_appealed
       else if decision = ''granted'' \<and> proposedSanction c = Some ''suspend_material''
       then update_row (material_where (\<lambda>m. m_id m = c_material c)) (on_material reinstated)
         (close_appeal i True who)
       else close_appeal i (decision = ''granted'') who)"

section \<open>The system\<close>

datatype call =
    Submit submission
  | Propose string string string
  | Approve string string
  | Appeal string string string
  | Resolve string string string

fun handler :: "platform \<Rightarrow> call \<Rightarrow> script" where
  "handler P (Submit q) = createReport P q"
| "handler P (Propose i sanction who) = proposeSanction i sanction who"
| "handler P (Approve i who) = approveSanction i who"
| "handler P (Appeal i who why) = fileAppeal i who why"
| "handler P (Resolve i decision who) = resolveAppeal i decision who"

end
