(* ===== verification/ModerationSafety.thy ===== *)
theory ModerationSafety imports Moderation begin

text \<open>
  Dual control of sanctions. The locale \<open>case_contract\<close> states what each change of a case and of a
  material must keep and proves once that every call keeps it; its interpretation \<open>dual\<close> ties a
  suspended material to a proposer and another approver.
\<close>

lemma row_where_iff [simp]:
  "report_where A r \<longleftrightarrow> (\<exists>x. r = Report x \<and> A x)" "case_where B r \<longleftrightarrow> (\<exists>c. r = Case c \<and> B c)"
  "material_where C r \<longleftrightarrow> (\<exists>m. r = Material m \<and> C m)"
  by (cases r; simp)+

section \<open>The contract of the calls\<close>

text \<open>A change of a case that neither proposes nor makes it pending.\<close>

definition idle :: "mod_case \<Rightarrow> mod_case \<Rightarrow> bool" where
  "idle c d \<longleftrightarrow> c_id d = c_id c \<and> c_material d = c_material c \<and> proposerId d = proposerId c \<and>
     (c_status d = Pending_approval \<longrightarrow> c_status c = Pending_approval)"

lemma idle_simps [simp]: "idle c (flag why c)" "idle c (add_report q priority c)" "idle c (sanctioned who now c)" "idle c (appealed why c)"
  "idle c (resolved granted who c)"
  by (auto simp: idle_def flag_def add_report_def sanctioned_def appealed_def resolved_def Let_def split: option.splits)

fun authorized :: "(string \<Rightarrow> string \<Rightarrow> bool) \<Rightarrow> (string \<Rightarrow> string \<Rightarrow> bool) \<Rightarrow> call \<Rightarrow> bool" where
  "authorized props apprs (Propose i sanction who) = props i who"
| "authorized props apprs (Approve i who) = apprs i who"
| "authorized props apprs _ = True"

locale case_contract = row_contract same_row \<phi> R
  for \<phi> :: "row list \<Rightarrow> row \<Rightarrow> bool" and R :: "row \<Rightarrow> row \<Rightarrow> bool" +
  fixes props :: "string \<Rightarrow> string \<Rightarrow> bool" and apprs :: "string \<Rightarrow> string \<Rightarrow> bool"
  assumes report_ok: "\<phi> s (Report r)" "r_id x = r_id r \<Longrightarrow> R (Report r) (Report x)"
    and new_ok: "\<phi> s (Case (new_case q priority now))"
    and idle_ok: "\<phi> s (Case c) \<Longrightarrow> idle c d \<Longrightarrow> \<phi> s (Case d) \<and> R (Case c) (Case d)"
    and propose_ok: "\<phi> s (Case c) \<Longrightarrow> props (c_id c) who \<Longrightarrow> \<phi> s (Case (proposed sanction who c)) \<and> R (Case c) (Case (proposed sanction who c))"
    and proposer: "\<phi> s (Case c) \<Longrightarrow> c_status c = Pending_approval \<Longrightarrow> \<exists>a. proposerId c = Some a \<and> props (c_id c) a"
    and suspend_ok: "\<phi> s (Material m) \<Longrightarrow> Case c \<in> set s \<Longrightarrow> c_material c = m_id m \<Longrightarrow> props (c_id c) a \<Longrightarrow> apprs (c_id c) b \<Longrightarrow> a \<noteq> b \<Longrightarrow>
      \<phi> s (Material (suspended m)) \<and> R (Material m) (Material (suspended m))"
    and reinstate_ok: "\<phi> s (Material m) \<Longrightarrow> \<phi> s (Material (reinstated m)) \<and> R (Material m) (Material (reinstated m))"
    and same_case: "R (Case c) y \<Longrightarrow> \<exists>d. y = Case d \<and> c_id d = c_id c \<and> c_material d = c_material c"
begin

abbreviation sound :: "script \<Rightarrow> bool" where
  "sound p \<equiv> good same_row (all_rows \<phi>) (evolves R) (\<lambda>_ _. True) p (\<lambda>_. True)"

lemma clock_rule: "(\<And>t. sound (k t)) \<Longrightarrow> sound (clock k)"
  unfolding clock_def by (rule good_read) (auto split: reply.splits answer.splits)

lemma ask_rule: "(\<And>a. sound (k a)) \<Longrightarrow> sound (Await (Ask q) k)"
  by (rule good_read) auto

lemma find_report_rule: "(\<And>x. sound (k x)) \<Longrightarrow> sound (find_report P k)"
  unfolding find_report_def by (rule good_read) (auto split: reply.splits option.splits row.splits)

lemma find_case_rule: "(\<And>x. sound (k x)) \<Longrightarrow> sound (find_case P k)"
  unfolding find_case_def by (rule good_read) (auto split: reply.splits option.splits row.splits)

lemma find_material_rule: "(\<And>x. sound (k x)) \<Longrightarrow> sound (find_material P k)"
  unfolding find_material_def by (rule good_read) (auto split: reply.splits option.splits row.splits)

lemma find_all_rule: "(\<And>x. sound (k x)) \<Longrightarrow> sound (find_reports A k)" "(\<And>y. sound (l y)) \<Longrightarrow> sound (find_materials B l)"
  unfolding find_reports_def find_materials_def by (rule good_read; auto split: reply.splits)+

lemma insert_rule: "(\<And>s. \<phi> s r) \<Longrightarrow> sound k \<Longrightarrow> sound (insert_row r k)"
  unfolding insert_row_def by (rule good_insert) (auto split: reply.splits)

lemma update_rule:
  assumes "\<And>s r. \<phi> s r \<Longrightarrow> r \<in> set s \<Longrightarrow> P r \<Longrightarrow> K s \<Longrightarrow> \<phi> s (f r) \<and> R r (f r)" "stays (all_rows \<phi>) (evolves R) K" "sound k"
  shows "good same_row (all_rows \<phi>) (evolves R) (\<lambda>_ _. True) (update_row P f k) K"
  unfolding update_row_def
  by (rule good_update) (use assms good_mono [OF assms(3), of K] in \<open>auto simp: all_rows_def split: reply.splits\<close>)

lemma change_rule: "(\<And>s r. \<phi> s r \<Longrightarrow> P r \<Longrightarrow> \<phi> s (f r) \<and> R r (f r)) \<Longrightarrow> sound k \<Longrightarrow> sound (update_row P f k)"
  by (rule update_rule) auto

lemma change_all_rule: "(\<And>s r. \<phi> s r \<Longrightarrow> P r \<Longrightarrow> \<phi> s (f r) \<and> R r (f r)) \<Longrightarrow> sound k \<Longrightarrow> sound (update_rows P f k)"
  unfolding update_rows_def by (rule good_update_many) (auto simp: all_rows_def split: reply.splits)

lemma case_rule: "(\<And>c. idle c (f c)) \<Longrightarrow> sound k \<Longrightarrow> sound (update_row (case_where P) (on_case f) k)"
  by (rule change_rule) (use idle_ok in auto)

lemma file_sound: "sound (file_in_case q now priority)"
  unfolding file_in_case_def
  by (intro find_case_rule) (auto split: option.splits intro!: insert_rule new_ok case_rule)

lemma evidence_sound: "(\<And>x. sound (k x)) \<Longrightarrow> sound (same_evidence P q k)"
  unfolding same_evidence_def by (intro clock_rule find_report_rule) auto

lemma cluster_sound: "(\<And>x. sound (k x)) \<Longrightarrow> sound (creator_cluster q w k)"
  unfolding creator_cluster_def Let_def
  by (intro clock_rule find_all_rule) (use idle_ok in \<open>auto intro!: change_all_rule\<close>)

lemma report_sound: "sound (createReport P q)"
  unfolding createReport_def Let_def
  by (rule ask_rule)
    (auto split: reply.splits answer.splits bool.splits option.splits intro!: find_report_rule clock_rule insert_rule report_ok
      find_material_rule cluster_sound evidence_sound file_sound)

lemma propose_sound: "props i who \<Longrightarrow> sound (proposeSanction i sanction who)"
  unfolding proposeSanction_def
  by (intro find_case_rule) (use propose_ok in \<open>auto split: option.splits intro!: find_material_rule change_rule\<close>)

lemma appeal_sound: "sound (fileAppeal i who why)"
  unfolding fileAppeal_def
  by (intro find_case_rule) (auto split: option.splits intro!: find_material_rule clock_rule case_rule)

lemma close_sound: "sound (close_appeal i granted who)"
  unfolding close_appeal_def by (rule case_rule) simp_all

lemma resolve_sound: "sound (resolveAppeal i decision who)"
  unfolding resolveAppeal_def
  by (intro find_case_rule) (use reinstate_ok in \<open>auto split: option.splits intro!: close_sound change_rule\<close>)

text \<open>The approver has read a pending case; whoever proposed it is somebody else.\<close>

definition decided :: "string \<Rightarrow> string \<Rightarrow> row list \<Rightarrow> bool" where
  "decided i m s \<longleftrightarrow> (\<exists>d. Case d \<in> set s \<and> c_id d = i \<and> c_material d = m)"

lemma decided_stays: "stays (all_rows \<phi>) (evolves R) (decided i m)"
  unfolding stays_def decided_def by (metis evolvesD same_case)

lemma approve_sound:
  assumes "apprs i who"
  shows "sound (approveSanction i who)"
  unfolding approveSanction_def find_case_def
proof (rule good_find_one [where K' = "\<lambda>r s. \<exists>c. r = Case c \<and> c_id c = i \<and> decided i (c_material c) s \<and>
      (c_status c = Pending_approval \<longrightarrow> (\<exists>a. proposerId c = Some a \<and> props i a))" and K'' = "\<lambda>_. True"])
  fix r
  let ?rest = "\<lambda>c. update_row (material_where (\<lambda>m. m_id m = c_material c)) (on_material suspended)
         (clock (\<lambda>now. update_row (case_where (\<lambda>d. c_id d = i)) (on_case (sanctioned who now))
           (update_rows (report_where (\<lambda>r. r_id r \<in> set (c_reports c))) (on_report closed) (Return Succeeded))))"
  have rest: "good same_row (all_rows \<phi>) (evolves R) (\<lambda>_ _. True) (?rest c) (decided i (c_material c))"
    if a: "props i a" "a \<noteq> who" for c a
  proof (rule update_rule [OF _ decided_stays])
    show "\<phi> s (on_material suspended r) \<and> R r (on_material suspended r)"
      if "\<phi> s r" "material_where (\<lambda>m. m_id m = c_material c) r" "decided i (c_material c) s" for s r
      using that suspend_ok a assms unfolding decided_def by auto
    show "sound (clock (\<lambda>now. update_row (case_where (\<lambda>d. c_id d = i)) (on_case (sanctioned who now))
           (update_rows (report_where (\<lambda>r. r_id r \<in> set (c_reports c))) (on_report closed) (Return Succeeded))))"
      by (intro clock_rule case_rule change_all_rule) (auto simp: report_ok closed_def)
  qed
  show "good same_row (all_rows \<phi>) (evolves R) (\<lambda>_ _. True) (case Row (Some r) of Row None \<Rightarrow> (case None of None \<Rightarrow> throw Case_not_found
      | Some c \<Rightarrow> if c_status c \<noteq> Pending_approval then throw Not_pending else if proposerId c = Some who then throw Dual_control
        else if proposedSanction c \<noteq> Some ''suspend_material'' then throw Unsupported else ?rest c)
      | Row (Some (Case c)) \<Rightarrow> (case Some c of None \<Rightarrow> throw Case_not_found
      | Some c \<Rightarrow> if c_status c \<noteq> Pending_approval then throw Not_pending else if proposerId c = Some who then throw Dual_control
        else if proposedSanction c \<noteq> Some ''suspend_material'' then throw Unsupported else ?rest c) | _ \<Rightarrow> throw Call_failed)
      (\<lambda>s. \<exists>c. r = Case c \<and> c_id c = i \<and> decided i (c_material c) s \<and> (c_status c = Pending_approval \<longrightarrow> (\<exists>a. proposerId c = Some a \<and> props i a)))"
  proof (cases "\<exists>c a. r = Case c \<and> c_status c = Pending_approval \<and> proposerId c = Some a \<and> props i a \<and> a \<noteq> who")
    case True
    then obtain c a where "r = Case c" "c_status c = Pending_approval" "proposerId c = Some a" "props i a" "a \<noteq> who" by blast
    then show ?thesis using good_mono [OF rest [of a c], of "\<lambda>s. c_id c = i \<and> decided i (c_material c) s"] by auto
  next
    case False
    show ?thesis
    proof (cases "\<exists>c. r = Case c \<and> (c_status c = Pending_approval \<longrightarrow> proposerId c = Some who)")
      case True
      then show ?thesis by auto
    next
      case 2: False
      show ?thesis by (rule good_absurd) (use 2 False in auto)
    qed
  qed
next
  show "stays (all_rows \<phi>) (evolves R) (\<lambda>s. \<exists>c. r = Case c \<and> c_id c = i \<and> decided i (c_material c) s \<and>
      (c_status c = Pending_approval \<longrightarrow> (\<exists>a. proposerId c = Some a \<and> props i a)))" for r
    using decided_stays unfolding stays_def by blast
next
  fix s r
  assume "all_rows \<phi> s" "r \<in> set s" "case_where (\<lambda>c. c_id c = i) r"
  then show "\<exists>c. r = Case c \<and> c_id c = i \<and> decided i (c_material c) s \<and>
      (c_status c = Pending_approval \<longrightarrow> (\<exists>a. proposerId c = Some a \<and> props i a))"
    using proposer unfolding all_rows_def decided_def by fastforce
qed (auto split: reply.splits option.splits)

lemma handler_sound: "authorized props apprs c \<Longrightarrow> sound (handler P c)"
  by (cases c) (simp_all add: report_sound propose_sound approve_sound appeal_sound resolve_sound)

end

sublocale case_contract < served: rely_guarantee same_row "all_rows \<phi>" "evolves R" "\<lambda>_ _. True" "\<lambda>_. True" "handler P"
  "authorized props apprs" for P
proof unfold_locales
  fix c
  assume "authorized props apprs c"
  then show "good same_row (all_rows \<phi>) (evolves R) (\<lambda>_ _. True) (handler P c) (\<lambda>_. True)" by (rule handler_sound)
qed (use evolves_refl evolves_trans in blast)+

section \<open>Two people\<close>

fun identity_kept :: "row \<Rightarrow> row \<Rightarrow> bool" where
  "identity_kept (Report a) (Report b) = (r_id b = r_id a)"
| "identity_kept (Case a) (Case b) = (c_id b = c_id a \<and> c_material b = c_material a)"
| "identity_kept (Material a) (Material b) = (m_id b = m_id a)"
| "identity_kept _ _ = False"

definition two_people :: "(string \<Rightarrow> string \<Rightarrow> bool) \<Rightarrow> (string \<Rightarrow> string \<Rightarrow> bool) \<Rightarrow> row list \<Rightarrow> material \<Rightarrow> bool" where
  "two_people props apprs s m \<longleftrightarrow> (\<exists>c a b. Case c \<in> set s \<and> c_material c = m_id m \<and> props (c_id c) a \<and> apprs (c_id c) b \<and> a \<noteq> b)"

fun controlled :: "(string \<Rightarrow> string \<Rightarrow> bool) \<Rightarrow> (string \<Rightarrow> string \<Rightarrow> bool) \<Rightarrow> row list \<Rightarrow> row \<Rightarrow> bool" where
  "controlled props apprs s (Report r) = True"
| "controlled props apprs s (Case c) = ((\<forall>a. proposerId c = Some a \<longrightarrow> props (c_id c) a) \<and> (c_status c = Pending_approval \<longrightarrow> proposerId c \<noteq> None))"
| "controlled props apprs s (Material m) = (moderationStatus m = Some ''suspended'' \<longrightarrow> two_people props apprs s m)"

lemma identity_trans: "identity_kept r x \<Longrightarrow> identity_kept x y \<Longrightarrow> identity_kept r y"
  by (cases r; cases x; cases y) auto

lemma identity_case: "identity_kept (Case c) r \<Longrightarrow> \<exists>d. r = Case d \<and> c_id d = c_id c \<and> c_material d = c_material c"
  by (cases r) auto

lemma two_people_mono: "evolves identity_kept s t \<Longrightarrow> two_people props apprs s m \<Longrightarrow> two_people props apprs t m"
proof -
  assume e: "evolves identity_kept s t" and "two_people props apprs s m"
  then obtain c a b where c: "Case c \<in> set s" "c_material c = m_id m" "props (c_id c) a" "apprs (c_id c) b" "a \<noteq> b"
    unfolding two_people_def by blast
  from evolvesD [OF e c(1)] obtain r where "r \<in> set t" "identity_kept (Case c) r" by blast
  moreover from identity_case [OF this(2)] obtain d where "r = Case d" "c_id d = c_id c" "c_material d = c_material c" by blast
  ultimately show "two_people props apprs t m" unfolding two_people_def using c(2-5) by metis
qed

interpretation dual: case_contract "controlled props apprs" identity_kept props apprs for props apprs
proof unfold_locales
  show "identity_kept r r" for r by (cases r) auto
  show "identity_kept r x \<Longrightarrow> identity_kept x y \<Longrightarrow> identity_kept r y" for r x y by (rule identity_trans)
  show "evolves identity_kept s t \<Longrightarrow> controlled props apprs s r \<Longrightarrow> controlled props apprs t r" for s t r
    using two_people_mono by (cases r) auto
  show "identity_kept (Case c) r \<Longrightarrow> \<exists>d. r = Case d \<and> c_id d = c_id c \<and> c_material d = c_material c" for c r
    by (rule identity_case)
qed (auto simp: idle_def new_case_def proposed_def suspended_def reinstated_def two_people_def)

section \<open>Guarantees\<close>

definition run_cases :: "platform \<Rightarrow> (row, question, answer) database \<Rightarrow> (call, answer) move list \<Rightarrow> row list \<Rightarrow>
    (row, question, answer, result) world" where
  "run_cases P D moves s = run D (handler P) moves (world_of s)"

definition untouched :: "row \<Rightarrow> bool" where
  "untouched r \<longleftrightarrow> (\<forall>c. r = Case c \<longrightarrow> proposerId c = None \<and> c_status c \<noteq> Pending_approval) \<and>
     (\<forall>m. r = Material m \<longrightarrow> moderationStatus m \<noteq> Some ''suspended'')"

text \<open>
  C14: no material is suspended by one person. If a material is suspended at the end of a run that
  began with no suspended material and no proposal, then there is a case of that material for which
  one person called for the sanction and another approved it, whatever reports, appeals and other
  calls interleave and wherever calls fail.
\<close>

theorem suspension_needs_two_people:
  assumes "documented_db same_row D" "\<forall>r \<in> set s. untouched r"
    and "Material m \<in> set (rows (run_cases P D moves s))" "moderationStatus m = Some ''suspended''"
  shows "\<exists>c a b sanction. Case c \<in> set (rows (run_cases P D moves s)) \<and> c_material c = m_id m \<and>
    Propose (c_id c) sanction a \<in> begun moves \<and> Approve (c_id c) b \<in> begun moves \<and> a \<noteq> b"
proof -
  let ?props = "\<lambda>i a. \<exists>x. Propose i x a \<in> begun moves" and ?apprs = "\<lambda>i b. Approve i b \<in> begun moves"
  have "controlled ?props ?apprs s r" if "r \<in> set s" for r
    using assms(2) that by (cases r) (auto simp: untouched_def)
  then have "all_rows (controlled ?props ?apprs) s" by (simp add: all_rows_def)
  moreover have "authorized ?props ?apprs c" if "c \<in> begun moves" for c using that by (cases c) auto
  ultimately have "all_rows (controlled ?props ?apprs) (rows (run_cases P D moves s))"
    unfolding run_cases_def by (intro dual.served.run_keeps(1) [OF assms(1) _ TrueI])
  then have "controlled ?props ?apprs (rows (run_cases P D moves s)) (Material m)" using assms(3) unfolding all_rows_def by blast
  then show ?thesis using assms(4) unfolding controlled.simps two_people_def by blast
qed

section \<open>Runs\<close>

definition flat_platform :: platform where
  "flat_platform = \<lparr>sha256 = (\<lambda>_. 0), to_json = (\<lambda>_. []), iso = (\<lambda>_. [])\<rparr>"

definition open_case :: mod_case where
  "open_case = \<lparr>c_id = ''c'', c_material = ''m'', c_status = Case_open, c_reports = [], flaggedForPriorityReview = False,
     priorityReviewReason = None, proposedSanction = None, proposerId = None, approverId = None, approvedAt = None, appealReason = None,
     appealReviewerId = None, c_createdAt = 0\<rparr>"

definition lesson :: material where
  "lesson = \<lparr>m_id = ''m'', creatorId = Some ''w'', creatorAddress = None, creator = None, moderationStatus = None\<rparr>"

definition people_of :: "row list \<Rightarrow> (case_status \<times> string option \<times> string option) list" where
  "people_of rs = concat (map (\<lambda>r. case r of Case c \<Rightarrow> [(c_status c, proposerId c, approverId c)] | _ \<Rightarrow> []) rs)"

definition statuses_of :: "row list \<Rightarrow> string option list" where
  "statuses_of rs = map moderationStatus (materials_of rs)"

definition race_moves :: "(call, answer) move list" where
  "race_moves = [Begin (Propose ''c'' ''suspend_material'' ''a''), Begin (Propose ''c'' ''suspend_material'' ''b''),
     Turn 0 (Works 0), Turn 0 (Works 0), Turn 1 (Works 0), Turn 1 (Works 0), Turn 0 (Works 0), Begin (Approve ''c'' ''b''),
     Turn 2 (Works 0), Turn 1 (Works 0), Turn 2 (Works 0), Turn 2 (Says (Time 5)), Turn 2 (Works 0), Turn 2 (Works 0)]"

text \<open>
  The record of a sanction can show one person in both roles. The writes of proposals and
  approvals do not check that the case is as it was read: a stalled second proposal lands between the
  check and the write of its own author's approval, and the sanctioned case names the same person
  as proposer and approver.
\<close>

theorem record_names_one_person:
  "people_of (rows (run_cases flat_platform (mem_db same_row) race_moves [Case open_case, Material lesson])) = [(Sanctioned, Some ''b'', Some ''b'')] \<and>
   statuses_of (rows (run_cases flat_platform (mem_db same_row) race_moves [Case open_case, Material lesson])) = [Some ''suspended'']"
  by code_simp

definition stale_moves :: "(call, answer) move list" where
  "stale_moves = [Begin (Propose ''c'' ''suspend_material'' ''a''), Turn 0 (Works 0), Turn 0 (Works 0), Turn 0 (Works 0),
     Begin (Approve ''c'' ''b''), Turn 1 (Works 0), Begin (Approve ''c'' ''d''), Turn 2 (Works 0), Turn 2 (Works 0), Turn 2 (Says (Time 5)),
     Turn 2 (Works 0), Turn 2 (Works 0), Begin (Appeal ''c'' ''w'' ''mine''), Turn 3 (Works 0), Turn 3 (Works 0), Turn 3 (Says (Time 6)),
     Turn 3 (Works 0), Begin (Resolve ''c'' ''granted'' ''e''), Turn 4 (Works 0), Turn 4 (Works 0), Turn 4 (Works 0), Turn 1 (Works 0)]"

text \<open>A stalled approval suspends the material again after the appeal was granted.\<close>

lemma granted_appeal_is_undone:
  "statuses_of (rows (run_cases flat_platform (mem_db same_row) stale_moves [Case open_case, Material lesson])) = [Some ''suspended''] \<and>
   map fst (people_of (rows (run_cases flat_platform (mem_db same_row) stale_moves [Case open_case, Material lesson]))) = [Appeal_granted]"
  by code_simp

text \<open>Nobody checks who resolves an appeal: it may be the one who proposed the sanction.\<close>

lemma proposer_may_deny_the_appeal:
  "told [Row (Some (Case (open_case\<lparr>c_status := Appealed, proposerId := Some ''a''\<rparr>))), Updated None] (resolveAppeal ''c'' ''denied'' ''a'') =
     Return Succeeded"
  by (simp add: resolveAppeal_def find_case_def close_appeal_def update_row_def)

theorem suspension_needs_two_people_witness:
  "\<exists>c a b sanction. Case c \<in> set (rows (run_cases flat_platform (mem_db same_row) race_moves [Case open_case, Material lesson])) \<and>
    c_material c = ''m'' \<and> Propose (c_id c) sanction a \<in> begun race_moves \<and> Approve (c_id c) b \<in> begun race_moves \<and> a \<noteq> b"
proof -
  have "Material (suspended lesson) \<in> set (rows (run_cases flat_platform (mem_db same_row) race_moves [Case open_case, Material lesson]))"
    by code_simp
  from suspension_needs_two_people [OF mem_documented _ this] show ?thesis
    by (simp add: untouched_def open_case_def lesson_def suspended_def)
qed

end
