(* ===== verification/Spec2Isabelle.thy ===== *)
theory Spec2Isabelle
  imports AssetDecimals TaxEstimator MaterialLifecycle InvariantChecker BoundedCache OperationQueue
    Backpressure BalanceReconciler PermissionDiff PolicySimulator ConflictResolver RefundSafety SsrfGuard SortContract Outbox
    AccessSafety CapabilitySafety OwnershipSafety WorkflowSafety AuditSafety
    IdempotencySafety PublicationSafety ModerationSafety
begin

text \<open>
  A model of the core logic of EduVault, a marketplace for educational material with settlement
  on Stellar, written in JavaScript (Next.js). The repository is one web application; its own
  logic is the library under \<open>src/src/lib\<close>. The route handlers under \<open>src/src/app/api\<close> parse
  requests and call it, workers and scripts drive it, MongoDB stores its state, and the Soroban
  contracts settle payments. The development models the parts of the library that decide
  something about money, rights and the order of concurrent work.

  The theories, each with the file it models:

  \<^item> \<open>Prelude\<close>: JavaScript numbers, strings, \<open>Map\<close> and \<open>Set\<close>, decimal numerals, shared lemmas.
  \<^item> \<open>AssetDecimals\<close> (\<open>assets/assetDecimals.js\<close>): decimal amounts and integer minor units; exact
    conversion, round trip, bound of a refund.
  \<^item> \<open>TaxEstimator\<close> (\<open>checkout/taxEstimator.js\<close>): rate table, rounding, checkout totals; the
    geolocation service is a parameter.
  \<^item> \<open>TransitionTables\<close>: the contract of a table of states (locale \<open>transition_table\<close>) and
    reachability; the material lifecycle and the entitlement statuses are its instances.
  \<^item> \<open>MaterialLifecycle\<close> (\<open>db/materialLifecycle.js\<close>): state machine of a material and its
    compare-and-set write, with other writers in between; the database calls are parameters with
    the law \<open>lawful_store\<close>, which an in-memory store is shown to satisfy.
  \<^item> \<open>InvariantChecker\<close> (\<open>transitions/invariantChecker.js\<close>): the checks of balances, settlements,
    ownership and entitlements.
  \<^item> \<open>OpSystems\<close>: the contract of a component driven by operations (locales \<open>op_system\<close> and
    \<open>clocked_op_system\<close>: an invariant every operation keeps, a clock none turns back), with the
    lemmas on whole runs; the cache, the queue and the backpressure controller are its instances.
  \<^item> \<open>BoundedCache\<close> (\<open>cache/boundedCache.js\<close>): the cache with its tag index, epochs, stale reads
    and coalesced loads, split at the awaits of a load.
  \<^item> \<open>OperationQueue\<close> (\<open>queue/operationQueue.js\<close>): the operations tabs keep in shared storage (a
    claim is split between its read and its write, the other calls are taken as a whole), leases,
    retries with backoff, conflicts, and the drain.
  \<^item> \<open>Backpressure\<close> (\<open>queue/boundedBackpressure.js\<close>): admission control with water marks.
  \<^item> \<open>BalanceReconciler\<close> (\<open>reconciliation/balanceReconciler.js\<close>): the drift report over ledger,
    database and cached balances.
  \<^item> \<open>PermissionDiff\<close> (\<open>auth/permissionDiff.js\<close>): roles, permissions and the guard of a role
    change.
  \<^item> \<open>PolicySimulator\<close> (\<open>policies/policySimulator.js\<close>): previews of policy changes and the
    gatekeeper of their commit.
  \<^item> \<open>ConflictResolver\<close> (\<open>backend/versionedWrite.js\<close>, \<open>backend/conflictResolver.js\<close>):
    compare-and-set on a version, three-way merge, and the retrying update.
  \<^item> \<open>RefundEffects\<close>, \<open>RefundPolicy\<close>, \<open>RefundWorkflow\<close>, \<open>RefundSystem\<close>, \<open>RefundSafety\<close>
    (\<open>refunds/refundWorkflow.js\<close>, \<open>refunds/refundPolicy.js\<close>, \<open>refunds/verifyRefundLimit.js\<close>): the
    life of a refund claim. An operation is a tree of its awaited calls (\<open>prog\<close>); the database,
    Stellar and the entitlement service answer the calls, and \<open>RefundSystem\<close> interleaves any number
    of workers call by call, with crashes, so the theorems of \<open>RefundSafety\<close> hold for every schedule.
  \<^item> \<open>JsNumbers\<close>: \<open>Number\<close> of a string.
  \<^item> \<open>SsrfGuard\<close> (\<open>webhooks/ssrfGuard.js\<close>): which addresses and URLs a webhook may reach,
    redirects and the limit of a body; address arithmetic is on 32-bit words.
  \<^item> \<open>SortContract\<close> (\<open>backend/sortContract.js\<close>): the order of records and events, numbered and
    keyset pages, the check of an order. The comparators implement the locale \<open>key_comparator\<close>
    (they compare keys), extended for keyset pages by \<open>item_comparator\<close>.

  \<^item> \<open>AsyncStore\<close>: asynchronous handlers as trees of awaited calls over a document database that
    behaves as its driver documents; any number of them interleaved. The locale \<open>rely_guarantee\<close> is
    the contract of a component's handlers (an invariant of the documents, a relation every change
    keeps, a promise of the results), and \<open>row_contract\<close> its form when both are stated per document.
  \<^item> \<open>Outbox\<close> (\<open>backend/outbox.js\<close>): the outbox of side effects with leases, causal order,
    acknowledgements and replays, over \<open>AsyncStore\<close>; the locale \<open>outbox_contract\<close> is interpreted
    for the causal order, the leases and the acknowledgements.

  \<^item> \<open>Json\<close>: documents and dynamic values. \<open>DocStore\<close>: the calls on collections of documents, over
    \<open>AsyncStore\<close>, with the unique indexes, and the locale \<open>docs_contract\<close> for handlers that keep an
    invariant of each document.
  \<^item> \<open>PurchaseStatus\<close> (the statuses of \<open>purchases/access.js\<close>), \<open>AccessCalls\<close>, \<open>Entitlement\<close>
    (\<open>entitlement.js\<close>): the decision whether a wallet may use a material, from the purchase, the
    cached verdict and the chain.
  \<^item> \<open>EventIdentity\<close>, \<open>EventParser\<close>, \<open>ForkDetection\<close>, \<open>EventIndexer\<close>, \<open>IndexerBatch\<close>,
    \<open>IndexerOps\<close> (\<open>indexer/eventIdentity.js\<close>, \<open>eventParser.js\<close>, \<open>forkDetection.js\<close>,
    \<open>stellarIndexer.js\<close>, \<open>recovery.js\<close>): identities and parsing of chain events, the search for a
    fork and the rewind, the handlers of the events, the batch with quarantine and dead letters,
    the operator's actions and the recovery of missed payments.
  \<^item> \<open>AccessSystem\<close>: the entry points of both as one system of sixteen calls, interleaved.
    \<open>AccessEvidence\<close> (locales \<open>evidence\<close> and \<open>answering\<close>): what a granted access was based on.
    \<open>AccessContract\<close> (locale \<open>access_contract\<close>): what all the calls keep of the purchases, interpreted
    twice in \<open>AccessSafety\<close>. \<open>ForkSafety\<close>: the search for a fork against the hashes of a chain.

  \<^item> \<open>CapabilityTokens\<close> (\<open>auth/sensitiveCapabilityToken.js\<close>): signed capabilities for sensitive
    actions and the store of consumed and revoked identifiers; JSON, base64url and the HMAC are a
    parameter, and the caller's time and the store's clock are apart. \<open>CapabilitySafety\<close> refines a
    store that keeps every consumed identifier (locale \<open>nonce_contract\<close>).
  \<^item> \<open>OwnershipTransfer\<close> (\<open>ownership/ownershipTransfer.js\<close>): proposals, accepts, closings, recovery
    and disputes over \<open>AsyncStore\<close>. The locale \<open>ownership_contract\<close> of \<open>OwnershipSafety\<close> holds what
    the handlers keep; it is interpreted for the owner, the recipient and the record of a transfer.
  \<^item> \<open>WorkflowLeases\<close> (\<open>backend/workflowOrchestrator.js\<close>, \<open>backend/workflowWorker.js\<close>): workflows with
    leases, fencing tokens and generations, and the turns of the worker. The locale
    \<open>lease_contract\<close> of \<open>WorkflowSafety\<close> is interpreted for a token that has been replaced and for the
    owner of a generation.
  \<^item> \<open>Digests\<close>: the digest of a value, from sorted keys, JSON and SHA-256. \<open>Idempotency\<close>
    (\<open>backend/idempotency.js\<close>): writes that run once per key; \<open>IdempotencySafety\<close> proves that a live record
    guards its key.
  \<^item> \<open>PublicationSaga\<close> (\<open>backend/publicationSaga.js\<close>): the steps of a publication, failure, retry and
    compensation. The locale \<open>saga_contract\<close> of \<open>PublicationSafety\<close> is interpreted for the order of the
    steps and for a saga that has been compensated.
  \<^item> \<open>Moderation\<close> (\<open>moderation/cases.js\<close>): reports, cases, sanctions and appeals. The locale
    \<open>case_contract\<close> of \<open>ModerationSafety\<close> is interpreted for the dual control of sanctions.
  \<^item> \<open>AuditLedger\<close> (\<open>backend/auditLedger.js\<close>, \<open>backend/financialAuditLedger.js\<close>): the hash-chained
    ledger both modules append to, its verification, checkpoints and exports. The locale
    \<open>ledger_contract\<close> of \<open>AuditSafety\<close> proves the handlers for any invariant that appending at the
    head keeps; its instances are the ledger that verifies and, extended to \<open>open_ledger\<close>, the ledger
    with a document that is not of the chain.

  How the code is represented. An object is a record, or the association list of its properties
  where the code treats it as a dictionary; a \<open>Map\<close> is an association list in insertion order.
  A thrown error is the left side of a sum. An asynchronous function is split at its awaits: what
  other callers do meanwhile is an argument (a changed store, a function on it, a list of
  operations), so the theorems hold for every interleaving at those points; between two awaits
  JavaScript runs one caller only. Finite numbers are exact rationals or integers: the rounding of
  binary floating point is not modelled. Strings are lists of 8-bit characters, and case mapping
  is that of the ASCII letters. Loops are structural recursion on the list they walk; the retry
  loop of \<open>updateWithConflictResolution\<close> recurses on the retries that are left, the bound the code
  has (three by default), of which \<open>stale_update_merges\<close> shows two to be enough when nobody
  interferes. A refund handler makes at most 21 awaited calls (\<open>handlers_return\<close>), a webhook
  delivery at most six requests (\<open>every_hop_is_checked\<close>; its recursion ends as the hops count up).

  What the properties show, in short: merges and lifecycle writes lose and invent nothing under
  concurrent writers; the queue, the cache and the controller keep their invariants and bounds in
  every run; an outbox lease that has not expired is not taken over, unless the intent is given back
  by a report or a replay; a granted claim of a queued operation is its tab's alone while its lease
  lives and no report reopens it; raced loads are not cached; a clean reconciliation report means
  agreement, provided the ledger knows every account with a cached balance; a suspension needs two
  people; the refund a purchase records stays within its payment, access is revoked only after
  settlement, and a worker that nothing disturbs settles its claim; the order of a list does not
  depend on how its items arrived; access to a material that is neither owned nor free is given only
  on the evidence its handler heard, and a refunded purchase stays refunded as long as no event
  reinstates it; a call with a replaced fencing token changes no workflow, whenever its turn comes,
  and a generation has one owner; a write whose key has a live record is not performed again by any
  call; forgetting expired nonces is not observable as long as the store forgets only what the
  verifier refuses as expired; the audit ledger only grows and verifies, and its checkpoints commit
  to it. The hypotheses of each theorem name the calls it leaves out.

  Where the comments, documents or tests of the code promise more than it does, a lemma shows the
  behaviour as it is: a slow refund worker pays a settled claim again, a wake-up of the outbox is
  lost, a late report delivers again, addresses of private networks pass the request guard, two tabs
  whose claims interleave are both granted, a token is presented again when the caller's time and
  the store's clock disagree, a cached balance of an unknown account counts as clean, a saga
  completes without a proof of its indexing, a deleted record does not always sort last, a replayed
  event undoes a refund, a failed lookup fakes a fork of the chain, a stale worker poisons a
  confirmed workflow, a logged rollback breaks the audit ledger, a retry overtakes a compensation,
  a write whose outcome was lost runs again, and a sanction names one person in both roles.

  Not modelled: the texts of errors, hints and reports, timestamps that are only recorded, logging
  and notification; the cryptography, network and database code around these parts; the
  user interface; the contracts under \<open>soroban\<close>, which are another program in Rust. The services of the library that only
  validate documents, string database calls together or present state are listed with the reason in
  the manifest of the development; their decisions rest on regular expressions, tuned weights or
  external services.
\<close>

end
